(* ===== verification/Market_Prelude.thy ===== *)
theory Market_Prelude
  imports Main "HOL-Library.Word" "HOL-Library.Multiset"
begin

text \<open>
  Shared vocabulary of the venus-market development: the Go values every component uses
  (addresses, CIDs, token amounts, 64-bit integers, errors), the outcome of code that may
  panic, and the generic lemmas on lists, options and maps that the component proofs share.
  The collections \<open>go_err\<close> and \<open>go_split\<close> gather the rewrite rules of the Go error model and the
  case splits of result types.
\<close>

section \<open>Go values\<close>

text \<open>
  \<open>address.Address\<close> and \<open>cid.Cid\<close> wrap a string whose empty value is \<open>Undef\<close>; \<open>String()\<close> of both
  is an injective rendering, so a value is identified with its rendering. \<open>big.Int\<close> is
  unbounded. \<open>uint64\<close> is a 64-bit word: \<open>+\<close> and \<open>-\<close> wrap around.
\<close>

type_synonym address = string
type_synonym cid = string
type_synonym bytes = string
type_synonym u64 = "64 word"

abbreviation Undef :: string where
  "Undef \<equiv> []"

text \<open>
  Errors: sentinels compared with \<open>errors.Is\<close>, plain errors made by \<open>errors.New\<close> or
  \<open>fmt.Errorf\<close> (identified by their format string), errors wrapped with \<open>%w\<close>, the typed error of
  the payment channel manager, and errors that come out of a called service.
\<close>

datatype error =
    ErrNotFound
  | ErrCanceled
  | ErrMsg string
  | ErrWrap string error
  | ErrInsufficientFunds int
  | ErrApi string

type_synonym 'a res = "error + 'a"

fun errors_Is :: "error \<Rightarrow> error \<Rightarrow> bool" where
  "errors_Is (ErrWrap m e) t = (ErrWrap m e = t \<or> errors_Is e t)"
| "errors_Is e t = (e = t)"

text \<open>\<open>errors.As\<close> against the interface \<open>insufficientFundsErr\<close>: the shortfall of the first such error
  of the chain.\<close>

fun errors_As_insufficientFunds :: "error \<Rightarrow> int option" where
  "errors_As_insufficientFunds (ErrInsufficientFunds n) = Some n"
| "errors_As_insufficientFunds (ErrWrap m e) = errors_As_insufficientFunds e"
| "errors_As_insufficientFunds _ = None"

text \<open>The Go idiom \<open>v, err := x; if err != nil { return err }; k v\<close>.\<close>

definition tryE :: "'a res \<Rightarrow> ('a \<Rightarrow> 'b res) \<Rightarrow> 'b res" where
  "tryE x k = (case x of Inl e \<Rightarrow> Inl e | Inr v \<Rightarrow> k v)"

definition failIf :: "bool \<Rightarrow> error \<Rightarrow> 'a res \<Rightarrow> 'a res" where
  "failIf b e k = (if b then Inl e else k)"

text \<open>A call that may panic returns or panics.\<close>

datatype 'a outcome = Ret 'a | Panic string

text \<open>The chain message handed to \<open>PushMessage\<close> (\<open>types.Message\<close>).\<close>

record Message =
  msgTo :: address
  msgFrom :: address
  msgValue :: int
  msgMethod :: nat
  msgParams :: bytes

text \<open>The channel of a data transfer (\<open>datatransfer.ChannelID\<close>).\<close>

record ChannelID =
  Initiator :: string
  Responder :: string
  chanID :: u64

named_theorems go_err \<open>rewrite rules of the Go error model\<close>
named_theorems go_split \<open>case splits of Go results\<close>

declare sum.splits [go_split] option.splits [go_split] if_splits [go_split]
  prod.splits [go_split] outcome.splits [go_split] Let_def [go_err]

lemma errors_Is_refl [simp, go_err]: "errors_Is e e"
  by (cases e) auto

lemma errors_Is_ErrNotFound_simps [go_err]:
  "errors_Is (ErrMsg m) ErrNotFound \<longleftrightarrow> False"
  "errors_Is (ErrApi m) ErrNotFound \<longleftrightarrow> False"
  "errors_Is (ErrWrap m e) ErrNotFound \<longleftrightarrow> errors_Is e ErrNotFound"
  by simp_all

lemma tryE_simps [simp, go_err]: "tryE (Inl e) k = Inl e" "tryE (Inr v) k = k v"
  by (simp_all add: tryE_def)

lemma tryE_Inr_iff [go_err]: "tryE x k = Inr y \<longleftrightarrow> (\<exists>v. x = Inr v \<and> k v = Inr y)"
  by (cases x) auto

lemma failIf_Inr_iff [simp, go_err]: "failIf b e k = Inr y \<longleftrightarrow> \<not> b \<and> k = Inr y"
  by (simp add: failIf_def)

lemma failIf_simps [simp]: "failIf True e k = Inl e" "failIf False e k = k"
  by (simp_all add: failIf_def)

section \<open>Lists, options and maps\<close>

lemma sum_list_map_filter_split:
  fixes f :: "'a \<Rightarrow> int"
  shows "sum_list (map f (filter P xs)) + sum_list (map f (filter (\<lambda>x. \<not> P x) xs)) = sum_list (map f xs)"
  by (induction xs) auto

lemma length_filter_less_iff: "length (filter P xs) < length xs \<longleftrightarrow> (\<exists>x\<in>set xs. \<not> P x)"
proof
  assume "length (filter P xs) < length xs"
  then have "filter P xs \<noteq> xs" by auto
  then show "\<exists>x\<in>set xs. \<not> P x" by (metis filter_True)
next
  assume "\<exists>x\<in>set xs. \<not> P x"
  then show "length (filter P xs) < length xs"
    by (auto intro: length_filter_less)
qed

lemma ran_upd_subset: "ran (m(k \<mapsto> v)) \<subseteq> insert v (ran m)"
  by (auto simp: ran_def)

lemma find_Some_filter: "find P xs = Some x \<longleftrightarrow> (\<exists>ys. filter P xs = x # ys)"
  by (induction xs) auto

lemma find_None_filter: "find P xs = None \<longleftrightarrow> filter P xs = []"
  by (induction xs) auto

end
