(* ===== verification/Datastore.thy ===== *)
theory Datastore
  imports Market_Prelude "HOL-Library.AList"
begin

text \<open>
  The key/value datastore (\<open>github.com/ipfs/go-datastore\<close>) and the CBOR codec that the badger
  repositories under \<open>src/models/badger\<close> sit on. Both are third-party code, so they are
  arguments of the repository operations: a record of operations over an arbitrary store state
  \<open>'s\<close> and an arbitrary type \<open>'v\<close> of encoded values. What the repositories rely on is the locale
  \<open>datastore\<close> (read your writes, prefix queries list every entry once, a failed write changes
  nothing; every operation may fail) and the locale \<open>codec\<close> (decoding inverts encoding). The
  association-list store \<open>map_datastore\<close> (what \<open>datastore.NewMapDatastore\<close> documents) instantiates
  them.
\<close>

section \<open>Operations\<close>

text \<open>
  A key is the namespace list given to \<open>datastore.KeyWithNamespaces\<close>. An entry of a query
  result carries an error of its own (\<open>Result.Error\<close>) or a value.
\<close>

type_synonym ds_key = "string list"

record ('s, 'v) datastore_ops =
  dsGet :: "'s \<Rightarrow> ds_key \<Rightarrow> 'v res"
  dsPut :: "'s \<Rightarrow> ds_key \<Rightarrow> 'v \<Rightarrow> 's \<times> error option"
  dsDelete :: "'s \<Rightarrow> ds_key \<Rightarrow> 's \<times> error option"
  dsQuery :: "'s \<Rightarrow> ds_key \<Rightarrow> ('v res) list res"

record ('a, 'v) codec_ops =
  Dump :: "'a \<Rightarrow> 'v res"
  Load :: "'v \<Rightarrow> 'a res"

definition under_prefix :: "ds_key \<Rightarrow> ds_key \<Rightarrow> bool" where
  "under_prefix p k \<longleftrightarrow> take (length p) k = p"

lemma under_prefix_Nil [simp]: "under_prefix [] k"
  by (simp add: under_prefix_def)

lemma under_prefix_Cons [simp]: "under_prefix [a] (b # k) \<longleftrightarrow> a = b"
  by (auto simp: under_prefix_def)

section \<open>Laws\<close>

locale datastore =
  fixes ds :: "('s, 'v) datastore_ops" and contents :: "'s \<Rightarrow> ds_key \<Rightarrow> 'v option"
  assumes get_value: "dsGet ds s k = Inr v \<Longrightarrow> contents s k = Some v"
    and get_missing: "dsGet ds s k = Inl ErrNotFound \<Longrightarrow> contents s k = None"
    and put_ok: "dsPut ds s k v = (s', None) \<Longrightarrow> contents s' = (contents s)(k \<mapsto> v)"
    and put_failed: "dsPut ds s k v = (s', Some e) \<Longrightarrow> contents s' = contents s"
    and delete_ok: "dsDelete ds s k = (s', None) \<Longrightarrow> contents s' = (contents s)(k := None)"
    and delete_failed: "dsDelete ds s k = (s', Some e) \<Longrightarrow> contents s' = contents s"
    and query_lists: "dsQuery ds s p = Inr rs \<Longrightarrow>
      \<exists>ks. distinct ks \<and> set ks = {k \<in> dom (contents s). under_prefix p k} \<and>
        length rs = length ks \<and>
        (\<forall>i < length ks. \<forall>v. rs ! i = Inr v \<longrightarrow> contents s (ks ! i) = Some v)"
begin

lemma get_after_put:
  assumes "dsPut ds s k v = (s', None)" and "dsGet ds s' k = Inr w"
  shows "w = v"
  using put_ok [OF assms(1)] get_value [OF assms(2)] by simp

lemma query_entry:
  assumes "dsQuery ds s p = Inr rs" and "Inr v \<in> set rs"
  shows "\<exists>k. under_prefix p k \<and> contents s k = Some v"
proof -
  obtain ks where ks: "set ks = {k \<in> dom (contents s). under_prefix p k}" "length rs = length ks"
    "\<forall>i < length ks. \<forall>v. rs ! i = Inr v \<longrightarrow> contents s (ks ! i) = Some v"
    using query_lists [OF assms(1)] by blast
  obtain i where i: "i < length rs" "rs ! i = Inr v"
    using assms(2) by (metis in_set_conv_nth)
  then have "contents s (ks ! i) = Some v" and "ks ! i \<in> set ks"
    using ks(2,3) by auto
  then show ?thesis using ks(1) by auto
qed

lemma query_complete:
  assumes "dsQuery ds s p = Inr rs" and "\<forall>r\<in>set rs. \<not> isl r"
    and "contents s k = Some v" and "under_prefix p k"
  shows "Inr v \<in> set rs"
proof -
  obtain ks where ks: "set ks = {k \<in> dom (contents s). under_prefix p k}" "length rs = length ks"
    "\<forall>i < length ks. \<forall>v. rs ! i = Inr v \<longrightarrow> contents s (ks ! i) = Some v"
    using query_lists [OF assms(1)] by blast
  have "k \<in> set ks" using ks(1) assms(3,4) by auto
  then obtain i where i: "i < length ks" "ks ! i = k" by (metis in_set_conv_nth)
  have "rs ! i \<in> set rs" using i(1) ks(2) by simp
  with assms(2) obtain w where w: "rs ! i = Inr w" by (metis isl_def sum.exhaust)
  with ks(3) i assms(3) have "w = v" by fastforce
  with w \<open>rs ! i \<in> set rs\<close> show ?thesis by simp
qed

end

locale codec =
  fixes cd :: "('a, 'v) codec_ops"
  assumes load_dump: "Dump cd x = Inr b \<Longrightarrow> Load cd b = Inr x"

section \<open>The in-memory datastore\<close>

definition map_datastore :: "((ds_key \<times> 'v) list, 'v) datastore_ops" where
  "map_datastore = \<lparr>
     dsGet = (\<lambda>s k. case map_of s k of None \<Rightarrow> Inl ErrNotFound | Some v \<Rightarrow> Inr v),
     dsPut = (\<lambda>s k v. (AList.update k v s, None)),
     dsDelete = (\<lambda>s k. (AList.delete k s, None)),
     dsQuery = (\<lambda>s p. Inr (map (\<lambda>k. Inr (the (map_of s k)))
                             (filter (under_prefix p) (remdups (map fst s)))))\<rparr>"

definition id_codec :: "('a, 'a) codec_ops" where
  "id_codec = \<lparr>Dump = Inr, Load = Inr\<rparr>"

lemma map_datastore_simps [simp]:
  "dsGet map_datastore s k = (case map_of s k of None \<Rightarrow> Inl ErrNotFound | Some v \<Rightarrow> Inr v)"
  "dsPut map_datastore s k v = (AList.update k v s, None)"
  "dsDelete map_datastore s k = (AList.delete k s, None)"
  "dsQuery map_datastore s p = Inr (map (\<lambda>k. Inr (the (map_of s k)))
      (filter (under_prefix p) (remdups (map fst s))))"
  by (simp_all add: map_datastore_def)

lemma id_codec_simps [simp]: "Dump id_codec x = Inr x" "Load id_codec x = Inr x"
  by (simp_all add: id_codec_def)

interpretation mapds: datastore map_datastore map_of
proof
  fix s :: "(ds_key \<times> 'v) list" and p rs
  assume q: "dsQuery map_datastore s p = Inr rs"
  let ?ks = "filter (under_prefix p) (remdups (map fst s))"
  have known: "map_of s (?ks ! i) = Some (the (map_of s (?ks ! i)))" if "i < length ?ks" for i
  proof -
    have "?ks ! i \<in> set ?ks" using that by (rule nth_mem)
    then have "?ks ! i \<in> dom (map_of s)" by (simp add: dom_map_of_conv_image_fst)
    then show ?thesis by (auto simp del: nth_mem)
  qed
  have "distinct ?ks \<and> set ?ks = {k \<in> dom (map_of s). under_prefix p k} \<and> length rs = length ?ks \<and>
      (\<forall>i < length ?ks. \<forall>v. rs ! i = Inr v \<longrightarrow> map_of s (?ks ! i) = Some v)"
    using q known by (auto simp: dom_map_of_conv_image_fst)
  then show "\<exists>ks. distinct ks \<and> set ks = {k \<in> dom (map_of s). under_prefix p k} \<and>
      length rs = length ks \<and> (\<forall>i < length ks. \<forall>v. rs ! i = Inr v \<longrightarrow> map_of s (ks ! i) = Some v)"
    by blast
qed (auto simp: update_conv' delete_conv' split: option.splits)

interpretation idcd: codec id_codec
  by unfold_locales simp

end
