(* ===== verification/Fund_Repo.thy ===== *)
theory Fund_Repo
  imports Datastore
begin

text \<open>
  The persistent state of the fund manager: \<open>repo.FundRepo\<close> (\<open>src/models/repo/repo.go\<close>) as a
  record of operations and a locale of laws, and its badger implementation
  (\<open>src/models/badger/fund.go\<close>), shown to satisfy the laws over every lawful datastore.
\<close>

section \<open>The interface\<close>

text \<open>The fields of \<open>types.FundedAddressState\<close> that the fund manager uses.\<close>

record FundedAddressState =
  Addr :: address
  AmtReserved :: int
  MsgCid :: "cid option"

record 'r FundRepo =
  frSave :: "'r \<Rightarrow> FundedAddressState \<Rightarrow> 'r \<times> error option"
  frGet :: "'r \<Rightarrow> address \<Rightarrow> FundedAddressState res"
  frList :: "'r \<Rightarrow> FundedAddressState list res"

locale fund_repo =
  fixes repo :: "'r FundRepo" and view :: "'r \<Rightarrow> address \<Rightarrow> FundedAddressState option"
    and invar :: "'r \<Rightarrow> bool"
  assumes save_ok: "frSave repo r st = (r', None) \<Longrightarrow> view r' = (view r)(Addr st \<mapsto> st)"
    and save_failed: "frSave repo r st = (r', Some e) \<Longrightarrow> view r' = view r"
    and save_invar: "invar r \<Longrightarrow> frSave repo r st = (r', err) \<Longrightarrow> invar r'"
    and get_sound: "frGet repo r a = Inr st \<Longrightarrow> view r a = Some st"
    and list_sound: "invar r \<Longrightarrow> frList repo r = Inr sts \<Longrightarrow> st \<in> set sts \<Longrightarrow> view r (Addr st) = Some st"
    and list_distinct: "invar r \<Longrightarrow> frList repo r = Inr sts \<Longrightarrow> distinct (map Addr sts)"
begin

lemma get_after_save:
  "frSave repo r st = (r', None) \<Longrightarrow> frGet repo r' (Addr st) = Inr st' \<Longrightarrow> st' = st"
  using save_ok get_sound by fastforce

lemma save_view: "frSave repo r st = (r', err) \<Longrightarrow>
    view r' = (case err of None \<Rightarrow> (view r)(Addr st \<mapsto> st) | Some e \<Rightarrow> view r)"
  by (cases err) (auto dest: save_ok save_failed)

end

section \<open>The badger implementation\<close>

definition dsKeyAddr :: string where
  "dsKeyAddr = ''Addr''"

definition dskeyForAddr :: "address \<Rightarrow> ds_key" where
  "dskeyForAddr a = [dsKeyAddr, a]"

definition SaveFundedAddressState ::
    "('s, 'v) datastore_ops \<Rightarrow> (FundedAddressState, 'v) codec_ops \<Rightarrow> 's \<Rightarrow> FundedAddressState \<Rightarrow> 's \<times> error option" where
  "SaveFundedAddressState ds cd s st =
     (let k = dskeyForAddr (Addr st) in
      case Dump cd st of
        Inl e \<Rightarrow> (s, Some e)
      | Inr b \<Rightarrow> dsPut ds s k b)"

definition GetFundedAddressState ::
    "('s, 'v) datastore_ops \<Rightarrow> (FundedAddressState, 'v) codec_ops \<Rightarrow> 's \<Rightarrow> address \<Rightarrow> FundedAddressState res" where
  "GetFundedAddressState ds cd s a =
     (case dsGet ds s (dskeyForAddr a) of
        Inl e \<Rightarrow> Inl e
      | Inr data \<Rightarrow> (case Load cd data of Inl e \<Rightarrow> Inl e | Inr st \<Rightarrow> Inr st))"

text \<open>
  The loop of \<open>ListFundedAddressState\<close>. When an entry of the query carries an error the code
  returns the variable \<open>err\<close> of the successful \<open>Query\<close> call, which is nil: the result is an
  empty list and no error.
\<close>

fun listFundedLoop :: "(FundedAddressState, 'v) codec_ops \<Rightarrow> FundedAddressState list \<Rightarrow> ('v res) list \<Rightarrow>
    FundedAddressState list res" where
  "listFundedLoop cd fas [] = Inr fas"
| "listFundedLoop cd fas (Inl _ # rs) = Inr []"
| "listFundedLoop cd fas (Inr v # rs) =
     (case Load cd v of Inl e \<Rightarrow> Inl e | Inr st \<Rightarrow> listFundedLoop cd (fas @ [st]) rs)"

definition ListFundedAddressState ::
    "('s, 'v) datastore_ops \<Rightarrow> (FundedAddressState, 'v) codec_ops \<Rightarrow> 's \<Rightarrow> FundedAddressState list res" where
  "ListFundedAddressState ds cd s =
     (case dsQuery ds s [dsKeyAddr] of Inl e \<Rightarrow> Inl e | Inr rs \<Rightarrow> listFundedLoop cd [] rs)"

definition NewFundRepo :: "('s, 'v) datastore_ops \<Rightarrow> (FundedAddressState, 'v) codec_ops \<Rightarrow> 's FundRepo" where
  "NewFundRepo ds cd = \<lparr>
     frSave = SaveFundedAddressState ds cd,
     frGet = GetFundedAddressState ds cd,
     frList = ListFundedAddressState ds cd\<rparr>"

lemma NewFundRepo_sel [simp]:
  "frSave (NewFundRepo ds cd) = SaveFundedAddressState ds cd"
  "frGet (NewFundRepo ds cd) = GetFundedAddressState ds cd"
  "frList (NewFundRepo ds cd) = ListFundedAddressState ds cd"
  by (simp_all add: NewFundRepo_def)

section \<open>The badger repository satisfies the interface\<close>

definition fund_view :: "('s \<Rightarrow> ds_key \<Rightarrow> 'v option) \<Rightarrow> (FundedAddressState, 'v) codec_ops \<Rightarrow> 's \<Rightarrow> address \<Rightarrow>
    FundedAddressState option" where
  "fund_view contents cd s a = (case contents s (dskeyForAddr a) of
     None \<Rightarrow> None | Some v \<Rightarrow> (case Load cd v of Inl _ \<Rightarrow> None | Inr st \<Rightarrow> Some st))"

definition fund_invar :: "('s \<Rightarrow> ds_key \<Rightarrow> 'v option) \<Rightarrow> (FundedAddressState, 'v) codec_ops \<Rightarrow> 's \<Rightarrow> bool" where
  "fund_invar contents cd s \<longleftrightarrow> (\<forall>k v. contents s k = Some v \<and> under_prefix [dsKeyAddr] k \<longrightarrow>
     (\<exists>st. Load cd v = Inr st \<and> k = dskeyForAddr (Addr st)))"

lemma dskeyForAddr_inj [simp]: "dskeyForAddr a = dskeyForAddr b \<longleftrightarrow> a = b"
  by (simp add: dskeyForAddr_def)

lemma listFundedLoop_list:
  "listFundedLoop cd fas rs = Inr sts \<Longrightarrow>
    sts = [] \<or> (\<exists>l. sts = fas @ l \<and> list_all2 (\<lambda>r st. \<exists>v. r = Inr v \<and> Load cd v = Inr st) rs l)"
proof (induction cd fas rs rule: listFundedLoop.induct)
  case (3 cd fas v rs)
  then obtain st where st: "Load cd v = Inr st" "listFundedLoop cd (fas @ [st]) rs = Inr sts"
    by (auto split: sum.splits)
  with "3.IH" [OF st(1)] show ?case by (auto intro: list_all2_Cons [THEN iffD2])
qed auto

locale badger_fund = datastore ds contents + codec cd
  for ds :: "('s, 'v) datastore_ops" and contents and cd :: "(FundedAddressState, 'v) codec_ops"
begin

lemma saved_view:
  assumes "SaveFundedAddressState ds cd s st = (s', None)"
  shows "fund_view contents cd s' = (fund_view contents cd s)(Addr st \<mapsto> st)"
proof -
  obtain b where b: "Dump cd st = Inr b" "dsPut ds s (dskeyForAddr (Addr st)) b = (s', None)"
    using assms by (auto simp: SaveFundedAddressState_def split: sum.splits)
  show ?thesis
    using put_ok [OF b(2)] load_dump [OF b(1)] by (auto simp: fund_view_def fun_eq_iff)
qed

lemma failed_save_contents:
  "SaveFundedAddressState ds cd s st = (s', Some e) \<Longrightarrow> contents s' = contents s"
  by (auto simp: SaveFundedAddressState_def split: sum.splits dest: put_failed)

lemma save_keeps_invar:
  assumes "fund_invar contents cd s" and "SaveFundedAddressState ds cd s st = (s', err)"
  shows "fund_invar contents cd s'"
proof (cases err)
  case None
  then obtain b where b: "Dump cd st = Inr b" "dsPut ds s (dskeyForAddr (Addr st)) b = (s', None)"
    using assms(2) by (auto simp: SaveFundedAddressState_def split: sum.splits)
  show ?thesis
    using assms(1) put_ok [OF b(2)] load_dump [OF b(1)] by (auto simp: fund_invar_def)
next
  case (Some e)
  with assms show ?thesis
    by (auto simp: fund_invar_def dest: failed_save_contents)
qed

lemma listed_keys:
  assumes "fund_invar contents cd s" and "ListFundedAddressState ds cd s = Inr sts"
  shows "distinct (map Addr sts) \<and> (\<forall>st\<in>set sts. fund_view contents cd s (Addr st) = Some st)"
proof -
  obtain rs where rs: "dsQuery ds s [dsKeyAddr] = Inr rs" "listFundedLoop cd [] rs = Inr sts"
    using assms(2) by (auto simp: ListFundedAddressState_def split: sum.splits)
  obtain ks where ks: "distinct ks" "set ks = {k \<in> dom (contents s). under_prefix [dsKeyAddr] k}"
    "length rs = length ks" "\<forall>i < length ks. \<forall>v. rs ! i = Inr v \<longrightarrow> contents s (ks ! i) = Some v"
    using query_lists [OF rs(1)] by blast
  show ?thesis
  proof (cases "sts = []")
    case False
    then have all: "list_all2 (\<lambda>r st. \<exists>v. r = Inr v \<and> Load cd v = Inr st) rs sts"
      using listFundedLoop_list [OF rs(2)] by auto
    have entry: "ks ! i = dskeyForAddr (Addr (sts ! i)) \<and> fund_view contents cd s (Addr (sts ! i)) = Some (sts ! i)"
      if i: "i < length sts" for i
    proof -
      obtain v where v: "rs ! i = Inr v" "Load cd v = Inr (sts ! i)" and li: "i < length ks"
        using all i ks(3) by (auto simp: list_all2_conv_all_nth)
      then have c: "contents s (ks ! i) = Some v" and "ks ! i \<in> set ks" using ks(4) by auto
      then have "ks ! i = dskeyForAddr (Addr (sts ! i))"
        using assms(1) v(2) ks(2) by (fastforce simp: fund_invar_def)
      with c v(2) show ?thesis by (simp add: fund_view_def)
    qed
    have "length sts = length ks" using all ks(3) by (auto dest: list_all2_lengthD)
    then have "map (dskeyForAddr \<circ> Addr) sts = ks" using entry by (auto intro: nth_equalityI)
    then have "distinct (map Addr sts)" using ks(1) by (auto simp: distinct_map inj_on_def)
    with entry show ?thesis by (auto simp: in_set_conv_nth)
  qed simp
qed

end

sublocale badger_fund \<subseteq> repo: fund_repo "NewFundRepo ds cd" "fund_view contents cd" "fund_invar contents cd"
proof unfold_locales
  show "frGet (NewFundRepo ds cd) r a = Inr st \<Longrightarrow> fund_view contents cd r a = Some st" for r a st
    by (auto simp: GetFundedAddressState_def fund_view_def split: sum.splits dest: get_value)
  show "frSave (NewFundRepo ds cd) r st = (r', Some e) \<Longrightarrow> fund_view contents cd r' = fund_view contents cd r" for r st r' e
    by (auto simp: fund_view_def fun_eq_iff dest: failed_save_contents)
qed (auto intro: saved_view save_keeps_invar dest: listed_keys)

context badger_fund
begin

lemma fund_repo_laws: "fund_repo (NewFundRepo ds cd) (fund_view contents cd) (fund_invar contents cd)"
  by (rule repo.fund_repo_axioms)

end

interpretation mapfund: badger_fund map_datastore map_of id_codec
  by unfold_locales

end
