(* ===== verification/Fund_Manager.thy ===== *)
theory Fund_Manager
  imports Fund_Repo
begin

text \<open>
  The fund manager (\<open>src/fundmgr/fundmanager.go\<close>): per address, queues of reserve, release and
  withdraw requests, processed one on-chain message at a time.

  A \<open>*fundRequest\<close> is a reference (a natural number) into the store \<open>fm_reqs\<close>, because a queue and
  the lists \<open>covered\<close>, \<open>added\<close> and \<open>allowed\<close> alias the same request. Closing the channel
  \<open>completed\<close> twice panics, so \<open>Complete\<close> returns an \<open>outcome\<close>. A goroutine that the code starts is an
  entry of \<open>fm_procs\<close> (a pending call of \<open>process\<close>) or \<open>fm_waits\<close> (a pending \<open>WaitMsg\<close>); a critical
  section under \<open>a.lk\<close> is one step. The chain node, the messager and the parameter serializer are
  the record \<open>fundManagerAPI\<close>, chosen anew at every step; messages accepted by \<open>PushMessage\<close> are
  logged in \<open>fm_sent\<close>. Left out: the test hook \<open>onProcessStartListener\<close> and debug logging.
\<close>

section \<open>Environment\<close>

record MarketBalance =
  Escrow :: int
  Locked :: int

record fundManagerAPI =
  StateMarketBalance :: "address \<Rightarrow> MarketBalance res"
  fmPushMessage :: "Message \<Rightarrow> cid res"
  SerializeAddress :: "address \<Rightarrow> bytes res"
  SerializeWithdrawBalanceParams :: "address \<Rightarrow> int \<Rightarrow> bytes res"
  StorageMarketActorAddr :: address
  MethodAddBalance :: nat
  MethodWithdrawBalance :: nat

definition AvailableFunds :: "fundManagerAPI \<Rightarrow> address \<Rightarrow> int res" where
  "AvailableFunds api addr =
     (case StateMarketBalance api addr of
        Inl e \<Rightarrow> Inl e
      | Inr bal \<Rightarrow> Inr (Escrow bal - Locked bal))"

definition AddFunds :: "fundManagerAPI \<Rightarrow> address \<Rightarrow> address \<Rightarrow> int \<Rightarrow> Message list \<Rightarrow> cid res \<times> Message list" where
  "AddFunds api wallet addr amt sent =
     (case SerializeAddress api addr of
        Inl e \<Rightarrow> (Inl e, sent)
      | Inr params \<Rightarrow>
          (let msg = \<lparr>msgTo = StorageMarketActorAddr api, msgFrom = wallet, msgValue = amt,
                      msgMethod = MethodAddBalance api, msgParams = params\<rparr>
           in case fmPushMessage api msg of
                Inl e \<Rightarrow> (Inl e, sent)
              | Inr msgId \<Rightarrow> (Inr msgId, sent @ [msg])))"

definition WithdrawFunds :: "fundManagerAPI \<Rightarrow> address \<Rightarrow> address \<Rightarrow> int \<Rightarrow> Message list \<Rightarrow> cid res \<times> Message list" where
  "WithdrawFunds api wallet addr amt sent =
     (case SerializeWithdrawBalanceParams api addr amt of
        Inl e \<Rightarrow> (Inl (ErrWrap ''serializing params'' e), sent)
      | Inr params \<Rightarrow>
          (let msg = \<lparr>msgTo = StorageMarketActorAddr api, msgFrom = wallet, msgValue = 0,
                      msgMethod = MethodWithdrawBalance api, msgParams = params\<rparr>
           in case fmPushMessage api msg of
                Inl e \<Rightarrow> (Inl e, sent)
              | Inr msgId \<Rightarrow> (Inr msgId, sent @ [msg])))"

section \<open>Requests\<close>

record reqResult =
  rr_msgCid :: cid
  rr_err :: "error option"

text \<open>
  \<open>ctxErr\<close> is \<open>ctx.Err()\<close>, \<open>completed\<close> says that the channel of that name is closed, \<open>Result\<close> is
  the value the waiting caller received.
\<close>

record fundRequest =
  ctxErr :: "error option"
  req_amt :: int
  req_completed :: bool
  Wallet :: address
  Result :: "reqResult option"

type_synonym reqs = "nat \<Rightarrow> fundRequest"

definition newFundRequest :: "error option \<Rightarrow> address \<Rightarrow> int \<Rightarrow> fundRequest" where
  "newFundRequest ctx wallet amt =
     \<lparr>ctxErr = ctx, req_amt = amt, req_completed = False, Wallet = wallet, Result = None\<rparr>"

definition Amount :: "fundRequest \<Rightarrow> int" where
  "Amount frp = (if ctxErr frp \<noteq> None then 0 else req_amt frp)"

text \<open>
  \<open>Complete\<close> hands the result to the caller unless the caller's context is done (the caller then
  returns \<open>ctx.Err()\<close>), and closes \<open>completed\<close>; on a request that is already completed the
  \<open>close\<close> panics.
\<close>

definition Complete :: "reqs \<Rightarrow> nat \<Rightarrow> cid \<Rightarrow> error option \<Rightarrow> reqs outcome" where
  "Complete h p msgCid err =
     (if req_completed (h p) then Panic ''close of closed channel''
      else Ret (h(p := (h p)\<lparr>req_completed := True,
        Result := (if ctxErr (h p) \<noteq> None then Result (h p)
                   else Some \<lparr>rr_msgCid = msgCid, rr_err = err\<rparr>)\<rparr>)))"

definition Completed :: "reqs \<Rightarrow> nat \<Rightarrow> bool" where
  "Completed h p = req_completed (h p)"

fun completeAll :: "reqs \<Rightarrow> nat list \<Rightarrow> cid \<Rightarrow> error option \<Rightarrow> reqs outcome" where
  "completeAll h [] c err = Ret h"
| "completeAll h (p # ps) c err =
     (case Complete h p c err of Panic m \<Rightarrow> Panic m | Ret h' \<Rightarrow> completeAll h' ps c err)"

definition filterOutProcessedReqs :: "reqs \<Rightarrow> nat list \<Rightarrow> nat list" where
  "filterOutProcessedReqs h reqs = filter (\<lambda>req. \<not> Completed h req) reqs"

section \<open>State\<close>

record fundedAddress =
  fa_state :: FundedAddressState
  reservations :: "nat list"
  releases :: "nat list"
  withdrawals :: "nat list"

record 'r FundManager =
  fundedAddrs :: "address \<Rightarrow> fundedAddress option"
  fm_str :: 'r
  fm_reqs :: reqs
  fm_nreqs :: nat
  fm_sent :: "Message list"
  fm_waits :: "(address \<times> cid) list"
  fm_procs :: "address list"

definition newFundManager :: "'r \<Rightarrow> 'r FundManager" where
  "newFundManager store =
     \<lparr>fundedAddrs = Map.empty, fm_str = store, fm_reqs = (\<lambda>_. newFundRequest None Undef 0),
      fm_nreqs = 0, fm_sent = [], fm_waits = [], fm_procs = []\<rparr>"

definition newFundedAddress :: "address \<Rightarrow> fundedAddress" where
  "newFundedAddress addr =
     \<lparr>fa_state = \<lparr>Addr = addr, AmtReserved = 0, MsgCid = None\<rparr>,
      reservations = [], releases = [], withdrawals = []\<rparr>"

definition getFundedAddress :: "'r FundManager \<Rightarrow> address \<Rightarrow> fundedAddress \<times> 'r FundManager" where
  "getFundedAddress fm addr =
     (case fundedAddrs fm addr of
        Some fa \<Rightarrow> (fa, fm)
      | None \<Rightarrow> (let fa = newFundedAddress addr
                 in (fa, fm\<lparr>fundedAddrs := (fundedAddrs fm)(addr \<mapsto> fa)\<rparr>)))"

section \<open>Splitting reservations\<close>

fun splitReservationsLoop :: "reqs \<Rightarrow> nat list \<Rightarrow> int \<Rightarrow> address \<Rightarrow> nat list \<Rightarrow> nat list \<Rightarrow> int \<Rightarrow>
    nat list \<times> nat list \<times> int \<times> int" where
  "splitReservationsLoop h [] releaseAmt batchWallet toCancel toAdd toAddAmt =
     (toCancel, toAdd, toAddAmt, releaseAmt)"
| "splitReservationsLoop h (req # rest) releaseAmt batchWallet toCancel toAdd toAddAmt =
     (let amt = Amount (h req) in
      if amt \<le> releaseAmt
      then splitReservationsLoop h rest (releaseAmt - amt) batchWallet (toCancel @ [req]) toAdd toAddAmt
      else
        (let batchWallet' = (if batchWallet = Undef then Wallet (h req) else batchWallet) in
         if batchWallet' = Wallet (h req)
         then splitReservationsLoop h rest 0 batchWallet' toCancel (toAdd @ [req]) (toAddAmt + (amt - releaseAmt))
         else splitReservationsLoop h rest releaseAmt batchWallet' toCancel toAdd toAddAmt))"

definition splitReservations :: "reqs \<Rightarrow> nat list \<Rightarrow> nat list \<Rightarrow> nat list \<times> nat list \<times> int" where
  "splitReservations h rsvs rels =
     (let releaseAmt = foldl (\<lambda>s req. s + Amount (h req)) 0 rels;
          (toCancel, toAdd, toAddAmt, rel) = splitReservationsLoop h rsvs releaseAmt Undef [] [] 0;
          reservedDelta = toAddAmt - rel
      in (toCancel, toAdd, reservedDelta))"

section \<open>Processing reservations and releases\<close>

record processResult =
  covered :: "nat list"
  added :: "nat list"
  pr_amtReserved :: int
  pr_msgCid :: "cid option"

text \<open>The body of \<open>processReservations\<close>, before its deferred function runs.\<close>

definition processReservationsBody :: "fundManagerAPI \<Rightarrow> FundedAddressState \<Rightarrow> reqs \<Rightarrow> nat list \<Rightarrow> nat list \<Rightarrow>
    Message list \<Rightarrow> (processResult \<times> error option \<times> Message list) outcome" where
  "processReservationsBody api st h rsvs rels sent =
     (let (toCancel, toAdd, reservedDelta) = splitReservations h rsvs rels;
          reserved0 = AmtReserved st + reservedDelta;
          reserved = (if reserved0 < 0 then 0 else reserved0);
          res = \<lparr>covered = toCancel, added = [], pr_amtReserved = reserved, pr_msgCid = None\<rparr>;
          amt = (if length toAdd > 0 \<and> reserved > 0
                 then (case AvailableFunds api (Addr st) of
                         Inl err \<Rightarrow> Inl err
                       | Inr avail \<Rightarrow> Inr (reserved - avail))
                 else Inr 0)
      in case amt of
           Inl err \<Rightarrow> Ret (res, Some err, sent)
         | Inr amtToAdd \<Rightarrow>
             if amtToAdd \<le> 0 then Ret (res\<lparr>covered := toCancel @ toAdd\<rparr>, None, sent)
             else (case toAdd of
                 [] \<Rightarrow> Panic ''index out of range''
               | first # _ \<Rightarrow>
                   (case AddFunds api (Wallet (h first)) (Addr st) amtToAdd sent of
                      (Inl err, sent') \<Rightarrow> Ret (res, Some err, sent')
                    | (Inr addFundsCid, sent') \<Rightarrow>
                        Ret (res\<lparr>added := toAdd, pr_msgCid := Some addFundsCid\<rparr>, None, sent'))))"

text \<open>The deferred function: every request of a failed batch gets the error; of a successful one
  the releases and the covered reservations are completed, and the added ones with the message.\<close>

definition completeReservations :: "reqs \<Rightarrow> nat list \<Rightarrow> nat list \<Rightarrow> processResult \<Rightarrow> error option \<Rightarrow> reqs outcome" where
  "completeReservations h rsvs rels pr prerr =
     (case prerr of
        Some e \<Rightarrow> completeAll h (rsvs @ rels) Undef (Some e)
      | None \<Rightarrow>
          (case completeAll h rels Undef None of
             Panic m \<Rightarrow> Panic m
           | Ret h1 \<Rightarrow>
               (case completeAll h1 (covered pr) Undef None of
                  Panic m \<Rightarrow> Panic m
                | Ret h2 \<Rightarrow>
                    (case pr_msgCid pr of
                       None \<Rightarrow> Ret h2
                     | Some c \<Rightarrow> completeAll h2 (added pr) c None))))"

definition processReservations :: "fundManagerAPI \<Rightarrow> FundedAddressState \<Rightarrow> nat list \<Rightarrow> nat list \<Rightarrow>
    'r FundManager \<Rightarrow> (processResult \<times> error option \<times> 'r FundManager) outcome" where
  "processReservations api st rsvs rels fm =
     (case processReservationsBody api st (fm_reqs fm) rsvs rels (fm_sent fm) of
        Panic m \<Rightarrow> Panic m
      | Ret (pr, prerr, sent') \<Rightarrow>
          (case completeReservations (fm_reqs fm) rsvs rels pr prerr of
             Panic m \<Rightarrow> Panic m
           | Ret h' \<Rightarrow> Ret (pr, prerr, fm\<lparr>fm_reqs := h', fm_sent := sent'\<rparr>)))"

section \<open>Processing withdrawals\<close>

definition errInsufficientWithdrawal :: error where
  "errInsufficientWithdrawal = ErrMsg ''insufficient funds for withdrawal''"

fun processWithdrawalsLoop :: "int \<Rightarrow> nat list \<Rightarrow> int \<Rightarrow> int \<Rightarrow> nat list \<Rightarrow> address \<Rightarrow> reqs \<Rightarrow>
    (int \<times> nat list \<times> reqs) outcome" where
  "processWithdrawalsLoop netAvail [] withdrawalAmt allowedAmt allowed batchWallet h =
     Ret (allowedAmt, allowed, h)"
| "processWithdrawalsLoop netAvail (req # rest) withdrawalAmt allowedAmt allowed batchWallet h =
     (let amt = Amount (h req) in
      if amt = 0
      then (case Complete h req Undef None of
              Panic m \<Rightarrow> Panic m
            | Ret h' \<Rightarrow> processWithdrawalsLoop netAvail rest withdrawalAmt allowedAmt allowed batchWallet h')
      else
        (let newWithdrawalAmt = withdrawalAmt + amt in
         if newWithdrawalAmt > netAvail
         then (case Complete h req Undef (Some errInsufficientWithdrawal) of
                 Panic m \<Rightarrow> Panic m
               | Ret h' \<Rightarrow> processWithdrawalsLoop netAvail rest withdrawalAmt allowedAmt allowed batchWallet h')
         else
           (let batchWallet' = (if batchWallet = Undef then Wallet (h req) else batchWallet) in
            if Wallet (h req) \<noteq> batchWallet'
            then processWithdrawalsLoop netAvail rest withdrawalAmt allowedAmt allowed batchWallet' h
            else processWithdrawalsLoop netAvail rest newWithdrawalAmt (allowedAmt + amt)
                   (allowed @ [req]) batchWallet' h)))"

text \<open>The deferred function of \<open>processWithdrawals\<close> on an error: every request of the queue is
  completed with it.\<close>

definition failWithdrawals :: "reqs \<Rightarrow> nat list \<Rightarrow> error \<Rightarrow> reqs outcome" where
  "failWithdrawals h wds e = completeAll h wds Undef (Some e)"

definition processWithdrawals :: "fundManagerAPI \<Rightarrow> FundedAddressState \<Rightarrow> nat list \<Rightarrow> 'r FundManager \<Rightarrow>
    (cid \<times> error option \<times> 'r FundManager) outcome" where
  "processWithdrawals api st wds fm =
     (case AvailableFunds api (Addr st) of
        Inl err \<Rightarrow>
          (case failWithdrawals (fm_reqs fm) wds err of
             Panic m \<Rightarrow> Panic m
           | Ret h \<Rightarrow> Ret (Undef, Some err, fm\<lparr>fm_reqs := h\<rparr>))
      | Inr avail \<Rightarrow>
          (let netAvail = avail - AmtReserved st in
           case processWithdrawalsLoop netAvail wds 0 0 [] Undef (fm_reqs fm) of
             Panic m \<Rightarrow> Panic m
           | Ret (allowedAmt, allowed, h) \<Rightarrow>
               if allowedAmt = 0
               then (case completeAll h allowed Undef None of
                       Panic m \<Rightarrow> Panic m
                     | Ret h' \<Rightarrow> Ret (Undef, None, fm\<lparr>fm_reqs := h'\<rparr>))
               else (case allowed of
                   [] \<Rightarrow> Panic ''index out of range''
                 | first # _ \<Rightarrow>
                     (case WithdrawFunds api (Wallet (h first)) (Addr st) allowedAmt (fm_sent fm) of
                        (Inl err, sent') \<Rightarrow>
                          (case failWithdrawals h wds err of
                             Panic m \<Rightarrow> Panic m
                           | Ret h' \<Rightarrow> Ret (Undef, Some err, fm\<lparr>fm_reqs := h', fm_sent := sent'\<rparr>))
                      | (Inr withdrawFundsCid, sent') \<Rightarrow>
                          (case completeAll h allowed withdrawFundsCid None of
                             Panic m \<Rightarrow> Panic m
                           | Ret h' \<Rightarrow> Ret (withdrawFundsCid, None, fm\<lparr>fm_reqs := h', fm_sent := sent'\<rparr>))))))"

section \<open>State changes and the queue processor\<close>

definition saveState :: "'r FundRepo \<Rightarrow> fundedAddress \<Rightarrow> 'r FundManager \<Rightarrow> 'r FundManager" where
  "saveState repo a fm = fm\<lparr>fm_str := fst (frSave repo (fm_str fm) (fa_state a))\<rparr>"

definition applyStateChange :: "'r FundRepo \<Rightarrow> cid option \<Rightarrow> int option \<Rightarrow> fundedAddress \<Rightarrow> 'r FundManager \<Rightarrow>
    fundedAddress \<times> 'r FundManager" where
  "applyStateChange repo msgCid amtReserved a fm =
     (let st1 = (fa_state a)\<lparr>MsgCid := msgCid\<rparr>;
          st2 = (case amtReserved of None \<Rightarrow> st1 | Some amt \<Rightarrow> st1\<lparr>AmtReserved := amt\<rparr>);
          a' = a\<lparr>fa_state := st2\<rparr>
      in (a', saveState repo a' fm))"

definition clearWaitState :: "'r FundRepo \<Rightarrow> fundedAddress \<Rightarrow> 'r FundManager \<Rightarrow> fundedAddress \<times> 'r FundManager" where
  "clearWaitState repo a fm =
     (let a' = a\<lparr>fa_state := (fa_state a)\<lparr>MsgCid := None\<rparr>\<rparr> in (a', saveState repo a' fm))"

definition startWaitForResults :: "fundedAddress \<Rightarrow> cid \<Rightarrow> 'r FundManager \<Rightarrow> 'r FundManager" where
  "startWaitForResults a msgCid fm = fm\<lparr>fm_waits := fm_waits fm @ [(Addr (fa_state a), msgCid)]\<rparr>"

definition goProcess :: "fundedAddress \<Rightarrow> 'r FundManager \<Rightarrow> 'r FundManager" where
  "goProcess a fm = fm\<lparr>fm_procs := fm_procs fm @ [Addr (fa_state a)]\<rparr>"

definition processReservationQueue :: "fundManagerAPI \<Rightarrow> 'r FundRepo \<Rightarrow> fundedAddress \<Rightarrow> 'r FundManager \<Rightarrow>
    (fundedAddress \<times> 'r FundManager) outcome" where
  "processReservationQueue api repo a fm =
     (case processReservations api (fa_state a) (reservations a) (releases a) fm of
        Panic m \<Rightarrow> Panic m
      | Ret (res, err, fm1) \<Rightarrow>
          (let (a2, fm2) = (if err = None
                 then applyStateChange repo (pr_msgCid res) (Some (pr_amtReserved res)) a fm1
                 else (a, fm1))
           in Ret (a2\<lparr>reservations := filterOutProcessedReqs (fm_reqs fm2) (reservations a2),
                      releases := filterOutProcessedReqs (fm_reqs fm2) (releases a2)\<rparr>, fm2)))"

definition processWithdrawalQueue :: "fundManagerAPI \<Rightarrow> 'r FundRepo \<Rightarrow> fundedAddress \<Rightarrow> 'r FundManager \<Rightarrow>
    (fundedAddress \<times> 'r FundManager) outcome" where
  "processWithdrawalQueue api repo a fm =
     (case processWithdrawals api (fa_state a) (withdrawals a) fm of
        Panic m \<Rightarrow> Panic m
      | Ret (withdrawalCid, err, fm1) \<Rightarrow>
          (let (a2, fm2) = (if err = None \<and> withdrawalCid \<noteq> Undef
                 then applyStateChange repo (Some withdrawalCid) None a fm1
                 else (a, fm1))
           in Ret (a2\<lparr>withdrawals := filterOutProcessedReqs (fm_reqs fm2) (withdrawals a2)\<rparr>, fm2)))"

definition process :: "fundManagerAPI \<Rightarrow> 'r FundRepo \<Rightarrow> fundedAddress \<Rightarrow> 'r FundManager \<Rightarrow>
    (fundedAddress \<times> 'r FundManager) outcome" where
  "process api repo a fm =
     (if MsgCid (fa_state a) \<noteq> None then Ret (a, fm)
      else
        (let haveReservations = (length (reservations a) > 0 \<or> length (releases a) > 0);
             haveWithdrawals = (length (withdrawals a) > 0)
         in if \<not> haveReservations \<and> \<not> haveWithdrawals then Ret (a, fm)
            else
              (case (if haveReservations then processReservationQueue api repo a fm else Ret (a, fm)) of
                 Panic m \<Rightarrow> Panic m
               | Ret (a1, fm1) \<Rightarrow>
                   (case (if haveWithdrawals \<and> MsgCid (fa_state a1) = None \<and> length (reservations a1) = 0
                          then processWithdrawalQueue api repo a1 fm1 else Ret (a1, fm1)) of
                      Panic m \<Rightarrow> Panic m
                    | Ret (a2, fm2) \<Rightarrow>
                        (let fm3 = (case MsgCid (fa_state a2) of
                                      None \<Rightarrow> fm2
                                    | Some c \<Rightarrow> startWaitForResults a2 c fm2)
                         in Ret (a2, goProcess a2 fm3))))))"

section \<open>Operations of the manager\<close>

definition setFundedAddress :: "fundedAddress \<Rightarrow> 'r FundManager \<Rightarrow> 'r FundManager" where
  "setFundedAddress a fm = fm\<lparr>fundedAddrs := (fundedAddrs fm)(Addr (fa_state a) \<mapsto> a)\<rparr>"

datatype queue = Reservations | Releases | Withdrawals

definition enqueue :: "queue \<Rightarrow> nat \<Rightarrow> fundedAddress \<Rightarrow> fundedAddress" where
  "enqueue q p a = (case q of
       Reservations \<Rightarrow> a\<lparr>reservations := reservations a @ [p]\<rparr>
     | Releases \<Rightarrow> a\<lparr>releases := releases a @ [p]\<rparr>
     | Withdrawals \<Rightarrow> a\<lparr>withdrawals := withdrawals a @ [p]\<rparr>)"

text \<open>
  \<open>requestAndWait\<close> up to its \<open>select\<close>: a new request is appended to the queue and a call of
  \<open>process\<close> is scheduled. \<open>awaitResult\<close> is the \<open>select\<close>: nothing while it blocks.
\<close>

definition requestAndWait :: "error option \<Rightarrow> address \<Rightarrow> int \<Rightarrow> queue \<Rightarrow> fundedAddress \<Rightarrow> 'r FundManager \<Rightarrow>
    nat \<times> 'r FundManager" where
  "requestAndWait ctx wallet amt q a fm =
     (let p = fm_nreqs fm;
          a' = enqueue q p a;
          fm1 = fm\<lparr>fm_reqs := (fm_reqs fm)(p := newFundRequest ctx wallet amt), fm_nreqs := Suc p\<rparr>
      in (p, goProcess a' (setFundedAddress a' fm1)))"

definition awaitResult :: "fundRequest \<Rightarrow> (cid \<times> error option) option" where
  "awaitResult r =
     (case Result r of
        Some res \<Rightarrow> Some (rr_msgCid res, rr_err res)
      | None \<Rightarrow> (case ctxErr r of Some e \<Rightarrow> Some (Undef, Some e) | None \<Rightarrow> None))"

definition Reserve :: "'r FundManager \<Rightarrow> error option \<Rightarrow> address \<Rightarrow> address \<Rightarrow> int \<Rightarrow> nat \<times> 'r FundManager" where
  "Reserve fm ctx wallet addr amt =
     (let (a, fm1) = getFundedAddress fm addr in requestAndWait ctx wallet amt Reservations a fm1)"

definition Release :: "'r FundManager \<Rightarrow> address \<Rightarrow> int \<Rightarrow> nat \<times> 'r FundManager" where
  "Release fm addr amt =
     (let (a, fm1) = getFundedAddress fm addr in requestAndWait None Undef amt Releases a fm1)"

definition Withdraw :: "'r FundManager \<Rightarrow> error option \<Rightarrow> address \<Rightarrow> address \<Rightarrow> int \<Rightarrow> nat \<times> 'r FundManager" where
  "Withdraw fm ctx wallet addr amt =
     (let (a, fm1) = getFundedAddress fm addr in requestAndWait ctx wallet amt Withdrawals a fm1)"

definition GetReserved :: "'r FundManager \<Rightarrow> address \<Rightarrow> int \<times> 'r FundManager" where
  "GetReserved fm addr = (let (a, fm1) = getFundedAddress fm addr in (AmtReserved (fa_state a), fm1))"

definition fundedAddress_start :: "fundedAddress \<Rightarrow> 'r FundManager \<Rightarrow> 'r FundManager" where
  "fundedAddress_start a fm =
     (case MsgCid (fa_state a) of None \<Rightarrow> fm | Some c \<Rightarrow> startWaitForResults a c fm)"

fun startLoop :: "FundedAddressState list \<Rightarrow> 'r FundManager \<Rightarrow> 'r FundManager" where
  "startLoop [] fm = fm"
| "startLoop (st # sts) fm =
     (let fa = (newFundedAddress (Addr st))\<lparr>fa_state := st\<rparr>
      in startLoop sts (fundedAddress_start fa (setFundedAddress fa fm)))"

definition Start :: "'r FundRepo \<Rightarrow> 'r FundManager \<Rightarrow> 'r FundManager \<times> error option" where
  "Start repo fm =
     (case frList repo (fm_str fm) of
        Inl e \<Rightarrow> (fm, Some e)
      | Inr states \<Rightarrow> (startLoop states fm, None))"

text \<open>The end of the goroutine of \<open>startWaitForResults\<close>: the wait state is cleared, whatever
  \<open>WaitMsg\<close> returned, and the queue is processed again.\<close>

definition waitFinished :: "'r FundRepo \<Rightarrow> fundedAddress \<Rightarrow> 'r FundManager \<Rightarrow> 'r FundManager" where
  "waitFinished repo a fm =
     (let (a', fm1) = clearWaitState repo a fm in goProcess a' (setFundedAddress a' fm1))"

section \<open>Steps\<close>

definition cancelRequest :: "nat \<Rightarrow> error \<Rightarrow> 'r FundManager \<Rightarrow> 'r FundManager" where
  "cancelRequest p e fm = fm\<lparr>fm_reqs := (fm_reqs fm)(p := (fm_reqs fm p)\<lparr>ctxErr := Some e\<rparr>)\<rparr>"

inductive fm_step :: "'r FundRepo \<Rightarrow> 'r FundManager \<Rightarrow> 'r FundManager \<Rightarrow> bool" for repo where
  step_reserve: "fm_step repo fm (snd (Reserve fm ctx wallet addr amt))"
| step_release: "fm_step repo fm (snd (Release fm addr amt))"
| step_withdraw: "fm_step repo fm (snd (Withdraw fm ctx wallet addr amt))"
| step_getReserved: "fm_step repo fm (snd (GetReserved fm addr))"
| step_cancel: "p < fm_nreqs fm \<Longrightarrow> fm_step repo fm (cancelRequest p e fm)"
| step_process: "fm_procs fm = xs @ addr # ys \<Longrightarrow> fundedAddrs fm addr = Some a \<Longrightarrow>
     process api repo a (fm\<lparr>fm_procs := xs @ ys\<rparr>) = Ret (a', fm') \<Longrightarrow>
     fm_step repo fm (setFundedAddress a' fm')"
| step_waited: "fm_waits fm = xs @ (addr, c) # ys \<Longrightarrow> fundedAddrs fm addr = Some a \<Longrightarrow>
     fm_step repo fm (waitFinished repo a (fm\<lparr>fm_waits := xs @ ys\<rparr>))"

text \<open>The states reached after starting on a store that an earlier run left behind.\<close>

inductive fm_reachable :: "'r FundRepo \<Rightarrow> 'r \<Rightarrow> 'r FundManager \<Rightarrow> bool" for repo store where
  reach_start: "Start repo (newFundManager store) = (fm, None) \<Longrightarrow> fm_reachable repo store fm"
| reach_step: "fm_reachable repo store fm \<Longrightarrow> fm_step repo fm fm' \<Longrightarrow> fm_reachable repo store fm'"

end
