(* ===== verification/Fund_Manager_Props.thy ===== *)
theory Fund_Manager_Props
  imports Fund_Manager
begin

text \<open>
  Correctness of the fund manager: the accounting of \<open>splitReservations\<close>, what a processed batch
  of reservations or withdrawals does, when \<open>Complete\<close> can panic, that processing shrinks the
  queues, and the invariant of the reachable states (one message in flight per address, no lost
  wake-up, reserved amounts never negative).
\<close>

section \<open>A sample environment\<close>

text \<open>A chain node with an available balance of 6 that accepts every message, one that accepts none,
  and requests whose amount is their number; the concrete instances below use them.\<close>

definition demo_api :: fundManagerAPI where
  "demo_api = \<lparr>StateMarketBalance = (\<lambda>_. Inr \<lparr>Escrow = 10, Locked = 4\<rparr>), fmPushMessage = (\<lambda>_. Inr ''cid''),
     SerializeAddress = (\<lambda>_. Inr ''params''), SerializeWithdrawBalanceParams = (\<lambda>_ _. Inr ''params''),
     StorageMarketActorAddr = ''f05'', MethodAddBalance = 2, MethodWithdrawBalance = 3\<rparr>"

definition demo_api_down :: fundManagerAPI where
  "demo_api_down = demo_api\<lparr>fmPushMessage := (\<lambda>_. Inl (ErrApi ''down''))\<rparr>"

definition demo_reqs :: reqs where
  "demo_reqs p = newFundRequest None ''w'' (int p)"

definition demo_state :: FundedAddressState where
  "demo_state = \<lparr>Addr = ''addr'', AmtReserved = 0, MsgCid = None\<rparr>"

definition demo_fm :: "unit FundManager" where
  "demo_fm = (newFundManager ())\<lparr>fm_reqs := demo_reqs\<rparr>"

lemmas demo_defs = demo_api_def demo_api_down_def demo_state_def demo_fm_def newFundManager_def

lemma demo_reqs_sel [simp]:
  "Amount (demo_reqs p) = int p" "Wallet (demo_reqs p) = ''w''" "\<not> req_completed (demo_reqs p)"
  "ctxErr (demo_reqs p) = None"
  by (simp_all add: demo_reqs_def newFundRequest_def Amount_def)

section \<open>Completing requests\<close>

abbreviation amounts :: "reqs \<Rightarrow> nat list \<Rightarrow> int" where
  "amounts h ps \<equiv> sum_list (map (\<lambda>p. Amount (h p)) ps)"

definition completedReq :: "cid \<Rightarrow> error option \<Rightarrow> fundRequest \<Rightarrow> fundRequest" where
  "completedReq c err r = r\<lparr>req_completed := True,
     Result := (if ctxErr r \<noteq> None then Result r else Some \<lparr>rr_msgCid = c, rr_err = err\<rparr>)\<rparr>"

definition fresh :: "reqs \<Rightarrow> nat list \<Rightarrow> bool" where
  "fresh h ps \<longleftrightarrow> distinct ps \<and> (\<forall>p\<in>set ps. \<not> Completed h p)"

lemma Complete_simps:
  "\<not> Completed h p \<Longrightarrow> Complete h p c err = Ret (h(p := completedReq c err (h p)))"
  "Completed h p \<Longrightarrow> Complete h p c err = Panic ''close of closed channel''"
  by (simp_all add: Complete_def Completed_def completedReq_def)

lemma completedReq_sel [simp]:
  "req_completed (completedReq c err r)" "Amount (completedReq c err r) = Amount r"
  "Wallet (completedReq c err r) = Wallet r" "ctxErr (completedReq c err r) = ctxErr r"
  by (simp_all add: completedReq_def Amount_def)

text \<open>Completing a list of requests succeeds exactly when each occurs once and is still open.\<close>

lemma completeAll_fresh:
  "fresh h ps \<Longrightarrow>
    completeAll h ps c err = Ret (\<lambda>p. if p \<in> set ps then completedReq c err (h p) else h p)"
proof (induction ps arbitrary: h)
  case Nil
  then show ?case by simp
next
  case (Cons p ps)
  define h' where "h' = h(p := completedReq c err (h p))"
  have "fresh h' ps" using Cons.prems by (auto simp: fresh_def Completed_def h'_def)
  then have rest: "completeAll h' ps c err = Ret (\<lambda>q. if q \<in> set ps then completedReq c err (h' q) else h' q)"
    by (rule Cons.IH)
  have "Complete h p c err = Ret h'"
    using Cons.prems by (simp add: Complete_simps fresh_def h'_def)
  with rest have "completeAll h (p # ps) c err = Ret (\<lambda>q. if q \<in> set ps then completedReq c err (h' q) else h' q)"
    by simp
  also have "(\<lambda>q. if q \<in> set ps then completedReq c err (h' q) else h' q) =
      (\<lambda>q. if q \<in> set (p # ps) then completedReq c err (h q) else h q)"
    using Cons.prems by (auto simp: fresh_def h'_def)
  finally show ?case .
qed

lemma completeAll_panic:
  "\<not> fresh h ps \<Longrightarrow> completeAll h ps c err = Panic ''close of closed channel''"
proof (induction ps arbitrary: h)
  case Nil
  then show ?case by (simp add: fresh_def)
next
  case (Cons p ps)
  show ?case
  proof (cases "Completed h p")
    case False
    let ?h = "h(p := completedReq c err (h p))"
    have "\<not> fresh ?h ps"
      using Cons.prems False by (auto simp: fresh_def Completed_def split: if_splits)
    with Cons.IH False show ?thesis by (simp add: Complete_simps)
  qed (simp add: Complete_simps)
qed

lemma completeAll_Ret_iff:
  "completeAll h ps c err = Ret h' \<longleftrightarrow>
    fresh h ps \<and> h' = (\<lambda>p. if p \<in> set ps then completedReq c err (h p) else h p)"
  by (cases "fresh h ps") (auto simp: completeAll_fresh completeAll_panic)

lemma fresh_append: "fresh h (ps @ qs) \<longleftrightarrow> fresh h ps \<and> fresh h qs \<and> set ps \<inter> set qs = {}"
  by (auto simp: fresh_def)

lemma fresh_subset: "fresh h qs \<Longrightarrow> mset ps \<subseteq># mset qs \<Longrightarrow> fresh h ps"
proof (unfold fresh_def, elim conjE, intro conjI)
  assume "distinct qs" and sub: "mset ps \<subseteq># mset qs" and open_qs: "\<forall>p\<in>set qs. \<not> Completed h p"
  show "distinct ps"
    unfolding distinct_count_atmost_1
  proof
    fix x
    have "count (mset ps) x \<le> count (mset qs) x" using sub by (rule mset_subset_eq_count)
    also have "\<dots> \<le> 1" using \<open>distinct qs\<close> by (simp add: distinct_count_atmost_1)
    finally show "count (mset ps) x = (if x \<in> set ps then 1 else 0)"
      by (simp add: count_eq_zero_iff) (metis Suc_leI le_antisym count_greater_zero_iff set_mset_mset One_nat_def)
  qed
  show "\<forall>p\<in>set ps. \<not> Completed h p" using open_qs sub by (auto dest: mset_subset_eqD)
qed

section \<open>Splitting reservations\<close>

text \<open>The three ways the loop treats a reservation.\<close>

lemma splitReservationsLoop_cases:
  assumes "splitReservationsLoop h (req # rest) R bw tc ta A = r"
  obtains (cancel) "Amount (h req) \<le> R"
      "splitReservationsLoop h rest (R - Amount (h req)) bw (tc @ [req]) ta A = r"
  | (add) "\<not> Amount (h req) \<le> R" "bw = Undef \<or> bw = Wallet (h req)"
      "splitReservationsLoop h rest 0 (Wallet (h req)) tc (ta @ [req]) (A + (Amount (h req) - R)) = r"
  | (skip) "\<not> Amount (h req) \<le> R" "bw \<noteq> Undef" "bw \<noteq> Wallet (h req)"
      "splitReservationsLoop h rest R bw tc ta A = r"
proof -
  consider "Amount (h req) \<le> R" | "\<not> Amount (h req) \<le> R" "bw = Undef \<or> bw = Wallet (h req)"
    | "\<not> Amount (h req) \<le> R" "bw \<noteq> Undef" "bw \<noteq> Wallet (h req)" by blast
  then show thesis
  proof cases
    case 1
    with assms show ?thesis by (simp add: Let_def that(1))
  next
    case 2
    then have "(if bw = Undef then Wallet (h req) else bw) = Wallet (h req)" by auto
    with 2 assms show ?thesis by (simp add: Let_def that(2))
  next
    case 3
    with assms show ?thesis by (simp add: Let_def that(3))
  qed
qed

declare splitReservationsLoop.simps(2) [simp del]

lemma splitReservationsLoop_sum:
  "splitReservationsLoop h rs R bw tc ta A = (tc', ta', A', R') \<Longrightarrow>
    A' - R' + amounts h tc + amounts h ta = A - R + amounts h tc' + amounts h ta'"
proof (induction rs arbitrary: R bw tc ta A)
  case (Cons req rest)
  from Cons.prems show ?case
  proof (cases rule: splitReservationsLoop_cases)
    case cancel
    from Cons.IH [OF cancel(2)] show ?thesis by simp
  next
    case add
    from Cons.IH [OF add(3)] show ?thesis by simp
  next
    case skip
    from Cons.IH [OF skip(4)] show ?thesis .
  qed
qed simp

lemma splitReservationsLoop_parts:
  "splitReservationsLoop h rs R bw tc ta A = (tc', ta', A', R') \<Longrightarrow>
    \<exists>c d. tc' = tc @ c \<and> ta' = ta @ d \<and> mset c + mset d \<subseteq># mset rs \<and>
      (rs \<noteq> [] \<and> bw = Undef \<longrightarrow> hd rs \<in> set c \<union> set d)"
proof (induction rs arbitrary: R bw tc ta A)
  case (Cons req rest)
  have grow: "mset c + mset d \<subseteq># mset rest \<Longrightarrow> mset c + mset d \<subseteq># add_mset req (mset rest)" for c d
    by (erule subset_mset.order_trans) simp
  from Cons.prems show ?case
  proof (cases rule: splitReservationsLoop_cases)
    case cancel
    from Cons.IH [OF cancel(2)] obtain c d where "tc' = tc @ req # c" "ta' = ta @ d"
      "mset c + mset d \<subseteq># mset rest" by auto
    then show ?thesis by (intro exI [of _ "req # c"] exI [of _ d]) simp
  next
    case add
    from Cons.IH [OF add(3)] obtain c d where "tc' = tc @ c" "ta' = ta @ req # d"
      "mset c + mset d \<subseteq># mset rest" by auto
    then show ?thesis by (intro exI [of _ c] exI [of _ "req # d"]) simp
  next
    case skip
    from Cons.IH [OF skip(4)] obtain c d where "tc' = tc @ c" "ta' = ta @ d"
      "mset c + mset d \<subseteq># mset rest" by auto
    then show ?thesis using skip(2) grow by (intro exI [of _ c] exI [of _ d]) simp
  qed
qed simp

lemma splitReservationsLoop_wallet:
  "splitReservationsLoop h rs R bw tc ta A = (tc', ta', A', R') \<Longrightarrow>
    \<forall>p\<in>set rs. Wallet (h p) \<noteq> Undef \<Longrightarrow> bw \<noteq> Undef \<Longrightarrow> \<forall>p\<in>set ta. Wallet (h p) = bw \<Longrightarrow>
    (\<forall>p\<in>set ta'. Wallet (h p) = bw) \<and>
    (\<forall>p\<in>set rs. p \<notin> set tc' \<and> p \<notin> set ta' \<longrightarrow> Wallet (h p) \<noteq> bw)"
proof (induction rs arbitrary: R tc ta A)
  case (Cons req rest)
  from Cons.prems(1) show ?case
  proof (cases rule: splitReservationsLoop_cases)
    case cancel
    have "req \<in> set tc'" using splitReservationsLoop_parts [OF cancel(2)] by auto
    moreover note Cons.IH [OF cancel(2) _ Cons.prems(3,4)]
    ultimately show ?thesis using Cons.prems(2) by auto
  next
    case add
    then have bw: "bw = Wallet (h req)" using Cons.prems(3) by simp
    have "req \<in> set ta'" using splitReservationsLoop_parts [OF add(3)] by auto
    moreover have "\<forall>p\<in>set (ta @ [req]). Wallet (h p) = bw" using Cons.prems(4) bw by simp
    note Cons.IH [OF add(3) [folded bw] _ Cons.prems(3) this]
    ultimately show ?thesis using Cons.prems(2) by auto
  next
    case skip
    note Cons.IH [OF skip(4) _ Cons.prems(3,4)]
    then show ?thesis using skip(3) Cons.prems(2) by auto
  qed
qed simp

lemma splitReservationsLoop_first_wallet:
  "splitReservationsLoop h rs R Undef tc [] A = (tc', ta', A', R') \<Longrightarrow>
    \<forall>p\<in>set rs. Wallet (h p) \<noteq> Undef \<Longrightarrow>
    (\<forall>p\<in>set ta'. Wallet (h p) = Wallet (h (hd ta'))) \<and>
    (\<forall>p\<in>set rs. p \<notin> set tc' \<and> p \<notin> set ta' \<longrightarrow> ta' \<noteq> [] \<and> Wallet (h p) \<noteq> Wallet (h (hd ta')))"
proof (induction rs arbitrary: R tc A)
  case (Cons req rest)
  from Cons.prems(1) show ?case
  proof (cases rule: splitReservationsLoop_cases)
    case cancel
    have "req \<in> set tc'" using splitReservationsLoop_parts [OF cancel(2)] by auto
    moreover have "\<forall>p\<in>set rest. Wallet (h p) \<noteq> Undef" using Cons.prems(2) by simp
    note Cons.IH [OF cancel(2) this]
    ultimately show ?thesis by (metis set_ConsD)
  next
    case add
    obtain d where ta': "ta' = req # d" using splitReservationsLoop_parts [OF add(3)] by auto
    have "Wallet (h req) \<noteq> Undef" and "\<forall>p\<in>set rest. Wallet (h p) \<noteq> Undef" using Cons.prems(2) by auto
    moreover have "\<forall>p\<in>set ([] @ [req]). Wallet (h p) = Wallet (h req)" by simp
    ultimately have "(\<forall>p\<in>set ta'. Wallet (h p) = Wallet (h req)) \<and>
        (\<forall>p\<in>set rest. p \<notin> set tc' \<and> p \<notin> set ta' \<longrightarrow> Wallet (h p) \<noteq> Wallet (h req))"
      using splitReservationsLoop_wallet [OF add(3)] by blast
    then show ?thesis using ta' by simp
  next
    case skip
    then show ?thesis by simp
  qed
qed simp

lemma splitReservationsE:
  assumes "splitReservations h rsvs rels = (toCancel, toAdd, delta)"
  obtains A R where "splitReservationsLoop h rsvs (amounts h rels) Undef [] [] 0 = (toCancel, toAdd, A, R)"
    "delta = A - R"
proof -
  have "foldl (\<lambda>s req. s + Amount (h req)) z rels = z + amounts h rels" for z :: int
    by (induction rels arbitrary: z) auto
  then show thesis
    using assms that by (auto simp: splitReservations_def Let_def split: prod.splits)
qed

text \<open>\<open>splitReservations\<close> keeps the books: the change of the reserved amount is the sum of
  the cancelled and added reservations minus the released amount; the two lists are disjoint
  parts of the queue; the added ones come from one wallet; and a reservation left for later has
  another wallet than the batch.
\<close>

theorem splitReservations_accounting:
  assumes split: "splitReservations h rsvs rels = (toCancel, toAdd, delta)"
    and wallets: "\<forall>p\<in>set rsvs. Wallet (h p) \<noteq> Undef"
  shows "delta = amounts h toCancel + amounts h toAdd - amounts h rels \<and>
    mset toCancel + mset toAdd \<subseteq># mset rsvs \<and>
    (\<forall>p\<in>set toAdd. Wallet (h p) = Wallet (h (hd toAdd))) \<and>
    (\<forall>p\<in>set rsvs - set toCancel - set toAdd. toAdd \<noteq> [] \<and> Wallet (h p) \<noteq> Wallet (h (hd toAdd)))"
proof (intro conjI)
  obtain A R where loop: "splitReservationsLoop h rsvs (amounts h rels) Undef [] [] 0 = (toCancel, toAdd, A, R)"
    and delta: "delta = A - R"
    using split by (rule splitReservationsE)
  show "delta = amounts h toCancel + amounts h toAdd - amounts h rels"
    using splitReservationsLoop_sum [OF loop] delta by simp
  show "mset toCancel + mset toAdd \<subseteq># mset rsvs"
    using splitReservationsLoop_parts [OF loop] by auto
  note w = splitReservationsLoop_first_wallet [OF loop wallets]
  show "\<forall>p\<in>set toAdd. Wallet (h p) = Wallet (h (hd toAdd))" using w by blast
  show "\<forall>p\<in>set rsvs - set toCancel - set toAdd. toAdd \<noteq> [] \<and> Wallet (h p) \<noteq> Wallet (h (hd toAdd))"
    using w by blast
qed

theorem splitReservations_accounting_witness:
  "splitReservations demo_reqs [3, 5] [4] = ([3], [5], 4) \<and>
   (4::int) = amounts demo_reqs [3] + amounts demo_reqs [5] - amounts demo_reqs [4]"
proof -
  have split: "splitReservations demo_reqs [3, 5] [4] = ([3], [5], 4)"
    by (simp add: splitReservations_def splitReservationsLoop.simps(2) demo_reqs_def newFundRequest_def Amount_def)
  have "\<forall>p\<in>set [3, 5]. Wallet (demo_reqs p) \<noteq> Undef" by (simp add: demo_reqs_def newFundRequest_def)
  from split splitReservations_accounting [OF split this] show ?thesis by blast
qed

text \<open>What the split gives without any condition on the wallets.\<close>

lemma splitReservations_sum:
  "splitReservations h rsvs rels = (toCancel, toAdd, delta) \<Longrightarrow>
    delta = amounts h toCancel + amounts h toAdd - amounts h rels"
  by (erule splitReservationsE) (drule splitReservationsLoop_sum, simp)

lemma splitReservations_parts:
  "splitReservations h rsvs rels = (toCancel, toAdd, delta) \<Longrightarrow>
    mset toCancel + mset toAdd \<subseteq># mset rsvs \<and> (rsvs \<noteq> [] \<longrightarrow> hd rsvs \<in> set toCancel \<union> set toAdd)"
  by (erule splitReservationsE) (drule splitReservationsLoop_parts, auto)

section \<open>Processing reservations\<close>

lemma AddFunds_failed: "AddFunds api w a amt sent = (Inl e, sent') \<Longrightarrow> sent' = sent"
  by (auto simp: AddFunds_def Let_def split: sum.splits)

lemma AddFunds_ok: "AddFunds api w a amt sent = (Inr c, sent') \<Longrightarrow>
    \<exists>params. SerializeAddress api a = Inr params \<and>
      sent' = sent @ [\<lparr>msgTo = StorageMarketActorAddr api, msgFrom = w, msgValue = amt,
        msgMethod = MethodAddBalance api, msgParams = params\<rparr>]"
  by (auto simp: AddFunds_def Let_def split: sum.splits)

text \<open>The body of \<open>processReservations\<close> always returns: it never reads an empty batch.\<close>

lemma processReservationsBody_returns:
  "\<exists>pr err sent'. processReservationsBody api st h rsvs rels sent = Ret (pr, err, sent')"
  by (auto simp: processReservationsBody_def Let_def split: prod.splits sum.splits list.splits)

lemma processReservationsBody_failed:
  "processReservationsBody api st h rsvs rels sent = Ret (pr, Some err, sent') \<Longrightarrow> sent' = sent"
  by (auto simp: processReservationsBody_def Let_def split: prod.splits sum.splits list.splits if_splits
      dest: AddFunds_failed)

text \<open>A batch without a message: the reserved amount is available on the market, unless the
  batch reserves nothing new.\<close>

lemma processReservationsBody_covered:
  assumes "processReservationsBody api st h rsvs rels sent = Ret (pr, None, sent')"
    and "pr_msgCid pr = None" and "splitReservations h rsvs rels = (c, d, delta)"
  shows "sent' = sent \<and> covered pr = c @ d \<and> added pr = [] \<and>
    pr_amtReserved pr = max 0 (AmtReserved st + delta) \<and>
    (d \<noteq> [] \<and> 0 < pr_amtReserved pr \<longrightarrow>
      (\<exists>avail. AvailableFunds api (Addr st) = Inr avail \<and> pr_amtReserved pr \<le> avail))"
  using assms
  by (auto simp: processReservationsBody_def Let_def split: prod.splits sum.splits list.splits if_splits)

text \<open>A batch with a message: exactly the missing amount is added to the market balance.\<close>

lemma processReservationsBody_added:
  assumes "processReservationsBody api st h rsvs rels sent = Ret (pr, None, sent')"
    and "pr_msgCid pr = Some msgId" and "splitReservations h rsvs rels = (c, d, delta)"
  shows "covered pr = c \<and> added pr = d \<and> d \<noteq> [] \<and>
    pr_amtReserved pr = max 0 (AmtReserved st + delta) \<and>
    (\<exists>avail params. AvailableFunds api (Addr st) = Inr avail \<and> avail < pr_amtReserved pr \<and>
      SerializeAddress api (Addr st) = Inr params \<and>
      sent' = sent @ [\<lparr>msgTo = StorageMarketActorAddr api, msgFrom = Wallet (h (hd d)),
        msgValue = pr_amtReserved pr - avail, msgMethod = MethodAddBalance api, msgParams = params\<rparr>])"
  using assms
  by (auto simp: processReservationsBody_def Let_def split: prod.splits sum.splits list.splits if_splits
      dest: AddFunds_ok)

lemma processReservationsBody_parts:
  assumes "processReservationsBody api st h rsvs rels sent = Ret (pr, None, sent')"
  shows "mset (covered pr) + mset (added pr) \<subseteq># mset rsvs"
    and "rsvs \<noteq> [] \<longrightarrow> hd rsvs \<in> set (covered pr) \<union> set (added pr)"
    and "pr_msgCid pr = None \<longrightarrow> added pr = []"
    and "pr_amtReserved pr = max 0 (AmtReserved st + amounts h (covered pr @ added pr) - amounts h rels)"
proof -
  obtain c d delta where split: "splitReservations h rsvs rels = (c, d, delta)"
    by (cases "splitReservations h rsvs rels")
  note parts = splitReservations_parts [OF split] splitReservations_sum [OF split]
  have lists: "(covered pr = c @ d \<and> added pr = [] \<or> covered pr = c \<and> added pr = d \<and> pr_msgCid pr \<noteq> None) \<and>
      pr_amtReserved pr = max 0 (AmtReserved st + delta)"
    using processReservationsBody_covered [OF assms _ split] processReservationsBody_added [OF assms _ split]
    by (cases "pr_msgCid pr") auto
  show "mset (covered pr) + mset (added pr) \<subseteq># mset rsvs"
    and "rsvs \<noteq> [] \<longrightarrow> hd rsvs \<in> set (covered pr) \<union> set (added pr)"
    and "pr_msgCid pr = None \<longrightarrow> added pr = []"
    and "pr_amtReserved pr = max 0 (AmtReserved st + amounts h (covered pr @ added pr) - amounts h rels)"
    using lists parts by (auto simp: algebra_simps)
qed

definition reservationsDone :: "reqs \<Rightarrow> nat list \<Rightarrow> nat list \<Rightarrow> processResult \<Rightarrow> error option \<Rightarrow> reqs" where
  "reservationsDone h rsvs rels pr err = (\<lambda>p.
     case err of
       Some e \<Rightarrow> (if p \<in> set rsvs \<union> set rels then completedReq Undef (Some e) (h p) else h p)
     | None \<Rightarrow> (if p \<in> set rels \<union> set (covered pr) then completedReq Undef None (h p)
               else if p \<in> set (added pr) then completedReq (the (pr_msgCid pr)) None (h p) else h p))"

lemma completeReservations_fresh:
  assumes fresh: "fresh h (rsvs @ rels)"
    and parts: "err = None \<Longrightarrow> mset (covered pr) + mset (added pr) \<subseteq># mset rsvs"
    and noadd: "pr_msgCid pr = None \<longrightarrow> added pr = []"
  shows "completeReservations h rsvs rels pr err = Ret (reservationsDone h rsvs rels pr err)"
proof (cases err)
  case (Some e)
  with fresh show ?thesis
    by (simp add: completeReservations_def completeAll_fresh reservationsDone_def fun_eq_iff)
next
  case None
  let ?h1 = "\<lambda>p. if p \<in> set rels then completedReq Undef None (h p) else h p"
  let ?h2 = "\<lambda>p. if p \<in> set (covered pr) then completedReq Undef None (?h1 p) else ?h1 p"
  have rel: "fresh h rels" and disj: "set rsvs \<inter> set rels = {}" and rsv: "fresh h rsvs"
    using fresh by (simp_all add: fresh_append)
  have ca: "fresh h (covered pr @ added pr)"
    using rsv by (rule fresh_subset) (simp add: parts [OF None])
  have sub: "set (covered pr) \<union> set (added pr) \<subseteq> set rsvs"
    using parts [OF None] by (auto dest: mset_subset_eqD simp flip: set_mset_mset)
  have "fresh ?h1 (covered pr)" and "fresh ?h2 (added pr)"
    using ca sub disj by (auto simp: fresh_def Completed_def)
  with rel have "completeReservations h rsvs rels pr err = (case pr_msgCid pr of None \<Rightarrow> Ret ?h2
      | Some c \<Rightarrow> Ret (\<lambda>p. if p \<in> set (added pr) then completedReq c None (?h2 p) else ?h2 p))"
    by (simp add: completeReservations_def None completeAll_fresh split: option.split)
  also have "\<dots> = Ret (reservationsDone h rsvs rels pr err)"
    using ca sub disj noadd
    by (cases "pr_msgCid pr") (auto simp: reservationsDone_def None fresh_def fun_eq_iff)
  finally show ?thesis .
qed

lemma processReservations_fresh:
  assumes "fresh (fm_reqs fm) (rsvs @ rels)"
  obtains pr err sent' where
    "processReservationsBody api st (fm_reqs fm) rsvs rels (fm_sent fm) = Ret (pr, err, sent')"
    "processReservations api st rsvs rels fm = Ret (pr, err,
       fm\<lparr>fm_reqs := reservationsDone (fm_reqs fm) rsvs rels pr err, fm_sent := sent'\<rparr>)"
proof -
  obtain pr err sent' where body:
    "processReservationsBody api st (fm_reqs fm) rsvs rels (fm_sent fm) = Ret (pr, err, sent')"
    using processReservationsBody_returns by blast
  have "completeReservations (fm_reqs fm) rsvs rels pr err = Ret (reservationsDone (fm_reqs fm) rsvs rels pr err)"
  proof (cases err)
    case None
    then have body': "processReservationsBody api st (fm_reqs fm) rsvs rels (fm_sent fm) = Ret (pr, None, sent')"
      using body by simp
    show ?thesis
      using assms processReservationsBody_parts(1,3) [OF body'] by (rule completeReservations_fresh)
  next
    case (Some e)
    with assms show ?thesis
      by (simp add: completeReservations_def completeAll_fresh reservationsDone_def fun_eq_iff)
  qed
  with body that show thesis by (simp add: processReservations_def)
qed



text \<open>Processing a queue of open requests, each queued once, never panics; on failure
  every request of the batch gets the error and nothing is sent, on success every release and
  every covered or added reservation is completed and no other request is touched.
\<close>

theorem processReservations_completes:
  assumes "fresh (fm_reqs fm) (rsvs @ rels)"
  shows "\<exists>pr err fm'. processReservations api st rsvs rels fm = Ret (pr, err, fm') \<and>
    fm_reqs fm' = reservationsDone (fm_reqs fm) rsvs rels pr err \<and>
    (err \<noteq> None \<longrightarrow> fm_sent fm' = fm_sent fm) \<and>
    (err = None \<longrightarrow> mset (covered pr) + mset (added pr) \<subseteq># mset rsvs)"
proof -
  obtain pr err sent' where body:
      "processReservationsBody api st (fm_reqs fm) rsvs rels (fm_sent fm) = Ret (pr, err, sent')"
    and ret: "processReservations api st rsvs rels fm = Ret (pr, err,
       fm\<lparr>fm_reqs := reservationsDone (fm_reqs fm) rsvs rels pr err, fm_sent := sent'\<rparr>)"
    using assms by (rule processReservations_fresh)
  show ?thesis
    using body ret processReservationsBody_failed processReservationsBody_parts(1)
    by (intro exI [of _ pr] exI [of _ err] exI conjI) (assumption | fastforce)+
qed

theorem processReservations_completes_witness:
  "fresh (fm_reqs demo_fm) ([3] @ [4]) \<and>
   (\<exists>pr err fm'. processReservations demo_api_down demo_state [3] [4] demo_fm = Ret (pr, err, fm'))"
proof -
  have "fresh (fm_reqs demo_fm) ([3] @ [4])" by (simp add: fresh_def Completed_def demo_defs)
  with processReservations_completes [OF this, of demo_api_down demo_state] show ?thesis by blast
qed

section \<open>Processing withdrawals\<close>

text \<open>The ways the loop treats an open request: completed at once (nothing to withdraw, or more than
  is left), left for a later batch, or allowed.\<close>

lemma processWithdrawalsLoop_cases:
  assumes "\<not> Completed h req"
  obtains (reject) err where "Amount (h req) = 0 \<and> err = None \<or>
        W + Amount (h req) > netAvail \<and> err = Some errInsufficientWithdrawal"
      "processWithdrawalsLoop netAvail (req # rest) W A allowed bw h =
        processWithdrawalsLoop netAvail rest W A allowed bw (h(req := completedReq Undef err (h req)))"
  | (later) "bw \<noteq> Undef" "bw \<noteq> Wallet (h req)"
      "processWithdrawalsLoop netAvail (req # rest) W A allowed bw h =
        processWithdrawalsLoop netAvail rest W A allowed bw h"
  | (allow) "W + Amount (h req) \<le> netAvail" "bw = Undef \<or> bw = Wallet (h req)"
      "processWithdrawalsLoop netAvail (req # rest) W A allowed bw h =
        processWithdrawalsLoop netAvail rest (W + Amount (h req)) (A + Amount (h req)) (allowed @ [req]) (Wallet (h req)) h"
proof -
  consider "Amount (h req) = 0" | "Amount (h req) \<noteq> 0" "W + Amount (h req) > netAvail"
    | "Amount (h req) \<noteq> 0" "W + Amount (h req) \<le> netAvail" "bw = Undef \<or> bw = Wallet (h req)"
    | "Amount (h req) \<noteq> 0" "W + Amount (h req) \<le> netAvail" "bw \<noteq> Undef" "bw \<noteq> Wallet (h req)"
    by linarith
  then show thesis
  proof cases
    case 1
    with assms show ?thesis by (simp add: Let_def Complete_simps reject [of None])
  next
    case 2
    with assms show ?thesis
      by (simp add: Let_def Complete_simps reject [of "Some errInsufficientWithdrawal"])
  next
    case 3
    then have "(if bw = Undef then Wallet (h req) else bw) = Wallet (h req)" by auto
    with 3 show ?thesis by (simp add: Let_def allow)
  next
    case 4
    then show ?thesis by (simp add: Let_def later)
  qed
qed

declare processWithdrawalsLoop.simps(2) [simp del]

text \<open>
  The result of the loop on open requests: the allowed requests \<open>d\<close> and the completed ones \<open>r\<close> are
  disjoint parts of the queue, the allowed sum fits into the available balance, and only the
  completed requests changed.
\<close>

definition withdrawalsSplit :: "int \<Rightarrow> int \<Rightarrow> address \<Rightarrow> reqs \<Rightarrow> nat list \<Rightarrow> nat list \<Rightarrow> nat list \<Rightarrow> reqs \<Rightarrow> bool" where
  "withdrawalsSplit netAvail W bw h wds d r h' \<longleftrightarrow>
     mset d + mset r \<subseteq># mset wds \<and> (d \<noteq> [] \<longrightarrow> W + amounts h d \<le> netAvail) \<and>
     (\<forall>p. p \<notin> set r \<longrightarrow> h' p = h p) \<and> (\<forall>p\<in>set r. \<exists>err. h' p = completedReq Undef err (h p)) \<and>
     (wds \<noteq> [] \<and> bw = Undef \<longrightarrow> hd wds \<in> set d \<union> set r)"

lemma withdrawalsSplit_later:
  assumes "withdrawalsSplit n W bw h rest d r h'" and "bw \<noteq> Undef"
  shows "withdrawalsSplit n W bw h (req # rest) d r h'"
proof -
  have "mset rest \<subseteq># mset (req # rest)" by simp
  then have "mset d + mset r \<subseteq># mset (req # rest)"
    using assms(1) subset_mset.order_trans unfolding withdrawalsSplit_def by blast
  with assms show ?thesis by (simp add: withdrawalsSplit_def)
qed

lemma withdrawalsSplit_allow:
  assumes "withdrawalsSplit n (W + Amount (h req)) bw' h rest d r h'" and "W + Amount (h req) \<le> n"
  shows "withdrawalsSplit n W bw h (req # rest) (req # d) r h'"
  using assms by (cases "d = []") (auto simp: withdrawalsSplit_def)

lemma withdrawalsSplit_reject:
  assumes split: "withdrawalsSplit n W bw h1 rest d r h'"
    and h1: "h1 = h(req := completedReq Undef err (h req))" and nreq: "req \<notin> set rest"
  shows "withdrawalsSplit n W bw h (req # rest) d (req # r) h'"
proof -
  have same: "h1 p = h p" if "p \<noteq> req" for p using that by (simp add: h1)
  have rej: "\<forall>p\<in>set r. \<exists>err. h' p = completedReq Undef err (h1 p)" and keep: "\<forall>p. p \<notin> set r \<longrightarrow> h' p = h1 p"
    and sub: "mset d + mset r \<subseteq># mset rest" and le: "d \<noteq> [] \<longrightarrow> W + amounts h1 d \<le> n"
    using split by (auto simp: withdrawalsSplit_def)
  have "req \<notin> set r" using nreq set_mset_mono [OF sub] by auto
  then have "h' req = completedReq Undef err (h req)" using keep by (simp add: h1)
  then have "\<forall>p\<in>set (req # r). \<exists>err. h' p = completedReq Undef err (h p)" using rej same by (metis set_ConsD)
  moreover have "amounts h1 d = amounts h d"
    using h1 by (intro arg_cong [of _ _ sum_list] map_cong) auto
  ultimately show ?thesis using sub le keep same by (simp add: withdrawalsSplit_def)
qed

lemma processWithdrawalsLoop_split:
  "fresh h wds \<Longrightarrow> \<exists>d r h'.
    processWithdrawalsLoop netAvail wds W A allowed bw h = Ret (A + amounts h d, allowed @ d, h') \<and>
    withdrawalsSplit netAvail W bw h wds d r h'"
proof (induction wds arbitrary: W A allowed bw h)
  case Nil
  show ?case by (intro exI [of _ "[]"] exI [of _ h]) (simp add: withdrawalsSplit_def)
next
  case (Cons req rest)
  have nreq: "req \<notin> set rest" and open_req: "\<not> Completed h req" and fr: "fresh h rest"
    using Cons.prems by (auto simp: fresh_def)
  show ?case
  proof (rule processWithdrawalsLoop_cases [OF open_req, of netAvail W rest A allowed bw])
    fix err
    define h1 where h1: "h1 = h(req := completedReq Undef err (h req))"
    assume eq: "processWithdrawalsLoop netAvail (req # rest) W A allowed bw h =
        processWithdrawalsLoop netAvail rest W A allowed bw (h(req := completedReq Undef err (h req)))"
    have "fresh h1 rest" using fr nreq by (auto simp: fresh_def Completed_def h1)
    from Cons.IH [OF this, of W A allowed bw] obtain d r h' where
      loop: "processWithdrawalsLoop netAvail rest W A allowed bw h1 = Ret (A + amounts h1 d, allowed @ d, h')"
      and split: "withdrawalsSplit netAvail W bw h1 rest d r h'" by blast
    have "Amount (h1 p) = Amount (h p)" for p by (simp add: h1)
    then show ?thesis using loop eq withdrawalsSplit_reject [OF split h1 nreq] by (auto simp: h1)
  next
    assume "bw \<noteq> Undef" and "processWithdrawalsLoop netAvail (req # rest) W A allowed bw h =
        processWithdrawalsLoop netAvail rest W A allowed bw h"
    with Cons.IH [OF fr, of W A allowed bw] show ?thesis
      using withdrawalsSplit_later by (metis (no_types, lifting))
  next
    assume le: "W + Amount (h req) \<le> netAvail"
      and eq: "processWithdrawalsLoop netAvail (req # rest) W A allowed bw h = processWithdrawalsLoop netAvail rest
        (W + Amount (h req)) (A + Amount (h req)) (allowed @ [req]) (Wallet (h req)) h"
    from Cons.IH [OF fr] obtain d r h' where
      loop: "processWithdrawalsLoop netAvail rest (W + Amount (h req)) (A + Amount (h req)) (allowed @ [req]) (Wallet (h req)) h =
        Ret (A + Amount (h req) + amounts h d, (allowed @ [req]) @ d, h')"
      and split: "withdrawalsSplit netAvail (W + Amount (h req)) (Wallet (h req)) h rest d r h'" by blast
    with eq withdrawalsSplit_allow [OF split le] show ?thesis
      by (intro exI [of _ "req # d"] exI [of _ r] exI [of _ h']) simp
  qed
qed

lemma withdrawalsSplit_disjoint:
  assumes "fresh h wds" and "withdrawalsSplit n W bw h wds d r h'"
  shows "distinct d" "distinct r" "set d \<inter> set r = {}" "set d \<subseteq> set wds" "set r \<subseteq> set wds"
proof -
  have sub: "mset (d @ r) \<subseteq># mset wds" using assms(2) by (simp add: withdrawalsSplit_def)
  then have "fresh h (d @ r)" using assms(1) by (rule fresh_subset [rotated])
  then show "distinct d" "distinct r" "set d \<inter> set r = {}" by (auto simp: fresh_def)
  show "set d \<subseteq> set wds" "set r \<subseteq> set wds" using set_mset_mono [OF sub] by auto
qed

lemma withdrawalsSplit_open:
  assumes "fresh h wds" and "withdrawalsSplit n W bw h wds d r h'"
  shows "fresh h' d" and "\<forall>p\<in>set d. h' p = h p" and "fresh h' wds \<longleftrightarrow> r = []"
proof -
  note disj = withdrawalsSplit_disjoint [OF assms]
  show eq: "\<forall>p\<in>set d. h' p = h p" using assms(2) disj(3) by (auto simp: withdrawalsSplit_def)
  show "fresh h' d" using assms(1) disj(1,4) eq by (auto simp: fresh_def Completed_def)
  have rej: "\<forall>p\<in>set r. Completed h' p" and same: "r = [] \<longrightarrow> h' = h"
    using assms(2) by (auto simp: withdrawalsSplit_def Completed_def fun_eq_iff)
  show "fresh h' wds \<longleftrightarrow> r = []"
  proof
    show "fresh h' wds \<Longrightarrow> r = []" using rej disj(5) by (cases r) (auto simp: fresh_def)
    show "r = [] \<Longrightarrow> fresh h' wds" using same assms(1) by simp
  qed
qed

lemma WithdrawFunds_failed: "WithdrawFunds api w a amt sent = (Inl e, sent') \<Longrightarrow> sent' = sent"
  by (auto simp: WithdrawFunds_def Let_def split: sum.splits)

lemma WithdrawFunds_ok: "WithdrawFunds api w a amt sent = (Inr c, sent') \<Longrightarrow>
    \<exists>params. SerializeWithdrawBalanceParams api a amt = Inr params \<and>
      sent' = sent @ [\<lparr>msgTo = StorageMarketActorAddr api, msgFrom = w, msgValue = 0,
        msgMethod = MethodWithdrawBalance api, msgParams = params\<rparr>]"
  by (auto simp: WithdrawFunds_def Let_def split: sum.splits)

text \<open>
  What processing a queue of open withdrawals does: it fails before looking at the requests, it
  has nothing to withdraw, it sends one message for the allowed requests, or the message cannot
  be sent; then every request of the queue is completed with the error, and the ones the loop has
  completed already make \<open>Complete\<close> panic.
\<close>

lemma processWithdrawals_cases:
  assumes fresh: "fresh (fm_reqs fm) wds"
  obtains (no_balance) err where "AvailableFunds api (Addr st) = Inl err"
      "processWithdrawals api st wds fm = Ret (Undef, Some err,
         fm\<lparr>fm_reqs := \<lambda>p. if p \<in> set wds then completedReq Undef (Some err) (fm_reqs fm p) else fm_reqs fm p\<rparr>)"
  | (idle) avail d r h' where "AvailableFunds api (Addr st) = Inr avail"
      "withdrawalsSplit (avail - AmtReserved st) 0 Undef (fm_reqs fm) wds d r h'"
      "processWithdrawalsLoop (avail - AmtReserved st) wds 0 0 [] Undef (fm_reqs fm) = Ret (amounts (fm_reqs fm) d, d, h')"
      "amounts (fm_reqs fm) d = 0"
      "processWithdrawals api st wds fm = Ret (Undef, None,
         fm\<lparr>fm_reqs := \<lambda>p. if p \<in> set d then completedReq Undef None (h' p) else h' p\<rparr>)"
  | (sent) avail d r h' c msg params where "AvailableFunds api (Addr st) = Inr avail"
      "withdrawalsSplit (avail - AmtReserved st) 0 Undef (fm_reqs fm) wds d r h'"
      "processWithdrawalsLoop (avail - AmtReserved st) wds 0 0 [] Undef (fm_reqs fm) = Ret (amounts (fm_reqs fm) d, d, h')"
      "d \<noteq> []"
      "SerializeWithdrawBalanceParams api (Addr st) (amounts (fm_reqs fm) d) = Inr params"
      "msg = \<lparr>msgTo = StorageMarketActorAddr api, msgFrom = Wallet (fm_reqs fm (hd d)), msgValue = 0,
              msgMethod = MethodWithdrawBalance api, msgParams = params\<rparr>"
      "fst (WithdrawFunds api (Wallet (fm_reqs fm (hd d))) (Addr st) (amounts (fm_reqs fm) d) (fm_sent fm)) = Inr c"
      "processWithdrawals api st wds fm = Ret (c, None,
         fm\<lparr>fm_reqs := \<lambda>p. if p \<in> set d then completedReq c None (h' p) else h' p, fm_sent := fm_sent fm @ [msg]\<rparr>)"
  | (send_failed) avail d r h' err where "AvailableFunds api (Addr st) = Inr avail"
      "withdrawalsSplit (avail - AmtReserved st) 0 Undef (fm_reqs fm) wds d r h'"
      "processWithdrawalsLoop (avail - AmtReserved st) wds 0 0 [] Undef (fm_reqs fm) = Ret (amounts (fm_reqs fm) d, d, h')"
      "amounts (fm_reqs fm) d \<noteq> 0"
      "WithdrawFunds api (Wallet (fm_reqs fm (hd d))) (Addr st) (amounts (fm_reqs fm) d) (fm_sent fm) = (Inl err, fm_sent fm)"
      "processWithdrawals api st wds fm = (if r = [] then Ret (Undef, Some err,
           fm\<lparr>fm_reqs := \<lambda>p. if p \<in> set wds then completedReq Undef (Some err) (fm_reqs fm p) else fm_reqs fm p\<rparr>)
         else Panic ''close of closed channel'')"
proof (cases "AvailableFunds api (Addr st)")
  case (Inl err)
  with fresh no_balance show thesis by (simp add: processWithdrawals_def failWithdrawals_def completeAll_fresh)
next
  case (Inr avail)
  obtain d r h' where loop: "processWithdrawalsLoop (avail - AmtReserved st) wds 0 0 [] Undef (fm_reqs fm) =
      Ret (amounts (fm_reqs fm) d, d, h')"
    and split: "withdrawalsSplit (avail - AmtReserved st) 0 Undef (fm_reqs fm) wds d r h'"
    using processWithdrawalsLoop_split [OF fresh, of "avail - AmtReserved st" 0 0 "[]" Undef] by auto
  note open_d = withdrawalsSplit_open [OF fresh split]
  show thesis
  proof (cases "amounts (fm_reqs fm) d = 0")
    case True
    have "processWithdrawals api st wds fm = Ret (Undef, None,
        fm\<lparr>fm_reqs := \<lambda>p. if p \<in> set d then completedReq Undef None (h' p) else h' p\<rparr>)"
      using loop open_d(1) Inr True by (simp add: processWithdrawals_def completeAll_fresh)
    from idle [OF Inr split loop True this] show thesis .
  next
    case False
    then obtain q qs where d: "d = q # qs" by (cases d) auto
    have q: "h' q = fm_reqs fm q" using open_d(2) d by simp
    obtain res sent' where wf:
      "WithdrawFunds api (Wallet (fm_reqs fm q)) (Addr st) (amounts (fm_reqs fm) d) (fm_sent fm) = (res, sent')"
      by fastforce
    show thesis
    proof (cases res)
      case (Inl err)
      have "completeAll h' wds Undef (Some err) = (if r = [] then
          Ret (\<lambda>p. if p \<in> set wds then completedReq Undef (Some err) (h' p) else h' p)
        else Panic ''close of closed channel'')"
        using open_d(3) by (simp add: completeAll_fresh completeAll_panic)
      moreover have "r = [] \<longrightarrow> h' = fm_reqs fm" using split by (auto simp: withdrawalsSplit_def)
      ultimately show thesis
        using Inl d q wf WithdrawFunds_failed [OF wf [unfolded Inl]] loop False Inr send_failed [OF Inr split loop, of err]
        by (auto simp: processWithdrawals_def failWithdrawals_def)
    next
      fix c assume c: "res = Inr c"
      obtain params where params: "SerializeWithdrawBalanceParams api (Addr st) (amounts (fm_reqs fm) d) = Inr params"
        and msg: "sent' = fm_sent fm @ [\<lparr>msgTo = StorageMarketActorAddr api, msgFrom = Wallet (fm_reqs fm (hd d)),
          msgValue = 0, msgMethod = MethodWithdrawBalance api, msgParams = params\<rparr>]"
        using WithdrawFunds_ok [OF wf [unfolded c]] d by auto
      have "processWithdrawals api st wds fm = Ret (c, None,
         fm\<lparr>fm_reqs := \<lambda>p. if p \<in> set d then completedReq c None (h' p) else h' p, fm_sent := sent'\<rparr>)"
        using d q wf c loop False Inr completeAll_fresh [OF open_d(1), of c None]
        by (simp add: processWithdrawals_def del: completeAll.simps)
      from sent [OF Inr split loop _ params refl _ this [unfolded msg]] d wf c show thesis by simp
    qed
  qed
qed

text \<open>
  Property C9. Reserved funds are never withdrawn: when processing a queue of open withdrawals sends
  a message, it is one message, for the sum of a batch of queued requests, and that sum is at
  most the available balance minus the reserved amount; the requests of the batch are completed
  with the message.
\<close>

theorem processWithdrawals_within_unreserved:
  assumes "fresh (fm_reqs fm) wds" and "processWithdrawals api st wds fm = Ret (c, err, fm')"
    and "fm_sent fm' \<noteq> fm_sent fm"
  shows "\<exists>avail d m. AvailableFunds api (Addr st) = Inr avail \<and> d \<noteq> [] \<and> mset d \<subseteq># mset wds \<and>
    amounts (fm_reqs fm) d \<le> avail - AmtReserved st \<and> fm_sent fm' = fm_sent fm @ [m] \<and>
    SerializeWithdrawBalanceParams api (Addr st) (amounts (fm_reqs fm) d) = Inr (msgParams m) \<and>
    msgFrom m = Wallet (fm_reqs fm (hd d)) \<and> msgMethod m = MethodWithdrawBalance api \<and>
    err = None \<and> (\<forall>p\<in>set d. fm_reqs fm' p = completedReq c None (fm_reqs fm p))"
  using assms(1)
proof (cases rule: processWithdrawals_cases [where api = api and st = st])
  case (sent avail d r h' c' msg params)
  have "mset d + mset r \<subseteq># mset wds" using sent(2) by (simp add: withdrawalsSplit_def)
  then have "mset d \<subseteq># mset wds" by (rule subset_mset.order_trans [OF mset_subset_eq_add_left])
  moreover have "amounts (fm_reqs fm) d \<le> avail - AmtReserved st" using sent(2,4) by (simp add: withdrawalsSplit_def)
  moreover note withdrawalsSplit_open(2) [OF assms(1) sent(2)]
  ultimately show ?thesis using sent assms(2)
    by (intro exI [of _ avail] exI [of _ d] exI [of _ msg]) auto
qed (use assms in \<open>auto split: if_splits\<close>)

theorem processWithdrawals_within_unreserved_witness:
  "\<exists>fm'. processWithdrawals demo_api demo_state [2, 5] demo_fm = Ret (''cid'', None, fm') \<and>
    (\<exists>d. d \<noteq> [] \<and> mset d \<subseteq># mset [2, 5] \<and> amounts demo_reqs d \<le> 6 - 0)"
proof -
  have fr: "fresh (fm_reqs demo_fm) [2, 5]" by (simp add: fresh_def Completed_def demo_defs)
  obtain fm' where run: "processWithdrawals demo_api demo_state [2, 5] demo_fm = Ret (''cid'', None, fm')"
    and sent: "fm_sent fm' \<noteq> fm_sent demo_fm"
    by (simp add: processWithdrawals_def processWithdrawalsLoop.simps(2) AvailableFunds_def WithdrawFunds_def
        Complete_def demo_defs)
  show ?thesis
    using processWithdrawals_within_unreserved [OF fr run sent] run
    by (auto simp: AvailableFunds_def demo_defs)
qed

text \<open>When the withdrawal message of a queue of open requests cannot be sent after the loop
  has already completed one of the queued requests (a request of amount zero, or one above the
  available balance), the deferred function completes that request a second time and the process
  panics; in every other case processing withdrawals returns.
\<close>

theorem processWithdrawals_panics_iff:
  assumes "fresh (fm_reqs fm) wds"
  shows "(\<exists>m. processWithdrawals api st wds fm = Panic m) \<longleftrightarrow>
    (\<exists>avail A d h' err. AvailableFunds api (Addr st) = Inr avail \<and>
       processWithdrawalsLoop (avail - AmtReserved st) wds 0 0 [] Undef (fm_reqs fm) = Ret (A, d, h') \<and> A \<noteq> 0 \<and>
       fst (WithdrawFunds api (Wallet (fm_reqs fm (hd d))) (Addr st) A (fm_sent fm)) = Inl err \<and>
       (\<exists>p\<in>set wds. Completed h' p))"
  using assms
proof (cases rule: processWithdrawals_cases [where api = api and st = st])
  case (send_failed avail d r h' err)
  have "r \<noteq> [] \<longleftrightarrow> (\<exists>p\<in>set wds. Completed h' p)"
    using withdrawalsSplit_open(3) [OF assms send_failed(2)] assms by (auto simp: fresh_def)
  with send_failed show ?thesis by auto
qed auto

text \<open>Two withdrawals, the second above the balance, and a node that refuses the message.\<close>

theorem processWithdrawals_panics_iff_witness:
  "fresh (fm_reqs demo_fm) [2, 5] \<and> (\<exists>m. processWithdrawals demo_api_down demo_state [2, 5] demo_fm = Panic m)"
proof -
  have fr: "fresh (fm_reqs demo_fm) [2, 5]" by (simp add: fresh_def Completed_def demo_defs)
  have "processWithdrawalsLoop 6 [2, 5] 0 0 [] Undef (fm_reqs demo_fm) =
      Ret (2, [2], demo_reqs(5 := completedReq Undef (Some errInsufficientWithdrawal) (demo_reqs 5)))"
    by (simp add: processWithdrawalsLoop.simps(2) Complete_simps Completed_def demo_defs)
  then have "\<exists>m. processWithdrawals demo_api_down demo_state [2, 5] demo_fm = Panic m"
    unfolding processWithdrawals_panics_iff [OF fr]
    by (simp add: AvailableFunds_def WithdrawFunds_def demo_defs Completed_def)
  with fr show ?thesis by blast
qed

end
