(* ===== verification/Fund_Manager_Inv.thy ===== *)
theory Fund_Manager_Inv
  imports Fund_Manager_Props
begin

text \<open>
  The queue processor as a whole: what one call of \<open>process\<close> may change (\<open>queue_frame\<close>), that it
  shortens the queues (so the chain of calls it starts ends), and the invariant of every state
  reachable from a store that an earlier run left behind.
\<close>

section \<open>What processing changes\<close>

definition fa_refs :: "fundedAddress \<Rightarrow> nat list" where
  "fa_refs a = reservations a @ releases a @ withdrawals a"

definition queue_frame :: "fundedAddress \<Rightarrow> 'r FundManager \<Rightarrow> fundedAddress \<Rightarrow> 'r FundManager \<Rightarrow> bool" where
  "queue_frame a fm a' fm' \<longleftrightarrow>
     Addr (fa_state a') = Addr (fa_state a) \<and>
     (0 \<le> AmtReserved (fa_state a) \<longrightarrow> 0 \<le> AmtReserved (fa_state a')) \<and>
     fundedAddrs fm' = fundedAddrs fm \<and> fm_nreqs fm' = fm_nreqs fm \<and>
     fm_waits fm' = fm_waits fm \<and> fm_procs fm' = fm_procs fm \<and>
     (\<forall>p. p \<notin> set (fa_refs a) \<longrightarrow> fm_reqs fm' p = fm_reqs fm p) \<and>
     reservations a' = filterOutProcessedReqs (fm_reqs fm') (reservations a) \<and>
     releases a' = filterOutProcessedReqs (fm_reqs fm') (releases a) \<and>
     withdrawals a' = filterOutProcessedReqs (fm_reqs fm') (withdrawals a)"

lemma filterOut_open: "\<forall>p\<in>set ps. \<not> Completed h p \<Longrightarrow> filterOutProcessedReqs h ps = ps"
  by (simp add: filterOutProcessedReqs_def)

lemma filterOut_append: "filterOutProcessedReqs h (ps @ qs) = filterOutProcessedReqs h ps @ filterOutProcessedReqs h qs"
  by (simp add: filterOutProcessedReqs_def)

lemma queue_frame_refs: "queue_frame a fm a' fm' \<Longrightarrow> fa_refs a' = filterOutProcessedReqs (fm_reqs fm') (fa_refs a)"
  by (simp add: queue_frame_def fa_refs_def filterOut_append)

lemma queue_frame_fresh:
  "queue_frame a fm a' fm' \<Longrightarrow> fresh (fm_reqs fm) (fa_refs a) \<Longrightarrow> fresh (fm_reqs fm') (fa_refs a')"
  by (auto simp: queue_frame_refs fresh_def filterOutProcessedReqs_def)

lemma queue_frame_refl: "fresh (fm_reqs fm) (fa_refs a) \<Longrightarrow> queue_frame a fm a fm"
  by (auto simp: queue_frame_def fa_refs_def fresh_def intro!: filterOut_open [symmetric])

lemma queue_frame_trans:
  assumes f1: "queue_frame a fm a1 fm1" and f2: "queue_frame a1 fm1 a2 fm2"
  shows "queue_frame a fm a2 fm2"
proof -
  have keep: "Completed (fm_reqs fm2) p" if "Completed (fm_reqs fm1) p" for p
  proof -
    have "p \<notin> set (fa_refs a1)" using that by (simp add: queue_frame_refs [OF f1] filterOutProcessedReqs_def)
    then show ?thesis using f2 that by (simp add: queue_frame_def Completed_def)
  qed
  then have twice: "filterOutProcessedReqs (fm_reqs fm2) (filterOutProcessedReqs (fm_reqs fm1) ps) =
      filterOutProcessedReqs (fm_reqs fm2) ps" for ps
    by (auto simp: filterOutProcessedReqs_def intro: filter_cong)
  have "set (fa_refs a1) \<subseteq> set (fa_refs a)" by (auto simp: queue_frame_refs [OF f1] filterOutProcessedReqs_def)
  with f1 f2 twice show ?thesis by (auto simp: queue_frame_def)
qed

lemma queue_frame_shrinks:
  "queue_frame a fm a' fm' \<Longrightarrow> p \<in> set (fa_refs a) \<Longrightarrow> Completed (fm_reqs fm') p \<Longrightarrow>
    length (fa_refs a') < length (fa_refs a)"
  by (auto simp: queue_frame_refs filterOutProcessedReqs_def length_filter_less_iff)

lemma queue_frame_length: "queue_frame a fm a' fm' \<Longrightarrow> length (fa_refs a') \<le> length (fa_refs a)"
  by (simp add: queue_frame_refs filterOutProcessedReqs_def)

lemma applyStateChange_sel:
  "fundedAddrs (snd (applyStateChange repo c amt a fm)) = fundedAddrs fm"
  "fm_reqs (snd (applyStateChange repo c amt a fm)) = fm_reqs fm"
  "fm_nreqs (snd (applyStateChange repo c amt a fm)) = fm_nreqs fm"
  "fm_waits (snd (applyStateChange repo c amt a fm)) = fm_waits fm"
  "fm_procs (snd (applyStateChange repo c amt a fm)) = fm_procs fm"
  "reservations (fst (applyStateChange repo c amt a fm)) = reservations a"
  "releases (fst (applyStateChange repo c amt a fm)) = releases a"
  "withdrawals (fst (applyStateChange repo c amt a fm)) = withdrawals a"
  "Addr (fa_state (fst (applyStateChange repo c amt a fm))) = Addr (fa_state a)"
  "AmtReserved (fa_state (fst (applyStateChange repo c amt a fm))) =
     (case amt of None \<Rightarrow> AmtReserved (fa_state a) | Some x \<Rightarrow> x)"
  by (simp_all add: applyStateChange_def saveState_def Let_def split: option.split)

section \<open>The two halves of \<open>process\<close>\<close>

lemma reservationsDone_outside:
  assumes "err = None \<Longrightarrow> mset (covered pr) + mset (added pr) \<subseteq># mset rsvs" and "p \<notin> set rsvs \<union> set rels"
  shows "reservationsDone h rsvs rels pr err p = h p"
proof (cases err)
  case None
  have "set (covered pr) \<union> set (added pr) \<subseteq> set rsvs" using set_mset_mono [OF assms(1) [OF None]] by simp
  with assms(2) None show ?thesis by (auto simp: reservationsDone_def)
next
  case (Some e)
  with assms(2) show ?thesis by (simp add: reservationsDone_def)
qed

lemma reservationsDone_progress:
  assumes body: "processReservationsBody api st h rsvs rels sent = Ret (pr, err, sent')" and "rsvs \<noteq> [] \<or> rels \<noteq> []"
  shows "\<exists>p\<in>set rsvs \<union> set rels. Completed (reservationsDone h rsvs rels pr err) p"
proof (cases err)
  case None
  show ?thesis
  proof (cases "rsvs = []")
    case True
    with assms(2) have "hd rels \<in> set rels" by simp
    with None show ?thesis by (intro bexI [of _ "hd rels"]) (auto simp: reservationsDone_def Completed_def)
  next
    case False
    then have "hd rsvs \<in> set (covered pr) \<union> set (added pr)" and "hd rsvs \<in> set rsvs"
      using body None processReservationsBody_parts(2) by blast (simp add: False)
    with None show ?thesis by (intro bexI [of _ "hd rsvs"]) (auto simp: reservationsDone_def Completed_def)
  qed
next
  case (Some e)
  from assms(2) have "hd (rsvs @ rels) \<in> set rsvs \<union> set rels" by (cases rsvs) auto
  with Some show ?thesis
    by (intro bexI [of _ "hd (rsvs @ rels)"]) (simp_all add: reservationsDone_def Completed_def)
qed

lemma processReservationQueue_frame:
  assumes fresh: "fresh (fm_reqs fm) (fa_refs a)"
  shows "\<exists>a' fm'. processReservationQueue api repo a fm = Ret (a', fm') \<and> queue_frame a fm a' fm' \<and>
    (reservations a \<noteq> [] \<or> releases a \<noteq> [] \<longrightarrow> length (fa_refs a') < length (fa_refs a))"
proof -
  have fr: "fresh (fm_reqs fm) (reservations a @ releases a)" using fresh by (auto simp: fa_refs_def fresh_append)
  obtain pr err sent' where body:
      "processReservationsBody api (fa_state a) (fm_reqs fm) (reservations a) (releases a) (fm_sent fm) = Ret (pr, err, sent')"
    and ret: "processReservations api (fa_state a) (reservations a) (releases a) fm = Ret (pr, err,
       fm\<lparr>fm_reqs := reservationsDone (fm_reqs fm) (reservations a) (releases a) pr err, fm_sent := sent'\<rparr>)"
    using fr by (rule processReservations_fresh)
  define h1 where "h1 = reservationsDone (fm_reqs fm) (reservations a) (releases a) pr err"
  have parts: "err = None \<Longrightarrow> mset (covered pr) + mset (added pr) \<subseteq># mset (reservations a)"
    using body processReservationsBody_parts(1) by blast
  have outside: "h1 p = fm_reqs fm p" if "p \<notin> set (reservations a) \<union> set (releases a)" for p
    unfolding h1_def using parts that by (rule reservationsDone_outside)
  have amt: "err = None \<Longrightarrow> 0 \<le> pr_amtReserved pr"
    using body processReservationsBody_parts(4) by fastforce
  have "filterOutProcessedReqs h1 (withdrawals a) = withdrawals a"
  proof (rule filterOut_open, rule ballI)
    fix p assume p: "p \<in> set (withdrawals a)"
    then have "p \<notin> set (reservations a) \<union> set (releases a)" and "\<not> Completed (fm_reqs fm) p"
      using fresh by (auto simp: fa_refs_def fresh_def)
    with outside show "\<not> Completed h1 p" by (simp add: Completed_def)
  qed
  then obtain a' fm' where res: "processReservationQueue api repo a fm = Ret (a', fm')"
    and heap: "fm_reqs fm' = h1" and frame: "queue_frame a fm a' fm'"
    using ret outside amt
    by (auto simp: processReservationQueue_def queue_frame_def fa_refs_def h1_def [symmetric] applyStateChange_sel
        split_beta)
  moreover have "length (fa_refs a') < length (fa_refs a)" if "reservations a \<noteq> [] \<or> releases a \<noteq> []"
  proof -
    have "\<exists>p\<in>set (reservations a) \<union> set (releases a). Completed h1 p"
      unfolding h1_def using body that by (rule reservationsDone_progress)
    then obtain p where "p \<in> set (reservations a) \<union> set (releases a)" "Completed h1 p" by blast
    then show ?thesis using queue_frame_shrinks [OF frame, of p] heap by (auto simp: fa_refs_def)
  qed
  ultimately show ?thesis by blast
qed

text \<open>The withdrawals half, which may panic (see \<open>processWithdrawals_panics_iff\<close>).\<close>

lemma withdrawalsSplit_effect:
  assumes "fresh h wds" and split: "withdrawalsSplit n W Undef h wds d r h'"
    and h2_def: "h2 = (\<lambda>p. if p \<in> set d then completedReq c None (h' p) else h' p)"
  shows "(\<forall>p. p \<notin> set wds \<longrightarrow> h2 p = h p) \<and> (wds \<noteq> [] \<longrightarrow> Completed h2 (hd wds))"
proof -
  note sub = withdrawalsSplit_disjoint(4,5) [OF assms(1) split]
  have keep: "\<forall>p. p \<notin> set r \<longrightarrow> h' p = h p" and rej: "\<forall>p\<in>set r. Completed h' p"
    and first: "wds \<noteq> [] \<longrightarrow> hd wds \<in> set d \<union> set r"
    using split by (auto simp: withdrawalsSplit_def Completed_def)
  have "h2 p = h p" if "p \<notin> set wds" for p
  proof -
    have "p \<notin> set d" "p \<notin> set r" using that sub by blast+
    with keep show ?thesis by (simp add: h2_def)
  qed
  moreover have "wds \<noteq> [] \<longrightarrow> Completed h2 (hd wds)" using first rej by (auto simp: h2_def Completed_def)
  ultimately show ?thesis by blast
qed

lemma processWithdrawals_effect:
  assumes fresh: "fresh (fm_reqs fm) wds" and ret: "processWithdrawals api st wds fm = Ret (c, err, fm')"
  shows "\<exists>h' sent'. fm' = fm\<lparr>fm_reqs := h', fm_sent := sent'\<rparr> \<and> (\<forall>p. p \<notin> set wds \<longrightarrow> h' p = fm_reqs fm p) \<and>
    (wds \<noteq> [] \<longrightarrow> Completed h' (hd wds))"
  using fresh
proof (cases rule: processWithdrawals_cases [where api = api and st = st])
  case (no_balance e)
  with ret show ?thesis
    by (intro exI [of _ "fm_reqs fm'"] exI [of _ "fm_sent fm"]) (auto simp: Completed_def)
next
  case (idle avail d r h')
  with ret withdrawalsSplit_effect [OF fresh idle(2) refl, of Undef] show ?thesis
    by (intro exI [of _ "fm_reqs fm'"] exI [of _ "fm_sent fm"]) auto
next
  case (sent avail d r h' c' msg params)
  with ret withdrawalsSplit_effect [OF fresh sent(2) refl, of c'] show ?thesis
    by (intro exI [of _ "fm_reqs fm'"] exI [of _ "fm_sent fm'"]) auto
next
  case (send_failed avail d r h' e)
  with ret show ?thesis
    by (intro exI [of _ "fm_reqs fm'"] exI [of _ "fm_sent fm"]) (auto simp: Completed_def split: if_splits)
qed

lemma processWithdrawalQueue_frame:
  assumes fresh: "fresh (fm_reqs fm) (fa_refs a)" and ret: "processWithdrawalQueue api repo a fm = Ret (a', fm')"
  shows "queue_frame a fm a' fm'" and "withdrawals a \<noteq> [] \<Longrightarrow> length (fa_refs a') < length (fa_refs a)"
proof -
  have fr: "fresh (fm_reqs fm) (withdrawals a)" using fresh by (simp add: fa_refs_def fresh_append)
  obtain c err fm1 where pw: "processWithdrawals api (fa_state a) (withdrawals a) fm = Ret (c, err, fm1)"
    using ret by (auto simp: processWithdrawalQueue_def split: outcome.splits)
  obtain h1 sent1 where fm1: "fm1 = fm\<lparr>fm_reqs := h1, fm_sent := sent1\<rparr>"
    and outside: "\<forall>p. p \<notin> set (withdrawals a) \<longrightarrow> h1 p = fm_reqs fm p"
    and first: "withdrawals a \<noteq> [] \<longrightarrow> Completed h1 (hd (withdrawals a))"
    using processWithdrawals_effect [OF fr pw] by blast
  have keep: "filterOutProcessedReqs h1 (reservations a) = reservations a" "filterOutProcessedReqs h1 (releases a) = releases a"
    using fresh outside by (auto intro!: filterOut_open simp: fa_refs_def fresh_def Completed_def)
  show frame: "queue_frame a fm a' fm'"
    using ret pw fm1 outside keep
    by (auto simp: processWithdrawalQueue_def queue_frame_def fa_refs_def applyStateChange_sel split_beta)
  have heap: "fm_reqs fm' = h1"
    using ret pw fm1 by (auto simp: processWithdrawalQueue_def applyStateChange_sel split_beta)
  show "length (fa_refs a') < length (fa_refs a)" if "withdrawals a \<noteq> []"
    using that first heap queue_frame_shrinks [OF frame, of "hd (withdrawals a)"] by (simp add: fa_refs_def)
qed

section \<open>One call of \<open>process\<close>\<close>

definition scheduled :: "fundedAddress \<Rightarrow> 'r FundManager \<Rightarrow> 'r FundManager" where
  "scheduled a fm = goProcess a (case MsgCid (fa_state a) of None \<Rightarrow> fm | Some c \<Rightarrow> startWaitForResults a c fm)"

lemma process_effect:
  assumes fresh: "fresh (fm_reqs fm) (fa_refs a)" and ret: "process api repo a fm = Ret (a', fm')"
  shows "(MsgCid (fa_state a) \<noteq> None \<or> fa_refs a = []) \<and> a' = a \<and> fm' = fm \<or>
    MsgCid (fa_state a) = None \<and> fa_refs a \<noteq> [] \<and>
    (\<exists>fm1. queue_frame a fm a' fm1 \<and> length (fa_refs a') < length (fa_refs a) \<and> fm' = scheduled a' fm1)"
proof (cases "MsgCid (fa_state a) \<noteq> None \<or> fa_refs a = []")
  case True
  then have "process api repo a fm = Ret (a, fm)"
    by (elim disjE) (simp_all add: process_def fa_refs_def)
  with True ret show ?thesis by simp
next
  case busy: False
  let ?haveR = "reservations a \<noteq> [] \<or> releases a \<noteq> []"
  obtain a1 fm1 where first: "(if ?haveR then processReservationQueue api repo a fm else Ret (a, fm)) = Ret (a1, fm1)"
    and f1: "queue_frame a fm a1 fm1" and less1: "?haveR \<longrightarrow> length (fa_refs a1) < length (fa_refs a)"
    using processReservationQueue_frame [OF fresh, of api repo] queue_frame_refl [OF fresh] by (cases ?haveR) auto
  have fresh1: "fresh (fm_reqs fm1) (fa_refs a1)" using f1 fresh by (rule queue_frame_fresh)
  let ?haveW = "withdrawals a \<noteq> [] \<and> MsgCid (fa_state a1) = None \<and> reservations a1 = []"
  obtain fm2 where second: "(if ?haveW then processWithdrawalQueue api repo a1 fm1 else Ret (a1, fm1)) = Ret (a', fm2)"
    and fm': "fm' = scheduled a' fm2"
    using ret busy first
    by (auto simp: process_def fa_refs_def scheduled_def Let_def split: outcome.splits if_splits option.splits)
  have f2: "queue_frame a1 fm1 a' fm2"
  proof (cases ?haveW)
    case True
    with second have "processWithdrawalQueue api repo a1 fm1 = Ret (a', fm2)" by simp
    with fresh1 show ?thesis by (rule processWithdrawalQueue_frame(1))
  next
    case False
    with second have "a' = a1" "fm2 = fm1" by (auto split: if_splits)
    then show ?thesis using queue_frame_refl [OF fresh1] by simp
  qed
  then have le2: "length (fa_refs a') \<le> length (fa_refs a1)" by (rule queue_frame_length)
  have "length (fa_refs a') < length (fa_refs a)"
  proof (cases ?haveR)
    case False
    then have "a1 = a" "fm1 = fm" and "withdrawals a \<noteq> []" using first busy by (auto simp: fa_refs_def)
    then have "processWithdrawalQueue api repo a fm = Ret (a', fm2)"
      using second False busy by auto
    from processWithdrawalQueue_frame(2) [OF fresh this] \<open>withdrawals a \<noteq> []\<close> show ?thesis by simp
  qed (use less1 le2 in auto)
  with queue_frame_trans [OF f1 f2] busy fm' show ?thesis by blast
qed

section \<open>The invariant\<close>

text \<open>
  Per address: the state is filed under its own address, the reserved amount is not negative, the
  queued requests are open and queued once, exactly the message of \<open>MsgCid\<close> is waited for, and a
  queue that could be processed has a pending call of \<open>process\<close>.
\<close>

definition waits_of :: "'r FundManager \<Rightarrow> address \<Rightarrow> cid list" where
  "waits_of fm addr = map snd (filter (\<lambda>w. fst w = addr) (fm_waits fm))"

definition addr_inv :: "'r FundManager \<Rightarrow> address \<Rightarrow> fundedAddress \<Rightarrow> bool" where
  "addr_inv fm addr a \<longleftrightarrow>
     Addr (fa_state a) = addr \<and> 0 \<le> AmtReserved (fa_state a) \<and>
     fresh (fm_reqs fm) (fa_refs a) \<and> (\<forall>p\<in>set (fa_refs a). p < fm_nreqs fm) \<and>
     waits_of fm addr = (case MsgCid (fa_state a) of None \<Rightarrow> [] | Some c \<Rightarrow> [c]) \<and>
     (MsgCid (fa_state a) = None \<and> fa_refs a \<noteq> [] \<longrightarrow> addr \<in> set (fm_procs fm))"

definition fm_inv :: "'r FundManager \<Rightarrow> bool" where
  "fm_inv fm \<longleftrightarrow>
     (\<forall>addr a. fundedAddrs fm addr = Some a \<longrightarrow> addr_inv fm addr a) \<and>
     (\<forall>addr. fundedAddrs fm addr = None \<longrightarrow> waits_of fm addr = []) \<and>
     (\<forall>b c x y. b \<noteq> c \<longrightarrow> fundedAddrs fm b = Some x \<longrightarrow> fundedAddrs fm c = Some y \<longrightarrow>
        set (fa_refs x) \<inter> set (fa_refs y) = {})"

lemma fm_inv_addr: "fm_inv fm \<Longrightarrow> fundedAddrs fm addr = Some a \<Longrightarrow> addr_inv fm addr a"
  by (simp add: fm_inv_def)

text \<open>A step that changes one address keeps the invariant when it leaves the others alone.\<close>

lemma fm_inv_update:
  assumes inv: "fm_inv fm" and upd: "fundedAddrs fm' = (fundedAddrs fm)(addr \<mapsto> a')"
    and own: "addr_inv fm' addr a'"
    and nreqs: "fm_nreqs fm \<le> fm_nreqs fm'"
    and waits: "\<And>b. b \<noteq> addr \<Longrightarrow> waits_of fm' b = waits_of fm b"
    and procs: "\<And>b. b \<noteq> addr \<Longrightarrow> b \<in> set (fm_procs fm) \<Longrightarrow> b \<in> set (fm_procs fm')"
    and heap: "\<And>b x p. b \<noteq> addr \<Longrightarrow> fundedAddrs fm b = Some x \<Longrightarrow> p \<in> set (fa_refs x) \<Longrightarrow>
      p < fm_nreqs fm \<Longrightarrow> p \<notin> set (fa_refs a') \<and> Completed (fm_reqs fm') p = Completed (fm_reqs fm) p"
  shows "fm_inv fm'"
proof -
  have other: "addr_inv fm' b x \<and> set (fa_refs x) \<inter> set (fa_refs a') = {}"
    if b: "b \<noteq> addr" "fundedAddrs fm b = Some x" for b x
  proof -
    have old: "addr_inv fm b x" using inv b(2) by (rule fm_inv_addr)
    have bound: "p < fm_nreqs fm" if "p \<in> set (fa_refs x)" for p using old that by (simp add: addr_inv_def)
    have "fresh (fm_reqs fm') (fa_refs x)" using old heap [OF b] bound by (simp add: addr_inv_def fresh_def)
    moreover have "\<forall>p\<in>set (fa_refs x). p < fm_nreqs fm'" using bound nreqs by fastforce
    ultimately have "addr_inv fm' b x" using old waits [OF b(1)] procs [OF b(1)] by (auto simp: addr_inv_def)
    then show ?thesis using heap [OF b] bound by blast
  qed
  have disj: "set (fa_refs x) \<inter> set (fa_refs y) = {}" if "b \<noteq> c" "fundedAddrs fm b = Some x" "fundedAddrs fm c = Some y" for b c x y
    using inv that unfolding fm_inv_def by blast
  have "waits_of fm b = []" if "fundedAddrs fm b = None" for b using inv that by (simp add: fm_inv_def)
  then have none: "waits_of fm' b = []" if "fundedAddrs fm' b = None" for b
    using that waits by (simp add: upd split: if_splits)
  have pairs: "set (fa_refs x) \<inter> set (fa_refs y) = {}"
    if bc: "b \<noteq> c" and x: "fundedAddrs fm' b = Some x" and y: "fundedAddrs fm' c = Some y" for b c x y
    using bc x y disj [OF bc] other by (cases "b = addr"; cases "c = addr") (fastforce simp: upd)+
  show ?thesis
    unfolding fm_inv_def using own other none pairs by (auto simp: upd split: if_splits)
qed

section \<open>Every step keeps the invariant\<close>

lemma getFundedAddress_inv:
  assumes "fm_inv fm" and "getFundedAddress fm addr = (a, fm1)"
  shows "fm_inv fm1" and "fundedAddrs fm1 addr = Some a"
proof -
  show "fundedAddrs fm1 addr = Some a"
    using assms(2) by (auto simp: getFundedAddress_def Let_def split: option.splits)
  show "fm_inv fm1"
  proof (cases "fundedAddrs fm addr")
    case None
    then have fm1: "fm1 = fm\<lparr>fundedAddrs := (fundedAddrs fm)(addr \<mapsto> newFundedAddress addr)\<rparr>"
      using assms(2) by (auto simp: getFundedAddress_def Let_def)
    have "waits_of fm addr = []" using assms(1) None by (simp add: fm_inv_def)
    then have own: "addr_inv fm1 addr (newFundedAddress addr)"
      by (simp add: addr_inv_def newFundedAddress_def fa_refs_def fresh_def waits_of_def fm1)
    have upd: "fundedAddrs fm1 = (fundedAddrs fm)(addr \<mapsto> newFundedAddress addr)" by (simp add: fm1)
    from assms(1) upd own show ?thesis
      by (rule fm_inv_update) (simp_all add: fm1 waits_of_def newFundedAddress_def fa_refs_def)
  qed (use assms in \<open>auto simp: getFundedAddress_def\<close>)
qed

lemma enqueue_refs:
  "mset (fa_refs (enqueue q p a)) = add_mset p (mset (fa_refs a))" "fa_state (enqueue q p a) = fa_state a"
  by (auto simp: enqueue_def fa_refs_def split: queue.split)

lemma fresh_mset: "mset ps = mset qs \<Longrightarrow> fresh h ps \<longleftrightarrow> fresh h qs"
  by (metis fresh_subset subset_mset.order_refl)

lemma requestAndWait_inv:
  assumes inv: "fm_inv fm" and a: "fundedAddrs fm addr = Some a"
  shows "fm_inv (snd (requestAndWait ctx wallet amt q a fm))"
proof -
  define fm' where "fm' = snd (requestAndWait ctx wallet amt q a fm)"
  define a' where "a' = enqueue q (fm_nreqs fm) a"
  have sel: "fundedAddrs fm' = (fundedAddrs fm)(addr \<mapsto> a')" "fm_nreqs fm' = Suc (fm_nreqs fm)"
    "fm_waits fm' = fm_waits fm" "fm_procs fm' = fm_procs fm @ [addr]"
    "fm_reqs fm' = (fm_reqs fm)(fm_nreqs fm := newFundRequest ctx wallet amt)"
    using fm_inv_addr [OF inv a]
    by (simp_all add: fm'_def a'_def requestAndWait_def goProcess_def setFundedAddress_def enqueue_refs addr_inv_def Let_def)
  have old: "addr_inv fm addr a" using inv a by (rule fm_inv_addr)
  have refs: "mset (fa_refs a') = mset (fm_nreqs fm # fa_refs a)" by (simp add: a'_def enqueue_refs)
  then have set_refs: "set (fa_refs a') = insert (fm_nreqs fm) (set (fa_refs a))" by (metis list.simps(15) mset_eq_setD)
  have "fresh (fm_reqs fm') (fm_nreqs fm # fa_refs a)"
    using old by (auto simp: addr_inv_def fresh_def sel Completed_def newFundRequest_def)
  then have "fresh (fm_reqs fm') (fa_refs a')" by (simp add: fresh_mset [OF refs])
  moreover have "waits_of fm' addr = waits_of fm addr" by (simp add: waits_of_def sel)
  moreover have "fa_state a' = fa_state a" by (simp add: a'_def enqueue_refs)
  ultimately have own: "addr_inv fm' addr a'"
    using old by (auto simp: addr_inv_def set_refs sel)
  have disj: "p \<notin> set (fa_refs a)" if "b \<noteq> addr" "fundedAddrs fm b = Some x" "p \<in> set (fa_refs x)" for b x p
    using inv a that unfolding fm_inv_def by blast
  show "fm_inv (snd (requestAndWait ctx wallet amt q a fm))"
    unfolding fm'_def [symmetric] using inv sel(1) own
    by (rule fm_inv_update) (auto simp: sel waits_of_def set_refs Completed_def dest: disj)
qed

lemma cancelRequest_inv: "fm_inv fm \<Longrightarrow> fm_inv (cancelRequest p e fm)"
proof -
  assume inv: "fm_inv fm"
  have "Completed (fm_reqs (cancelRequest p e fm)) = Completed (fm_reqs fm)"
    by (simp add: cancelRequest_def Completed_def fun_eq_iff)
  then have "fresh (fm_reqs (cancelRequest p e fm)) = fresh (fm_reqs fm)" by (simp add: fresh_def fun_eq_iff)
  with inv show ?thesis by (simp add: fm_inv_def addr_inv_def waits_of_def) (simp add: cancelRequest_def)
qed

lemma filter_fst_append: "map snd (filter (\<lambda>w. fst w = b) (xs @ (addr, c) # ys)) =
    (if b = addr then map snd (filter (\<lambda>w. fst w = b) xs) @ c # map snd (filter (\<lambda>w. fst w = b) ys)
     else map snd (filter (\<lambda>w. fst w = b) (xs @ ys)))"
  by auto

lemma waitFinished_inv:
  assumes inv: "fm_inv fm" and w: "fm_waits fm = xs @ (addr, c) # ys" and a: "fundedAddrs fm addr = Some a"
  shows "fm_inv (waitFinished repo a (fm\<lparr>fm_waits := xs @ ys\<rparr>))"
proof -
  define fm' where "fm' = waitFinished repo a (fm\<lparr>fm_waits := xs @ ys\<rparr>)"
  define a' where "a' = a\<lparr>fa_state := (fa_state a)\<lparr>MsgCid := None\<rparr>\<rparr>"
  have old: "addr_inv fm addr a" using inv a by (rule fm_inv_addr)
  then have sel: "fundedAddrs fm' = (fundedAddrs fm)(addr \<mapsto> a')" "fm_nreqs fm' = fm_nreqs fm"
    "fm_waits fm' = xs @ ys" "fm_procs fm' = fm_procs fm @ [addr]" "fm_reqs fm' = fm_reqs fm"
    by (simp_all add: fm'_def a'_def waitFinished_def clearWaitState_def saveState_def goProcess_def
        setFundedAddress_def Let_def addr_inv_def)
  have waits: "waits_of fm b = (if b = addr then map snd (filter (\<lambda>w. fst w = b) xs) @ c # map snd (filter (\<lambda>w. fst w = b) ys)
      else waits_of fm' b)" for b
    by (simp add: waits_of_def w sel filter_fst_append)
  have "waits_of fm' addr = map snd (filter (\<lambda>w. fst w = addr) xs) @ map snd (filter (\<lambda>w. fst w = addr) ys)"
    by (simp add: waits_of_def sel)
  then have "waits_of fm' addr = []"
    using waits [of addr] old by (auto simp: addr_inv_def append_eq_Cons_conv split: option.splits)
  then have own: "addr_inv fm' addr a'"
    using old by (auto simp: addr_inv_def sel a'_def fa_refs_def)
  have disj: "p \<notin> set (fa_refs a')" if "b \<noteq> addr" "fundedAddrs fm b = Some x" "p \<in> set (fa_refs x)" for b x p
    using inv a that unfolding fm_inv_def a'_def fa_refs_def by fastforce
  show ?thesis
    unfolding fm'_def [symmetric] using inv sel(1) own
    by (rule fm_inv_update) (auto simp: sel waits dest: disj)
qed

text \<open>A finished call of \<open>process\<close>: it either found nothing to do, or it left the queues shorter,
  waits for at most one message and has scheduled the next call.\<close>

lemma process_inv:
  assumes inv: "fm_inv fm" and pr: "fm_procs fm = xs @ addr # ys" and a: "fundedAddrs fm addr = Some a"
    and ret: "process api repo a (fm\<lparr>fm_procs := xs @ ys\<rparr>) = Ret (a', fm')"
  shows "fm_inv (setFundedAddress a' fm')"
proof -
  let ?fm = "fm\<lparr>fm_procs := xs @ ys\<rparr>"
  have old: "addr_inv fm addr a" using inv a by (rule fm_inv_addr)
  have disj: "p \<notin> set (fa_refs a)" if "b \<noteq> addr" "fundedAddrs fm b = Some x" "p \<in> set (fa_refs x)" for b x p
    using inv a that unfolding fm_inv_def by blast
  have fr: "fresh (fm_reqs ?fm) (fa_refs a)" using old by (simp add: addr_inv_def)
  consider (stop) "MsgCid (fa_state a) \<noteq> None \<or> fa_refs a = []" "a' = a" "fm' = ?fm"
    | (work) fm1 where "MsgCid (fa_state a) = None" "queue_frame a ?fm a' fm1" "fm' = scheduled a' fm1"
    using process_effect [OF fr ret] by blast
  then show ?thesis
  proof cases
    case stop
    note eq = stop(2,3)
    have own: "addr_inv (setFundedAddress a' fm') addr a"
      using old stop(1) by (auto simp: addr_inv_def eq setFundedAddress_def waits_of_def)
    have upd: "fundedAddrs (setFundedAddress a' fm') = (fundedAddrs fm)(addr \<mapsto> a)"
      using old by (simp add: eq setFundedAddress_def addr_inv_def)
    from inv upd own show ?thesis
      by (rule fm_inv_update) (auto simp: eq setFundedAddress_def waits_of_def pr dest: disj)
  next
    case work
    note idle = work(1) and frame = work(2) and fm' = work(3)
    have no_wait: "waits_of fm addr = []" and addr: "Addr (fa_state a') = addr" "Addr (fa_state a) = addr"
      using old idle frame by (auto simp: addr_inv_def queue_frame_def)
    have sel: "fundedAddrs (setFundedAddress a' fm') = (fundedAddrs fm)(addr \<mapsto> a')"
      "fm_nreqs (setFundedAddress a' fm') = fm_nreqs fm" "fm_reqs (setFundedAddress a' fm') = fm_reqs fm1"
      "fm_procs (setFundedAddress a' fm') = (xs @ ys) @ [addr]"
      "fm_waits (setFundedAddress a' fm') = fm_waits fm @ (case MsgCid (fa_state a') of None \<Rightarrow> [] | Some c \<Rightarrow> [(addr, c)])"
      using frame addr unfolding fm' scheduled_def
      by (auto simp: queue_frame_def setFundedAddress_def goProcess_def startWaitForResults_def split: option.split)
    have waits: "waits_of (setFundedAddress a' fm') b = waits_of fm b @
        (case MsgCid (fa_state a') of None \<Rightarrow> [] | Some c \<Rightarrow> if b = addr then [c] else [])" for b
      by (simp add: waits_of_def sel split: option.split)
    have sub: "set (fa_refs a') \<subseteq> set (fa_refs a)"
      by (auto simp: queue_frame_refs [OF frame] filterOutProcessedReqs_def)
    have heap: "fm_reqs fm1 p = fm_reqs fm p" if "p \<notin> set (fa_refs a)" for p
      using frame that by (simp add: queue_frame_def)
    have "0 \<le> AmtReserved (fa_state a')" using frame old by (simp add: queue_frame_def addr_inv_def)
    then have own: "addr_inv (setFundedAddress a' fm') addr a'"
      using queue_frame_fresh [OF frame fr] old sub no_wait addr
      by (auto simp: addr_inv_def sel waits split: option.split)
    have keep: "p \<notin> set (fa_refs a') \<and> Completed (fm_reqs fm1) p = Completed (fm_reqs fm) p"
      if "b \<noteq> addr" "fundedAddrs fm b = Some x" "p \<in> set (fa_refs x)" for b x p
      using disj [OF that] sub heap [of p] by (auto simp: Completed_def)
    show ?thesis
      using inv sel(1) own
      by (rule fm_inv_update) (auto simp: sel waits pr split: option.split dest: keep)
  qed
qed

lemma queued_inv:
  assumes "fm_inv fm"
  shows "fm_inv (snd (case getFundedAddress fm addr of (a, fm1) \<Rightarrow> requestAndWait ctx wallet amt q a fm1))"
proof -
  obtain a fm1 where g: "getFundedAddress fm addr = (a, fm1)" by fastforce
  then show ?thesis using getFundedAddress_inv [OF assms g] by (auto intro: requestAndWait_inv)
qed

lemma fm_step_inv: "fm_step repo fm fm' \<Longrightarrow> fm_inv fm \<Longrightarrow> fm_inv fm'"
proof (induction rule: fm_step.induct)
  case (step_getReserved fm addr)
  then show ?case
    by (cases "getFundedAddress fm addr") (auto simp: GetReserved_def dest: getFundedAddress_inv(1))
qed (auto simp: Reserve_def Release_def Withdraw_def Let_def
    intro: queued_inv cancelRequest_inv process_inv waitFinished_inv)

section \<open>Starting from a stored state\<close>

lemma startLoop_inv:
  "fm_inv fm \<Longrightarrow> distinct (map Addr sts) \<Longrightarrow> \<forall>st\<in>set sts. fundedAddrs fm (Addr st) = None \<and> 0 \<le> AmtReserved st \<Longrightarrow>
    fm_inv (startLoop sts fm)"
proof (induction sts arbitrary: fm)
  case (Cons st sts)
  define fa where "fa = (newFundedAddress (Addr st))\<lparr>fa_state := st\<rparr>"
  define fm1 where "fm1 = fundedAddress_start fa (setFundedAddress fa fm)"
  have fa: "fa_refs fa = []" "fa_state fa = st" by (simp_all add: fa_def fa_refs_def newFundedAddress_def)
  have sel: "fundedAddrs fm1 = (fundedAddrs fm)(Addr st \<mapsto> fa)" "fm_nreqs fm1 = fm_nreqs fm"
    "fm_reqs fm1 = fm_reqs fm" "fm_procs fm1 = fm_procs fm"
    "fm_waits fm1 = fm_waits fm @ (case MsgCid st of None \<Rightarrow> [] | Some c \<Rightarrow> [(Addr st, c)])"
    by (auto simp: fm1_def fundedAddress_start_def setFundedAddress_def startWaitForResults_def fa split: option.split)
  have none: "waits_of fm (Addr st) = []" using Cons.prems by (simp add: fm_inv_def)
  have waits: "waits_of fm1 b = waits_of fm b @ (case MsgCid st of None \<Rightarrow> [] | Some c \<Rightarrow> if b = Addr st then [c] else [])" for b
    by (simp add: waits_of_def sel split: option.split)
  have own: "addr_inv fm1 (Addr st) fa"
    using Cons.prems none by (auto simp: addr_inv_def fa waits sel fresh_def split: option.split)
  from Cons.prems(1) sel(1) own have "fm_inv fm1"
    by (rule fm_inv_update) (auto simp: sel waits fa split: option.split)
  moreover have "\<forall>st'\<in>set sts. fundedAddrs fm1 (Addr st') = None \<and> 0 \<le> AmtReserved st'"
    using Cons.prems(2,3) by (auto simp: sel image_iff)
  ultimately have "fm_inv (startLoop sts fm1)" using Cons.IH Cons.prems(2) by simp
  then show ?case by (simp add: fm1_def fa_def Let_def)
qed simp

context fund_repo
begin

lemma reachable_inv:
  assumes reach: "fm_reachable repo store fm" and store: "invar store"
    and amts: "\<And>a st. view store a = Some st \<Longrightarrow> 0 \<le> AmtReserved st"
  shows "fm_inv fm"
  using reach
proof (induction rule: fm_reachable.induct)
  case (reach_start fm)
  then obtain sts where l: "frList repo store = Inr sts" and fm: "fm = startLoop sts (newFundManager store)"
    by (auto simp: Start_def newFundManager_def split: sum.splits)
  have "fm_inv (newFundManager store)"
    by (simp add: fm_inv_def newFundManager_def waits_of_def)
  then show ?case
    unfolding fm using list_distinct [OF store l] list_sound [OF store l] amts
    by (intro startLoop_inv) (auto simp: newFundManager_def)
next
  case (reach_step fm fm')
  then show ?case using fm_step_inv by blast
qed

end

section \<open>Properties\<close>

text \<open>
  Property C1. In every state the fund manager reaches from a well-formed badger store whose reserved
  amounts are not negative, whatever the chain answers and however requests, cancellations, queue
  processing and message waits interleave: the reserved amounts are never negative, every queued
  request is open and queued once, an address waits for exactly the message of its state (at most
  one in flight), and a queue that could be processed has a pending call of \<open>process\<close>.
\<close>

theorem fund_manager_invariant:
  assumes "badger_fund ds contents cd" and "fm_reachable (NewFundRepo ds cd) store fm"
    and "fund_invar contents cd store"
    and "\<And>a st. fund_view contents cd store a = Some st \<Longrightarrow> 0 \<le> AmtReserved st"
  shows "fm_inv fm"
  using assms(2-4) by (rule fund_repo.reachable_inv [OF badger_fund.fund_repo_laws [OF assms(1)]])

text \<open>The invariant after a reservation on an empty store.\<close>

theorem fund_manager_invariant_witness:
  "fm_reachable (NewFundRepo map_datastore id_codec) [] (snd (Reserve (newFundManager []) None ''w'' ''addr'' 5)) \<and>
   fm_inv (snd (Reserve (newFundManager ([] :: (ds_key \<times> FundedAddressState) list)) None ''w'' ''addr'' 5))"
proof -
  have "fm_reachable (NewFundRepo map_datastore id_codec) [] (newFundManager [])"
    by (rule reach_start) (simp add: Start_def newFundManager_def ListFundedAddressState_def)
  then have reach: "fm_reachable (NewFundRepo map_datastore id_codec) []
      (snd (Reserve (newFundManager []) None ''w'' ''addr'' 5))"
    by (rule reach_step) (rule step_reserve)
  have "fm_inv (snd (Reserve (newFundManager ([] :: (ds_key \<times> FundedAddressState) list)) None ''w'' ''addr'' 5))"
    by (rule fund_manager_invariant [OF mapfund.badger_fund_axioms reach])
      (simp_all add: fund_invar_def fund_view_def)
  with reach show ?thesis by simp
qed


definition demo_address :: fundedAddress where
  "demo_address = (newFundedAddress ''addr'')\<lparr>reservations := [3, 5]\<rparr>"

definition demo_fund_repo :: "unit FundRepo" where
  "demo_fund_repo = \<lparr>frSave = (\<lambda>_ _. ((), None)), frGet = (\<lambda>_ _. Inl ErrNotFound), frList = (\<lambda>_. Inr [])\<rparr>"


end
