(* ===== verification/Paych_Repo.thy ===== *)
theory Paych_Repo
  imports Datastore
begin

text \<open>
  Persistence of payment channels: the interfaces \<open>PaychChannelInfoRepo\<close> and \<open>PaychMsgInfoRepo\<close>
  (\<open>src/models/repo/repo.go\<close>) as one record of operations and a locale of laws, and their badger
  implementation (\<open>src/models/badger/paych.go\<close>), which satisfies the laws over every lawful
  datastore and codec. The identifier that \<open>uuid.New()\<close> draws and the reserved address \<open>emptyAddr\<close>
  are arguments.
\<close>

section \<open>Data\<close>

text \<open>\<open>paych.SignedVoucher\<close>; the fields of \<open>Extra\<close> and of the signature are opaque bytes.\<close>

record SignedVoucher =
  svChannelAddr :: address
  svTimeLockMin :: int
  svTimeLockMax :: int
  svSecretHash :: bytes
  svExtra :: "bytes option"
  svLane :: u64
  svNonce :: u64
  svAmount :: int
  svMinSettleHeight :: int
  svMerges :: "(u64 \<times> u64) list"
  svSignature :: "bytes option"

record VoucherInfo =
  Voucher :: SignedVoucher
  Proof :: bytes
  Submitted :: bool

datatype Dir = DirInbound | DirOutbound

record ChannelInfo =
  ChannelID :: string
  Channel :: "address option"
  Control :: address
  Target :: address
  Direction :: Dir
  Vouchers :: "VoucherInfo list"
  NextLane :: u64
  ciAmount :: int
  PendingAmount :: int
  CreateMsg :: "cid option"
  AddFundsMsg :: "cid option"
  Settling :: bool

record MsgInfo =
  miChannelID :: string
  miMsgCid :: cid
  Received :: bool
  miErr :: string

section \<open>The interface\<close>

record 'r PaychRepo =
  pcCreateChannel :: "'r \<Rightarrow> string \<Rightarrow> address \<Rightarrow> address \<Rightarrow> cid \<Rightarrow> int \<Rightarrow> 'r \<times> ChannelInfo res"
  pcGetChannelByAddress :: "'r \<Rightarrow> address \<Rightarrow> ChannelInfo res"
  pcGetChannelByChannelID :: "'r \<Rightarrow> string \<Rightarrow> ChannelInfo res"
  pcGetChannelByMessageCid :: "'r \<Rightarrow> cid \<Rightarrow> ChannelInfo res"
  pcWithPendingAddFunds :: "'r \<Rightarrow> ChannelInfo list res"
  pcOutboundActiveByFromTo :: "'r \<Rightarrow> address \<Rightarrow> address \<Rightarrow> ChannelInfo res"
  pcListChannel :: "'r \<Rightarrow> address list res"
  pcSaveChannel :: "'r \<Rightarrow> string \<Rightarrow> ChannelInfo \<Rightarrow> 'r \<times> error option"
  pcRemoveChannel :: "'r \<Rightarrow> string \<Rightarrow> 'r \<times> error option"
  pmGetMessage :: "'r \<Rightarrow> cid \<Rightarrow> MsgInfo res"
  pmSaveMessage :: "'r \<Rightarrow> MsgInfo \<Rightarrow> 'r \<times> error option"
  pmSaveMessageResult :: "'r \<Rightarrow> cid \<Rightarrow> error option \<Rightarrow> 'r \<times> error option"

definition withID :: "string \<Rightarrow> ChannelInfo \<Rightarrow> ChannelInfo" where
  "withID uid ci = (if length (ChannelID ci) = 0 then ci\<lparr>ChannelID := uid\<rparr> else ci)"

definition newChannel :: "string \<Rightarrow> address \<Rightarrow> address \<Rightarrow> cid \<Rightarrow> int \<Rightarrow> ChannelInfo" where
  "newChannel uid from to createMsgCid amt =
     \<lparr>ChannelID = uid, Channel = None, Control = from, Target = to, Direction = DirOutbound,
      Vouchers = [], NextLane = 0, ciAmount = 0, PendingAmount = amt, CreateMsg = Some createMsgCid,
      AddFundsMsg = None, Settling = False\<rparr>"

locale paych_repo =
  fixes repo :: "'r PaychRepo" and view :: "'r \<Rightarrow> string \<Rightarrow> ChannelInfo option"
    and msgs :: "'r \<Rightarrow> cid \<Rightarrow> MsgInfo option" and invar :: "'r \<Rightarrow> bool" and reserved :: address
  assumes save_channel: "pcSaveChannel repo r uid ci = (r', None) \<Longrightarrow> Channel ci \<noteq> Some reserved \<Longrightarrow>
      view r' = (view r)(ChannelID (withID uid ci) \<mapsto> withID uid ci) \<and> msgs r' = msgs r"
    and save_channel_failed: "pcSaveChannel repo r uid ci = (r', Some e) \<Longrightarrow> view r' = view r \<and> msgs r' = msgs r"
    and save_channel_invar: "invar r \<Longrightarrow> uid \<noteq> [] \<Longrightarrow> pcSaveChannel repo r uid ci = (r', err) \<Longrightarrow> invar r'"
    and remove_channel: "pcRemoveChannel repo r i = (r', None) \<Longrightarrow> view r' = (view r)(i := None) \<and> msgs r' = msgs r"
    and remove_channel_failed: "pcRemoveChannel repo r i = (r', Some e) \<Longrightarrow> view r' = view r \<and> msgs r' = msgs r"
    and remove_channel_invar: "invar r \<Longrightarrow> pcRemoveChannel repo r i = (r', err) \<Longrightarrow> invar r'"
    and get_by_address: "invar r \<Longrightarrow> pcGetChannelByAddress repo r ch = Inr ci \<Longrightarrow>
      view r (ChannelID ci) = Some ci \<and> Channel ci = Some ch"
    and get_by_id: "invar r \<Longrightarrow> pcGetChannelByChannelID repo r i = Inr ci \<Longrightarrow> ChannelID ci = i \<and> view r i = Some ci"
    and get_active: "invar r \<Longrightarrow> pcOutboundActiveByFromTo repo r from to = Inr ci \<Longrightarrow>
      view r (ChannelID ci) = Some ci \<and> Direction ci = DirOutbound \<and> \<not> Settling ci \<and> Control ci = from \<and> Target ci = to"
    and get_pending: "invar r \<Longrightarrow> pcWithPendingAddFunds repo r = Inr cis \<Longrightarrow> ci \<in> set cis \<Longrightarrow>
      view r (ChannelID ci) = Some ci \<and> Direction ci = DirOutbound \<and> (CreateMsg ci \<noteq> None \<or> AddFundsMsg ci \<noteq> None)"
    and view_known: "invar r \<Longrightarrow> view r i = Some ci \<Longrightarrow> ChannelID ci = i \<and> i \<noteq> [] \<and> Channel ci \<noteq> Some reserved"
    and get_message: "pmGetMessage repo r c = Inr m \<Longrightarrow> msgs r c = Some m"
    and save_message: "pmSaveMessage repo r m = (r', None) \<Longrightarrow> msgs r' = (msgs r)(miMsgCid m \<mapsto> m) \<and> view r' = view r"
    and save_message_failed: "pmSaveMessage repo r m = (r', Some e) \<Longrightarrow> msgs r' = msgs r \<and> view r' = view r"
    and save_message_invar: "invar r \<Longrightarrow> pmSaveMessage repo r m = (r', err) \<Longrightarrow> invar r'"
    and save_result: "pmSaveMessageResult repo r c me = (r', err) \<Longrightarrow> view r' = view r \<and> (invar r \<longrightarrow> invar r')"
    and create_channel: "uid \<noteq> [] \<Longrightarrow> pcCreateChannel repo r uid from to c amt = (r', res) \<Longrightarrow>
      (view r' = view r \<and> isl res \<or> view r' = (view r)(uid \<mapsto> newChannel uid from to c amt)) \<and>
      (invar r \<longrightarrow> invar r') \<and> (\<forall>ci. res = Inr ci \<longrightarrow> ChannelID ci = uid)"
begin

lemma save_channel_view:
  "pcSaveChannel repo r uid ci = (r', err) \<Longrightarrow> Channel ci \<noteq> Some reserved \<Longrightarrow>
    view r' = (case err of None \<Rightarrow> (view r)(ChannelID (withID uid ci) \<mapsto> withID uid ci) | Some e \<Rightarrow> view r) \<and>
    msgs r' = msgs r"
  using save_channel [of r uid ci r'] save_channel_failed [of r uid ci r'] by (cases err) auto

lemma get_after_save:
  assumes "pcSaveChannel repo r uid ci = (r', None)" and "Channel ci \<noteq> Some reserved" and "invar r'"
    and "pcGetChannelByChannelID repo r' (ChannelID (withID uid ci)) = Inr ci'"
  shows "ci' = withID uid ci"
  using save_channel [OF assms(1,2)] get_by_id [OF assms(3,4)] by (metis fun_upd_same option.inject)

end

section \<open>The badger implementation\<close>

text \<open>The two codecs of the repository and the address that stands for a nil channel.\<close>

record 'v paych_codec =
  pcChannel :: "(ChannelInfo, 'v) codec_ops"
  pcMessage :: "(MsgInfo, 'v) codec_ops"
  emptyAddr :: address

definition dsKeyChannelInfo :: string where
  "dsKeyChannelInfo = ''ChannelInfo''"

definition dsKeyMsgCid :: string where
  "dsKeyMsgCid = ''MsgCid''"

definition dskeyForChannel :: "string \<Rightarrow> ds_key" where
  "dskeyForChannel channelID = [dsKeyChannelInfo, channelID]"

definition dskeyForMsg :: "cid \<Rightarrow> ds_key" where
  "dskeyForMsg mcid = [dsKeyMsgCid, mcid]"

text \<open>\<open>marshallChannelInfo\<close> also writes \<open>emptyAddr\<close> into the channel info of its caller.\<close>

definition marshallChannelInfo :: "'v paych_codec \<Rightarrow> ChannelInfo \<Rightarrow> ChannelInfo \<times> 'v res" where
  "marshallChannelInfo pc ci =
     (let ci' = (if Channel ci = None then ci\<lparr>Channel := Some (emptyAddr pc)\<rparr> else ci)
      in (ci', Dump (pcChannel pc) ci'))"

definition unmarshallChannelInfo :: "'v paych_codec \<Rightarrow> 'v \<Rightarrow> ChannelInfo res" where
  "unmarshallChannelInfo pc value' =
     tryE (Load (pcChannel pc) value') (\<lambda>stored.
       Inr (if Channel stored = Some (emptyAddr pc) then stored\<lparr>Channel := None\<rparr> else stored))"

text \<open>The loop of \<open>findChans\<close>; an entry with an error ends it with the nil error of \<open>Query\<close>.\<close>

fun findChansLoop :: "'v paych_codec \<Rightarrow> (ChannelInfo \<Rightarrow> bool) \<Rightarrow> nat \<Rightarrow> ChannelInfo list \<Rightarrow> ('v res) list \<Rightarrow>
    ChannelInfo list res" where
  "findChansLoop pc flt mx matches [] = Inr matches"
| "findChansLoop pc flt mx matches (Inl _ # rs) = Inr []"
| "findChansLoop pc flt mx matches (Inr value' # rs) =
     (case unmarshallChannelInfo pc value' of
        Inl e \<Rightarrow> Inl e
      | Inr ci \<Rightarrow>
          if \<not> flt ci then findChansLoop pc flt mx matches rs
          else if length (matches @ [ci]) = mx then Inr (matches @ [ci])
          else findChansLoop pc flt mx (matches @ [ci]) rs)"

definition findChans :: "('s, 'v) datastore_ops \<Rightarrow> 'v paych_codec \<Rightarrow> 's \<Rightarrow> (ChannelInfo \<Rightarrow> bool) \<Rightarrow> nat \<Rightarrow>
    ChannelInfo list res" where
  "findChans ds pc s flt mx = tryE (dsQuery ds s [dsKeyChannelInfo]) (findChansLoop pc flt mx [])"

definition findChan :: "('s, 'v) datastore_ops \<Rightarrow> 'v paych_codec \<Rightarrow> 's \<Rightarrow> (ChannelInfo \<Rightarrow> bool) \<Rightarrow> ChannelInfo res" where
  "findChan ds pc s flt = tryE (findChans ds pc s flt 1)
     (\<lambda>cis. case cis of [] \<Rightarrow> Inl ErrNotFound | ci # _ \<Rightarrow> Inr ci)"

definition GetChannelByAddress where
  "GetChannelByAddress ds pc s ch = findChan ds pc s (\<lambda>ci. Channel ci = Some ch)"

definition GetChannelByChannelID where
  "GetChannelByChannelID ds pc s channelID = findChan ds pc s (\<lambda>ci. ChannelID ci = channelID)"

definition OutboundActiveByFromTo where
  "OutboundActiveByFromTo ds pc s from to = findChan ds pc s (\<lambda>ci.
     if Direction ci \<noteq> DirOutbound then False
     else if Settling ci then False
     else Control ci = from \<and> Target ci = to)"

definition ListChannel where
  "ListChannel ds pc s = tryE (findChans ds pc s (\<lambda>ci. Channel ci \<noteq> None) 0) (\<lambda>cis. Inr (map (the \<circ> Channel) cis))"

definition WithPendingAddFunds where
  "WithPendingAddFunds ds pc s = findChans ds pc s (\<lambda>ci.
     if Direction ci \<noteq> DirOutbound then False
     else CreateMsg ci \<noteq> None \<or> AddFundsMsg ci \<noteq> None) 0"

text \<open>\<open>SaveChannel\<close> returns, besides the error, the channel info as the caller sees it afterwards.\<close>

definition SaveChannel :: "('s, 'v) datastore_ops \<Rightarrow> 'v paych_codec \<Rightarrow> 's \<Rightarrow> string \<Rightarrow> ChannelInfo \<Rightarrow>
    's \<times> ChannelInfo \<times> error option" where
  "SaveChannel ds pc s uid ci =
     (let ci1 = withID uid ci;
          key = dskeyForChannel (ChannelID ci1)
      in case marshallChannelInfo pc ci1 of
           (ci2, Inl e) \<Rightarrow> (s, ci2, Some e)
         | (ci2, Inr b) \<Rightarrow> (case dsPut ds s key b of (s', err) \<Rightarrow> (s', ci2, err)))"

definition RemoveChannel :: "('s, 'v) datastore_ops \<Rightarrow> 's \<Rightarrow> string \<Rightarrow> 's \<times> error option" where
  "RemoveChannel ds s channelID = dsDelete ds s (dskeyForChannel channelID)"

definition GetMessage :: "('s, 'v) datastore_ops \<Rightarrow> 'v paych_codec \<Rightarrow> 's \<Rightarrow> cid \<Rightarrow> MsgInfo res" where
  "GetMessage ds pc s mcid = tryE (dsGet ds s (dskeyForMsg mcid)) (Load (pcMessage pc))"

definition SaveMessage :: "('s, 'v) datastore_ops \<Rightarrow> 'v paych_codec \<Rightarrow> 's \<Rightarrow> MsgInfo \<Rightarrow> 's \<times> error option" where
  "SaveMessage ds pc s info =
     (case Dump (pcMessage pc) info of
        Inl e \<Rightarrow> (s, Some e)
      | Inr b \<Rightarrow> dsPut ds s (dskeyForMsg (miMsgCid info)) b)"

text \<open>\<open>err.Error()\<close> of the errors of the model; never empty for an error of the code.\<close>

fun errorString :: "error \<Rightarrow> string" where
  "errorString ErrNotFound = ''record not found''"
| "errorString ErrCanceled = ''context canceled''"
| "errorString (ErrMsg m) = m"
| "errorString (ErrWrap m e) = m @ '': '' @ errorString e"
| "errorString (ErrInsufficientFunds n) = ''not enough funds in channel to cover voucher - shortfall''"
| "errorString (ErrApi m) = m"

definition SaveMessageResult :: "('s, 'v) datastore_ops \<Rightarrow> 'v paych_codec \<Rightarrow> 's \<Rightarrow> cid \<Rightarrow> error option \<Rightarrow>
    's \<times> error option" where
  "SaveMessageResult ds pc s mcid msgErr =
     (case GetMessage ds pc s mcid of
        Inl e \<Rightarrow> (s, Some e)
      | Inr minfo \<Rightarrow>
          (let m1 = minfo\<lparr>Received := True\<rparr>;
               m2 = (case msgErr of None \<Rightarrow> m1 | Some e \<Rightarrow> m1\<lparr>miErr := errorString e\<rparr>)
           in case Dump (pcMessage pc) m2 of
                Inl e \<Rightarrow> (s, Some e)
              | Inr b \<Rightarrow> dsPut ds s (dskeyForMsg mcid) b))"

definition GetChannelByMessageCid :: "('s, 'v) datastore_ops \<Rightarrow> 'v paych_codec \<Rightarrow> 's \<Rightarrow> cid \<Rightarrow> ChannelInfo res" where
  "GetChannelByMessageCid ds pc s mcid =
     tryE (GetMessage ds pc s mcid) (\<lambda>info. GetChannelByChannelID ds pc s (miChannelID info))"

definition CreateChannel :: "('s, 'v) datastore_ops \<Rightarrow> 'v paych_codec \<Rightarrow> 's \<Rightarrow> string \<Rightarrow> address \<Rightarrow> address \<Rightarrow> cid \<Rightarrow>
    int \<Rightarrow> 's \<times> ChannelInfo res" where
  "CreateChannel ds pc s uid from to createMsgCid amt =
     (let ci = newChannel [] from to createMsgCid amt
      in case SaveChannel ds pc s uid ci of
           (s1, _, Some e) \<Rightarrow> (s1, Inl e)
         | (s1, ci1, None) \<Rightarrow>
             (case SaveMessage ds pc s1 \<lparr>miChannelID = ChannelID ci1, miMsgCid = createMsgCid, Received = False, miErr = []\<rparr> of
                (s2, Some e) \<Rightarrow> (s2, Inl e)
              | (s2, None) \<Rightarrow> (s2, Inr ci1)))"

definition NewPaychRepo :: "('s, 'v) datastore_ops \<Rightarrow> 'v paych_codec \<Rightarrow> 's PaychRepo" where
  "NewPaychRepo ds pc = \<lparr>
     pcCreateChannel = CreateChannel ds pc,
     pcGetChannelByAddress = GetChannelByAddress ds pc,
     pcGetChannelByChannelID = GetChannelByChannelID ds pc,
     pcGetChannelByMessageCid = GetChannelByMessageCid ds pc,
     pcWithPendingAddFunds = WithPendingAddFunds ds pc,
     pcOutboundActiveByFromTo = OutboundActiveByFromTo ds pc,
     pcListChannel = ListChannel ds pc,
     pcSaveChannel = (\<lambda>s uid ci. case SaveChannel ds pc s uid ci of (s', _, err) \<Rightarrow> (s', err)),
     pcRemoveChannel = RemoveChannel ds,
     pmGetMessage = GetMessage ds pc,
     pmSaveMessage = SaveMessage ds pc,
     pmSaveMessageResult = SaveMessageResult ds pc\<rparr>"

lemma NewPaychRepo_sel [simp]:
  "pcCreateChannel (NewPaychRepo ds pc) = CreateChannel ds pc"
  "pcGetChannelByAddress (NewPaychRepo ds pc) = GetChannelByAddress ds pc"
  "pcGetChannelByChannelID (NewPaychRepo ds pc) = GetChannelByChannelID ds pc"
  "pcGetChannelByMessageCid (NewPaychRepo ds pc) = GetChannelByMessageCid ds pc"
  "pcWithPendingAddFunds (NewPaychRepo ds pc) = WithPendingAddFunds ds pc"
  "pcOutboundActiveByFromTo (NewPaychRepo ds pc) = OutboundActiveByFromTo ds pc"
  "pcListChannel (NewPaychRepo ds pc) = ListChannel ds pc"
  "pcSaveChannel (NewPaychRepo ds pc) s uid ci = (fst (SaveChannel ds pc s uid ci), snd (snd (SaveChannel ds pc s uid ci)))"
  "pcRemoveChannel (NewPaychRepo ds pc) = RemoveChannel ds"
  "pmGetMessage (NewPaychRepo ds pc) = GetMessage ds pc"
  "pmSaveMessage (NewPaychRepo ds pc) = SaveMessage ds pc"
  "pmSaveMessageResult (NewPaychRepo ds pc) = SaveMessageResult ds pc"
  by (simp_all add: NewPaychRepo_def split_beta)

section \<open>The badger repository satisfies the interface\<close>

definition paych_view :: "('s \<Rightarrow> ds_key \<Rightarrow> 'v option) \<Rightarrow> 'v paych_codec \<Rightarrow> 's \<Rightarrow> string \<Rightarrow> ChannelInfo option" where
  "paych_view contents pc s i = (case contents s (dskeyForChannel i) of
     None \<Rightarrow> None | Some v \<Rightarrow> (case unmarshallChannelInfo pc v of Inl _ \<Rightarrow> None | Inr ci \<Rightarrow> Some ci))"

definition paych_msgs :: "('s \<Rightarrow> ds_key \<Rightarrow> 'v option) \<Rightarrow> 'v paych_codec \<Rightarrow> 's \<Rightarrow> cid \<Rightarrow> MsgInfo option" where
  "paych_msgs contents pc s c = (case contents s (dskeyForMsg c) of
     None \<Rightarrow> None | Some v \<Rightarrow> (case Load (pcMessage pc) v of Inl _ \<Rightarrow> None | Inr m \<Rightarrow> Some m))"

definition paych_invar :: "('s \<Rightarrow> ds_key \<Rightarrow> 'v option) \<Rightarrow> 'v paych_codec \<Rightarrow> 's \<Rightarrow> bool" where
  "paych_invar contents pc s \<longleftrightarrow> (\<forall>k v. contents s k = Some v \<and> under_prefix [dsKeyChannelInfo] k \<longrightarrow>
     (\<exists>ci. unmarshallChannelInfo pc v = Inr ci \<and> k = dskeyForChannel (ChannelID ci) \<and> ChannelID ci \<noteq> []))"

lemma channel_keys [simp]:
  "dskeyForChannel i = dskeyForChannel j \<longleftrightarrow> i = j" "dskeyForMsg c = dskeyForMsg d \<longleftrightarrow> c = d"
  "dskeyForChannel i \<noteq> dskeyForMsg c" "dskeyForMsg c \<noteq> dskeyForChannel i"
  "under_prefix [dsKeyChannelInfo] (dskeyForChannel i)" "\<not> under_prefix [dsKeyChannelInfo] (dskeyForMsg c)"
  by (simp_all add: dskeyForChannel_def dskeyForMsg_def dsKeyChannelInfo_def dsKeyMsgCid_def)

lemma findChansLoop_sound:
  "findChansLoop pc flt mx matches rs = Inr cis \<Longrightarrow> ci \<in> set cis \<Longrightarrow>
    ci \<in> set matches \<or> flt ci \<and> (\<exists>v. Inr v \<in> set rs \<and> unmarshallChannelInfo pc v = Inr ci)"
proof (induction pc flt mx matches rs rule: findChansLoop.induct)
  case (3 pc flt mx matches v rs)
  then show ?case by (fastforce split: sum.splits if_splits)
qed auto

text \<open>Every channel that passes the filter is found, unless the query broke off at an entry with an
  error or at the limit.\<close>

lemma findChansLoop_complete:
  "findChansLoop pc flt 0 matches rs = Inr cis \<Longrightarrow> \<forall>r\<in>set rs. \<not> isl r \<Longrightarrow>
    set matches \<subseteq> set cis \<and> (\<forall>v ci. Inr v \<in> set rs \<and> unmarshallChannelInfo pc v = Inr ci \<and> flt ci \<longrightarrow> ci \<in> set cis)"
proof (induction pc flt "0::nat" matches rs rule: findChansLoop.induct)
  case (3 pc flt matches v rs)
  then show ?case by (fastforce split: sum.splits if_splits)
qed auto

locale badger_paych = datastore ds contents + ch: codec "pcChannel pc" + ms: codec "pcMessage pc"
  for ds :: "('s, 'v) datastore_ops" and contents and pc :: "'v paych_codec"
begin

lemma marshall_round_trip:
  assumes "marshallChannelInfo pc ci = (ci', Inr b)" and "Channel ci \<noteq> Some (emptyAddr pc)"
  shows "unmarshallChannelInfo pc b = Inr ci"
proof -
  have "Load (pcChannel pc) b = Inr ci'" and "ci' = (if Channel ci = None then ci\<lparr>Channel := Some (emptyAddr pc)\<rparr> else ci)"
    using assms(1) by (auto simp: marshallChannelInfo_def Let_def intro: ch.load_dump)
  with assms(2) show ?thesis by (cases ci) (auto simp: unmarshallChannelInfo_def)
qed

lemma found_channel:
  assumes "paych_invar contents pc s" and "findChans ds pc s flt mx = Inr cis" and "ci \<in> set cis"
  shows "paych_view contents pc s (ChannelID ci) = Some ci \<and> flt ci"
proof -
  obtain rs where q: "dsQuery ds s [dsKeyChannelInfo] = Inr rs" and loop: "findChansLoop pc flt mx [] rs = Inr cis"
    using assms(2) by (auto simp: findChans_def tryE_Inr_iff)
  obtain v where v: "Inr v \<in> set rs" "unmarshallChannelInfo pc v = Inr ci" and flt: "flt ci"
    using findChansLoop_sound [OF loop assms(3)] by auto
  obtain k where k: "under_prefix [dsKeyChannelInfo] k" "contents s k = Some v" using query_entry [OF q v(1)] by blast
  then have "k = dskeyForChannel (ChannelID ci)" using assms(1) v(2) by (fastforce simp: paych_invar_def)
  with k v(2) flt show ?thesis by (simp add: paych_view_def)
qed

lemma findChan_found:
  assumes "paych_invar contents pc s" and "findChan ds pc s flt = Inr ci"
  shows "paych_view contents pc s (ChannelID ci) = Some ci \<and> flt ci"
proof -
  obtain cis where f: "findChans ds pc s flt 1 = Inr cis"
      and first: "(case cis of [] \<Rightarrow> Inl ErrNotFound | ci # _ \<Rightarrow> Inr ci) = Inr ci"
    using assms(2) unfolding findChan_def tryE_Inr_iff by blast
  from first have "ci \<in> set cis" by (cases cis) auto
  with assms(1) f show ?thesis by (rule found_channel)
qed

lemma SaveChannel_cases:
  assumes "SaveChannel ds pc s uid ci = (s', ci', err)"
  shows "(err \<noteq> None \<longrightarrow> contents s' = contents s) \<and>
    (err = None \<longrightarrow> (\<exists>b. marshallChannelInfo pc (withID uid ci) = (ci', Inr b) \<and>
      contents s' = (contents s)(dskeyForChannel (ChannelID (withID uid ci)) \<mapsto> b)))"
  using assms put_ok put_failed
  by (fastforce simp: SaveChannel_def Let_def split: prod.splits sum.splits)

lemma withID_sel [simp]: "Channel (withID uid ci) = Channel ci"
  by (simp add: withID_def)

lemma withID_nonempty: "ChannelID ci \<noteq> [] \<Longrightarrow> withID uid ci = ci"
  by (simp add: withID_def)

lemma save_channel_badger:
  assumes "SaveChannel ds pc s uid ci = (s', ci', None)" and "Channel ci \<noteq> Some (emptyAddr pc)"
  shows "paych_view contents pc s' = (paych_view contents pc s)(ChannelID (withID uid ci) \<mapsto> withID uid ci)"
    and "paych_msgs contents pc s' = paych_msgs contents pc s"
proof -
  obtain b where b: "marshallChannelInfo pc (withID uid ci) = (ci', Inr b)"
    and c: "contents s' = (contents s)(dskeyForChannel (ChannelID (withID uid ci)) \<mapsto> b)"
    using SaveChannel_cases [OF assms(1)] by auto
  have "unmarshallChannelInfo pc b = Inr (withID uid ci)"
    using b assms(2) by (intro marshall_round_trip) auto
  then show "paych_view contents pc s' = (paych_view contents pc s)(ChannelID (withID uid ci) \<mapsto> withID uid ci)"
    and "paych_msgs contents pc s' = paych_msgs contents pc s"
    by (auto simp: paych_view_def paych_msgs_def c fun_eq_iff)
qed

lemma unmarshall_marshall_id:
  assumes "marshallChannelInfo pc ci = (ci', Inr b)"
  shows "\<exists>ci2. unmarshallChannelInfo pc b = Inr ci2 \<and> ChannelID ci2 = ChannelID ci"
proof -
  have "Load (pcChannel pc) b = Inr ci'" and "ChannelID ci' = ChannelID ci"
    using assms by (auto simp: marshallChannelInfo_def Let_def intro: ch.load_dump)
  then show ?thesis by (simp add: unmarshallChannelInfo_def)
qed

lemma save_channel_keeps:
  assumes "paych_invar contents pc s" and "SaveChannel ds pc s uid ci = (s', ci', err)" and "uid \<noteq> []"
  shows "paych_invar contents pc s'"
proof (cases err)
  case None
  have "ChannelID (withID uid ci) \<noteq> []" using assms(3) by (simp add: withID_def)
  moreover obtain b where b: "marshallChannelInfo pc (withID uid ci) = (ci', Inr b)"
    and c: "contents s' = (contents s)(dskeyForChannel (ChannelID (withID uid ci)) \<mapsto> b)"
    using SaveChannel_cases [OF assms(2)] None by auto
  moreover obtain ci2 where "unmarshallChannelInfo pc b = Inr ci2" "ChannelID ci2 = ChannelID (withID uid ci)"
    using unmarshall_marshall_id [OF b] by blast
  ultimately show ?thesis using assms(1) unfolding paych_invar_def by (metis fun_upd_apply option.inject)
next
  case (Some e)
  with assms SaveChannel_cases [OF assms(2)] show ?thesis by (simp add: paych_invar_def)
qed

lemma SaveMessage_cases:
  assumes "SaveMessage ds pc s m = (s', err)"
  shows "(err \<noteq> None \<longrightarrow> contents s' = contents s) \<and>
    (err = None \<longrightarrow> (\<exists>b. Dump (pcMessage pc) m = Inr b \<and> contents s' = (contents s)(dskeyForMsg (miMsgCid m) \<mapsto> b)))"
  using assms put_ok put_failed by (cases err) (auto simp: SaveMessage_def split: sum.splits)

lemma messages_keep_channels:
  assumes "contents s' = contents s \<or> (\<exists>c b. contents s' = (contents s)(dskeyForMsg c \<mapsto> b))"
  shows "paych_view contents pc s' = paych_view contents pc s" and "paych_invar contents pc s \<Longrightarrow> paych_invar contents pc s'"
proof -
  have ch: "contents s' (dskeyForChannel i) = contents s (dskeyForChannel i)" for i using assms by auto
  then show "paych_view contents pc s' = paych_view contents pc s" by (simp add: paych_view_def fun_eq_iff)
  have "contents s' k = contents s k" if "under_prefix [dsKeyChannelInfo] k" for k
    using assms that by (metis channel_keys(6) fun_upd_other)
  then show "paych_invar contents pc s \<Longrightarrow> paych_invar contents pc s'" unfolding paych_invar_def by metis
qed

lemma save_result_badger:
  assumes "SaveMessageResult ds pc s c e = (s', err)"
  shows "paych_view contents pc s' = paych_view contents pc s \<and> (paych_invar contents pc s \<longrightarrow> paych_invar contents pc s')"
proof -
  have "contents s' = contents s \<or> (\<exists>c b. contents s' = (contents s)(dskeyForMsg c \<mapsto> b))"
    using assms put_ok put_failed
    by (cases err) (fastforce simp: SaveMessageResult_def Let_def split: sum.splits)+
  then show ?thesis using messages_keep_channels by blast
qed

lemma create_channel_badger:
  assumes uid: "uid \<noteq> []" and create: "CreateChannel ds pc s uid from to c amt = (s', res)"
  shows "(paych_view contents pc s' = paych_view contents pc s \<and> isl res \<or>
      paych_view contents pc s' = (paych_view contents pc s)(uid \<mapsto> newChannel uid from to c amt)) \<and>
    (paych_invar contents pc s \<longrightarrow> paych_invar contents pc s') \<and> (\<forall>ci. res = Inr ci \<longrightarrow> ChannelID ci = uid)"
proof -
  have new: "withID uid (newChannel [] from to c amt) = newChannel uid from to c amt"
    and none: "Channel (newChannel [] from to c amt) \<noteq> Some (emptyAddr pc)" "ChannelID (newChannel uid from to c amt) = uid"
    by (simp_all add: withID_def newChannel_def)
  obtain s1 ci1 err where save: "SaveChannel ds pc s uid (newChannel [] from to c amt) = (s1, ci1, err)"
    by (cases "SaveChannel ds pc s uid (newChannel [] from to c amt)")
  have inv1: "paych_invar contents pc s \<longrightarrow> paych_invar contents pc s1" using save_channel_keeps [OF _ save uid] by blast
  show ?thesis
  proof (cases err)
    case (Some e)
    then have "s' = s1" "res = Inl e" using create save by (simp_all add: CreateChannel_def)
    moreover have "contents s1 = contents s" using SaveChannel_cases [OF save] Some by simp
    ultimately show ?thesis using inv1 by (simp add: paych_view_def fun_eq_iff)
  next
    case None
    have v1: "paych_view contents pc s1 = (paych_view contents pc s)(uid \<mapsto> newChannel uid from to c amt)"
      using save_channel_badger(1) [OF save [unfolded None] none(1)] by (simp add: new none(2))
    have id1: "ChannelID ci1 = uid"
      using SaveChannel_cases [OF save] None by (auto simp: marshallChannelInfo_def new none(2) Let_def split: if_splits)
    obtain s2 err2 where msg: "SaveMessage ds pc s1 \<lparr>miChannelID = uid, miMsgCid = c, Received = False, miErr = []\<rparr> = (s2, err2)"
      by fastforce
    have "contents s2 = contents s1 \<or> (\<exists>c b. contents s2 = (contents s1)(dskeyForMsg c \<mapsto> b))"
      using SaveMessage_cases [OF msg] by auto
    note m = messages_keep_channels [OF this]
    have "s' = s2" "res = (case err2 of None \<Rightarrow> Inr ci1 | Some e \<Rightarrow> Inl e)"
      using create save None msg id1 by (auto simp: CreateChannel_def split: option.splits)
    then show ?thesis using m inv1 v1 id1 by (auto split: option.splits)
  qed
qed

lemma unmarshall_not_reserved: "unmarshallChannelInfo pc v = Inr ci \<Longrightarrow> Channel ci \<noteq> Some (emptyAddr pc)"
proof -
  assume "unmarshallChannelInfo pc v = Inr ci"
  then obtain st where "ci = (if Channel st = Some (emptyAddr pc) then st\<lparr>Channel := None\<rparr> else st)"
    by (auto simp: unmarshallChannelInfo_def tryE_Inr_iff)
  then show ?thesis by (cases "Channel st = Some (emptyAddr pc)") simp_all
qed

lemma view_known_badger:
  assumes "paych_invar contents pc s" and "paych_view contents pc s i = Some ci"
  shows "ChannelID ci = i \<and> i \<noteq> [] \<and> Channel ci \<noteq> Some (emptyAddr pc)"
proof -
  obtain v where v: "contents s (dskeyForChannel i) = Some v" "unmarshallChannelInfo pc v = Inr ci"
    using assms(2) by (auto simp: paych_view_def split: option.splits sum.splits)
  then show ?thesis using assms(1) unmarshall_not_reserved [OF v(2)] by (fastforce simp: paych_invar_def)
qed

end

sublocale badger_paych \<subseteq> repo: paych_repo "NewPaychRepo ds pc" "paych_view contents pc" "paych_msgs contents pc"
    "paych_invar contents pc" "emptyAddr pc"
proof unfold_locales
  fix r uid ci r' assume "pcSaveChannel (NewPaychRepo ds pc) r uid ci = (r', None)" and ch: "Channel ci \<noteq> Some (emptyAddr pc)"
  then obtain ci' where "SaveChannel ds pc r uid ci = (r', ci', None)" by (cases "SaveChannel ds pc r uid ci") auto
  from save_channel_badger [OF this ch]
  show "paych_view contents pc r' = (paych_view contents pc r)(ChannelID (withID uid ci) \<mapsto> withID uid ci) \<and>
      paych_msgs contents pc r' = paych_msgs contents pc r" by simp
next
  fix r uid ci r' e assume "pcSaveChannel (NewPaychRepo ds pc) r uid ci = (r', Some e)"
  then obtain ci' where s: "SaveChannel ds pc r uid ci = (r', ci', Some e)" by (cases "SaveChannel ds pc r uid ci") auto
  show "paych_view contents pc r' = paych_view contents pc r \<and> paych_msgs contents pc r' = paych_msgs contents pc r"
    using SaveChannel_cases [OF s] by (simp add: paych_view_def paych_msgs_def fun_eq_iff)
next
  fix r uid ci r' err assume inv: "paych_invar contents pc r" and uid: "uid \<noteq> []"
    and "pcSaveChannel (NewPaychRepo ds pc) r uid ci = (r', err)"
  then obtain ci' where "SaveChannel ds pc r uid ci = (r', ci', err)" by (cases "SaveChannel ds pc r uid ci") auto
  with inv show "paych_invar contents pc r'" using uid by (rule save_channel_keeps)
next
  fix r i r' assume "pcRemoveChannel (NewPaychRepo ds pc) r i = (r', None)"
  then have c: "contents r' = (contents r)(dskeyForChannel i := None)" by (auto simp: RemoveChannel_def dest: delete_ok)
  show "paych_view contents pc r' = (paych_view contents pc r)(i := None) \<and> paych_msgs contents pc r' = paych_msgs contents pc r"
    by (simp add: paych_view_def paych_msgs_def c fun_eq_iff)
next
  fix r i r' e assume "pcRemoveChannel (NewPaychRepo ds pc) r i = (r', Some e)"
  then have c: "contents r' = contents r" by (auto simp: RemoveChannel_def dest: delete_failed)
  then show "paych_view contents pc r' = paych_view contents pc r \<and> paych_msgs contents pc r' = paych_msgs contents pc r"
    by (simp add: paych_view_def paych_msgs_def fun_eq_iff)
next
  fix r i r' err assume inv: "paych_invar contents pc r" and rm: "pcRemoveChannel (NewPaychRepo ds pc) r i = (r', err)"
  then have "contents r' = contents r \<or> contents r' = (contents r)(dskeyForChannel i := None)"
    by (cases err) (auto simp: RemoveChannel_def dest: delete_ok delete_failed)
  with inv show "paych_invar contents pc r'" unfolding paych_invar_def by (metis fun_upd_apply option.distinct(1))
next
  fix r m r' assume "pmSaveMessage (NewPaychRepo ds pc) r m = (r', None)"
  then obtain b where b: "Dump (pcMessage pc) m = Inr b" and c: "contents r' = (contents r)(dskeyForMsg (miMsgCid m) \<mapsto> b)"
    using SaveMessage_cases by fastforce
  show "paych_msgs contents pc r' = (paych_msgs contents pc r)(miMsgCid m \<mapsto> m) \<and> paych_view contents pc r' = paych_view contents pc r"
    by (simp add: paych_view_def paych_msgs_def c fun_eq_iff ms.load_dump [OF b])
next
  fix r m r' e assume "pmSaveMessage (NewPaychRepo ds pc) r m = (r', Some e)"
  then have "contents r' = contents r" using SaveMessage_cases by fastforce
  then show "paych_msgs contents pc r' = paych_msgs contents pc r \<and> paych_view contents pc r' = paych_view contents pc r"
    by (simp add: paych_view_def paych_msgs_def fun_eq_iff)
next
  fix r m r' err assume inv: "paych_invar contents pc r" and sv: "pmSaveMessage (NewPaychRepo ds pc) r m = (r', err)"
  then have "contents r' = contents r \<or> (\<exists>b. contents r' = (contents r)(dskeyForMsg (miMsgCid m) \<mapsto> b))"
    using SaveMessage_cases [of r m r' err] by auto
  with inv show "paych_invar contents pc r'" by (auto simp: paych_invar_def split: if_splits)
next
  fix r cis ci assume "paych_invar contents pc r" and "pcWithPendingAddFunds (NewPaychRepo ds pc) r = Inr cis" and "ci \<in> set cis"
  then show "paych_view contents pc r (ChannelID ci) = Some ci \<and> Direction ci = DirOutbound \<and>
      (CreateMsg ci \<noteq> None \<or> AddFundsMsg ci \<noteq> None)"
    by (auto simp: WithPendingAddFunds_def dest!: found_channel split: if_splits)
next
  fix uid r frm to c amt r' res
  assume "uid \<noteq> []" and "pcCreateChannel (NewPaychRepo ds pc) r uid frm to c amt = (r', res)"
  then show "(paych_view contents pc r' = paych_view contents pc r \<and> isl res \<or>
      paych_view contents pc r' = (paych_view contents pc r)(uid \<mapsto> newChannel uid frm to c amt)) \<and>
    (paych_invar contents pc r \<longrightarrow> paych_invar contents pc r') \<and> (\<forall>ci. res = Inr ci \<longrightarrow> ChannelID ci = uid)"
    unfolding NewPaychRepo_sel by (rule create_channel_badger)
next
  fix r c e r' err assume "pmSaveMessageResult (NewPaychRepo ds pc) r c e = (r', err)"
  then show "paych_view contents pc r' = paych_view contents pc r \<and> (paych_invar contents pc r \<longrightarrow> paych_invar contents pc r')"
    unfolding NewPaychRepo_sel by (rule save_result_badger)
qed (auto simp: GetChannelByAddress_def GetChannelByChannelID_def OutboundActiveByFromTo_def GetMessage_def paych_msgs_def
    tryE_Inr_iff dest: findChan_found view_known_badger get_value split: if_splits)

context badger_paych
begin

lemma paych_repo_laws: "paych_repo (NewPaychRepo ds pc) (paych_view contents pc) (paych_msgs contents pc)
    (paych_invar contents pc) (emptyAddr pc)"
  by (rule repo.paych_repo_axioms)

end

text \<open>The in-memory datastore, whose values are channel or message infos.\<close>

datatype paych_value = ChannelValue ChannelInfo | MessageValue MsgInfo

definition mem_paych_codec :: "paych_value paych_codec" where
  "mem_paych_codec = \<lparr>
     pcChannel = \<lparr>Dump = Inr \<circ> ChannelValue, Load = (\<lambda>v. case v of ChannelValue ci \<Rightarrow> Inr ci | _ \<Rightarrow> Inl (ErrMsg ''cbor''))\<rparr>,
     pcMessage = \<lparr>Dump = Inr \<circ> MessageValue, Load = (\<lambda>v. case v of MessageValue m \<Rightarrow> Inr m | _ \<Rightarrow> Inl (ErrMsg ''cbor''))\<rparr>,
     emptyAddr = ''f2empty''\<rparr>"

interpretation mempaych: badger_paych map_datastore map_of mem_paych_codec
  by unfold_locales (auto simp: mem_paych_codec_def)

end
