(* ===== verification/Paych_Voucher.thy ===== *)
theory Paych_Voucher
  imports Paych_Repo
begin

text \<open>
  Vouchers of a payment channel: the operations of \<open>channelAccessor\<close> in \<open>src/paychmgr/paych.go\<close>.
  Each runs under \<open>ca.lk\<close> and is one function on the store and the log of pushed messages. The
  chain node, the wallet, the message builders, the codec's equality and the methods of
  \<open>types.ChannelInfo\<close> and \<open>paych.SignedVoucher\<close> are third-party code: the record \<open>paychAPI\<close>.
\<close>

section \<open>Environment\<close>

text \<open>A lane state of the actor; both accessors may fail.\<close>

record LaneState =
  Redeemed :: "int res"
  Nonce :: "u64 res"

text \<open>The actor state \<open>paych.State\<close>: \<open>ForEachLaneState\<close> visits the listed lanes.\<close>

record PaychState =
  psFrom :: "address res"
  psTo :: "address res"
  LaneCount :: "u64 res"
  ForEachLaneState :: "(u64 \<times> LaneState) list res"

record paychAPI =
  getPaychState :: "address \<Rightarrow> (int \<times> PaychState) res"
  resolveToKeyAddress :: "address \<Rightarrow> address res"
  StateAccountKey :: "address \<Rightarrow> address res"
  WalletHas :: "address \<Rightarrow> bool res"
  WalletSign :: "address \<Rightarrow> bytes \<Rightarrow> bytes res"
  StateNetworkVersion :: "nat res"
  VersionForNetwork :: "nat \<Rightarrow> nat res"
  mbCreate :: "nat \<Rightarrow> address \<Rightarrow> address \<Rightarrow> int \<Rightarrow> Message res"
  mbUpdate :: "nat \<Rightarrow> address \<Rightarrow> address \<Rightarrow> SignedVoucher \<Rightarrow> bytes \<Rightarrow> Message res"
  mbSettle :: "nat \<Rightarrow> address \<Rightarrow> address \<Rightarrow> Message res"
  mbCollect :: "nat \<Rightarrow> address \<Rightarrow> address \<Rightarrow> Message res"
  pchPushMessage :: "Message \<Rightarrow> cid res"
  pch_call :: "Message \<Rightarrow> int res"
  SigningBytes :: "SignedVoucher \<Rightarrow> bytes res"
  crypto_Verify :: "bytes option \<Rightarrow> address \<Rightarrow> bytes \<Rightarrow> error option"
  cbor_Equals :: "SignedVoucher \<Rightarrow> SignedVoucher \<Rightarrow> bool res"
  HasVoucher :: "ChannelInfo \<Rightarrow> SignedVoucher \<Rightarrow> bool res"
  WasVoucherSubmitted :: "ChannelInfo \<Rightarrow> SignedVoucher \<Rightarrow> bool res"
  MarkVoucherSubmitted :: "ChannelInfo \<Rightarrow> SignedVoucher \<Rightarrow> ChannelInfo res"
  uuid_New :: string

text \<open>The state an accessor works on: the repositories and the messages pushed so far.\<close>

record 'r pch =
  pchStore :: 'r
  pchSent :: "Message list"

definition pushMessage :: "paychAPI \<Rightarrow> 'r pch \<Rightarrow> Message \<Rightarrow> 'r pch \<times> cid res" where
  "pushMessage api st msg =
     (case pchPushMessage api msg of
        Inl e \<Rightarrow> (st, Inl e)
      | Inr c \<Rightarrow> (st\<lparr>pchSent := pchSent st @ [msg]\<rparr>, Inr c))"

definition saveChannelInfo :: "paychAPI \<Rightarrow> 'r PaychRepo \<Rightarrow> 'r pch \<Rightarrow> ChannelInfo \<Rightarrow> 'r pch \<times> error option" where
  "saveChannelInfo api repo st ci =
     (case pcSaveChannel repo (pchStore st) (uuid_New api) ci of (r, err) \<Rightarrow> (st\<lparr>pchStore := r\<rparr>, err))"

definition messageBuilder :: "paychAPI \<Rightarrow> address \<Rightarrow> (nat \<times> address) res" where
  "messageBuilder api from =
     tryE (StateNetworkVersion api) (\<lambda>nwVersion.
     tryE (VersionForNetwork api nwVersion) (\<lambda>ver. Inr (ver, from)))"

definition getChannelInfo :: "'r PaychRepo \<Rightarrow> 'r pch \<Rightarrow> address \<Rightarrow> ChannelInfo res" where
  "getChannelInfo repo st addr = pcGetChannelByAddress repo (pchStore st) addr"

definition outboundActiveByFromTo :: "'r PaychRepo \<Rightarrow> 'r pch \<Rightarrow> address \<Rightarrow> address \<Rightarrow> ChannelInfo res" where
  "outboundActiveByFromTo repo st from to = pcOutboundActiveByFromTo repo (pchStore st) from to"

section \<open>Lane states\<close>

text \<open>\<open>map[uint64]LaneState\<close> as an association list with distinct keys.\<close>

type_synonym lanes = "(u64 \<times> LaneState) list"

definition voucherLaneState :: "SignedVoucher \<Rightarrow> LaneState" where
  "voucherLaneState v = \<lparr>Redeemed = Inr (svAmount v), Nonce = Inr (svNonce v)\<rparr>"

definition vouchersForPaych :: "'r PaychRepo \<Rightarrow> 'r pch \<Rightarrow> address \<Rightarrow> VoucherInfo list res" where
  "vouchersForPaych repo st ch = tryE (pcGetChannelByAddress repo (pchStore st) ch) (\<lambda>ci. Inr (Vouchers ci))"

definition listVouchers :: "'r PaychRepo \<Rightarrow> 'r pch \<Rightarrow> address \<Rightarrow> VoucherInfo list res" where
  "listVouchers repo st ch = vouchersForPaych repo st ch"

fun laneStateLoop :: "lanes \<Rightarrow> VoucherInfo list \<Rightarrow> lanes res" where
  "laneStateLoop laneStates [] = Inr laneStates"
| "laneStateLoop laneStates (v # vs) =
     (if svMerges (Voucher v) \<noteq> [] then Inl (ErrMsg ''paych merges not handled yet'')
      else
        (case map_of laneStates (svLane (Voucher v)) of
           Some ls \<Rightarrow>
             (case Nonce ls of
                Inl e \<Rightarrow> Inl e
              | Inr n \<Rightarrow>
                  if svNonce (Voucher v) < n then laneStateLoop laneStates vs
                  else laneStateLoop (AList.update (svLane (Voucher v)) (voucherLaneState (Voucher v)) laneStates) vs)
         | None \<Rightarrow> laneStateLoop (AList.update (svLane (Voucher v)) (voucherLaneState (Voucher v)) laneStates) vs))"

definition laneState :: "'r PaychRepo \<Rightarrow> 'r pch \<Rightarrow> PaychState \<Rightarrow> address \<Rightarrow> lanes res" where
  "laneState repo st state ch =
     tryE (LaneCount state) (\<lambda>_.
     tryE (ForEachLaneState state) (\<lambda>onChain.
       let laneStates = foldl (\<lambda>m (idx, ls). AList.update idx ls m) [] onChain in
       case vouchersForPaych repo st ch of
         Inl e \<Rightarrow> if errors_Is e ErrNotFound then laneStateLoop laneStates [] else Inl e
       | Inr vouchers \<Rightarrow> laneStateLoop laneStates vouchers))"

fun sumRedeemed :: "int \<Rightarrow> lanes \<Rightarrow> int res" where
  "sumRedeemed tot [] = Inr tot"
| "sumRedeemed tot ((_, ls) # rest) = tryE (Redeemed ls) (\<lambda>r. sumRedeemed (tot + r) rest)"

definition totalRedeemedWithVoucher :: "lanes \<Rightarrow> SignedVoucher \<Rightarrow> int res" where
  "totalRedeemedWithVoucher laneStates sv =
     failIf (svMerges sv \<noteq> []) (ErrMsg ''dont currently support paych lane merges'')
     (tryE (sumRedeemed 0 laneStates) (\<lambda>tot.
        case map_of laneStates (svLane sv) of
          Some lane \<Rightarrow>
            tryE (Nonce lane) (\<lambda>n.
              if svNonce sv > n
              then tryE (Redeemed lane) (\<lambda>r. Inr (tot + (svAmount sv - r)))
              else Inr tot)
        | None \<Rightarrow> Inr (tot + svAmount sv)))"

section \<open>Checking vouchers\<close>

definition nextNonceForLane :: "ChannelInfo \<Rightarrow> u64 \<Rightarrow> u64" where
  "nextNonceForLane ci lane =
     foldl (\<lambda>maxnonce v. if svLane (Voucher v) = lane
                         then (if svNonce (Voucher v) > maxnonce then svNonce (Voucher v) else maxnonce)
                         else maxnonce) 0 (Vouchers ci) + 1"

definition checkVoucherValidUnlocked :: "paychAPI \<Rightarrow> 'r PaychRepo \<Rightarrow> 'r pch \<Rightarrow> address \<Rightarrow> SignedVoucher \<Rightarrow> lanes res" where
  "checkVoucherValidUnlocked api repo st ch sv =
     failIf (svChannelAddr sv \<noteq> ch) (ErrMsg ''voucher ChannelAddr doesn't match channel address'')
     (failIf (svExtra sv \<noteq> None) (ErrMsg ''voucher is Message Locked'')
     (failIf (svTimeLockMax sv \<noteq> 0) (ErrMsg ''voucher is Max Time Locked'')
     (failIf (svTimeLockMin sv \<noteq> 0) (ErrMsg ''voucher is Min Time Locked'')
     (failIf (length (svSecretHash sv) \<noteq> 0) (ErrMsg ''voucher is Hash Locked'')
     (tryE (getPaychState api ch) (\<lambda>(balance, pchState).
      tryE (psFrom pchState) (\<lambda>f.
      tryE (resolveToKeyAddress api f) (\<lambda>from.
      tryE (SigningBytes api sv) (\<lambda>vb.
        case crypto_Verify api (svSignature sv) from vb of
          Some e \<Rightarrow> Inl e
        | None \<Rightarrow>
            tryE (laneState repo st pchState ch) (\<lambda>laneStates.
            tryE (case map_of laneStates (svLane sv) of
                    None \<Rightarrow> Inr ()
                  | Some ls \<Rightarrow>
                      tryE (Nonce ls) (\<lambda>n.
                      failIf (svNonce sv \<le> n) (ErrMsg ''nonce too low'')
                      (tryE (Redeemed ls) (\<lambda>r.
                       failIf (svAmount sv \<le> r)
                         (ErrMsg ''voucher amount is lower than amount for voucher with lower nonce'') (Inr ()))))) (\<lambda>_.
            tryE (totalRedeemedWithVoucher laneStates sv) (\<lambda>totalRedeemed.
            failIf (balance < totalRedeemed) (ErrInsufficientFunds (totalRedeemed - balance))
            (failIf (length (svMerges sv) \<noteq> 0) (ErrMsg ''dont currently support paych lane merges'')
             (Inr laneStates))))))))))))))"

definition checkVoucherValid :: "paychAPI \<Rightarrow> 'r PaychRepo \<Rightarrow> 'r pch \<Rightarrow> address \<Rightarrow> SignedVoucher \<Rightarrow> lanes res" where
  "checkVoucherValid api repo st ch sv = checkVoucherValidUnlocked api repo st ch sv"

definition getPaychRecipient :: "paychAPI \<Rightarrow> address \<Rightarrow> address res" where
  "getPaychRecipient api ch = tryE (getPaychState api ch) (\<lambda>(_, state). psTo state)"

definition checkVoucherSpendable :: "paychAPI \<Rightarrow> 'r PaychRepo \<Rightarrow> 'r pch \<Rightarrow> address \<Rightarrow> SignedVoucher \<Rightarrow> bytes \<Rightarrow> bool res" where
  "checkVoucherSpendable api repo st ch sv secret =
     tryE (getPaychRecipient api ch) (\<lambda>recipient.
     tryE (pcGetChannelByAddress repo (pchStore st) ch) (\<lambda>ci.
     tryE (WasVoucherSubmitted api ci sv) (\<lambda>submitted.
       if submitted then Inr False
       else
         tryE (messageBuilder api recipient) (\<lambda>(ver, from).
         tryE (mbUpdate api ver from ch sv secret) (\<lambda>mes.
         tryE (pch_call api mes) (\<lambda>exitCode.
           if exitCode \<noteq> 0 then Inr False else Inr True))))))"

section \<open>Adding, creating and submitting vouchers\<close>

text \<open>The loop that looks for a voucher that was added before.\<close>

fun voucherAdded :: "paychAPI \<Rightarrow> SignedVoucher \<Rightarrow> VoucherInfo list \<Rightarrow> bool res" where
  "voucherAdded api sv [] = Inr False"
| "voucherAdded api sv (v # vs) =
     tryE (cbor_Equals api sv (Voucher v)) (\<lambda>eq. if eq then Inr True else voucherAdded api sv vs)"

definition newVoucherInfo :: "SignedVoucher \<Rightarrow> VoucherInfo" where
  "newVoucherInfo sv = \<lparr>Voucher = sv, Proof = [], Submitted = False\<rparr>"

definition addVoucherUnlocked :: "paychAPI \<Rightarrow> 'r PaychRepo \<Rightarrow> 'r pch \<Rightarrow> address \<Rightarrow> SignedVoucher \<Rightarrow> int \<Rightarrow>
    'r pch \<times> int \<times> error option" where
  "addVoucherUnlocked api repo st ch sv minDelta =
     (case pcGetChannelByAddress repo (pchStore st) ch of
        Inl e \<Rightarrow> (st, 0, Some e)
      | Inr ci \<Rightarrow>
          (case voucherAdded api sv (Vouchers ci) of
             Inl e \<Rightarrow> (st, 0, Some e)
           | Inr True \<Rightarrow> (st, 0, None)
           | Inr False \<Rightarrow>
               (case checkVoucherValidUnlocked api repo st ch sv of
                  Inl e \<Rightarrow> (st, 0, Some e)
                | Inr laneStates \<Rightarrow>
                    (case (case map_of laneStates (svLane sv) of None \<Rightarrow> Inr 0 | Some ls \<Rightarrow> Redeemed ls) of
                       Inl e \<Rightarrow> (st, 0, Some e)
                     | Inr redeemed \<Rightarrow>
                         (let delta = svAmount sv - redeemed in
                          if minDelta > delta
                          then (st, delta, Some (ErrMsg ''addVoucher: supplied token amount too low''))
                          else
                            (let ci1 = ci\<lparr>Vouchers := Vouchers ci @ [newVoucherInfo sv]\<rparr>;
                                 ci2 = (if NextLane ci1 \<le> svLane sv then ci1\<lparr>NextLane := svLane sv + 1\<rparr> else ci1);
                                 (st', err) = saveChannelInfo api repo st ci2
                             in (st', delta, err)))))))"

definition addVoucher :: "paychAPI \<Rightarrow> 'r PaychRepo \<Rightarrow> 'r pch \<Rightarrow> address \<Rightarrow> SignedVoucher \<Rightarrow> int \<Rightarrow>
    'r pch \<times> int \<times> error option" where
  "addVoucher api repo st ch sv minDelta = addVoucherUnlocked api repo st ch sv minDelta"

record VoucherCreateResult =
  vcVoucher :: "SignedVoucher option"
  Shortfall :: int

definition createVoucher :: "paychAPI \<Rightarrow> 'r PaychRepo \<Rightarrow> 'r pch \<Rightarrow> address \<Rightarrow> SignedVoucher \<Rightarrow>
    'r pch \<times> VoucherCreateResult res" where
  "createVoucher api repo st ch voucher =
     (case pcGetChannelByAddress repo (pchStore st) ch of
        Inl e \<Rightarrow> (st, Inl (ErrWrap ''failed to get channel info by address'' e))
      | Inr ci \<Rightarrow>
          (let sv = voucher\<lparr>svChannelAddr := ch, svNonce := nextNonceForLane ci (svLane voucher)\<rparr> in
           case SigningBytes api sv of
             Inl e \<Rightarrow> (st, Inl (ErrWrap ''failed to get voucher signing bytes'' e))
           | Inr vb \<Rightarrow>
               (case WalletSign api (Control ci) vb of
                  Inl e \<Rightarrow> (st, Inl (ErrWrap ''failed to sign voucher'' e))
                | Inr sig \<Rightarrow>
                    (let sv1 = sv\<lparr>svSignature := Some sig\<rparr> in
                     case addVoucherUnlocked api repo st ch sv1 0 of
                       (st', _, Some err) \<Rightarrow>
                         (case errors_As_insufficientFunds err of
                            Some shortfall \<Rightarrow> (st', Inr \<lparr>vcVoucher = None, Shortfall = shortfall\<rparr>)
                          | None \<Rightarrow> (st', Inl (ErrWrap ''failed to persist voucher'' err)))
                     | (st', _, None) \<Rightarrow> (st', Inr \<lparr>vcVoucher = Some sv1, Shortfall = 0\<rparr>)))))"

definition submitVoucher :: "paychAPI \<Rightarrow> 'r PaychRepo \<Rightarrow> 'r pch \<Rightarrow> address \<Rightarrow> SignedVoucher \<Rightarrow> bytes \<Rightarrow>
    'r pch \<times> cid res" where
  "submitVoucher api repo st ch sv secret =
     (case pcGetChannelByAddress repo (pchStore st) ch of
        Inl e \<Rightarrow> (st, Inl e)
      | Inr ci \<Rightarrow>
          (case HasVoucher api ci sv of
             Inl e \<Rightarrow> (st, Inl e)
           | Inr has \<Rightarrow>
               (case (if has then WasVoucherSubmitted api ci sv else Inr False) of
                  Inl e \<Rightarrow> (st, Inl e)
                | Inr True \<Rightarrow> (st, Inl (ErrMsg ''cannot submit voucher that has already been submitted''))
                | Inr False \<Rightarrow>
                    (case tryE (messageBuilder api (Control ci)) (\<lambda>(ver, from). mbUpdate api ver from ch sv secret) of
                       Inl e \<Rightarrow> (st, Inl e)
                     | Inr msg \<Rightarrow>
                         (case pushMessage api st msg of
                            (st1, Inl e) \<Rightarrow> (st1, Inl e)
                          | (st1, Inr msgId) \<Rightarrow>
                              (let ci1 = (if \<not> has then ci\<lparr>Vouchers := Vouchers ci @ [newVoucherInfo sv]\<rparr> else ci) in
                               case MarkVoucherSubmitted api ci1 sv of
                                 Inl e \<Rightarrow> (st1, Inl e)
                               | Inr ci2 \<Rightarrow>
                                   (case saveChannelInfo api repo st1 ci2 of
                                      (st2, Some e) \<Rightarrow> (st2, Inl e)
                                    | (st2, None) \<Rightarrow> (st2, Inr msgId))))))))"

section \<open>Lanes, settling and collecting\<close>

definition allocateLane :: "paychAPI \<Rightarrow> 'r PaychRepo \<Rightarrow> 'r pch \<Rightarrow> address \<Rightarrow> 'r pch \<times> u64 \<times> error option" where
  "allocateLane api repo st ch =
     (case pcGetChannelByAddress repo (pchStore st) ch of
        Inl e \<Rightarrow> (st, 0, Some e)
      | Inr ci \<Rightarrow>
          (let out = NextLane ci;
               (st', err) = saveChannelInfo api repo st (ci\<lparr>NextLane := NextLane ci + 1\<rparr>)
           in (st', out, err)))"

definition settle :: "paychAPI \<Rightarrow> 'r PaychRepo \<Rightarrow> 'r pch \<Rightarrow> address \<Rightarrow> 'r pch \<times> cid res" where
  "settle api repo st ch =
     (case pcGetChannelByAddress repo (pchStore st) ch of
        Inl e \<Rightarrow> (st, Inl e)
      | Inr ci \<Rightarrow>
          (case tryE (messageBuilder api (Control ci)) (\<lambda>(ver, from). mbSettle api ver from ch) of
             Inl e \<Rightarrow> (st, Inl e)
           | Inr msg \<Rightarrow>
               (case pushMessage api st msg of
                  (st1, Inl e) \<Rightarrow> (st1, Inl e)
                | (st1, Inr msgId) \<Rightarrow> (fst (saveChannelInfo api repo st1 (ci\<lparr>Settling := True\<rparr>)), Inr msgId))))"

definition collect :: "paychAPI \<Rightarrow> 'r PaychRepo \<Rightarrow> 'r pch \<Rightarrow> address \<Rightarrow> 'r pch \<times> cid res" where
  "collect api repo st ch =
     (case pcGetChannelByAddress repo (pchStore st) ch of
        Inl e \<Rightarrow> (st, Inl e)
      | Inr ci \<Rightarrow>
          (case tryE (messageBuilder api (Control ci)) (\<lambda>(ver, from). mbCollect api ver from ch) of
             Inl e \<Rightarrow> (st, Inl e)
           | Inr msg \<Rightarrow> pushMessage api st msg))"

section \<open>The best voucher per lane\<close>

fun bestSpendableLoop :: "(SignedVoucher \<Rightarrow> bool res) \<Rightarrow> (u64 \<rightharpoonup> SignedVoucher) \<Rightarrow> SignedVoucher list \<Rightarrow>
    (u64 \<rightharpoonup> SignedVoucher) res" where
  "bestSpendableLoop check best [] = Inr best"
| "bestSpendableLoop check best (v # vs) =
     tryE (check v) (\<lambda>spendable.
       if spendable
       then bestSpendableLoop check
              (if (case best (svLane v) of None \<Rightarrow> True | Some b \<Rightarrow> svAmount v > svAmount b)
               then best(svLane v \<mapsto> v) else best) vs
       else bestSpendableLoop check best vs)"

definition BestSpendableByLane :: "SignedVoucher list res \<Rightarrow> (SignedVoucher \<Rightarrow> bool res) \<Rightarrow>
    (u64 \<rightharpoonup> SignedVoucher) res" where
  "BestSpendableByLane list check = tryE list (bestSpendableLoop check Map.empty)"

end
