(* ===== verification/Paych_Funds.thy ===== *)
theory Paych_Funds
  imports Paych_Voucher
begin

text \<open>
  Funding of payment channels: \<open>src/paychmgr/simple.go\<close>. Requests to create a channel or to add funds
  are queued per accessor, merged, and executed one on-chain message at a time. A \<open>*fundsReq\<close> and a
  \<open>*mergedFundsReq\<close> are references into the stores of the accessor (the queue, a merge and the
  waiting caller share them). A goroutine that was started is an entry of \<open>ca_waits\<close> (a wait for a
  message, with the merge whose context it carries) or counted in \<open>ca_procs\<close> (a pending call of
  \<open>processQueue\<close>); a critical section under \<open>ca.lk\<close> is one function. Dereferencing a nil channel
  address panics.
\<close>

section \<open>Requests and merges\<close>

record paychFundsRes =
  fres_channel :: address
  fres_mcid :: cid
  fres_err :: "error option"

text \<open>\<open>freq_err\<close> is \<open>ctx.Err()\<close>, \<open>freq_promise\<close> the result handed to the caller.\<close>

record fundsReq =
  freq_err :: "error option"
  freq_promise :: "paychFundsRes option"
  freq_amt :: int
  freq_merge :: "nat option"

record mergedFundsReq =
  mrg_cancelled :: bool
  mrg_reqs :: "nat list"

type_synonym freqs = "nat \<Rightarrow> fundsReq"

definition newFundsReq :: "error option \<Rightarrow> int \<Rightarrow> fundsReq" where
  "newFundsReq ctx amt = \<lparr>freq_err = ctx, freq_promise = None, freq_amt = amt, freq_merge = None\<rparr>"

definition isActive :: "freqs \<Rightarrow> nat \<Rightarrow> bool" where
  "isActive h r = (freq_err (h r) = None)"

definition onComplete :: "freqs \<Rightarrow> nat \<Rightarrow> paychFundsRes \<Rightarrow> freqs" where
  "onComplete h r res = (if freq_err (h r) \<noteq> None then h else h(r := (h r)\<lparr>freq_promise := Some res\<rparr>))"

definition setMergeParent :: "freqs \<Rightarrow> nat \<Rightarrow> nat \<Rightarrow> freqs" where
  "setMergeParent h r m = h(r := (h r)\<lparr>freq_merge := Some m\<rparr>)"

definition checkActive :: "freqs \<Rightarrow> mergedFundsReq \<Rightarrow> mergedFundsReq" where
  "checkActive h m = (if list_ex (isActive h) (mrg_reqs m) then m else m\<lparr>mrg_cancelled := True\<rparr>)"

definition mergedOnComplete :: "freqs \<Rightarrow> mergedFundsReq \<Rightarrow> paychFundsRes \<Rightarrow> freqs" where
  "mergedOnComplete h m res = foldl (\<lambda>h r. if isActive h r then onComplete h r res else h) h (mrg_reqs m)"

definition mergedSum :: "freqs \<Rightarrow> mergedFundsReq \<Rightarrow> int" where
  "mergedSum h m = foldl (\<lambda>s r. if isActive h r then s + freq_amt (h r) else s) 0 (mrg_reqs m)"

section \<open>The accessor\<close>

text \<open>A wait carries the context of a merge, or (\<open>None\<close>) of the manager when it was restarted.\<close>

datatype paychWait = WaitCreate "nat option" string cid | WaitAddFunds "nat option" string cid

record channelAccessor =
  ca_from :: address
  ca_to :: address
  fundsReqQueue :: "nat list"
  ca_reqs :: freqs
  ca_nreqs :: nat
  ca_merges :: "nat \<Rightarrow> mergedFundsReq"
  ca_nmerges :: nat
  ca_waits :: "paychWait list"
  ca_procs :: nat
  msgListeners :: "(nat \<times> cid) list"
  ca_fired :: "(nat \<times> error option) list"
  ca_nlisteners :: nat

definition newChannelAccessor :: "address \<Rightarrow> address \<Rightarrow> channelAccessor" where
  "newChannelAccessor from to =
     \<lparr>ca_from = from, ca_to = to, fundsReqQueue = [], ca_reqs = (\<lambda>_. newFundsReq None 0), ca_nreqs = 0,
      ca_merges = (\<lambda>_. \<lparr>mrg_cancelled = False, mrg_reqs = []\<rparr>), ca_nmerges = 0, ca_waits = [], ca_procs = 0,
      msgListeners = [], ca_fired = [], ca_nlisteners = 0\<rparr>"

text \<open>\<open>newMergedFundsReq\<close>: every request gets the merge as its parent; a merge without an active request
  is cancelled at once.\<close>

definition newMergedFundsReq :: "nat list \<Rightarrow> channelAccessor \<Rightarrow> nat \<times> channelAccessor" where
  "newMergedFundsReq reqs ca =
     (let m = ca_nmerges ca;
          h = foldl (\<lambda>h r. setMergeParent h r m) (ca_reqs ca) reqs;
          mrg = checkActive h \<lparr>mrg_cancelled = False, mrg_reqs = reqs\<rparr>
      in (m, ca\<lparr>ca_reqs := h, ca_merges := (ca_merges ca)(m := mrg), ca_nmerges := Suc m\<rparr>))"

text \<open>\<open>fundsReq.cancel\<close>, called when the caller's context is done.\<close>

definition cancelReq :: "nat \<Rightarrow> channelAccessor \<Rightarrow> channelAccessor" where
  "cancelReq r ca =
     (case freq_merge (ca_reqs ca r) of
        None \<Rightarrow> ca
      | Some m \<Rightarrow> ca\<lparr>ca_merges := (ca_merges ca)(m := checkActive (ca_reqs ca) (ca_merges ca m))\<rparr>)"

definition enqueue :: "nat \<Rightarrow> channelAccessor \<Rightarrow> channelAccessor" where
  "enqueue task ca = ca\<lparr>fundsReqQueue := fundsReqQueue ca @ [task], ca_procs := Suc (ca_procs ca)\<rparr>"

text \<open>\<open>getPaych\<close> up to its \<open>select\<close>, and the \<open>select\<close>: nothing while it blocks.\<close>

definition getPaych :: "error option \<Rightarrow> int \<Rightarrow> channelAccessor \<Rightarrow> nat \<times> channelAccessor" where
  "getPaych ctx amt ca =
     (let r = ca_nreqs ca
      in (r, enqueue r (ca\<lparr>ca_reqs := (ca_reqs ca)(r := newFundsReq ctx amt), ca_nreqs := Suc r\<rparr>)))"

definition getPaychResult :: "nat \<Rightarrow> channelAccessor \<Rightarrow> (address \<times> cid \<times> error option) option \<times> channelAccessor" where
  "getPaychResult r ca =
     (case freq_promise (ca_reqs ca r) of
        Some res \<Rightarrow> (Some (fres_channel res, fres_mcid res, fres_err res), ca)
      | None \<Rightarrow>
          (case freq_err (ca_reqs ca r) of
             Some e \<Rightarrow> (Some (Undef, Undef, Some e), cancelReq r ca)
           | None \<Rightarrow> (None, ca)))"

text \<open>
  \<open>filterQueue\<close> compacts the queue in place: active requests move to the front, then the slot after
  them is cleared and the slice is cut. A slot is a pointer, \<open>None\<close> is nil.
\<close>

function filterQueueLoop :: "freqs \<Rightarrow> nat \<Rightarrow> nat \<Rightarrow> nat option list \<Rightarrow> nat option list \<times> nat" where
  "filterQueueLoop h j i q =
     (if j < length q
      then (case q ! j of
              Some r \<Rightarrow> if isActive h r then filterQueueLoop h (Suc j) (Suc i) (q[i := Some r])
                        else filterQueueLoop h (Suc j) i q
            | None \<Rightarrow> filterQueueLoop h (Suc j) i q)
      else (q, i))"
  by pat_completeness auto
termination
  by (relation "measure (\<lambda>(h, j, i, q). length q - j)") auto

declare filterQueueLoop.simps [simp del]

definition filterQueue :: "freqs \<Rightarrow> nat list \<Rightarrow> nat list" where
  "filterQueue h queue =
     (if length queue = 0 then queue
      else
        (let (q, i) = filterQueueLoop h 0 0 (map Some queue);
             q' = (if i < length q then q[i := None] else q)
         in map the (take i q')))"

section \<open>Available funds\<close>

record ChannelAvailableFunds =
  caf_Channel :: "address option"
  caf_From :: address
  caf_To :: address
  ConfirmedAmt :: int
  PendingAmt :: int
  PendingWaitSentinel :: "cid option"
  QueuedAmt :: int
  VoucherReedeemedAmt :: int

text \<open>\<open>ChannelInfo.From\<close> and \<open>ChannelInfo.To\<close> are methods of the shared types, given with the API.\<close>

definition currentAvailableFunds :: "paychAPI \<Rightarrow> 'r PaychRepo \<Rightarrow> (ChannelInfo \<Rightarrow> address \<times> address) \<Rightarrow> 'r pch \<Rightarrow> string \<Rightarrow> int \<Rightarrow>
    ChannelAvailableFunds option res" where
  "currentAvailableFunds api repo fromTo st channelID queuedAmt =
     (if length channelID = 0 then Inr None
      else
        tryE (pcGetChannelByChannelID repo (pchStore st) channelID) (\<lambda>channelInfo.
          let waitSentinel = (case CreateMsg channelInfo of Some c \<Rightarrow> Some c | None \<Rightarrow> AddFundsMsg channelInfo) in
          tryE (case Channel channelInfo of
                  None \<Rightarrow> Inr 0
                | Some ch \<Rightarrow>
                    tryE (getPaychState api ch) (\<lambda>(_, pchState).
                    tryE (laneState repo st pchState ch) (\<lambda>laneStates. sumRedeemed 0 laneStates))) (\<lambda>totalRedeemed.
          Inr (Some \<lparr>caf_Channel = Channel channelInfo, caf_From = fst (fromTo channelInfo), caf_To = snd (fromTo channelInfo),
                     ConfirmedAmt = ciAmount channelInfo, PendingAmt = PendingAmount channelInfo,
                     PendingWaitSentinel = waitSentinel, QueuedAmt = queuedAmt, VoucherReedeemedAmt = totalRedeemed\<rparr>))))"

section \<open>Tasks\<close>

definition mutateChannelInfo :: "paychAPI \<Rightarrow> 'r PaychRepo \<Rightarrow> 'r pch \<Rightarrow> string \<Rightarrow> (ChannelInfo \<Rightarrow> ChannelInfo) \<Rightarrow> 'r pch" where
  "mutateChannelInfo api repo st channelID mutate =
     (case pcGetChannelByChannelID repo (pchStore st) channelID of
        Inl _ \<Rightarrow> st
      | Inr channelInfo \<Rightarrow> fst (saveChannelInfo api repo st (mutate channelInfo)))"

definition createPaych :: "paychAPI \<Rightarrow> 'r PaychRepo \<Rightarrow> nat \<Rightarrow> int \<Rightarrow> channelAccessor \<Rightarrow> 'r pch \<Rightarrow>
    cid res \<times> channelAccessor \<times> 'r pch" where
  "createPaych api repo m amt ca st =
     (case tryE (messageBuilder api (ca_from ca)) (\<lambda>(ver, from). mbCreate api ver from (ca_to ca) amt) of
        Inl e \<Rightarrow> (Inl e, ca, st)
      | Inr msg \<Rightarrow>
          (case pushMessage api st msg of
             (st1, Inl e) \<Rightarrow> (Inl (ErrWrap ''initializing paych actor'' e), ca, st1)
           | (st1, Inr msgId) \<Rightarrow>
               (case pcCreateChannel repo (pchStore st1) (uuid_New api) (ca_from ca) (ca_to ca) msgId amt of
                  (r, Inl e) \<Rightarrow> (Inl e, ca, st1\<lparr>pchStore := r\<rparr>)
                | (r, Inr ci) \<Rightarrow>
                    (Inr msgId, ca\<lparr>ca_waits := ca_waits ca @ [WaitCreate (Some m) (ChannelID ci) msgId]\<rparr>, st1\<lparr>pchStore := r\<rparr>))))"

definition addFunds :: "paychAPI \<Rightarrow> 'r PaychRepo \<Rightarrow> nat \<Rightarrow> ChannelInfo \<Rightarrow> int \<Rightarrow> channelAccessor \<Rightarrow> 'r pch \<Rightarrow>
    (cid res \<times> channelAccessor \<times> 'r pch) outcome" where
  "addFunds api repo m channelInfo amt ca st =
     (case Channel channelInfo of
        None \<Rightarrow> Panic ''nil pointer dereference''
      | Some ch \<Rightarrow>
          (let msg = \<lparr>msgTo = ch, msgFrom = Control channelInfo, msgValue = amt, msgMethod = 0, msgParams = []\<rparr> in
           case pushMessage api st msg of
             (st1, Inl e) \<Rightarrow> Ret (Inl e, ca, st1)
           | (st1, Inr msgId) \<Rightarrow>
               (let st2 = mutateChannelInfo api repo st1 (ChannelID channelInfo)
                            (\<lambda>ci. ci\<lparr>PendingAmount := amt, AddFundsMsg := Some msgId\<rparr>);
                    (r, _) = pmSaveMessage repo (pchStore st2)
                      \<lparr>miChannelID = ChannelID channelInfo, miMsgCid = msgId, Received = False, miErr = []\<rparr>
                in Ret (Inr msgId, ca\<lparr>ca_waits := ca_waits ca @ [WaitAddFunds (Some m) (ChannelID channelInfo) msgId]\<rparr>,
                        st2\<lparr>pchStore := r\<rparr>))))"

definition fundsErr :: "error \<Rightarrow> paychFundsRes" where
  "fundsErr e = \<lparr>fres_channel = Undef, fres_mcid = Undef, fres_err = Some e\<rparr>"

definition processTask :: "paychAPI \<Rightarrow> 'r PaychRepo \<Rightarrow> nat \<Rightarrow> int \<Rightarrow> channelAccessor \<Rightarrow> 'r pch \<Rightarrow>
    (paychFundsRes option \<times> channelAccessor \<times> 'r pch) outcome" where
  "processTask api repo m amt ca st =
     (case pcOutboundActiveByFromTo repo (pchStore st) (ca_from ca) (ca_to ca) of
        Inl e \<Rightarrow>
          if \<not> errors_Is e ErrNotFound then Ret (Some (fundsErr e), ca, st)
          else
            (case createPaych api repo m amt ca st of
               (Inl e', ca1, st1) \<Rightarrow> Ret (Some (fundsErr e'), ca1, st1)
             | (Inr mcid, ca1, st1) \<Rightarrow> Ret (Some \<lparr>fres_channel = Undef, fres_mcid = mcid, fres_err = None\<rparr>, ca1, st1))
      | Inr channelInfo \<Rightarrow>
          if CreateMsg channelInfo \<noteq> None then Ret (None, ca, st)
          else if AddFundsMsg channelInfo \<noteq> None then Ret (None, ca, st)
          else
            (case addFunds api repo m channelInfo amt ca st of
               Panic p \<Rightarrow> Panic p
             | Ret (Inl e, ca1, st1) \<Rightarrow> Ret (Some (fundsErr e), ca1, st1)
             | Ret (Inr mcid, ca1, st1) \<Rightarrow>
                 Ret (Some \<lparr>fres_channel = the (Channel channelInfo), fres_mcid = mcid, fres_err = None\<rparr>, ca1, st1)))"

definition processQueue :: "paychAPI \<Rightarrow> 'r PaychRepo \<Rightarrow> (ChannelInfo \<Rightarrow> address \<times> address) \<Rightarrow> string \<Rightarrow>
    channelAccessor \<Rightarrow> 'r pch \<Rightarrow> (ChannelAvailableFunds option res \<times> channelAccessor \<times> 'r pch) outcome" where
  "processQueue api repo fromTo channelID ca st =
     (let ca0 = ca\<lparr>fundsReqQueue := filterQueue (ca_reqs ca) (fundsReqQueue ca)\<rparr> in
      if length (fundsReqQueue ca0) = 0 then Ret (currentAvailableFunds api repo fromTo st channelID 0, ca0, st)
      else
        (let (m, ca1) = newMergedFundsReq (fundsReqQueue ca0) ca0;
             amt = mergedSum (ca_reqs ca1) (ca_merges ca1 m)
         in if amt = 0 then Ret (currentAvailableFunds api repo fromTo st channelID amt, ca1, st)
            else
              (case processTask api repo m amt ca1 st of
                 Panic p \<Rightarrow> Panic p
               | Ret (None, ca2, st2) \<Rightarrow> Ret (currentAvailableFunds api repo fromTo st2 channelID amt, ca2, st2)
               | Ret (Some res, ca2, st2) \<Rightarrow>
                   (let ca3 = ca2\<lparr>fundsReqQueue := [], ca_reqs := mergedOnComplete (ca_reqs ca2) (ca_merges ca2 m) res\<rparr>
                    in Ret (currentAvailableFunds api repo fromTo st2 channelID 0, ca3, st2)))))"

definition availableFunds :: "paychAPI \<Rightarrow> 'r PaychRepo \<Rightarrow> (ChannelInfo \<Rightarrow> address \<times> address) \<Rightarrow> string \<Rightarrow>
    channelAccessor \<Rightarrow> 'r pch \<Rightarrow> (ChannelAvailableFunds option res \<times> channelAccessor \<times> 'r pch) outcome" where
  "availableFunds api repo fromTo channelID ca st = processQueue api repo fromTo channelID ca st"

section \<open>Message results\<close>

text \<open>The receipt: its exit code and the robust address decoded from its return value.\<close>

record MsgLookup =
  ExitCode :: int
  RobustAddress :: "address res"

definition waitPaychCreateMsg :: "paychAPI \<Rightarrow> 'r PaychRepo \<Rightarrow> 'r pch \<Rightarrow> string \<Rightarrow> MsgLookup res \<Rightarrow> 'r pch \<times> error option" where
  "waitPaychCreateMsg api repo st channelID wait =
     (case wait of
        Inl e \<Rightarrow> (st, Some e)
      | Inr mwait \<Rightarrow>
          if ExitCode mwait \<noteq> 0
          then (st\<lparr>pchStore := fst (pcRemoveChannel repo (pchStore st) channelID)\<rparr>,
                Some (ErrMsg ''payment channel creation failed''))
          else
            (case RobustAddress mwait of
               Inl e \<Rightarrow> (st, Some e)
             | Inr robust \<Rightarrow>
                 (mutateChannelInfo api repo st channelID
                    (\<lambda>ci. ci\<lparr>Channel := Some robust, ciAmount := PendingAmount ci, PendingAmount := 0, CreateMsg := None\<rparr>),
                  None)))"

definition waitAddFundsMsg :: "paychAPI \<Rightarrow> 'r PaychRepo \<Rightarrow> 'r pch \<Rightarrow> string \<Rightarrow> MsgLookup res \<Rightarrow> 'r pch \<times> error option" where
  "waitAddFundsMsg api repo st channelID wait =
     (case wait of
        Inl e \<Rightarrow> (st, Some e)
      | Inr mwait \<Rightarrow>
          if ExitCode mwait \<noteq> 0
          then (mutateChannelInfo api repo st channelID (\<lambda>ci. ci\<lparr>PendingAmount := 0, AddFundsMsg := None\<rparr>),
                Some (ErrMsg ''voucher channel creation failed: adding funds''))
          else (mutateChannelInfo api repo st channelID
                  (\<lambda>ci. ci\<lparr>ciAmount := ciAmount ci + PendingAmount ci, PendingAmount := 0, AddFundsMsg := None\<rparr>),
                None))"

definition fireMsgComplete :: "cid \<Rightarrow> error option \<Rightarrow> channelAccessor \<Rightarrow> channelAccessor" where
  "fireMsgComplete mcid err ca =
     ca\<lparr>ca_fired := ca_fired ca @ map (\<lambda>(l, _). (l, err)) (filter (\<lambda>(_, c). c = mcid) (msgListeners ca)),
        msgListeners := filter (\<lambda>(_, c). c \<noteq> mcid) (msgListeners ca)\<rparr>"

text \<open>\<open>errors.Is(err, ctx.Err())\<close>; on a live context the target is nil and a non-nil error does not match.\<close>

definition isCtxErr :: "error \<Rightarrow> error option \<Rightarrow> bool" where
  "isCtxErr e ctx = (case ctx of None \<Rightarrow> False | Some t \<Rightarrow> errors_Is e t)"

definition msgWaitComplete :: "'r PaychRepo \<Rightarrow> error option \<Rightarrow> error option \<Rightarrow> cid \<Rightarrow> error option \<Rightarrow> channelAccessor \<Rightarrow> 'r pch \<Rightarrow>
    channelAccessor \<times> 'r pch" where
  "msgWaitComplete repo chctx ctx mcid err ca st =
     (if (case err of None \<Rightarrow> False | Some e \<Rightarrow> isCtxErr e chctx \<or> isCtxErr e ctx) then (ca, st)
      else
        (let (r, _) = pmSaveMessageResult repo (pchStore st) mcid err;
             ca1 = fireMsgComplete mcid err ca;
             ca2 = (if length (fundsReqQueue ca1) > 0 then ca1\<lparr>ca_procs := Suc (ca_procs ca1)\<rparr> else ca1)
         in (ca2, st\<lparr>pchStore := r\<rparr>)))"

definition mergeCtx :: "error option \<Rightarrow> channelAccessor \<Rightarrow> nat option \<Rightarrow> error option" where
  "mergeCtx chctx ca m =
     (case m of None \<Rightarrow> chctx | Some m \<Rightarrow> if mrg_cancelled (ca_merges ca m) then Some ErrCanceled else None)"

text \<open>The goroutines \<open>waitForPaychCreateMsg\<close> and \<open>waitForAddFundsMsg\<close> once \<open>WaitMsg\<close> has returned.\<close>

definition waitFor :: "paychAPI \<Rightarrow> 'r PaychRepo \<Rightarrow> error option \<Rightarrow> paychWait \<Rightarrow> MsgLookup res \<Rightarrow> channelAccessor \<Rightarrow> 'r pch \<Rightarrow>
    channelAccessor \<times> 'r pch" where
  "waitFor api repo chctx w wait ca st =
     (case w of
        WaitCreate m channelID mcid \<Rightarrow>
          (let (st1, err) = waitPaychCreateMsg api repo st channelID wait
           in msgWaitComplete repo chctx (mergeCtx chctx ca m) mcid err ca st1)
      | WaitAddFunds m channelID mcid \<Rightarrow>
          (let (st1, err) = waitAddFundsMsg api repo st channelID wait
           in msgWaitComplete repo chctx (mergeCtx chctx ca m) mcid err ca st1))"

section \<open>Waiting for a channel\<close>

datatype waitReady = Ready "address res" | Listening nat

definition msgPromise :: "cid \<Rightarrow> channelAccessor \<Rightarrow> nat \<times> channelAccessor" where
  "msgPromise mcid ca =
     (ca_nlisteners ca, ca\<lparr>msgListeners := msgListeners ca @ [(ca_nlisteners ca, mcid)], ca_nlisteners := Suc (ca_nlisteners ca)\<rparr>)"

text \<open>What the goroutine of \<open>msgPromise\<close> sends when the message has completed with \<open>err\<close>.\<close>

definition promiseResult :: "'r PaychRepo \<Rightarrow> 'r pch \<Rightarrow> cid \<Rightarrow> error option \<Rightarrow> (address res) outcome" where
  "promiseResult repo st mcid err =
     (case err of
        Some e \<Rightarrow> Ret (Inl e)
      | None \<Rightarrow>
          (case pcGetChannelByMessageCid repo (pchStore st) mcid of
             Inl e \<Rightarrow> Ret (Inl e)
           | Inr ci \<Rightarrow> (case Channel ci of None \<Rightarrow> Panic ''nil pointer dereference'' | Some ch \<Rightarrow> Ret (Inr ch))))"

definition getPaychWaitReady :: "'r PaychRepo \<Rightarrow> cid \<Rightarrow> channelAccessor \<Rightarrow> 'r pch \<Rightarrow> (waitReady \<times> channelAccessor) outcome" where
  "getPaychWaitReady repo mcid ca st =
     (case pmGetMessage repo (pchStore st) mcid of
        Inl e \<Rightarrow> Ret (Ready (Inl e), ca)
      | Inr msgInfo \<Rightarrow>
          if length (miErr msgInfo) > 0 then Ret (Ready (Inl (ErrMsg (miErr msgInfo))), ca)
          else if Received msgInfo
          then (case pcGetChannelByMessageCid repo (pchStore st) mcid of
                  Inl e \<Rightarrow> Ret (Ready (Inl e), ca)
                | Inr ci \<Rightarrow>
                    (case Channel ci of
                       None \<Rightarrow> Panic ''create / add funds message succeeded but channelInfo.Channel is nil''
                     | Some ch \<Rightarrow> Ret (Ready (Inr ch), ca)))
          else (let (l, ca1) = msgPromise mcid ca in Ret (Listening l, ca1)))"

end
