(* ===== verification/Paych_Manager.thy ===== *)
theory Paych_Manager
  imports Paych_Funds
begin

text \<open>
  The payment channel manager: \<open>src/paychmgr/manager.go\<close>, \<open>accessorcache.go\<close>, \<open>state.go\<close> and
  \<open>restartPending\<close> of \<open>simple.go\<close>. The manager keeps one accessor per from/to pair under the cache
  key, which stands for the pointer to the accessor; all accessors share the repositories.
\<close>

section \<open>Accessor cache\<close>

record 'r Manager =
  pm_pch :: "'r pch"
  channels :: "string \<Rightarrow> channelAccessor option"

definition newManager :: "'r \<Rightarrow> 'r Manager" where
  "newManager r = \<lparr>pm_pch = \<lparr>pchStore = r, pchSent = []\<rparr>, channels = Map.empty\<rparr>"

definition accessorCacheKey :: "address \<Rightarrow> address \<Rightarrow> string" where
  "accessorCacheKey from to = from @ ''->'' @ to"

definition addAccessorToCache :: "'r Manager \<Rightarrow> address \<Rightarrow> address \<Rightarrow> 'r Manager" where
  "addAccessorToCache pm from to =
     pm\<lparr>channels := (channels pm)(accessorCacheKey from to \<mapsto> newChannelAccessor from to)\<rparr>"

definition accessorByFromTo :: "'r Manager \<Rightarrow> address \<Rightarrow> address \<Rightarrow> string \<times> 'r Manager" where
  "accessorByFromTo pm from to =
     (let key = accessorCacheKey from to in
      case channels pm key of
        Some _ \<Rightarrow> (key, pm)
      | None \<Rightarrow> (key, addAccessorToCache pm from to))"

definition accessorByAddress :: "'r PaychRepo \<Rightarrow> 'r Manager \<Rightarrow> address \<Rightarrow> string res \<times> 'r Manager" where
  "accessorByAddress repo pm ch =
     (case pcGetChannelByAddress repo (pchStore (pm_pch pm)) ch of
        Inl e \<Rightarrow> (Inl e, pm)
      | Inr channelInfo \<Rightarrow>
          (let (key, pm1) = accessorByFromTo pm (Control channelInfo) (Target channelInfo) in (Inr key, pm1)))"

definition setAccessor :: "string \<Rightarrow> channelAccessor \<Rightarrow> 'r Manager \<Rightarrow> 'r Manager" where
  "setAccessor key ca pm = pm\<lparr>channels := (channels pm)(key \<mapsto> ca)\<rparr>"

definition theAccessor :: "'r Manager \<Rightarrow> string \<Rightarrow> channelAccessor" where
  "theAccessor pm key = the (channels pm key)"

section \<open>Channels from chain state\<close>

definition nextLaneFromState :: "PaychState \<Rightarrow> u64 res" where
  "nextLaneFromState st =
     tryE (LaneCount st) (\<lambda>laneCount.
       if laneCount = 0 then Inr 0
       else tryE (ForEachLaneState st) (\<lambda>ls.
         Inr (foldl (\<lambda>maxID (idx, _). if idx > maxID then idx else maxID) 0 ls + 1)))"

definition loadStateChannelInfo :: "paychAPI \<Rightarrow> address \<Rightarrow> Dir \<Rightarrow> ChannelInfo res" where
  "loadStateChannelInfo api ch dir =
     tryE (getPaychState api ch) (\<lambda>(_, st).
     tryE (psFrom st) (\<lambda>f.
     tryE (resolveToKeyAddress api f) (\<lambda>from.
     tryE (psTo st) (\<lambda>t.
     tryE (resolveToKeyAddress api t) (\<lambda>to.
     tryE (nextLaneFromState st) (\<lambda>nextLane.
       Inr \<lparr>ChannelID = [], Channel = Some ch,
            Control = (if dir = DirOutbound then from else to), Target = (if dir = DirOutbound then to else from),
            Direction = dir, Vouchers = [], NextLane = nextLane, ciAmount = 0, PendingAmount = 0,
            CreateMsg = None, AddFundsMsg = None, Settling = False\<rparr>))))))"

definition trackChannel :: "paychAPI \<Rightarrow> 'r PaychRepo \<Rightarrow> 'r Manager \<Rightarrow> ChannelInfo \<Rightarrow> (ChannelInfo res \<times> 'r Manager) outcome" where
  "trackChannel api repo pm ci =
     (case Channel ci of
        None \<Rightarrow> Panic ''nil pointer dereference''
      | Some ch \<Rightarrow>
          (case pcGetChannelByAddress repo (pchStore (pm_pch pm)) ch of
             Inr _ \<Rightarrow> Ret (Inl (ErrMsg ''already tracking channel''), pm)
           | Inl err \<Rightarrow>
               if err \<noteq> ErrNotFound then Ret (Inl err, pm)
               else
                 (case saveChannelInfo api repo (pm_pch pm) ci of
                    (st1, Some e) \<Rightarrow> Ret (Inl e, pm\<lparr>pm_pch := st1\<rparr>)
                  | (st1, None) \<Rightarrow> Ret (pcGetChannelByAddress repo (pchStore st1) ch, pm\<lparr>pm_pch := st1\<rparr>))))"

definition trackInboundChannel :: "paychAPI \<Rightarrow> 'r PaychRepo \<Rightarrow> 'r Manager \<Rightarrow> address \<Rightarrow> (ChannelInfo res \<times> 'r Manager) outcome" where
  "trackInboundChannel api repo pm ch =
     (case pcGetChannelByAddress repo (pchStore (pm_pch pm)) ch of
        Inr ci \<Rightarrow> Ret (Inr ci, pm)
      | Inl err \<Rightarrow>
          if \<not> errors_Is err ErrNotFound then Ret (Inl err, pm)
          else
            (case tryE (loadStateChannelInfo api ch DirInbound) (\<lambda>stateCi.
                  tryE (StateAccountKey api (Control stateCi)) (\<lambda>toKey.
                  tryE (WalletHas api toKey) (\<lambda>has.
                  failIf (\<not> has) (ErrMsg ''cannot add voucher for channel: wallet does not have key for address'')
                    (Inr stateCi)))) of
               Inl e \<Rightarrow> Ret (Inl e, pm)
             | Inr stateCi \<Rightarrow> trackChannel api repo pm stateCi))"

definition inboundChannelAccessor :: "paychAPI \<Rightarrow> 'r PaychRepo \<Rightarrow> 'r Manager \<Rightarrow> address \<Rightarrow> (string res \<times> 'r Manager) outcome" where
  "inboundChannelAccessor api repo pm ch =
     (case trackInboundChannel api repo pm ch of
        Panic p \<Rightarrow> Panic p
      | Ret (Inl e, pm1) \<Rightarrow> Ret (Inl e, pm1)
      | Ret (Inr ci, pm1) \<Rightarrow> (let (key, pm2) = accessorByFromTo pm1 (Target ci) (Control ci) in Ret (Inr key, pm2)))"

section \<open>Funds\<close>

definition GetPaych :: "'r Manager \<Rightarrow> error option \<Rightarrow> address \<Rightarrow> address \<Rightarrow> int \<Rightarrow> (string \<times> nat) \<times> 'r Manager" where
  "GetPaych pm ctx from to amt =
     (let (key, pm1) = accessorByFromTo pm from to;
          (r, ca) = getPaych ctx amt (theAccessor pm1 key)
      in ((key, r), setAccessor key ca pm1))"

definition withQueue :: "paychAPI \<Rightarrow> 'r PaychRepo \<Rightarrow> (ChannelInfo \<Rightarrow> address \<times> address) \<Rightarrow> string \<Rightarrow> string \<Rightarrow> 'r Manager \<Rightarrow>
    (ChannelAvailableFunds option res \<times> 'r Manager) outcome" where
  "withQueue api repo fromTo key channelID pm =
     (case availableFunds api repo fromTo channelID (theAccessor pm key) (pm_pch pm) of
        Panic p \<Rightarrow> Panic p
      | Ret (funds, ca, st) \<Rightarrow> Ret (funds, setAccessor key ca (pm\<lparr>pm_pch := st\<rparr>)))"

definition AvailableFunds :: "paychAPI \<Rightarrow> 'r PaychRepo \<Rightarrow> (ChannelInfo \<Rightarrow> address \<times> address) \<Rightarrow> 'r Manager \<Rightarrow> address \<Rightarrow>
    (ChannelAvailableFunds option res \<times> 'r Manager) outcome" where
  "AvailableFunds api repo fromTo pm ch =
     (case accessorByAddress repo pm ch of
        (Inl e, pm1) \<Rightarrow> Ret (Inl e, pm1)
      | (Inr key, pm1) \<Rightarrow>
          (case getChannelInfo repo (pm_pch pm1) ch of
             Inl e \<Rightarrow> Ret (Inl e, pm1)
           | Inr ci \<Rightarrow> withQueue api repo fromTo key (ChannelID ci) pm1))"

definition AvailableFundsByFromTo :: "paychAPI \<Rightarrow> 'r PaychRepo \<Rightarrow> (ChannelInfo \<Rightarrow> address \<times> address) \<Rightarrow> 'r Manager \<Rightarrow>
    address \<Rightarrow> address \<Rightarrow> (ChannelAvailableFunds option res \<times> 'r Manager) outcome" where
  "AvailableFundsByFromTo api repo fromTo pm from to =
     (let (key, pm1) = accessorByFromTo pm from to in
      case outboundActiveByFromTo repo (pm_pch pm1) from to of
        Inl err \<Rightarrow>
          if errors_Is err ErrNotFound
          then Ret (Inr (Some \<lparr>caf_Channel = None, caf_From = from, caf_To = to, ConfirmedAmt = 0, PendingAmt = 0,
                              PendingWaitSentinel = None, QueuedAmt = 0, VoucherReedeemedAmt = 0\<rparr>), pm1)
          else Ret (Inl err, pm1)
      | Inr ci \<Rightarrow> withQueue api repo fromTo key (ChannelID ci) pm1)"

definition GetPaychWaitReady :: "'r PaychRepo \<Rightarrow> 'r Manager \<Rightarrow> cid \<Rightarrow> (waitReady \<times> 'r Manager) outcome" where
  "GetPaychWaitReady repo pm mcid =
     (case pcGetChannelByMessageCid repo (pchStore (pm_pch pm)) mcid of
        Inl err \<Rightarrow> Ret (Ready (Inl (if errors_Is err ErrNotFound then ErrMsg ''could not find wait msg cid'' else err)), pm)
      | Inr ci \<Rightarrow>
          (let (key, pm1) = accessorByFromTo pm (Control ci) (Target ci) in
           case getPaychWaitReady repo mcid (theAccessor pm1 key) (pm_pch pm1) of
             Panic p \<Rightarrow> Panic p
           | Ret (res, ca) \<Rightarrow> Ret (res, setAccessor key ca pm1)))"

definition ListChannels :: "'r PaychRepo \<Rightarrow> 'r Manager \<Rightarrow> address list res" where
  "ListChannels repo pm = pcListChannel repo (pchStore (pm_pch pm))"

section \<open>Vouchers\<close>

definition errProofNotSupported :: error where
  "errProofNotSupported = ErrMsg ''payment channel proof parameter is not supported''"

text \<open>An operation of the accessor for the channel address, under the accessor's lock.\<close>

definition byAddress :: "'r PaychRepo \<Rightarrow> 'r Manager \<Rightarrow> address \<Rightarrow> (error \<Rightarrow> 'a) \<Rightarrow> ('r pch \<Rightarrow> 'r pch \<times> 'a) \<Rightarrow> 'a \<times> 'r Manager" where
  "byAddress repo pm ch fail op =
     (case accessorByAddress repo pm ch of
        (Inl e, pm1) \<Rightarrow> (fail e, pm1)
      | (Inr key, pm1) \<Rightarrow> (case op (pm_pch pm1) of (st, r) \<Rightarrow> (r, pm1\<lparr>pm_pch := st\<rparr>)))"

definition GetChannelInfo :: "'r PaychRepo \<Rightarrow> 'r Manager \<Rightarrow> address \<Rightarrow> ChannelInfo res \<times> 'r Manager" where
  "GetChannelInfo repo pm addr = byAddress repo pm addr Inl (\<lambda>st. (st, getChannelInfo repo st addr))"

definition CreateVoucher :: "paychAPI \<Rightarrow> 'r PaychRepo \<Rightarrow> 'r Manager \<Rightarrow> address \<Rightarrow> SignedVoucher \<Rightarrow>
    VoucherCreateResult res \<times> 'r Manager" where
  "CreateVoucher api repo pm ch voucher = byAddress repo pm ch Inl (\<lambda>st. createVoucher api repo st ch voucher)"

definition CheckVoucherValid :: "paychAPI \<Rightarrow> 'r PaychRepo \<Rightarrow> 'r Manager \<Rightarrow> address \<Rightarrow> SignedVoucher \<Rightarrow>
    (error option \<times> 'r Manager) outcome" where
  "CheckVoucherValid api repo pm ch sv =
     (case inboundChannelAccessor api repo pm ch of
        Panic p \<Rightarrow> Panic p
      | Ret (Inl e, pm1) \<Rightarrow> Ret (Some e, pm1)
      | Ret (Inr key, pm1) \<Rightarrow>
          Ret ((case checkVoucherValid api repo (pm_pch pm1) ch sv of Inl e \<Rightarrow> Some e | Inr _ \<Rightarrow> None), pm1))"

definition CheckVoucherSpendable :: "paychAPI \<Rightarrow> 'r PaychRepo \<Rightarrow> 'r Manager \<Rightarrow> address \<Rightarrow> SignedVoucher \<Rightarrow> bytes \<Rightarrow> bytes \<Rightarrow>
    bool res \<times> 'r Manager" where
  "CheckVoucherSpendable api repo pm ch sv secret proof' =
     (if length proof' > 0 then (Inl errProofNotSupported, pm)
      else byAddress repo pm ch Inl (\<lambda>st. (st, checkVoucherSpendable api repo st ch sv secret)))"

definition AddVoucherOutbound :: "paychAPI \<Rightarrow> 'r PaychRepo \<Rightarrow> 'r Manager \<Rightarrow> address \<Rightarrow> SignedVoucher \<Rightarrow> bytes \<Rightarrow> int \<Rightarrow>
    (int \<times> error option) \<times> 'r Manager" where
  "AddVoucherOutbound api repo pm ch sv proof' minDelta =
     (if length proof' > 0 then ((0, Some errProofNotSupported), pm)
      else byAddress repo pm ch (\<lambda>e. (0, Some e)) (\<lambda>st. addVoucher api repo st ch sv minDelta))"

definition AddVoucherInbound :: "paychAPI \<Rightarrow> 'r PaychRepo \<Rightarrow> 'r Manager \<Rightarrow> address \<Rightarrow> SignedVoucher \<Rightarrow> bytes \<Rightarrow> int \<Rightarrow>
    ((int \<times> error option) \<times> 'r Manager) outcome" where
  "AddVoucherInbound api repo pm ch sv proof' minDelta =
     (if length proof' > 0 then Ret ((0, Some errProofNotSupported), pm)
      else
        (case inboundChannelAccessor api repo pm ch of
           Panic p \<Rightarrow> Panic p
         | Ret (Inl e, pm1) \<Rightarrow> Ret ((0, Some e), pm1)
         | Ret (Inr key, pm1) \<Rightarrow>
             (case addVoucher api repo (pm_pch pm1) ch sv minDelta of (st, r) \<Rightarrow> Ret (r, pm1\<lparr>pm_pch := st\<rparr>))))"

definition SubmitVoucher :: "paychAPI \<Rightarrow> 'r PaychRepo \<Rightarrow> 'r Manager \<Rightarrow> address \<Rightarrow> SignedVoucher \<Rightarrow> bytes \<Rightarrow> bytes \<Rightarrow>
    cid res \<times> 'r Manager" where
  "SubmitVoucher api repo pm ch sv secret proof' =
     (if length proof' > 0 then (Inl errProofNotSupported, pm)
      else byAddress repo pm ch Inl (\<lambda>st. submitVoucher api repo st ch sv secret))"

definition AllocateLane :: "paychAPI \<Rightarrow> 'r PaychRepo \<Rightarrow> 'r Manager \<Rightarrow> address \<Rightarrow> (u64 \<times> error option) \<times> 'r Manager" where
  "AllocateLane api repo pm ch = byAddress repo pm ch (\<lambda>e. (0, Some e)) (\<lambda>st. allocateLane api repo st ch)"

definition ListVouchers :: "'r PaychRepo \<Rightarrow> 'r Manager \<Rightarrow> address \<Rightarrow> VoucherInfo list res \<times> 'r Manager" where
  "ListVouchers repo pm ch = byAddress repo pm ch Inl (\<lambda>st. (st, listVouchers repo st ch))"

definition Settle :: "paychAPI \<Rightarrow> 'r PaychRepo \<Rightarrow> 'r Manager \<Rightarrow> address \<Rightarrow> cid res \<times> 'r Manager" where
  "Settle api repo pm addr = byAddress repo pm addr Inl (\<lambda>st. settle api repo st addr)"

definition Collect :: "paychAPI \<Rightarrow> 'r PaychRepo \<Rightarrow> 'r Manager \<Rightarrow> address \<Rightarrow> cid res \<times> 'r Manager" where
  "Collect api repo pm addr = byAddress repo pm addr Inl (\<lambda>st. collect api repo st addr)"

section \<open>Restart\<close>

definition startWait :: "string \<Rightarrow> paychWait \<Rightarrow> 'r Manager \<Rightarrow> 'r Manager" where
  "startWait key w pm = setAccessor key ((theAccessor pm key)\<lparr>ca_waits := ca_waits (theAccessor pm key) @ [w]\<rparr>) pm"

text \<open>The tasks of the error group, one after the other; \<open>Wait\<close> returns the first error.\<close>

fun restartLoop :: "'r PaychRepo \<Rightarrow> ChannelInfo list \<Rightarrow> error option \<Rightarrow> 'r Manager \<Rightarrow> (error option \<times> 'r Manager) outcome" where
  "restartLoop repo [] err pm = Ret (err, pm)"
| "restartLoop repo (ci # cis) err pm =
     (case CreateMsg ci of
        Some c \<Rightarrow>
          (let (key, pm1) = accessorByFromTo pm (Control ci) (Target ci)
           in restartLoop repo cis err (startWait key (WaitCreate None (ChannelID ci) c) pm1))
      | None \<Rightarrow>
          (case AddFundsMsg ci of
             None \<Rightarrow> restartLoop repo cis err pm
           | Some c \<Rightarrow>
               (case Channel ci of
                  None \<Rightarrow> Panic ''nil pointer dereference''
                | Some ch \<Rightarrow>
                    (case accessorByAddress repo pm ch of
                       (Inl e, pm1) \<Rightarrow>
                         restartLoop repo cis
                           (if err = None then Some (ErrMsg ''error initializing payment channel manager'') else err) pm1
                     | (Inr key, pm1) \<Rightarrow> restartLoop repo cis err (startWait key (WaitAddFunds None (ChannelID ci) c) pm1)))))"

definition restartPending :: "'r PaychRepo \<Rightarrow> 'r Manager \<Rightarrow> (error option \<times> 'r Manager) outcome" where
  "restartPending repo pm =
     (case pcWithPendingAddFunds repo (pchStore (pm_pch pm)) of
        Inl e \<Rightarrow> Ret (Some e, pm)
      | Inr cis \<Rightarrow> restartLoop repo cis None pm)"

definition Start :: "'r PaychRepo \<Rightarrow> 'r Manager \<Rightarrow> (error option \<times> 'r Manager) outcome" where
  "Start repo pm = restartPending repo pm"

end
