(* ===== verification/Paych_Voucher_Props.thy ===== *)
theory Paych_Voucher_Props
  imports Paych_Voucher
begin

text \<open>
  Correctness of voucher handling: nonces handed out are new, an accepted voucher is covered by the
  channel balance and supersedes its lane, stored vouchers have increasing nonces per lane, lanes
  are allocated once, and a voucher is not submitted twice.
\<close>

section \<open>A sample environment\<close>

text \<open>A channel actor with balance 100 and no lane, a wallet that signs everything, and a store that
  holds one channel with one voucher; the concrete instances below use them.\<close>

definition demo_voucher :: SignedVoucher where
  "demo_voucher = \<lparr>svChannelAddr = ''ch'', svTimeLockMin = 0, svTimeLockMax = 0, svSecretHash = [], svExtra = None,
     svLane = 0, svNonce = 1, svAmount = 5, svMinSettleHeight = 0, svMerges = [], svSignature = Some ''sig''\<rparr>"

definition demo_channel :: ChannelInfo where
  "demo_channel = \<lparr>ChannelID = ''id'', Channel = Some ''ch'', Control = ''from'', Target = ''to'', Direction = DirOutbound,
     Vouchers = [newVoucherInfo demo_voucher], NextLane = 1, ciAmount = 100, PendingAmount = 0, CreateMsg = None,
     AddFundsMsg = None, Settling = False\<rparr>"

definition demo_message :: Message where
  "demo_message = \<lparr>msgTo = ''ch'', msgFrom = ''from'', msgValue = 0, msgMethod = 2, msgParams = []\<rparr>"

definition demo_paych :: paychAPI where
  "demo_paych = \<lparr>
     getPaychState = (\<lambda>_. Inr (100, \<lparr>psFrom = Inr ''from'', psTo = Inr ''to'', LaneCount = Inr 0, ForEachLaneState = Inr []\<rparr>)),
     resolveToKeyAddress = Inr, StateAccountKey = Inr, WalletHas = (\<lambda>_. Inr True), WalletSign = (\<lambda>_ _. Inr ''sig''),
     StateNetworkVersion = Inr 16, VersionForNetwork = Inr,
     mbCreate = (\<lambda>_ _ _ _. Inr demo_message), mbUpdate = (\<lambda>_ _ _ _ _. Inr demo_message),
     mbSettle = (\<lambda>_ _ _. Inr demo_message), mbCollect = (\<lambda>_ _ _. Inr demo_message),
     pchPushMessage = (\<lambda>_. Inr ''cid''), pch_call = (\<lambda>_. Inr 0), SigningBytes = (\<lambda>_. Inr ''vb''),
     crypto_Verify = (\<lambda>_ _ _. None), cbor_Equals = (\<lambda>v w. Inr (v = w)),
     HasVoucher = (\<lambda>ci sv. Inr (list_ex (\<lambda>v. Voucher v = sv) (Vouchers ci))),
     WasVoucherSubmitted = (\<lambda>ci sv. Inr (list_ex (\<lambda>v. Voucher v = sv \<and> Submitted v) (Vouchers ci))),
     MarkVoucherSubmitted = (\<lambda>ci sv. if list_ex (\<lambda>v. Voucher v = sv) (Vouchers ci)
       then Inr (ci\<lparr>Vouchers := map (\<lambda>v. if Voucher v = sv then v\<lparr>Submitted := True\<rparr> else v) (Vouchers ci)\<rparr>)
       else Inl ErrNotFound),
     uuid_New = ''uuid''\<rparr>"

definition demo_pch :: "(ds_key \<times> paych_value) list pch" where
  "demo_pch = \<lparr>pchStore = [(dskeyForChannel ''id'', ChannelValue demo_channel)], pchSent = []\<rparr>"

abbreviation demo_repo :: "(ds_key \<times> paych_value) list PaychRepo" where
  "demo_repo \<equiv> NewPaychRepo map_datastore mem_paych_codec"

lemmas paych_demo = demo_voucher_def demo_channel_def demo_message_def demo_paych_def demo_pch_def newVoucherInfo_def
  mem_paych_codec_def findChan_def findChans_def unmarshallChannelInfo_def dskeyForChannel_def dsKeyChannelInfo_def
  GetChannelByAddress_def GetChannelByChannelID_def OutboundActiveByFromTo_def

lemma demo_store [simp]:
  "paych_view map_of mem_paych_codec (pchStore demo_pch) = [''id'' \<mapsto> demo_channel]"
  "paych_invar map_of mem_paych_codec (pchStore demo_pch)" "uuid_New demo_paych \<noteq> []"
  "GetChannelByAddress map_datastore mem_paych_codec (pchStore demo_pch) ''ch'' = Inr demo_channel"
  by (auto simp: paych_view_def paych_invar_def paych_demo fun_eq_iff split: if_splits)

section \<open>Nonces\<close>

abbreviation vlane :: "VoucherInfo \<Rightarrow> u64" where
  "vlane v \<equiv> svLane (Voucher v)"

abbreviation vnonce :: "VoucherInfo \<Rightarrow> u64" where
  "vnonce v \<equiv> svNonce (Voucher v)"

abbreviation maxNonce :: "u64 \<Rightarrow> u64 \<Rightarrow> VoucherInfo list \<Rightarrow> u64" where
  "maxNonce lane m vs \<equiv> foldl (\<lambda>maxnonce v. if vlane v = lane then (if vnonce v > maxnonce then vnonce v else maxnonce)
     else maxnonce) m vs"

lemma maxNonce_upper:
  "m \<le> maxNonce lane m vs \<and> (\<forall>v\<in>set vs. vlane v = lane \<longrightarrow> vnonce v \<le> maxNonce lane m vs)"
proof (induction vs arbitrary: m)
  case (Cons v vs)
  let ?m = "if vlane v = lane then (if vnonce v > m then vnonce v else m) else m"
  have "m \<le> ?m" "vlane v = lane \<longrightarrow> vnonce v \<le> ?m" by auto
  with Cons [of ?m] show ?case by (auto simp del: if_split intro: order_trans)
qed simp

lemma maxNonce_attained:
  "maxNonce lane m vs = m \<or> (\<exists>v\<in>set vs. vlane v = lane \<and> vnonce v = maxNonce lane m vs)"
proof (induction vs arbitrary: m)
  case (Cons v vs)
  let ?m = "if vlane v = lane then (if vnonce v > m then vnonce v else m) else m"
  have "?m = m \<or> vlane v = lane \<and> vnonce v = ?m" by auto
  with Cons [of ?m] show ?case by (auto simp del: if_split)
qed simp

lemma word_less_Suc_iff: "x < x + 1 \<longleftrightarrow> x \<noteq> (-1 :: 'a::len word)"
  by (simp flip: not_le add: inc_less_eq_iff)

text \<open>
  The nonce that \<open>nextNonceForLane\<close> hands out is greater than every stored nonce of the
  lane, exactly when no stored voucher of the lane has the largest 64-bit nonce; then the counter
  wraps around to zero.
\<close>

theorem nextNonceForLane_new:
  "(\<forall>v\<in>set (Vouchers ci). vlane v = lane \<longrightarrow> vnonce v < nextNonceForLane ci lane) \<longleftrightarrow>
    (\<forall>v\<in>set (Vouchers ci). vlane v = lane \<longrightarrow> vnonce v \<noteq> -1)"
proof -
  define m where "m = maxNonce lane 0 (Vouchers ci)"
  have upper: "\<forall>v\<in>set (Vouchers ci). vlane v = lane \<longrightarrow> vnonce v \<le> m"
    and att: "m = 0 \<or> (\<exists>v\<in>set (Vouchers ci). vlane v = lane \<and> vnonce v = m)"
    using maxNonce_upper maxNonce_attained unfolding m_def by blast+
  have next_def: "nextNonceForLane ci lane = m + 1" by (simp add: nextNonceForLane_def m_def)
  show ?thesis
  proof
    assume new: "\<forall>v\<in>set (Vouchers ci). vlane v = lane \<longrightarrow> vnonce v < nextNonceForLane ci lane"
    show "\<forall>v\<in>set (Vouchers ci). vlane v = lane \<longrightarrow> vnonce v \<noteq> -1"
      using new by (metis word_not_simps(3))
  next
    assume ok: "\<forall>v\<in>set (Vouchers ci). vlane v = lane \<longrightarrow> vnonce v \<noteq> -1"
    with att have "m \<noteq> -1" by auto
    then have "m < m + 1" by (simp add: word_less_Suc_iff)
    with upper show "\<forall>v\<in>set (Vouchers ci). vlane v = lane \<longrightarrow> vnonce v < nextNonceForLane ci lane"
      unfolding next_def by (metis order.strict_trans1)
  qed
qed

theorem nextNonceForLane_new_witness:
  "vnonce (newVoucherInfo demo_voucher) < nextNonceForLane demo_channel 0 \<and> nextNonceForLane demo_channel 0 = 2"
proof -
  have "\<forall>v\<in>set (Vouchers demo_channel). vlane v = 0 \<longrightarrow> vnonce v \<noteq> -1" by (simp add: paych_demo)
  then have "\<forall>v\<in>set (Vouchers demo_channel). vlane v = 0 \<longrightarrow> vnonce v < nextNonceForLane demo_channel 0"
    unfolding nextNonceForLane_new .
  then show ?thesis by (simp add: nextNonceForLane_def paych_demo)
qed

section \<open>Lane states\<close>

definition nonceBound :: "lanes \<Rightarrow> u64 \<Rightarrow> u64 \<Rightarrow> bool" where
  "nonceBound ls k m \<longleftrightarrow> (\<exists>l n. map_of ls k = Some l \<and> Nonce l = Inr n \<and> m \<le> n)"

lemma laneStateLoop_cases:
  assumes "laneStateLoop ls (v # vs) = Inr ls'"
  obtains (keep) "nonceBound ls (vlane v) (vnonce v)" "laneStateLoop ls vs = Inr ls'" "svMerges (Voucher v) = []"
  | (set) "laneStateLoop (AList.update (vlane v) (voucherLaneState (Voucher v)) ls) vs = Inr ls'"
      "\<And>n. nonceBound ls (vlane v) n \<Longrightarrow> n \<le> vnonce v" "svMerges (Voucher v) = []"
proof -
  have merges: "svMerges (Voucher v) = []" using assms by (auto split: if_splits)
  show thesis
  proof (cases "map_of ls (vlane v)")
    case None
    with assms merges show ?thesis by (intro set) (auto simp: nonceBound_def)
  next
    case (Some l)
    then obtain n where n: "Nonce l = Inr n" using assms merges by (auto split: sum.splits)
    show ?thesis
    proof (cases "vnonce v < n")
      case True
      then show ?thesis using assms merges Some n by (intro keep) (auto simp: nonceBound_def)
    next
      case False
      then show ?thesis using assms merges Some n by (intro set) (auto simp: nonceBound_def intro: order_trans)
    qed
  qed
qed

declare laneStateLoop.simps(2) [simp del]

lemma nonceBound_update: "nonceBound (AList.update k (voucherLaneState v) ls) j m \<longleftrightarrow>
    (if j = k then m \<le> svNonce v else nonceBound ls j m)"
  by (auto simp: nonceBound_def update_conv' voucherLaneState_def)

lemma laneStateLoop_keeps: "laneStateLoop ls vs = Inr ls' \<Longrightarrow> nonceBound ls k m \<Longrightarrow> nonceBound ls' k m"
proof (induction vs arbitrary: ls)
  case (Cons v vs)
  from Cons.prems(1) show ?case
  proof (cases rule: laneStateLoop_cases)
    case keep
    with Cons show ?thesis by blast
  next
    case set
    have "nonceBound (AList.update (vlane v) (voucherLaneState (Voucher v)) ls) k m"
      using Cons.prems(2) set(2) by (auto simp: nonceBound_update)
    with Cons.IH set(1) show ?thesis by blast
  qed
qed simp

lemma laneStateLoop_bounds: "laneStateLoop ls vs = Inr ls' \<Longrightarrow> v \<in> set vs \<Longrightarrow> nonceBound ls' (vlane v) (vnonce v)"
proof (induction vs arbitrary: ls)
  case (Cons w vs)
  from Cons.prems(1) show ?case
  proof (cases rule: laneStateLoop_cases)
    case keep
    with Cons laneStateLoop_keeps show ?thesis by (metis set_ConsD)
  next
    case set
    have "nonceBound (AList.update (vlane w) (voucherLaneState (Voucher w)) ls) (vlane w) (vnonce w)"
      by (simp add: nonceBound_update)
    with Cons set(1) laneStateLoop_keeps show ?thesis by (metis set_ConsD)
  qed
qed simp

lemma laneStateLoop_distinct: "laneStateLoop ls vs = Inr ls' \<Longrightarrow> distinct (map fst ls) \<Longrightarrow> distinct (map fst ls')"
proof (induction vs arbitrary: ls)
  case (Cons v vs)
  from Cons.prems(1) show ?case
  proof (cases rule: laneStateLoop_cases)
    case set
    show ?thesis using set(1) by (rule Cons.IH) (simp add: distinct_update Cons.prems(2))
  qed (use Cons in simp)
qed simp

lemma laneState_facts:
  assumes "laneState repo st state ch = Inr ls"
  shows "distinct (map fst ls)"
    and "pcGetChannelByAddress repo (pchStore st) ch = Inr ci \<Longrightarrow> v \<in> set (Vouchers ci) \<Longrightarrow> nonceBound ls (vlane v) (vnonce v)"
proof -
  have start: "distinct (map fst (foldl (\<lambda>m (idx, l). AList.update idx l m) m0 onChain))" if "distinct (map fst m0)"
    for onChain and m0 :: lanes
    using that by (induction onChain arbitrary: m0) (auto simp: distinct_update)
  show "distinct (map fst ls)"
  proof -
    obtain onChain where "laneStateLoop (foldl (\<lambda>m (idx, l). AList.update idx l m) [] onChain)
        (case vouchersForPaych repo st ch of Inl e \<Rightarrow> [] | Inr vs \<Rightarrow> vs) = Inr ls"
      using assms by (cases "vouchersForPaych repo st ch") (auto simp: laneState_def tryE_Inr_iff Let_def split: if_splits)
    then show ?thesis by (rule laneStateLoop_distinct) (rule start, simp)
  qed
  show "nonceBound ls (vlane v) (vnonce v)" if "pcGetChannelByAddress repo (pchStore st) ch = Inr ci" "v \<in> set (Vouchers ci)"
    using assms that laneStateLoop_bounds
    by (auto simp: laneState_def tryE_Inr_iff Let_def vouchersForPaych_def)
qed

section \<open>The redeemed total\<close>

definition redeemedOf :: "LaneState \<Rightarrow> int" where
  "redeemedOf l = (case Redeemed l of Inl _ \<Rightarrow> 0 | Inr r \<Rightarrow> r)"

abbreviation laneTotal :: "lanes \<Rightarrow> int" where
  "laneTotal ls \<equiv> sum_list (map (redeemedOf \<circ> snd) ls)"

lemma sumRedeemed_total: "sumRedeemed t ls = Inr s \<Longrightarrow> s = t + laneTotal ls"
  by (induction t ls rule: sumRedeemed.induct) (fastforce simp: tryE_Inr_iff redeemedOf_def)+

lemma laneTotal_update:
  "distinct (map fst ls) \<Longrightarrow> laneTotal (AList.update k x ls) =
    laneTotal ls + redeemedOf x - (case map_of ls k of None \<Rightarrow> 0 | Some l \<Rightarrow> redeemedOf l)"
proof (induction ls)
  case (Cons a ls)
  obtain j l where a: "a = (j, l)" by fastforce
  have "map_of ls k = None" if "j = k" using Cons.prems a that by (auto simp: map_of_eq_None_iff)
  with Cons a show ?case by (auto split: option.split)
qed simp

text \<open>The total is the one of the lanes with the voucher in place of its lane.\<close>

lemma totalRedeemedWithVoucher_replaces:
  assumes "totalRedeemedWithVoucher ls sv = Inr t" and "distinct (map fst ls)"
    and "\<And>l n. map_of ls (svLane sv) = Some l \<Longrightarrow> Nonce l = Inr n \<Longrightarrow> n < svNonce sv"
  shows "t = laneTotal (AList.update (svLane sv) (voucherLaneState sv) ls)"
proof -
  obtain s where s: "sumRedeemed 0 ls = Inr s" using assms(1) by (auto simp: totalRedeemedWithVoucher_def tryE_Inr_iff)
  have "s = laneTotal ls" using sumRedeemed_total [OF s] by simp
  with assms s show ?thesis
    by (cases "map_of ls (svLane sv)")
      (fastforce simp: totalRedeemedWithVoucher_def tryE_Inr_iff laneTotal_update voucherLaneState_def redeemedOf_def
        split: if_splits)+
qed

lemma checkVoucherValidE:
  assumes "checkVoucherValid api repo st ch sv = Inr ls"
  obtains balance state f frm vb tot where "getPaychState api ch = Inr (balance, state)" "psFrom state = Inr f"
      "resolveToKeyAddress api f = Inr frm" "SigningBytes api sv = Inr vb" "crypto_Verify api (svSignature sv) frm vb = None"
      "laneState repo st state ch = Inr ls" "totalRedeemedWithVoucher ls sv = Inr tot" "tot \<le> balance"
      "svChannelAddr sv = ch" "svExtra sv = None" "svTimeLockMin sv = 0" "svTimeLockMax sv = 0"
      "svSecretHash sv = []" "svMerges sv = []"
      "\<forall>l. map_of ls (svLane sv) = Some l \<longrightarrow>
        (\<exists>n r. Nonce l = Inr n \<and> n < svNonce sv \<and> Redeemed l = Inr r \<and> r < svAmount sv)"
  using assms by (fastforce simp: checkVoucherValid_def checkVoucherValidUnlocked_def tryE_Inr_iff not_le
      split: option.splits prod.splits)

lemma checkVoucherValid_new_nonce:
  assumes "checkVoucherValid api repo st ch sv = Inr ls" and "pcGetChannelByAddress repo (pchStore st) ch = Inr ci"
    and "v \<in> set (Vouchers ci)" and "vlane v = svLane sv"
  shows "vnonce v < svNonce sv"
  using assms(1)
proof (rule checkVoucherValidE)
  fix state assume lanes: "laneState repo st state ch = Inr ls"
    and lane: "\<forall>l. map_of ls (svLane sv) = Some l \<longrightarrow>
      (\<exists>n r. Nonce l = Inr n \<and> n < svNonce sv \<and> Redeemed l = Inr r \<and> r < svAmount sv)"
  show ?thesis using laneState_facts(2) [OF lanes assms(2,3)] assms(4) lane by (force simp: nonceBound_def)
qed

text \<open>
  Property C5. A voucher that passes \<open>checkVoucherValid\<close> is for this channel, carries no lock and no
  merge, verifies under the key of the channel's creator, has a higher nonce and a higher amount
  than its lane (and a higher nonce than every stored voucher of the lane), and after it
  supersedes its lane the lanes together do not exceed the balance of the channel actor.
\<close>

theorem checkVoucherValid_sound:
  assumes ok: "checkVoucherValid api repo st ch sv = Inr ls"
  shows "svChannelAddr sv = ch \<and> svExtra sv = None \<and> svTimeLockMin sv = 0 \<and> svTimeLockMax sv = 0 \<and>
    svSecretHash sv = [] \<and> svMerges sv = [] \<and>
    (\<exists>balance state f from vb. getPaychState api ch = Inr (balance, state) \<and> psFrom state = Inr f \<and>
      resolveToKeyAddress api f = Inr from \<and> SigningBytes api sv = Inr vb \<and>
      crypto_Verify api (svSignature sv) from vb = None \<and>
      laneTotal (AList.update (svLane sv) (voucherLaneState sv) ls) \<le> balance) \<and>
    (\<forall>l. map_of ls (svLane sv) = Some l \<longrightarrow>
      (\<exists>n r. Nonce l = Inr n \<and> n < svNonce sv \<and> Redeemed l = Inr r \<and> r < svAmount sv)) \<and>
    (\<forall>ci v. pcGetChannelByAddress repo (pchStore st) ch = Inr ci \<and> v \<in> set (Vouchers ci) \<and> vlane v = svLane sv \<longrightarrow>
      vnonce v < svNonce sv)"
proof -
  obtain balance state f frm vb tot where env: "getPaychState api ch = Inr (balance, state)" "psFrom state = Inr f"
      "resolveToKeyAddress api f = Inr frm" "SigningBytes api sv = Inr vb" "crypto_Verify api (svSignature sv) frm vb = None"
    and lanes: "laneState repo st state ch = Inr ls"
    and tot: "totalRedeemedWithVoucher ls sv = Inr tot" "tot \<le> balance"
    and plain: "svChannelAddr sv = ch" "svExtra sv = None" "svTimeLockMin sv = 0" "svTimeLockMax sv = 0"
      "svSecretHash sv = []" "svMerges sv = []"
    and lane: "\<forall>l. map_of ls (svLane sv) = Some l \<longrightarrow>
      (\<exists>n r. Nonce l = Inr n \<and> n < svNonce sv \<and> Redeemed l = Inr r \<and> r < svAmount sv)"
    using ok by (rule checkVoucherValidE)
  have "tot = laneTotal (AList.update (svLane sv) (voucherLaneState sv) ls)"
    using tot(1) laneState_facts(1) [OF lanes] lane by (intro totalRedeemedWithVoucher_replaces) auto
  with checkVoucherValid_new_nonce [OF ok] env tot(2) plain lane show ?thesis by blast
qed

definition demo_next :: SignedVoucher where
  "demo_next = demo_voucher\<lparr>svNonce := 2, svAmount := 9\<rparr>"

lemma demo_next_sel [simp]:
  "svChannelAddr demo_next = ''ch''" "svExtra demo_next = None" "svTimeLockMax demo_next = 0" "svTimeLockMin demo_next = 0"
  "svSecretHash demo_next = []" "svMerges demo_next = []" "svLane demo_next = 0" "svNonce demo_next = 2" "svAmount demo_next = 9"
  by (simp_all add: demo_next_def demo_voucher_def)

lemma demo_channel_sel [simp]:
  "ChannelID demo_channel = ''id''" "Channel demo_channel = Some ''ch''" "NextLane demo_channel = 1"
  "Vouchers demo_channel = [newVoucherInfo demo_voucher]" "Control demo_channel = ''from''" "Settling demo_channel = False"
  by (simp_all add: demo_channel_def)

lemma demo_voucher_sel [simp]:
  "svMerges demo_voucher = []" "svLane demo_voucher = 0" "svNonce demo_voucher = 1" "svAmount demo_voucher = 5"
  by (simp_all add: demo_voucher_def)

definition demo_actor :: PaychState where
  "demo_actor = \<lparr>psFrom = Inr ''from'', psTo = Inr ''to'', LaneCount = Inr 0, ForEachLaneState = Inr []\<rparr>"

lemma demo_paych_sel [simp]:
  "getPaychState demo_paych ch = Inr (100, demo_actor)" "resolveToKeyAddress demo_paych a = Inr a"
  "SigningBytes demo_paych sv = Inr ''vb''" "crypto_Verify demo_paych sg a b = None"
  "psFrom demo_actor = Inr ''from''" "LaneCount demo_actor = Inr 0" "ForEachLaneState demo_actor = Inr []"
  "WalletSign demo_paych a b = Inr ''sig''" "uuid_New demo_paych = ''uuid''" "cbor_Equals demo_paych v w = Inr (v = w)"
  by (simp_all add: demo_paych_def demo_actor_def)

lemma demo_check: "checkVoucherValid demo_paych demo_repo demo_pch ''ch'' demo_next = Inr [(0, voucherLaneState demo_voucher)]"
proof -
  have "vouchersForPaych demo_repo demo_pch ''ch'' = Inr [newVoucherInfo demo_voucher]"
    by (simp add: vouchersForPaych_def demo_channel_def)
  then have "laneState demo_repo demo_pch demo_actor ''ch'' = Inr [(0, voucherLaneState demo_voucher)]"
    by (simp add: laneState_def laneStateLoop.simps(2) newVoucherInfo_def)
  moreover have "\<not> (2 :: u64) \<le> 1" by (simp add: word_le_nat_alt)
  ultimately show ?thesis
    by (simp add: checkVoucherValid_def checkVoucherValidUnlocked_def totalRedeemedWithVoucher_def voucherLaneState_def)
qed

theorem checkVoucherValid_sound_witness:
  "\<exists>ls balance. checkVoucherValid demo_paych demo_repo demo_pch ''ch'' demo_next = Inr ls \<and>
    getPaychState demo_paych ''ch'' = Inr balance \<and>
    laneTotal (AList.update (svLane demo_next) (voucherLaneState demo_next) ls) \<le> fst balance"
  using checkVoucherValid_sound [OF demo_check] demo_check by fastforce

section \<open>Storing vouchers\<close>

text \<open>The two invariants of a stored channel: nonces increase per lane in the order of arrival, and
  the lane counter is above every lane in use.\<close>

definition noncesIncreasing :: "ChannelInfo \<Rightarrow> bool" where
  "noncesIncreasing ci \<longleftrightarrow> sorted_wrt (\<lambda>v w. vlane v = vlane w \<longrightarrow> vnonce v < vnonce w) (Vouchers ci)"

definition lanesBelow :: "ChannelInfo \<Rightarrow> bool" where
  "lanesBelow ci \<longleftrightarrow> (\<forall>v\<in>set (Vouchers ci). vlane v < NextLane ci)"

definition withVoucher :: "SignedVoucher \<Rightarrow> ChannelInfo \<Rightarrow> ChannelInfo" where
  "withVoucher sv ci = ci\<lparr>Vouchers := Vouchers ci @ [newVoucherInfo sv],
     NextLane := (if NextLane ci \<le> svLane sv then svLane sv + 1 else NextLane ci)\<rparr>"

lemma withVoucher_sel [simp]:
  "Channel (withVoucher sv ci) = Channel ci" "ChannelID (withVoucher sv ci) = ChannelID ci"
  "Vouchers (withVoucher sv ci) = Vouchers ci @ [newVoucherInfo sv]"
  by (simp_all add: withVoucher_def)

lemma newVoucherInfo_sel [simp]: "Voucher (newVoucherInfo sv) = sv"
  by (simp add: newVoucherInfo_def)

lemma withVoucher_increasing:
  assumes "noncesIncreasing ci" and "\<And>v. v \<in> set (Vouchers ci) \<Longrightarrow> vlane v = svLane sv \<Longrightarrow> vnonce v < svNonce sv"
  shows "noncesIncreasing (withVoucher sv ci)"
  using assms by (simp add: noncesIncreasing_def sorted_wrt_append)

lemma withVoucher_below:
  assumes "lanesBelow ci" and "svLane sv \<noteq> -1"
  shows "lanesBelow (withVoucher sv ci)"
proof -
  have "svLane sv < svLane sv + 1" using assms(2) by (simp add: word_less_Suc_iff)
  with assms(1) show ?thesis by (auto simp: lanesBelow_def withVoucher_def)
qed

lemma withID_inv [simp]:
  "noncesIncreasing (withID uid ci) = noncesIncreasing ci" "lanesBelow (withID uid ci) = lanesBelow ci"
  "Vouchers (withID uid ci) = Vouchers ci" "Channel (withID uid ci) = Channel ci"
  "NextLane (withID uid ci) = NextLane ci"
  by (simp_all add: withID_def noncesIncreasing_def lanesBelow_def)

lemma noncesIncreasing_upd [simp]:
  "noncesIncreasing (ci\<lparr>NextLane := n\<rparr>) = noncesIncreasing ci" "noncesIncreasing (ci\<lparr>Settling := b\<rparr>) = noncesIncreasing ci"
  by (simp_all add: noncesIncreasing_def)

lemma pushMessage_store: "pushMessage api st m = (st1, r) \<Longrightarrow> pchStore st1 = pchStore st"
  by (auto simp: pushMessage_def split: sum.splits)

text \<open>The ways \<open>addVoucherUnlocked\<close> ends: an error before the store is touched, a voucher that is
  already there, or a save of the channel with the voucher.\<close>

lemma addVoucherUnlocked_cases:
  assumes "addVoucherUnlocked api repo st ch sv minDelta = (st', delta, err)"
  obtains (failed) e where "err = Some e" "st' = st"
  | (duplicate) ci where "err = None" "st' = st" "delta = 0" "pcGetChannelByAddress repo (pchStore st) ch = Inr ci"
      "voucherAdded api sv (Vouchers ci) = Inr True"
  | (saved) ci ls where "pcGetChannelByAddress repo (pchStore st) ch = Inr ci"
      "checkVoucherValid api repo st ch sv = Inr ls" "minDelta \<le> delta"
      "delta = svAmount sv - (case map_of ls (svLane sv) of None \<Rightarrow> 0 | Some l \<Rightarrow> redeemedOf l)"
      "saveChannelInfo api repo st (withVoucher sv ci) = (st', err)"
proof (cases "pcGetChannelByAddress repo (pchStore st) ch")
  case (Inl e)
  with assms failed show thesis by (auto simp: addVoucherUnlocked_def)
next
  case ci: (Inr ci)
  show thesis
  proof (cases "voucherAdded api sv (Vouchers ci)")
    case (Inl e)
    with ci assms failed show thesis by (auto simp: addVoucherUnlocked_def)
  next
    case (Inr b)
    show thesis
    proof (cases b)
      case True
      with ci Inr assms duplicate show thesis by (auto simp: addVoucherUnlocked_def)
    next
      case False
      have fold: "(if NextLane ci \<le> svLane sv
        then ci\<lparr>Vouchers := Vouchers ci @ [newVoucherInfo sv], NextLane := svLane sv + 1\<rparr>
        else ci\<lparr>Vouchers := Vouchers ci @ [newVoucherInfo sv]\<rparr>) = withVoucher sv ci"
        by (simp add: withVoucher_def)
      show thesis
      proof (cases "checkVoucherValidUnlocked api repo st ch sv")
        case (Inl e)
        with ci Inr False assms failed show thesis by (auto simp: addVoucherUnlocked_def)
      next
        fix ls assume ls: "checkVoucherValidUnlocked api repo st ch sv = Inr ls"
        show thesis
        proof (cases "case map_of ls (svLane sv) of None \<Rightarrow> Inr 0 | Some l \<Rightarrow> Redeemed l")
          case (Inl e)
          with ci \<open>voucherAdded _ _ _ = _\<close> False ls assms failed show thesis by (auto simp: addVoucherUnlocked_def)
        next
          fix r assume r: "(case map_of ls (svLane sv) of None \<Rightarrow> Inr 0 | Some l \<Rightarrow> Redeemed l) = Inr r"
          then have r': "r = (case map_of ls (svLane sv) of None \<Rightarrow> 0 | Some l \<Rightarrow> redeemedOf l)"
            by (simp add: redeemedOf_def split: option.splits)
          have "addVoucherUnlocked api repo st ch sv minDelta = (if svAmount sv - r < minDelta
              then (st, svAmount sv - r, Some (ErrMsg ''addVoucher: supplied token amount too low''))
              else (case saveChannelInfo api repo st (withVoucher sv ci) of (st', err) \<Rightarrow> (st', svAmount sv - r, err)))"
            by (simp add: addVoucherUnlocked_def ci Inr False ls r Let_def fold)
          with assms show thesis
            using failed saved [OF ci ls [folded checkVoucherValid_def]] r' by (auto split: if_splits prod.splits)
        qed
      qed
    qed
  qed
qed

definition allChannels :: "(string \<rightharpoonup> ChannelInfo) \<Rightarrow> (ChannelInfo \<Rightarrow> bool) \<Rightarrow> bool" where
  "allChannels m P \<longleftrightarrow> (\<forall>i ci. m i = Some ci \<longrightarrow> P ci)"

lemma allChannels_upd: "allChannels m P \<Longrightarrow> P ci \<Longrightarrow> allChannels (m(i \<mapsto> ci)) P"
  by (simp add: allChannels_def)

text \<open>At most one stored channel has the given address.\<close>

definition uniqueAddress :: "(string \<rightharpoonup> ChannelInfo) \<Rightarrow> address \<Rightarrow> bool" where
  "uniqueAddress m ch \<longleftrightarrow> (\<forall>i j ci cj. m i = Some ci \<longrightarrow> m j = Some cj \<longrightarrow> Channel ci = Some ch \<longrightarrow> Channel cj = Some ch \<longrightarrow> i = j)"

context paych_repo
begin

lemma found:
  assumes "invar r" and "pcGetChannelByAddress repo r ch = Inr ci"
  shows "view r (ChannelID ci) = Some ci" and "Channel ci = Some ch" and "ch \<noteq> reserved" and "ChannelID ci \<noteq> []"
proof -
  show v: "view r (ChannelID ci) = Some ci" and c: "Channel ci = Some ch" using get_by_address [OF assms] by simp_all
  show "ch \<noteq> reserved" and "ChannelID ci \<noteq> []" using view_known [OF assms(1) v] c by simp_all
qed

lemma saved_channel:
  assumes inv: "invar (pchStore st)" and uid: "uuid_New api \<noteq> []"
    and save: "saveChannelInfo api repo st ci = (st', err)" and ci: "ChannelID ci \<noteq> []" "Channel ci \<noteq> Some reserved"
  shows "pchSent st' = pchSent st" and "invar (pchStore st')" and "msgs (pchStore st') = msgs (pchStore st)"
    and "err \<noteq> None \<Longrightarrow> view (pchStore st') = view (pchStore st)"
    and "err = None \<Longrightarrow> view (pchStore st') = (view (pchStore st))(ChannelID ci \<mapsto> ci)"
proof -
  obtain r where r: "pcSaveChannel repo (pchStore st) (uuid_New api) ci = (r, err)" and st': "st' = st\<lparr>pchStore := r\<rparr>"
    using save by (auto simp: saveChannelInfo_def split: prod.splits)
  have id: "withID (uuid_New api) ci = ci" using ci(1) by (simp add: withID_def)
  show "pchSent st' = pchSent st" by (simp add: st')
  show "invar (pchStore st')" using save_channel_invar [OF inv uid r] by (simp add: st')
  have upd: "view r = (case err of None \<Rightarrow> (view (pchStore st))(ChannelID ci \<mapsto> ci) | Some e \<Rightarrow> view (pchStore st)) \<and>
      msgs r = msgs (pchStore st)"
    using save_channel_view [OF r ci(2)] by (simp only: id)
  show "msgs (pchStore st') = msgs (pchStore st)" using upd by (simp add: st')
  show "err \<noteq> None \<Longrightarrow> view (pchStore st') = view (pchStore st)"
    and "err = None \<Longrightarrow> view (pchStore st') = (view (pchStore st))(ChannelID ci \<mapsto> ci)"
    using upd by (auto simp: st')
qed

lemma add_voucher_store:
  assumes inv: "invar (pchStore st)" and uid: "uuid_New api \<noteq> []"
    and add: "addVoucherUnlocked api repo st ch sv minDelta = (st', delta, err)"
  shows "pchSent st' = pchSent st \<and> invar (pchStore st') \<and>
    (view (pchStore st') = view (pchStore st) \<and>
       (err = None \<longrightarrow> delta = 0 \<and> (\<exists>ci. pcGetChannelByAddress repo (pchStore st) ch = Inr ci \<and> voucherAdded api sv (Vouchers ci) = Inr True)) \<or>
     err = None \<and> minDelta \<le> delta \<and> (\<exists>ci ls. pcGetChannelByAddress repo (pchStore st) ch = Inr ci \<and>
       checkVoucherValid api repo st ch sv = Inr ls \<and>
       delta = svAmount sv - (case map_of ls (svLane sv) of None \<Rightarrow> 0 | Some l \<Rightarrow> redeemedOf l) \<and>
       view (pchStore st') = (view (pchStore st))(ChannelID ci \<mapsto> withVoucher sv ci)))"
  using add
proof (cases rule: addVoucherUnlocked_cases)
  case (saved ci ls)
  note f = found [OF inv saved(1)]
  have a: "ChannelID (withVoucher sv ci) \<noteq> []" and b: "Channel (withVoucher sv ci) \<noteq> Some reserved" using f by simp_all
  note s = saved_channel [OF inv uid saved(5) a b]
  show ?thesis using s saved by (cases err) auto
qed (use inv in auto)

lemma add_voucher_increasing:
  assumes inv: "invar (pchStore st)" and uid: "uuid_New api \<noteq> []"
    and add: "addVoucherUnlocked api repo st ch sv minDelta = (st', delta, err)"
    and all: "allChannels (view (pchStore st)) noncesIncreasing"
  shows "allChannels (view (pchStore st')) noncesIncreasing"
  using add_voucher_store [OF inv uid add]
proof (elim conjE disjE exE)
  fix ci ls assume ci: "pcGetChannelByAddress repo (pchStore st) ch = Inr ci"
    and ok: "checkVoucherValid api repo st ch sv = Inr ls"
    and view': "view (pchStore st') = (view (pchStore st))(ChannelID ci \<mapsto> withVoucher sv ci)"
  have "noncesIncreasing ci" using all found(1) [OF inv ci] by (auto simp: allChannels_def)
  moreover have "vnonce v < svNonce sv" if "v \<in> set (Vouchers ci)" "vlane v = svLane sv" for v
    using checkVoucherValid_new_nonce [OF ok ci that] .
  ultimately have "noncesIncreasing (withVoucher sv ci)" by (rule withVoucher_increasing)
  with all show ?thesis unfolding view' by (rule allChannels_upd)
qed (use all in simp)

lemma add_voucher_below:
  assumes inv: "invar (pchStore st)" and uid: "uuid_New api \<noteq> []"
    and add: "addVoucherUnlocked api repo st ch sv minDelta = (st', delta, err)"
    and all: "allChannels (view (pchStore st)) lanesBelow" and lane: "svLane sv \<noteq> -1"
  shows "allChannels (view (pchStore st')) lanesBelow"
  using add_voucher_store [OF inv uid add]
proof (elim conjE disjE exE)
  fix ci assume ci: "pcGetChannelByAddress repo (pchStore st) ch = Inr ci"
    and view': "view (pchStore st') = (view (pchStore st))(ChannelID ci \<mapsto> withVoucher sv ci)"
  have "lanesBelow ci" using all found(1) [OF inv ci] by (auto simp: allChannels_def)
  then have "lanesBelow (withVoucher sv ci)" using lane by (rule withVoucher_below)
  with all show ?thesis unfolding view' by (rule allChannels_upd)
qed (use all in simp)

lemma create_voucher_store:
  assumes inv: "invar (pchStore st)" and uid: "uuid_New api \<noteq> []"
    and create: "createVoucher api repo st ch voucher = (st', Inr res)"
  obtains (refused) "vcVoucher res = None" "st' = st \<or> view (pchStore st') = view (pchStore st)" "invar (pchStore st')"
  | (created) ci sv delta where "vcVoucher res = Some sv" "Shortfall res = 0"
      "pcGetChannelByAddress repo (pchStore st) ch = Inr ci"
      "svChannelAddr sv = ch" "svLane sv = svLane voucher" "svAmount sv = svAmount voucher"
      "svNonce sv = nextNonceForLane ci (svLane voucher)"
      "addVoucherUnlocked api repo st ch sv 0 = (st', delta, None)"
proof -
  obtain ci sig vb where ci: "pcGetChannelByAddress repo (pchStore st) ch = Inr ci"
    and vb: "SigningBytes api (voucher\<lparr>svChannelAddr := ch, svNonce := nextNonceForLane ci (svLane voucher)\<rparr>) = Inr vb"
    and sig: "WalletSign api (Control ci) vb = Inr sig"
    using create by (auto simp: createVoucher_def Let_def split: sum.splits)
  define sv where "sv = voucher\<lparr>svChannelAddr := ch, svNonce := nextNonceForLane ci (svLane voucher), svSignature := Some sig\<rparr>"
  obtain st1 delta err where add: "addVoucherUnlocked api repo st ch sv 0 = (st1, delta, err)"
    by (cases "addVoucherUnlocked api repo st ch sv 0")
  show thesis
  proof (cases err)
    case None
    with create ci vb sig add show thesis
      by (intro created [of sv ci delta]) (auto simp: createVoucher_def Let_def sv_def)
  next
    case (Some e)
    then have st': "st' = st1" "vcVoucher res = None"
      using create ci vb sig add by (auto simp: createVoucher_def Let_def sv_def split: option.splits)
    with add_voucher_store [OF inv uid add] Some show thesis by (intro refused) auto
  qed
qed

lemma allocate_lane_store:
  assumes inv: "invar (pchStore st)" and uid: "uuid_New api \<noteq> []"
    and alloc: "allocateLane api repo st ch = (st', lane, None)"
  shows "\<exists>ci. pcGetChannelByAddress repo (pchStore st) ch = Inr ci \<and> lane = NextLane ci \<and> invar (pchStore st') \<and>
    view (pchStore st') = (view (pchStore st))(ChannelID ci \<mapsto> ci\<lparr>NextLane := lane + 1\<rparr>)"
proof -
  obtain ci where ci: "pcGetChannelByAddress repo (pchStore st) ch = Inr ci" and lane: "lane = NextLane ci"
    and save: "saveChannelInfo api repo st (ci\<lparr>NextLane := lane + 1\<rparr>) = (st', None)"
    using alloc by (auto simp: allocateLane_def Let_def split: sum.splits prod.splits)
  have a: "ChannelID (ci\<lparr>NextLane := lane + 1\<rparr>) \<noteq> []" and b: "Channel (ci\<lparr>NextLane := lane + 1\<rparr>) \<noteq> Some reserved"
    using found [OF inv ci] by simp_all
  show ?thesis using saved_channel(2,5) [OF inv uid save a b] ci lane by auto
qed

lemma allocate_lane_below:
  assumes "invar (pchStore st)" and "uuid_New api \<noteq> []" and "allocateLane api repo st ch = (st', lane, None)"
    and all: "allChannels (view (pchStore st)) lanesBelow" and "lane \<noteq> -1"
  shows "allChannels (view (pchStore st')) lanesBelow"
proof -
  obtain ci where ci: "pcGetChannelByAddress repo (pchStore st) ch = Inr ci" "lane = NextLane ci"
    "view (pchStore st') = (view (pchStore st))(ChannelID ci \<mapsto> ci\<lparr>NextLane := lane + 1\<rparr>)"
    using allocate_lane_store [OF assms(1-3)] by blast
  have "lanesBelow ci" using all found(1) [OF assms(1) ci(1)] by (auto simp: allChannels_def)
  moreover have "lane < lane + 1" using assms(5) by (simp add: word_less_Suc_iff)
  ultimately have "lanesBelow (ci\<lparr>NextLane := lane + 1\<rparr>)" using ci(2) by (auto simp: lanesBelow_def intro: order.strict_trans)
  with all show ?thesis unfolding ci(3) by (rule allChannels_upd)
qed

lemma allocate_lane_twice:
  assumes "invar (pchStore st)" and "uuid_New api \<noteq> []" and "uuid_New api2 \<noteq> []" and unique: "uniqueAddress (view (pchStore st)) ch"
    and first: "allocateLane api repo st ch = (st1, lane1, None)" and second: "allocateLane api2 repo st1 ch = (st2, lane2, None)"
  shows "lane2 = lane1 + 1"
proof -
  obtain c1 where c1: "pcGetChannelByAddress repo (pchStore st) ch = Inr c1" "lane1 = NextLane c1" "invar (pchStore st1)"
    and v1: "view (pchStore st1) = (view (pchStore st))(ChannelID c1 \<mapsto> c1\<lparr>NextLane := lane1 + 1\<rparr>)"
    using allocate_lane_store [OF assms(1,2) first] by blast
  obtain c2 where c2: "pcGetChannelByAddress repo (pchStore st1) ch = Inr c2" "lane2 = NextLane c2"
    using allocate_lane_store [OF c1(3) assms(3) second] by blast
  note f1 = found [OF assms(1) c1(1)] and f2 = found [OF c1(3) c2(1)]
  have "ChannelID c2 = ChannelID c1"
  proof (rule ccontr)
    assume "ChannelID c2 \<noteq> ChannelID c1"
    then have "view (pchStore st) (ChannelID c2) = Some c2" using f2(1) by (simp add: v1)
    with unique f1(1,2) f2(2) \<open>ChannelID c2 \<noteq> ChannelID c1\<close> show False unfolding uniqueAddress_def by blast
  qed
  then show ?thesis using f2(1) c2(2) by (auto simp: v1)
qed

lemma settle_store:
  assumes inv: "invar (pchStore st)" and uid: "uuid_New api \<noteq> []" and settle: "settle api repo st ch = (st', res)"
  shows "view (pchStore st') = view (pchStore st) \<and> invar (pchStore st') \<or>
    invar (pchStore st') \<and> (\<exists>ci. pcGetChannelByAddress repo (pchStore st) ch = Inr ci \<and>
      view (pchStore st') = (view (pchStore st))(ChannelID ci \<mapsto> ci\<lparr>Settling := True\<rparr>))"
proof -
  consider "pchStore st' = pchStore st"
    | ci st1 where "pcGetChannelByAddress repo (pchStore st) ch = Inr ci" "pchStore st1 = pchStore st"
        "st' = fst (saveChannelInfo api repo st1 (ci\<lparr>Settling := True\<rparr>))"
    using settle by (auto simp: settle_def split: sum.splits prod.splits dest: pushMessage_store)
  then show ?thesis
  proof cases
    case 2
    obtain err where save: "saveChannelInfo api repo st1 (ci\<lparr>Settling := True\<rparr>) = (st', err)"
      using 2(3) by (metis prod.collapse)
    have inv1: "invar (pchStore st1)" using inv 2(2) by simp
    have a: "ChannelID (ci\<lparr>Settling := True\<rparr>) \<noteq> []" and b: "Channel (ci\<lparr>Settling := True\<rparr>) \<noteq> Some reserved"
      using found [OF inv 2(1)] by simp_all
    show ?thesis using saved_channel(2,4,5) [OF inv1 uid save a b] 2(1,2) by (cases err) auto
  qed (use inv in simp)
qed

end

text \<open>The operations on vouchers that check what they store (\<open>submitVoucher\<close> stores an unknown voucher
  unchecked and is left out), in any order and against any chain state.\<close>

inductive voucher_step :: "'r PaychRepo \<Rightarrow> 'r pch \<Rightarrow> 'r pch \<Rightarrow> bool" for repo where
  step_add: "addVoucher api repo st ch sv minDelta = (st', delta, err) \<Longrightarrow> uuid_New api \<noteq> [] \<Longrightarrow> voucher_step repo st st'"
| step_create: "createVoucher api repo st ch voucher = (st', res) \<Longrightarrow> uuid_New api \<noteq> [] \<Longrightarrow> voucher_step repo st st'"
| step_allocate: "allocateLane api repo st ch = (st', lane, err) \<Longrightarrow> uuid_New api \<noteq> [] \<Longrightarrow> voucher_step repo st st'"
| step_settle: "settle api repo st ch = (st', c) \<Longrightarrow> uuid_New api \<noteq> [] \<Longrightarrow> voucher_step repo st st'"
| step_collect: "collect api repo st ch = (st', c) \<Longrightarrow> voucher_step repo st st'"

lemma createVoucher_adds:
  assumes "createVoucher api repo st ch voucher = (st', res)"
  shows "st' = st \<or> (\<exists>sv delta err. addVoucherUnlocked api repo st ch sv 0 = (st', delta, err))"
  using assms by (auto simp: createVoucher_def Let_def split: sum.splits prod.splits option.splits)

lemma submitVoucherE:
  assumes "submitVoucher api repo st ch sv secret = (st1, Inr c)"
  obtains ci st0 ci0 ci2 where "pcGetChannelByAddress repo (pchStore st) ch = Inr ci" "pchStore st0 = pchStore st"
    "ChannelID ci0 = ChannelID ci" "Channel ci0 = Channel ci"
    "MarkVoucherSubmitted api ci0 sv = Inr ci2" "saveChannelInfo api repo st0 ci2 = (st1, None)"
proof -
  obtain ci has where ci: "pcGetChannelByAddress repo (pchStore st) ch = Inr ci" and has: "HasVoucher api ci sv = Inr has"
    using assms by (auto simp: submitVoucher_def split: sum.splits)
  obtain msg where msg: "tryE (messageBuilder api (Control ci)) (\<lambda>(ver, from). mbUpdate api ver from ch sv secret) = Inr msg"
    and sub: "(if has then WasVoucherSubmitted api ci sv else Inr False) = Inr False"
    using assms ci has by (auto simp: submitVoucher_def split: sum.splits bool.splits if_splits)
  obtain st0 msgId where push: "pushMessage api st msg = (st0, Inr msgId)"
    using assms ci has msg sub by (auto simp: submitVoucher_def split: sum.splits prod.splits)
  define ci0 where "ci0 = (if \<not> has then ci\<lparr>Vouchers := Vouchers ci @ [newVoucherInfo sv]\<rparr> else ci)"
  obtain ci2 where mk: "MarkVoucherSubmitted api ci0 sv = Inr ci2"
    using assms ci has msg sub push by (auto simp: submitVoucher_def ci0_def split: sum.splits)
  have "saveChannelInfo api repo st0 ci2 = (st1, None)"
    using assms ci has msg sub push mk
    by (auto simp: submitVoucher_def ci0_def Let_def split: prod.splits option.splits)
  with ci pushMessage_store [OF push] mk show thesis by (intro that [of ci st0 ci0 ci2]) (simp_all add: ci0_def)
qed

lemma collect_store: "collect api repo st ch = (st', c) \<Longrightarrow> pchStore st' = pchStore st"
  by (auto simp: collect_def pushMessage_def split: sum.splits)

context paych_repo
begin

lemma allocate_lane_channels:
  assumes inv: "invar (pchStore st)" and uid: "uuid_New api \<noteq> []" and alloc: "allocateLane api repo st ch = (st', lane, err)"
  shows "invar (pchStore st') \<and> (view (pchStore st') = view (pchStore st) \<or>
    (\<exists>ci. pcGetChannelByAddress repo (pchStore st) ch = Inr ci \<and>
      view (pchStore st') = (view (pchStore st))(ChannelID ci \<mapsto> ci\<lparr>NextLane := NextLane ci + 1\<rparr>)))"
proof (cases "pcGetChannelByAddress repo (pchStore st) ch")
  case (Inl e)
  with alloc inv show ?thesis by (simp add: allocateLane_def)
next
  case (Inr ci)
  then have save: "saveChannelInfo api repo st (ci\<lparr>NextLane := NextLane ci + 1\<rparr>) = (st', err)"
    using alloc by (auto simp: allocateLane_def Let_def split: prod.splits)
  have a: "ChannelID (ci\<lparr>NextLane := NextLane ci + 1\<rparr>) \<noteq> []" and b: "Channel (ci\<lparr>NextLane := NextLane ci + 1\<rparr>) \<noteq> Some reserved"
    using found [OF inv Inr] by simp_all
  show ?thesis using saved_channel(2,4,5) [OF inv uid save a b] Inr by (cases err) auto
qed

lemma voucher_step_increasing:
  assumes "voucher_step repo st st'" and "invar (pchStore st)" and "allChannels (view (pchStore st)) noncesIncreasing"
  shows "invar (pchStore st') \<and> allChannels (view (pchStore st')) noncesIncreasing"
  using assms
proof (cases rule: voucher_step.cases)
  case (step_add api ch sv minDelta delta err)
  then show ?thesis
    using assms(2,3) add_voucher_store add_voucher_increasing unfolding addVoucher_def by blast
next
  case (step_create api ch voucher res)
  then show ?thesis
    using assms(2,3) createVoucher_adds [OF step_create(1)] add_voucher_store add_voucher_increasing by blast
next
  case (step_allocate api ch lane err)
  from allocate_lane_channels [OF assms(2) step_allocate(2,1)] show ?thesis
    using assms(3) found(1) [OF assms(2)] by (auto intro!: allChannels_upd) (auto simp: allChannels_def)
next
  case (step_settle api ch c)
  from settle_store [OF assms(2) step_settle(2,1)] show ?thesis
    using assms(3) found(1) [OF assms(2)] by (auto intro!: allChannels_upd) (auto simp: allChannels_def)
next
  case (step_collect api ch c)
  with assms show ?thesis by (simp add: collect_store)
qed

lemma voucher_steps_increasing:
  assumes "(voucher_step repo)\<^sup>*\<^sup>* st st'" and "invar (pchStore st)" and "allChannels (view (pchStore st)) noncesIncreasing"
  shows "invar (pchStore st') \<and> allChannels (view (pchStore st')) noncesIncreasing"
  using assms by (induction rule: rtranclp_induct) (use voucher_step_increasing in blast)+

lemma submit_twice:
  assumes inv: "invar (pchStore st)" and uid: "uuid_New api \<noteq> []" and unique: "uniqueAddress (view (pchStore st)) ch"
    and mark: "\<And>ci ci'. MarkVoucherSubmitted api ci sv = Inr ci' \<Longrightarrow> HasVoucher api ci' sv = Inr True \<and>
      WasVoucherSubmitted api ci' sv = Inr True \<and> ChannelID ci' = ChannelID ci \<and> Channel ci' = Channel ci"
    and first: "submitVoucher api repo st ch sv secret = (st1, Inr c)"
    and same: "HasVoucher api2 = HasVoucher api" "WasVoucherSubmitted api2 = WasVoucherSubmitted api"
    and ci1: "pcGetChannelByAddress repo (pchStore st1) ch = Inr ci1"
  shows "submitVoucher api2 repo st1 ch sv secret2 = (st1, Inl (ErrMsg ''cannot submit voucher that has already been submitted''))"
proof -
  obtain ci st0 ci0 ci2 where ci: "pcGetChannelByAddress repo (pchStore st) ch = Inr ci" and st0: "pchStore st0 = pchStore st"
    and ci0: "ChannelID ci0 = ChannelID ci" "Channel ci0 = Channel ci"
    and mk: "MarkVoucherSubmitted api ci0 sv = Inr ci2" and save: "saveChannelInfo api repo st0 ci2 = (st1, None)"
    using first by (rule submitVoucherE)
  note ci2 = mark [OF mk]
  have inv0: "invar (pchStore st0)" using inv st0 by simp
  note f = found [OF inv ci]
  have a: "ChannelID ci2 \<noteq> []" and b: "Channel ci2 \<noteq> Some reserved" using f ci2 ci0 by simp_all
  have v1: "view (pchStore st1) = (view (pchStore st))(ChannelID ci \<mapsto> ci2)" and inv1: "invar (pchStore st1)"
    using saved_channel(2,5) [OF inv0 uid save a b] ci2 ci0 st0 by simp_all
  note f1 = found [OF inv1 ci1]
  have "ChannelID ci1 = ChannelID ci"
  proof (rule ccontr)
    assume ne: "ChannelID ci1 \<noteq> ChannelID ci"
    then have "view (pchStore st) (ChannelID ci1) = Some ci1" using f1(1) by (simp add: v1)
    with unique f(1,2) f1(2) ne show False unfolding uniqueAddress_def by blast
  qed
  then have "ci1 = ci2" using f1(1) by (simp add: v1)
  with ci1 ci2 same show ?thesis by (simp add: submitVoucher_def)
qed

end

section \<open>Properties of the badger-backed channel accessor\<close>

text \<open>
  Property C16. Adding a voucher to a channel kept in the badger store: on an error nothing is stored;
  a voucher that was added before changes nothing and yields the delta zero; otherwise the voucher
  passed the check, the delta is its amount over what the lane has redeemed and at least the
  demanded one, and exactly the found channel changes, by the appended voucher and a lane counter
  raised above the voucher's lane. No message is sent.
\<close>

theorem addVoucher_effect:
  assumes "badger_paych ds contents pc" and "paych_invar contents pc (pchStore st)" and "uuid_New api \<noteq> []"
    and "addVoucher api (NewPaychRepo ds pc) st ch sv minDelta = (st', delta, err)"
  shows "pchSent st' = pchSent st \<and> paych_invar contents pc (pchStore st') \<and>
    (paych_view contents pc (pchStore st') = paych_view contents pc (pchStore st) \<and>
       (err = None \<longrightarrow> delta = 0 \<and> (\<exists>ci. GetChannelByAddress ds pc (pchStore st) ch = Inr ci \<and>
          voucherAdded api sv (Vouchers ci) = Inr True)) \<or>
     err = None \<and> minDelta \<le> delta \<and> (\<exists>ci ls. GetChannelByAddress ds pc (pchStore st) ch = Inr ci \<and>
       checkVoucherValid api (NewPaychRepo ds pc) st ch sv = Inr ls \<and>
       delta = svAmount sv - (case map_of ls (svLane sv) of None \<Rightarrow> 0 | Some l \<Rightarrow> redeemedOf l) \<and>
       paych_view contents pc (pchStore st') =
         (paych_view contents pc (pchStore st))(ChannelID ci \<mapsto> withVoucher sv ci)))"
  using paych_repo.add_voucher_store [OF badger_paych.paych_repo_laws [OF assms(1)] assms(2,3) assms(4) [unfolded addVoucher_def]]
  by simp

lemma demo_next_differs: "demo_next \<noteq> demo_voucher"
  by (simp add: demo_next_def demo_voucher_def)

lemma demo_save: "saveChannelInfo demo_paych demo_repo demo_pch ci =
    (\<lparr>pchStore = [(dskeyForChannel ''id'', ChannelValue ci)], pchSent = []\<rparr>, None)"
  if "ChannelID ci = ''id''" "Channel ci = Some ''ch''"
  using that
  by (simp add: saveChannelInfo_def SaveChannel_def marshallChannelInfo_def withID_def mem_paych_codec_def demo_pch_def)

lemma demo_add: "addVoucherUnlocked demo_paych demo_repo demo_pch ''ch'' demo_next d =
    (\<lparr>pchStore = [(dskeyForChannel ''id'', ChannelValue (withVoucher demo_next demo_channel))], pchSent = []\<rparr>, 4, None)"
  if "d \<le> 4"
proof -
  have "demo_channel\<lparr>Vouchers := [newVoucherInfo demo_voucher, newVoucherInfo demo_next]\<rparr> = withVoucher demo_next demo_channel"
    by (simp add: withVoucher_def demo_channel_def)
  moreover have "NextLane (withVoucher demo_next demo_channel) = 1" by (simp add: withVoucher_def)
  ultimately show ?thesis
    using that demo_check demo_next_differs
    by (simp add: addVoucherUnlocked_def checkVoucherValid_def voucherLaneState_def demo_save newVoucherInfo_def Let_def)
qed

theorem addVoucher_effect_witness:
  "\<exists>st'. addVoucher demo_paych demo_repo demo_pch ''ch'' demo_next 1 = (st', 4, None) \<and>
    paych_view map_of mem_paych_codec (pchStore st') = [''id'' \<mapsto> withVoucher demo_next demo_channel]"
proof -
  obtain st' where add: "addVoucher demo_paych demo_repo demo_pch ''ch'' demo_next 1 = (st', 4, None)"
    using demo_add by (simp add: addVoucher_def)
  have "voucherAdded demo_paych demo_next (Vouchers demo_channel) = Inr False" using demo_next_differs by simp
  then show ?thesis
    using addVoucher_effect [OF mempaych.badger_paych_axioms _ _ add] add by auto
qed



text \<open>A created voucher is for the channel, the lane and the amount asked for, has the next
  nonce of the lane and is stored (or was stored before); when the result carries no voucher, the
  stored channels are unchanged.
\<close>

theorem createVoucher_stores:
  assumes "badger_paych ds contents pc" and "paych_invar contents pc (pchStore st)" and "uuid_New api \<noteq> []"
    and "createVoucher api (NewPaychRepo ds pc) st ch voucher = (st', Inr res)"
  shows "case vcVoucher res of
      None \<Rightarrow> paych_view contents pc (pchStore st') = paych_view contents pc (pchStore st)
    | Some sv \<Rightarrow> \<exists>ci. GetChannelByAddress ds pc (pchStore st) ch = Inr ci \<and> svChannelAddr sv = ch \<and>
        svLane sv = svLane voucher \<and> svAmount sv = svAmount voucher \<and> svNonce sv = nextNonceForLane ci (svLane voucher) \<and>
        (voucherAdded api sv (Vouchers ci) = Inr True \<or>
         paych_view contents pc (pchStore st') = (paych_view contents pc (pchStore st))(ChannelID ci \<mapsto> withVoucher sv ci))"
proof (rule paych_repo.create_voucher_store [OF badger_paych.paych_repo_laws [OF assms(1)] assms(2-4)])
  assume "vcVoucher res = None" and "st' = st \<or> paych_view contents pc (pchStore st') = paych_view contents pc (pchStore st)"
  then show ?thesis by auto
next
  fix ci sv delta
  assume new: "vcVoucher res = Some sv" "pcGetChannelByAddress (NewPaychRepo ds pc) (pchStore st) ch = Inr ci"
    "svChannelAddr sv = ch" "svLane sv = svLane voucher" "svAmount sv = svAmount voucher"
    "svNonce sv = nextNonceForLane ci (svLane voucher)"
    and add: "addVoucherUnlocked api (NewPaychRepo ds pc) st ch sv 0 = (st', delta, None)"
  from paych_repo.add_voucher_store [OF badger_paych.paych_repo_laws [OF assms(1)] assms(2,3) add] new
  show ?thesis by auto
qed

theorem createVoucher_stores_witness:
  "\<exists>st' res sv. createVoucher demo_paych demo_repo demo_pch ''ch'' demo_next = (st', Inr res) \<and> vcVoucher res = Some sv \<and>
    svNonce sv = nextNonceForLane demo_channel (svLane demo_next)"
proof -
  have "nextNonceForLane demo_channel (svLane demo_next) = 2"
    by (simp add: nextNonceForLane_def demo_channel_def demo_next_def demo_voucher_def)
  then have "demo_next\<lparr>svChannelAddr := ''ch'', svNonce := nextNonceForLane demo_channel (svLane demo_next),
      svSignature := Some ''sig''\<rparr> = demo_next"
    by (simp add: demo_next_def demo_voucher_def)
  moreover obtain st' delta where "addVoucherUnlocked demo_paych demo_repo demo_pch ''ch'' demo_next 0 = (st', delta, None)"
    using demo_add [of 0] by simp
  ultimately have create: "createVoucher demo_paych demo_repo demo_pch ''ch'' demo_next =
      (st', Inr \<lparr>vcVoucher = Some demo_next, Shortfall = 0\<rparr>)"
    by (simp add: createVoucher_def Let_def)
  from createVoucher_stores [OF mempaych.badger_paych_axioms _ _ create] create show ?thesis by auto
qed

text \<open>
  Two lanes allocated one after the other on a channel are consecutive, the first one is
  above the lane of every stored voucher, and, unless the 64-bit counter wraps around, the lane
  counter of every channel stays above the lanes in use.
\<close>

theorem allocateLane_consecutive:
  assumes laws: "badger_paych ds contents pc" and inv: "paych_invar contents pc (pchStore st)"
    and uid: "uuid_New api \<noteq> []" "uuid_New api2 \<noteq> []"
    and unique: "uniqueAddress (paych_view contents pc (pchStore st)) ch"
    and below: "allChannels (paych_view contents pc (pchStore st)) lanesBelow"
    and first: "allocateLane api (NewPaychRepo ds pc) st ch = (st1, lane1, None)"
    and second: "allocateLane api2 (NewPaychRepo ds pc) st1 ch = (st2, lane2, None)"
  shows "lane2 = lane1 + 1 \<and>
    (\<forall>ci. GetChannelByAddress ds pc (pchStore st) ch = Inr ci \<longrightarrow> (\<forall>v\<in>set (Vouchers ci). vlane v < lane1)) \<and>
    (lane1 \<noteq> -1 \<longrightarrow> allChannels (paych_view contents pc (pchStore st1)) lanesBelow)"
proof -
  note R = badger_paych.paych_repo_laws [OF laws]
  obtain ci where ci: "GetChannelByAddress ds pc (pchStore st) ch = Inr ci" "lane1 = NextLane ci"
    using paych_repo.allocate_lane_store [OF R inv uid(1) first] by auto
  have "paych_view contents pc (pchStore st) (ChannelID ci) = Some ci"
    using paych_repo.found(1) [OF R inv] ci(1) by simp
  then have "lanesBelow ci" using below by (auto simp: allChannels_def)
  then show ?thesis
    using paych_repo.allocate_lane_twice [OF R inv uid unique first second]
      paych_repo.allocate_lane_below [OF R inv uid(1) first below] ci
    by (auto simp: lanesBelow_def)
qed

theorem allocateLane_consecutive_witness:
  "\<exists>st1 st2. allocateLane demo_paych demo_repo demo_pch ''ch'' = (st1, 1, None) \<and>
    allocateLane demo_paych demo_repo st1 ''ch'' = (st2, 1 + 1, None)"
proof -
  define ci where "ci = demo_channel\<lparr>NextLane := 2\<rparr>"
  define st1 where "st1 = \<lparr>pchStore = [(dskeyForChannel ''id'', ChannelValue ci)], pchSent = []\<rparr>"
  have ci: "ChannelID ci = ''id''" "Channel ci = Some ''ch''" "NextLane ci = 2" by (simp_all add: ci_def)
  have first: "allocateLane demo_paych demo_repo demo_pch ''ch'' = (st1, 1, None)"
    by (simp add: allocateLane_def demo_save st1_def ci_def)
  have "GetChannelByAddress map_datastore mem_paych_codec (pchStore st1) ''ch'' = Inr ci"
    by (simp add: st1_def GetChannelByAddress_def findChan_def findChans_def unmarshallChannelInfo_def mem_paych_codec_def
        dskeyForChannel_def dsKeyChannelInfo_def ci)
  then obtain st2 lane2 where second: "allocateLane demo_paych demo_repo st1 ''ch'' = (st2, lane2, None)"
    by (simp add: allocateLane_def saveChannelInfo_def SaveChannel_def marshallChannelInfo_def withID_def ci mem_paych_codec_def Let_def)
  have unique: "uniqueAddress (paych_view map_of mem_paych_codec (pchStore demo_pch)) ''ch''"
    and below: "allChannels (paych_view map_of mem_paych_codec (pchStore demo_pch)) lanesBelow"
    by (simp_all add: uniqueAddress_def allChannels_def lanesBelow_def)
  from allocateLane_consecutive [OF mempaych.badger_paych_axioms demo_store(2) demo_store(3) demo_store(3) unique below first second]
  show ?thesis using first second by auto
qed

text \<open>A voucher is submitted once: after a successful submission, provided that marking a
  voucher makes \<open>HasVoucher\<close> and \<open>WasVoucherSubmitted\<close> true for it and keeps the channel's identity,
  a second submission finds it submitted, fails, and changes neither the store nor the messages.
\<close>

theorem submitVoucher_once:
  assumes "badger_paych ds contents pc" and "paych_invar contents pc (pchStore st)" and "uuid_New api \<noteq> []"
    and "uniqueAddress (paych_view contents pc (pchStore st)) ch"
    and "\<And>ci ci'. MarkVoucherSubmitted api ci sv = Inr ci' \<Longrightarrow> HasVoucher api ci' sv = Inr True \<and>
      WasVoucherSubmitted api ci' sv = Inr True \<and> ChannelID ci' = ChannelID ci \<and> Channel ci' = Channel ci"
    and "submitVoucher api (NewPaychRepo ds pc) st ch sv secret = (st1, Inr c)"
    and "HasVoucher api2 = HasVoucher api" and "WasVoucherSubmitted api2 = WasVoucherSubmitted api"
    and "GetChannelByAddress ds pc (pchStore st1) ch = Inr ci1"
  shows "submitVoucher api2 (NewPaychRepo ds pc) st1 ch sv secret2 =
    (st1, Inl (ErrMsg ''cannot submit voucher that has already been submitted''))"
proof -
  have "pcGetChannelByAddress (NewPaychRepo ds pc) (pchStore st1) ch = Inr ci1" using assms(9) by simp
  with badger_paych.paych_repo_laws [OF assms(1)] assms(2-8) show ?thesis by (rule paych_repo.submit_twice)
qed

lemma marked_submitted:
  "list_ex (\<lambda>v. Voucher v = sv) vs \<Longrightarrow>
    list_ex (\<lambda>v. Voucher v = sv \<and> Submitted v) (map (\<lambda>v. if Voucher v = sv then v\<lparr>Submitted := True\<rparr> else v) vs)"
  "list_ex (\<lambda>v. Voucher v = sv) (map (\<lambda>v. if Voucher v = sv then v\<lparr>Submitted := True\<rparr> else v) vs) =
    list_ex (\<lambda>v. Voucher v = sv) vs"
  by (induction vs) auto

theorem submitVoucher_once_witness:
  "\<exists>st1. submitVoucher demo_paych demo_repo demo_pch ''ch'' demo_voucher [] = (st1, Inr ''cid'') \<and>
    submitVoucher demo_paych demo_repo st1 ''ch'' demo_voucher [] =
      (st1, Inl (ErrMsg ''cannot submit voucher that has already been submitted''))"
proof -
  define ci where "ci = demo_channel\<lparr>Vouchers := [\<lparr>Voucher = demo_voucher, Proof = [], Submitted = True\<rparr>]\<rparr>"
  define st1 where "st1 = \<lparr>pchStore = [(dskeyForChannel ''id'', ChannelValue ci)], pchSent = [demo_message]\<rparr>"
  have ci: "ChannelID ci = ''id''" "Channel ci = Some ''ch''" by (simp_all add: ci_def)
  have has: "HasVoucher demo_paych demo_channel demo_voucher = Inr True"
      "WasVoucherSubmitted demo_paych demo_channel demo_voucher = Inr False"
      "MarkVoucherSubmitted demo_paych demo_channel demo_voucher = Inr ci"
      "tryE (messageBuilder demo_paych a) (\<lambda>(ver, from). mbUpdate demo_paych ver from ''ch'' demo_voucher []) = Inr demo_message"
      "pushMessage demo_paych demo_pch demo_message = (demo_pch\<lparr>pchSent := [demo_message]\<rparr>, Inr ''cid'')" for a
    by (simp_all add: messageBuilder_def pushMessage_def ci_def newVoucherInfo_def) (simp_all add: demo_paych_def demo_pch_def newVoucherInfo_def)
  have "saveChannelInfo demo_paych demo_repo (demo_pch\<lparr>pchSent := [demo_message]\<rparr>) ci = (st1, None)"
    by (simp add: saveChannelInfo_def SaveChannel_def marshallChannelInfo_def withID_def mem_paych_codec_def demo_pch_def ci st1_def)
  with has have first: "submitVoucher demo_paych demo_repo demo_pch ''ch'' demo_voucher [] = (st1, Inr ''cid'')"
    by (simp add: submitVoucher_def)
  have found: "GetChannelByAddress map_datastore mem_paych_codec (pchStore st1) ''ch'' = Inr ci"
    by (simp add: st1_def GetChannelByAddress_def findChan_def findChans_def unmarshallChannelInfo_def mem_paych_codec_def
        dskeyForChannel_def dsKeyChannelInfo_def ci)
  have unique: "uniqueAddress (paych_view map_of mem_paych_codec (pchStore demo_pch)) ''ch''" by (simp add: uniqueAddress_def)
  have mark: "HasVoucher demo_paych c' demo_voucher = Inr True \<and> WasVoucherSubmitted demo_paych c' demo_voucher = Inr True \<and>
      ChannelID c' = ChannelID c \<and> Channel c' = Channel c" if "MarkVoucherSubmitted demo_paych c demo_voucher = Inr c'" for c c'
    using that by (auto simp: demo_paych_def marked_submitted split: if_splits)
  from submitVoucher_once [OF mempaych.badger_paych_axioms demo_store(2,3) unique mark first refl refl found] first
  show ?thesis by blast
qed

section \<open>The best spendable voucher\<close>

definition bestOf :: "(SignedVoucher \<Rightarrow> bool res) \<Rightarrow> SignedVoucher list \<Rightarrow> (u64 \<rightharpoonup> SignedVoucher) \<Rightarrow> bool" where
  "bestOf check vs best \<longleftrightarrow> (\<forall>lane v. best lane = Some v \<longrightarrow> v \<in> set vs \<and> check v = Inr True \<and> svLane v = lane) \<and>
     (\<forall>v\<in>set vs. check v = Inr True \<longrightarrow> (\<exists>b. best (svLane v) = Some b \<and> svAmount v \<le> svAmount b))"

lemma bestSpendableLoop_best:
  "bestSpendableLoop check best vs = Inr r \<Longrightarrow> bestOf check us best \<Longrightarrow> bestOf check (us @ vs) r"
proof (induction vs arbitrary: best us)
  case (Cons v vs)
  obtain b where b: "check v = Inr b" using Cons.prems(1) by (auto simp: tryE_Inr_iff)
  define best1 where "best1 = (if b \<and> (case best (svLane v) of None \<Rightarrow> True | Some w \<Rightarrow> svAmount v > svAmount w)
    then best(svLane v \<mapsto> v) else best)"
  have rest: "bestSpendableLoop check best1 vs = Inr r" using Cons.prems(1) b by (cases b) (simp_all add: best1_def)
  have "bestOf check (us @ [v]) best1"
  proof (cases b)
    case False
    with Cons.prems(2) b show ?thesis by (auto simp: bestOf_def best1_def)
  next
    case True
    show ?thesis
    proof (cases "best (svLane v)")
      case None
      with Cons.prems(2) b True show ?thesis by (fastforce simp: bestOf_def best1_def)
    next
      case (Some w)
      with Cons.prems(2) b True show ?thesis
        unfolding bestOf_def best1_def by (auto split: if_splits)
    qed
  qed
  from Cons.IH [OF rest this] show ?case by simp
qed simp

text \<open>\<open>BestSpendableByLane\<close> returns for every lane a spendable voucher of that lane with the
  largest amount among the spendable ones, and no voucher exactly for lanes that have none.
\<close>

theorem BestSpendableByLane_best:
  assumes "BestSpendableByLane (Inr vs) check = Inr best"
  shows "bestOf check vs best"
  using bestSpendableLoop_best [of check Map.empty vs best "[]"] assms by (simp add: BestSpendableByLane_def bestOf_def)

theorem BestSpendableByLane_best_witness:
  "\<exists>best. BestSpendableByLane (Inr [demo_voucher, demo_next]) (\<lambda>_. Inr True) = Inr best \<and>
    bestOf (\<lambda>_. Inr True) [demo_voucher, demo_next] best \<and> best 0 = Some demo_next"
proof -
  have run: "BestSpendableByLane (Inr [demo_voucher, demo_next]) (\<lambda>_. Inr True) = Inr [0 \<mapsto> demo_next]"
    by (simp add: BestSpendableByLane_def)
  from BestSpendableByLane_best [OF run] run show ?thesis by auto
qed

end
