(* ===== verification/Paych_Funds_Props.thy ===== *)
theory Paych_Funds_Props
  imports Paych_Funds Paych_Voucher_Props
begin

text \<open>
  Correctness of channel funding: the in-place queue filter, merging (all queued requests are
  answered together or none is), one message per processed queue, the bookkeeping of pending and
  confirmed amounts, and the invariant of stored channels that excludes the nil dereferences.
\<close>

section \<open>The queue filter\<close>

lemma filterQueueLoop_invariant:
  "i \<le> j \<Longrightarrow> j \<le> length q \<Longrightarrow> length q = length queue \<Longrightarrow>
    take i q = map Some (filter (isActive h) (take j queue)) \<Longrightarrow> drop j q = map Some (drop j queue) \<Longrightarrow>
    filterQueueLoop h j i q = (q', i') \<Longrightarrow>
    take i' q' = map Some (filter (isActive h) queue) \<and> i' \<le> length q'"
proof (induction h j i q rule: filterQueueLoop.induct)
  case (1 h j i q)
  show ?case
  proof (cases "j < length q")
    case False
    then have "q' = q" "i' = i" using "1.prems"(6) by (simp_all add: filterQueueLoop.simps [of h j])
    with False "1.prems"(1-5) show ?thesis by simp
  next
    case True
    have dj: "drop j q = q ! j # drop (Suc j) q" "drop j queue = queue ! j # drop (Suc j) queue"
      using True "1.prems"(3) by (simp_all add: Cons_nth_drop_Suc)
    with "1.prems"(5) have qj: "q ! j = Some (queue ! j)" and rest: "drop (Suc j) q = map Some (drop (Suc j) queue)" by simp_all
    have tj: "take (Suc j) queue = take j queue @ [queue ! j]" using True "1.prems"(3) by (simp add: take_Suc_conv_app_nth)
    show ?thesis
    proof (cases "isActive h (queue ! j)")
      case act: True
      let ?q = "q[i := Some (queue ! j)]"
      have "take (Suc i) ?q = map Some (filter (isActive h) (take (Suc j) queue))"
        using "1.prems"(1,4) True act by (simp add: take_Suc_conv_app_nth tj)
      moreover have "drop (Suc j) ?q = map Some (drop (Suc j) queue)" using rest "1.prems"(1) by simp
      moreover have "filterQueueLoop h (Suc j) (Suc i) ?q = (q', i')"
        using "1.prems"(6) True qj act by (simp add: filterQueueLoop.simps [of h j])
      ultimately show ?thesis using "1.IH"(2) [OF True qj act] "1.prems"(1-3) True by simp
    next
      case idle: False
      have "take i q = map Some (filter (isActive h) (take (Suc j) queue))" using "1.prems"(4) idle by (simp add: tj)
      moreover have "filterQueueLoop h (Suc j) i q = (q', i')"
        using "1.prems"(6) True qj idle by (simp add: filterQueueLoop.simps [of h j])
      ultimately show ?thesis using "1.IH"(3) [OF True qj idle] "1.prems"(1-3) True rest by simp
    qed
  qed
qed

text \<open>The in-place compaction of the request queue (which reads and writes the same slice,
  clears one slot and cuts it) leaves exactly the active requests, in their order.
\<close>

theorem filterQueue_filter: "filterQueue h queue = filter (isActive h) queue"
proof (cases "queue = []")
  case False
  obtain q i where loop: "filterQueueLoop h 0 0 (map Some queue) = (q, i)" by fastforce
  have "take i q = map Some (filter (isActive h) queue) \<and> i \<le> length q"
    by (rule filterQueueLoop_invariant [OF _ _ _ _ _ loop]) simp_all
  moreover have "take i (if i < length q then q[i := None] else q) = take i q" by simp
  ultimately show ?thesis using False loop by (simp add: filterQueue_def comp_def)
qed (simp add: filterQueue_def)

section \<open>Merging\<close>

abbreviation activeSum :: "freqs \<Rightarrow> nat list \<Rightarrow> int" where
  "activeSum h rs \<equiv> sum_list (map (\<lambda>r. freq_amt (h r)) rs)"

lemma setMergeParents:
  "freq_err (foldl (\<lambda>h r. setMergeParent h r m) h rs p) = freq_err (h p) \<and>
   freq_amt (foldl (\<lambda>h r. setMergeParent h r m) h rs p) = freq_amt (h p) \<and>
   freq_promise (foldl (\<lambda>h r. setMergeParent h r m) h rs p) = freq_promise (h p)"
  by (induction rs arbitrary: h) (auto simp: setMergeParent_def)

lemma mergedSum_active: "\<forall>r\<in>set (mrg_reqs m). isActive h r \<Longrightarrow> mergedSum h m = activeSum h (mrg_reqs m)"
proof -
  have "\<forall>r\<in>set rs. isActive h r \<Longrightarrow> foldl (\<lambda>s r. if isActive h r then s + freq_amt (h r) else s) s rs = s + activeSum h rs"
    for s rs by (induction rs arbitrary: s) auto
  then show "\<forall>r\<in>set (mrg_reqs m). isActive h r \<Longrightarrow> ?thesis" by (simp add: mergedSum_def)
qed

lemma mergedOnComplete_results:
  "freq_promise (mergedOnComplete h m res p) =
     (if p \<in> set (mrg_reqs m) \<and> isActive h p then Some res else freq_promise (h p)) \<and>
   freq_err (mergedOnComplete h m res p) = freq_err (h p)"
proof -
  have "freq_promise (foldl (\<lambda>h r. if isActive h r then onComplete h r res else h) h rs p) =
      (if p \<in> set rs \<and> isActive h p then Some res else freq_promise (h p)) \<and>
    freq_err (foldl (\<lambda>h r. if isActive h r then onComplete h r res else h) h rs p) = freq_err (h p)" for rs
  proof (induction rs arbitrary: h)
    case (Cons r rs)
    let ?h = "if isActive h r then onComplete h r res else h"
    have "isActive ?h p = isActive h p" by (simp add: isActive_def onComplete_def)
    with Cons [of ?h] show ?case by (auto simp: isActive_def onComplete_def)
  qed simp
  then show ?thesis by (simp add: mergedOnComplete_def)
qed

lemma newMerged:
  assumes "newMergedFundsReq rs ca = (m, ca1)"
  shows "mrg_reqs (ca_merges ca1 m) = rs" and "fundsReqQueue ca1 = fundsReqQueue ca" and "ca_waits ca1 = ca_waits ca"
    and "ca_from ca1 = ca_from ca" and "ca_to ca1 = ca_to ca"
    and "freq_err (ca_reqs ca1 p) = freq_err (ca_reqs ca p)" and "freq_amt (ca_reqs ca1 p) = freq_amt (ca_reqs ca p)"
    and "freq_promise (ca_reqs ca1 p) = freq_promise (ca_reqs ca p)"
  using assms setMergeParents by (auto simp: newMergedFundsReq_def Let_def checkActive_def)

section \<open>Tasks\<close>

text \<open>What a task changes: nothing while it waits; otherwise at most one message, one new wait and the
  store; the requests, merges and the queue are untouched.\<close>

lemma createPaych_frame:
  assumes "createPaych api repo m amt ca st = (res, ca', st')"
  shows "fundsReqQueue ca' = fundsReqQueue ca \<and> ca_reqs ca' = ca_reqs ca \<and> ca_merges ca' = ca_merges ca \<and>
    (case res of Inl e \<Rightarrow> ca' = ca \<and> length (pchSent st') \<le> Suc (length (pchSent st))
     | Inr c \<Rightarrow> (\<exists>msg i. pchSent st' = pchSent st @ [msg] \<and> ca_waits ca' = ca_waits ca @ [WaitCreate (Some m) i c]))"
  using assms by (auto simp: createPaych_def pushMessage_def split: sum.splits prod.splits)

lemma mutateChannelInfo_sent [simp]: "pchSent (mutateChannelInfo api repo st i f) = pchSent st"
  by (auto simp: mutateChannelInfo_def saveChannelInfo_def split: sum.splits prod.splits)

lemma addFunds_frame:
  assumes "addFunds api repo m ci amt ca st = Ret (res, ca', st')"
  shows "fundsReqQueue ca' = fundsReqQueue ca \<and> ca_reqs ca' = ca_reqs ca \<and> ca_merges ca' = ca_merges ca \<and>
    (case res of Inl e \<Rightarrow> ca' = ca \<and> st' = st
     | Inr c \<Rightarrow> pchSent st' = pchSent st @ [\<lparr>msgTo = the (Channel ci), msgFrom = Control ci, msgValue = amt,
         msgMethod = 0, msgParams = []\<rparr>] \<and> ca_waits ca' = ca_waits ca @ [WaitAddFunds (Some m) (ChannelID ci) c])"
  using assms by (auto simp: addFunds_def pushMessage_def Let_def split: sum.splits prod.splits option.splits)

lemma processTask_frame:
  assumes "processTask api repo m amt ca st = Ret (res, ca', st')"
  shows "fundsReqQueue ca' = fundsReqQueue ca \<and> ca_reqs ca' = ca_reqs ca \<and> ca_merges ca' = ca_merges ca \<and>
    (case res of None \<Rightarrow> ca' = ca \<and> st' = st
     | Some r \<Rightarrow> (fres_err r = None \<longrightarrow> (\<exists>msg w. pchSent st' = pchSent st @ [msg] \<and> ca_waits ca' = ca_waits ca @ [w])))"
  using assms
  by (auto simp: processTask_def fundsErr_def split: sum.splits prod.splits outcome.splits if_splits
      dest!: createPaych_frame addFunds_frame)

text \<open>Processing the funding queue answers all active requests or none: either the queue is
  kept (cancelled requests removed), nobody is answered, nothing is sent and nothing stored; or the
  queue is emptied and every active request gets the same result, and if that result is a success
  exactly one message was sent and one wait for it was started.
\<close>

theorem processQueue_all_or_nothing:
  assumes run: "processQueue api repo fromTo channelID ca st = Ret (funds, ca', st')"
  shows "(fundsReqQueue ca' = filter (isActive (ca_reqs ca)) (fundsReqQueue ca) \<and>
       (\<forall>r. freq_promise (ca_reqs ca' r) = freq_promise (ca_reqs ca r)) \<and> st' = st \<and> ca_waits ca' = ca_waits ca) \<or>
     (fundsReqQueue ca' = [] \<and> (\<exists>res. (\<forall>r. freq_promise (ca_reqs ca' r) =
         (if r \<in> set (fundsReqQueue ca) \<and> isActive (ca_reqs ca) r then Some res else freq_promise (ca_reqs ca r))) \<and>
       (fres_err res = None \<longrightarrow> (\<exists>msg w. pchSent st' = pchSent st @ [msg] \<and> ca_waits ca' = ca_waits ca @ [w]))))"
proof -
  define q where "q = filter (isActive (ca_reqs ca)) (fundsReqQueue ca)"
  define ca0 where "ca0 = ca\<lparr>fundsReqQueue := q\<rparr>"
  obtain m ca1 where mrg: "newMergedFundsReq q ca0 = (m, ca1)" by fastforce
  note n = newMerged [OF mrg]
  have act: "isActive (ca_reqs ca1) r = isActive (ca_reqs ca) r" for r by (simp add: isActive_def n ca0_def)
  consider "q = [] \<or> q \<noteq> [] \<and> mergedSum (ca_reqs ca1) (ca_merges ca1 m) = 0"
    | res ca2 where "q \<noteq> []" "processTask api repo m (mergedSum (ca_reqs ca1) (ca_merges ca1 m)) ca1 st = Ret (res, ca2, st')"
      "ca' = (case res of None \<Rightarrow> ca2 | Some r \<Rightarrow> ca2\<lparr>fundsReqQueue := [], ca_reqs := mergedOnComplete (ca_reqs ca2) (ca_merges ca2 m) r\<rparr>)"
    using run mrg
    by (cases "q = []"; cases "mergedSum (ca_reqs ca1) (ca_merges ca1 m) = 0")
      (auto simp: processQueue_def filterQueue_filter Let_def ca0_def q_def [symmetric] split: outcome.splits prod.splits option.splits)
  then show ?thesis
  proof cases
    case 1
    then have "(ca' = ca0 \<or> ca' = ca1) \<and> st' = st"
      using run mrg by (auto simp: processQueue_def filterQueue_filter Let_def ca0_def q_def [symmetric])
    then show ?thesis using n by (auto simp: q_def ca0_def)
  next
    case 2
    note f = processTask_frame [OF 2(2)]
    show ?thesis
    proof (cases res)
      case None
      with 2 f n show ?thesis by (simp add: q_def ca0_def)
    next
      case (Some r)
      have "freq_promise (ca_reqs ca' p) =
          (if p \<in> set (fundsReqQueue ca) \<and> isActive (ca_reqs ca) p then Some r else freq_promise (ca_reqs ca p))" for p
        using 2(3) f Some mergedOnComplete_results [of "ca_reqs ca1" "ca_merges ca1 m" r p] n act
        by (auto simp: q_def ca0_def)
      moreover have "fundsReqQueue ca' = []" and "ca_waits ca' = ca_waits ca2" using 2(3) Some by simp_all
      ultimately show ?thesis using f Some n(3) by (auto simp: ca0_def)
    qed
  qed
qed

definition demo_accessor :: channelAccessor where
  "demo_accessor = snd (getPaych None 3 (snd (getPaych None 4 (newChannelAccessor ''from'' ''to''))))"

lemma demo_accessor_sel [simp]:
  "fundsReqQueue demo_accessor = [0, Suc 0]" "ca_from demo_accessor = ''from''" "ca_to demo_accessor = ''to''"
  "ca_waits demo_accessor = []" "isActive (ca_reqs demo_accessor) r" "freq_promise (ca_reqs demo_accessor r) = None"
  by (simp_all add: demo_accessor_def getPaych_def newChannelAccessor_def enqueue_def newFundsReq_def isActive_def)

text \<open>Two requests on an idle channel of the sample store: both get the channel and one message.\<close>

theorem processQueue_all_or_nothing_witness:
  "\<exists>funds ca' st'. processQueue demo_paych demo_repo (\<lambda>_. (Undef, Undef)) [] demo_accessor demo_pch = Ret (funds, ca', st') \<and>
    (fundsReqQueue ca' = [0, Suc 0] \<or> fundsReqQueue ca' = [] \<and>
      freq_promise (ca_reqs ca' 0) = freq_promise (ca_reqs ca' (Suc 0)) \<and> freq_promise (ca_reqs ca' 0) \<noteq> None)"
proof -
  have "processTask demo_paych demo_repo m amt ca demo_pch \<noteq> Panic p"
    if "ca_from ca = ''from''" "ca_to ca = ''to''" for m amt ca p
  proof -
    have "OutboundActiveByFromTo map_datastore mem_paych_codec (pchStore demo_pch) ''from'' ''to'' = Inr demo_channel"
      by (simp add: paych_demo)
    then show ?thesis using that
      by (auto simp: processTask_def addFunds_def Let_def split: sum.splits prod.splits)
  qed
  then obtain funds ca' st' where run:
      "processQueue demo_paych demo_repo (\<lambda>_. (Undef, Undef)) [] demo_accessor demo_pch = Ret (funds, ca', st')"
    using newMerged(4,5)
    by (cases "processQueue demo_paych demo_repo (\<lambda>_. (Undef, Undef)) [] demo_accessor demo_pch")
      (fastforce simp: processQueue_def Let_def split: prod.splits outcome.splits option.splits if_splits)+
  from processQueue_all_or_nothing [OF run] run show ?thesis by auto
qed

section \<open>Stored channels\<close>

text \<open>
  An outbound channel has no address while its create message is pending and one afterwards, waits
  for at most one message, and has a pending amount only while it waits.
\<close>

definition fundsOK :: "ChannelInfo \<Rightarrow> bool" where
  "fundsOK ci \<longleftrightarrow> (Direction ci = DirOutbound \<longrightarrow>
     (CreateMsg ci \<noteq> None \<longrightarrow> Channel ci = None \<and> AddFundsMsg ci = None) \<and>
     (CreateMsg ci = None \<longrightarrow> Channel ci \<noteq> None) \<and>
     (CreateMsg ci = None \<and> AddFundsMsg ci = None \<longrightarrow> PendingAmount ci = 0))"

definition created :: "address \<Rightarrow> ChannelInfo \<Rightarrow> ChannelInfo" where
  "created robust ci = ci\<lparr>Channel := Some robust, ciAmount := PendingAmount ci, PendingAmount := 0, CreateMsg := None\<rparr>"

definition confirmed :: "ChannelInfo \<Rightarrow> ChannelInfo" where
  "confirmed ci = ci\<lparr>ciAmount := ciAmount ci + PendingAmount ci, PendingAmount := 0, AddFundsMsg := None\<rparr>"

definition rejected :: "ChannelInfo \<Rightarrow> ChannelInfo" where
  "rejected ci = ci\<lparr>PendingAmount := 0, AddFundsMsg := None\<rparr>"

definition pendingFunds :: "int \<Rightarrow> cid \<Rightarrow> ChannelInfo \<Rightarrow> ChannelInfo" where
  "pendingFunds amt c ci = ci\<lparr>PendingAmount := amt, AddFundsMsg := Some c\<rparr>"

lemmas channel_changes = created_def confirmed_def rejected_def pendingFunds_def

lemma channel_changes_sel [simp]:
  "ChannelID (created a ci) = ChannelID ci" "ChannelID (confirmed ci) = ChannelID ci"
  "ChannelID (rejected ci) = ChannelID ci" "ChannelID (pendingFunds amt c ci) = ChannelID ci"
  "Channel (created a ci) = Some a" "Channel (confirmed ci) = Channel ci" "Channel (rejected ci) = Channel ci"
  "Channel (pendingFunds amt c ci) = Channel ci"
  by (simp_all add: channel_changes)

lemma fundsOK_changes:
  "fundsOK ci \<Longrightarrow> fundsOK (created a ci)" "fundsOK ci \<Longrightarrow> fundsOK (confirmed ci)" "fundsOK ci \<Longrightarrow> fundsOK (rejected ci)"
  "fundsOK ci \<Longrightarrow> CreateMsg ci = None \<Longrightarrow> fundsOK (pendingFunds amt c ci)"
  "fundsOK (newChannel uid from to c amt)" "fundsOK ci \<Longrightarrow> fundsOK (withVoucher sv ci)"
  "fundsOK ci \<Longrightarrow> fundsOK (ci\<lparr>NextLane := n\<rparr>)" "fundsOK ci \<Longrightarrow> fundsOK (ci\<lparr>Settling := b\<rparr>)"
  by (auto simp: fundsOK_def channel_changes newChannel_def withVoucher_def)

context paych_repo
begin

lemma mutate_store:
  assumes inv: "invar (pchStore st)" and uid: "uuid_New api \<noteq> []" and st': "st' = mutateChannelInfo api repo st i f"
    and f: "\<And>ci. ChannelID (f ci) = ChannelID ci" "\<And>ci. Channel ci \<noteq> Some reserved \<Longrightarrow> Channel (f ci) \<noteq> Some reserved"
  shows "invar (pchStore st') \<and> (view (pchStore st') = view (pchStore st) \<or>
    (\<exists>ci. view (pchStore st) i = Some ci \<and> view (pchStore st') = (view (pchStore st))(i \<mapsto> f ci)))"
proof (cases "pcGetChannelByChannelID repo (pchStore st) i")
  case (Inl e)
  with inv st' show ?thesis by (simp add: mutateChannelInfo_def)
next
  case (Inr ci)
  note g = get_by_id [OF inv Inr]
  then have v: "view (pchStore st) i = Some ci" and id: "ChannelID ci = i" by simp_all
  note known = view_known [OF inv v]
  obtain err where save: "saveChannelInfo api repo st (f ci) = (st', err)"
    using Inr st' by (cases "saveChannelInfo api repo st (f ci)") (simp add: mutateChannelInfo_def)
  have a: "ChannelID (f ci) \<noteq> []" and b: "Channel (f ci) \<noteq> Some reserved" using f known by simp_all
  show ?thesis using saved_channel(2,4,5) [OF inv uid save a b] v id f(1) by (cases err) auto
qed

lemma wait_create_store:
  assumes inv: "invar (pchStore st)" and uid: "uuid_New api \<noteq> []"
    and w: "waitPaychCreateMsg api repo st i wait = (st', err)"
    and robust: "\<And>m a. wait = Inr m \<Longrightarrow> RobustAddress m = Inr a \<Longrightarrow> a \<noteq> reserved"
  shows "invar (pchStore st') \<and> (view (pchStore st') = view (pchStore st) \<or>
    (\<exists>m. wait = Inr m \<and> ExitCode m \<noteq> 0 \<and> view (pchStore st') = (view (pchStore st))(i := None)) \<or>
    (\<exists>m a ci. wait = Inr m \<and> ExitCode m = 0 \<and> RobustAddress m = Inr a \<and> view (pchStore st) i = Some ci \<and>
      view (pchStore st') = (view (pchStore st))(i \<mapsto> created a ci)))"
proof (cases wait)
  case (Inl e)
  with w inv show ?thesis by (simp add: waitPaychCreateMsg_def)
next
  case (Inr m)
  show ?thesis
  proof (cases "ExitCode m = 0")
    case False
    obtain r rerr where rm: "pcRemoveChannel repo (pchStore st) i = (r, rerr)" by fastforce
    have "st' = st\<lparr>pchStore := r\<rparr>" using w Inr False rm by (simp add: waitPaychCreateMsg_def)
    moreover have "invar r" using remove_channel_invar [OF inv rm] .
    ultimately show ?thesis
      using rm remove_channel [of "pchStore st" i r] remove_channel_failed [of "pchStore st" i r] Inr False
      by (cases rerr) auto
  next
    case True
    show ?thesis
    proof (cases "RobustAddress m")
      case (Inl e)
      with w inv Inr True \<open>wait = Inr m\<close> show ?thesis by (simp add: waitPaychCreateMsg_def)
    next
      fix a assume a: "RobustAddress m = Inr a"
      have "st' = mutateChannelInfo api repo st i (created a)"
        using w Inr True a by (simp add: waitPaychCreateMsg_def created_def [abs_def])
      from mutate_store [OF inv uid this] show ?thesis using robust [OF Inr a] Inr True a by auto
    qed
  qed
qed

lemma wait_add_funds_store:
  assumes inv: "invar (pchStore st)" and uid: "uuid_New api \<noteq> []" and w: "waitAddFundsMsg api repo st i wait = (st', err)"
  shows "invar (pchStore st') \<and> (view (pchStore st') = view (pchStore st) \<or>
    (\<exists>m ci. wait = Inr m \<and> view (pchStore st) i = Some ci \<and>
      view (pchStore st') = (view (pchStore st))(i \<mapsto> (if ExitCode m = 0 then confirmed ci else rejected ci))))"
proof (cases wait)
  case (Inl e)
  with w inv show ?thesis by (simp add: waitAddFundsMsg_def)
next
  case (Inr m)
  show ?thesis
  proof (cases "ExitCode m = 0")
    case True
    have "st' = mutateChannelInfo api repo st i confirmed"
      using w Inr True by (simp add: waitAddFundsMsg_def confirmed_def [abs_def])
    from mutate_store [OF inv uid this] show ?thesis using Inr True by auto
  next
    case False
    have "st' = mutateChannelInfo api repo st i rejected"
      using w Inr False by (simp add: waitAddFundsMsg_def rejected_def [abs_def])
    from mutate_store [OF inv uid this] show ?thesis using Inr False by auto
  qed
qed

lemma msg_wait_complete_store:
  assumes "msgWaitComplete repo chctx ctx mcid err ca st = (ca', st')"
  shows "view (pchStore st') = view (pchStore st) \<and> (invar (pchStore st) \<longrightarrow> invar (pchStore st'))"
proof -
  obtain r rerr where r: "pmSaveMessageResult repo (pchStore st) mcid err = (r, rerr)" by fastforce
  have "st' = st \<or> st' = st\<lparr>pchStore := r\<rparr>"
    using assms r by (auto simp: msgWaitComplete_def Let_def split: if_splits)
  then show ?thesis using save_result [OF r] by auto
qed

lemma create_paych_store:
  assumes inv: "invar (pchStore st)" and uid: "uuid_New api \<noteq> []" and c: "createPaych api repo m amt ca st = (res, ca', st')"
  shows "invar (pchStore st') \<and> (view (pchStore st') = view (pchStore st) \<or>
    (\<exists>c. view (pchStore st') = (view (pchStore st))(uuid_New api \<mapsto> newChannel (uuid_New api) (ca_from ca) (ca_to ca) c amt)))"
proof -
  consider "pchStore st' = pchStore st" | mcid cres where
      "pcCreateChannel repo (pchStore st) (uuid_New api) (ca_from ca) (ca_to ca) mcid amt = (pchStore st', cres)"
    using c by (auto simp: createPaych_def split: sum.splits prod.splits dest!: pushMessage_store)
  then show ?thesis
  proof cases
    case 2
    from create_channel [OF uid 2] inv show ?thesis by auto
  qed (use inv in simp)
qed

lemma add_funds_store:
  assumes inv: "invar (pchStore st)" and uid: "uuid_New api \<noteq> []"
    and a: "addFunds api repo m ci amt ca st = Ret (res, ca', st')"
  shows "invar (pchStore st') \<and> (view (pchStore st') = view (pchStore st) \<or>
    (\<exists>c ci'. res = Inr c \<and> view (pchStore st) (ChannelID ci) = Some ci' \<and>
      view (pchStore st') = (view (pchStore st))(ChannelID ci \<mapsto> pendingFunds amt c ci')))"
proof -
  obtain ch where ch: "Channel ci = Some ch" using a by (auto simp: addFunds_def split: option.splits)
  obtain st1 pres where push: "pushMessage api st \<lparr>msgTo = ch, msgFrom = Control ci, msgValue = amt, msgMethod = 0, msgParams = []\<rparr> = (st1, pres)"
    by fastforce
  note same = pushMessage_store [OF push]
  show ?thesis
  proof (cases pres)
    case (Inl e)
    with a ch push same inv show ?thesis by (auto simp: addFunds_def)
  next
    case (Inr c)
    define st2 where "st2 = mutateChannelInfo api repo st1 (ChannelID ci) (pendingFunds amt c)"
    obtain r merr where r: "pmSaveMessage repo (pchStore st2)
        \<lparr>miChannelID = ChannelID ci, miMsgCid = c, Received = False, miErr = []\<rparr> = (r, merr)" by fastforce
    have st': "pchStore st' = r" "res = Inr c"
      using a ch push Inr r by (auto simp: addFunds_def Let_def st2_def pendingFunds_def [abs_def])
    have inv1: "invar (pchStore st1)" using inv same by simp
    have m: "invar (pchStore st2) \<and> (view (pchStore st2) = view (pchStore st1) \<or>
        (\<exists>ci'. view (pchStore st1) (ChannelID ci) = Some ci' \<and> view (pchStore st2) = (view (pchStore st1))(ChannelID ci \<mapsto> pendingFunds amt c ci')))"
      by (rule mutate_store [OF inv1 uid st2_def]) simp_all
    have "view r = view (pchStore st2)"
      using r save_message [of "pchStore st2" _ r] save_message_failed [of "pchStore st2" _ r] by (cases merr) auto
    moreover have "invar r" using save_message_invar [OF _ r] m by simp
    ultimately show ?thesis using m st' same by auto
  qed
qed

lemma process_task_store:
  assumes inv: "invar (pchStore st)" and uid: "uuid_New api \<noteq> []" and ok: "allChannels (view (pchStore st)) fundsOK"
    and t: "processTask api repo m amt ca st = Ret (res, ca', st')"
  shows "invar (pchStore st') \<and> allChannels (view (pchStore st')) fundsOK"
proof (cases "pcOutboundActiveByFromTo repo (pchStore st) (ca_from ca) (ca_to ca)")
  case (Inl e)
  consider "st' = st" | cres where "createPaych api repo m amt ca st = (cres, ca', st')"
    using t Inl by (auto simp: processTask_def split: sum.splits prod.splits if_splits)
  then show ?thesis
  proof cases
    case 2
    from create_paych_store [OF inv uid 2] ok show ?thesis by (auto intro!: allChannels_upd fundsOK_changes)
  qed (use inv ok in simp)
next
  case (Inr ci)
  note g = get_active [OF inv Inr]
  show ?thesis
  proof (cases "CreateMsg ci = None \<and> AddFundsMsg ci = None")
    case False
    then have "st' = st" using t Inr by (auto simp: processTask_def split: if_splits)
    with inv ok show ?thesis by simp
  next
    case True
    then obtain fres where a: "addFunds api repo m ci amt ca st = Ret (fres, ca', st')"
      using t Inr by (auto simp: processTask_def split: sum.splits prod.splits outcome.splits)
    from add_funds_store [OF inv uid a] g True ok show ?thesis
      by (auto intro!: allChannels_upd fundsOK_changes(4)) (auto simp: allChannels_def)
  qed
qed

lemma process_task_returns:
  assumes inv: "invar (pchStore st)" and ok: "allChannels (view (pchStore st)) fundsOK"
  shows "processTask api repo m amt ca st \<noteq> Panic p"
proof (cases "pcOutboundActiveByFromTo repo (pchStore st) (ca_from ca) (ca_to ca)")
  case (Inl e)
  then show ?thesis by (auto simp: processTask_def split: sum.splits prod.splits)
next
  case (Inr ci)
  note g = get_active [OF inv Inr]
  then have "fundsOK ci" using ok by (auto simp: allChannels_def)
  then have "CreateMsg ci = None \<longrightarrow> (\<exists>ch. Channel ci = Some ch)" using g by (auto simp: fundsOK_def)
  then show ?thesis using Inr
    by (auto simp: processTask_def addFunds_def Let_def split: sum.splits prod.splits outcome.splits)
qed

lemma process_queue_store:
  assumes inv: "invar (pchStore st)" and uid: "uuid_New api \<noteq> []" and ok: "allChannels (view (pchStore st)) fundsOK"
    and q: "processQueue api repo fromTo i ca st = Ret (funds, ca', st')"
  shows "invar (pchStore st') \<and> allChannels (view (pchStore st')) fundsOK"
proof -
  consider "st' = st" | m amt ca1 res ca2 where "processTask api repo m amt ca1 st = Ret (res, ca2, st')"
    using q by (auto simp: processQueue_def Let_def split: prod.splits outcome.splits option.splits if_splits)
  then show ?thesis
    by cases (use inv ok process_task_store [OF inv uid ok] in auto)
qed

end

text \<open>The operations of all accessors on the shared store: queue processing, finished message waits and
  voucher operations. The robust address of a created channel is never the reserved address.\<close>

inductive paych_step :: "'r PaychRepo \<Rightarrow> address \<Rightarrow> 'r pch \<Rightarrow> 'r pch \<Rightarrow> bool" for repo reserved where
  step_queue: "processQueue api repo fromTo i ca st = Ret (funds, ca', st') \<Longrightarrow> uuid_New api \<noteq> [] \<Longrightarrow>
    paych_step repo reserved st st'"
| step_wait: "waitFor api repo chctx w wait ca st = (ca', st') \<Longrightarrow> uuid_New api \<noteq> [] \<Longrightarrow>
    (\<And>m a. wait = Inr m \<Longrightarrow> RobustAddress m = Inr a \<Longrightarrow> a \<noteq> reserved) \<Longrightarrow> paych_step repo reserved st st'"
| step_voucher: "voucher_step repo st st' \<Longrightarrow> paych_step repo reserved st st'"

context paych_repo
begin

lemma voucher_step_fundsOK:
  assumes "voucher_step repo st st'" and inv: "invar (pchStore st)" and ok: "allChannels (view (pchStore st)) fundsOK"
  shows "invar (pchStore st') \<and> allChannels (view (pchStore st')) fundsOK"
  using assms(1)
proof (cases rule: voucher_step.cases)
  case (step_add api ch sv minDelta delta err)
  from add_voucher_store [OF inv step_add(2) step_add(1) [unfolded addVoucher_def]] ok found(1) [OF inv] show ?thesis
    by (auto intro!: allChannels_upd fundsOK_changes(6)) (auto simp: allChannels_def)
next
  case (step_create api ch voucher res)
  from createVoucher_adds [OF step_create(1)] show ?thesis
  proof (elim disjE exE)
    fix sv delta err assume "addVoucherUnlocked api repo st ch sv 0 = (st', delta, err)"
    from add_voucher_store [OF inv step_create(2) this] ok found(1) [OF inv] show ?thesis
      by (auto intro!: allChannels_upd fundsOK_changes(6)) (auto simp: allChannels_def)
  qed (use inv ok in simp)
next
  case (step_allocate api ch lane err)
  from allocate_lane_channels [OF inv step_allocate(2,1)] ok found(1) [OF inv] show ?thesis
    by (auto intro!: allChannels_upd fundsOK_changes(7)) (auto simp: allChannels_def)
next
  case (step_settle api ch c)
  from settle_store [OF inv step_settle(2,1)] ok found(1) [OF inv] show ?thesis
    by (auto intro!: allChannels_upd fundsOK_changes(8)) (auto simp: allChannels_def)
next
  case (step_collect api ch c)
  with inv ok show ?thesis by (simp add: collect_store)
qed

lemma wait_for_fundsOK:
  assumes inv: "invar (pchStore st)" and uid: "uuid_New api \<noteq> []" and ok: "allChannels (view (pchStore st)) fundsOK"
    and w: "waitFor api repo chctx w wait ca st = (ca', st')"
    and robust: "\<And>m a. wait = Inr m \<Longrightarrow> RobustAddress m = Inr a \<Longrightarrow> a \<noteq> reserved"
  shows "invar (pchStore st') \<and> allChannels (view (pchStore st')) fundsOK"
proof -
  obtain st1 err mg i c where first: "waitPaychCreateMsg api repo st i wait = (st1, err) \<or> waitAddFundsMsg api repo st i wait = (st1, err)"
    and second: "msgWaitComplete repo chctx (mergeCtx chctx ca mg) c err ca st1 = (ca', st')"
    using w by (cases w) (auto simp: waitFor_def Let_def split: prod.splits, blast+)
  from first have "invar (pchStore st1) \<and> allChannels (view (pchStore st1)) fundsOK"
  proof
    assume "waitPaychCreateMsg api repo st i wait = (st1, err)"
    with inv uid have "invar (pchStore st1) \<and> (view (pchStore st1) = view (pchStore st) \<or>
        view (pchStore st1) = (view (pchStore st))(i := None) \<or>
        (\<exists>a ci. view (pchStore st) i = Some ci \<and> view (pchStore st1) = (view (pchStore st))(i \<mapsto> created a ci)))"
      using wait_create_store [of st api i wait st1 err] robust by blast
    with ok show ?thesis
      by (auto intro!: allChannels_upd fundsOK_changes(1)) (auto simp: allChannels_def)
  next
    assume "waitAddFundsMsg api repo st i wait = (st1, err)"
    from wait_add_funds_store [OF inv uid this] ok show ?thesis
      by (auto intro!: allChannels_upd fundsOK_changes(2,3)) (auto simp: allChannels_def)
  qed
  with msg_wait_complete_store [OF second] show ?thesis by simp
qed

lemma paych_steps_fundsOK:
  assumes "(paych_step repo reserved)\<^sup>*\<^sup>* st st'" and "invar (pchStore st)" and "allChannels (view (pchStore st)) fundsOK"
  shows "invar (pchStore st') \<and> allChannels (view (pchStore st')) fundsOK"
  using assms
proof (induction rule: rtranclp_induct)
  case (step st1 st2)
  then have inv: "invar (pchStore st1)" and ok: "allChannels (view (pchStore st1)) fundsOK" by simp_all
  from step(2) show ?case
  proof (cases rule: paych_step.cases)
    case (step_queue api fromTo i ca funds ca')
    show ?thesis using inv step_queue(2) ok step_queue(1) by (rule process_queue_store)
  next
    case (step_wait api chctx w wait ca ca')
    show ?thesis using inv step_wait(2) ok step_wait(1,3) by (rule wait_for_fundsOK)
  next
    case step_voucher
    then show ?thesis using inv ok by (rule voucher_step_fundsOK)
  qed
qed simp

lemma process_queue_returns:
  assumes "invar (pchStore st)" and "allChannels (view (pchStore st)) fundsOK"
  shows "processQueue api repo fromTo i ca st \<noteq> Panic p"
  using process_task_returns [OF assms]
  by (auto simp: processQueue_def Let_def split: prod.splits outcome.splits option.splits)

end

section \<open>Properties of the badger-backed funding queue\<close>

text \<open>
  Property C11. However queues are processed, messages confirmed or rejected and vouchers handled, by
  any accessors on the shared badger store: if every outbound channel has an address exactly when
  its creation is confirmed, waits for at most one message and has a pending amount only while it
  waits, then this stays so, and processing a queue never dereferences a nil channel address.
\<close>

theorem funding_invariant:
  assumes "badger_paych ds contents pc" and "paych_invar contents pc (pchStore st)"
    and "allChannels (paych_view contents pc (pchStore st)) fundsOK"
    and "(paych_step (NewPaychRepo ds pc) (emptyAddr pc))\<^sup>*\<^sup>* st st'"
  shows "allChannels (paych_view contents pc (pchStore st')) fundsOK \<and>
    processQueue api (NewPaychRepo ds pc) fromTo i ca st' \<noteq> Panic p"
proof -
  note R = badger_paych.paych_repo_laws [OF assms(1)]
  have ok: "paych_invar contents pc (pchStore st') \<and> allChannels (paych_view contents pc (pchStore st')) fundsOK"
    using assms(4,2,3) by (rule paych_repo.paych_steps_fundsOK [OF R])
  then show ?thesis using paych_repo.process_queue_returns [OF R] by blast
qed

theorem funding_invariant_witness:
  "\<exists>st'. addVoucher demo_paych demo_repo demo_pch ''ch'' demo_next 1 = (st', 4, None) \<and>
    processQueue demo_paych demo_repo (\<lambda>_. (Undef, Undef)) [] demo_accessor st' \<noteq> Panic ''nil pointer dereference''"
proof -
  obtain st' where add: "addVoucher demo_paych demo_repo demo_pch ''ch'' demo_next 1 = (st', 4, None)"
    using demo_add by (simp add: addVoucher_def)
  have ok: "allChannels (paych_view map_of mem_paych_codec (pchStore demo_pch)) fundsOK"
    by (simp add: allChannels_def fundsOK_def) (simp add: demo_channel_def)
  have "(paych_step demo_repo (emptyAddr mem_paych_codec))\<^sup>*\<^sup>* demo_pch st'"
    by (rule r_into_rtranclp, rule step_voucher, rule step_add [OF add]) simp
  from funding_invariant [OF mempaych.badger_paych_axioms _ ok this] add show ?thesis by auto
qed

text \<open>When the message that added funds is on chain, the channel's confirmed amount grows by
  exactly the pending amount if it succeeded and stays if it failed; in both cases nothing is
  pending afterwards and no other stored channel changes.
\<close>

theorem waitAddFundsMsg_accounting:
  assumes "badger_paych ds contents pc" and "paych_invar contents pc (pchStore st)" and "uuid_New api \<noteq> []"
    and "waitAddFundsMsg api (NewPaychRepo ds pc) st i (Inr m) = (st', err)"
  shows "(err = None \<longleftrightarrow> ExitCode m = 0) \<and>
    (paych_view contents pc (pchStore st') = paych_view contents pc (pchStore st) \<or>
     (\<exists>ci ci'. paych_view contents pc (pchStore st) i = Some ci \<and>
       paych_view contents pc (pchStore st') = (paych_view contents pc (pchStore st))(i \<mapsto> ci') \<and>
       ciAmount ci' = (if ExitCode m = 0 then ciAmount ci + PendingAmount ci else ciAmount ci) \<and>
       PendingAmount ci' = 0 \<and> AddFundsMsg ci' = None \<and> Vouchers ci' = Vouchers ci))"
proof -
  have "err = None \<longleftrightarrow> ExitCode m = 0" using assms(4) by (auto simp: waitAddFundsMsg_def split: if_splits)
  moreover from paych_repo.wait_add_funds_store [OF badger_paych.paych_repo_laws [OF assms(1)] assms(2-4)]
  have "paych_view contents pc (pchStore st') = paych_view contents pc (pchStore st) \<or>
     (\<exists>ci. paych_view contents pc (pchStore st) i = Some ci \<and>
       paych_view contents pc (pchStore st') =
         (paych_view contents pc (pchStore st))(i \<mapsto> (if ExitCode m = 0 then confirmed ci else rejected ci)))"
    by auto
  moreover have "ciAmount (if ExitCode m = 0 then confirmed ci else rejected ci) =
      (if ExitCode m = 0 then ciAmount ci + PendingAmount ci else ciAmount ci) \<and>
    PendingAmount (if ExitCode m = 0 then confirmed ci else rejected ci) = 0 \<and>
    AddFundsMsg (if ExitCode m = 0 then confirmed ci else rejected ci) = None \<and>
    Vouchers (if ExitCode m = 0 then confirmed ci else rejected ci) = Vouchers ci" for ci
    by (simp add: channel_changes)
  ultimately show ?thesis by blast
qed

theorem waitAddFundsMsg_accounting_witness:
  "\<exists>st' err. waitAddFundsMsg demo_paych demo_repo demo_pch ''id'' (Inr \<lparr>ExitCode = 0, RobustAddress = Inr ''a''\<rparr>) = (st', err) \<and>
    err = None"
proof -
  obtain st' err where run:
      "waitAddFundsMsg demo_paych demo_repo demo_pch ''id'' (Inr \<lparr>ExitCode = 0, RobustAddress = Inr ''a''\<rparr>) = (st', err)"
    by fastforce
  from waitAddFundsMsg_accounting [OF mempaych.badger_paych_axioms demo_store(2,3) run] run show ?thesis by auto
qed

text \<open>
  A request for the amount zero is not answered: when the active requests of the queue
  add up to zero, processing the queue leaves them queued and unanswered, does not look for a
  channel and creates none, so the caller of \<open>getPaych\<close> waits until its context is cancelled.
\<close>

theorem processQueue_zero_unanswered:
  assumes "sum_list (map (\<lambda>r. freq_amt (ca_reqs ca r)) (filter (isActive (ca_reqs ca)) (fundsReqQueue ca))) = 0"
  shows "\<exists>funds ca'. processQueue api repo fromTo i ca st = Ret (funds, ca', st) \<and>
    fundsReqQueue ca' = filter (isActive (ca_reqs ca)) (fundsReqQueue ca) \<and>
    (\<forall>r. freq_promise (ca_reqs ca' r) = freq_promise (ca_reqs ca r)) \<and> ca_waits ca' = ca_waits ca"
proof -
  define q where "q = filter (isActive (ca_reqs ca)) (fundsReqQueue ca)"
  define ca0 where "ca0 = ca\<lparr>fundsReqQueue := q\<rparr>"
  obtain m ca1 where mrg: "newMergedFundsReq q ca0 = (m, ca1)" by fastforce
  note n = newMerged [OF mrg]
  have "\<forall>r\<in>set q. isActive (ca_reqs ca1) r" by (simp add: isActive_def n ca0_def q_def)
  then have "mergedSum (ca_reqs ca1) (ca_merges ca1 m) = 0"
    using assms n by (simp add: mergedSum_active q_def ca0_def)
  then show ?thesis
    using mrg n by (cases "q = []")
      (auto simp: processQueue_def filterQueue_filter Let_def ca0_def q_def [symmetric])
qed

theorem processQueue_zero_unanswered_witness:
  "\<exists>funds ca'. processQueue demo_paych demo_repo (\<lambda>_. (Undef, Undef)) []
      (snd (getPaych None 0 (newChannelAccessor ''a'' ''b''))) demo_pch = Ret (funds, ca', demo_pch) \<and>
    fundsReqQueue ca' = [0] \<and> freq_promise (ca_reqs ca' 0) = None"
proof -
  let ?ca = "snd (getPaych None 0 (newChannelAccessor ''a'' ''b''))"
  have "sum_list (map (\<lambda>r. freq_amt (ca_reqs ?ca r)) (filter (isActive (ca_reqs ?ca)) (fundsReqQueue ?ca))) = 0"
    by (simp add: getPaych_def newChannelAccessor_def enqueue_def newFundsReq_def)
  from processQueue_zero_unanswered [OF this, of demo_paych demo_repo "\<lambda>_. (Undef, Undef)" "[]" demo_pch]
  show ?thesis by (simp add: getPaych_def newChannelAccessor_def enqueue_def newFundsReq_def isActive_def) metis
qed

end
