(* ===== verification/Paych_Manager_Props.thy ===== *)
theory Paych_Manager_Props
  imports Paych_Manager Paych_Funds_Props
begin

text \<open>
  Properties of the payment channel manager: accessors per from/to pair, the restart of pending
  waits, and the consequences of a query entry that carries an error.
\<close>

section \<open>Accessors\<close>

lemma separator_split:
  "CHR ''-'' \<notin> set a \<Longrightarrow> CHR ''-'' \<notin> set c \<Longrightarrow> a @ ''->'' @ b = c @ ''->'' @ d \<Longrightarrow> a = c \<and> b = d"
proof (induction a arbitrary: c)
  case Nil
  then show ?case by (cases c) auto
next
  case (Cons x a)
  then show ?case by (cases c) auto
qed

text \<open>
  Two accessor cache keys of addresses whose text has no dash are equal only for the same
  from and to; so the accessor that \<open>inboundChannelAccessor\<close> uses for a tracked inbound channel
  (target to control) is never the one that \<open>accessorByAddress\<close> uses for the same channel (control to
  target): the operations on one channel run under two locks.
\<close>

theorem inbound_accessor_differs:
  assumes stored: "pcGetChannelByAddress repo (pchStore (pm_pch pm)) ch = Inr ci"
    and dash: "CHR ''-'' \<notin> set (Control ci)" "CHR ''-'' \<notin> set (Target ci)" and differ: "Control ci \<noteq> Target ci"
  shows "\<exists>k1 pm1 k2 pm2. inboundChannelAccessor api repo pm ch = Ret (Inr k1, pm1) \<and>
    accessorByAddress repo pm ch = (Inr k2, pm2) \<and> k1 = accessorCacheKey (Target ci) (Control ci) \<and>
    k2 = accessorCacheKey (Control ci) (Target ci) \<and> k1 \<noteq> k2"
proof -
  have "accessorCacheKey (Target ci) (Control ci) \<noteq> accessorCacheKey (Control ci) (Target ci)"
    using separator_split [OF dash(2,1), of "Control ci" "Target ci"] differ by (auto simp: accessorCacheKey_def)
  then show ?thesis
    using stored
    by (auto simp: inboundChannelAccessor_def trackInboundChannel_def accessorByAddress_def accessorByFromTo_def Let_def
        split: option.splits)
qed

theorem inbound_accessor_differs_witness:
  "\<exists>k1 pm1 k2 pm2. inboundChannelAccessor demo_paych demo_repo (\<lparr>pm_pch = demo_pch, channels = Map.empty\<rparr>) ''ch'' = Ret (Inr k1, pm1) \<and>
    accessorByAddress demo_repo (\<lparr>pm_pch = demo_pch, channels = Map.empty\<rparr>) ''ch'' = (Inr k2, pm2) \<and> k1 \<noteq> k2"
proof -
  have stored: "pcGetChannelByAddress demo_repo (pchStore (pm_pch \<lparr>pm_pch = demo_pch, channels = Map.empty\<rparr>)) ''ch'' = Inr demo_channel"
    by simp
  from inbound_accessor_differs [OF stored, of demo_paych] show ?thesis by (fastforce simp: demo_channel_def)
qed

section \<open>Restart\<close>

definition waitsFor :: "ChannelInfo \<Rightarrow> paychWait" where
  "waitsFor ci = (case CreateMsg ci of
     Some c \<Rightarrow> WaitCreate None (ChannelID ci) c
   | None \<Rightarrow> WaitAddFunds None (ChannelID ci) (the (AddFundsMsg ci)))"

definition waiting :: "'r Manager \<Rightarrow> paychWait \<Rightarrow> bool" where
  "waiting pm w \<longleftrightarrow> (\<exists>key ca. channels pm key = Some ca \<and> w \<in> set (ca_waits ca))"

lemma accessorByFromTo_known:
  assumes "accessorByFromTo pm from to = (key, pm1)"
  shows "\<exists>ca. channels pm1 key = Some ca" and "waiting pm w \<Longrightarrow> waiting pm1 w" and "pm_pch pm1 = pm_pch pm"
  using assms
  by (auto simp: accessorByFromTo_def addAccessorToCache_def waiting_def Let_def split: option.splits)
    (metis option.distinct(1))

lemma accessorByAddress_known:
  assumes "accessorByAddress repo pm ch = (Inr key, pm1)"
  shows "\<exists>ca. channels pm1 key = Some ca" and "waiting pm w \<Longrightarrow> waiting pm1 w" and "pm_pch pm1 = pm_pch pm"
  using assms accessorByFromTo_known
  by (auto simp: accessorByAddress_def split: sum.splits prod.splits)

lemma startWait_waiting:
  assumes "channels pm key = Some ca"
  shows "waiting (startWait key w pm) w" and "waiting pm v \<Longrightarrow> waiting (startWait key w pm) v"
    and "pm_pch (startWait key w pm) = pm_pch pm"
proof -
  let ?ca = "ca\<lparr>ca_waits := ca_waits ca @ [w]\<rparr>"
  have ch: "channels (startWait key w pm) = (channels pm)(key \<mapsto> ?ca)"
    using assms by (simp add: startWait_def setAccessor_def theAccessor_def)
  show "waiting (startWait key w pm) w" using ch by (auto simp: waiting_def)
  show "waiting (startWait key w pm) v" if v: "waiting pm v"
  proof -
    obtain k c where k: "channels pm k = Some c" "v \<in> set (ca_waits c)" using v by (auto simp: waiting_def)
    show ?thesis
    proof (cases "k = key")
      case True
      with k assms ch show ?thesis by (auto simp: waiting_def intro!: exI [of _ key])
    next
      case False
      with k ch show ?thesis by (auto simp: waiting_def intro!: exI [of _ k])
    qed
  qed
  show "pm_pch (startWait key w pm) = pm_pch pm" by (simp add: startWait_def setAccessor_def)
qed

lemma restartLoop_waits:
  "restartLoop repo cis err pm = Ret (None, pm') \<Longrightarrow>
    \<forall>ci\<in>set cis. CreateMsg ci \<noteq> None \<or> AddFundsMsg ci \<noteq> None \<Longrightarrow>
    (\<forall>w. waiting pm w \<longrightarrow> waiting pm' w) \<and> (\<forall>ci\<in>set cis. waiting pm' (waitsFor ci)) \<and> pm_pch pm' = pm_pch pm"
proof (induction cis arbitrary: err pm)
  case (Cons ci cis)
  show ?case
  proof (cases "CreateMsg ci")
    case (Some c)
    obtain key pm1 where acc: "accessorByFromTo pm (Control ci) (Target ci) = (key, pm1)" by fastforce
    note k = accessorByFromTo_known [OF acc]
    obtain ca where ca: "channels pm1 key = Some ca" using k(1) by blast
    have "restartLoop repo cis err (startWait key (WaitCreate None (ChannelID ci) c) pm1) = Ret (None, pm')"
      using Cons.prems(1) Some acc by simp
    from Cons.IH [OF this] Cons.prems(2) startWait_waiting [OF ca] k Some show ?thesis by (auto simp: waitsFor_def)
  next
    case None
    then obtain c where c: "AddFundsMsg ci = Some c" using Cons.prems(2) by auto
    obtain ch where ch: "Channel ci = Some ch" using Cons.prems(1) None c by (auto split: option.splits)
    obtain key pm1 err1 where step: "accessorByAddress repo pm ch = (Inr key, pm1)"
        "restartLoop repo cis err (startWait key (WaitAddFunds None (ChannelID ci) c) pm1) = Ret (None, pm')"
    proof -
      have no_err: "restartLoop repo cis (Some e) q \<noteq> Ret (None, pm')" for cis e q
        by (induction cis arbitrary: q) (auto split: option.splits sum.splits prod.splits)
      show thesis
        using Cons.prems(1) None c ch no_err that
        by (cases "accessorByAddress repo pm ch") (auto split: sum.splits if_splits)
    qed
    note k = accessorByAddress_known [OF step(1)]
    obtain ca where ca: "channels pm1 key = Some ca" using k(1) by blast
    from Cons.IH [OF step(2)] Cons.prems(2) startWait_waiting [OF ca] k None c show ?thesis by (auto simp: waitsFor_def)
  qed
qed simp

text \<open>After a start without an error, every channel that the badger store lists with a
  pending create or add-funds message is being waited for by an accessor, and nothing was stored
  or sent.
\<close>

theorem restartPending_waits:
  assumes laws: "badger_paych ds contents pc" and inv: "paych_invar contents pc (pchStore (pm_pch pm))"
    and start: "Start (NewPaychRepo ds pc) pm = Ret (None, pm')"
    and listed: "WithPendingAddFunds ds pc (pchStore (pm_pch pm)) = Inr cis"
  shows "(\<forall>ci\<in>set cis. waiting pm' (waitsFor ci)) \<and> pm_pch pm' = pm_pch pm"
proof -
  have "\<forall>ci\<in>set cis. CreateMsg ci \<noteq> None \<or> AddFundsMsg ci \<noteq> None"
    using paych_repo.get_pending [OF badger_paych.paych_repo_laws [OF laws] inv] listed by simp
  moreover have "restartLoop (NewPaychRepo ds pc) cis None pm = Ret (None, pm')"
    using start listed by (simp add: Start_def restartPending_def)
  ultimately show ?thesis using restartLoop_waits by blast
qed

definition demo_pending :: ChannelInfo where
  "demo_pending = newChannel ''id'' ''from'' ''to'' ''cid'' 7"

theorem restartPending_waits_witness:
  "\<exists>pm'. Start demo_repo (newManager [(dskeyForChannel ''id'', ChannelValue demo_pending)]) = Ret (None, pm') \<and>
    waiting pm' (WaitCreate None ''id'' ''cid'')"
proof -
  let ?pm = "newManager [(dskeyForChannel ''id'', ChannelValue demo_pending)]"
  have inv: "paych_invar map_of mem_paych_codec (pchStore (pm_pch ?pm))"
    by (auto simp: paych_invar_def newManager_def unmarshallChannelInfo_def mem_paych_codec_def demo_pending_def newChannel_def
        split: if_splits)
  have listed: "WithPendingAddFunds map_datastore mem_paych_codec (pchStore (pm_pch ?pm)) = Inr [demo_pending]"
    by (simp add: WithPendingAddFunds_def findChans_def newManager_def unmarshallChannelInfo_def mem_paych_codec_def
        demo_pending_def newChannel_def dskeyForChannel_def)
  obtain pm' where start: "Start demo_repo ?pm = Ret (None, pm')"
    using listed
    by (cases "accessorByFromTo ?pm (Control demo_pending) (Target demo_pending)")
      (simp add: Start_def restartPending_def demo_pending_def newChannel_def)
  from restartPending_waits [OF mempaych.badger_paych_axioms inv start listed] start show ?thesis
    by (simp add: waitsFor_def demo_pending_def newChannel_def)
qed

section \<open>A query entry with an error\<close>

text \<open>When the first entry of the channel query carries an error, the error is dropped: the
  lookup of the active channel answers that there is none, whatever the store holds, and funding
  then creates a channel on chain although one may exist.
\<close>

theorem query_error_creates_channel:
  assumes query: "dsQuery ds (pchStore st) [dsKeyChannelInfo] = Inr (Inl e # rs)"
    and build: "tryE (messageBuilder api (ca_from ca)) (\<lambda>(ver, from). mbCreate api ver from (ca_to ca) amt) = Inr msg"
    and push: "pchPushMessage api msg = Inr c"
  shows "OutboundActiveByFromTo ds pc (pchStore st) (ca_from ca) (ca_to ca) = Inl ErrNotFound \<and>
    (\<exists>res ca' st'. processTask api (NewPaychRepo ds pc) m amt ca st = Ret (Some res, ca', st') \<and>
      pchSent st' = pchSent st @ [msg])"
proof -
  have none: "OutboundActiveByFromTo ds pc (pchStore st) (ca_from ca) (ca_to ca) = Inl ErrNotFound"
    using query by (simp add: OutboundActiveByFromTo_def findChan_def findChans_def)
  moreover obtain r ca' st' where create: "createPaych api (NewPaychRepo ds pc) m amt ca st = (r, ca', st')"
    by (cases "createPaych api (NewPaychRepo ds pc) m amt ca st")
  moreover have "pchSent st' = pchSent st @ [msg]"
    using create build push by (auto simp: createPaych_def pushMessage_def split: sum.splits prod.splits)
  ultimately show ?thesis by (cases r) (simp_all add: processTask_def)
qed

text \<open>The sample store behind a datastore whose query fails at its first entry: the idle channel from
  \<open>from\<close> to \<open>to\<close> is stored, and a second one is created.\<close>

theorem query_error_creates_channel_witness:
  "paych_view map_of mem_paych_codec (pchStore demo_pch) ''id'' = Some demo_channel \<and>
   (\<exists>res ca' st'. processTask demo_paych
      (NewPaychRepo (map_datastore\<lparr>dsQuery := \<lambda>_ _. Inr [Inl (ErrApi ''io'')]\<rparr>) mem_paych_codec) 0 7
      demo_accessor demo_pch = Ret (Some res, ca', st') \<and> pchSent st' = [demo_message])"
proof -
  let ?ds = "map_datastore\<lparr>dsQuery := \<lambda>_ _. Inr [Inl (ErrApi ''io'')]\<rparr>"
  have query: "dsQuery ?ds (pchStore demo_pch) [dsKeyChannelInfo] = Inr (Inl (ErrApi ''io'') # [])" by simp
  have build: "tryE (messageBuilder demo_paych (ca_from demo_accessor))
      (\<lambda>(ver, from). mbCreate demo_paych ver from (ca_to demo_accessor) 7) = Inr demo_message"
    and push: "pchPushMessage demo_paych demo_message = Inr ''cid''"
    by (simp_all add: messageBuilder_def demo_paych_def)
  have "pchSent demo_pch = []" by (simp add: demo_pch_def)
  with query_error_creates_channel [where ca = demo_accessor and st = demo_pch and pc = mem_paych_codec and m = 0, OF query build push]
  show ?thesis by simp
qed

end
