(* ===== verification/Deal_Types.thy ===== *)
theory Deal_Types
  imports Datastore
begin

text \<open>
  The data of storage deals that several components share: the fields of \<open>market.DealProposal\<close>,
  \<open>types.MinerDeal\<close>, \<open>types.DealInfoIncludePath\<close> and \<open>types.GetDealSpec\<close> that the code reads or writes.
  Sizes, offsets, deal and sector numbers are \<open>uint64\<close>, epochs are \<open>int64\<close> values as integers, Go's
  \<open>int\<close> counters are integers. \<open>FundsReserved\<close> is a \<open>big.Int\<close> that may be \<open>Nil\<close>.
\<close>

record DealProposal =
  PieceCID :: cid
  PieceSize :: u64
  VerifiedDeal :: bool
  Client :: address
  Provider :: address
  Label :: string
  StartEpoch :: int
  EndEpoch :: int
  StoragePricePerEpoch :: int
  ProviderCollateral :: int
  ClientCollateral :: int

text \<open>The deal states named by the storage provider; \<open>StorageDealOther\<close> stands for a state of the
  client side.\<close>

datatype StorageDealStatus =
    StorageDealUnknown | StorageDealProposalNotFound | StorageDealProposalRejected | StorageDealProposalAccepted
  | StorageDealStaged | StorageDealSealing | StorageDealFinalizing | StorageDealActive | StorageDealExpired
  | StorageDealSlashed | StorageDealRejecting | StorageDealFailing | StorageDealFundsReserved
  | StorageDealCheckForAcceptance | StorageDealValidating | StorageDealAcceptWait | StorageDealStartDataTransfer
  | StorageDealTransferring | StorageDealWaitingForData | StorageDealVerifyData | StorageDealReserveProviderFunds
  | StorageDealReserveClientFunds | StorageDealProviderFunding | StorageDealClientFunding | StorageDealPublish
  | StorageDealPublishing | StorageDealError | StorageDealProviderTransferAwaitRestart
  | StorageDealClientTransferRestart | StorageDealAwaitingPreCommit | StorageDealTransferQueued | StorageDealOther nat

text \<open>\<open>types.PieceStatus\<close> is a string; the states are those \<open>src/cli/market.go\<close> lists.\<close>

type_synonym PieceStatus = string

definition Undefine :: PieceStatus where "Undefine = ''Undefine''"
definition Assigned :: PieceStatus where "Assigned = ''Assigned''"
definition Packing :: PieceStatus where "Packing = ''Packing''"
definition Proving :: PieceStatus where "Proving = ''Proving''"

lemma Undefine_not_Assigned [simp]: "Undefine \<noteq> Assigned" "Assigned \<noteq> Undefine" "Undefine \<noteq> []" "Assigned \<noteq> []"
  by (simp_all add: Undefine_def Assigned_def)

record DataRef =
  TransferType :: string
  Root :: cid
  refPieceCid :: "cid option"
  refPieceSize :: u64
  RawBlockSize :: u64

record MinerDeal =
  Proposal :: DealProposal
  ClientSignature :: bytes
  ProposalCid :: cid
  mdAddFundsCid :: "cid option"
  PublishCid :: "cid option"
  mdMiner :: string
  mdClient :: string
  mdState :: StorageDealStatus
  PiecePath :: string
  PayloadSize :: u64
  MetadataPath :: string
  SlashEpoch :: int
  FastRetrieval :: bool
  mdMessage :: string
  FundsReserved :: "int option"
  Ref :: DataRef
  AvailableForRetrieval :: bool
  InboundCAR :: string
  DealID :: u64
  SectorNumber :: u64
  Offset :: u64
  mdPieceStatus :: PieceStatus
  CreationTime :: int
  TransferChannelID :: "ChannelID option"

record DealInfoIncludePath =
  diProposal :: DealProposal
  diOffset :: u64
  diLength :: u64
  diPayloadSize :: u64
  diDealID :: u64
  diTotalStorageFee :: int
  diFastRetrieval :: bool
  diPublishCid :: cid

record GetDealSpec =
  MaxPiece :: int
  MaxPieceSize :: u64
  MinPiece :: int
  MinPieceSize :: u64
  MinUsedSpace :: u64
  spStartEpoch :: int
  spEndEpoch :: int

section \<open>Concrete deals\<close>

text \<open>Deals for concrete runs.\<close>

definition demo_prop :: "u64 \<Rightarrow> DealProposal" where
  "demo_prop s = \<lparr>PieceCID = ''piece'', PieceSize = s, VerifiedDeal = False, Client = ''client'', Provider = ''miner'',
     Label = ''label'', StartEpoch = 10, EndEpoch = 20, StoragePricePerEpoch = 1, ProviderCollateral = 0, ClientCollateral = 0\<rparr>"

definition demo_md :: "cid \<Rightarrow> u64 \<Rightarrow> u64 \<Rightarrow> MinerDeal" where
  "demo_md c i s = \<lparr>Proposal = demo_prop s, ClientSignature = [], ProposalCid = c, mdAddFundsCid = None, PublishCid = Some ''pub'',
     mdMiner = ''peer'', mdClient = ''cpeer'', mdState = StorageDealStaged, PiecePath = [], PayloadSize = 100, MetadataPath = [],
     SlashEpoch = 0, FastRetrieval = True, mdMessage = [], FundsReserved = None, Ref = \<lparr>TransferType = ''graphsync'', Root = ''root'', refPieceCid = None, refPieceSize = 0, RawBlockSize = 0\<rparr>,
     AvailableForRetrieval = False, InboundCAR = ''car'', DealID = i, SectorNumber = 0, Offset = 0, mdPieceStatus = Undefine, CreationTime = 0, TransferChannelID = None\<rparr>"

lemmas demo_deal_defs = demo_prop_def demo_md_def

end
