(* ===== verification/Badger_Travel.thy ===== *)
theory Badger_Travel
  imports Datastore
begin

text \<open>
  Walking a datastore: \<open>travelDeals\<close> of \<open>src/models/badger/utils.go\<close>, which the badger repositories of storage deals,
  retrieval deals and asks share, with the lemmas that say what a walk collects or finds.
\<close>

section \<open>The walk\<close>

text \<open>
  \<open>travelDeals\<close> calls the callback on every decoded entry; the callback updates the variables it
  captures (\<open>'a\<close>) and returns whether to stop and an error. An entry that carries an error ends the walk
  with the error of the query call, which is nil. A callback error is read from the first return value,
  a \<open>bool\<close>, so the conversion to an error panics.
\<close>

type_synonym ('d, 'a) callback = "'d \<Rightarrow> 'a \<Rightarrow> 'a \<times> bool \<times> error option"

fun travelLoop :: "('d, 'v) codec_ops \<Rightarrow> ('d, 'a) callback \<Rightarrow> 'a \<Rightarrow> ('v res) list \<Rightarrow> ('a \<times> error option) outcome" where
  "travelLoop cd cb a [] = Ret (a, None)"
| "travelLoop cd cb a (Inl e # rs) = Ret (a, None)"
| "travelLoop cd cb a (Inr v # rs) =
     (case Load cd v of
        Inl e \<Rightarrow> Ret (a, Some e)
      | Inr d \<Rightarrow>
          (case cb d a of
             (a', True, err) \<Rightarrow> Ret (a', None)
           | (a', False, Some e) \<Rightarrow> Panic ''interface conversion: interface {} is bool, not error''
           | (a', False, None) \<Rightarrow> travelLoop cd cb a' rs))"

definition travelDeals :: "('s, 'v) datastore_ops \<Rightarrow> ('d, 'v) codec_ops \<Rightarrow> 's \<Rightarrow> ('d, 'a) callback \<Rightarrow> 'a \<Rightarrow> ('a \<times> error option) outcome" where
  "travelDeals ds cd s cb a = (case dsQuery ds s [] of
     Inl e \<Rightarrow> Ret (a, Some e)
   | Inr rs \<Rightarrow> travelLoop cd cb a rs)"

text \<open>The tail \<open>if err != nil return err\<close> followed by the rest of the function.\<close>

definition afterTravel :: "('a \<times> error option) outcome \<Rightarrow> ('a \<Rightarrow> 'b res) \<Rightarrow> 'b res outcome" where
  "afterTravel t k = (case t of Panic m \<Rightarrow> Panic m | Ret (a, Some e) \<Rightarrow> Ret (Inl e) | Ret (a, None) \<Rightarrow> Ret (k a))"

definition orNotFound :: "'a list \<Rightarrow> 'a list res" where
  "orNotFound xs = (if length xs = 0 then Inl ErrNotFound else Inr xs)"

text \<open>Collecting the values that pass a test.\<close>

definition collectIf :: "('d \<Rightarrow> bool) \<Rightarrow> ('d, 'd list) callback" where
  "collectIf P d acc = (if P d then (acc @ [d], False, None) else (acc, False, None))"

section \<open>What a walk sees\<close>

text \<open>The values a walk sees: those before the first entry that carries an error or does not decode, and the
  error of the latter.\<close>

fun seen :: "('d, 'v) codec_ops \<Rightarrow> ('v res) list \<Rightarrow> 'd list \<times> error option" where
  "seen cd [] = ([], None)"
| "seen cd (Inl e # rs) = ([], None)"
| "seen cd (Inr v # rs) = (case Load cd v of Inl e \<Rightarrow> ([], Some e) | Inr d \<Rightarrow> (case seen cd rs of (ds, e) \<Rightarrow> (d # ds, e)))"

lemma seen_nth:
  "i < length (fst (seen cd rs)) \<Longrightarrow> i < length rs \<and> (\<exists>v. rs ! i = Inr v \<and> Load cd v = Inr (fst (seen cd rs) ! i))"
proof (induction cd rs arbitrary: i rule: seen.induct)
  case (3 cd v rs)
  then show ?case by (cases i) (auto split: sum.splits prod.splits)
qed auto

lemma travelLoop_collect:
  "travelLoop cd (collectIf P) acc rs = Ret (acc @ filter P (fst (seen cd rs)), snd (seen cd rs))"
proof (induction cd rs arbitrary: acc rule: seen.induct)
  case (3 cd v rs)
  then show ?case by (cases "Load cd v") (auto simp: collectIf_def split: prod.splits)
qed auto

lemma travelLoop_first:
  "travelLoop cd (\<lambda>d a. if P d then (Some d, True, None) else (a, False, None)) a rs =
     (case find P (fst (seen cd rs)) of Some d \<Rightarrow> Ret (Some d, None) | None \<Rightarrow> Ret (a, snd (seen cd rs)))"
proof (induction cd rs rule: seen.induct)
  case (3 cd v rs)
  then show ?case by (cases "Load cd v"; cases "seen cd rs") (auto split: option.splits)
qed auto

end
