(* ===== verification/Storage_Deal_Repo.thy ===== *)
theory Storage_Deal_Repo
  imports Deal_Types Badger_Travel "HOL-Library.Sublist"
begin

text \<open>
  Persistence of storage deals: the interface \<open>StorageDealRepo\<close> (\<open>src/models/repo/repo.go\<close>) as a record of
  operations with a locale of laws, its badger implementation (\<open>src/models/badger/storage_deal.go\<close>, over
  \<open>travelDeals\<close> of \<open>src/models/badger/utils.go\<close>), and the proof that the implementation satisfies the laws over
  every lawful datastore and codec.
\<close>

section \<open>The interface\<close>

text \<open>An operation that walks the deals may panic in its callback handling, so it returns an outcome.\<close>

record PieceDealInfo =
  pdDealID :: u64
  pdSectorID :: u64
  pdOffset :: u64
  pdLength :: u64

record 'r StorageDealRepo =
  sdSaveDeal :: "'r \<Rightarrow> MinerDeal \<Rightarrow> 'r \<times> error option"
  sdUpdateDealStatus :: "'r \<Rightarrow> cid \<Rightarrow> StorageDealStatus \<Rightarrow> PieceStatus \<Rightarrow> 'r \<times> error option"
  sdGetDeal :: "'r \<Rightarrow> cid \<Rightarrow> MinerDeal res"
  sdGetDealByDealID :: "'r \<Rightarrow> address \<Rightarrow> u64 \<Rightarrow> MinerDeal res outcome"
  sdGetDeals :: "'r \<Rightarrow> address \<Rightarrow> int \<Rightarrow> int \<Rightarrow> MinerDeal list res outcome"
  sdGetDealsByPieceStatus :: "'r \<Rightarrow> address \<Rightarrow> PieceStatus \<Rightarrow> MinerDeal list res outcome"
  sdGetDealsByDataCidAndDealStatus :: "'r \<Rightarrow> address \<Rightarrow> cid \<Rightarrow> PieceStatus list \<Rightarrow> MinerDeal list res outcome"
  sdGetDealsByPieceCidAndStatus :: "'r \<Rightarrow> cid \<Rightarrow> StorageDealStatus list \<Rightarrow> MinerDeal list res outcome"
  sdGetDealByAddrAndStatus :: "'r \<Rightarrow> address \<Rightarrow> StorageDealStatus list \<Rightarrow> MinerDeal list res outcome"
  sdListDealByAddr :: "'r \<Rightarrow> address \<Rightarrow> MinerDeal list res outcome"
  sdListDeal :: "'r \<Rightarrow> MinerDeal list res outcome"
  sdGetPieceInfo :: "'r \<Rightarrow> cid \<Rightarrow> PieceDealInfo list res outcome"
  sdGetPieceSize :: "'r \<Rightarrow> cid \<Rightarrow> (u64 \<times> u64) res outcome"
  sdListPieceInfoKeys :: "'r \<Rightarrow> cid list res outcome"

text \<open>What the clients of the interface use: reads return stored deals, each deal once.\<close>

locale storage_deal_repo =
  fixes repo :: "'r StorageDealRepo" and view :: "'r \<Rightarrow> cid \<Rightarrow> MinerDeal option" and invar :: "'r \<Rightarrow> bool"
  assumes save_ok: "sdSaveDeal repo r d = (r', None) \<Longrightarrow> view r' = (view r)(ProposalCid d \<mapsto> d)"
    and save_failed: "sdSaveDeal repo r d = (r', Some e) \<Longrightarrow> view r' = view r"
    and save_invar: "invar r \<Longrightarrow> sdSaveDeal repo r d = (r', err) \<Longrightarrow> invar r'"
    and get_sound: "invar r \<Longrightarrow> sdGetDeal repo r c = Inr d \<Longrightarrow> view r c = Some d"
    and view_key: "invar r \<Longrightarrow> view r c = Some d \<Longrightarrow> ProposalCid d = c"
    and by_id_returns: "\<exists>x. sdGetDealByDealID repo r m i = Ret x"
    and by_id_sound: "invar r \<Longrightarrow> sdGetDealByDealID repo r m i = Ret (Inr d) \<Longrightarrow>
      view r (ProposalCid d) = Some d \<and> Provider (Proposal d) = m \<and> DealID d = i"
    and by_piece_status_returns: "\<exists>x. sdGetDealsByPieceStatus repo r m ps = Ret x"
    and by_piece_status_sound: "invar r \<Longrightarrow> sdGetDealsByPieceStatus repo r m ps = Ret (Inr ds) \<Longrightarrow>
      distinct (map ProposalCid ds) \<and>
      (\<forall>d \<in> set ds. view r (ProposalCid d) = Some d \<and> mdPieceStatus d = ps \<and> (m = Undef \<or> Provider (Proposal d) = m))"
    and get_deals_returns: "\<exists>x. sdGetDeals repo r m pi psz = Ret x"
    and get_deals_sound: "invar r \<Longrightarrow> sdGetDeals repo r m pi psz = Ret (Inr ds) \<Longrightarrow>
      distinct (map ProposalCid ds) \<and> (\<forall>d \<in> set ds. view r (ProposalCid d) = Some d \<and> Provider (Proposal d) = m)"
begin

lemma save_view: "sdSaveDeal repo r d = (r', err) \<Longrightarrow>
    view r' = (case err of None \<Rightarrow> (view r)(ProposalCid d \<mapsto> d) | Some e \<Rightarrow> view r)"
  by (cases err) (auto dest: save_ok save_failed)

end

section \<open>The badger implementation\<close>

text \<open>The datastore of the deals, the CBOR codec and \<open>statestore.ToKey\<close>.\<close>

record ('s, 'v) deal_store =
  stDs :: "('s, 'v) datastore_ops"
  stCodec :: "(MinerDeal, 'v) codec_ops"
  ToKey :: "cid \<Rightarrow> ds_key"

definition SaveDeal :: "('s, 'v) deal_store \<Rightarrow> 's \<Rightarrow> MinerDeal \<Rightarrow> 's \<times> error option" where
  "SaveDeal st s d = (case Dump (stCodec st) d of
     Inl e \<Rightarrow> (s, Some e)
   | Inr b \<Rightarrow> dsPut (stDs st) s (ToKey st (ProposalCid d)) b)"

definition GetDeal :: "('s, 'v) deal_store \<Rightarrow> 's \<Rightarrow> cid \<Rightarrow> MinerDeal res" where
  "GetDeal st s c = tryE (dsGet (stDs st) s (ToKey st c)) (\<lambda>value. tryE (Load (stCodec st) value) Inr)"

definition GetDeals :: "('s, 'v) deal_store \<Rightarrow> 's \<Rightarrow> address \<Rightarrow> int \<Rightarrow> int \<Rightarrow> MinerDeal list res outcome" where
  "GetDeals st s miner pageIndex pageSize =
     (let startIdx = pageIndex * pageSize in
      afterTravel (travelDeals (stDs st) (stCodec st) s
        (\<lambda>deal (idx, storageDeals).
           if Provider (Proposal deal) \<noteq> miner then ((idx, storageDeals), False, None)
           else
             (let idx = idx + 1 in
              if idx - 1 < startIdx then ((idx, storageDeals), False, None)
              else
                (let storageDeals = storageDeals @ [deal] in
                 if int (length storageDeals) \<ge> pageSize then ((idx, storageDeals), True, None)
                 else ((idx, storageDeals), False, None))))
        (0, []))
      (\<lambda>(idx, storageDeals). orNotFound storageDeals))"

definition GetDealsByPieceCidAndStatus ::
    "('s, 'v) deal_store \<Rightarrow> 's \<Rightarrow> cid \<Rightarrow> StorageDealStatus list \<Rightarrow> MinerDeal list res outcome" where
  "GetDealsByPieceCidAndStatus st s piececid statues =
     afterTravel (travelDeals (stDs st) (stCodec st) s (collectIf (\<lambda>deal. PieceCID (Proposal deal) = piececid \<and> mdState deal \<in> set statues)) []) orNotFound"

definition GetDealsByDataCidAndDealStatus ::
    "('s, 'v) deal_store \<Rightarrow> 's \<Rightarrow> address \<Rightarrow> cid \<Rightarrow> PieceStatus list \<Rightarrow> MinerDeal list res outcome" where
  "GetDealsByDataCidAndDealStatus st s mAddr dataCid pieceStatuss =
     afterTravel (travelDeals (stDs st) (stCodec st) s (collectIf (\<lambda>deal.
        \<not> (mAddr \<noteq> Undef \<and> Provider (Proposal deal) \<noteq> mAddr) \<and> Root (Ref deal) = dataCid \<and>
        mdPieceStatus deal \<in> set pieceStatuss)) []) orNotFound"

definition GetDealByAddrAndStatus ::
    "('s, 'v) deal_store \<Rightarrow> 's \<Rightarrow> address \<Rightarrow> StorageDealStatus list \<Rightarrow> MinerDeal list res outcome" where
  "GetDealByAddrAndStatus st s addr statues =
     afterTravel (travelDeals (stDs st) (stCodec st) s (collectIf (\<lambda>deal.
        (addr = Undef \<or> Provider (Proposal deal) = addr) \<and> mdState deal \<in> set statues)) []) orNotFound"

definition UpdateDealStatus ::
    "('s, 'v) deal_store \<Rightarrow> 's \<Rightarrow> cid \<Rightarrow> StorageDealStatus \<Rightarrow> PieceStatus \<Rightarrow> 's \<times> error option" where
  "UpdateDealStatus st s proposalCid status pieceState =
     (case GetDeal st s proposalCid of
        Inl e \<Rightarrow> (s, Some e)
      | Inr deal \<Rightarrow>
          (let (deal, updateColumns) = (if status \<noteq> StorageDealUnknown then (deal\<lparr>mdState := status\<rparr>, 1) else (deal, 0::int));
               (deal, updateColumns) = (if length pieceState \<noteq> 0 then (deal\<lparr>mdPieceStatus := pieceState\<rparr>, updateColumns + 1)
                                        else (deal, updateColumns))
           in if updateColumns = 0 then (s, None) else SaveDeal st s deal))"

definition ListDealByAddr :: "('s, 'v) deal_store \<Rightarrow> 's \<Rightarrow> address \<Rightarrow> MinerDeal list res outcome" where
  "ListDealByAddr st s miner =
     afterTravel (travelDeals (stDs st) (stCodec st) s (collectIf (\<lambda>deal. Provider (Proposal deal) = miner)) []) Inr"

definition ListDeal :: "('s, 'v) deal_store \<Rightarrow> 's \<Rightarrow> MinerDeal list res outcome" where
  "ListDeal st s = afterTravel (travelDeals (stDs st) (stCodec st) s (collectIf (\<lambda>deal. True)) []) Inr"

definition pieceDealInfo :: "MinerDeal \<Rightarrow> PieceDealInfo" where
  "pieceDealInfo deal = \<lparr>pdDealID = DealID deal, pdSectorID = SectorNumber deal, pdOffset = Offset deal,
     pdLength = PieceSize (Proposal deal)\<rparr>"

definition GetPieceInfo :: "('s, 'v) deal_store \<Rightarrow> 's \<Rightarrow> cid \<Rightarrow> PieceDealInfo list res outcome" where
  "GetPieceInfo st s pieceCID =
     afterTravel (travelDeals (stDs st) (stCodec st) s
       (\<lambda>deal infos. (if PieceCID (Proposal deal) = pieceCID then infos @ [pieceDealInfo deal] else infos, False, None)) [])
     orNotFound"

text \<open>The keys of a Go map come in no particular order: \<open>mapOrder\<close> is the order the runtime picks.\<close>

definition ListPieceInfoKeys :: "(cid list \<Rightarrow> cid list) \<Rightarrow> ('s, 'v) deal_store \<Rightarrow> 's \<Rightarrow> cid list res outcome" where
  "ListPieceInfoKeys mapOrder st s =
     afterTravel (travelDeals (stDs st) (stCodec st) s (\<lambda>deal cids. (List.insert (PieceCID (Proposal deal)) cids, False, None)) [])
     (\<lambda>cids. Inr (mapOrder cids))"

definition GetDealByDealID :: "('s, 'v) deal_store \<Rightarrow> 's \<Rightarrow> address \<Rightarrow> u64 \<Rightarrow> MinerDeal res outcome" where
  "GetDealByDealID st s mAddr dealID =
     afterTravel (travelDeals (stDs st) (stCodec st) s
       (\<lambda>inDeal deal. let stop = (Provider (Proposal inDeal) = mAddr \<and> DealID inDeal = dealID)
                       in (if stop then Some inDeal else deal, stop, None)) None)
     (\<lambda>deal. case deal of None \<Rightarrow> Inl ErrNotFound | Some d \<Rightarrow> Inr d)"

text \<open>\<open>return deals, travelDeals(...)\<close>: the call fills \<open>deals\<close> before the result is read.\<close>

definition GetDealsByPieceStatus :: "('s, 'v) deal_store \<Rightarrow> 's \<Rightarrow> address \<Rightarrow> PieceStatus \<Rightarrow> MinerDeal list res outcome" where
  "GetDealsByPieceStatus st s mAddr pieceStatus =
     afterTravel (travelDeals (stDs st) (stCodec st) s (collectIf (\<lambda>inDeal.
        mdPieceStatus inDeal = pieceStatus \<and> \<not> (mAddr \<noteq> Undef \<and> Provider (Proposal inDeal) \<noteq> mAddr))) []) Inr"

text \<open>A failed walk gives the sizes 0 and no error.\<close>

definition GetPieceSize :: "('s, 'v) deal_store \<Rightarrow> 's \<Rightarrow> cid \<Rightarrow> (u64 \<times> u64) res outcome" where
  "GetPieceSize st s pieceCID =
     (case travelDeals (stDs st) (stCodec st) s
        (\<lambda>inDeal deal. if PieceCID (Proposal inDeal) = pieceCID then (Some inDeal, True, None) else (deal, False, None)) None of
        Panic m \<Rightarrow> Panic m
      | Ret (deal, Some e) \<Rightarrow> Ret (Inr (0, 0))
      | Ret (None, None) \<Rightarrow> Ret (Inl ErrNotFound)
      | Ret (Some deal, None) \<Rightarrow> Ret (Inr (PayloadSize deal, PieceSize (Proposal deal))))"

definition NewStorageDealRepo :: "(cid list \<Rightarrow> cid list) \<Rightarrow> ('s, 'v) deal_store \<Rightarrow> 's StorageDealRepo" where
  "NewStorageDealRepo mapOrder st = \<lparr>
     sdSaveDeal = SaveDeal st, sdUpdateDealStatus = UpdateDealStatus st, sdGetDeal = GetDeal st,
     sdGetDealByDealID = GetDealByDealID st, sdGetDeals = GetDeals st, sdGetDealsByPieceStatus = GetDealsByPieceStatus st,
     sdGetDealsByDataCidAndDealStatus = GetDealsByDataCidAndDealStatus st,
     sdGetDealsByPieceCidAndStatus = GetDealsByPieceCidAndStatus st, sdGetDealByAddrAndStatus = GetDealByAddrAndStatus st,
     sdListDealByAddr = ListDealByAddr st, sdListDeal = ListDeal st, sdGetPieceInfo = GetPieceInfo st,
     sdGetPieceSize = GetPieceSize st, sdListPieceInfoKeys = ListPieceInfoKeys mapOrder st\<rparr>"

lemma NewStorageDealRepo_sel [simp]:
  "sdSaveDeal (NewStorageDealRepo mo st) = SaveDeal st"
  "sdUpdateDealStatus (NewStorageDealRepo mo st) = UpdateDealStatus st"
  "sdGetDeal (NewStorageDealRepo mo st) = GetDeal st"
  "sdGetDealByDealID (NewStorageDealRepo mo st) = GetDealByDealID st"
  "sdGetDeals (NewStorageDealRepo mo st) = GetDeals st"
  "sdGetDealsByPieceStatus (NewStorageDealRepo mo st) = GetDealsByPieceStatus st"
  by (simp_all add: NewStorageDealRepo_def)

section \<open>Pages\<close>

definition pageCallback :: "address \<Rightarrow> int \<Rightarrow> int \<Rightarrow> (MinerDeal, int \<times> MinerDeal list) callback" where
  "pageCallback miner startIdx pageSize deal a = (case a of (idx, storageDeals) \<Rightarrow>
     if Provider (Proposal deal) \<noteq> miner then ((idx, storageDeals), False, None)
     else if idx < startIdx then ((idx + 1, storageDeals), False, None)
     else ((idx + 1, storageDeals @ [deal]), int (length (storageDeals @ [deal])) \<ge> pageSize, None))"

lemma pageCallback_simps:
  "Provider (Proposal d) \<noteq> miner \<Longrightarrow> pageCallback miner start psz d (idx, ds) = ((idx, ds), False, None)"
  "Provider (Proposal d) = miner \<Longrightarrow> idx < start \<Longrightarrow> pageCallback miner start psz d (idx, ds) = ((idx + 1, ds), False, None)"
  "Provider (Proposal d) = miner \<Longrightarrow> start \<le> idx \<Longrightarrow>
    pageCallback miner start psz d (idx, ds) = ((idx + 1, ds @ [d]), psz \<le> int (Suc (length ds)), None)"
  by (simp_all add: pageCallback_def)

lemma GetDeals_page:
  "GetDeals st s miner pageIndex pageSize =
     afterTravel (travelDeals (stDs st) (stCodec st) s (pageCallback miner (pageIndex * pageSize) pageSize) (0, [])) (\<lambda>(idx, ds). orNotFound ds)"
proof -
  have "(\<lambda>deal (idx, storageDeals).
           if Provider (Proposal deal) \<noteq> miner then ((idx, storageDeals), False, None)
           else
             (let idx = idx + 1 in
              if idx - 1 < pageIndex * pageSize then ((idx, storageDeals), False, None)
              else
                (let storageDeals = storageDeals @ [deal] in
                 if int (length storageDeals) \<ge> pageSize then ((idx, storageDeals), True, None)
                 else ((idx, storageDeals), False, None)))) = pageCallback miner (pageIndex * pageSize) pageSize"
    by (auto simp: fun_eq_iff pageCallback_def Let_def)
  then show ?thesis by (simp add: GetDeals_def Let_def)
qed

text \<open>The deals of a page: skip the deals before the page, then take the page.\<close>

lemma travelLoop_page:
  fixes start psz :: nat
  assumes "length acc < psz" "length acc = idx - start"
  shows "\<exists>idx' e. travelLoop cd (pageCallback miner (int start) (int psz)) (int idx, acc) rs =
      Ret ((idx', acc @ take (psz - length acc) (drop (start - idx) (filter (\<lambda>d. Provider (Proposal d) = miner) (fst (seen cd rs))))), e)
    \<and> (e = None \<or> e = snd (seen cd rs))"
  using assms
proof (induction cd rs arbitrary: acc idx rule: seen.induct)
  case (3 cd v rs)
  show ?case
  proof (cases "Load cd v")
    case (Inr d)
    obtain ds e where ds: "seen cd rs = (ds, e)" by (cases "seen cd rs")
    note IH = "3.IH" [OF Inr]
    consider "Provider (Proposal d) \<noteq> miner" | "Provider (Proposal d) = miner" "idx < start"
      | "Provider (Proposal d) = miner" "start \<le> idx" "Suc (length acc) < psz"
      | "Provider (Proposal d) = miner" "start \<le> idx" "Suc (length acc) = psz"
      using "3.prems"(1) by linarith
    then show ?thesis
    proof cases
      case 1
      then show ?thesis using IH [of acc idx] "3.prems" Inr ds by (simp add: pageCallback_simps)
    next
      case 2
      then have "start - idx = Suc (start - Suc idx)" by simp
      then show ?thesis using IH [of acc "Suc idx"] "3.prems" Inr ds 2 by (simp add: pageCallback_simps add.commute)
    next
      case 3
      then have "psz - length acc = Suc (psz - Suc (length acc))" "\<not> int psz \<le> int (Suc (length acc))"
        "length (acc @ [d]) = Suc idx - start" using "3.prems"(2) by simp_all
      moreover have "pageCallback miner (int start) (int psz) d (int idx, acc) = ((int (Suc idx), acc @ [d]), False, None)"
        using 3 calculation(2) by (simp add: pageCallback_simps)
      ultimately show ?thesis using IH [of "acc @ [d]" "Suc idx"] Inr ds 3 by simp
    next
      case 4
      then have "pageCallback miner (int start) (int psz) d (int idx, acc) = ((int (Suc idx), acc @ [d]), True, None)"
        by (simp add: pageCallback_simps)
      then show ?thesis using 4 Inr ds by auto
    qed
  qed auto
qed auto

text \<open>Whatever the page, the deals collected are among the deals seen, in order.\<close>

lemma pageLoop_subseq:
  "travelLoop cd (pageCallback m start psz) (idx, acc) rs = Ret ((idx', ds), e) \<Longrightarrow>
    \<exists>l. ds = acc @ l \<and> subseq l (filter (\<lambda>d. Provider (Proposal d) = m) (fst (seen cd rs)))"
proof (induction cd rs arbitrary: acc idx rule: seen.induct)
  case (3 cd v rs)
  show ?case
  proof (cases "Load cd v")
    case (Inr d)
    consider "Provider (Proposal d) \<noteq> m" | "Provider (Proposal d) = m" "idx < start" | "Provider (Proposal d) = m" "start \<le> idx"
      by linarith
    then show ?thesis
    proof cases
      case 1
      then show ?thesis using "3.IH" [OF Inr, of idx acc] "3.prems" Inr by (auto simp: pageCallback_simps split: prod.splits)
    next
      case 2
      then show ?thesis using "3.IH" [OF Inr, of "idx + 1" acc] "3.prems" Inr
        by (force simp: pageCallback_simps split: prod.splits)
    next
      case 3
      then show ?thesis using "3.IH" [OF Inr, of "idx + 1" "acc @ [d]"] "3.prems" Inr
        by (cases "psz \<le> int (Suc (length acc))"; cases "seen cd rs") (force simp: pageCallback_simps)+
    qed
  qed (use "3.prems" in auto)
qed auto

lemma subseq_set: "subseq xs ys \<Longrightarrow> x \<in> set xs \<Longrightarrow> x \<in> set ys"
  by (metis notin_set_nthsI subseq_conv_nths)

lemma subseq_map_distinct: "subseq xs ys \<Longrightarrow> distinct (map f ys) \<Longrightarrow> distinct (map f xs)"
  by (metis distinct_nthsI nths_map subseq_conv_nths)

lemma pageLoop_returns: "\<exists>x. travelLoop cd (pageCallback m start psz) a rs = Ret x"
proof (induction cd rs arbitrary: a rule: seen.induct)
  case (3 cd v rs)
  then show ?case by (cases "Load cd v") (auto simp: pageCallback_def split: prod.splits bool.splits option.splits)
qed auto

lemma GetDealByDealID_alt:
  "GetDealByDealID st s m i =
     afterTravel (travelDeals (stDs st) (stCodec st) s (\<lambda>d a. if Provider (Proposal d) = m \<and> DealID d = i then (Some d, True, None) else (a, False, None)) None)
     (\<lambda>deal. case deal of None \<Rightarrow> Inl ErrNotFound | Some d \<Rightarrow> Inr d)"
proof -
  have "(\<lambda>(inDeal::MinerDeal) deal. let stop = (Provider (Proposal inDeal) = m \<and> DealID inDeal = i)
          in (if stop then Some inDeal else deal, stop, None :: error option)) =
        (\<lambda>d a. if Provider (Proposal d) = m \<and> DealID d = i then (Some d, True, None) else (a, False, None))"
    by (auto simp: fun_eq_iff Let_def)
  then show ?thesis by (simp add: GetDealByDealID_def)
qed

lemma GetDealByDealID_returns: "\<exists>x. GetDealByDealID st s m i = Ret x"
  by (auto simp: GetDealByDealID_alt afterTravel_def travelDeals_def travelLoop_first split: sum.splits option.splits)

lemma GetDeals_returns: "\<exists>x. GetDeals st s m pi psz = Ret x"
proof (cases "dsQuery (stDs st) s []")
  case (Inr rs)
  obtain a e where "travelLoop (stCodec st) (pageCallback m (pi * psz) psz) (0, []) rs = Ret (a, e)"
    using pageLoop_returns [of "stCodec st" m "pi * psz" psz "(0, [])" rs] by auto
  then show ?thesis using Inr by (cases e) (simp_all add: GetDeals_page afterTravel_def travelDeals_def)
qed (simp add: GetDeals_page afterTravel_def travelDeals_def)

section \<open>The badger repository satisfies the interface\<close>

definition deal_view :: "('s \<Rightarrow> ds_key \<Rightarrow> 'v option) \<Rightarrow> ('s, 'v) deal_store \<Rightarrow> 's \<Rightarrow> cid \<Rightarrow> MinerDeal option" where
  "deal_view contents st s c = (case contents s (ToKey st c) of
     None \<Rightarrow> None | Some v \<Rightarrow> (case Load (stCodec st) v of Inl _ \<Rightarrow> None | Inr d \<Rightarrow> Some d))"

definition deal_invar :: "('s \<Rightarrow> ds_key \<Rightarrow> 'v option) \<Rightarrow> ('s, 'v) deal_store \<Rightarrow> 's \<Rightarrow> bool" where
  "deal_invar contents st s \<longleftrightarrow> (\<forall>k v. contents s k = Some v \<longrightarrow>
     (\<exists>d. Load (stCodec st) v = Inr d \<and> k = ToKey st (ProposalCid d)))"

locale badger_deals = datastore "stDs st" contents + codec "stCodec st"
  for st :: "('s, 'v) deal_store" and contents +
  assumes toKey_inj: "ToKey st c = ToKey st c' \<Longrightarrow> c = c'"
begin

lemma saved_contents:
  assumes "SaveDeal st s d = (s', None)"
  obtains b where "Load (stCodec st) b = Inr d" "contents s' = (contents s)(ToKey st (ProposalCid d) \<mapsto> b)"
  using assms by (auto simp: SaveDeal_def split: sum.splits dest: load_dump put_ok)

lemma failed_save_contents: "SaveDeal st s d = (s', Some e) \<Longrightarrow> contents s' = contents s"
  by (auto simp: SaveDeal_def split: sum.splits dest: put_failed)

lemma saved_view:
  assumes "SaveDeal st s d = (s', None)"
  shows "deal_view contents st s' = (deal_view contents st s)(ProposalCid d \<mapsto> d)"
proof -
  obtain b where "Load (stCodec st) b = Inr d" "contents s' = (contents s)(ToKey st (ProposalCid d) \<mapsto> b)"
    using assms by (rule saved_contents)
  then show ?thesis using toKey_inj by (auto simp: deal_view_def fun_eq_iff)
qed

lemma save_keeps_invar:
  assumes "deal_invar contents st s" "SaveDeal st s d = (s', err)"
  shows "deal_invar contents st s'"
proof (cases err)
  case None
  obtain b where "Load (stCodec st) b = Inr d" "contents s' = (contents s)(ToKey st (ProposalCid d) \<mapsto> b)"
    using saved_contents [of s d s'] assms(2) None by blast
  then show ?thesis using assms(1) by (auto simp: deal_invar_def)
next
  case (Some e)
  then show ?thesis using assms failed_save_contents [of s d s' e] by (simp add: deal_invar_def)
qed

lemma get_view: "GetDeal st s c = Inr d \<Longrightarrow> deal_view contents st s c = Some d"
  by (auto simp: GetDeal_def deal_view_def tryE_Inr_iff dest: get_value split: sum.splits)

lemma view_proposal: "deal_invar contents st s \<Longrightarrow> deal_view contents st s c = Some d \<Longrightarrow> ProposalCid d = c"
  by (fastforce simp: deal_invar_def deal_view_def split: option.splits sum.splits dest: toKey_inj)

text \<open>A walk sees stored deals, each once.\<close>

lemma seen_stored:
  assumes inv: "deal_invar contents st s" and q: "dsQuery (stDs st) s [] = Inr rs"
  shows "distinct (map ProposalCid (fst (seen (stCodec st) rs))) \<and>
    (\<forall>d \<in> set (fst (seen (stCodec st) rs)). deal_view contents st s (ProposalCid d) = Some d)"
proof -
  let ?ds = "fst (seen (stCodec st) rs)"
  obtain ks where ks: "distinct ks" "length rs = length ks"
    "\<forall>i < length ks. \<forall>v. rs ! i = Inr v \<longrightarrow> contents s (ks ! i) = Some v"
    using query_lists [OF q] by blast
  have e: "i < length ks \<and> ks ! i = ToKey st (ProposalCid (?ds ! i)) \<and> deal_view contents st s (ProposalCid (?ds ! i)) = Some (?ds ! i)"
    if i: "i < length ?ds" for i
  proof -
    obtain v where v: "i < length rs" "rs ! i = Inr v" "Load (stCodec st) v = Inr (?ds ! i)" using seen_nth [OF i] by blast
    then have c: "contents s (ks ! i) = Some v" using ks(2,3) by simp
    then have "ks ! i = ToKey st (ProposalCid (?ds ! i))" using inv v(3) by (fastforce simp: deal_invar_def)
    then show ?thesis using c v ks(2) by (simp add: deal_view_def)
  qed
  have "distinct (map ProposalCid ?ds)"
    unfolding distinct_conv_nth using e ks(1) by (auto simp: nth_eq_iff_index_eq) (metis nth_eq_iff_index_eq)
  then show ?thesis using e by (auto simp: in_set_conv_nth)
qed

lemma collected_stored:
  assumes inv: "deal_invar contents st s"
    and run: "afterTravel (travelDeals (stDs st) (stCodec st) s (collectIf P) []) k = Ret (Inr ds)" and k: "k = Inr \<or> k = orNotFound"
  shows "distinct (map ProposalCid ds) \<and> (\<forall>d \<in> set ds. deal_view contents st s (ProposalCid d) = Some d \<and> P d)"
proof -
  obtain rs where rs: "dsQuery (stDs st) s [] = Inr rs" "ds = filter P (fst (seen (stCodec st) rs))"
    using run k by (auto simp: afterTravel_def travelDeals_def travelLoop_collect orNotFound_def
        split: sum.splits option.splits if_splits)
  show ?thesis using seen_stored [OF inv rs(1)] by (auto simp: rs(2) distinct_map_filter)
qed

lemma by_id_stored:
  assumes inv: "deal_invar contents st s" and run: "GetDealByDealID st s m i = Ret (Inr d)"
  shows "deal_view contents st s (ProposalCid d) = Some d \<and> Provider (Proposal d) = m \<and> DealID d = i"
proof -
  obtain rs where rs: "dsQuery (stDs st) s [] = Inr rs"
    "find (\<lambda>d. Provider (Proposal d) = m \<and> DealID d = i) (fst (seen (stCodec st) rs)) = Some d"
    using run by (auto simp: GetDealByDealID_alt afterTravel_def travelDeals_def travelLoop_first split: sum.splits option.splits)
  then show ?thesis using seen_stored [OF inv rs(1)] by (auto simp: find_Some_iff)
qed

lemma page_stored:
  assumes inv: "deal_invar contents st s" and run: "GetDeals st s m pi psz = Ret (Inr ds)"
  shows "distinct (map ProposalCid ds) \<and> (\<forall>d \<in> set ds. deal_view contents st s (ProposalCid d) = Some d \<and> Provider (Proposal d) = m)"
proof -
  obtain rs idx where rs: "dsQuery (stDs st) s [] = Inr rs"
    "travelLoop (stCodec st) (pageCallback m (pi * psz) psz) (0, []) rs = Ret ((idx, ds), None)"
    using run by (auto simp: GetDeals_page afterTravel_def travelDeals_def orNotFound_def
        split: sum.splits outcome.splits option.splits prod.splits if_splits)
  have sub: "subseq ds (filter (\<lambda>d. Provider (Proposal d) = m) (fst (seen (stCodec st) rs)))"
    using pageLoop_subseq [OF rs(2)] by simp
  note ds = seen_stored [OF inv rs(1)]
  show ?thesis using subseq_map_distinct [OF sub distinct_map_filter] subseq_set [OF sub] ds by auto
qed

end

sublocale badger_deals \<subseteq> repo: storage_deal_repo "NewStorageDealRepo mo st" "deal_view contents st" "deal_invar contents st"
proof unfold_locales
  show "sdSaveDeal (NewStorageDealRepo mo st) r d = (r', Some e) \<Longrightarrow> deal_view contents st r' = deal_view contents st r" for r d r' e
    by (auto simp: deal_view_def fun_eq_iff dest: failed_save_contents)
  show "deal_invar contents st r \<Longrightarrow> sdGetDealsByPieceStatus (NewStorageDealRepo mo st) r m ps = Ret (Inr ds) \<Longrightarrow>
      distinct (map ProposalCid ds) \<and>
      (\<forall>d \<in> set ds. deal_view contents st r (ProposalCid d) = Some d \<and> mdPieceStatus d = ps \<and>
        (m = Undef \<or> Provider (Proposal d) = m))" for r m ps ds
    unfolding NewStorageDealRepo_sel GetDealsByPieceStatus_def by (drule (1) collected_stored) blast+
  show "\<exists>x. sdGetDealByDealID (NewStorageDealRepo mo st) r m i = Ret x" for r m i
    by (auto simp: GetDealByDealID_returns)
  show "\<exists>x. sdGetDealsByPieceStatus (NewStorageDealRepo mo st) r m ps = Ret x" for r m ps
    by (auto simp: GetDealsByPieceStatus_def afterTravel_def travelDeals_def travelLoop_collect split: sum.splits option.splits)
  show "\<exists>x. sdGetDeals (NewStorageDealRepo mo st) r m pi psz = Ret x" for r m pi psz
    by (auto simp: GetDeals_returns)
qed (auto intro: saved_view save_keeps_invar get_view view_proposal dest: by_id_stored page_stored)

context badger_deals
begin

lemma storage_deal_repo_laws:
  "storage_deal_repo (NewStorageDealRepo mo st) (deal_view contents st) (deal_invar contents st)"
  by (rule repo.storage_deal_repo_axioms)

text \<open>\<open>UpdateDealStatus\<close> changes the two states of one stored deal, or nothing.\<close>

lemma update_status_view:
  assumes inv: "deal_invar contents st s" and run: "UpdateDealStatus st s c status ps = (s', None)"
  shows "\<exists>d. deal_view contents st s c = Some d \<and>
    deal_view contents st s' = (deal_view contents st s)(c \<mapsto>
      d\<lparr>mdState := (if status = StorageDealUnknown then mdState d else status),
        mdPieceStatus := (if ps = [] then mdPieceStatus d else ps)\<rparr>)"
proof -
  obtain d where d: "GetDeal st s c = Inr d" using run by (auto simp: UpdateDealStatus_def split: sum.splits)
  have v: "deal_view contents st s c = Some d" by (rule get_view [OF d])
  have c: "ProposalCid d = c" by (rule view_proposal [OF inv v])
  show ?thesis
  proof (cases "status = StorageDealUnknown \<and> ps = []")
    case True
    then have "s' = s" using run d by (simp add: UpdateDealStatus_def)
    then show ?thesis using True v by (auto simp: fun_eq_iff)
  next
    case False
    then have "SaveDeal st s (d\<lparr>mdState := (if status = StorageDealUnknown then mdState d else status),
        mdPieceStatus := (if ps = [] then mdPieceStatus d else ps)\<rparr>) = (s', None)"
      using run d by (auto simp: UpdateDealStatus_def Let_def split: if_splits)
    from saved_view [OF this] show ?thesis using v c by auto
  qed
qed

end

text \<open>The repository over the in-memory datastore.\<close>

definition map_deal_store :: "((ds_key \<times> MinerDeal) list, MinerDeal) deal_store" where
  "map_deal_store = \<lparr>stDs = map_datastore, stCodec = id_codec, ToKey = (\<lambda>c. [c])\<rparr>"

lemma map_deal_store_sel [simp]:
  "stDs map_deal_store = map_datastore" "stCodec map_deal_store = id_codec" "ToKey map_deal_store c = [c]"
  by (simp_all add: map_deal_store_def)

interpretation mapdeals: badger_deals map_deal_store map_of
  unfolding badger_deals_def badger_deals_axioms_def map_deal_store_sel
  by (intro conjI mapds.datastore_axioms idcd.codec_axioms) simp

section \<open>Properties\<close>


definition demo_deals :: "(ds_key \<times> MinerDeal) list" where
  "demo_deals = [([''p1''], demo_md ''p1'' 7 128), ([''p2''], demo_md ''p2'' 8 512)]"

lemma demo_deals_invar: "deal_invar map_of map_deal_store demo_deals"
  by (auto simp: deal_invar_def demo_deals_def demo_md_def)


text \<open>Pages of deals: when every entry of the store can be read, page \<open>i\<close> of size \<open>n\<close> of the deals
  of a provider is the \<open>i\<close>-th block of \<open>n\<close> deals of that provider in store order, and an empty page is the
  error \<open>ErrNotFound\<close>; so the pages partition the deals of the provider.
\<close>

theorem GetDeals_pages:
  assumes q: "dsQuery (stDs st) s [] = Inr rs" and ok: "snd (seen (stCodec st) rs) = None" and n: "0 < n"
  shows "GetDeals st s miner (int i) (int n) =
    Ret (orNotFound (take n (drop (i * n) (filter (\<lambda>d. Provider (Proposal d) = miner) (fst (seen (stCodec st) rs))))))"
proof -
  obtain idx' e where "travelLoop (stCodec st) (pageCallback miner (int (i * n)) (int n)) (int 0, []) rs =
      Ret ((idx', take n (drop (i * n) (filter (\<lambda>d. Provider (Proposal d) = miner) (fst (seen (stCodec st) rs))))), e)"
    "e = None \<or> e = snd (seen (stCodec st) rs)"
    using travelLoop_page [of "[]" n 0 "i * n" "stCodec st" miner rs] n by auto
  then show ?thesis using q ok by (auto simp: GetDeals_page travelDeals_def afterTravel_def)
qed

theorem GetDeals_pages_witness:
  "GetDeals map_deal_store demo_deals ''miner'' 1 1 = Ret (Inr [demo_md ''p2'' 8 512])"
proof -
  have q: "dsQuery (stDs map_deal_store) demo_deals [] = Inr [Inr (demo_md ''p1'' 7 128), Inr (demo_md ''p2'' 8 512)]" by code_simp
  have s: "seen (stCodec map_deal_store) [Inr (demo_md ''p1'' 7 128), Inr (demo_md ''p2'' 8 512)] =
      ([demo_md ''p1'' 7 128, demo_md ''p2'' 8 512], None)" by simp
  show ?thesis using GetDeals_pages [OF q, of 1 "''miner''" 1] unfolding s by (simp add: orNotFound_def demo_md_def demo_prop_def)
qed

text \<open>
  When the datastore cannot be queried, \<open>GetPieceSize\<close> returns the sizes 0 and no error, while
  \<open>GetPieceInfo\<close> of the same piece returns the error.
\<close>

theorem GetPieceSize_hides_error:
  assumes "dsQuery (stDs st) s [] = Inl e"
  shows "GetPieceSize st s pieceCID = Ret (Inr (0, 0)) \<and> GetPieceInfo st s pieceCID = Ret (Inl e)"
  using assms by (simp add: GetPieceSize_def GetPieceInfo_def travelDeals_def afterTravel_def)

definition broken_deal_store :: "((ds_key \<times> MinerDeal) list, MinerDeal) deal_store" where
  "broken_deal_store = map_deal_store\<lparr>stDs := map_datastore\<lparr>dsQuery := (\<lambda>_ _. Inl (ErrApi ''io''))\<rparr>\<rparr>"

theorem GetPieceSize_hides_error_witness:
  "GetPieceSize broken_deal_store demo_deals ''piece'' = Ret (Inr (0, 0)) \<and>
   GetPieceInfo broken_deal_store demo_deals ''piece'' = Ret (Inl (ErrApi ''io''))"
  using GetPieceSize_hides_error [of broken_deal_store demo_deals "ErrApi ''io''" "''piece''"]
  by (simp add: broken_deal_store_def)

end
