(* ===== verification/Deal_Align.thy ===== *)
theory Deal_Align
  imports Deal_Types
begin

text \<open>
  Picking deals for a sector and aligning them: \<open>src/storageprovider/deal_assign_util.go\<close>. Sizes are
  64-bit words. The conversions between padded and unpadded sizes, the validation of a padded size
  and the commitment of a zeroed piece are third-party code: the record \<open>abi_ops\<close>, with its
  documented laws in the locale \<open>abi_sizes\<close>. The bit counting functions of \<open>math/bits\<close> are defined.
\<close>

unbundle bit_operations_syntax

section \<open>Third-party size functions\<close>

record abi_ops =
  Validate :: "u64 \<Rightarrow> error option"
  Unpadded :: "u64 \<Rightarrow> u64"
  Padded :: "u64 \<Rightarrow> u64"
  ZeroPieceCommitment :: "u64 \<Rightarrow> cid"

text \<open>A valid padded size is a power of two of at least 128 bytes; unpadded sizes take 127 of every 128
  bytes.\<close>

definition validSize :: "u64 \<Rightarrow> bool" where
  "validSize s \<longleftrightarrow> (\<exists>k. 7 \<le> k \<and> k < 64 \<and> unat s = 2 ^ k)"

locale abi_sizes =
  fixes ab :: abi_ops
  assumes validate: "Validate ab s = None \<longleftrightarrow> validSize s"
    and unpadded: "128 dvd unat s \<Longrightarrow> unat (Unpadded ab s) * 128 = unat s * 127"
    and padded: "127 dvd unat u \<Longrightarrow> unat u div 127 < 2 ^ 57 \<Longrightarrow> unat (Padded ab u) * 127 = unat u * 128"

section \<open>Bit counting\<close>

definition TrailingZeros64 :: "u64 \<Rightarrow> nat" where
  "TrailingZeros64 x = (case find (bit x) [0..<64] of Some n \<Rightarrow> n | None \<Rightarrow> 64)"

definition OnesCount64 :: "u64 \<Rightarrow> nat" where
  "OnesCount64 x = length (filter (bit x) [0..<64])"

definition nextAlignedPiece :: "u64 \<Rightarrow> u64" where
  "nextAlignedPiece space = push_bit (TrailingZeros64 space) 1"

fun fillersLoop :: "nat \<Rightarrow> u64 \<Rightarrow> u64 list" where
  "fillersLoop 0 toFill = []"
| "fillersLoop (Suc n) toFill =
     (let next = TrailingZeros64 toFill;
          psize = push_bit next 1
      in psize # fillersLoop n (toFill XOR psize))"

definition fillersFromRem :: "u64 \<Rightarrow> u64 list res" where
  "fillersFromRem in' = Inr (fillersLoop (OnesCount64 in') in')"

section \<open>Lowest bits\<close>

lemma TrailingZeros64_bit:
  assumes "x \<noteq> 0"
  shows "TrailingZeros64 x < 64" and "bit x (TrailingZeros64 x)" and "j < TrailingZeros64 x \<Longrightarrow> \<not> bit x j"
proof -
  obtain m where m: "bit x m" using assms bit_eq_iff [of x 0] by auto
  then have "m < 64" using bit_imp_le_length [of x m] by simp
  then have "find (bit x) [0..<64] \<noteq> None" using m by (auto simp: find_None_iff)
  then obtain n where n: "find (bit x) [0..<64] = Some n" by blast
  then have tz: "TrailingZeros64 x = n" by (simp add: TrailingZeros64_def)
  from n obtain i where i: "i < length [0..<64]" "bit x ([0..<64] ! i)" "n = [0..<64] ! i" "\<forall>j<i. \<not> bit x ([0..<64] ! j)"
    unfolding find_Some_iff by blast
  then show "TrailingZeros64 x < 64" "bit x (TrailingZeros64 x)" "j < TrailingZeros64 x \<Longrightarrow> \<not> bit x j"
    by (auto simp: tz)
qed

lemma unat_push_bit_one:
  assumes "k < 64"
  shows "unat (push_bit k (1::u64)) = 2 ^ k"
proof -
  have "unat (push_bit k (1::u64)) = take_bit 64 (push_bit k (unat (1::u64)))"
    by (simp only: unsigned_push_bit_eq) simp
  also have "\<dots> = 2 ^ k mod 2 ^ 64" by (simp only: take_bit_eq_mod push_bit_eq_mult unat_1) simp
  also have "\<dots> = 2 ^ k" by (rule mod_less) (simp only: power_strict_increasing_iff assms)
  finally show ?thesis .
qed

lemma nextAlignedPiece_nat:
  assumes "x \<noteq> 0"
  shows "unat (nextAlignedPiece x) = 2 ^ TrailingZeros64 x"
  unfolding nextAlignedPiece_def by (rule unat_push_bit_one [OF TrailingZeros64_bit(1) [OF assms]])

lemma lowest_bit_dvd:
  assumes "x \<noteq> 0"
  shows "2 ^ TrailingZeros64 x dvd unat x"
proof -
  have "take_bit (TrailingZeros64 x) (unat x) = 0"
  proof (rule bit_eqI)
    fix n show "bit (take_bit (TrailingZeros64 x) (unat x)) n = bit (0::nat) n"
      using TrailingZeros64_bit(3) [OF assms, of n] by (auto simp: bit_take_bit_iff bit_unsigned_iff)
  qed
  then show ?thesis by (simp add: take_bit_eq_0_iff)
qed

text \<open>A power of two that divides a word is at most its lowest bit, and conversely.\<close>

lemma power_dvd_iff_le_lowest:
  assumes "x \<noteq> 0"
  shows "2 ^ j dvd unat x \<longleftrightarrow> j \<le> TrailingZeros64 x"
proof
  assume "2 ^ j dvd unat x"
  then have "take_bit j (unat x) = 0" by (simp add: take_bit_eq_0_iff)
  then have "\<not> bit (unat x) n" if "n < j" for n using that bit_take_bit_iff [of j "unat x" n] by simp
  then show "j \<le> TrailingZeros64 x"
    using TrailingZeros64_bit(2) [OF assms] by (metis bit_unsigned_iff not_le_imp_less possible_bit_nat bit_imp_possible_bit)
next
  assume "j \<le> TrailingZeros64 x"
  then show "2 ^ j dvd unat x" using lowest_bit_dvd [OF assms] by (meson le_imp_power_dvd dvd_trans)
qed

lemma nextAlignedPiece_le: "x \<noteq> 0 \<Longrightarrow> unat (nextAlignedPiece x) \<le> unat x"
  using lowest_bit_dvd [of x] by (simp add: nextAlignedPiece_nat dvd_imp_le unat_gt_0)

lemma nextAlignedPiece_sub:
  assumes "x \<noteq> 0"
  shows "unat (x - nextAlignedPiece x) = unat x - unat (nextAlignedPiece x)"
  using nextAlignedPiece_le [OF assms] by (simp add: unat_sub word_le_nat_alt)

section \<open>Picking\<close>

definition errInvalidSpaceSize :: error where "errInvalidSpaceSize = ErrMsg ''invalid space size''"
definition errInvalidDealPieceSize :: error where "errInvalidDealPieceSize = ErrMsg ''invalid deal piece size''"
definition errDealsUnOrdered :: error where "errDealsUnOrdered = ErrMsg ''deals un-ordered''"

abbreviation psize :: "DealInfoIncludePath \<Rightarrow> u64" where
  "psize d \<equiv> PieceSize (diProposal d)"

text \<open>The zeroed piece of a size: every field but the size and the commitment has Go's zero value.\<close>

definition zeroedPiece :: "abi_ops \<Rightarrow> u64 \<Rightarrow> DealInfoIncludePath" where
  "zeroedPiece ab s =
     \<lparr>diProposal = \<lparr>PieceCID = ZeroPieceCommitment ab (Unpadded ab s), PieceSize = s, VerifiedDeal = False, Client = Undef,
        Provider = Undef, Label = [], StartEpoch = 0, EndEpoch = 0, StoragePricePerEpoch = 0, ProviderCollateral = 0,
        ClientCollateral = 0\<rparr>,
      diOffset = 0, diLength = 0, diPayloadSize = 0, diDealID = 0, diTotalStorageFee = 0, diFastRetrieval = False,
      diPublishCid = Undef\<rparr>"

text \<open>The three filters before the loop: by epochs, by the smallest and by the largest size.\<close>

definition epochFilter :: "GetDealSpec option \<Rightarrow> DealInfoIncludePath list \<Rightarrow> DealInfoIncludePath list" where
  "epochFilter spec deals = (case spec of
     None \<Rightarrow> deals
   | Some sp \<Rightarrow>
       if spStartEpoch sp > 0 \<or> spEndEpoch sp > 0
       then filter (\<lambda>d. \<not> (spStartEpoch sp > 0 \<and> StartEpoch (diProposal d) \<le> spStartEpoch sp)
                      \<and> \<not> (spEndEpoch sp > 0 \<and> EndEpoch (diProposal d) \<ge> spEndEpoch sp)) deals
       else deals)"

definition minSizeFilter :: "GetDealSpec option \<Rightarrow> DealInfoIncludePath list \<Rightarrow> DealInfoIncludePath list" where
  "minSizeFilter spec deals = (case spec of
     None \<Rightarrow> deals
   | Some sp \<Rightarrow> if MinPieceSize sp > 0 then dropWhile (\<lambda>d. \<not> psize d \<ge> MinPieceSize sp) deals else deals)"

definition maxSizeFilter :: "GetDealSpec option \<Rightarrow> DealInfoIncludePath list \<Rightarrow> DealInfoIncludePath list" where
  "maxSizeFilter spec deals = (case spec of
     None \<Rightarrow> deals
   | Some sp \<Rightarrow> if MaxPieceSize sp > 0 then rev (dropWhile (\<lambda>d. \<not> psize d \<le> MaxPieceSize sp) (rev deals)) else deals)"

text \<open>The variables of the loop.\<close>

record pickState =
  psDi :: nat
  psChecked :: nat
  psPickedDeals :: int
  psPickedSpace :: u64
  psSpace :: u64
  psOffset :: u64
  psRes :: "DealInfoIncludePath list"

definition maxPieceReached :: "GetDealSpec option \<Rightarrow> int \<Rightarrow> bool" where
  "maxPieceReached spec n = (case spec of None \<Rightarrow> False | Some sp \<Rightarrow> MaxPiece sp > 0 \<and> n \<ge> MaxPiece sp)"

function pickLoop :: "abi_ops \<Rightarrow> GetDealSpec option \<Rightarrow> DealInfoIncludePath list \<Rightarrow> pickState \<Rightarrow> pickState res" where
  "pickLoop ab spec deals s =
     (if psDi s < length deals then
        (let deal = deals ! psDi s in
         failIf (psDi s \<noteq> psChecked s \<and> Validate ab (psize deal) \<noteq> None) (ErrWrap ''# deal size'' errInvalidDealPieceSize)
        (failIf (psDi s \<noteq> psChecked s \<and> psDi s > 0 \<and> psize deal < psize (deals ! (psDi s - 1))) errDealsUnOrdered
        (if maxPieceReached spec (psPickedDeals s) then Inr (s\<lparr>psChecked := psDi s\<rparr>)
         else if psize deal > psSpace s then Inr (s\<lparr>psChecked := psDi s\<rparr>)
         else
           (let nextPiece = nextAlignedPiece (psSpace s) in
            if psize deal > nextPiece then
              pickLoop ab spec deals (s\<lparr>psChecked := psDi s,
                psRes := psRes s @ [zeroedPiece ab nextPiece],
                psSpace := psSpace s - nextPiece,
                psOffset := psOffset s + Unpadded ab nextPiece\<rparr>)
            else
              pickLoop ab spec deals (s\<lparr>psChecked := psDi s,
                psRes := psRes s @ [deal\<lparr>diOffset := Padded ab (psOffset s)\<rparr>],
                psPickedDeals := psPickedDeals s + 1,
                psPickedSpace := psPickedSpace s + psize deal,
                psSpace := psSpace s - psize deal,
                psOffset := psOffset s + Unpadded ab (psize deal),
                psDi := psDi s + 1\<rparr>)))))
      else Inr s)"
  by pat_completeness auto

lemma filler_shrinks:
  assumes "nextAlignedPiece x < y" "y \<le> x"
  shows "unat (x - nextAlignedPiece x) < unat x"
proof -
  have x: "x \<noteq> 0" using assms by auto
  have "unat (nextAlignedPiece x) > 0" by (simp add: nextAlignedPiece_nat [OF x])
  then show ?thesis using nextAlignedPiece_sub [OF x] nextAlignedPiece_le [OF x] by simp
qed

termination pickLoop
  by (relation "measures [\<lambda>(ab, spec, deals, s). length deals - psDi s, \<lambda>(ab, spec, deals, s). unat (psSpace s)]")
    (auto intro: filler_shrinks simp: not_less)

declare pickLoop.simps [simp del]

definition pickAndAlign ::
  "abi_ops \<Rightarrow> DealInfoIncludePath list \<Rightarrow> u64 \<Rightarrow> GetDealSpec option \<Rightarrow> DealInfoIncludePath list res" where
  "pickAndAlign ab deals0 ssize spec =
     failIf (Validate ab ssize \<noteq> None) (ErrWrap ''space'' errInvalidSpaceSize)
    (let deals1 = epochFilter spec deals0 in
     failIf (deals1 \<noteq> [] \<and> Validate ab (psize (hd deals1)) \<noteq> None) (ErrWrap ''first deal size'' errInvalidDealPieceSize)
    (let deals = maxSizeFilter spec (minSizeFilter spec deals1) in
     if deals = [] then Inr []
     else
     tryE (pickLoop ab spec deals \<lparr>psDi = 0, psChecked = 0, psPickedDeals = 0, psPickedSpace = 0, psSpace = ssize,
             psOffset = 0, psRes = []\<rparr>)
    (\<lambda>s. if psRes s = [] then Inr []
      else if (case spec of None \<Rightarrow> False | Some sp \<Rightarrow> MinPiece sp > 0 \<and> psPickedDeals s < MinPiece sp) then Inr []
      else if (case spec of None \<Rightarrow> False | Some sp \<Rightarrow> MinUsedSpace sp > 0 \<and> psPickedSpace s < MinUsedSpace sp) then Inr []
      else if psSpace s > 0 then
        (case fillersFromRem (psSpace s) of
           Inl e \<Rightarrow> Inl (ErrWrap ''get filler pieces for the remaining space'' e)
         | Inr fillers \<Rightarrow> Inr (psRes s @ map (zeroedPiece ab) fillers))
      else Inr (psRes s))))"

section \<open>Fillers\<close>

lemma bit_nextAlignedPiece: "x \<noteq> 0 \<Longrightarrow> bit (nextAlignedPiece x) n \<longleftrightarrow> n = TrailingZeros64 x"
  using TrailingZeros64_bit(1) [of x] by (auto simp: nextAlignedPiece_def bit_exp_iff)

lemma xor_lowest_bit:
  assumes "x \<noteq> 0"
  shows "x XOR nextAlignedPiece x = x - nextAlignedPiece x"
proof -
  let ?k = "TrailingZeros64 x" and ?p = "nextAlignedPiece x"
  note p = bit_nextAlignedPiece [OF assms]
  have "(x XOR ?p) + ?p = (x XOR ?p) OR ?p"
    by (rule disjunctive_add) (use TrailingZeros64_bit(2) [OF assms] in \<open>auto simp: bit_xor_iff p\<close>)
  also have "\<dots> = x"
    by (rule bit_eqI) (use TrailingZeros64_bit(2) [OF assms] in \<open>auto simp: bit_xor_iff bit_or_iff p\<close>)
  finally show ?thesis by (simp add: eq_diff_eq)
qed

lemma OnesCount64_card: "OnesCount64 x = card {i. bit x i}"
proof -
  have "set (filter (bit x) [0..<64]) = {i. bit x i}" using bit_imp_le_length [of x] by auto
  then show ?thesis
    unfolding OnesCount64_def using distinct_card [of "filter (bit x) [0..<64]"] by simp
qed

lemma OnesCount64_zero [simp]: "OnesCount64 0 = 0"
  by (simp add: OnesCount64_card)

lemma finite_bits: "finite {i. bit (x::u64) i}"
  by (rule finite_subset [of _ "{..<64}"]) (use bit_imp_le_length [of x] in auto)

lemma OnesCount64_lowest:
  assumes "x \<noteq> 0"
  shows "OnesCount64 x = Suc (OnesCount64 (x XOR nextAlignedPiece x))"
proof -
  let ?k = "TrailingZeros64 x"
  note p = bit_nextAlignedPiece [OF assms]
  have "{i. bit x i} = insert ?k {i. bit (x XOR nextAlignedPiece x) i}"
    using TrailingZeros64_bit(2) [OF assms] by (auto simp: bit_xor_iff p)
  moreover have "?k \<notin> {i. bit (x XOR nextAlignedPiece x) i}"
    using TrailingZeros64_bit(2) [OF assms] by (simp add: bit_xor_iff p)
  ultimately show ?thesis using finite_bits by (simp add: OnesCount64_card)
qed

text \<open>The fillers of a space: none for an empty one, otherwise the lowest bit and the fillers of the rest.\<close>

definition fillers :: "u64 \<Rightarrow> u64 list" where
  "fillers x = fillersLoop (OnesCount64 x) x"

lemma fillers_zero [simp]: "fillers 0 = []"
  by (simp add: fillers_def)

lemma fillers_nonpos: "\<not> 0 < x \<Longrightarrow> fillers x = []"
  by (cases "x = 0") (simp_all add: word_neq_0_conv)

lemma fillersFromRem_fillers: "fillersFromRem x = Inr (fillers x)"
  by (simp add: fillersFromRem_def fillers_def)

lemma fillers_step:
  "x \<noteq> 0 \<Longrightarrow> fillers x = nextAlignedPiece x # fillers (x - nextAlignedPiece x)"
  unfolding fillers_def by (subst OnesCount64_lowest) (simp_all add: Let_def flip: nextAlignedPiece_def xor_lowest_bit, simp add: nextAlignedPiece_def)

lemma nextAlignedPiece_pos: "x \<noteq> 0 \<Longrightarrow> 0 < unat (nextAlignedPiece x)"
  by (simp add: nextAlignedPiece_nat)

text \<open>Induction along the fillers.\<close>

lemma fillers_induct [case_names zero step]:
  assumes z: "P 0" and s: "\<And>x. x \<noteq> 0 \<Longrightarrow> P (x - nextAlignedPiece x) \<Longrightarrow> P x"
  shows "P (x::u64)"
proof (induction "unat x" arbitrary: x rule: less_induct)
  case less
  show ?case
  proof (cases "x = 0")
    case False
    have "unat (x - nextAlignedPiece x) < unat x"
      using nextAlignedPiece_sub [OF False] nextAlignedPiece_pos [OF False] nextAlignedPiece_le [OF False] by simp
    then show ?thesis using less s [OF False] by blast
  qed (simp add: z)
qed

section \<open>Tilings\<close>

text \<open>
  \<open>tiles ab pos ds ps\<close>: laid out from position \<open>pos\<close>, every piece of \<open>ps\<close> has a valid size and starts at a
  multiple of it; the pieces are the deals \<open>ds\<close> in order, each with its offset set to its position, with
  zeroed pieces in between.
\<close>

inductive tiles :: "abi_ops \<Rightarrow> nat \<Rightarrow> DealInfoIncludePath list \<Rightarrow> DealInfoIncludePath list \<Rightarrow> bool" for ab where
  tiles_Nil: "tiles ab pos [] []"
| tiles_zeroed: "validSize s \<Longrightarrow> unat s dvd pos \<Longrightarrow> tiles ab (pos + unat s) ds ps \<Longrightarrow>
    tiles ab pos ds (zeroedPiece ab s # ps)"
| tiles_deal: "validSize (psize d) \<Longrightarrow> unat (psize d) dvd pos \<Longrightarrow> unat off = pos \<Longrightarrow>
    tiles ab (pos + unat (psize d)) ds ps \<Longrightarrow> tiles ab pos (d # ds) (d\<lparr>diOffset := off\<rparr> # ps)"

definition totalSize :: "DealInfoIncludePath list \<Rightarrow> nat" where
  "totalSize ps = (\<Sum>p\<leftarrow>ps. unat (psize p))"

lemma psize_zeroedPiece [simp]: "psize (zeroedPiece ab s) = s"
  by (simp add: zeroedPiece_def)

lemma totalSize_simps [simp]:
  "totalSize [] = 0" "totalSize (p # ps) = unat (psize p) + totalSize ps" "totalSize (ps @ qs) = totalSize ps + totalSize qs"
  by (simp_all add: totalSize_def)

lemma tiles_append:
  assumes "tiles ab pos ds ps" "tiles ab (pos + totalSize ps) es qs"
  shows "tiles ab pos (ds @ es) (ps @ qs)"
  using assms by (induction rule: tiles.induct) (auto intro: tiles.intros simp: add.assoc)

text \<open>The space left in a sector of a valid size: its lowest bit divides the position reached.\<close>

lemma validSize_le_dvd:
  assumes "validSize s" "validSize S" "unat s \<le> unat S"
  shows "unat s dvd unat S"
  using assms by (auto simp: validSize_def le_imp_power_dvd)

lemma aligned_position:
  assumes S: "validSize S" and x: "x \<noteq> 0" "unat x \<le> unat S"
    and s: "validSize s" "unat s \<le> unat (nextAlignedPiece x)"
  shows "unat s dvd unat S - unat x"
proof -
  obtain k where k: "unat s = 2 ^ k" using s(1) by (auto simp: validSize_def)
  then have "k \<le> TrailingZeros64 x" using s(2) by (simp add: nextAlignedPiece_nat [OF x(1)])
  then have "unat s dvd unat x" using power_dvd_iff_le_lowest [OF x(1)] k by simp
  moreover have "unat s dvd unat S"
    using validSize_le_dvd [OF s(1) S] s(2) nextAlignedPiece_le [OF x(1)] x(2) by simp
  ultimately show ?thesis by (rule dvd_diff_nat [rotated])
qed

lemma nextAlignedPiece_valid:
  assumes "x \<noteq> 0" "128 dvd unat x"
  shows "validSize (nextAlignedPiece x)"
proof -
  have "(2::nat) ^ 7 dvd unat x" using assms(2) by simp
  then have "7 \<le> TrailingZeros64 x" using power_dvd_iff_le_lowest [OF assms(1)] by blast
  then show ?thesis
    using TrailingZeros64_bit(1) [OF assms(1)] nextAlignedPiece_nat [OF assms(1)] by (auto simp: validSize_def)
qed

lemma validSize_dvd128: "validSize s \<Longrightarrow> 128 dvd unat s"
  using le_imp_power_dvd [of 7 _ "2::nat"] by (auto simp: validSize_def)

lemma fillers_tile:
  assumes S: "validSize S" and x: "unat x \<le> unat S" "128 dvd unat x"
  shows "tiles ab (unat S - unat x) [] (map (zeroedPiece ab) (fillers x))
    \<and> totalSize (map (zeroedPiece ab) (fillers x)) = unat x"
  using x
proof (induction x rule: fillers_induct)
  case zero
  show ?case by (simp add: tiles_Nil)
next
  case (step x)
  let ?p = "nextAlignedPiece x"
  have v: "validSize ?p" using nextAlignedPiece_valid step by blast
  have le: "unat ?p \<le> unat x" and sub: "unat (x - ?p) = unat x - unat ?p"
    using nextAlignedPiece_le nextAlignedPiece_sub step by blast+
  have al: "unat ?p dvd unat S - unat x" using aligned_position [OF S step.hyps step.prems(1) v] by simp
  have "128 dvd unat (x - ?p)" using validSize_dvd128 [OF v] step.prems(2) by (simp add: sub)
  then have IH: "tiles ab (unat S - unat (x - ?p)) [] (map (zeroedPiece ab) (fillers (x - ?p)))"
    "totalSize (map (zeroedPiece ab) (fillers (x - ?p))) = unat (x - ?p)"
    using step.IH step.prems(1) sub by auto
  have "unat S - unat (x - ?p) = unat S - unat x + unat ?p" using sub le step.prems(1) by simp
  then show ?case
    using IH tiles_zeroed [OF v al] sub le by (simp add: fillers_step [OF step.hyps])
qed

section \<open>The loop keeps a tiling\<close>

lemma unat_add_bounded: "unat (a::u64) + unat b \<le> unat (c::u64) \<Longrightarrow> unat (a + b) = unat a + unat b"
  using unsigned_less [of c, where 'a = nat] by (intro unat_add_lem [THEN iffD1]) simp

text \<open>The space, the offset and the pieces so far, for a sector of size \<open>S\<close>.\<close>

definition room_inv :: "abi_ops \<Rightarrow> u64 \<Rightarrow> DealInfoIncludePath list \<Rightarrow> pickState \<Rightarrow> bool" where
  "room_inv ab S picked s \<longleftrightarrow>
     tiles ab 0 picked (psRes s) \<and> totalSize (psRes s) + unat (psSpace s) = unat S \<and> 128 dvd unat (psSpace s) \<and>
     unat (psOffset s) * 128 = totalSize (psRes s) * 127"

definition pick_inv :: "abi_ops \<Rightarrow> GetDealSpec option \<Rightarrow> u64 \<Rightarrow> DealInfoIncludePath list \<Rightarrow> pickState \<Rightarrow> bool" where
  "pick_inv ab spec S deals s \<longleftrightarrow>
     psDi s \<le> length deals \<and> psPickedDeals s = int (psDi s) \<and>
     (psDi s = psChecked s \<and> psDi s < length deals \<longrightarrow> validSize (psize (deals ! psDi s))) \<and>
     room_inv ab S (take (psDi s) deals) s \<and>
     unat (psPickedSpace s) = totalSize (take (psDi s) deals) \<and> totalSize (take (psDi s) deals) \<le> totalSize (psRes s) \<and>
     (\<forall>sp. spec = Some sp \<and> MaxPiece sp > 0 \<longrightarrow> int (psDi s) \<le> MaxPiece sp)"

text \<open>The deals that reach the loop, and the limits a choice of \<open>n\<close> deals \<open>ds\<close> keeps.\<close>

definition candidates :: "GetDealSpec option \<Rightarrow> DealInfoIncludePath list \<Rightarrow> DealInfoIncludePath list" where
  "candidates spec deals = maxSizeFilter spec (minSizeFilter spec (epochFilter spec deals))"

definition specKept :: "GetDealSpec option \<Rightarrow> nat \<Rightarrow> DealInfoIncludePath list \<Rightarrow> bool" where
  "specKept spec n ds = (case spec of None \<Rightarrow> True | Some sp \<Rightarrow>
     (MaxPiece sp \<le> 0 \<or> int n \<le> MaxPiece sp) \<and> (MinPiece sp \<le> 0 \<or> MinPiece sp \<le> int n) \<and>
     unat (MinUsedSpace sp) \<le> totalSize ds)"

context abi_sizes
begin

lemma unat_offset_step:
  assumes "unat off * 128 = T * 127" "validSize s" "T + unat s \<le> unat (S::u64)"
  shows "unat (off + Unpadded ab s) * 128 = (T + unat s) * 127"
proof -
  have u: "unat (Unpadded ab s) * 128 = unat s * 127" by (rule unpadded [OF validSize_dvd128 [OF assms(2)]])
  have "unat off + unat (Unpadded ab s) \<le> unat S" using assms u by linarith
  then have "unat (off + Unpadded ab s) = unat off + unat (Unpadded ab s)" by (rule unat_add_bounded)
  then show ?thesis using assms(1) u by (simp add: distrib_right)
qed

lemma unat_padded_offset:
  assumes "unat off * 128 = T * 127" "128 dvd T" "T \<le> unat (S::u64)"
  shows "unat (Padded ab off) = T"
proof -
  obtain m where m: "T = 128 * m" using assms(2) by blast
  have off: "unat off = 127 * m" using assms(1) m by simp
  have "T < 2 ^ 64" using assms(3) unsigned_less [of S, where 'a = nat] by simp
  then have "m < 2 ^ 57" using m by simp
  then have "unat (Padded ab off) * 127 = unat off * 128" by (intro padded) (simp_all add: off)
  then show ?thesis using m off by simp
qed

text \<open>Appending a piece of a valid size that is at most the lowest bit of the space.\<close>

lemma room_append:
  assumes inv: "room_inv ab S picked s" and S: "validSize S"
    and z: "validSize z" "unat z \<le> unat (nextAlignedPiece (psSpace s))" "psSpace s \<noteq> 0"
    and p: "psize p = z" and one: "tiles ab (totalSize (psRes s)) new [p]"
  shows "room_inv ab S (picked @ new) (s\<lparr>psRes := psRes s @ [p], psSpace := psSpace s - z,
    psOffset := psOffset s + Unpadded ab z\<rparr>)"
proof -
  let ?T = "totalSize (psRes s)"
  have i: "tiles ab 0 picked (psRes s)" "?T + unat (psSpace s) = unat S" "128 dvd unat (psSpace s)"
    "unat (psOffset s) * 128 = ?T * 127"
    using inv by (auto simp: room_inv_def)
  have le: "unat z \<le> unat (psSpace s)" using z(2) nextAlignedPiece_le [OF z(3)] by simp
  then have sub: "unat (psSpace s - z) = unat (psSpace s) - unat z" by (simp add: unat_sub word_le_nat_alt)
  have "unat (psOffset s + Unpadded ab z) * 128 = (?T + unat z) * 127"
    by (rule unat_offset_step [OF i(4) z(1), of S]) (use i(2) le in simp)
  moreover have "128 dvd unat (psSpace s - z)" using i(3) validSize_dvd128 [OF z(1)] by (simp add: sub)
  moreover have "tiles ab 0 (picked @ new) (psRes s @ [p])" using tiles_append [OF i(1)] one by simp
  ultimately show ?thesis using i(2) le p by (simp add: room_inv_def sub)
qed

lemma room_position:
  assumes inv: "room_inv ab S picked s" and S: "validSize S"
    and z: "validSize z" "unat z \<le> unat (nextAlignedPiece (psSpace s))" "psSpace s \<noteq> 0"
  shows "unat z dvd totalSize (psRes s)" and "unat (Padded ab (psOffset s)) = totalSize (psRes s)"
proof -
  let ?T = "totalSize (psRes s)"
  have i: "?T + unat (psSpace s) = unat S" "128 dvd unat (psSpace s)" "unat (psOffset s) * 128 = ?T * 127"
    using inv by (auto simp: room_inv_def)
  have T: "?T = unat S - unat (psSpace s)" using i(1) by simp
  show "unat z dvd ?T" unfolding T by (rule aligned_position [OF S z(3) _ z(1,2)]) (use i(1) in simp)
  have "128 dvd ?T" unfolding T using i(2) validSize_dvd128 [OF S] by simp
  then show "unat (Padded ab (psOffset s)) = ?T" by (rule unat_padded_offset [OF i(3), of S]) (use i(1) in simp)
qed

lemma pick_inv_filler:
  assumes inv: "pick_inv ab spec S deals s" and S: "validSize S" and v: "validSize (psize (deals ! psDi s))"
    and gt: "nextAlignedPiece (psSpace s) < psize (deals ! psDi s)" and le: "psize (deals ! psDi s) \<le> psSpace s"
  shows "pick_inv ab spec S deals (s\<lparr>psChecked := psDi s,
                psRes := psRes s @ [zeroedPiece ab (nextAlignedPiece (psSpace s))],
                psSpace := psSpace s - nextAlignedPiece (psSpace s),
                psOffset := psOffset s + Unpadded ab (nextAlignedPiece (psSpace s))\<rparr>)"
proof -
  let ?p = "nextAlignedPiece (psSpace s)"
  have nz: "psSpace s \<noteq> 0" using gt le by auto
  have r: "room_inv ab S (take (psDi s) deals) s" using inv by (simp add: pick_inv_def)
  then have vp: "validSize ?p" using nextAlignedPiece_valid [OF nz] by (simp add: room_inv_def)
  have "tiles ab (totalSize (psRes s)) [] [zeroedPiece ab ?p]"
    by (intro tiles.intros vp room_position(1) [OF r S vp _ nz]) simp
  from room_append [OF r S vp order_refl nz _ this]
  show ?thesis using inv v by (auto simp: pick_inv_def room_inv_def)
qed

lemma pick_inv_place:
  assumes inv: "pick_inv ab spec S deals s" and S: "validSize S" and v: "validSize (psize (deals ! psDi s))"
    and lt: "psDi s < length deals" and mx: "\<not> maxPieceReached spec (psPickedDeals s)"
    and le: "psize (deals ! psDi s) \<le> nextAlignedPiece (psSpace s)" "psize (deals ! psDi s) \<le> psSpace s"
  shows "pick_inv ab spec S deals (s\<lparr>psChecked := psDi s,
                psRes := psRes s @ [(deals ! psDi s)\<lparr>diOffset := Padded ab (psOffset s)\<rparr>],
                psPickedDeals := psPickedDeals s + 1,
                psPickedSpace := psPickedSpace s + psize (deals ! psDi s),
                psSpace := psSpace s - psize (deals ! psDi s),
                psOffset := psOffset s + Unpadded ab (psize (deals ! psDi s)),
                psDi := psDi s + 1\<rparr>)"
proof -
  let ?d = "deals ! psDi s" let ?z = "psize ?d"
  have nz: "psSpace s \<noteq> 0" using v le(2) by (auto simp: validSize_def)
  have zn: "unat ?z \<le> unat (nextAlignedPiece (psSpace s))" "unat ?z \<le> unat (psSpace s)"
    using le by (simp_all add: word_le_nat_alt)
  have r: "room_inv ab S (take (psDi s) deals) s" using inv by (simp add: pick_inv_def)
  note pos = room_position [OF r S v zn(1) nz]
  have one: "tiles ab (totalSize (psRes s)) [?d] [?d\<lparr>diOffset := Padded ab (psOffset s)\<rparr>]"
    by (intro tiles.intros v pos)
  have tk: "take (Suc (psDi s)) deals = take (psDi s) deals @ [?d]" using lt by (simp add: take_Suc_conv_app_nth)
  from room_append [OF r S v zn(1) nz _ one]
  have r': "room_inv ab S (take (Suc (psDi s)) deals) (s\<lparr>psRes := psRes s @ [?d\<lparr>diOffset := Padded ab (psOffset s)\<rparr>],
    psSpace := psSpace s - ?z, psOffset := psOffset s + Unpadded ab ?z\<rparr>)"
    unfolding tk by simp
  have ps: "unat (psPickedSpace s) = totalSize (take (psDi s) deals)"
    "totalSize (take (psDi s) deals) \<le> totalSize (psRes s)" "totalSize (psRes s) + unat (psSpace s) = unat S"
    using inv by (auto simp: pick_inv_def room_inv_def)
  then have "unat (psPickedSpace s + ?z) = totalSize (take (psDi s) deals) + unat ?z"
    using unat_add_bounded [of "psPickedSpace s" ?z S] zn(2) by simp
  then show ?thesis
    using r' inv lt mx ps(2) by (auto simp: pick_inv_def room_inv_def tk maxPieceReached_def)
qed

lemma pick_inv_checked:
  assumes inv: "pick_inv ab spec S deals s" and lt: "psDi s < length deals"
    and chk: "psDi s \<noteq> psChecked s \<Longrightarrow> Validate ab (psize (deals ! psDi s)) = None"
  shows "validSize (psize (deals ! psDi s))" and "pick_inv ab spec S deals (s\<lparr>psChecked := psDi s\<rparr>)"
proof -
  show v: "validSize (psize (deals ! psDi s))" using inv lt chk validate by (cases "psDi s = psChecked s") (auto simp: pick_inv_def)
  show "pick_inv ab spec S deals (s\<lparr>psChecked := psDi s\<rparr>)" using inv v by (simp add: pick_inv_def room_inv_def)
qed

lemma pickLoop_inv:
  assumes S: "validSize S"
  shows "b = ab \<Longrightarrow> pickLoop b spec deals s = Inr s' \<Longrightarrow> pick_inv ab spec S deals s \<Longrightarrow> pick_inv ab spec S deals s'"
proof (induction b spec deals s rule: pickLoop.induct)
  case (1 b spec deals s)
  let ?d = "deals ! psDi s"
  have inv: "pick_inv ab spec S deals s" by (rule 1)
  have run: "pickLoop ab spec deals s = Inr s'" using 1 by simp
  note run = run [unfolded pickLoop.simps [of ab spec deals s] Let_def]
  show ?case
  proof (cases "psDi s < length deals")
    case True
    have chk: "psDi s \<noteq> psChecked s \<Longrightarrow> Validate ab (psize ?d) = None" using run True by (auto simp: failIf_def split: if_splits)
    note v = pick_inv_checked [OF inv True chk]
    show ?thesis
    proof (cases "maxPieceReached spec (psPickedDeals s) \<or> psize ?d > psSpace s")
      case brk: True
      then have "s' = s\<lparr>psChecked := psDi s\<rparr>" using run True by (auto split: if_splits)
      then show ?thesis using v(2) by simp
    next
      case go: False
      show ?thesis
      proof (cases "psize ?d > nextAlignedPiece (psSpace s)")
        case fl: True
        show ?thesis
          by (rule 1(1) [OF True refl _ _ refl fl 1(3)])
            (use run True go fl chk 1(3) pick_inv_filler [OF inv S v(1) fl] in \<open>auto split: if_splits simp: not_less\<close>)
      next
        case pl: False
        show ?thesis
          by (rule 1(2) [OF True refl _ _ refl pl 1(3)])
            (use run True go pl chk 1(3) pick_inv_place [OF inv S v(1) True] in \<open>auto split: if_splits simp: not_less\<close>)
      qed
    qed
  qed (use run inv in simp)
qed

lemma pickAndAlign_layout:
  assumes run: "pickAndAlign ab deals S spec = Inr ps" and ne: "ps \<noteq> []"
    and first: "candidates spec deals \<noteq> [] \<Longrightarrow> validSize (psize (hd (candidates spec deals)))"
  shows "\<exists>n \<le> length (candidates spec deals).
      tiles ab 0 (take n (candidates spec deals)) ps \<and> totalSize ps = unat S \<and> specKept spec n (take n (candidates spec deals))"
proof -
  let ?c = "candidates spec deals"
  let ?s0 = "\<lparr>psDi = 0, psChecked = 0, psPickedDeals = 0, psPickedSpace = 0, psSpace = S, psOffset = 0, psRes = []\<rparr>"
  have S: "validSize S" using run validate by (auto simp: pickAndAlign_def)
  have c: "?c \<noteq> []" using run ne by (auto simp: pickAndAlign_def candidates_def Let_def)
  obtain s where s: "pickLoop ab spec ?c ?s0 = Inr s"
    using run c by (auto simp: pickAndAlign_def candidates_def Let_def tryE_Inr_iff)
  have "pick_inv ab spec S ?c ?s0"
    using first [OF c] c validSize_dvd128 [OF S] tiles_Nil
    by (auto simp: pick_inv_def room_inv_def hd_conv_nth)
  from pickLoop_inv [OF S refl s this] have inv: "pick_inv ab spec S ?c s" .
  have ps: "ps = psRes s @ map (zeroedPiece ab) (fillers (psSpace s))" and
    mins: "case spec of None \<Rightarrow> True | Some sp \<Rightarrow> \<not> (MinPiece sp > 0 \<and> psPickedDeals s < MinPiece sp) \<and>
      \<not> (MinUsedSpace sp > 0 \<and> psPickedSpace s < MinUsedSpace sp)"
    using run ne c s
    by (auto simp: pickAndAlign_def candidates_def Let_def fillersFromRem_fillers fillers_nonpos
        split: if_splits option.splits)
  have r: "tiles ab 0 (take (psDi s) ?c) (psRes s)" "totalSize (psRes s) + unat (psSpace s) = unat S" "128 dvd unat (psSpace s)"
    using inv by (auto simp: pick_inv_def room_inv_def)
  have T: "totalSize (psRes s) = unat S - unat (psSpace s)" using r(2) by simp
  have f: "tiles ab (unat S - unat (psSpace s)) [] (map (zeroedPiece ab) (fillers (psSpace s)))"
    "totalSize (map (zeroedPiece ab) (fillers (psSpace s))) = unat (psSpace s)"
    using fillers_tile [OF S _ r(3)] r(2) by auto
  have "tiles ab 0 (take (psDi s) ?c) ps" using tiles_append [OF r(1), of "[]"] f(1) by (simp add: ps T)
  moreover have "specKept spec (psDi s) (take (psDi s) ?c)"
    using mins inv by (auto simp: specKept_def pick_inv_def word_less_nat_alt split: option.splits)
  ultimately show ?thesis using inv r(2) f(2) by (auto simp: ps pick_inv_def)
qed

end

end
