(* ===== verification/Deal_Assigner.thy ===== *)
theory Deal_Assigner
  imports Storage_Deal_Repo Deal_Align
begin

text \<open>
  Assigning deals to sectors: \<open>src/storageprovider/deal_assigner.go\<close>, over the interface of the deal
  repository. The fee of a proposal, the identifier address of a miner, the size functions and the order
  \<open>sort.Slice\<close> picks among equal elements come from outside and are the fields of \<open>assign_env\<close>; the
  transaction of the repository is an argument, \<open>Transaction\<close> is the one of
  \<open>src/models/badger/db.go\<close>. A nil dereference is a \<open>Panic\<close>.
\<close>

section \<open>Data\<close>

record assign_env =
  aeAbi :: abi_ops
  TotalStorageFee :: "DealProposal \<Rightarrow> int"
  NewIDAddress :: "u64 \<Rightarrow> address res"
  SortSlice :: "(DealInfoIncludePath \<Rightarrow> DealInfoIncludePath \<Rightarrow> bool) \<Rightarrow> DealInfoIncludePath list \<Rightarrow> DealInfoIncludePath list"

record DealInfo =
  doDealInfo :: PieceDealInfo
  doProposal :: DealProposal
  doSignature :: bytes
  doTransferType :: string
  doRoot :: cid
  doPublishCid :: cid
  doFastRetrieval :: bool
  doStatus :: PieceStatus

record SectorID =
  sidMiner :: u64
  sidNumber :: u64

definition isTerminateState :: "MinerDeal \<Rightarrow> bool" where
  "isTerminateState deal \<longleftrightarrow> mdState deal = StorageDealSlashed \<or> mdState deal = StorageDealExpired \<or>
     mdState deal = StorageDealError \<or> mdState deal = StorageDealFailing"

section \<open>Operations\<close>

text \<open>The three updates read the deal by its identifier, change it and save it.\<close>

definition updateDeal :: "'r StorageDealRepo \<Rightarrow> 'r \<Rightarrow> address \<Rightarrow> u64 \<Rightarrow> (MinerDeal \<Rightarrow> MinerDeal) \<Rightarrow> ('r \<times> error option) outcome" where
  "updateDeal repo r miner dealID f = (case sdGetDealByDealID repo r miner dealID of
     Panic m \<Rightarrow> Panic m
   | Ret (Inl e) \<Rightarrow> Ret (r, Some (ErrWrap ''failed to get deal for miner'' e))
   | Ret (Inr md) \<Rightarrow>
       (case sdSaveDeal repo r (f md) of
          (r', Some e) \<Rightarrow> Ret (r', Some (ErrWrap ''failed to update deal piece status for miner'' e))
        | (r', None) \<Rightarrow> Ret (r', None)))"

fun MarkDealsAsPacking :: "'r StorageDealRepo \<Rightarrow> 'r \<Rightarrow> address \<Rightarrow> u64 list \<Rightarrow> ('r \<times> error option) outcome" where
  "MarkDealsAsPacking repo r miner [] = Ret (r, None)"
| "MarkDealsAsPacking repo r miner (dealID # dealIDs) =
     (case updateDeal repo r miner dealID (\<lambda>md. md\<lparr>mdPieceStatus := Assigned\<rparr>) of
        Panic m \<Rightarrow> Panic m
      | Ret (r', Some e) \<Rightarrow> Ret (r', Some e)
      | Ret (r', None) \<Rightarrow> MarkDealsAsPacking repo r' miner dealIDs)"

definition UpdateDealOnPacking :: "'r StorageDealRepo \<Rightarrow> 'r \<Rightarrow> address \<Rightarrow> u64 \<Rightarrow> u64 \<Rightarrow> u64 \<Rightarrow> ('r \<times> error option) outcome" where
  "UpdateDealOnPacking repo r miner dealID sectorID offset =
     updateDeal repo r miner dealID (\<lambda>md. md\<lparr>mdPieceStatus := Assigned, Offset := offset, SectorNumber := sectorID\<rparr>)"

definition UpdateDealStatus :: "'r StorageDealRepo \<Rightarrow> 'r \<Rightarrow> address \<Rightarrow> u64 \<Rightarrow> PieceStatus \<Rightarrow> ('r \<times> error option) outcome" where
  "UpdateDealStatus repo r miner dealID pieceStatus = updateDeal repo r miner dealID (\<lambda>md. md\<lparr>mdPieceStatus := pieceStatus\<rparr>)"

abbreviation nil_deref :: string where
  "nil_deref \<equiv> ''invalid memory address or nil pointer dereference''"

fun dealInfos :: "MinerDeal list \<Rightarrow> DealInfo list outcome" where
  "dealInfos [] = Ret []"
| "dealInfos (md # mds) =
     (if DealID md > 0 \<and> \<not> isTerminateState md then
        (case PublishCid md of
           None \<Rightarrow> Panic nil_deref
         | Some p \<Rightarrow>
             (case dealInfos mds of
                Panic m \<Rightarrow> Panic m
              | Ret dis \<Rightarrow> Ret (\<lparr>doDealInfo = pieceDealInfo md, doProposal = Proposal md, doSignature = ClientSignature md,
                  doTransferType = TransferType (Ref md), doRoot = Root (Ref md), doPublishCid = p,
                  doFastRetrieval = FastRetrieval md, doStatus = mdPieceStatus md\<rparr> # dis)))
      else dealInfos mds)"

definition GetDeals :: "'r StorageDealRepo \<Rightarrow> 'r \<Rightarrow> address \<Rightarrow> int \<Rightarrow> int \<Rightarrow> DealInfo list res outcome" where
  "GetDeals repo r mAddr pageIndex pageSize = (case sdGetDeals repo r mAddr pageIndex pageSize of
     Panic m \<Rightarrow> Panic m
   | Ret (Inl e) \<Rightarrow> Ret (Inl e)
   | Ret (Inr mds) \<Rightarrow> (case dealInfos mds of Panic m \<Rightarrow> Panic m | Ret dis \<Rightarrow> Ret (Inr dis)))"

definition defaultMaxPiece :: int where
  "defaultMaxPiece = 10"

definition defaultGetDealSpec :: GetDealSpec where
  "defaultGetDealSpec = \<lparr>MaxPiece = defaultMaxPiece, MaxPieceSize = 0, MinPiece = 0, MinPieceSize = 0, MinUsedSpace = 0,
     spStartEpoch = 0, spEndEpoch = 0\<rparr>"

text \<open>The literal \<open>&types.DealInfoIncludePath{...}\<close> made from a deal, given its publish message.\<close>

definition dealPath :: "assign_env \<Rightarrow> MinerDeal \<Rightarrow> cid \<Rightarrow> DealInfoIncludePath" where
  "dealPath env md p = \<lparr>diProposal = Proposal md, diOffset = Offset md, diLength = PieceSize (Proposal md),
     diPayloadSize = PayloadSize md, diDealID = DealID md, diTotalStorageFee = TotalStorageFee env (Proposal md),
     diFastRetrieval = FastRetrieval md, diPublishCid = p\<rparr>"

fun unpackedLoop :: "assign_env \<Rightarrow> GetDealSpec \<Rightarrow> int \<Rightarrow> u64 \<Rightarrow> MinerDeal list \<Rightarrow> DealInfoIncludePath list outcome" where
  "unpackedLoop env spec numberPiece curPieceSize [] = Ret []"
| "unpackedLoop env spec numberPiece curPieceSize (md # mds) =
     (if DealID md = 0 \<or> isTerminateState md then unpackedLoop env spec numberPiece curPieceSize mds
      else if ((MaxPieceSize spec > 0 \<and> PieceSize (Proposal md) + curPieceSize < MaxPieceSize spec) \<or> MaxPieceSize spec = 0) \<and>
              numberPiece + 1 < MaxPiece spec then
        (case PublishCid md of
           None \<Rightarrow> Panic nil_deref
         | Some p \<Rightarrow>
             (case unpackedLoop env spec (numberPiece + 1) (curPieceSize + PieceSize (Proposal md)) mds of
                Panic m \<Rightarrow> Panic m
              | Ret ds \<Rightarrow> Ret (dealPath env md p # ds)))
      else unpackedLoop env spec numberPiece curPieceSize mds)"

definition withDefaults :: "GetDealSpec option \<Rightarrow> GetDealSpec" where
  "withDefaults spec = (let sp = (case spec of None \<Rightarrow> defaultGetDealSpec | Some sp \<Rightarrow> sp)
                        in if MaxPiece sp = 0 then sp\<lparr>MaxPiece := defaultMaxPiece\<rparr> else sp)"

definition GetUnPackedDeals ::
    "assign_env \<Rightarrow> 'r StorageDealRepo \<Rightarrow> 'r \<Rightarrow> address \<Rightarrow> GetDealSpec option \<Rightarrow> DealInfoIncludePath list res outcome" where
  "GetUnPackedDeals env repo r miner spec =
     (case sdGetDealsByPieceStatus repo r miner Undefine of
        Panic m \<Rightarrow> Panic m
      | Ret (Inl e) \<Rightarrow> Ret (Inl e)
      | Ret (Inr mds) \<Rightarrow>
          (case unpackedLoop env (withDefaults spec) 0 0 mds of Panic m \<Rightarrow> Panic m | Ret ds \<Rightarrow> Ret (Inr ds)))"

fun sealable :: "assign_env \<Rightarrow> MinerDeal list \<Rightarrow> DealInfoIncludePath list outcome" where
  "sealable env [] = Ret []"
| "sealable env (md # mds) =
     (if DealID md = 0 \<or> isTerminateState md then sealable env mds
      else
        (case PublishCid md of
           None \<Rightarrow> Panic nil_deref
         | Some p \<Rightarrow> (case sealable env mds of Panic m \<Rightarrow> Panic m | Ret ds \<Rightarrow> Ret (dealPath env md p # ds))))"

text \<open>The order of \<open>sort.Slice\<close>: by size, then by start, then by falling price.\<close>

definition dealLess :: "DealInfoIncludePath \<Rightarrow> DealInfoIncludePath \<Rightarrow> bool" where
  "dealLess left right =
     (if psize left \<noteq> psize right then psize left < psize right
      else if StartEpoch (diProposal left) \<noteq> StartEpoch (diProposal right)
      then StartEpoch (diProposal left) < StartEpoch (diProposal right)
      else StoragePricePerEpoch (diProposal left) > StoragePricePerEpoch (diProposal right))"

fun savePieces :: "'r StorageDealRepo \<Rightarrow> 'r \<Rightarrow> address \<Rightarrow> u64 \<Rightarrow> DealInfoIncludePath list \<Rightarrow> ('r \<times> error option) outcome" where
  "savePieces repo r maddr number [] = Ret (r, None)"
| "savePieces repo r maddr number (piece # pieces) =
     (if diDealID piece \<le> 0 \<or> diPublishCid piece = Undef then savePieces repo r maddr number pieces
      else
        (case sdGetDealByDealID repo r maddr (diDealID piece) of
           Panic m \<Rightarrow> Panic m
         | Ret (Inl e) \<Rightarrow> Ret (r, Some e)
         | Ret (Inr md) \<Rightarrow>
             (case sdSaveDeal repo r (md\<lparr>mdPieceStatus := Assigned, Offset := diOffset piece, SectorNumber := number\<rparr>) of
                (r', Some e) \<Rightarrow> Ret (r', Some e)
              | (r', None) \<Rightarrow> savePieces repo r' maddr number pieces)))"

text \<open>The body of the transaction; its result stands for the captured variable \<open>pieces\<close> and the error.\<close>

type_synonym 'r assign_tx = "'r \<Rightarrow> ('r \<times> DealInfoIncludePath list res) outcome"

definition assignBody ::
    "assign_env \<Rightarrow> 'r StorageDealRepo \<Rightarrow> address \<Rightarrow> u64 \<Rightarrow> u64 \<Rightarrow> GetDealSpec \<Rightarrow> 'r assign_tx" where
  "assignBody env repo maddr number ssize spec r =
     (case sdGetDealsByPieceStatus repo r maddr Undefine of
        Panic m \<Rightarrow> Panic m
      | Ret (Inl e) \<Rightarrow> Ret (r, Inl e)
      | Ret (Inr mds) \<Rightarrow>
          (case sealable env mds of
             Panic m \<Rightarrow> Panic m
           | Ret deals \<Rightarrow>
               (if length deals = 0 then Ret (r, Inr [])
                else
                  (case pickAndAlign (aeAbi env) (SortSlice env dealLess deals) ssize (Some spec) of
                     Inl e \<Rightarrow> Ret (r, Inl (ErrWrap ''unable to pick and align pieces from deals'' e))
                   | Inr pieces \<Rightarrow>
                       (if length pieces = 0 then Ret (r, Inr pieces)
                        else
                          (case savePieces repo r maddr number pieces of
                             Panic m \<Rightarrow> Panic m
                           | Ret (r', Some e) \<Rightarrow> Ret (r', Inl e)
                           | Ret (r', None) \<Rightarrow> Ret (r', Inr pieces)))))))"

definition AssignUnPackedDeals ::
    "('r assign_tx \<Rightarrow> 'r assign_tx) \<Rightarrow> assign_env \<Rightarrow> 'r StorageDealRepo \<Rightarrow> 'r \<Rightarrow> SectorID \<Rightarrow> u64 \<Rightarrow> GetDealSpec option \<Rightarrow>
      ('r \<times> DealInfoIncludePath list res) outcome" where
  "AssignUnPackedDeals tx env repo r sid ssize spec =
     (case NewIDAddress env (sidMiner sid) of
        Inl e \<Rightarrow> Ret (r, Inl e)
      | Inr maddr \<Rightarrow>
          tx (assignBody env repo maddr (sidNumber sid) ssize (case spec of None \<Rightarrow> defaultGetDealSpec | Some sp \<Rightarrow> sp)) r)"

text \<open>The badger repository runs the body directly: not a real transaction.\<close>

definition Transaction :: "'r assign_tx \<Rightarrow> 'r assign_tx" where
  "Transaction cb = cb"

end
