(* ===== verification/Deal_Align_Props.thy ===== *)
theory Deal_Align_Props
  imports Deal_Align
begin

text \<open>
  The properties of picking and aligning deals: a result tiles the sector; deals in ascending valid sizes
  are never refused; the one deal whose size is not validated. The size functions of the library are
  instantiated by their documented formulas for the witnesses.
\<close>

section \<open>An instance of the size functions\<close>

definition abi_std :: abi_ops where
  "abi_std = \<lparr>
     Validate = (\<lambda>s. if s < 128 then Some (ErrMsg ''minimum piece size is 128 bytes'')
                     else if OnesCount64 s \<noteq> 1 then Some (ErrMsg ''padded piece size must be a power of 2'') else None),
     Unpadded = (\<lambda>s. s - s div 128),
     Padded = (\<lambda>u. u + u div 127),
     ZeroPieceCommitment = (\<lambda>_. ''zero'')\<rparr>"

lemma OnesCount64_eq_0: "OnesCount64 x = 0 \<longleftrightarrow> x = 0"
  using OnesCount64_lowest [of x] by (cases "x = 0") simp_all

lemma OnesCount64_eq_1: "OnesCount64 x = Suc 0 \<longleftrightarrow> (\<exists>k<64. unat x = 2 ^ k)"
proof
  assume one: "OnesCount64 x = Suc 0"
  then have nz: "x \<noteq> 0" by auto
  then have "x - nextAlignedPiece x = 0"
    using one OnesCount64_lowest [OF nz] OnesCount64_eq_0 by (simp add: xor_lowest_bit)
  then have "unat x = 2 ^ TrailingZeros64 x" using nextAlignedPiece_nat [OF nz] by simp
  then show "\<exists>k<64. unat x = 2 ^ k" using TrailingZeros64_bit(1) [OF nz] by blast
next
  assume "\<exists>k<64. unat x = 2 ^ k"
  then obtain k where k: "k < 64" "unat x = 2 ^ k" by blast
  then have "x = push_bit k 1" using unat_push_bit_one by (metis unsigned_word_eqI)
  then have "{i. bit x i} = {k}" using k(1) by (auto simp: bit_exp_iff)
  then show "OnesCount64 x = Suc 0" by (simp add: OnesCount64_card)
qed

lemma validSize_std: "Validate abi_std s = None \<longleftrightarrow> validSize s"
proof -
  have "(\<exists>k<64. unat s = 2 ^ k) \<and> \<not> s < 128 \<longleftrightarrow> validSize s"
  proof
    assume a: "(\<exists>k<64. unat s = 2 ^ k) \<and> \<not> s < 128"
    then obtain k where k: "k < 64" "unat s = 2 ^ k" by blast
    have "(2::nat) ^ 7 \<le> 2 ^ k" using a k by (simp add: word_less_nat_alt not_less)
    then have "7 \<le> k" by (simp only: power_increasing_iff one_less_numeral_iff semiring_norm)
    then show "validSize s" using k by (auto simp: validSize_def)
  next
    assume "validSize s"
    then obtain k where k: "7 \<le> k" "k < 64" "unat s = 2 ^ k" by (auto simp: validSize_def)
    have "(2::nat) ^ 7 \<le> 2 ^ k" using k(1) by (simp only: power_increasing_iff one_less_numeral_iff semiring_norm)
    then show "(\<exists>k<64. unat s = 2 ^ k) \<and> \<not> s < 128" using k by (auto simp: word_less_nat_alt not_less)
  qed
  then show ?thesis by (auto simp: abi_std_def OnesCount64_eq_1)
qed

interpretation std_sizes: abi_sizes abi_std
proof unfold_locales
  show "Validate abi_std s = None \<longleftrightarrow> validSize s" for s by (rule validSize_std)
  show "unat (Unpadded abi_std s) * 128 = unat s * 127" if d: "128 dvd unat s" for s
  proof -
    obtain m where m: "unat s = 128 * m" using d by blast
    then have "unat (s div 128) = m" by (simp add: unat_div)
    moreover have "s div 128 \<le> s" by (simp add: word_le_nat_alt unat_div)
    ultimately show ?thesis by (simp add: abi_std_def unat_sub m)
  qed
  show "unat (Padded abi_std u) * 127 = unat u * 128" if d: "127 dvd unat u" and b: "unat u div 127 < 2 ^ 57" for u
  proof -
    obtain m where m: "unat u = 127 * m" using d by blast
    then have q: "unat (u div 127) = m" by (simp add: unat_div)
    have "unat u + unat (u div 127) < 2 ^ 64" using b by (simp add: m q)
    then have "unat (u + u div 127) = unat u + unat (u div 127)" by (intro unat_add_lem [THEN iffD1]) simp
    then show ?thesis by (simp add: abi_std_def m q)
  qed
qed

section \<open>Ascending deals\<close>

definition eligible :: "GetDealSpec option \<Rightarrow> DealInfoIncludePath \<Rightarrow> bool" where
  "eligible spec d = (case spec of None \<Rightarrow> True | Some sp \<Rightarrow>
     (spStartEpoch sp > 0 \<longrightarrow> StartEpoch (diProposal d) > spStartEpoch sp) \<and>
     (spEndEpoch sp > 0 \<longrightarrow> EndEpoch (diProposal d) < spEndEpoch sp) \<and>
     (MinPieceSize sp > 0 \<longrightarrow> psize d \<ge> MinPieceSize sp) \<and>
     (MaxPieceSize sp > 0 \<longrightarrow> psize d \<le> MaxPieceSize sp))"

lemma dropWhile_upclosed:
  assumes "sorted (map f xs)" "\<And>x y. P x \<Longrightarrow> f x \<le> f y \<Longrightarrow> P y"
  shows "dropWhile (\<lambda>x. \<not> P x) xs = filter P xs"
  using assms(1)
proof (induction xs)
  case (Cons a xs)
  show ?case
  proof (cases "P a")
    case True
    then have "filter P xs = xs" using Cons.prems assms(2) by (auto simp: filter_id_conv)
    then show ?thesis using True by simp
  qed (use Cons in simp)
qed simp

lemma rev_dropWhile_downclosed:
  fixes f :: "'a \<Rightarrow> 'b::linorder"
  assumes "sorted (map f xs)" "\<And>x y. P x \<Longrightarrow> f y \<le> f x \<Longrightarrow> P y"
  shows "rev (dropWhile (\<lambda>x. \<not> P x) (rev xs)) = filter P xs"
  using assms(1)
proof (induction xs rule: rev_induct)
  case (snoc a xs)
  show ?case
  proof (cases "P a")
    case True
    then have "filter P xs = xs" using snoc.prems assms(2) by (auto simp: filter_id_conv sorted_append)
    then show ?thesis using True by simp
  qed (use snoc in \<open>simp add: sorted_append\<close>)
qed simp

lemma sorted_map_filter: "sorted (map f xs) \<Longrightarrow> sorted (map f (filter P xs))"
  by (simp add: sorted_filter)

lemma epochFilter_subset: "set (epochFilter spec deals) \<subseteq> set deals"
  by (auto simp: epochFilter_def split: option.splits if_splits)

lemma candidates_filter:
  assumes "sorted (map psize deals)"
  shows "candidates spec deals = filter (eligible spec) deals"
proof (cases spec)
  case None
  then show ?thesis by (simp add: candidates_def epochFilter_def minSizeFilter_def maxSizeFilter_def eligible_def [abs_def])
next
  case (Some sp)
  define e :: "DealInfoIncludePath \<Rightarrow> bool" where "e d \<longleftrightarrow> (spStartEpoch sp > 0 \<longrightarrow> StartEpoch (diProposal d) > spStartEpoch sp) \<and>
     (spEndEpoch sp > 0 \<longrightarrow> EndEpoch (diProposal d) < spEndEpoch sp)" for d
  define lo :: "DealInfoIncludePath \<Rightarrow> bool" where "lo d \<longleftrightarrow> (MinPieceSize sp > 0 \<longrightarrow> psize d \<ge> MinPieceSize sp)" for d
  define hi :: "DealInfoIncludePath \<Rightarrow> bool" where "hi d \<longleftrightarrow> (MaxPieceSize sp > 0 \<longrightarrow> psize d \<le> MaxPieceSize sp)" for d
  have 1: "epochFilter spec deals = filter e deals"
    by (auto simp: epochFilter_def Some e_def not_le not_less intro!: filter_cong filter_True [symmetric])
  have s1: "sorted (map psize (filter e deals))" by (rule sorted_map_filter [OF assms])
  have 2: "minSizeFilter spec (filter e deals) = filter lo (filter e deals)"
    using dropWhile_upclosed [OF s1, of "\<lambda>d. psize d \<ge> MinPieceSize sp"] order_trans
    by (auto simp: minSizeFilter_def Some lo_def [abs_def])
  have s2: "sorted (map psize (filter lo (filter e deals)))" by (rule sorted_map_filter [OF s1])
  have 3: "maxSizeFilter spec (filter lo (filter e deals)) = filter hi (filter lo (filter e deals))"
    using rev_dropWhile_downclosed [OF s2, of "\<lambda>d. psize d \<le> MaxPieceSize sp"] order_trans
    by (auto simp: maxSizeFilter_def Some hi_def [abs_def])
  show ?thesis unfolding candidates_def 1 2 3
    by (simp add: Some) (rule filter_cong, auto simp: eligible_def e_def lo_def hi_def)
qed

lemma pickLoop_total:
  assumes "sorted (map psize deals)"
  shows "\<forall>d \<in> set deals. Validate ab (psize d) = None \<Longrightarrow>
    \<exists>s'. pickLoop ab spec deals s = Inr s' \<and> length (psRes s) \<le> length (psRes s') \<and>
      (psDi s < length deals \<and> \<not> maxPieceReached spec (psPickedDeals s) \<and> \<not> psize (deals ! psDi s) > psSpace s \<longrightarrow>
        psRes s' \<noteq> [])"
  using assms
proof (induction ab spec deals s rule: pickLoop.induct)
  case (1 ab spec deals s)
  let ?d = "deals ! psDi s"
  show ?case
  proof (cases "psDi s < length deals \<and> \<not> maxPieceReached spec (psPickedDeals s) \<and> \<not> psize ?d > psSpace s")
    case True
    have v: "Validate ab (psize ?d) = None" using 1(3) True by simp
    have ord: "\<not> psize ?d < psize (deals ! (psDi s - 1))"
      using sorted_nth_mono [OF 1(4), of "psDi s - 1" "psDi s"] True by (auto simp: not_less nth_map)
    show ?thesis
    proof (cases "psize ?d > nextAlignedPiece (psSpace s)")
      case fl: True
      from 1(1) [OF _ refl _ _ refl fl 1(3,4)] True obtain s' where
        "pickLoop ab spec deals (s\<lparr>psChecked := psDi s, psRes := psRes s @ [zeroedPiece ab (nextAlignedPiece (psSpace s))],
          psSpace := psSpace s - nextAlignedPiece (psSpace s), psOffset := psOffset s + Unpadded ab (nextAlignedPiece (psSpace s))\<rparr>) = Inr s'"
        "length (psRes s) + 1 \<le> length (psRes s')" by auto
      then show ?thesis using True fl v ord by (subst pickLoop.simps) (auto simp: Let_def)
    next
      case pl: False
      from 1(2) [OF _ refl _ _ refl pl 1(3,4)] True obtain s' where
        "pickLoop ab spec deals (s\<lparr>psChecked := psDi s, psRes := psRes s @ [?d\<lparr>diOffset := Padded ab (psOffset s)\<rparr>],
          psPickedDeals := psPickedDeals s + 1, psPickedSpace := psPickedSpace s + psize ?d, psSpace := psSpace s - psize ?d,
          psOffset := psOffset s + Unpadded ab (psize ?d), psDi := psDi s + 1\<rparr>) = Inr s'"
        "length (psRes s) + 1 \<le> length (psRes s')" by auto
      then show ?thesis using True pl v ord by (subst pickLoop.simps) (auto simp: Let_def)
    qed
  next
    case False
    have ord: "psDi s < length deals \<Longrightarrow> \<not> psize ?d < psize (deals ! (psDi s - 1))"
      using sorted_nth_mono [OF 1(4), of "psDi s - 1" "psDi s"] by (auto simp: not_less nth_map)
    show ?thesis using False ord 1(3) by (subst pickLoop.simps) (auto simp: Let_def)
  qed
qed

section \<open>Properties\<close>

definition demo_info :: "u64 \<Rightarrow> DealInfoIncludePath" where
  "demo_info s = \<lparr>diProposal = demo_prop s, diOffset = 0, diLength = s, diPayloadSize = 100, diDealID = 7,
     diTotalStorageFee = 10, diFastRetrieval = True, diPublishCid = ''pub''\<rparr>"

definition demo_spec :: GetDealSpec where
  "demo_spec = \<lparr>MaxPiece = 10, MaxPieceSize = 0, MinPiece = 0, MinPieceSize = 150, MinUsedSpace = 0, spStartEpoch = 0,
     spEndEpoch = 0\<rparr>"


lemma demo_pick:
  "pickAndAlign abi_std [demo_info 128, demo_info 512] 2048 None =
     Inr [demo_info 128, zeroedPiece abi_std 128, zeroedPiece abi_std 256, (demo_info 512)\<lparr>diOffset := 512\<rparr>,
       zeroedPiece abi_std 1024]"
  by code_simp


text \<open>On deals in ascending order of valid sizes and a valid sector size \<open>pickAndAlign\<close> never fails, the
  deals that reach the loop are exactly the eligible ones (by epochs and by size), and without limits on the
  number and the space of deals it returns pieces whenever the smallest eligible deal fits in the sector.
\<close>

theorem pickAndAlign_ascending:
  assumes ab: "abi_sizes ab" and S: "validSize ssize" and srt: "sorted (map psize deals)"
    and v: "\<forall>d \<in> set deals. validSize (psize d)"
  shows "candidates spec deals = filter (eligible spec) deals \<and>
    (\<exists>ps. pickAndAlign ab deals ssize spec = Inr ps \<and>
      (specKept spec 0 [] \<and> candidates spec deals \<noteq> [] \<and> psize (hd (candidates spec deals)) \<le> ssize \<longrightarrow> ps \<noteq> []))"
proof -
  let ?c = "candidates spec deals"
  let ?s0 = "\<lparr>psDi = 0, psChecked = 0, psPickedDeals = 0, psPickedSpace = 0, psSpace = ssize, psOffset = 0, psRes = []\<rparr>"
  have c: "?c = filter (eligible spec) deals" by (rule candidates_filter [OF srt])
  have val: "Validate ab z = None \<longleftrightarrow> validSize z" for z by (rule abi_sizes.validate [OF ab])
  have first: "epochFilter spec deals \<noteq> [] \<Longrightarrow> Validate ab (psize (hd (epochFilter spec deals))) = None"
    using v hd_in_set epochFilter_subset by (metis subsetD val)
  obtain s where s: "pickLoop ab spec ?c ?s0 = Inr s" and
    ne: "?c \<noteq> [] \<Longrightarrow> \<not> maxPieceReached spec 0 \<Longrightarrow> psize (hd ?c) \<le> ssize \<Longrightarrow> psRes s \<noteq> []"
    using pickLoop_total [of ?c ab spec ?s0] sorted_map_filter [OF srt] v by (auto simp: c val hd_conv_nth not_less)
  have mx: "\<not> maxPieceReached spec 0" by (simp add: maxPieceReached_def split: option.splits)
  show ?thesis
    using s ne [OF _ mx] first S
    by (auto simp: pickAndAlign_def val fillersFromRem_fillers specKept_def Let_def c [symmetric] word_less_nat_alt simp flip: candidates_def
        split: option.splits)
qed

theorem pickAndAlign_ascending_witness:
  "\<exists>ps. pickAndAlign abi_std [demo_info 128, demo_info 256] 2048 (Some demo_spec) = Inr ps \<and> ps \<noteq> [] \<and>
     candidates (Some demo_spec) [demo_info 128, demo_info 256] = [demo_info 256]"
proof -
  have v: "\<forall>d \<in> set [demo_info 128, demo_info 256]. validSize (psize d)"
    by (simp add: demo_info_def demo_prop_def flip: validSize_std) code_simp
  have S: "validSize 2048" by (auto simp: validSize_def intro!: exI [of _ 11])
  have srt: "sorted (map psize [demo_info 128, demo_info 256])" by (simp add: demo_info_def demo_prop_def)
  have c: "filter (eligible (Some demo_spec)) [demo_info 128, demo_info 256] = [demo_info 256]"
    by (simp add: eligible_def demo_spec_def demo_info_def demo_prop_def)
  from pickAndAlign_ascending [OF std_sizes.abi_sizes_axioms S srt v, of "Some demo_spec", unfolded c] show ?thesis
    by (auto simp: specKept_def demo_spec_def demo_info_def demo_prop_def)
qed

text \<open>
  The first deal that reaches the loop is not validated when the filter on the smallest size dropped
  deals before it: deals of 128 and 200 bytes with a minimum of 150 give a layout with the piece of 200 bytes, an
  invalid size, and the pieces are not a tiling.
\<close>

theorem pickAndAlign_first_unvalidated:
  "\<exists>ps. pickAndAlign abi_std [demo_info 128, demo_info 200] 2048 (Some demo_spec) = Inr ps \<and>
     demo_info 200 \<in> set ps \<and> Validate abi_std (psize (demo_info 200)) \<noteq> None \<and>
     Validate abi_std (psize (demo_info 128)) = None"
proof -
  have "\<exists>ps. pickAndAlign abi_std [demo_info 128, demo_info 200] 2048 (Some demo_spec) = Inr (demo_info 200 # ps)"
    by (rule exI [of _ "map (zeroedPiece abi_std) [8, 16, 32, 256, 512, 1024]"]) code_simp
  moreover have "Validate abi_std (psize (demo_info 200)) \<noteq> None" by code_simp
  moreover have "Validate abi_std (psize (demo_info 128)) = None" by code_simp
  ultimately show ?thesis by auto
qed

end
