(* ===== verification/Deal_Assigner_Props.thy ===== *)
theory Deal_Assigner_Props
  imports Deal_Assigner Deal_Align_Props
begin

text \<open>
  The properties of the deal assigner, proved for every lawful deal repository: an assigned sector is laid out
  completely and exactly its deals are marked, no deal is packed twice, the number of unpacked deals
  returned, panics, and what the badger transaction leaves behind on an error.
\<close>

section \<open>Sorting\<close>

text \<open>What \<open>sort.Slice\<close> promises: a permutation that is ascending when the order is a strict weak order.\<close>

definition weakOrder :: "('a \<Rightarrow> 'a \<Rightarrow> bool) \<Rightarrow> bool" where
  "weakOrder lss \<longleftrightarrow> (\<forall>a. \<not> lss a a) \<and> (\<forall>a b c. lss a b \<longrightarrow> lss b c \<longrightarrow> lss a c) \<and>
     (\<forall>a b c. lss a c \<longrightarrow> lss a b \<or> lss b c)"

locale slice_sort =
  fixes srt :: "('a \<Rightarrow> 'a \<Rightarrow> bool) \<Rightarrow> 'a list \<Rightarrow> 'a list"
  assumes perm: "mset (srt lss xs) = mset xs"
    and ordered: "weakOrder lss \<Longrightarrow> sorted_wrt (\<lambda>a b. \<not> lss b a) (srt lss xs)"

fun insertBy :: "('a \<Rightarrow> 'a \<Rightarrow> bool) \<Rightarrow> 'a \<Rightarrow> 'a list \<Rightarrow> 'a list" where
  "insertBy lss x [] = [x]"
| "insertBy lss x (y # ys) = (if lss y x then y # insertBy lss x ys else x # y # ys)"

definition sortBy :: "('a \<Rightarrow> 'a \<Rightarrow> bool) \<Rightarrow> 'a list \<Rightarrow> 'a list" where
  "sortBy lss xs = foldr (insertBy lss) xs []"

lemma mset_insertBy: "mset (insertBy lss x ys) = add_mset x (mset ys)"
  by (induction ys) auto

lemma set_insertBy: "set (insertBy lss x ys) = insert x (set ys)"
  by (induction ys) auto

lemma sorted_insertBy:
  assumes w: "weakOrder lss" and s: "sorted_wrt (\<lambda>a b. \<not> lss b a) ys"
  shows "sorted_wrt (\<lambda>a b. \<not> lss b a) (insertBy lss x ys)"
  using s
proof (induction ys)
  case (Cons y ys)
  have "\<not> lss z x" if "\<not> lss y x" "z \<in> set ys" for z
    using that Cons.prems w unfolding weakOrder_def by (metis sorted_wrt.simps(2))
  moreover have "\<not> lss x y" if "lss y x" using that w by (auto simp: weakOrder_def)
  ultimately show ?case using Cons by (auto simp: set_insertBy)
qed simp

interpretation insertion: slice_sort sortBy
proof
  show "mset (sortBy lss xs) = mset xs" for lss :: "'a \<Rightarrow> 'a \<Rightarrow> bool" and xs
    by (induction xs) (auto simp: sortBy_def mset_insertBy)
  show "sorted_wrt (\<lambda>a b. \<not> lss b a) (sortBy lss xs)" if "weakOrder lss" for lss :: "'a \<Rightarrow> 'a \<Rightarrow> bool" and xs
    by (induction xs) (auto simp: sortBy_def intro: sorted_insertBy [OF that])
qed

lemma dealLess_weakOrder: "weakOrder dealLess"
  unfolding weakOrder_def
proof (intro conjI allI impI)
  show "\<not> dealLess a a" for a by (simp add: dealLess_def)
  show "dealLess a c" if "dealLess a b" "dealLess b c" for a b c
    using that by (auto simp: dealLess_def split: if_splits)
  show "dealLess a b \<or> dealLess b c" if "dealLess a c" for a b c
    using that by (auto simp: dealLess_def split: if_splits)
qed

lemma sorted_sizes:
  assumes "slice_sort srt"
  shows "sorted (map psize (srt dealLess xs))"
proof -
  have "sorted_wrt (\<lambda>a b. \<not> dealLess b a) (srt dealLess xs)" by (rule slice_sort.ordered [OF assms dealLess_weakOrder])
  then have "sorted_wrt (\<lambda>a b. psize a \<le> psize b) (srt dealLess xs)"
    by (rule sorted_wrt_mono_rel [rotated]) (auto simp: dealLess_def split: if_splits)
  then show ?thesis by (simp add: sorted_map)
qed

section \<open>The deals offered to the picker\<close>

definition offered :: "MinerDeal \<Rightarrow> bool" where
  "offered md \<longleftrightarrow> DealID md \<noteq> 0 \<and> \<not> isTerminateState md"

lemma sealable_Ret:
  "sealable env mds = Ret deals \<Longrightarrow> (\<forall>md \<in> set mds. offered md \<longrightarrow> PublishCid md \<noteq> None) \<and>
    deals = map (\<lambda>md. dealPath env md (the (PublishCid md))) (filter offered mds)"
  by (induction mds arbitrary: deals) (auto simp: offered_def split: if_splits option.splits outcome.splits)

lemma sealable_Panic_iff:
  "(\<exists>m. sealable env mds = Panic m) \<longleftrightarrow> (\<exists>md \<in> set mds. offered md \<and> PublishCid md = None)"
  by (induction mds) (auto simp: offered_def split: option.splits outcome.splits)

lemma tiles_deal_ids:
  "tiles ab pos ds ps \<Longrightarrow> \<forall>d \<in> set ds. diDealID d \<noteq> 0 \<Longrightarrow>
    map diDealID (filter (\<lambda>p. diDealID p \<noteq> 0) ps) = map diDealID ds"
  by (induction rule: tiles.induct) (auto simp: zeroedPiece_def)

lemma tiles_deal_publish:
  "tiles ab pos ds ps \<Longrightarrow> p \<in> set ps \<Longrightarrow> diDealID p \<noteq> 0 \<Longrightarrow> \<exists>d \<in> set ds. diDealID d = diDealID p \<and> diPublishCid d = diPublishCid p"
  by (induction rule: tiles.induct) (auto simp: zeroedPiece_def)

lemma mset_map_perm: "mset xs = mset (map f ys) \<Longrightarrow> \<exists>zs. mset zs = mset ys \<and> xs = map f zs"
proof (induction xs arbitrary: ys)
  case (Cons x xs)
  have "x \<in> set (map f ys)" using Cons.prems by (metis list.set_intros(1) set_mset_mset)
  then obtain as y bs where y: "ys = as @ y # bs" "x = f y" by (auto dest: split_list)
  then have "mset xs = mset (map f (as @ bs))" using Cons.prems by simp
  from Cons.IH [OF this] obtain zs where "mset zs = mset (as @ bs)" "xs = map f zs" by blast
  then show ?case using y by (intro exI [of _ "y # zs"]) simp
qed simp

lemma pickAndAlign_layout_sorted:
  assumes "abi_sizes ab" "pickAndAlign ab deals ssize spec = Inr ps" "ps \<noteq> []"
    and "candidates spec deals \<noteq> [] \<Longrightarrow> validSize (psize (hd (candidates spec deals)))"
  shows "\<exists>n. tiles ab 0 (take n (candidates spec deals)) ps \<and> totalSize ps = unat ssize"
  using abi_sizes.pickAndAlign_layout [OF assms] by blast

section \<open>Marking the deals\<close>

definition marked :: "DealInfoIncludePath \<Rightarrow> bool" where
  "marked p \<longleftrightarrow> diDealID p \<noteq> 0 \<and> diPublishCid p \<noteq> Undef"

definition assignPiece :: "address \<Rightarrow> u64 \<Rightarrow> DealInfoIncludePath list \<Rightarrow> MinerDeal \<Rightarrow> MinerDeal" where
  "assignPiece m number ps d =
     (if Provider (Proposal d) = m
      then (case find (\<lambda>p. marked p \<and> diDealID p = DealID d) ps of
              None \<Rightarrow> d | Some p \<Rightarrow> d\<lparr>mdPieceStatus := Assigned, Offset := diOffset p, SectorNumber := number\<rparr>)
      else d)"

definition uniqueIDs :: "(cid \<Rightarrow> MinerDeal option) \<Rightarrow> address \<Rightarrow> bool" where
  "uniqueIDs v m \<longleftrightarrow> (\<forall>c c' d d'. v c = Some d \<longrightarrow> v c' = Some d' \<longrightarrow> Provider (Proposal d) = m \<longrightarrow> Provider (Proposal d') = m \<longrightarrow>
     DealID d = DealID d' \<longrightarrow> DealID d \<noteq> 0 \<longrightarrow> c = c')"

lemma assignPiece_keeps [simp]:
  "Provider (Proposal (assignPiece m n ps d)) = Provider (Proposal d)" "DealID (assignPiece m n ps d) = DealID d"
  "Proposal (assignPiece m n ps d) = Proposal d" "PublishCid (assignPiece m n ps d) = PublishCid d"
  "ProposalCid (assignPiece m n ps d) = ProposalCid d" "mdState (assignPiece m n ps d) = mdState d"
  by (simp_all add: assignPiece_def split: option.splits)

lemma uniqueIDs_map_option:
  assumes "uniqueIDs v m" "\<And>d. Provider (Proposal (f d)) = Provider (Proposal d)" "\<And>d. DealID (f d) = DealID d"
  shows "uniqueIDs (\<lambda>c. map_option f (v c)) m"
  using assms unfolding uniqueIDs_def by fastforce

lemma uniqueIDs_map:
  assumes "uniqueIDs v m"
  shows "uniqueIDs (\<lambda>c. map_option (assignPiece m' n ps) (v c)) m"
  by (rule uniqueIDs_map_option [OF assms]) simp_all

lemma uniqueIDs_upd:
  assumes "uniqueIDs v m" "v c = Some d" "Provider (Proposal d') = Provider (Proposal d)" "DealID d' = DealID d"
  shows "uniqueIDs (v(c \<mapsto> d')) m"
  using assms unfolding uniqueIDs_def by (metis fun_upd_other fun_upd_same option.inject)

context storage_deal_repo
begin

lemma savePieces_view:
  assumes "savePieces repo r m number ps = Ret (r', None)" "invar r" "uniqueIDs (view r) m"
    "distinct (map diDealID (filter marked ps))"
  shows "view r' = (\<lambda>c. map_option (assignPiece m number ps) (view r c)) \<and> invar r'"
  using assms
proof (induction ps arbitrary: r)
  case Nil
  have "map_option (assignPiece m number []) x = x" for x by (cases x) (auto simp: assignPiece_def)
  then show ?case using Nil by simp
next
  case (Cons p ps)
  show ?case
  proof (cases "marked p")
    case False
    have "assignPiece m number (p # ps) = assignPiece m number ps" using False by (auto simp: fun_eq_iff assignPiece_def)
    moreover have "savePieces repo r m number ps = Ret (r', None)" using Cons.prems(1) False by (auto simp: marked_def)
    ultimately show ?thesis using Cons.IH Cons.prems False by simp
  next
    case True
    obtain md where md: "sdGetDealByDealID repo r m (diDealID p) = Ret (Inr md)"
      using Cons.prems(1) True by (auto simp: marked_def split: outcome.splits sum.splits)
    let ?md = "md\<lparr>mdPieceStatus := Assigned, Offset := diOffset p, SectorNumber := number\<rparr>"
    obtain r1 where r1: "sdSaveDeal repo r ?md = (r1, None)" "savePieces repo r1 m number ps = Ret (r', None)"
      using Cons.prems(1) True md by (auto simp: marked_def split: prod.splits option.splits)
    have s: "view r (ProposalCid md) = Some md" "Provider (Proposal md) = m" "DealID md = diDealID p"
      using by_id_sound [OF Cons.prems(2) md] by auto
    have v1: "view r1 = (view r)(ProposalCid md \<mapsto> ?md)" using save_ok [OF r1(1)] by simp
    have "view r' = (\<lambda>c. map_option (assignPiece m number ps) (view r1 c)) \<and> invar r'"
    proof (rule Cons.IH [OF r1(2) save_invar [OF Cons.prems(2) r1(1)]])
      show "uniqueIDs (view r1) m" unfolding v1 by (rule uniqueIDs_upd [OF Cons.prems(3) s(1)]) simp_all
    qed (use Cons.prems(4) True in simp)
    moreover have "map_option (assignPiece m number ps) (view r1 c) = map_option (assignPiece m number (p # ps)) (view r c)" for c
    proof (cases "c = ProposalCid md")
      case c: True
      have "find (\<lambda>q. marked q \<and> diDealID q = DealID md) ps = None"
        using Cons.prems(4) True s(3) by (auto simp: find_None_iff image_iff)
      then show ?thesis using c s True by (simp add: v1 assignPiece_def)
    next
      case c: False
      have "\<not> (Provider (Proposal d) = m \<and> DealID d = diDealID p)" if "view r c = Some d" for d
        using Cons.prems(3) that s c True unfolding uniqueIDs_def marked_def by metis
      then show ?thesis using c by (cases "view r c") (auto simp: v1 assignPiece_def)
    qed
    ultimately show ?thesis by (simp add: fun_eq_iff)
  qed
qed

end

section \<open>Assigning a sector\<close>

text \<open>A stored deal that the assigner may put into a sector of the miner \<open>m\<close>.\<close>

definition unpacked :: "(cid \<Rightarrow> MinerDeal option) \<Rightarrow> address \<Rightarrow> MinerDeal \<Rightarrow> bool" where
  "unpacked v m md \<longleftrightarrow> v (ProposalCid md) = Some md \<and> Provider (Proposal md) = m \<and> mdPieceStatus md = Undefine \<and> offered md"

text \<open>What the stored deals of a market satisfy: deal identifiers are unique, publish messages are defined,
  piece sizes are valid.\<close>

definition dealsOk :: "(cid \<Rightarrow> MinerDeal option) \<Rightarrow> address \<Rightarrow> bool" where
  "dealsOk v m \<longleftrightarrow> uniqueIDs v m \<and>
     (\<forall>c d. v c = Some d \<longrightarrow> PublishCid d \<noteq> Some Undef \<and> validSize (PieceSize (Proposal d)))"

lemma dealsOk_map: "dealsOk v m \<Longrightarrow> dealsOk (\<lambda>c. map_option (assignPiece m' n ps) (v c)) m"
  by (auto simp: dealsOk_def uniqueIDs_map)

lemma distinct_deal_ids:
  assumes u: "uniqueIDs v m" and md: "\<forall>md \<in> set mds. unpacked v m md" and d: "distinct (map ProposalCid mds)"
  shows "distinct (map DealID mds)"
  using md d
proof (induction mds)
  case (Cons a mds)
  have "DealID a \<noteq> DealID b" if b: "b \<in> set mds" for b
  proof
    assume eq: "DealID a = DealID b"
    have "unpacked v m a" "unpacked v m b" using Cons.prems(1) b by auto
    then have "ProposalCid a = ProposalCid b"
      using u eq unfolding uniqueIDs_def unpacked_def offered_def by blast
    then show False using Cons.prems(2) b by auto
  qed
  then show ?case using Cons by auto
qed simp

lemma assign_unfold:
  assumes run: "AssignUnPackedDeals Transaction env repo r sid ssize spec = Ret (r', Inr pieces)" and ne: "pieces \<noteq> []"
    and m: "NewIDAddress env (sidMiner sid) = Inr m"
  obtains mds deals where "sdGetDealsByPieceStatus repo r m Undefine = Ret (Inr mds)" "sealable env mds = Ret deals"
    "pickAndAlign (aeAbi env) (SortSlice env dealLess deals) ssize (Some (case spec of None \<Rightarrow> defaultGetDealSpec | Some sp \<Rightarrow> sp)) = Inr pieces"
    "savePieces repo r m (sidNumber sid) pieces = Ret (r', None)"
proof -
  let ?sp = "case spec of None \<Rightarrow> defaultGetDealSpec | Some sp \<Rightarrow> sp"
  have body: "assignBody env repo m (sidNumber sid) ssize ?sp r = Ret (r', Inr pieces)"
    using run m by (simp add: AssignUnPackedDeals_def Transaction_def)
  obtain mds where mds: "sdGetDealsByPieceStatus repo r m Undefine = Ret (Inr mds)"
    using body by (auto simp: assignBody_def split: outcome.splits sum.splits)
  obtain deals where deals: "sealable env mds = Ret deals"
    using body mds by (auto simp: assignBody_def split: outcome.splits)
  have ld: "deals \<noteq> []" using body mds deals ne by (auto simp: assignBody_def)
  obtain ps where ps: "pickAndAlign (aeAbi env) (SortSlice env dealLess deals) ssize (Some ?sp) = Inr ps"
    using body mds deals ld by (cases "pickAndAlign (aeAbi env) (SortSlice env dealLess deals) ssize (Some ?sp)") (auto simp: assignBody_def)
  have b2: "(if ps = [] then Ret (r, Inr ps) else
      (case savePieces repo r m (sidNumber sid) ps of Panic m \<Rightarrow> Panic m | Ret (r', Some e) \<Rightarrow> Ret (r', Inl e)
        | Ret (r', None) \<Rightarrow> Ret (r', Inr ps))) = Ret (r', Inr pieces)"
    using body mds deals ld ps by (simp add: assignBody_def)
  then have "ps = pieces \<and> savePieces repo r m (sidNumber sid) pieces = Ret (r', None)"
    using ne by (cases "ps = []") (auto split: outcome.splits option.splits prod.splits)
  then show ?thesis using that mds deals ps by blast
qed

context storage_deal_repo
begin

lemma assign_effect:
  assumes sizes: "abi_sizes (aeAbi env)" and sort: "slice_sort (SortSlice env)" and inv: "invar r"
    and m: "NewIDAddress env (sidMiner sid) = Inr m" "m \<noteq> Undef" and ok: "dealsOk (view r) m"
    and run: "AssignUnPackedDeals Transaction env repo r sid ssize spec = Ret (r', Inr pieces)" and ne: "pieces \<noteq> []"
  shows "\<exists>mds. (\<forall>md \<in> set mds. unpacked (view r) m md) \<and>
      tiles (aeAbi env) 0 (map (\<lambda>md. dealPath env md (the (PublishCid md))) mds) pieces \<and> totalSize pieces = unat ssize \<and>
      view r' = (\<lambda>c. map_option (assignPiece m (sidNumber sid) pieces) (view r c)) \<and> invar r' \<and>
      (\<forall>p \<in> set pieces. diDealID p \<noteq> 0 \<longrightarrow> marked p)"
proof -
  let ?sp = "Some (case spec of None \<Rightarrow> defaultGetDealSpec | Some sp \<Rightarrow> sp)"
  let ?path = "\<lambda>md. dealPath env md (the (PublishCid md))"
  obtain mds0 deals where mds0: "sdGetDealsByPieceStatus repo r m Undefine = Ret (Inr mds0)" and
    deals: "sealable env mds0 = Ret deals" and
    pick: "pickAndAlign (aeAbi env) (SortSlice env dealLess deals) ssize ?sp = Inr pieces" and
    save: "savePieces repo r m (sidNumber sid) pieces = Ret (r', None)"
    by (rule assign_unfold [OF run ne m(1)])
  let ?srt = "SortSlice env dealLess deals"
  have stored: "distinct (map ProposalCid mds0)" "\<forall>md \<in> set (filter offered mds0). unpacked (view r) m md"
    using by_piece_status_sound [OF inv mds0] m(2) by (auto simp: unpacked_def)
  have d: "deals = map ?path (filter offered mds0)" and pub: "\<forall>md \<in> set mds0. offered md \<longrightarrow> PublishCid md \<noteq> None"
    using sealable_Ret [OF deals] by auto
  have "mset ?srt = mset (map ?path (filter offered mds0))" using slice_sort.perm [OF sort] d by metis
  from mset_map_perm [OF this] obtain mds1 where mds1: "mset mds1 = mset (filter offered mds0)" "?srt = map ?path mds1"
    by blast
  have set1: "set mds1 = set (filter offered mds0)" using mds1(1) by (metis set_mset_mset)
  have c: "candidates ?sp ?srt = map ?path (filter (eligible ?sp \<circ> ?path) mds1)"
  proof -
    have "candidates ?sp ?srt = filter (eligible ?sp) ?srt" by (rule candidates_filter [OF sorted_sizes [OF sort]])
    then show ?thesis by (simp only: mds1(2) filter_map)
  qed
  define el where "el = filter (eligible ?sp \<circ> ?path) mds1"
  have el: "\<forall>md \<in> set el. unpacked (view r) m md \<and> PublishCid md \<noteq> None \<and> PublishCid md \<noteq> Some Undef \<and> validSize (PieceSize (Proposal md))"
  proof
    fix md assume "md \<in> set el"
    then have md: "md \<in> set (filter offered mds0)" by (simp add: el_def set1)
    then have u: "unpacked (view r) m md" using stored(2) by blast
    then show "unpacked (view r) m md \<and> PublishCid md \<noteq> None \<and> PublishCid md \<noteq> Some Undef \<and> validSize (PieceSize (Proposal md))"
      using ok md pub by (auto simp: dealsOk_def unpacked_def)
  qed
  obtain n where n: "tiles (aeAbi env) 0 (take n (map ?path el)) pieces" "totalSize pieces = unat ssize"
    using pickAndAlign_layout_sorted [OF sizes pick ne] el unfolding c el_def [symmetric]
    by (auto simp: dealPath_def hd_map)
  have nz: "\<forall>x \<in> set (map ?path (take n el)). diDealID x \<noteq> 0"
    using el by (auto simp: dealPath_def unpacked_def offered_def dest: in_set_takeD)
  have t: "tiles (aeAbi env) 0 (map ?path (take n el)) pieces" using n(1) by (simp add: take_map)
  have "distinct (map ProposalCid mds1)"
    using mds1(1) stored(1) by (metis distinct_map_filter mset_eq_imp_distinct_iff mset_map)
  then have "distinct (map ProposalCid (take n el))"
    by (simp add: el_def distinct_map_filter flip: take_map)
  moreover have un: "\<forall>md \<in> set (take n el). unpacked (view r) m md" using el by (meson in_set_takeD)
  ultimately have "distinct (map DealID (take n el))"
    using distinct_deal_ids ok unfolding dealsOk_def by blast
  then have "distinct (map diDealID (filter (\<lambda>p. diDealID p \<noteq> 0) pieces))"
    using tiles_deal_ids [OF t nz] by (simp add: dealPath_def comp_def)
  moreover have mk: "marked p" if p: "p \<in> set pieces" "diDealID p \<noteq> 0" for p
  proof -
    obtain md where "md \<in> set el" "diPublishCid p = the (PublishCid md)"
      using tiles_deal_publish [OF t p] by (auto simp: dealPath_def dest: in_set_takeD)
    then show ?thesis using el p(2) by (auto simp: marked_def)
  qed
  then have "filter (\<lambda>p. diDealID p \<noteq> 0) pieces = filter marked pieces" by (auto simp: marked_def intro!: filter_cong)
  ultimately have "view r' = (\<lambda>c. map_option (assignPiece m (sidNumber sid) pieces) (view r c)) \<and> invar r'"
    using savePieces_view [OF save inv] ok by (simp add: dealsOk_def)
  then show ?thesis using t n(2) mk un by blast
qed

end

section \<open>Properties\<close>

definition demo_env :: assign_env where
  "demo_env = \<lparr>aeAbi = abi_std, TotalStorageFee = (\<lambda>_. 10), NewIDAddress = (\<lambda>_. Inr ''miner''), SortSlice = sortBy\<rparr>"

definition demo_sector :: SectorID where
  "demo_sector = \<lparr>sidMiner = 1000, sidNumber = 5\<rparr>"

abbreviation demo_sd_repo :: "(ds_key \<times> MinerDeal) list StorageDealRepo" where
  "demo_sd_repo \<equiv> NewStorageDealRepo id map_deal_store"

text \<open>
  Property C6. When \<open>AssignUnPackedDeals\<close> returns pieces for a sector of a miner, they tile the sector, and the
  deals among them are deals of that miner that were stored, published, not terminated and not yet packed;
  after it exactly these deals are stored as assigned, with their offset and the sector number, and every
  other deal is as before. Hypotheses: the repository is lawful, the library functions have their
  documented meaning, deal identifiers are unique per miner, and the stored deals have valid piece sizes
  and defined publish messages.
\<close>

theorem AssignUnPackedDeals_packs:
  assumes "storage_deal_repo repo view invar" and "abi_sizes (aeAbi env)" and "slice_sort (SortSlice env)" and "invar r"
    and "NewIDAddress env (sidMiner sid) = Inr m" "m \<noteq> Undef" and "dealsOk (view r) m"
    and "AssignUnPackedDeals Transaction env repo r sid ssize spec = Ret (r', Inr pieces)" and "pieces \<noteq> []"
  shows "\<exists>mds. (\<forall>md \<in> set mds. unpacked (view r) m md) \<and>
      tiles (aeAbi env) 0 (map (\<lambda>md. dealPath env md (the (PublishCid md))) mds) pieces \<and> totalSize pieces = unat ssize \<and>
      view r' = (\<lambda>c. map_option (assignPiece m (sidNumber sid) pieces) (view r c))"
  using storage_deal_repo.assign_effect [OF assms] by blast

lemma demo_deals_view:
  "deal_view map_of map_deal_store demo_deals c =
     (if c = ''p1'' then Some (demo_md ''p1'' 7 128) else if c = ''p2'' then Some (demo_md ''p2'' 8 512) else None)"
  by (simp add: deal_view_def demo_deals_def)

lemma demo_deals_ok: "dealsOk (deal_view map_of map_deal_store demo_deals) ''miner''"
proof -
  have "uniqueIDs (deal_view map_of map_deal_store demo_deals) ''miner''"
    by (auto simp: uniqueIDs_def demo_deals_view demo_md_def split: if_splits)
  moreover have "Validate abi_std 128 = None" "Validate abi_std 512 = None" by code_simp+
  ultimately show ?thesis
    by (auto simp: dealsOk_def demo_deals_view demo_md_def demo_prop_def simp flip: validSize_std split: if_splits)
qed

lemma demo_env_laws: "abi_sizes (aeAbi demo_env)" "slice_sort (SortSlice demo_env)"
  "NewIDAddress demo_env (sidMiner demo_sector) = Inr ''miner''"
  using std_sizes.abi_sizes_axioms insertion.slice_sort_axioms by (simp_all add: demo_env_def)

text \<open>Deals of 128 and 512 bytes in a sector of 2048 bytes.\<close>

definition demo_pieces :: "DealInfoIncludePath list" where
  "demo_pieces = [dealPath demo_env (demo_md ''p1'' 7 128) ''pub'', zeroedPiece abi_std 128, zeroedPiece abi_std 256,
     (dealPath demo_env (demo_md ''p2'' 8 512) ''pub'')\<lparr>diOffset := 512\<rparr>, zeroedPiece abi_std 1024]"

definition demo_assigned :: "(ds_key \<times> MinerDeal) list" where
  "demo_assigned = [([''p1''], (demo_md ''p1'' 7 128)\<lparr>mdPieceStatus := Assigned, SectorNumber := 5\<rparr>),
     ([''p2''], (demo_md ''p2'' 8 512)\<lparr>mdPieceStatus := Assigned, Offset := 512, SectorNumber := 5\<rparr>)]"

lemma demo_assign:
  "AssignUnPackedDeals Transaction demo_env demo_sd_repo demo_deals demo_sector 2048 None = Ret (demo_assigned, Inr demo_pieces)"
  by code_simp

theorem AssignUnPackedDeals_packs_witness:
  "AssignUnPackedDeals Transaction demo_env demo_sd_repo demo_deals demo_sector 2048 None = Ret (demo_assigned, Inr demo_pieces) \<and>
   totalSize demo_pieces = 2048"
proof -
  have "demo_pieces \<noteq> []" by (simp add: demo_pieces_def)
  from AssignUnPackedDeals_packs [OF mapdeals.storage_deal_repo_laws demo_env_laws(1,2) demo_deals_invar demo_env_laws(3) _
      demo_deals_ok demo_assign this]
  show ?thesis using demo_assign by auto
qed

text \<open>
  Property C18. No deal is packed twice: the deals of two sectors that are assigned one after the other for the same
  miner are disjoint.
\<close>

theorem AssignUnPackedDeals_disjoint:
  assumes repo: "storage_deal_repo repo view invar" and env: "abi_sizes (aeAbi env)" "slice_sort (SortSlice env)" and inv: "invar r"
    and m: "NewIDAddress env (sidMiner sid1) = Inr m" "NewIDAddress env (sidMiner sid2) = Inr m" "m \<noteq> Undef"
    and ok: "dealsOk (view r) m"
    and run1: "AssignUnPackedDeals Transaction env repo r sid1 ssize1 spec1 = Ret (r1, Inr pieces1)" "pieces1 \<noteq> []"
    and run2: "AssignUnPackedDeals Transaction env repo r1 sid2 ssize2 spec2 = Ret (r2, Inr pieces2)" "pieces2 \<noteq> []"
  shows "diDealID ` set pieces1 \<inter> diDealID ` set pieces2 \<subseteq> {0}"
proof -
  have 1: "view r1 = (\<lambda>c. map_option (assignPiece m (sidNumber sid1) pieces1) (view r c))" "invar r1"
    "\<forall>p \<in> set pieces1. diDealID p \<noteq> 0 \<longrightarrow> marked p"
    using storage_deal_repo.assign_effect [OF repo env inv m(1,3) ok run1] by blast+
  have ok1: "dealsOk (view r1) m" unfolding 1(1) by (rule dealsOk_map [OF ok])
  obtain mds where mds: "\<forall>md \<in> set mds. unpacked (view r1) m md"
    "tiles (aeAbi env) 0 (map (\<lambda>md. dealPath env md (the (PublishCid md))) mds) pieces2"
    using storage_deal_repo.assign_effect [OF repo env 1(2) m(2,3) ok1 run2] by blast
  have False if p: "p \<in> set pieces1" "q \<in> set pieces2" "diDealID p = diDealID q" "diDealID q \<noteq> 0" for p q
  proof -
    obtain md where md: "md \<in> set mds" "DealID md = diDealID q"
      using tiles_deal_publish [OF mds(2) p(2,4)] by (auto simp: dealPath_def)
    then have u: "view r1 (ProposalCid md) = Some md" "Provider (Proposal md) = m" "mdPieceStatus md = Undefine"
      using mds(1) by (auto simp: unpacked_def)
    then obtain d where d: "md = assignPiece m (sidNumber sid1) pieces1 d" unfolding 1(1) by (metis map_option_eq_Some)
    have "find (\<lambda>p. marked p \<and> diDealID p = DealID d) pieces1 \<noteq> None"
      using p 1(3) md(2) d by (auto simp: find_None_iff)
    then have "mdPieceStatus md = Assigned" using d u(2) by (auto simp: assignPiece_def)
    then show False using u(3) by simp
  qed
  then show ?thesis by fastforce
qed

definition one_deal :: GetDealSpec where
  "one_deal = defaultGetDealSpec\<lparr>MaxPiece := 1\<rparr>"

definition demo_assigned1 :: "(ds_key \<times> MinerDeal) list" where
  "demo_assigned1 = [([''p1''], (demo_md ''p1'' 7 128)\<lparr>mdPieceStatus := Assigned, SectorNumber := 5\<rparr>),
     ([''p2''], demo_md ''p2'' 8 512)]"

definition demo_pieces1 :: "DealInfoIncludePath list" where
  "demo_pieces1 = dealPath demo_env (demo_md ''p1'' 7 128) ''pub'' # map (zeroedPiece abi_std) [128, 256, 512, 1024]"

definition demo_pieces2 :: "DealInfoIncludePath list" where
  "demo_pieces2 = dealPath demo_env (demo_md ''p2'' 8 512) ''pub'' # map (zeroedPiece abi_std) [512, 1024]"

lemma demo_two_runs:
  "AssignUnPackedDeals Transaction demo_env demo_sd_repo demo_deals demo_sector 2048 (Some one_deal) = Ret (demo_assigned1, Inr demo_pieces1)"
  "\<exists>r2. AssignUnPackedDeals Transaction demo_env demo_sd_repo demo_assigned1 demo_sector 2048 (Some one_deal) = Ret (r2, Inr demo_pieces2)"
  subgoal by code_simp
  subgoal
    by (rule exI [of _ "[([''p1''], (demo_md ''p1'' 7 128)\<lparr>mdPieceStatus := Assigned, SectorNumber := 5\<rparr>),
     ([''p2''], (demo_md ''p2'' 8 512)\<lparr>mdPieceStatus := Assigned, SectorNumber := 5\<rparr>)]"]) code_simp
  done

theorem AssignUnPackedDeals_disjoint_witness:
  "diDealID ` set demo_pieces1 \<inter> diDealID ` set demo_pieces2 \<subseteq> {0} \<and> 7 \<in> diDealID ` set demo_pieces1"
proof -
  obtain r2 where r2: "AssignUnPackedDeals Transaction demo_env demo_sd_repo demo_assigned1 demo_sector 2048 (Some one_deal) =
      Ret (r2, Inr demo_pieces2)" using demo_two_runs(2) by blast
  have ne: "demo_pieces1 \<noteq> []" "demo_pieces2 \<noteq> []" by (simp_all add: demo_pieces1_def demo_pieces2_def)
  show ?thesis
    using AssignUnPackedDeals_disjoint [OF mapdeals.storage_deal_repo_laws demo_env_laws(1,2) demo_deals_invar demo_env_laws(3)
        demo_env_laws(3) _ demo_deals_ok demo_two_runs(1) ne(1) r2 ne(2)]
    by (simp add: demo_pieces1_def dealPath_def demo_md_def)
qed

lemma savePieces_returns:
  assumes "storage_deal_repo repo view invar"
  shows "\<exists>x. savePieces repo r m n ps = Ret x"
proof (induction ps arbitrary: r)
  case (Cons p ps)
  obtain x where "sdGetDealByDealID repo r m (diDealID p) = Ret x"
    using storage_deal_repo.by_id_returns [OF assms] by blast
  then show ?case using Cons by (auto split: sum.splits option.splits prod.splits)
qed simp

text \<open>When does assigning panic: exactly when the unpacked deals that the repository lists include one with a
  deal identifier, not terminated, that has no publish message (the code dereferences the nil pointer).
\<close>

theorem AssignUnPackedDeals_panics_iff:
  assumes "storage_deal_repo repo view invar" and "NewIDAddress env (sidMiner sid) = Inr m"
    and "sdGetDealsByPieceStatus repo r m Undefine = Ret (Inr mds)"
  shows "(\<exists>msg. AssignUnPackedDeals Transaction env repo r sid ssize spec = Panic msg) \<longleftrightarrow>
    (\<exists>md \<in> set mds. DealID md \<noteq> 0 \<and> \<not> isTerminateState md \<and> PublishCid md = None)"
proof -
  have "(\<exists>msg. AssignUnPackedDeals Transaction env repo r sid ssize spec = Panic msg) \<longleftrightarrow> (\<exists>msg. sealable env mds = Panic msg)"
  proof (cases "sealable env mds")
    case (Ret deals)
    have "assignBody env repo m (sidNumber sid) ssize sp r \<noteq> Panic msg" for sp msg
    proof (cases "pickAndAlign (aeAbi env) (SortSlice env dealLess deals) ssize (Some sp)")
      case (Inr ps)
      obtain x where "savePieces repo r m (sidNumber sid) ps = Ret x" using savePieces_returns [OF assms(1)] by blast
      then show ?thesis using assms(3) Ret Inr by (cases x; cases "snd x") (auto simp: assignBody_def)
    qed (use assms(3) Ret in \<open>simp add: assignBody_def\<close>)
    then show ?thesis using assms(2) Ret by (simp add: AssignUnPackedDeals_def Transaction_def)
  qed (use assms(2,3) in \<open>simp add: AssignUnPackedDeals_def Transaction_def assignBody_def\<close>)
  then show ?thesis by (simp add: sealable_Panic_iff offered_def)
qed

theorem AssignUnPackedDeals_panics_iff_witness:
  "\<exists>msg. AssignUnPackedDeals Transaction demo_env demo_sd_repo [([''p1''], (demo_md ''p1'' 7 128)\<lparr>PublishCid := None\<rparr>)]
     demo_sector 2048 None = Panic msg"
proof -
  have q: "sdGetDealsByPieceStatus demo_sd_repo [([''p1''], (demo_md ''p1'' 7 128)\<lparr>PublishCid := None\<rparr>)] ''miner'' Undefine =
      Ret (Inr [(demo_md ''p1'' 7 128)\<lparr>PublishCid := None\<rparr>])" by code_simp
  have "\<exists>md \<in> set [(demo_md ''p1'' 7 128)\<lparr>PublishCid := None\<rparr>]. DealID md \<noteq> 0 \<and> \<not> isTerminateState md \<and> PublishCid md = None"
    by (simp add: demo_md_def isTerminateState_def)
  then show ?thesis
    using AssignUnPackedDeals_panics_iff [OF mapdeals.storage_deal_repo_laws demo_env_laws(3) q] by blast
qed

section \<open>Unpacked deals and marking\<close>

lemma unpackedLoop_take:
  assumes "MaxPieceSize spec = 0" "\<forall>md \<in> set mds. offered md \<longrightarrow> PublishCid md \<noteq> None"
  shows "unpackedLoop env spec n cur mds =
    Ret (map (\<lambda>md. dealPath env md (the (PublishCid md))) (take (nat (MaxPiece spec - 1 - n)) (filter offered mds)))"
  using assms(2)
proof (induction mds arbitrary: n cur)
  case (Cons md mds)
  show ?case
  proof (cases "offered md")
    case True
    then obtain p where p: "PublishCid md = Some p" using Cons.prems by auto
    show ?thesis
    proof (cases "n + 1 < MaxPiece spec")
      case lt: True
      then have "nat (MaxPiece spec - 1 - n) = Suc (nat (MaxPiece spec - 1 - (n + 1)))" by simp
      then show ?thesis using Cons True lt p assms(1) by (simp add: offered_def)
    qed (use Cons True in \<open>simp add: offered_def\<close>)
  qed (use Cons in \<open>auto simp: offered_def\<close>)
qed simp

text \<open>
  Without a size limit \<open>GetUnPackedDeals\<close> returns the first \<open>MaxPiece - 1\<close> published, not terminated
  deals in store order, where \<open>MaxPiece\<close> is 10 when the specification leaves it out: the comparison
  \<open>numberPiece+1 < spec.MaxPiece\<close> stops one deal early, so a limit of one returns no deal.
\<close>

theorem GetUnPackedDeals_count:
  assumes "sdGetDealsByPieceStatus repo r miner Undefine = Ret (Inr mds)" and "MaxPieceSize (withDefaults spec) = 0"
    and "\<forall>md \<in> set mds. DealID md \<noteq> 0 \<longrightarrow> PublishCid md \<noteq> None"
  shows "GetUnPackedDeals env repo r miner spec =
    Ret (Inr (map (\<lambda>md. dealPath env md (the (PublishCid md)))
      (take (nat (MaxPiece (withDefaults spec) - 1)) (filter (\<lambda>md. DealID md \<noteq> 0 \<and> \<not> isTerminateState md) mds))))"
proof -
  have "\<forall>md \<in> set mds. offered md \<longrightarrow> PublishCid md \<noteq> None" using assms(3) by (simp add: offered_def)
  from unpackedLoop_take [OF assms(2) this, of env 0 0] show ?thesis
    using assms(1) by (simp add: GetUnPackedDeals_def offered_def [abs_def])
qed

theorem GetUnPackedDeals_count_witness:
  "GetUnPackedDeals demo_env demo_sd_repo demo_deals ''miner'' (Some one_deal) = Ret (Inr []) \<and>
   GetUnPackedDeals demo_env demo_sd_repo demo_deals ''miner'' None =
     Ret (Inr [dealPath demo_env (demo_md ''p1'' 7 128) ''pub'', dealPath demo_env (demo_md ''p2'' 8 512) ''pub''])"
proof -
  have q: "sdGetDealsByPieceStatus demo_sd_repo demo_deals ''miner'' Undefine = Ret (Inr [demo_md ''p1'' 7 128, demo_md ''p2'' 8 512])"
    by code_simp
  have p: "\<forall>md \<in> set [demo_md ''p1'' 7 128, demo_md ''p2'' 8 512]. DealID md \<noteq> 0 \<longrightarrow> PublishCid md \<noteq> None"
    by (simp add: demo_md_def)
  note d = withDefaults_def defaultGetDealSpec_def defaultMaxPiece_def one_deal_def demo_md_def isTerminateState_def
  show ?thesis
    using GetUnPackedDeals_count [OF q _ p, of "Some one_deal" demo_env] GetUnPackedDeals_count [OF q _ p, of None demo_env]
    by (simp add: d)
qed

context storage_deal_repo
begin

lemma updateDeal_view:
  assumes run: "updateDeal repo r m i f = Ret (r', None)" and inv: "invar r" and u: "uniqueIDs (view r) m" and i: "i \<noteq> 0"
    and f: "\<And>d. ProposalCid (f d) = ProposalCid d"
  shows "view r' = (\<lambda>c. map_option (\<lambda>d. if Provider (Proposal d) = m \<and> DealID d = i then f d else d) (view r c)) \<and> invar r'"
proof -
  obtain md where md: "sdGetDealByDealID repo r m i = Ret (Inr md)"
    using run by (auto simp: updateDeal_def split: outcome.splits sum.splits)
  have s: "sdSaveDeal repo r (f md) = (r', None)" using run md by (auto simp: updateDeal_def split: prod.splits option.splits)
  have k: "view r (ProposalCid md) = Some md" "Provider (Proposal md) = m" "DealID md = i"
    using by_id_sound [OF inv md] by auto
  have v: "view r' = (view r)(ProposalCid md \<mapsto> f md)" using save_ok [OF s] f by simp
  have "view r' c = map_option (\<lambda>d. if Provider (Proposal d) = m \<and> DealID d = i then f d else d) (view r c)" for c
  proof (cases "c = ProposalCid md")
    case False
    have "\<not> (Provider (Proposal d) = m \<and> DealID d = i)" if "view r c = Some d" for d
      using u that k False i unfolding uniqueIDs_def by metis
    then show ?thesis using False v by (cases "view r c") auto
  qed (use v k in simp)
  then show ?thesis using save_invar [OF inv s] by blast
qed

lemma markDeals_view:
  assumes "MarkDealsAsPacking repo r m ids = Ret (r', None)" "invar r" "uniqueIDs (view r) m" "0 \<notin> set ids"
  shows "view r' = (\<lambda>c. map_option (\<lambda>d. if Provider (Proposal d) = m \<and> DealID d \<in> set ids then d\<lparr>mdPieceStatus := Assigned\<rparr> else d) (view r c)) \<and> invar r'"
  using assms
proof (induction ids arbitrary: r)
  case Nil
  then show ?case by (auto simp: option.map_ident)
next
  case (Cons i ids)
  obtain r1 where r1: "updateDeal repo r m i (\<lambda>md. md\<lparr>mdPieceStatus := Assigned\<rparr>) = Ret (r1, None)"
    "MarkDealsAsPacking repo r1 m ids = Ret (r', None)"
    using Cons.prems(1) by (auto split: outcome.splits prod.splits option.splits)
  have v1: "view r1 = (\<lambda>c. map_option (\<lambda>d. if Provider (Proposal d) = m \<and> DealID d = i then d\<lparr>mdPieceStatus := Assigned\<rparr> else d) (view r c))"
    "invar r1"
    using updateDeal_view [OF r1(1) Cons.prems(2,3)] Cons.prems(4) by auto
  have "uniqueIDs (view r1) m" unfolding v1(1) by (rule uniqueIDs_map_option [OF Cons.prems(3)]) simp_all
  from Cons.IH [OF r1(2) v1(2) this] Cons.prems(4) have
    "view r' = (\<lambda>c. map_option (\<lambda>d. if Provider (Proposal d) = m \<and> DealID d \<in> set ids then d\<lparr>mdPieceStatus := Assigned\<rparr> else d) (view r1 c))"
    "invar r'" by auto
  then show ?case by (auto simp: v1(1) option.map_comp comp_def intro!: ext option.map_cong0)
qed

end

text \<open>\<open>MarkDealsAsPacking\<close>, when it succeeds, marks exactly the listed deals of the miner as assigned and
  changes nothing else.
\<close>

theorem MarkDealsAsPacking_marks:
  assumes "storage_deal_repo repo view invar" "MarkDealsAsPacking repo r m ids = Ret (r', None)" "invar r"
    "uniqueIDs (view r) m" "0 \<notin> set ids"
  shows "view r' = (\<lambda>c. map_option (\<lambda>d. if Provider (Proposal d) = m \<and> DealID d \<in> set ids
    then d\<lparr>mdPieceStatus := Assigned\<rparr> else d) (view r c))"
  using storage_deal_repo.markDeals_view [OF assms] by blast

theorem MarkDealsAsPacking_marks_witness:
  "\<exists>r'. MarkDealsAsPacking demo_sd_repo demo_deals ''miner'' [7] = Ret (r', None) \<and>
     deal_view map_of map_deal_store r' ''p1'' = Some ((demo_md ''p1'' 7 128)\<lparr>mdPieceStatus := Assigned\<rparr>)"
proof -
  have run: "MarkDealsAsPacking demo_sd_repo demo_deals ''miner'' [7] =
     Ret ([([''p1''], (demo_md ''p1'' 7 128)\<lparr>mdPieceStatus := Assigned\<rparr>), ([''p2''], demo_md ''p2'' 8 512)], None)" by code_simp
  have u: "uniqueIDs (deal_view map_of map_deal_store demo_deals) ''miner''" using demo_deals_ok by (simp add: dealsOk_def)
  from MarkDealsAsPacking_marks [OF mapdeals.storage_deal_repo_laws run demo_deals_invar u] run
  show ?thesis by (auto simp: demo_deals_view demo_md_def demo_prop_def)
qed

definition failing_store :: "((ds_key \<times> MinerDeal) list, MinerDeal) deal_store" where
  "failing_store = map_deal_store\<lparr>stDs := map_datastore\<lparr>dsPut :=
     (\<lambda>s k v. if k = [''p2''] then (s, Some (ErrApi ''disk full'')) else (AList.update k v s, None))\<rparr>\<rparr>"

text \<open>
  The transaction of the badger repository is not atomic: when saving a later deal fails, \<open>AssignUnPackedDeals\<close>
  returns an error, but the earlier deals stay stored as assigned to the sector that was not handed out.
\<close>

theorem AssignUnPackedDeals_not_atomic:
  "AssignUnPackedDeals Transaction demo_env (NewStorageDealRepo id failing_store) demo_deals demo_sector 2048 None =
     Ret (demo_assigned1, Inl (ErrApi ''disk full'')) \<and>
   map_option mdPieceStatus (deal_view map_of failing_store demo_assigned1 ''p1'') = Some Assigned"
proof
  show "AssignUnPackedDeals Transaction demo_env (NewStorageDealRepo id failing_store) demo_deals demo_sector 2048 None =
     Ret (demo_assigned1, Inl (ErrApi ''disk full''))" by code_simp
  show "map_option mdPieceStatus (deal_view map_of failing_store demo_assigned1 ''p1'') = Some Assigned"
    by (simp add: deal_view_def failing_store_def demo_assigned1_def)
qed

end
