(* ===== verification/Address_Select.thy ===== *)
theory Address_Select
  imports Market_Prelude
begin

text \<open>
  Choosing the sender of a message: \<open>src/storageprovider/address_select.go\<close>. The wallet and the chain are the
  record \<open>addrSelectAPI\<close>; \<open>isID\<close> stands for the comparison of \<open>addr.Protocol()\<close> with \<open>address.ID\<close>. The keys of
  a Go map are walked in the order \<open>mapOrder\<close> that the runtime picks.
\<close>

record addrSelectAPI =
  WalletBalance :: "address \<Rightarrow> int res"
  WalletHas :: "address \<Rightarrow> bool res"
  StateAccountKey :: "address \<Rightarrow> address res"
  StateLookupID :: "address \<Rightarrow> address res"
  isID :: "address \<Rightarrow> bool"
  mapOrder :: "address list \<Rightarrow> address list"

record MinerInfo =
  Owner :: address
  Worker :: address
  ControlAddresses :: "address list"

record AddressSelector =
  asAddress :: "address list"
  DisableWorkerFallback :: bool

datatype AddrUse = DealPublishAddr | OtherAddrUse

section \<open>Operations\<close>

text \<open>\<open>maybeUseAddress\<close> returns its answer and the new values of \<open>leastBad\<close> and \<open>bestAvail\<close>.\<close>

definition maybeUseAddress :: "addrSelectAPI \<Rightarrow> address \<Rightarrow> int \<Rightarrow> address \<Rightarrow> int \<Rightarrow> bool \<times> address \<times> int" where
  "maybeUseAddress a addr goodFunds leastBad bestAvail =
     (case WalletBalance a addr of
        Inl _ \<Rightarrow> (False, leastBad, bestAvail)
      | Inr b \<Rightarrow>
          if b \<ge> goodFunds then
            (case StateAccountKey a addr of
               Inl _ \<Rightarrow> (False, leastBad, bestAvail)
             | Inr k \<Rightarrow>
                 (case WalletHas a k of
                    Inl _ \<Rightarrow> (False, leastBad, bestAvail)
                  | Inr False \<Rightarrow> (False, leastBad, bestAvail)
                  | Inr True \<Rightarrow> (True, addr, b)))
          else if b > bestAvail then (False, addr, b)
          else (False, leastBad, bestAvail))"

text \<open>The address with which an entry of the candidate list is looked at, if the lookup succeeds.\<close>

definition lookupID :: "addrSelectAPI \<Rightarrow> address \<Rightarrow> address res" where
  "lookupID a addr = (if \<not> isID a addr then StateLookupID a addr else Inr addr)"

fun pickLoop :: "addrSelectAPI \<Rightarrow> int \<Rightarrow> address list \<Rightarrow> address list \<Rightarrow> address \<Rightarrow> int \<Rightarrow> address \<times> int" where
  "pickLoop a goodFunds ctl [] leastBad bestAvail = (leastBad, bestAvail)"
| "pickLoop a goodFunds ctl (addr # addrs) leastBad bestAvail =
     (case lookupID a addr of
        Inl _ \<Rightarrow> pickLoop a goodFunds ctl addrs leastBad bestAvail
      | Inr addr \<Rightarrow>
          if addr \<notin> set ctl then pickLoop a goodFunds ctl addrs leastBad bestAvail
          else
            (case maybeUseAddress a addr goodFunds leastBad bestAvail of
               (True, leastBad', bestAvail') \<Rightarrow> (leastBad', bestAvail')
             | (False, leastBad', bestAvail') \<Rightarrow> pickLoop a goodFunds ctl addrs leastBad' bestAvail'))"

definition pickAddress :: "addrSelectAPI \<Rightarrow> MinerInfo \<Rightarrow> int \<Rightarrow> int \<Rightarrow> address list \<Rightarrow> (address \<times> int) res" where
  "pickAddress a mi goodFunds minFunds addrs =
     (let ctl = ControlAddresses mi @ [Owner mi, Worker mi]
      in Inr (pickLoop a goodFunds ctl addrs (Worker mi) minFunds))"

text \<open>The configured control addresses are taken out of the default ones.\<close>

fun deleteConfigured :: "addrSelectAPI \<Rightarrow> address list \<Rightarrow> address list \<Rightarrow> address list" where
  "deleteConfigured a [] defaultCtl = defaultCtl"
| "deleteConfigured a (addr # configCtl) defaultCtl =
     (case lookupID a addr of
        Inl _ \<Rightarrow> deleteConfigured a configCtl defaultCtl
      | Inr addr \<Rightarrow> deleteConfigured a configCtl (removeAll addr defaultCtl))"

definition AddressFor :: "AddressSelector option \<Rightarrow> addrSelectAPI \<Rightarrow> MinerInfo \<Rightarrow> AddrUse \<Rightarrow> int \<Rightarrow> int \<Rightarrow> (address \<times> int) res" where
  "AddressFor as0 a mi use goodFunds minFunds =
     (case as0 of
        None \<Rightarrow> Inr (Worker mi, 0)
      | Some as \<Rightarrow>
          (let addrs = (case use of
                 DealPublishAddr \<Rightarrow> asAddress as
               | OtherAddrUse \<Rightarrow>
                   mapOrder a (deleteConfigured a (asAddress as)
                     (removeAll (Worker mi) (removeAll (Owner mi) (remdups (ControlAddresses mi))))));
               addrs = (if length addrs = 0 \<or> \<not> DisableWorkerFallback as then addrs @ [Worker mi] else addrs)
           in pickAddress a mi goodFunds minFunds addrs))"

section \<open>Correctness\<close>

text \<open>An address can pay: it has the funds and its key is in the wallet.\<close>

definition canSend :: "addrSelectAPI \<Rightarrow> int \<Rightarrow> address \<Rightarrow> bool" where
  "canSend a goodFunds addr \<longleftrightarrow> (\<exists>b k. WalletBalance a addr = Inr b \<and> b \<ge> goodFunds \<and> StateAccountKey a addr = Inr k \<and> WalletHas a k = Inr True)"

lemma maybeUseAddress_True:
  "maybeUseAddress a addr good lb ba = (True, lb', ba') \<longleftrightarrow> canSend a good addr \<and> lb' = addr \<and> WalletBalance a addr = Inr ba'"
  by (auto simp: maybeUseAddress_def canSend_def split: sum.splits bool.splits)

lemma maybeUseAddress_False:
  "maybeUseAddress a addr good lb ba = (False, lb', ba') \<Longrightarrow>
    \<not> canSend a good addr \<and> (lb' = lb \<and> ba' = ba \<or> lb' = addr \<and> WalletBalance a addr = Inr ba' \<and> ba < ba') \<and>
    (\<forall>b. WalletBalance a addr = Inr b \<longrightarrow> b < good \<longrightarrow> b \<le> ba')"
  by (auto simp: maybeUseAddress_def canSend_def split: sum.splits bool.splits if_splits)

text \<open>The loop stops at the first candidate that can send; otherwise it returns the richest of the candidates
  without enough funds, if that one has more than the minimum.\<close>

lemma pickLoop_spec:
  assumes "pickLoop a good ctl addrs lb ba = (addr, avail)"
  shows "(addr = lb \<and> avail = ba \<or> addr \<in> set ctl \<and> WalletBalance a addr = Inr avail) \<and>
    (\<forall>x y. x \<in> set addrs \<longrightarrow> lookupID a x = Inr y \<longrightarrow> y \<in> set ctl \<longrightarrow> canSend a good y \<longrightarrow> canSend a good addr \<and> WalletBalance a addr = Inr avail) \<and>
    (ba \<le> avail \<or> canSend a good addr) \<and>
    (\<forall>x y b. x \<in> set addrs \<longrightarrow> lookupID a x = Inr y \<longrightarrow> y \<in> set ctl \<longrightarrow> WalletBalance a y = Inr b \<longrightarrow> b < good \<longrightarrow> b \<le> avail \<or> canSend a good addr)"
  using assms
proof (induction a good ctl addrs lb ba rule: pickLoop.induct)
  case (2 a good ctl x xs lb ba)
  show ?case
  proof (cases "lookupID a x")
    case (Inl e)
    then show ?thesis using "2.IH"(1) "2.prems" by simp
  next
    case (Inr y)
    show ?thesis
    proof (cases "y \<in> set ctl")
      case False
      then show ?thesis using "2.IH"(2) [OF Inr] "2.prems" Inr by simp
    next
      case True
      obtain found lb' ba' where m: "maybeUseAddress a y good lb ba = (found, lb', ba')" by (metis prod_cases3)
      show ?thesis
      proof (cases found)
        case t: True
        then have m1: "maybeUseAddress a y good lb ba = (True, lb', ba')" using m by simp
        note mt = m1 [unfolded maybeUseAddress_True]
        have "addr = lb'" "avail = ba'" using m1 "2.prems" Inr True by simp_all
        then show ?thesis using True mt by auto
      next
        case f: False
        have m0: "maybeUseAddress a y good lb ba = (False, lb', ba')" using m f by simp
        note mf = maybeUseAddress_False [OF m0]
        have "pickLoop a good ctl xs lb' ba' = (addr, avail)" using "2.prems" Inr True m0 by simp
        from "2.IH"(3) [OF Inr _ m0 [symmetric] refl refl, simplified, OF True this] show ?thesis using mf Inr True by auto
      qed
    qed
  qed
qed simp

section \<open>Properties\<close>

definition controls :: "MinerInfo \<Rightarrow> address set" where
  "controls mi = set (ControlAddresses mi) \<union> {Owner mi, Worker mi}"

lemma AddressFor_controlled: "\<exists>addr avail. AddressFor (Some as) a mi use good minF = Inr (addr, avail) \<and> addr \<in> controls mi"
proof -
  obtain addrs where r: "AddressFor (Some as) a mi use good minF =
      Inr (pickLoop a good (ControlAddresses mi @ [Owner mi, Worker mi]) addrs (Worker mi) minF)"
    unfolding AddressFor_def pickAddress_def Let_def by auto
  obtain addr avail where p: "pickLoop a good (ControlAddresses mi @ [Owner mi, Worker mi]) addrs (Worker mi) minF = (addr, avail)"
    by fastforce
  have "addr \<in> controls mi" using pickLoop_spec [OF p] by (auto simp: controls_def)
  then show ?thesis using r p by auto
qed

text \<open>\<open>AddressFor\<close> never fails, and what it selects is the owner, the worker or a control address of the
  miner. For publishing deals: when some configured address (or the worker, unless the fallback is
  disabled) belongs to the miner, has the required funds and its key is in the wallet, then the selected
  address is such an address; otherwise no candidate without enough funds has more than the selected one's
  balance.
\<close>

theorem AddressFor_selects:
  "\<exists>addr avail. AddressFor (Some as) a mi use good minF = Inr (addr, avail) \<and> addr \<in> controls mi \<and>
    (use = DealPublishAddr \<longrightarrow>
      (\<forall>x y. (x \<in> set (asAddress as) \<or> x = Worker mi \<and> \<not> DisableWorkerFallback as) \<and> lookupID a x = Inr y \<and> y \<in> controls mi \<longrightarrow>
        (canSend a good y \<longrightarrow> canSend a good addr) \<and>
        (\<forall>b. WalletBalance a y = Inr b \<and> b < good \<longrightarrow> b \<le> avail \<or> canSend a good addr)))"
proof -
  let ?ctl = "ControlAddresses mi @ [Owner mi, Worker mi]"
  define addrs0 where "addrs0 = (case use of DealPublishAddr \<Rightarrow> asAddress as
     | OtherAddrUse \<Rightarrow> mapOrder a (deleteConfigured a (asAddress as)
         (removeAll (Worker mi) (removeAll (Owner mi) (remdups (ControlAddresses mi))))))"
  define addrs where "addrs = (if length addrs0 = 0 \<or> \<not> DisableWorkerFallback as then addrs0 @ [Worker mi] else addrs0)"
  obtain addr avail where p: "pickLoop a good ?ctl addrs (Worker mi) minF = (addr, avail)" by fastforce
  have r: "AddressFor (Some as) a mi use good minF = Inr (addr, avail)"
    using p unfolding addrs_def addrs0_def AddressFor_def pickAddress_def Let_def by simp
  have c: "set ?ctl = controls mi" by (auto simp: controls_def)
  note s = pickLoop_spec [OF p, unfolded c]
  have "x \<in> set addrs" if "use = DealPublishAddr" "x \<in> set (asAddress as) \<or> x = Worker mi \<and> \<not> DisableWorkerFallback as" for x
    using that by (auto simp: addrs_def addrs0_def)
  moreover have "addr \<in> controls mi" using s by (auto simp: controls_def)
  ultimately show ?thesis using s r by (intro exI [of _ addr] exI [of _ avail]) blast
qed

definition demo_mi :: MinerInfo where
  "demo_mi = \<lparr>Owner = ''owner'', Worker = ''worker'', ControlAddresses = [''ctl1'', ''ctl2'']\<rparr>"

definition demo_addr_api :: addrSelectAPI where
  "demo_addr_api = \<lparr>WalletBalance = (\<lambda>a. Inr (if a = ''ctl2'' then 50 else 5)), WalletHas = (\<lambda>_. Inr True),
     StateAccountKey = Inr, StateLookupID = Inr, isID = (\<lambda>_. True), mapOrder = id\<rparr>"

lemma demo_AddressFor:
  "AddressFor (Some \<lparr>asAddress = [''stranger'', ''ctl1'', ''ctl2''], DisableWorkerFallback = True\<rparr>) demo_addr_api demo_mi DealPublishAddr 40 0 =
     Inr (''ctl2'', 50)"
  by code_simp

theorem AddressFor_selects_witness:
  "AddressFor (Some \<lparr>asAddress = [''stranger'', ''ctl1'', ''ctl2''], DisableWorkerFallback = True\<rparr>) demo_addr_api demo_mi DealPublishAddr 40 0 =
     Inr (''ctl2'', 50) \<and> canSend demo_addr_api 40 ''ctl2''"
proof -
  have l: "lookupID demo_addr_api ''ctl2'' = Inr ''ctl2''" "''ctl2'' \<in> controls demo_mi" "canSend demo_addr_api 40 ''ctl2''"
    by (simp_all add: lookupID_def demo_addr_api_def controls_def demo_mi_def canSend_def)
  show ?thesis
    using AddressFor_selects [of "\<lparr>asAddress = [''stranger'', ''ctl1'', ''ctl2''], DisableWorkerFallback = True\<rparr>" demo_addr_api demo_mi
        DealPublishAddr 40 0] demo_AddressFor l by auto
qed

end
