(* ===== verification/Deal_Publisher.thy ===== *)
theory Deal_Publisher
  imports Deal_Types Address_Select
begin

text \<open>
  Publishing deals in batches: \<open>src/storageprovider/dealpublisher.go\<close>. A context is known by the number of the
  pending deal it belongs to: \<open>ctxs n\<close> is the error of a cancelled one. The timer goroutine of
  \<open>waitForMoreDeals\<close> is an entry of \<open>spTimers\<close>, its cancel function the number of the timer, and a call of
  it an entry of \<open>spCancelled\<close>. A goroutine \<open>go publishReady(deals)\<close> is an entry of \<open>dpBatches\<close> until it runs,
  \<open>go onComplete\<close> an entry of \<open>dpCompleted\<close>. The mutexes make every operation one step.
\<close>

section \<open>Data\<close>

record ClientDealProposal =
  cpProposal :: DealProposal
  cpSignature :: bytes

record pendingDeal =
  pdId :: nat
  pdDeal :: ClientDealProposal

record singleDealPublisher =
  maxDealsPerPublishMsg :: u64
  publishPeriod :: int
  cancelWaitForMoreDeals :: "nat option"
  publishPeriodStart :: "int option"
  pending :: "pendingDeal list"
  spTimers :: "nat list"
  spCancelled :: "nat list"
  spNextTimer :: nat
  spShutdown :: bool

record PublishMsgConfig =
  Period :: int
  MaxDealsPerMsg :: u64

text \<open>The node and the messager; the \<open>n\<close>-th call of \<open>ChainHead\<close> of a batch may differ from the others.\<close>

record dealPublisherAPI =
  paAddr :: addrSelectAPI
  paSelector :: "AddressSelector option"
  ChainHead :: "nat \<Rightarrow> int res"
  StateMinerInfo :: "address \<Rightarrow> MinerInfo res"
  SerializeParams :: "ClientDealProposal list \<Rightarrow> bytes res"
  PushMessage :: "Message \<Rightarrow> cid res"
  marketActor :: address
  methodPublishStorageDeals :: nat

definition newDealPublisher :: "PublishMsgConfig \<Rightarrow> singleDealPublisher" where
  "newDealPublisher cfg = \<lparr>maxDealsPerPublishMsg = MaxDealsPerMsg cfg, publishPeriod = Period cfg, cancelWaitForMoreDeals = None,
     publishPeriodStart = None, pending = [], spTimers = [], spCancelled = [], spNextTimer = 0,
     spShutdown = False\<rparr>"

type_synonym ctxs = "nat \<Rightarrow> error option"

definition live :: "ctxs \<Rightarrow> pendingDeal \<Rightarrow> bool" where
  "live cx pd \<longleftrightarrow> cx (pdId pd) = None"

section \<open>One publisher\<close>

text \<open>Cancelled deals are filtered in place: the live ones move to the front of the slice, which is then cut.\<close>

function filterCancelledLoop :: "ctxs \<Rightarrow> nat \<Rightarrow> nat \<Rightarrow> pendingDeal list \<Rightarrow> pendingDeal list \<times> nat" where
  "filterCancelledLoop cx j i q =
     (if j < length q then
        (let pd = q ! j in
         if live cx pd then filterCancelledLoop cx (Suc j) (Suc i) (q[i := pd])
         else filterCancelledLoop cx (Suc j) i q)
      else (q, i))"
  by pat_completeness auto
termination
  by (relation "measure (\<lambda>(cx, j, i, q). length q - j)") auto

declare filterCancelledLoop.simps [simp del]

definition filterCancelledDeals :: "ctxs \<Rightarrow> singleDealPublisher \<Rightarrow> singleDealPublisher" where
  "filterCancelledDeals cx p = (let (q, i) = filterCancelledLoop cx 0 0 (pending p) in p\<lparr>pending := take i q\<rparr>)"

record PendingDealInfo =
  piDeals :: "ClientDealProposal list"
  piPublishPeriodStart :: "int option"
  piPublishPeriod :: int

definition pendingDeals :: "ctxs \<Rightarrow> singleDealPublisher \<Rightarrow> PendingDealInfo" where
  "pendingDeals cx p = \<lparr>piDeals = map pdDeal (filter (live cx) (pending p)), piPublishPeriodStart = publishPeriodStart p,
     piPublishPeriod = publishPeriod p\<rparr>"

text \<open>An operation returns the publisher and the batch of the goroutine it starts, if it starts one.\<close>

definition publishAllDeals :: "ctxs \<Rightarrow> singleDealPublisher \<Rightarrow> singleDealPublisher \<times> pendingDeal list option" where
  "publishAllDeals cx p =
     (let p1 = (case cancelWaitForMoreDeals p of
                  None \<Rightarrow> p
                | Some t \<Rightarrow> p\<lparr>spCancelled := spCancelled p @ [t], cancelWaitForMoreDeals := None, publishPeriodStart := None\<rparr>);
          p2 = filterCancelledDeals cx p1;
          deals = pending p2
      in (p2\<lparr>pending := []\<rparr>, Some deals))"

definition forcePublishPendingDeals :: "ctxs \<Rightarrow> singleDealPublisher \<Rightarrow> singleDealPublisher \<times> pendingDeal list option" where
  "forcePublishPendingDeals cx p = publishAllDeals cx p"

definition waitForMoreDeals :: "int \<Rightarrow> singleDealPublisher \<Rightarrow> singleDealPublisher" where
  "waitForMoreDeals now p =
     (if publishPeriodStart p \<noteq> None then p
      else p\<lparr>publishPeriodStart := Some now, cancelWaitForMoreDeals := Some (spNextTimer p),
             spTimers := spTimers p @ [spNextTimer p], spNextTimer := Suc (spNextTimer p)\<rparr>)"

definition processNewDeal :: "ctxs \<Rightarrow> int \<Rightarrow> pendingDeal \<Rightarrow> singleDealPublisher \<Rightarrow> singleDealPublisher \<times> pendingDeal list option" where
  "processNewDeal cx now pdeal p =
     (let p1 = filterCancelledDeals cx p;
          p2 = (case cancelWaitForMoreDeals p1 of
                  Some t \<Rightarrow> if length (pending p1) = 0
                            then p1\<lparr>spCancelled := spCancelled p1 @ [t], cancelWaitForMoreDeals := None\<rparr> else p1
                | None \<Rightarrow> p1)
      in if cx (pdId pdeal) \<noteq> None then (p2, None)
         else
           (let p3 = p2\<lparr>pending := pending p2 @ [pdeal]\<rparr> in
            if of_nat (length (pending p3)) \<ge> maxDealsPerPublishMsg p3 \<or> publishPeriod p3 = 0
            then publishAllDeals cx p3
            else (waitForMoreDeals now p3, None)))"

text \<open>The timer goroutine: its timer expires, or it sees that it was cancelled. When both are ready the
  \<open>select\<close> may take either, so a cancelled timer can still fire.\<close>

definition timerFires :: "ctxs \<Rightarrow> nat \<Rightarrow> singleDealPublisher \<Rightarrow> singleDealPublisher \<times> pendingDeal list option" where
  "timerFires cx t p = publishAllDeals cx (p\<lparr>spTimers := removeAll t (spTimers p)\<rparr>)"

definition timerStops :: "nat \<Rightarrow> singleDealPublisher \<Rightarrow> singleDealPublisher" where
  "timerStops t p = p\<lparr>spTimers := removeAll t (spTimers p)\<rparr>"

text \<open>\<open>Shutdown\<close> cancels the context of the publisher, from which the contexts of its timers derive.\<close>

definition Shutdown :: "singleDealPublisher \<Rightarrow> singleDealPublisher" where
  "Shutdown p = p\<lparr>spShutdown := True\<rparr>"

section \<open>Sending a batch\<close>

definition validateDeal :: "dealPublisherAPI \<Rightarrow> nat \<Rightarrow> ClientDealProposal \<Rightarrow> error option" where
  "validateDeal api n deal = (case ChainHead api n of
     Inl e \<Rightarrow> Some e
   | Inr height \<Rightarrow> if height > StartEpoch (cpProposal deal)
                   then Some (ErrMsg ''cannot publish deal: current epoch has passed deal proposal start epoch'') else None)"

text \<open>The sent message is the second component; \<open>pieceCids\<close> is only logged.\<close>

definition publishDealProposals :: "dealPublisherAPI \<Rightarrow> ClientDealProposal list \<Rightarrow> (cid \<times> error option) \<times> Message option" where
  "publishDealProposals api deals =
     (case deals of
        [] \<Rightarrow> ((Undef, None), None)
      | d0 # _ \<Rightarrow>
          (let provider = Provider (cpProposal d0) in
           if (\<exists>dl \<in> set deals. Provider (cpProposal dl) \<noteq> provider)
           then ((Undef, Some (ErrMsg ''publishing deals failed: not all deals are for same provider'')), None)
           else
             (case StateMinerInfo api provider of
                Inl e \<Rightarrow> ((Undef, Some e), None)
              | Inr mi \<Rightarrow>
                  (case SerializeParams api deals of
                     Inl e \<Rightarrow> ((Undef, Some (ErrWrap ''serializing PublishStorageDeals params failed'' e)), None)
                   | Inr params \<Rightarrow>
                       (case AddressFor (paSelector api) (paAddr api) mi DealPublishAddr 0 0 of
                          Inl e \<Rightarrow> ((Undef, Some (ErrWrap ''selecting address for publishing deals'' e)), None)
                        | Inr (addr, _) \<Rightarrow>
                            (let msg = \<lparr>msgTo = marketActor api, msgFrom = addr, msgValue = 0,
                                        msgMethod = methodPublishStorageDeals api, msgParams = params\<rparr> in
                             case PushMessage api msg of
                               Inl e \<Rightarrow> ((Undef, Some e), None)
                             | Inr msgId \<Rightarrow> ((msgId, None), Some msg)))))))"

text \<open>The loop over the batch returns the validated deals and the calls of \<open>onComplete\<close> for the others.\<close>

type_synonym completion = "nat \<times> cid \<times> error option"

fun validateLoop :: "dealPublisherAPI \<Rightarrow> nat \<Rightarrow> pendingDeal list \<Rightarrow> pendingDeal list \<times> completion list" where
  "validateLoop api n [] = ([], [])"
| "validateLoop api n (pd # ready) =
     (case validateLoop api (Suc n) ready of
        (validated, comps) \<Rightarrow>
          (case validateDeal api n (pdDeal pd) of
             Some err \<Rightarrow> (validated, (pdId pd, Undef, Some err) # comps)
           | None \<Rightarrow> (pd # validated, comps)))"

definition publishReady :: "dealPublisherAPI \<Rightarrow> pendingDeal list \<Rightarrow> completion list \<times> Message option" where
  "publishReady api ready =
     (if length ready = 0 then ([], None)
      else
        (let (validated, comps) = validateLoop api 0 ready;
             ((msgCid, err), msg) = publishDealProposals api (map pdDeal validated)
         in (comps @ map (\<lambda>pd. (pdId pd, msgCid, err)) validated, msg)))"

section \<open>All publishers\<close>

record DealPublisher =
  publishers :: "address \<Rightarrow> singleDealPublisher option"
  dpCtxs :: ctxs
  dpNext :: nat
  dpBatches :: "pendingDeal list list"
  dpCompleted :: "completion list"
  dpSent :: "Message list"

definition NewDealPublisher :: DealPublisher where
  "NewDealPublisher = \<lparr>publishers = Map.empty, dpCtxs = (\<lambda>_. None), dpNext = 0, dpBatches = [], dpCompleted = [], dpSent = []\<rparr>"

text \<open>Store what an operation on the publisher of \<open>a\<close> returns.\<close>

definition setPublisher :: "address \<Rightarrow> singleDealPublisher \<times> pendingDeal list option \<Rightarrow> DealPublisher \<Rightarrow> DealPublisher" where
  "setPublisher a r dp = (case r of (p, batch) \<Rightarrow>
     dp\<lparr>publishers := (publishers dp)(a \<mapsto> p),
        dpBatches := dpBatches dp @ (case batch of None \<Rightarrow> [] | Some b \<Rightarrow> [b])\<rparr>)"

text \<open>\<open>Publish\<close> up to its \<open>select\<close>; \<open>ctx\<close> is the error of the caller's context at that time.\<close>

definition Publish :: "PublishMsgConfig \<Rightarrow> error option \<Rightarrow> int \<Rightarrow> ClientDealProposal \<Rightarrow> DealPublisher \<Rightarrow> DealPublisher" where
  "Publish cfg ctx now deal dp =
     (let pdeal = \<lparr>pdId = dpNext dp, pdDeal = deal\<rparr>;
          dp1 = dp\<lparr>dpNext := Suc (dpNext dp), dpCtxs := (dpCtxs dp)(dpNext dp := ctx)\<rparr>;
          providerAddr = Provider (cpProposal deal);
          publisher = (case publishers dp1 providerAddr of Some p \<Rightarrow> p | None \<Rightarrow> newDealPublisher cfg)
      in setPublisher providerAddr (processNewDeal (dpCtxs dp1) now pdeal publisher) dp1)"

text \<open>The \<open>select\<close> of \<open>Publish\<close>: the results it may return with.\<close>

inductive publishReturns :: "error option \<Rightarrow> (cid \<times> error option) option \<Rightarrow> cid \<times> error option \<Rightarrow> bool" where
  ctx_done: "publishReturns (Some e) r (Undef, Some e)"
| result: "publishReturns c (Some r) r"

definition PendingDeals :: "address list \<Rightarrow> DealPublisher \<Rightarrow> PendingDealInfo list" where
  "PendingDeals order dp = map (\<lambda>a. pendingDeals (dpCtxs dp) (the (publishers dp a))) order"

text \<open>\<open>ForcePublishPendingDeals\<close> walks the publishers in the order of the map.\<close>

fun ForcePublishPendingDeals :: "address list \<Rightarrow> DealPublisher \<Rightarrow> DealPublisher" where
  "ForcePublishPendingDeals [] dp = dp"
| "ForcePublishPendingDeals (a # order) dp =
     (case publishers dp a of
        None \<Rightarrow> ForcePublishPendingDeals order dp
      | Some p \<Rightarrow> ForcePublishPendingDeals order (setPublisher a (forcePublishPendingDeals (dpCtxs dp) p) dp))"

text \<open>The hook \<open>OnStop\<close> of the wrapper shuts every publisher down.\<close>

definition OnStop :: "DealPublisher \<Rightarrow> DealPublisher" where
  "OnStop dp = dp\<lparr>publishers := map_option Shutdown \<circ> publishers dp\<rparr>"

text \<open>A goroutine \<open>publishReady\<close> runs on its batch.\<close>

definition runBatch :: "dealPublisherAPI \<Rightarrow> nat \<Rightarrow> DealPublisher \<Rightarrow> DealPublisher" where
  "runBatch api k dp =
     (case publishReady api (dpBatches dp ! k) of
        (comps, msg) \<Rightarrow>
          dp\<lparr>dpBatches := take k (dpBatches dp) @ drop (Suc k) (dpBatches dp), dpCompleted := dpCompleted dp @ comps,
             dpSent := dpSent dp @ (case msg of None \<Rightarrow> [] | Some m \<Rightarrow> [m])\<rparr>)"

text \<open>The steps of the system. The node may answer each batch differently.\<close>

inductive pub_step :: "PublishMsgConfig \<Rightarrow> DealPublisher \<Rightarrow> DealPublisher \<Rightarrow> bool" for cfg where
  publish: "pub_step cfg dp (Publish cfg ctx now deal dp)"
| cancel: "n < dpNext dp \<Longrightarrow> dpCtxs dp n = None \<Longrightarrow> pub_step cfg dp (dp\<lparr>dpCtxs := (dpCtxs dp)(n \<mapsto> e)\<rparr>)"
| force: "pub_step cfg dp (ForcePublishPendingDeals order dp)"
| fires: "publishers dp a = Some p \<Longrightarrow> t \<in> set (spTimers p) \<Longrightarrow>
    pub_step cfg dp (setPublisher a (timerFires (dpCtxs dp) t p) dp)"
| stops: "publishers dp a = Some p \<Longrightarrow> t \<in> set (spTimers p) \<Longrightarrow> t \<in> set (spCancelled p) \<or> spShutdown p \<Longrightarrow>
    pub_step cfg dp (setPublisher a (timerStops t p, None) dp)"
| stop: "pub_step cfg dp (OnStop dp)"
| run: "k < length (dpBatches dp) \<Longrightarrow> pub_step cfg dp (runBatch api k dp)"

inductive pub_reachable :: "PublishMsgConfig \<Rightarrow> DealPublisher \<Rightarrow> bool" for cfg where
  init: "pub_reachable cfg NewDealPublisher"
| step: "pub_reachable cfg dp \<Longrightarrow> pub_step cfg dp dp' \<Longrightarrow> pub_reachable cfg dp'"

end
