(* ===== verification/Deal_Publisher_Props.thy ===== *)
theory Deal_Publisher_Props
  imports Deal_Publisher
begin

text \<open>
  The properties of the deal publisher: its invariant over all reachable states (every deal is in one place,
  batches are bounded and for one provider, pending deals have a running timer unless the publisher is
  stuck), that a stuck publisher stays stuck, and what a batch does.
\<close>

section \<open>Filtering in place\<close>

lemma filterCancelledLoop_spec:
  "i \<le> j \<Longrightarrow> j \<le> length q \<Longrightarrow> filterCancelledLoop cx j i q = (q', i') \<Longrightarrow>
    take i' q' = take i q @ filter (live cx) (drop j q)"
proof (induction cx j i q rule: filterCancelledLoop.induct)
  case (1 cx j i q)
  show ?case
  proof (cases "j < length q")
    case True
    then have d: "drop j q = q ! j # drop (Suc j) q" by (simp add: Cons_nth_drop_Suc)
    show ?thesis
    proof (cases "live cx (q ! j)")
      case l: True
      have "filterCancelledLoop cx (Suc j) (Suc i) (q[i := q ! j]) = (q', i')"
        using 1(5) True l by (simp add: filterCancelledLoop.simps [of cx j] Let_def)
      from 1(1) [OF True refl l _ _ this] have "take i' q' = take (Suc i) (q[i := q ! j]) @ filter (live cx) (drop (Suc j) (q[i := q ! j]))"
        using 1(3) True by simp
      moreover have "take (Suc i) (q[i := q ! j]) = take i q @ [q ! j]"
        using 1(3) True by (simp add: take_Suc_conv_app_nth)
      ultimately show ?thesis using 1(3) d l by simp
    next
      case l: False
      have "filterCancelledLoop cx (Suc j) i q = (q', i')"
        using 1(5) True l by (simp add: filterCancelledLoop.simps [of cx j] Let_def)
      from 1(2) [OF True refl l _ _ this] show ?thesis using 1(3) True d l by simp
    qed
  qed (use 1 in \<open>simp add: filterCancelledLoop.simps [of cx "length q"]\<close>)
qed

lemma filterCancelledDeals_filter [simp]:
  "filterCancelledDeals cx p = p\<lparr>pending := filter (live cx) (pending p)\<rparr>"
proof -
  obtain q i where l: "filterCancelledLoop cx 0 0 (pending p) = (q, i)" by fastforce
  have "take i q = take 0 (pending p) @ filter (live cx) (drop 0 (pending p))"
    by (rule filterCancelledLoop_spec [OF _ _ l]) simp_all
  then show ?thesis using l by (simp add: filterCancelledDeals_def)
qed

section \<open>One publisher\<close>

definition batchMax :: "PublishMsgConfig \<Rightarrow> nat" where
  "batchMax cfg = max 1 (unat (MaxDealsPerMsg cfg))"

definition providerOf :: "pendingDeal \<Rightarrow> address" where
  "providerOf pd = Provider (cpProposal (pdDeal pd))"

text \<open>The timer of the waiting period is running; the publisher has forgotten its timer but not the period.\<close>

definition timerRunning :: "singleDealPublisher \<Rightarrow> bool" where
  "timerRunning p \<longleftrightarrow> (\<exists>t. cancelWaitForMoreDeals p = Some t \<and> t \<in> set (spTimers p) \<and> t \<notin> set (spCancelled p))"

definition stuck :: "singleDealPublisher \<Rightarrow> bool" where
  "stuck p \<longleftrightarrow> cancelWaitForMoreDeals p = None \<and> publishPeriodStart p \<noteq> None"

definition timers_ok :: "singleDealPublisher \<Rightarrow> bool" where
  "timers_ok p \<longleftrightarrow>
     (\<forall>t. cancelWaitForMoreDeals p = Some t \<longrightarrow> publishPeriodStart p \<noteq> None \<and> t < spNextTimer p \<and> t \<notin> set (spCancelled p) \<and>
        (t \<in> set (spTimers p) \<or> spShutdown p)) \<and>
     (\<forall>t \<in> set (spCancelled p). t < spNextTimer p)"

definition pub_ok :: "PublishMsgConfig \<Rightarrow> address \<Rightarrow> singleDealPublisher \<Rightarrow> bool" where
  "pub_ok cfg a p \<longleftrightarrow>
     maxDealsPerPublishMsg p = MaxDealsPerMsg cfg \<and> (\<forall>pd \<in> set (pending p). providerOf pd = a) \<and>
     distinct (map pdId (pending p)) \<and> length (pending p) < batchMax cfg \<and> timers_ok p \<and>
     (pending p \<noteq> [] \<longrightarrow> publishPeriodStart p \<noteq> None)"

lemma pub_ok_pending: "pub_ok cfg a p \<Longrightarrow> \<not> spShutdown p \<Longrightarrow> pending p \<noteq> [] \<Longrightarrow> timerRunning p \<or> stuck p"
  by (cases "cancelWaitForMoreDeals p") (auto simp: pub_ok_def timers_ok_def timerRunning_def stuck_def)

text \<open>An operation with the new deals \<open>new\<close>: the deals it leaves pending and hands to the batch come from the
  pending and the new ones, none twice, and only cancelled ones are dropped.\<close>

definition batchOf :: "pendingDeal list option \<Rightarrow> pendingDeal list" where
  "batchOf b = (case b of None \<Rightarrow> [] | Some ds \<Rightarrow> ds)"

definition op_ok :: "PublishMsgConfig \<Rightarrow> ctxs \<Rightarrow> address \<Rightarrow> pendingDeal list \<Rightarrow> singleDealPublisher \<Rightarrow>
    singleDealPublisher \<times> pendingDeal list option \<Rightarrow> bool" where
  "op_ok cfg cx a new p r \<longleftrightarrow> (case r of (p', b) \<Rightarrow>
     pub_ok cfg a p' \<and> distinct (map pdId (pending p' @ batchOf b)) \<and> length (batchOf b) \<le> batchMax cfg \<and>
     set (pending p' @ batchOf b) \<subseteq> set (pending p @ new) \<and>
     (\<forall>pd \<in> set (pending p @ new). live cx pd \<longrightarrow> pd \<in> set (pending p' @ batchOf b)) \<and>
     (\<forall>pd \<in> set (batchOf b). providerOf pd = a) \<and> (stuck p \<longrightarrow> stuck p'))"

lemma publishAllDeals_sel:
  "publishAllDeals cx p = (p', b) \<Longrightarrow> pending p' = [] \<and> b = Some (filter (live cx) (pending p)) \<and>
    maxDealsPerPublishMsg p' = maxDealsPerPublishMsg p \<and> spTimers p' = spTimers p \<and> spShutdown p' = spShutdown p \<and>
    spNextTimer p' = spNextTimer p \<and> cancelWaitForMoreDeals p' = None \<and>
    publishPeriodStart p' = (case cancelWaitForMoreDeals p of None \<Rightarrow> publishPeriodStart p | Some t \<Rightarrow> None) \<and>
    spCancelled p' = spCancelled p @ (case cancelWaitForMoreDeals p of None \<Rightarrow> [] | Some t \<Rightarrow> [t])"
  by (auto simp: publishAllDeals_def Let_def split: option.splits)

lemma batchMax_pos [simp]: "0 < batchMax cfg" "Suc 0 \<le> batchMax cfg"
  by (auto simp: batchMax_def)

lemma distinct_map_filter_ids: "distinct (map f xs) \<Longrightarrow> distinct (map f (filter P xs))"
  by (rule distinct_map_filter)

text \<open>Publishing everything is sound for a queue that may hold one deal too many.\<close>

lemma publishAllDeals_ok:
  assumes p: "maxDealsPerPublishMsg p = MaxDealsPerMsg cfg" "\<forall>pd \<in> set (pending p). providerOf pd = a"
      "distinct (map pdId (pending p))" "length (pending p) \<le> batchMax cfg"
    and t: "\<forall>t. cancelWaitForMoreDeals p = Some t \<longrightarrow> t < spNextTimer p" "\<forall>t \<in> set (spCancelled p). t < spNextTimer p"
    and old: "set (pending p) \<subseteq> set (pending p0 @ new)"
      "\<forall>pd \<in> set (pending p0 @ new). live cx pd \<longrightarrow> pd \<in> set (pending p)" "stuck p0 \<longrightarrow> stuck p"
  shows "op_ok cfg cx a new p0 (publishAllDeals cx p)"
proof -
  obtain p' b where r: "publishAllDeals cx p = (p', b)" by fastforce
  note s = publishAllDeals_sel [OF r]
  have "pub_ok cfg a p'" using p t s by (auto simp: pub_ok_def timers_ok_def split: option.splits)
  moreover have "length (filter (live cx) (pending p)) \<le> batchMax cfg"
    using p(4) length_filter_le order_trans by blast
  moreover have "stuck p0 \<longrightarrow> stuck p'" using old(3) s by (auto simp: stuck_def split: option.splits)
  ultimately show ?thesis
    using p old s by (auto simp: op_ok_def r batchOf_def distinct_map_filter)
qed

lemma bounded_of_nat:
  assumes "of_nat n < (MaxDealsPerMsg cfg :: u64)" "n \<le> batchMax cfg"
  shows "n < batchMax cfg"
proof (cases "MaxDealsPerMsg cfg = 0")
  case False
  then have m: "batchMax cfg = unat (MaxDealsPerMsg cfg)" by (simp add: batchMax_def unat_gt_0 Suc_le_eq max_absorb2)
  then have "n < 2 ^ 64" using assms(2) unsigned_less [of "MaxDealsPerMsg cfg", where 'a = nat] by simp
  then have "unat (of_nat n :: u64) = n" by (simp add: unat_of_nat)
  then show ?thesis using assms(1) m by (simp add: word_less_nat_alt)
qed (use assms in simp)

lemma pub_okD:
  assumes "pub_ok cfg a p"
  shows "maxDealsPerPublishMsg p = MaxDealsPerMsg cfg" "\<forall>pd \<in> set (pending p). providerOf pd = a" "distinct (map pdId (pending p))"
    "length (pending p) < batchMax cfg" "\<forall>t. cancelWaitForMoreDeals p = Some t \<longrightarrow> t < spNextTimer p"
    "\<forall>t \<in> set (spCancelled p). t < spNextTimer p"
  using assms by (auto simp: pub_ok_def timers_ok_def)

lemma timerFires_ok: "pub_ok cfg a p \<Longrightarrow> op_ok cfg cx a [] p (timerFires cx t p)"
  unfolding timerFires_def by (rule publishAllDeals_ok) (auto dest: pub_okD simp: stuck_def intro: less_imp_le)

lemma forcePublish_ok: "pub_ok cfg a p \<Longrightarrow> op_ok cfg cx a [] p (forcePublishPendingDeals cx p)"
  unfolding forcePublishPendingDeals_def by (rule publishAllDeals_ok) (auto dest: pub_okD intro: less_imp_le)

lemma timerStops_ok:
  assumes "pub_ok cfg a p" "t \<in> set (spCancelled p) \<or> spShutdown p"
  shows "op_ok cfg cx a [] p (timerStops t p, None)"
proof -
  have "pub_ok cfg a (timerStops t p)"
    using assms by (auto simp: timerStops_def pub_ok_def timers_ok_def)
  then show ?thesis using assms(1) by (auto simp: op_ok_def batchOf_def timerStops_def stuck_def pub_ok_def)
qed

lemma newDealPublisher_ok: "pub_ok cfg a (newDealPublisher cfg)"
  by (simp add: pub_ok_def timers_ok_def newDealPublisher_def)

text \<open>The state in which \<open>processNewDeal\<close> appends the deal.\<close>

definition beforeAppend :: "ctxs \<Rightarrow> singleDealPublisher \<Rightarrow> singleDealPublisher" where
  "beforeAppend cx p =
     (let p1 = p\<lparr>pending := filter (live cx) (pending p)\<rparr> in
      case cancelWaitForMoreDeals p of
        Some t \<Rightarrow> if filter (live cx) (pending p) = [] then p1\<lparr>spCancelled := spCancelled p @ [t], cancelWaitForMoreDeals := None\<rparr> else p1
      | None \<Rightarrow> p1)"

lemma processNewDeal_alt:
  "processNewDeal cx now pd p =
     (let p2 = beforeAppend cx p; p3 = p2\<lparr>pending := pending p2 @ [pd]\<rparr> in
      if cx (pdId pd) \<noteq> None then (p2, None)
      else if of_nat (length (pending p3)) \<ge> maxDealsPerPublishMsg p3 \<or> publishPeriod p3 = 0 then publishAllDeals cx p3
      else (waitForMoreDeals now p3, None))"
  by (simp add: processNewDeal_def beforeAppend_def Let_def split: option.splits)

lemma beforeAppend_sel:
  "pending (beforeAppend cx p) = filter (live cx) (pending p)"
  "maxDealsPerPublishMsg (beforeAppend cx p) = maxDealsPerPublishMsg p" "spTimers (beforeAppend cx p) = spTimers p"
  "spNextTimer (beforeAppend cx p) = spNextTimer p" "spShutdown (beforeAppend cx p) = spShutdown p"
  "publishPeriodStart (beforeAppend cx p) = publishPeriodStart p" "publishPeriod (beforeAppend cx p) = publishPeriod p"
  by (auto simp: beforeAppend_def Let_def split: option.splits)

lemma beforeAppend_ok:
  assumes "pub_ok cfg a p"
  shows "pub_ok cfg a (beforeAppend cx p)" and "stuck p \<Longrightarrow> stuck (beforeAppend cx p)"
proof -
  have "length (filter (live cx) (pending p)) < batchMax cfg"
    by (rule le_less_trans [OF length_filter_le pub_okD(4) [OF assms]])
  moreover have "timers_ok (beforeAppend cx p)"
    using assms by (auto simp: pub_ok_def timers_ok_def beforeAppend_def Let_def split: option.splits)
  moreover have "filter (live cx) (pending p) \<noteq> [] \<longrightarrow> pending p \<noteq> []" by auto
  ultimately show "pub_ok cfg a (beforeAppend cx p)"
    using assms by (auto simp: pub_ok_def beforeAppend_sel distinct_map_filter)
  show "stuck p \<Longrightarrow> stuck (beforeAppend cx p)" by (auto simp: stuck_def beforeAppend_def Let_def)
qed

lemma waitForMoreDeals_sel:
  "pending (waitForMoreDeals now p) = pending p" "maxDealsPerPublishMsg (waitForMoreDeals now p) = maxDealsPerPublishMsg p"
  "publishPeriodStart (waitForMoreDeals now p) \<noteq> None" "stuck p \<Longrightarrow> stuck (waitForMoreDeals now p)"
  by (auto simp: waitForMoreDeals_def stuck_def)

lemma waitForMoreDeals_timers: "timers_ok p \<Longrightarrow> timers_ok (waitForMoreDeals now p)"
  by (auto simp: waitForMoreDeals_def timers_ok_def less_Suc_eq)

lemma processNewDeal_ok:
  assumes ok: "pub_ok cfg a p" and a: "providerOf pd = a" and fresh: "pdId pd \<notin> pdId ` set (pending p)"
  shows "op_ok cfg cx a (if cx (pdId pd) = None then [pd] else []) p (processNewDeal cx now pd p)"
proof -
  let ?p2 = "beforeAppend cx p" let ?p3 = "?p2\<lparr>pending := pending ?p2 @ [pd]\<rparr>"
  note b = beforeAppend_ok [OF ok, of cx] and s = beforeAppend_sel [of cx p]
  show ?thesis
  proof (cases "cx (pdId pd) = None")
    case False
    then have r: "processNewDeal cx now pd p = (?p2, None)" by (simp add: processNewDeal_alt Let_def)
    have "distinct (map pdId (filter (live cx) (pending p)))" using ok by (simp add: pub_ok_def distinct_map_filter)
    then show ?thesis using b False unfolding r by (auto simp: op_ok_def batchOf_def s)
  next
    case True
    have len: "length (pending ?p3) \<le> batchMax cfg" using b(1) by (simp add: pub_ok_def s)
    have dist: "distinct (map pdId (pending ?p3))" using b(1) fresh by (auto simp: pub_ok_def s)
    have prov: "\<forall>x \<in> set (pending ?p3). providerOf x = a" using b(1) a by (auto simp: pub_ok_def)
    have mx: "maxDealsPerPublishMsg ?p3 = MaxDealsPerMsg cfg" using b(1) by (simp add: pub_ok_def)
    have st: "stuck p \<longrightarrow> stuck ?p3" using b(2) by (simp add: stuck_def)
    have old: "set (pending ?p3) \<subseteq> set (pending p @ [pd])" "\<forall>x \<in> set (pending p @ [pd]). live cx x \<longrightarrow> x \<in> set (pending ?p3)"
      by (auto simp: s)
    show ?thesis
    proof (cases "of_nat (length (pending ?p3)) \<ge> maxDealsPerPublishMsg ?p3 \<or> publishPeriod ?p3 = 0")
      case pub: True
      then have r: "processNewDeal cx now pd p = publishAllDeals cx ?p3" using True by (simp add: processNewDeal_alt Let_def)
      have tm: "\<forall>t. cancelWaitForMoreDeals ?p3 = Some t \<longrightarrow> t < spNextTimer ?p3" "\<forall>t \<in> set (spCancelled ?p3). t < spNextTimer ?p3"
        using b(1) by (auto simp: pub_ok_def timers_ok_def)
      show ?thesis unfolding r using True publishAllDeals_ok [OF mx prov dist len tm _ _ st, of "[pd]"] old by simp
    next
      case w: False
      then have r: "processNewDeal cx now pd p = (waitForMoreDeals now ?p3, None)" using True by (simp add: processNewDeal_alt Let_def)
      have "of_nat (length (pending ?p3)) < MaxDealsPerMsg cfg" using w mx by (simp add: not_le)
      then have "length (pending ?p3) < batchMax cfg" using len by (rule bounded_of_nat)
      moreover have "timers_ok (waitForMoreDeals now ?p3)"
        by (rule waitForMoreDeals_timers) (use b(1) in \<open>simp add: pub_ok_def timers_ok_def\<close>)
      ultimately have "pub_ok cfg a (waitForMoreDeals now ?p3)"
        using mx prov dist waitForMoreDeals_sel [where now = now and p = ?p3] by (simp add: pub_ok_def)
      then show ?thesis unfolding r using True dist old st waitForMoreDeals_sel [where now = now and p = ?p3]
        by (simp add: op_ok_def batchOf_def)
    qed
  qed
qed

section \<open>The system\<close>

definition pendIds :: "singleDealPublisher \<Rightarrow> nat set" where
  "pendIds p = pdId ` set (pending p)"

text \<open>The deals that left the queues: in a batch that has not run yet, or completed.\<close>

definition goneIds :: "DealPublisher \<Rightarrow> nat list" where
  "goneIds dp = map pdId (concat (dpBatches dp)) @ map fst (dpCompleted dp)"

definition pub_inv :: "PublishMsgConfig \<Rightarrow> DealPublisher \<Rightarrow> bool" where
  "pub_inv cfg dp \<longleftrightarrow>
     (\<forall>a p. publishers dp a = Some p \<longrightarrow> pub_ok cfg a p \<and> pendIds p \<inter> set (goneIds dp) = {} \<and> (\<forall>n \<in> pendIds p. n < dpNext dp)) \<and>
     (\<forall>a b p q. a \<noteq> b \<longrightarrow> publishers dp a = Some p \<longrightarrow> publishers dp b = Some q \<longrightarrow> pendIds p \<inter> pendIds q = {}) \<and>
     (\<forall>b \<in> set (dpBatches dp). length b \<le> batchMax cfg \<and> (\<exists>a. \<forall>pd \<in> set b. providerOf pd = a)) \<and>
     distinct (goneIds dp) \<and> (\<forall>n \<in> set (goneIds dp). n < dpNext dp) \<and>
     (\<forall>n < dpNext dp. dpCtxs dp n \<noteq> None \<or> n \<in> set (goneIds dp) \<or> (\<exists>a p. publishers dp a = Some p \<and> n \<in> pendIds p))"

lemma pub_invD:
  assumes "pub_inv cfg dp"
  shows "publishers dp a = Some p \<Longrightarrow> pub_ok cfg a p" "publishers dp a = Some p \<Longrightarrow> pendIds p \<inter> set (goneIds dp) = {}"
    "publishers dp a = Some p \<Longrightarrow> n \<in> pendIds p \<Longrightarrow> n < dpNext dp"
    "a \<noteq> b \<Longrightarrow> publishers dp a = Some p \<Longrightarrow> publishers dp b = Some q \<Longrightarrow> pendIds p \<inter> pendIds q = {}"
    "distinct (goneIds dp)" "n \<in> set (goneIds dp) \<Longrightarrow> n < dpNext dp"
    "n < dpNext dp \<Longrightarrow> dpCtxs dp n \<noteq> None \<or> n \<in> set (goneIds dp) \<or> (\<exists>a p. publishers dp a = Some p \<and> n \<in> pendIds p)"
    "b' \<in> set (dpBatches dp) \<Longrightarrow> length b' \<le> batchMax cfg \<and> (\<exists>a. \<forall>pd \<in> set b'. providerOf pd = a)"
  using assms unfolding pub_inv_def by blast+

lemma distinct_swap: "distinct (xs @ ys @ zs) \<longleftrightarrow> distinct (ys @ xs @ zs)"
  by auto

lemma setPublisher_gone:
  "goneIds (setPublisher a (p, b) dp) = map pdId (concat (dpBatches dp)) @ map pdId (batchOf b) @ map fst (dpCompleted dp)"
  by (simp add: setPublisher_def goneIds_def batchOf_def split: option.splits)

lemma setPublisher_sel:
  "publishers (setPublisher a (p, b) dp) = (publishers dp)(a \<mapsto> p)" "dpNext (setPublisher a (p, b) dp) = dpNext dp"
  "dpCtxs (setPublisher a (p, b) dp) = dpCtxs dp"
  "set (goneIds (setPublisher a (p, b) dp)) = set (goneIds dp) \<union> pdId ` set (batchOf b)"
  "distinct (goneIds (setPublisher a (p, b) dp)) \<longleftrightarrow> distinct (map pdId (batchOf b) @ goneIds dp)"
  "x \<in> set (dpBatches (setPublisher a (p, b) dp)) \<longleftrightarrow> x \<in> set (dpBatches dp) \<or> b = Some x"
proof -
  show "distinct (goneIds (setPublisher a (p, b) dp)) \<longleftrightarrow> distinct (map pdId (batchOf b) @ goneIds dp)"
    unfolding setPublisher_gone goneIds_def [of dp] by (rule distinct_swap)
  show "set (goneIds (setPublisher a (p, b) dp)) = set (goneIds dp) \<union> pdId ` set (batchOf b)"
    unfolding setPublisher_gone goneIds_def [of dp] by auto
qed (auto simp: setPublisher_def batchOf_def split: option.splits)

text \<open>An operation on the publisher of \<open>a\<close> (a new one when there was none), with the deals \<open>new\<close> numbered from
  the next number on; every number that is used up without a deal belongs to a cancelled context.\<close>

lemma setPublisher_inv:
  assumes inv: "pub_inv cfg dp"
    and p: "publishers dp a = Some p \<or> publishers dp a = None \<and> p = newDealPublisher cfg"
    and op: "op_ok cfg cx a new p (p', b)"
    and n: "dpNext dp \<le> n" "pdId ` set new \<subseteq> {dpNext dp..<n}"
    and cx: "\<And>k. k < dpNext dp \<Longrightarrow> cx k = dpCtxs dp k" "\<And>k. dpNext dp \<le> k \<Longrightarrow> k < n \<Longrightarrow> cx k \<noteq> None \<or> k \<in> pdId ` set new"
  shows "pub_inv cfg (setPublisher a (p', b) (dp\<lparr>dpNext := n, dpCtxs := cx\<rparr>))"
proof -
  let ?dp = "setPublisher a (p', b) (dp\<lparr>dpNext := n, dpCtxs := cx\<rparr>)"
  let ?out = "pdId ` set (pending p' @ batchOf b)"
  have o: "pub_ok cfg a p'" "distinct (map pdId (pending p' @ batchOf b))" "length (batchOf b) \<le> batchMax cfg"
    "set (pending p' @ batchOf b) \<subseteq> set (pending p @ new)" "\<forall>pd \<in> set (batchOf b). providerOf pd = a"
    "\<forall>pd \<in> set (pending p @ new). live cx pd \<longrightarrow> pd \<in> set (pending p' @ batchOf b)"
    using op by (auto simp: op_ok_def)
  have out: "?out \<subseteq> pendIds p \<union> {dpNext dp..<n}" using o(4) n(2) unfolding pendIds_def by fastforce
  have oldp: "pendIds p \<inter> set (goneIds dp) = {}" "\<And>k. k \<in> pendIds p \<Longrightarrow> k < dpNext dp"
    "\<And>c q. c \<noteq> a \<Longrightarrow> publishers dp c = Some q \<Longrightarrow> pendIds p \<inter> pendIds q = {}"
    using p
  proof (atomize (full), elim disjE conjE)
    assume s: "publishers dp a = Some p"
    show "pendIds p \<inter> set (goneIds dp) = {} \<and> (\<forall>k. k \<in> pendIds p \<longrightarrow> k < dpNext dp) \<and>
        (\<forall>c q. c \<noteq> a \<longrightarrow> publishers dp c = Some q \<longrightarrow> pendIds p \<inter> pendIds q = {})"
      using pub_invD(2,3) [OF inv s] pub_invD(4) [OF inv _ s] by metis
  qed (simp add: pendIds_def newDealPublisher_def)
  have gone: "goneIds (dp\<lparr>dpNext := n, dpCtxs := cx\<rparr>) = goneIds dp" by (simp add: goneIds_def)
  note sel = setPublisher_sel [where a = a and p = p' and b = b and dp = "dp\<lparr>dpNext := n, dpCtxs := cx\<rparr>", unfolded gone]
  have dj: "?out \<inter> set (goneIds dp) = {}" using out oldp(1) pub_invD(6) [OF inv] by fastforce
  have djq: "?out \<inter> pendIds q = {}" if "c \<noteq> a" "publishers dp c = Some q" for c q
    using out oldp(3) [OF that] pub_invD(3) [OF inv that(2)] by fastforce
  have lt: "k < n" if "k \<in> ?out" for k using out that oldp(2) n(1) by fastforce
  show ?thesis
    unfolding pub_inv_def
  proof (intro conjI allI impI ballI)
    fix c q assume q: "publishers ?dp c = Some q"
    show "pub_ok cfg c q" using q o(1) pub_invD(1) [OF inv] by (auto simp: sel split: if_splits)
    show "pendIds q \<inter> set (goneIds ?dp) = {}"
    proof (cases "c = a")
      case True
      then have q': "q = p'" using q by (simp add: sel)
      show ?thesis unfolding q' sel(4) using dj o(2) by (auto simp: pendIds_def)
    next
      case False
      then have q': "publishers dp c = Some q" using q by (simp add: sel)
      show ?thesis unfolding sel(4) using djq [OF False q'] pub_invD(2) [OF inv q'] by auto
    qed
    show "k < dpNext ?dp" if "k \<in> pendIds q" for k
    proof (cases "c = a")
      case True
      then have "q = p'" using q by (simp add: sel)
      then have "k \<in> ?out" using that by (auto simp: pendIds_def)
      then show ?thesis using lt by (simp add: sel)
    next
      case False
      then have "publishers dp c = Some q" using q by (simp add: sel)
      then have "k < dpNext dp" using pub_invD(3) [OF inv _ that] by blast
      then show ?thesis using n(1) by (simp add: sel)
    qed
  next
    fix c d q r assume cd: "c \<noteq> d" "publishers ?dp c = Some q" "publishers ?dp d = Some r"
    have upd: "publishers ?dp = (publishers dp)(a \<mapsto> p')" by (simp add: sel)
    have "((publishers dp)(a \<mapsto> p')) c = Some q" "((publishers dp)(a \<mapsto> p')) d = Some r" using cd(2,3) unfolding upd by simp_all
    with cd(1) consider "c = a" "q = p'" "publishers dp d = Some r" "d \<noteq> a" | "d = a" "r = p'" "publishers dp c = Some q" "c \<noteq> a"
      | "publishers dp c = Some q" "publishers dp d = Some r" "c \<noteq> d" by (cases "c = a"; cases "d = a") auto
    then show "pendIds q \<inter> pendIds r = {}"
    proof cases
      case 1
      then show ?thesis using djq [OF 1(4,3)] by (auto simp: pendIds_def)
    next
      case 2
      then show ?thesis using djq [OF 2(4,3)] by (auto simp: pendIds_def)
    next
      case 3
      then show ?thesis using pub_invD(4) [OF inv] by blast
    qed
  next
    fix x assume "x \<in> set (dpBatches ?dp)"
    then show "length x \<le> batchMax cfg" "\<exists>a. \<forall>pd \<in> set x. providerOf pd = a"
      using o(3,5) pub_invD(8) [OF inv] by (auto simp: sel batchOf_def)
  next
    show "distinct (goneIds ?dp)" using o(2) dj pub_invD(5) [OF inv] by (auto simp: sel)
  next
    show "k < dpNext ?dp" if "k \<in> set (goneIds ?dp)" for k
    proof (cases "k \<in> set (goneIds dp)")
      case True
      then show ?thesis using pub_invD(6) [OF inv] n(1) by (fastforce simp: sel)
    next
      case False
      then have "k \<in> ?out" using that by (auto simp: sel)
      then show ?thesis using lt by (simp add: sel)
    qed
  next
    fix k assume "k < dpNext ?dp"
    then have k: "k < n" by (simp add: sel)
    have kept: "k \<in> ?out" if "k \<in> pdId ` set (pending p @ new)" "cx k = None" using that o(6) by (auto simp: live_def)
    have *: "cx k \<noteq> None \<or> k \<in> set (goneIds dp) \<or> k \<in> ?out \<or> (\<exists>c q. c \<noteq> a \<and> publishers dp c = Some q \<and> k \<in> pendIds q)"
    proof (cases "k < dpNext dp")
      case True
      have "k \<in> ?out" if "publishers dp a = Some q" "k \<in> pendIds q" "cx k = None" for q
        by (rule kept) (use that p in \<open>auto simp: pendIds_def\<close>)
      then show ?thesis using pub_invD(7) [OF inv True] cx(1) [OF True] by metis
    next
      case False
      then show ?thesis using cx(2) [of k] k kept by auto
    qed
    then show "dpCtxs ?dp k \<noteq> None \<or> k \<in> set (goneIds ?dp) \<or> (\<exists>a p. publishers ?dp a = Some p \<and> k \<in> pendIds p)"
      by (auto simp: sel pendIds_def)
  qed
qed

text \<open>Running a batch completes exactly its deals.\<close>

lemma validateLoop_ids:
  "validateLoop api n ready = (validated, comps) \<Longrightarrow>
    mset (map fst comps) + mset (map pdId validated) = mset (map pdId ready) \<and> set validated \<subseteq> set ready"
proof (induction ready arbitrary: n validated comps)
  case (Cons pd ready)
  obtain v c where vc: "validateLoop api (Suc n) ready = (v, c)" by fastforce
  show ?case using Cons.IH [OF vc] Cons.prems vc by (auto split: option.splits)
qed simp

lemma publishReady_ids: "publishReady api ready = (comps, msg) \<Longrightarrow> mset (map fst comps) = mset (map pdId ready)"
proof -
  assume r: "publishReady api ready = (comps, msg)"
  show ?thesis
  proof (cases "ready = []")
    case False
    obtain v c where vc: "validateLoop api 0 ready = (v, c)" by fastforce
    obtain x err m where d: "publishDealProposals api (map pdDeal v) = ((x, err), m)" by (metis surj_pair)
    have "comps = c @ map (\<lambda>pd. (pdId pd, x, err)) v" using r vc d False by (simp add: publishReady_def)
    then show ?thesis using validateLoop_ids [OF vc] by (simp add: comp_def)
  qed (use r in \<open>simp add: publishReady_def\<close>)
qed

lemma mset_concat_nth:
  assumes "k < length xss"
  shows "mset (map f (concat xss)) = mset (map f (concat (take k xss @ drop (Suc k) xss))) + mset (map f (xss ! k))"
proof -
  have "mset (map f (concat (as @ x # bs))) = mset (map f (concat (as @ bs))) + mset (map f x)" for as x bs
    by simp
  from this [of "take k xss" "xss ! k" "drop (Suc k) xss"] show ?thesis
    using id_take_nth_drop [OF assms] by simp
qed

lemma runBatch_gone:
  assumes "k < length (dpBatches dp)"
  shows "mset (goneIds (runBatch api k dp)) = mset (goneIds dp)"
proof -
  obtain comps msg where r: "publishReady api (dpBatches dp ! k) = (comps, msg)" by fastforce
  have "mset (map pdId (concat (dpBatches dp))) =
      mset (map pdId (concat (take k (dpBatches dp) @ drop (Suc k) (dpBatches dp)))) + mset (map pdId (dpBatches dp ! k))"
    by (rule mset_concat_nth [OF assms])
  then have "mset (map pdId (concat (dpBatches dp))) + mset (map fst (dpCompleted dp)) =
      mset (map pdId (concat (take k (dpBatches dp) @ drop (Suc k) (dpBatches dp)))) + mset (map fst (dpCompleted dp @ comps))"
    using publishReady_ids [OF r] by simp
  moreover have "goneIds (runBatch api k dp) =
      map pdId (concat (take k (dpBatches dp) @ drop (Suc k) (dpBatches dp))) @ map fst (dpCompleted dp @ comps)"
    by (simp add: goneIds_def runBatch_def r)
  ultimately show ?thesis by (simp only: goneIds_def mset_append)
qed

lemma runBatch_inv:
  assumes inv: "pub_inv cfg dp" and k: "k < length (dpBatches dp)"
  shows "pub_inv cfg (runBatch api k dp)"
proof -
  note m = runBatch_gone [OF k, of api]
  have s: "set (goneIds (runBatch api k dp)) = set (goneIds dp)" using m by (metis set_mset_mset)
  have d: "distinct (goneIds (runBatch api k dp))" using m pub_invD(5) [OF inv] by (metis mset_eq_imp_distinct_iff)
  have b: "set (dpBatches (runBatch api k dp)) \<subseteq> set (dpBatches dp)"
    by (auto simp: runBatch_def split: prod.splits dest: in_set_takeD in_set_dropD)
  have e: "publishers (runBatch api k dp) = publishers dp" "dpNext (runBatch api k dp) = dpNext dp" "dpCtxs (runBatch api k dp) = dpCtxs dp"
    by (simp_all add: runBatch_def split: prod.splits)
  show ?thesis unfolding pub_inv_def s e
  proof (intro conjI)
    show "\<forall>x \<in> set (dpBatches (runBatch api k dp)). length x \<le> batchMax cfg \<and> (\<exists>a. \<forall>pd \<in> set x. providerOf pd = a)"
      using b pub_invD(8) [OF inv] by blast
  qed (use inv d in \<open>unfold pub_inv_def, blast\<close>)+
qed

lemma same_state: "dp\<lparr>dpNext := dpNext dp, dpCtxs := dpCtxs dp\<rparr> = dp"
  by simp

lemma setPublisher_old_inv:
  assumes "pub_inv cfg dp" "publishers dp a = Some p" "op_ok cfg (dpCtxs dp) a [] p r"
  shows "pub_inv cfg (setPublisher a r dp)"
proof -
  obtain p' b where r: "r = (p', b)" by fastforce
  show ?thesis
    using setPublisher_inv [OF assms(1) disjI1 [OF assms(2)] assms(3) [unfolded r] order_refl] by (simp add: r)
qed

lemma ForcePublish_inv: "pub_inv cfg dp \<Longrightarrow> pub_inv cfg (ForcePublishPendingDeals order dp)"
proof (induction order arbitrary: dp)
  case (Cons a order)
  then show ?case
    using setPublisher_old_inv [OF Cons.prems _ forcePublish_ok] pub_invD(1) [OF Cons.prems]
    by (auto split: option.splits)
qed simp

lemma OnStop_inv:
  assumes "pub_inv cfg dp"
  shows "pub_inv cfg (OnStop dp)"
proof -
  have 1: "pub_ok cfg a p \<Longrightarrow> pub_ok cfg a (Shutdown p)" "pendIds (Shutdown p) = pendIds p" for a p
    by (auto simp: pub_ok_def timers_ok_def Shutdown_def pendIds_def)
  have 2: "goneIds (OnStop dp) = goneIds dp" by (simp add: OnStop_def goneIds_def)
  have 3: "\<exists>p0. publishers dp a = Some p0 \<and> p = Shutdown p0" if "publishers (OnStop dp) a = Some p" for a p
    using that by (auto simp: OnStop_def)
  have 4: "dpNext (OnStop dp) = dpNext dp" "dpCtxs (OnStop dp) = dpCtxs dp" "dpBatches (OnStop dp) = dpBatches dp"
    by (simp_all add: OnStop_def)
  show ?thesis unfolding pub_inv_def 2 4
  proof (intro conjI allI impI)
    fix a p assume "publishers (OnStop dp) a = Some p"
    then obtain p0 where "publishers dp a = Some p0" "p = Shutdown p0" using 3 by blast
    then show "pub_ok cfg a p" "pendIds p \<inter> set (goneIds dp) = {}" "\<forall>n \<in> pendIds p. n < dpNext dp"
      using pub_invD(1-3) [OF assms] 1 by metis+
  next
    fix a b p q assume "a \<noteq> b" "publishers (OnStop dp) a = Some p" "publishers (OnStop dp) b = Some q"
    then show "pendIds p \<inter> pendIds q = {}" using 3 1(2) pub_invD(4) [OF assms] by metis
  next
    fix n assume "n < dpNext dp"
    then show "dpCtxs dp n \<noteq> None \<or> n \<in> set (goneIds dp) \<or> (\<exists>a p. publishers (OnStop dp) a = Some p \<and> n \<in> pendIds p)"
      using pub_invD(7) [OF assms, of n] 1(2) by (auto simp: OnStop_def) metis
  qed (use pub_invD(5,6,8) [OF assms] in blast)+
qed

lemma cancel_inv:
  assumes "pub_inv cfg dp"
  shows "pub_inv cfg (dp\<lparr>dpCtxs := (dpCtxs dp)(n \<mapsto> e)\<rparr>)"
  using assms by (auto simp: pub_inv_def goneIds_def)

lemma Publish_inv:
  assumes inv: "pub_inv cfg dp"
  shows "pub_inv cfg (Publish cfg ctx now deal dp)"
proof -
  let ?pd = "\<lparr>pdId = dpNext dp, pdDeal = deal\<rparr>" and ?a = "Provider (cpProposal deal)"
  let ?cx = "(dpCtxs dp)(dpNext dp := ctx)" and ?new = "if ctx = None then [\<lparr>pdId = dpNext dp, pdDeal = deal\<rparr>] else []"
  obtain p where p: "publishers dp ?a = Some p \<or> publishers dp ?a = None \<and> p = newDealPublisher cfg"
    "(case publishers dp ?a of Some p \<Rightarrow> p | None \<Rightarrow> newDealPublisher cfg) = p"
    by (cases "publishers dp ?a") auto
  have ok: "pub_ok cfg ?a p" using p(1) pub_invD(1) [OF inv] newDealPublisher_ok by auto
  have "dpNext dp \<notin> pendIds p" using p(1) pub_invD(3) [OF inv] by (auto simp: pendIds_def newDealPublisher_def)
  then have op: "op_ok cfg ?cx ?a ?new p (processNewDeal ?cx now ?pd p)"
    using processNewDeal_ok [OF ok, of ?pd ?cx now] by (simp add: providerOf_def pendIds_def)
  obtain p' b where r: "processNewDeal ?cx now ?pd p = (p', b)" by fastforce
  have "Publish cfg ctx now deal dp = setPublisher ?a (p', b) (dp\<lparr>dpNext := Suc (dpNext dp), dpCtxs := ?cx\<rparr>)"
    using p(2) r by (simp add: Publish_def Let_def)
  also have "pub_inv cfg \<dots>" by (rule setPublisher_inv [OF inv p(1) op [unfolded r]]) auto
  finally show ?thesis .
qed

lemma pub_step_inv: "pub_step cfg dp dp' \<Longrightarrow> pub_inv cfg dp \<Longrightarrow> pub_inv cfg dp'"
proof (induction rule: pub_step.induct)
  case (fires dp a p t)
  show ?case by (rule setPublisher_old_inv [OF fires(3,1) timerFires_ok [OF pub_invD(1) [OF fires(3,1)]]])
next
  case (stops dp a p t)
  show ?case by (rule setPublisher_old_inv [OF stops(4,1) timerStops_ok [OF pub_invD(1) [OF stops(4,1)] stops(3)]])
qed (assumption | rule Publish_inv cancel_inv ForcePublish_inv OnStop_inv runBatch_inv)+

lemma pub_reachable_inv: "pub_reachable cfg dp \<Longrightarrow> pub_inv cfg dp"
proof (induction rule: pub_reachable.induct)
  case init
  show ?case by (simp add: pub_inv_def NewDealPublisher_def goneIds_def)
qed (rule pub_step_inv)

section \<open>Properties\<close>

text \<open>
  Property C7. In every reachable state of the deal publisher each deal that was submitted and not cancelled is in
  exactly one place: pending with the publisher of its provider, in a batch that is about to be sent, or
  completed, and none is completed twice; a batch has at most the configured number of deals (at least
  one), all for one provider; and a running publisher with pending deals has a running timer, unless it
  is stuck: it has dropped its timer without resetting the start of the waiting period.
\<close>

theorem deal_publisher_invariant:
  assumes "pub_reachable cfg dp"
  shows "distinct (map pdId (concat (dpBatches dp)) @ map fst (dpCompleted dp)) \<and>
    (\<forall>n < dpNext dp. dpCtxs dp n = None \<longrightarrow>
       n \<in> pdId ` set (concat (dpBatches dp)) \<or> n \<in> fst ` set (dpCompleted dp) \<or> (\<exists>a p. publishers dp a = Some p \<and> n \<in> pdId ` set (pending p))) \<and>
    (\<forall>b \<in> set (dpBatches dp). length b \<le> max 1 (unat (MaxDealsPerMsg cfg)) \<and>
       (\<exists>a. \<forall>pd \<in> set b. Provider (cpProposal (pdDeal pd)) = a)) \<and>
    (\<forall>a p. publishers dp a = Some p \<longrightarrow>
       distinct (map pdId (pending p)) \<and> pdId ` set (pending p) \<inter> (pdId ` set (concat (dpBatches dp)) \<union> fst ` set (dpCompleted dp)) = {} \<and>
       (\<forall>pd \<in> set (pending p). Provider (cpProposal (pdDeal pd)) = a) \<and>
       (pending p \<noteq> [] \<and> \<not> spShutdown p \<longrightarrow> timerRunning p \<or> stuck p))"
proof -
  have inv: "pub_inv cfg dp" by (rule pub_reachable_inv [OF assms])
  show ?thesis
  proof (intro conjI)
    show "distinct (map pdId (concat (dpBatches dp)) @ map fst (dpCompleted dp))" using pub_invD(5) [OF inv] by (simp add: goneIds_def)
    show "\<forall>n < dpNext dp. dpCtxs dp n = None \<longrightarrow>
       n \<in> pdId ` set (concat (dpBatches dp)) \<or> n \<in> fst ` set (dpCompleted dp) \<or> (\<exists>a p. publishers dp a = Some p \<and> n \<in> pdId ` set (pending p))"
    proof (intro allI impI)
      fix n assume "n < dpNext dp" "dpCtxs dp n = None"
      then have "n \<in> set (goneIds dp) \<or> (\<exists>a p. publishers dp a = Some p \<and> n \<in> pendIds p)" using pub_invD(7) [OF inv] by metis
      then show "n \<in> pdId ` set (concat (dpBatches dp)) \<or> n \<in> fst ` set (dpCompleted dp) \<or> (\<exists>a p. publishers dp a = Some p \<and> n \<in> pdId ` set (pending p))"
        unfolding goneIds_def pendIds_def set_append set_map by blast
    qed
    show "\<forall>b \<in> set (dpBatches dp). length b \<le> max 1 (unat (MaxDealsPerMsg cfg)) \<and>
       (\<exists>a. \<forall>pd \<in> set b. Provider (cpProposal (pdDeal pd)) = a)"
      using pub_invD(8) [OF inv] unfolding batchMax_def providerOf_def by blast
    show "\<forall>a p. publishers dp a = Some p \<longrightarrow>
       distinct (map pdId (pending p)) \<and> pdId ` set (pending p) \<inter> (pdId ` set (concat (dpBatches dp)) \<union> fst ` set (dpCompleted dp)) = {} \<and>
       (\<forall>pd \<in> set (pending p). Provider (cpProposal (pdDeal pd)) = a) \<and>
       (pending p \<noteq> [] \<and> \<not> spShutdown p \<longrightarrow> timerRunning p \<or> stuck p)"
    proof (intro allI impI)
      fix a p assume p: "publishers dp a = Some p"
      note ok = pub_invD(1) [OF inv p]
      show "distinct (map pdId (pending p)) \<and> pdId ` set (pending p) \<inter> (pdId ` set (concat (dpBatches dp)) \<union> fst ` set (dpCompleted dp)) = {} \<and>
         (\<forall>pd \<in> set (pending p). Provider (cpProposal (pdDeal pd)) = a) \<and>
         (pending p \<noteq> [] \<and> \<not> spShutdown p \<longrightarrow> timerRunning p \<or> stuck p)"
        using pub_okD(2,3) [OF ok] pub_ok_pending [OF ok] pub_invD(2) [OF inv p]
        unfolding goneIds_def pendIds_def providerOf_def set_append set_map by blast
    qed
  qed
qed

definition demo_cfg :: PublishMsgConfig where
  "demo_cfg = \<lparr>Period = 60, MaxDealsPerMsg = 8\<rparr>"

definition demo_cdp :: ClientDealProposal where
  "demo_cdp = \<lparr>cpProposal = demo_prop 128, cpSignature = []\<rparr>"

text \<open>A deal is submitted and cancelled, then another one is submitted.\<close>

definition demo_pub1 :: DealPublisher where
  "demo_pub1 = Publish demo_cfg None 100 demo_cdp NewDealPublisher"

definition demo_pub2 :: DealPublisher where
  "demo_pub2 = Publish demo_cfg None 130 demo_cdp (demo_pub1\<lparr>dpCtxs := (dpCtxs demo_pub1)(0 \<mapsto> ErrCanceled)\<rparr>)"

lemma demo_pub1_publisher:
  "publishers demo_pub1 ''miner'' = Some \<lparr>maxDealsPerPublishMsg = 8, publishPeriod = 60, cancelWaitForMoreDeals = Some 0,
     publishPeriodStart = Some 100, pending = [\<lparr>pdId = 0, pdDeal = demo_cdp\<rparr>], spTimers = [0], spCancelled = [], spNextTimer = 1,
     spShutdown = False\<rparr>"
  by code_simp

lemma demo_pub2_publisher:
  "publishers demo_pub2 ''miner'' = Some \<lparr>maxDealsPerPublishMsg = 8, publishPeriod = 60, cancelWaitForMoreDeals = None,
     publishPeriodStart = Some 100, pending = [\<lparr>pdId = 1, pdDeal = demo_cdp\<rparr>], spTimers = [0], spCancelled = [0], spNextTimer = 1,
     spShutdown = False\<rparr>"
  by code_simp

lemma demo_pub1_reachable: "pub_reachable demo_cfg demo_pub1"
  unfolding demo_pub1_def by (rule pub_reachable.step [OF pub_reachable.init pub_step.publish])

lemma demo_pub1_sel: "dpNext demo_pub1 = 1" "dpCtxs demo_pub1 0 = None"
  by code_simp+

lemma demo_pub2_reachable: "pub_reachable demo_cfg demo_pub2"
  unfolding demo_pub2_def
  by (rule pub_reachable.step [OF pub_reachable.step [OF demo_pub1_reachable pub_step.cancel [of 0]] pub_step.publish])
    (simp_all add: demo_pub1_sel)

theorem deal_publisher_invariant_witness:
  "pub_reachable demo_cfg demo_pub1 \<and> timerRunning (the (publishers demo_pub1 ''miner''))"
proof -
  let ?p = "the (publishers demo_pub1 ''miner'')"
  have p: "publishers demo_pub1 ''miner'' = Some ?p" "pending ?p \<noteq> []" "\<not> spShutdown ?p" "\<not> stuck ?p"
    by (simp_all add: demo_pub1_publisher stuck_def)
  have "timerRunning ?p \<or> stuck ?p" using deal_publisher_invariant [OF demo_pub1_reachable] p by blast
  then show ?thesis using p(4) demo_pub1_reachable by blast
qed

lemma op_ok_stuck: "op_ok cfg cx a new p (p', b) \<Longrightarrow> stuck p \<Longrightarrow> stuck p'"
  by (simp add: op_ok_def)

text \<open>Every operation on a publisher keeps it stuck, whatever the state of the queue.\<close>

lemma publishAllDeals_stuck: "stuck p \<Longrightarrow> stuck (fst (publishAllDeals cx p))"
proof -
  assume s: "stuck p"
  obtain p' b where r: "publishAllDeals cx p = (p', b)" by fastforce
  show ?thesis using s publishAllDeals_sel [OF r] by (simp add: r stuck_def)
qed

lemma processNewDeal_stuck: "stuck p \<Longrightarrow> stuck (fst (processNewDeal cx now pd p))"
proof -
  assume s: "stuck p"
  let ?p2 = "beforeAppend cx p"
  have s2: "stuck ?p2" using s by (auto simp: stuck_def beforeAppend_def Let_def)
  then have s3: "stuck (?p2\<lparr>pending := pending ?p2 @ [pd]\<rparr>)" by (simp add: stuck_def)
  show ?thesis
    using s2 publishAllDeals_stuck [OF s3] waitForMoreDeals_sel(4) [OF s3] by (simp add: processNewDeal_alt Let_def)
qed

lemma setPublisher_stuck:
  assumes "publishers dp a = Some p" "stuck p" "publishers dp c = Some q" "c = a \<Longrightarrow> stuck (fst r)"
  shows "\<exists>p'. publishers (setPublisher c r dp) a = Some p' \<and> stuck p'"
  using assms by (cases r) (auto simp: setPublisher_def)

lemma ForcePublish_stuck:
  "publishers dp a = Some p \<Longrightarrow> stuck p \<Longrightarrow> \<exists>p'. publishers (ForcePublishPendingDeals order dp) a = Some p' \<and> stuck p'"
proof (induction order arbitrary: dp p)
  case (Cons c order)
  show ?case
  proof (cases "publishers dp c")
    case (Some q)
    have "\<exists>p'. publishers (setPublisher c (forcePublishPendingDeals (dpCtxs dp) q) dp) a = Some p' \<and> stuck p'"
      by (rule setPublisher_stuck [OF Cons.prems Some])
        (use Cons.prems Some publishAllDeals_stuck in \<open>auto simp: forcePublishPendingDeals_def\<close>)
    then show ?thesis using Cons.IH Some by auto
  qed (use Cons in simp)
qed simp

lemma pub_step_stuck:
  assumes "pub_step cfg dp dp'" "publishers dp a = Some p" "stuck p"
  shows "\<exists>p'. publishers dp' a = Some p' \<and> stuck p'"
  using assms
proof (induction rule: pub_step.induct)
  case (publish dp ctx now deal)
  then show ?case
    by (cases "Provider (cpProposal deal) = a")
      (auto simp: Publish_def Let_def setPublisher_def split: prod.splits dest: processNewDeal_stuck [where now = now and
          pd = "\<lparr>pdId = dpNext dp, pdDeal = deal\<rparr>" and cx = "(dpCtxs dp)(dpNext dp := ctx)"])
next
  case (fires dp c q t)
  show ?case
  proof (rule setPublisher_stuck [OF fires(3,4,1)])
    assume "c = a"
    then have "stuck (q\<lparr>spTimers := removeAll t (spTimers q)\<rparr>)" using fires by (simp add: stuck_def)
    then show "stuck (fst (timerFires (dpCtxs dp) t q))" unfolding timerFires_def by (rule publishAllDeals_stuck)
  qed
next
  case (stops dp c q t)
  show ?case
    by (rule setPublisher_stuck [OF stops(4,5,1)]) (use stops in \<open>auto simp: timerStops_def stuck_def\<close>)
next
  case (force dp order)
  then show ?case by (rule ForcePublish_stuck)
qed (auto simp: OnStop_def Shutdown_def stuck_def runBatch_def split: prod.splits)

inductive_set pub_run :: "PublishMsgConfig \<Rightarrow> (DealPublisher \<times> DealPublisher) set" for cfg where
  refl: "(dp, dp) \<in> pub_run cfg"
| step: "(dp, dp') \<in> pub_run cfg \<Longrightarrow> pub_step cfg dp' dp'' \<Longrightarrow> (dp, dp'') \<in> pub_run cfg"

text \<open>A publisher can lose its timer for good: when a deal arrives after all pending deals were cancelled,
  \<open>processNewDeal\<close> cancels the timer but keeps \<open>publishPeriodStart\<close>, so \<open>waitForMoreDeals\<close> does not start a
  new one; the new deal stays pending, and in every later state no timer is running for this provider.
\<close>

theorem publisher_stuck_forever:
  "pub_reachable demo_cfg demo_pub2 \<and> length (pending (the (publishers demo_pub2 ''miner''))) = 1 \<and>
   (\<forall>dp. (demo_pub2, dp) \<in> pub_run demo_cfg \<longrightarrow>
      (\<exists>p. publishers dp ''miner'' = Some p \<and> stuck p \<and> \<not> timerRunning p))"
proof (intro conjI allI impI)
  show "pub_reachable demo_cfg demo_pub2" by (rule demo_pub2_reachable)
  show "length (pending (the (publishers demo_pub2 ''miner''))) = 1" by (simp add: demo_pub2_publisher)
  fix dp assume "(demo_pub2, dp) \<in> pub_run demo_cfg"
  then have "\<exists>p. publishers dp ''miner'' = Some p \<and> stuck p"
  proof (induction demo_pub2 dp rule: pub_run.induct)
    case refl
    show ?case by (simp add: demo_pub2_publisher stuck_def)
  qed (meson pub_step_stuck)
  then show "\<exists>p. publishers dp ''miner'' = Some p \<and> stuck p \<and> \<not> timerRunning p" by (auto simp: stuck_def timerRunning_def)
qed

theorem publisher_stuck_forever_witness:
  "\<exists>p. publishers demo_pub2 ''miner'' = Some p \<and> stuck p \<and> \<not> timerRunning p"
  using publisher_stuck_forever pub_run.refl [of demo_pub2 demo_cfg] by blast

section \<open>Sending a batch\<close>

definition inTime :: "int \<Rightarrow> pendingDeal \<Rightarrow> bool" where
  "inTime h pd \<longleftrightarrow> h \<le> StartEpoch (cpProposal (pdDeal pd))"

definition errPassed :: error where
  "errPassed = ErrMsg ''cannot publish deal: current epoch has passed deal proposal start epoch''"

lemma validateLoop_filter:
  assumes "ChainHead api = (\<lambda>_. Inr h)"
  shows "validateLoop api n ready =
    (filter (inTime h) ready, map (\<lambda>pd. (pdId pd, Undef, Some errPassed)) (filter (\<lambda>pd. \<not> inTime h pd) ready))"
proof (induction ready arbitrary: n)
  case (Cons pd ready)
  show ?case using Cons [of "Suc n"] assms by (auto simp: validateDeal_def inTime_def errPassed_def)
qed simp

lemma publishDealProposals_cases:
  assumes r: "publishDealProposals api (d # ds) = ((c, err), msg)" and s: "paSelector api = Some as"
    and prov: "\<forall>dl \<in> set (d # ds). Provider (cpProposal dl) = a"
  shows "(\<exists>m mi. msg = Some m \<and> err = None \<and> PushMessage api m = Inr c \<and> SerializeParams api (d # ds) = Inr (msgParams m) \<and>
      StateMinerInfo api a = Inr mi \<and> msgFrom m \<in> controls mi) \<or>
    msg = None \<and> c = Undef \<and> (\<exists>e. err = Some e)"
proof -
  have same: "\<not> (\<exists>dl \<in> set (d # ds). Provider (cpProposal dl) \<noteq> Provider (cpProposal d))" "Provider (cpProposal d) = a"
    using prov by auto
  show ?thesis
  proof (cases "StateMinerInfo api a")
    case (Inr mi)
    obtain addr avail where sel: "AddressFor (Some as) (paAddr api) mi DealPublishAddr 0 0 = Inr (addr, avail)" "addr \<in> controls mi"
      using AddressFor_controlled by blast
    show ?thesis using r same Inr sel s
      by (auto simp: publishDealProposals_def Let_def split: sum.splits)
  qed (use r same in \<open>auto simp: publishDealProposals_def\<close>)
qed

text \<open>What sending a batch of deals of one provider does at the chain height \<open>h\<close>: the deals that should have
  started before are completed with an error and are not published; the others either are all in one
  message, sent from an address that the miner controls, and are completed with its CID, or no message is
  sent and all of them are completed with one error. (Together with the invariant: every deal of a batch is
  completed exactly once.)
\<close>

theorem publishReady_batch:
  assumes head: "ChainHead api = (\<lambda>_. Inr h)" and sel: "paSelector api = Some as"
    and prov: "\<forall>pd \<in> set ready. Provider (cpProposal (pdDeal pd)) = a" and r: "publishReady api ready = (comps, msg)"
  shows "(\<forall>pd \<in> set ready. \<not> inTime h pd \<longrightarrow> (pdId pd, Undef, Some errPassed) \<in> set comps) \<and>
    (filter (inTime h) ready = [] \<longrightarrow> msg = None) \<and>
    (filter (inTime h) ready \<noteq> [] \<longrightarrow>
      (\<exists>m c mi. msg = Some m \<and> PushMessage api m = Inr c \<and> SerializeParams api (map pdDeal (filter (inTime h) ready)) = Inr (msgParams m) \<and>
         StateMinerInfo api a = Inr mi \<and> msgFrom m \<in> controls mi \<and> (\<forall>pd \<in> set ready. inTime h pd \<longrightarrow> (pdId pd, c, None) \<in> set comps)) \<or>
      msg = None \<and> (\<exists>e. \<forall>pd \<in> set ready. inTime h pd \<longrightarrow> (pdId pd, Undef, Some e) \<in> set comps))"
proof (cases "ready = []")
  case True
  then show ?thesis using r by (simp add: publishReady_def)
next
  case False
  let ?v = "filter (inTime h) ready"
  obtain c err where d: "publishDealProposals api (map pdDeal ?v) = ((c, err), msg)" and
    comps: "comps = map (\<lambda>pd. (pdId pd, Undef, Some errPassed)) (filter (\<lambda>pd. \<not> inTime h pd) ready) @ map (\<lambda>pd. (pdId pd, c, err)) ?v"
    using r False by (auto simp: publishReady_def validateLoop_filter [OF head] split: prod.splits)
  show ?thesis
  proof (cases "map pdDeal ?v")
    case Nil
    then show ?thesis using d comps by (auto simp: publishDealProposals_def)
  next
    case (Cons x xs)
    have "\<forall>dl \<in> set (x # xs). Provider (cpProposal dl) = a" unfolding Cons [symmetric] using prov by auto
    from publishDealProposals_cases [OF d [unfolded Cons] sel this] show ?thesis
      unfolding Cons comps using Cons by (elim disjE exE conjE) auto
  qed
qed

definition demo_pub_api :: dealPublisherAPI where
  "demo_pub_api = \<lparr>paAddr = demo_addr_api, paSelector = Some \<lparr>asAddress = [''ctl1''], DisableWorkerFallback = False\<rparr>,
     ChainHead = (\<lambda>_. Inr 5), StateMinerInfo = (\<lambda>_. Inr demo_mi), SerializeParams = (\<lambda>_. Inr ''params''),
     PushMessage = (\<lambda>_. Inr ''msgcid''), marketActor = ''f05'', methodPublishStorageDeals = 4\<rparr>"

lemma demo_ready:
  "publishReady demo_pub_api [\<lparr>pdId = 3, pdDeal = demo_cdp\<rparr>] =
     ([(3, ''msgcid'', None)], Some \<lparr>msgTo = ''f05'', msgFrom = ''ctl1'', msgValue = 0, msgMethod = 4, msgParams = ''params''\<rparr>)"
  by code_simp

theorem publishReady_batch_witness:
  "\<exists>comps m. publishReady demo_pub_api [\<lparr>pdId = 3, pdDeal = demo_cdp\<rparr>] = (comps, Some m) \<and> msgFrom m \<in> controls demo_mi \<and>
     (3, ''msgcid'', None) \<in> set comps"
proof -
  have h: "ChainHead demo_pub_api = (\<lambda>_. Inr 5)" "paSelector demo_pub_api = Some \<lparr>asAddress = [''ctl1''], DisableWorkerFallback = False\<rparr>"
    "StateMinerInfo demo_pub_api = (\<lambda>_. Inr demo_mi)"
    by (simp_all add: demo_pub_api_def)
  have p: "\<forall>pd \<in> set [\<lparr>pdId = 3, pdDeal = demo_cdp\<rparr>]. Provider (cpProposal (pdDeal pd)) = ''miner''" "inTime 5 \<lparr>pdId = 3, pdDeal = demo_cdp\<rparr>"
    by (simp_all add: demo_cdp_def demo_prop_def inTime_def)
  show ?thesis using publishReady_batch [OF h(1,2) p(1) demo_ready] p(2) demo_ready h(3) by simp
qed

end
