(* ===== verification/Keyed_Store.thy ===== *)
theory Keyed_Store
  imports Badger_Travel
begin

text \<open>
  What the badger repositories of asks and retrieval deals have in common: values of one type, encoded by a codec, under
  keys of an injective key function. The locale \<open>keyed_store\<close> gives the map a store holds and what its reads and writes
  do to it; the repositories instantiate it.
\<close>

definition value_view :: "('s \<Rightarrow> ds_key \<Rightarrow> 'v option) \<Rightarrow> ('a, 'v) codec_ops \<Rightarrow> ('k \<Rightarrow> ds_key) \<Rightarrow> 's \<Rightarrow> 'k \<Rightarrow> 'a option" where
  "value_view contents cd key s k = (case contents s (key k) of
     None \<Rightarrow> None
   | Some b \<Rightarrow> (case Load cd b of Inl _ \<Rightarrow> None | Inr x \<Rightarrow> Some x))"

text \<open>Every value is stored under the key it carries.\<close>

definition value_invar :: "('s \<Rightarrow> ds_key \<Rightarrow> 'v option) \<Rightarrow> ('a, 'v) codec_ops \<Rightarrow> ('k \<Rightarrow> ds_key) \<Rightarrow> ('a \<Rightarrow> 'k) \<Rightarrow> 's \<Rightarrow> bool" where
  "value_invar contents cd key keyOf s \<longleftrightarrow> (\<forall>n b x. contents s n = Some b \<longrightarrow> Load cd b = Inr x \<longrightarrow> n = key (keyOf x))"

locale keyed_store = datastore ds contents + codec cd
  for ds :: "('s, 'v) datastore_ops" and contents :: "'s \<Rightarrow> ds_key \<Rightarrow> 'v option" and cd :: "('a, 'v) codec_ops" +
  fixes key :: "'k \<Rightarrow> ds_key" and keyOf :: "'a \<Rightarrow> 'k"
  assumes key_inj: "key i = key j \<Longrightarrow> i = j"
begin

lemma put_view:
  assumes "Dump cd x = Inr b" "dsPut ds s (key k) b = (s', None)"
  shows "value_view contents cd key s' = (value_view contents cd key s)(k \<mapsto> x)"
  using put_ok [OF assms(2)] load_dump [OF assms(1)] key_inj by (auto simp: value_view_def fun_eq_iff)

lemma put_fails_view: "dsPut ds s (key k) b = (s', Some e) \<Longrightarrow> value_view contents cd key s' = value_view contents cd key s"
  using put_failed by (auto simp: value_view_def fun_eq_iff)

lemma put_invar:
  assumes "Dump cd x = Inr b" "dsPut ds s (key (keyOf x)) b = (s', err)" "value_invar contents cd key keyOf s"
  shows "value_invar contents cd key keyOf s'"
proof (cases err)
  case None
  then show ?thesis using put_ok assms load_dump [OF assms(1)] by (auto simp: value_invar_def split: if_splits)
next
  case (Some e)
  then show ?thesis using put_failed assms by (simp add: value_invar_def)
qed

lemma get_view:
  assumes "dsGet ds s (key k) = Inr b" "Load cd b = Inr x"
  shows "value_view contents cd key s k = Some x"
  using get_value [OF assms(1)] assms(2) by (simp add: value_view_def)

text \<open>Values a query returns are stored, each under its own key.\<close>

lemma seen_stored:
  assumes "dsQuery ds s [] = Inr rs" "x \<in> set (fst (seen cd rs))" "value_invar contents cd key keyOf s"
  shows "value_view contents cd key s (keyOf x) = Some x"
proof -
  obtain i where "i < length (fst (seen cd rs))" "x = fst (seen cd rs) ! i" using assms(2) by (metis in_set_conv_nth)
  then obtain v where v: "Inr v \<in> set rs" "Load cd v = Inr x" using seen_nth [of i cd rs] by (metis nth_mem)
  obtain n where n: "contents s n = Some v" using query_entry [OF assms(1) v(1)] by auto
  then have "n = key (keyOf x)" using assms(3) v(2) by (auto simp: value_invar_def)
  then show ?thesis using n v(2) by (simp add: value_view_def)
qed

end

end
