(* ===== verification/Storage_Ask.thy ===== *)
theory Storage_Ask
  imports Keyed_Store
begin

text \<open>
  Storage asks: the badger repository (\<open>src/models/badger/storage_ask.go\<close>) and the service that makes, signs and stores
  an ask (\<open>src/storageprovider/storage_ask.go\<close>). The node, the wallet and the codec of the ask are parameters.
\<close>

section \<open>Data\<close>

record StorageAsk =
  Price :: int
  VerifiedPrice :: int
  askMinPieceSize :: u64
  askMaxPieceSize :: u64
  askMiner :: address
  Timestamp :: int
  Expiry :: int
  SeqNo :: u64

record SignedStorageAsk =
  Ask :: "StorageAsk option"
  askSignature :: bytes

section \<open>The badger repository\<close>

record ('s, 'v) storageAskRepo =
  askDs :: "('s, 'v) datastore_ops"
  askCodec :: "(SignedStorageAsk, 'v) codec_ops"
  askKey :: "address \<Rightarrow> ds_key"

definition repoGetAsk :: "('s, 'v) storageAskRepo \<Rightarrow> 's \<Rightarrow> address \<Rightarrow> SignedStorageAsk res" where
  "repoGetAsk ar s miner =
     (case dsGet (askDs ar) s (askKey ar miner) of
        Inl e \<Rightarrow> Inl e
      | Inr b \<Rightarrow>
          (case Load (askCodec ar) b of
             Inl e \<Rightarrow> Inl (ErrWrap ''unmarshal storageask failed'' e)
           | Inr ask \<Rightarrow> Inr ask))"

definition repoSetAsk :: "('s, 'v) storageAskRepo \<Rightarrow> 's \<Rightarrow> SignedStorageAsk option \<Rightarrow> 's \<times> error option" where
  "repoSetAsk ar s signedAsk =
     (case signedAsk of
        None \<Rightarrow> (s, Some (ErrMsg ''param is nil''))
      | Some ask \<Rightarrow>
          (case Ask ask of
             None \<Rightarrow> (s, Some (ErrMsg ''param is nil''))
           | Some a \<Rightarrow>
               (case Dump (askCodec ar) ask of
                  Inl e \<Rightarrow> (s, Some e)
                | Inr b \<Rightarrow> dsPut (askDs ar) s (askKey ar (askMiner a)) b)))"

definition repoListAsk :: "('s, 'v) storageAskRepo \<Rightarrow> 's \<Rightarrow> SignedStorageAsk list res outcome" where
  "repoListAsk ar s = afterTravel (travelDeals (askDs ar) (askCodec ar) s (collectIf (\<lambda>_. True)) []) Inr"

section \<open>The service\<close>

text \<open>\<open>ChainHead n\<close> is the answer to the \<open>n\<close>-th call: the key and the height of the head.\<close>

record askNode =
  ChainHead :: "nat \<Rightarrow> (bytes \<times> int) res"
  dumpAsk :: "StorageAsk \<Rightarrow> bytes res"
  StateMinerInfo :: "address \<Rightarrow> bytes \<Rightarrow> address res"
  StateAccountKey :: "address \<Rightarrow> bytes \<Rightarrow> address res"
  WalletSign :: "address \<Rightarrow> bytes \<Rightarrow> bytes res"
  DefaultMinPieceSize :: u64
  DefaultMaxPieceSize :: u64

definition ListAsk :: "('s, 'v) storageAskRepo \<Rightarrow> 's \<Rightarrow> SignedStorageAsk list res outcome" where
  "ListAsk ar s = repoListAsk ar s"

definition GetAsk :: "('s, 'v) storageAskRepo \<Rightarrow> 's \<Rightarrow> address \<Rightarrow> SignedStorageAsk res" where
  "GetAsk ar s miner = repoGetAsk ar s miner"

definition signAsk :: "askNode \<Rightarrow> StorageAsk \<Rightarrow> SignedStorageAsk res" where
  "signAsk node ask =
     tryE (dumpAsk node ask) (\<lambda>askBytes.
     tryE (ChainHead node 1) (\<lambda>(tok, _).
     tryE (StateMinerInfo node (askMiner ask) tok) (\<lambda>worker.
     tryE (StateAccountKey node worker tok) (\<lambda>addr.
     tryE (WalletSign node addr askBytes) (\<lambda>sig.
       Inr \<lparr>Ask = Some ask, askSignature = sig\<rparr>)))))"

definition newAsk :: "address \<Rightarrow> int \<Rightarrow> int \<Rightarrow> int \<Rightarrow> int \<Rightarrow> u64 \<Rightarrow> u64 \<Rightarrow> u64 \<Rightarrow> StorageAsk" where
  "newAsk miner price verifiedPrice height duration seqno minPieceSize maxPieceSize =
     \<lparr>Price = price, VerifiedPrice = verifiedPrice, askMinPieceSize = minPieceSize, askMaxPieceSize = maxPieceSize,
      askMiner = miner, Timestamp = height, Expiry = height + duration, SeqNo = seqno\<rparr>"

text \<open>An option is a function applied to the ask. The stored ask gives the sequence number and the piece sizes; an
  error of reading it counts as no ask. A stored ask without content would be a nil dereference.\<close>

definition askDefaults :: "askNode \<Rightarrow> ('s, 'v) storageAskRepo \<Rightarrow> 's \<Rightarrow> address \<Rightarrow> (u64 \<times> u64 \<times> u64) outcome" where
  "askDefaults node ar s miner =
     (case GetAsk ar s miner of
        Inl _ \<Rightarrow> Ret (0, DefaultMinPieceSize node, DefaultMaxPieceSize node)
      | Inr sa \<Rightarrow>
          (case Ask sa of
             None \<Rightarrow> Panic ''nil pointer dereference''
           | Some a \<Rightarrow> Ret (SeqNo a, askMinPieceSize a, askMaxPieceSize a)))"

definition SetAsk :: "askNode \<Rightarrow> ('s, 'v) storageAskRepo \<Rightarrow> 's \<Rightarrow> address \<Rightarrow> int \<Rightarrow> int \<Rightarrow> int \<Rightarrow> (StorageAsk \<Rightarrow> StorageAsk) list \<Rightarrow>
    ('s \<times> error option) outcome" where
  "SetAsk node ar s miner price verifiedPrice duration options =
     (case askDefaults node ar s miner of
        Panic m \<Rightarrow> Panic m
      | Ret (seqno, minPieceSize, maxPieceSize) \<Rightarrow>
          (case ChainHead node 0 of
             Inl e \<Rightarrow> Ret (s, Some (ErrWrap ''problem getting chain head'' e))
           | Inr (_, height) \<Rightarrow>
               (let ask = foldl (\<lambda>a option. option a)
                      (newAsk miner price verifiedPrice height duration seqno minPieceSize maxPieceSize) options
                in case signAsk node ask of
                     Inl e \<Rightarrow> Ret (s, Some (ErrMsg ''sign data failed''))
                   | Inr signedAsk \<Rightarrow> Ret (repoSetAsk ar s (Some signedAsk)))))"

section \<open>Properties\<close>

text \<open>The miner of a signed ask; an ask without content is never stored.\<close>

definition minerOf :: "SignedStorageAsk \<Rightarrow> address" where
  "minerOf sa = (case Ask sa of None \<Rightarrow> Undef | Some a \<Rightarrow> askMiner a)"

abbreviation ask_view :: "('s \<Rightarrow> ds_key \<Rightarrow> 'v option) \<Rightarrow> ('s, 'v) storageAskRepo \<Rightarrow> 's \<Rightarrow> address \<Rightarrow> SignedStorageAsk option" where
  "ask_view contents ar \<equiv> value_view contents (askCodec ar) (askKey ar)"

definition asks_filled :: "('s \<Rightarrow> ds_key \<Rightarrow> 'v option) \<Rightarrow> ('s, 'v) storageAskRepo \<Rightarrow> 's \<Rightarrow> bool" where
  "asks_filled contents ar s \<longleftrightarrow> (\<forall>m sa. ask_view contents ar s m = Some sa \<longrightarrow> Ask sa \<noteq> None)"

locale storage_ask_repo = keyed_store "askDs ar" contents "askCodec ar" "askKey ar" minerOf
  for ar :: "('s, 'v) storageAskRepo" and contents :: "'s \<Rightarrow> ds_key \<Rightarrow> 'v option"
begin

lemma repoGetAsk_view: "repoGetAsk ar s m = Inr sa \<Longrightarrow> ask_view contents ar s m = Some sa"
  by (auto simp: repoGetAsk_def dest: get_view split: sum.splits)

lemma repoSetAsk_view:
  assumes "repoSetAsk ar s (Some sa) = (s', None)"
  shows "\<exists>a. Ask sa = Some a \<and> ask_view contents ar s' = (ask_view contents ar s)(askMiner a \<mapsto> sa)"
  using assms put_view by (auto simp: repoSetAsk_def split: option.splits sum.splits)

lemma repoSetAsk_failed: "repoSetAsk ar s sa = (s', Some e) \<Longrightarrow> ask_view contents ar s' = ask_view contents ar s"
  using put_fails_view by (fastforce simp: repoSetAsk_def split: option.splits sum.splits)

lemma filled_kept:
  assumes "asks_filled contents ar s" "repoSetAsk ar s sa = (s', err)"
  shows "asks_filled contents ar s'"
proof (cases err)
  case None
  then obtain x where x: "sa = Some x" using assms(2) by (cases sa) (auto simp: repoSetAsk_def)
  then show ?thesis using repoSetAsk_view [of s x s'] assms None by (auto simp: asks_filled_def split: if_splits)
next
  case (Some e)
  then show ?thesis using repoSetAsk_failed assms by (simp add: asks_filled_def)
qed

end

definition prevAsk :: "('s, 'v) storageAskRepo \<Rightarrow> 's \<Rightarrow> address \<Rightarrow> StorageAsk option" where
  "prevAsk ar s miner = (case GetAsk ar s miner of Inl _ \<Rightarrow> None | Inr sa \<Rightarrow> Ask sa)"

lemma signAsk_content: "signAsk node ask = Inr sa \<Longrightarrow> Ask sa = Some ask"
  by (auto simp: signAsk_def tryE_Inr_iff)

text \<open>What \<open>SetAsk\<close> hands to the repository when it succeeds.\<close>

lemma SetAsk_stores:
  assumes "SetAsk node ar s miner price vprice dur [] = Ret (s', None)"
  shows "\<exists>height sa ask. map_sum id snd (ChainHead node 0) = Inr height \<and> signAsk node ask = Inr sa \<and> repoSetAsk ar s (Some sa) = (s', None) \<and>
    ask = newAsk miner price vprice height dur
      (case prevAsk ar s miner of None \<Rightarrow> 0 | Some a \<Rightarrow> SeqNo a)
      (case prevAsk ar s miner of None \<Rightarrow> DefaultMinPieceSize node | Some a \<Rightarrow> askMinPieceSize a)
      (case prevAsk ar s miner of None \<Rightarrow> DefaultMaxPieceSize node | Some a \<Rightarrow> askMaxPieceSize a)"
  using assms by (auto simp: SetAsk_def askDefaults_def Let_def prevAsk_def split: sum.splits option.splits outcome.splits prod.splits)

text \<open>An ask that was set is read back: after a successful \<open>SetAsk\<close> without options, the ask of the miner
  has the prices given, expires after the duration given, is signed by the node, and takes the piece sizes and the
  sequence number of the ask it replaces (defaults and 0 if none can be read); asks of other miners are not touched,
  and in a store whose asks all have content \<open>SetAsk\<close> never dereferences nil and keeps that.\<close>

theorem SetAsk_roundtrip:
  assumes "storage_ask_repo ar contents" "asks_filled contents ar s"
  shows "(\<exists>x. SetAsk node ar s miner price vprice dur opts = Ret x \<and> asks_filled contents ar (fst x)) \<and>
    (SetAsk node ar s miner price vprice dur [] = Ret (s', None) \<and> GetAsk ar s' m = Inr sa \<longrightarrow>
      (if m = miner
       then (\<exists>a. Ask sa = Some a \<and> signAsk node a = Inr sa \<and> askMiner a = miner \<and> Price a = price \<and> VerifiedPrice a = vprice \<and>
               Expiry a = Timestamp a + dur \<and>
               (case prevAsk ar s miner of
                  None \<Rightarrow> SeqNo a = 0 \<and> askMinPieceSize a = DefaultMinPieceSize node \<and> askMaxPieceSize a = DefaultMaxPieceSize node
                | Some b \<Rightarrow> SeqNo a = SeqNo b \<and> askMinPieceSize a = askMinPieceSize b \<and> askMaxPieceSize a = askMaxPieceSize b))
       else ask_view contents ar s m = Some sa))"
proof (intro conjI impI)
  obtain q mi ma where "askDefaults node ar s miner = Ret (q, mi, ma)"
    using assms(2) storage_ask_repo.repoGetAsk_view [OF assms(1), of s miner]
    by (fastforce simp: askDefaults_def GetAsk_def asks_filled_def split: sum.splits option.splits)
  then have "\<exists>x. SetAsk node ar s miner price vprice dur opts = Ret x \<and> (fst x = s \<or> (\<exists>sa e. repoSetAsk ar s sa = (fst x, e)))"
    unfolding SetAsk_def Let_def by (auto split: sum.splits prod.splits) (metis prod.collapse)+
  then show "\<exists>x. SetAsk node ar s miner price vprice dur opts = Ret x \<and> asks_filled contents ar (fst x)"
    using storage_ask_repo.filled_kept [OF assms] assms(2) by metis
next
  assume a: "SetAsk node ar s miner price vprice dur [] = Ret (s', None) \<and> GetAsk ar s' m = Inr sa"
  obtain height sa' ask where r: "signAsk node ask = Inr sa'" "repoSetAsk ar s (Some sa') = (s', None)"
    "ask = newAsk miner price vprice height dur
      (case prevAsk ar s miner of None \<Rightarrow> 0 | Some a \<Rightarrow> SeqNo a)
      (case prevAsk ar s miner of None \<Rightarrow> DefaultMinPieceSize node | Some a \<Rightarrow> askMinPieceSize a)
      (case prevAsk ar s miner of None \<Rightarrow> DefaultMaxPieceSize node | Some a \<Rightarrow> askMaxPieceSize a)"
    using SetAsk_stores [OF conjunct1 [OF a]] by auto
  have c: "Ask sa' = Some ask" using signAsk_content [OF r(1)] .
  have m: "askMiner ask = miner" using r(3) by (simp add: newAsk_def)
  have v: "ask_view contents ar s' = (ask_view contents ar s)(miner \<mapsto> sa')"
    using storage_ask_repo.repoSetAsk_view [OF assms(1) r(2)] c m by auto
  have g: "ask_view contents ar s' m = Some sa"
    using storage_ask_repo.repoGetAsk_view [OF assms(1), of s' m sa] a by (simp add: GetAsk_def)
  show "if m = miner
       then (\<exists>a. Ask sa = Some a \<and> signAsk node a = Inr sa \<and> askMiner a = miner \<and> Price a = price \<and> VerifiedPrice a = vprice \<and>
               Expiry a = Timestamp a + dur \<and>
               (case prevAsk ar s miner of
                  None \<Rightarrow> SeqNo a = 0 \<and> askMinPieceSize a = DefaultMinPieceSize node \<and> askMaxPieceSize a = DefaultMaxPieceSize node
                | Some b \<Rightarrow> SeqNo a = SeqNo b \<and> askMinPieceSize a = askMinPieceSize b \<and> askMaxPieceSize a = askMaxPieceSize b))
       else ask_view contents ar s m = Some sa"
    using g v r(1) c m unfolding r(3) by (auto simp: newAsk_def split: option.splits)
qed

section \<open>The in-memory store\<close>

definition map_asks :: "((ds_key \<times> SignedStorageAsk) list, SignedStorageAsk) storageAskRepo" where
  "map_asks = \<lparr>askDs = map_datastore, askCodec = id_codec, askKey = (\<lambda>a. [a])\<rparr>"

lemma map_asks_simps [simp]: "askDs map_asks = map_datastore" "askCodec map_asks = id_codec" "askKey map_asks a = [a]"
  by (simp_all add: map_asks_def)

interpretation mapasks: storage_ask_repo map_asks map_of
  by unfold_locales (simp_all del: map_datastore_simps add: mapds.get_value mapds.get_missing mapds.put_ok mapds.put_failed
      mapds.delete_ok mapds.delete_failed mapds.query_lists)

definition demo_asknode :: askNode where
  "demo_asknode = \<lparr>ChainHead = (\<lambda>_. Inr (''tok'', 100)), dumpAsk = (\<lambda>_. Inr ''bytes''), StateMinerInfo = (\<lambda>_ _. Inr ''worker''),
     StateAccountKey = (\<lambda>_ _. Inr ''key''), WalletSign = (\<lambda>_ _. Inr ''sig''), DefaultMinPieceSize = 256, DefaultMaxPieceSize = 1048576\<rparr>"

theorem SetAsk_roundtrip_witness:
  "\<exists>s' sa a. SetAsk demo_asknode map_asks [] ''miner'' 7 3 50 [] = Ret (s', None) \<and> GetAsk map_asks s' ''miner'' = Inr sa \<and>
     Ask sa = Some a \<and> Price a = 7 \<and> SeqNo a = 0 \<and> askMinPieceSize a = 256"
proof -
  have "(case SetAsk demo_asknode map_asks [] ''miner'' 7 3 50 [] of
      Ret (s', e) \<Rightarrow> e = None \<and> (case GetAsk map_asks s' ''miner'' of Inr _ \<Rightarrow> True | Inl _ \<Rightarrow> False) | Panic _ \<Rightarrow> False) = True" by code_simp
  then obtain s' sa where r: "SetAsk demo_asknode map_asks [] ''miner'' 7 3 50 [] = Ret (s', None)" "GetAsk map_asks s' ''miner'' = Inr sa"
    by (auto split: outcome.splits prod.splits sum.splits)
  have f: "asks_filled map_of map_asks []" by (simp add: asks_filled_def value_view_def)
  have p: "prevAsk map_asks [] ''miner'' = None" by (simp add: prevAsk_def GetAsk_def repoGetAsk_def)
  show ?thesis
    using SetAsk_roundtrip [OF mapasks.storage_ask_repo_axioms f, of demo_asknode "''miner''" 7 3 50 "[]" s' "''miner''" sa] r p
    by (auto simp: demo_asknode_def)
qed

end
