(* ===== verification/Deal_Handler.thy ===== *)
theory Deal_Handler
  imports Storage_Deal_Repo Storage_Ask
begin

text \<open>
  Handling storage deals: \<open>src/storageprovider/deal_handler.go\<close>. The deal behind the pointer is passed and
  returned. The node, the ask store, the connections, the file and piece stores are the record
  \<open>dealEnv\<close>, one field for every call, and what the code does to them is the list \<open>wLog\<close> of effects in
  order; the deal repository is its interface. Log output is left out. \<open>errText\<close> is \<open>err.Error()\<close>.
\<close>

section \<open>The outside\<close>

record carReader =
  DataSize :: u64
  copied :: "int res"
  commP :: "(cid \<times> u64) res"
  closed :: "error option"

record fileInfo =
  osPath :: string
  fileSize :: int

record publishedDeal =
  resDealID :: u64
  FinalCid :: cid

record dealEnv =
  errText :: "error \<Rightarrow> string"
  GetChainHead :: "(bytes \<times> int) res"
  VerifyProposal :: "DealProposal \<Rightarrow> bytes \<Rightarrow> bytes \<Rightarrow> error option"
  minerHas :: "address \<Rightarrow> bool"
  ValidateSize :: "u64 \<Rightarrow> error option"
  pieceCIDPrefix :: "cid \<Rightarrow> bool"
  Duration :: "DealProposal \<Rightarrow> int"
  DealDurationBounds :: "u64 \<Rightarrow> int \<times> int"
  MaxSectorExpirationExtension :: int
  DealProviderCollateralBounds :: "u64 \<Rightarrow> bool \<Rightarrow> (int \<times> int) res"
  GetAsk :: "address \<Rightarrow> StorageAsk res"
  GetBalance :: "address \<Rightarrow> bytes \<Rightarrow> int res"
  ClientBalanceRequirement :: "DealProposal \<Rightarrow> int"
  GetDataCap :: "address \<Rightarrow> bytes \<Rightarrow> int option res"
  DealStream :: "cid \<Rightarrow> error option"
  SignResponse :: "address \<Rightarrow> StorageDealStatus \<Rightarrow> string \<Rightarrow> cid \<Rightarrow> error option"
  WriteDealResponse :: "cid \<Rightarrow> error option"
  GetMinerWorkerAddress :: "address \<Rightarrow> bytes \<Rightarrow> address res"
  ReserveFundsCall :: "address \<Rightarrow> address \<Rightarrow> int \<Rightarrow> cid res"
  WaitForMessage :: "cid \<Rightarrow> (int \<times> error option) res"
  PublishDealsCall :: "MinerDeal \<Rightarrow> cid res"
  WaitForPublishDeals :: "cid \<Rightarrow> DealProposal \<Rightarrow> publishedDeal res"
  storesGet :: "cid \<Rightarrow> error option"
  bsFinalize :: "cid \<Rightarrow> error option"
  openCar :: "string \<Rightarrow> carReader res"
  ReadCAR :: "string \<Rightarrow> carReader res"
  PadCommP :: "cid \<Rightarrow> u64 \<Rightarrow> u64 \<Rightarrow> bytes res"
  DataCommitmentV1ToCID :: "bytes \<Rightarrow> cid"
  fsOpen :: "string \<Rightarrow> fileInfo res"
  FindStorageForRead :: "string \<Rightarrow> error option"
  FindStorageForWrite :: "int \<Rightarrow> error option"
  SaveTo :: "string \<Rightarrow> error option"

datatype effect =
    TagPeer string string
  | UntagPeer string string
  | Respond StorageDealStatus string cid
  | Disconnect cid
  | ReserveFunds address int
  | ReleaseFunds address int
  | PublishDeals cid
  | CreateTemp string
  | DeleteFile string
  | Untrack cid
  | RemoveCar string
  | SavePiece string
  | RegisterShard cid string

record 'r world =
  wRepo :: 'r
  wLog :: "effect list"

definition note_effect :: "effect \<Rightarrow> 'r world \<Rightarrow> 'r world" where
  "note_effect e w = w\<lparr>wLog := wLog w @ [e]\<rparr>"

section \<open>Saving and failing\<close>

type_synonym 'r handled = "MinerDeal \<times> 'r world \<times> error option"

definition saveDeal :: "'r StorageDealRepo \<Rightarrow> MinerDeal \<Rightarrow> 'r world \<Rightarrow> 'r handled" where
  "saveDeal repo deal w = (case sdSaveDeal repo (wRepo w) deal of (r, err) \<Rightarrow> (deal, w\<lparr>wRepo := r\<rparr>, err))"

definition SaveState :: "'r StorageDealRepo \<Rightarrow> MinerDeal \<Rightarrow> StorageDealStatus \<Rightarrow> 'r world \<Rightarrow> 'r handled" where
  "SaveState repo deal event w = saveDeal repo (deal\<lparr>mdState := event\<rparr>) w"

definition SendSignedResponse :: "dealEnv \<Rightarrow> address \<Rightarrow> StorageDealStatus \<Rightarrow> string \<Rightarrow> cid \<Rightarrow> 'r world \<Rightarrow> 'r world \<times> error option" where
  "SendSignedResponse env mAddr state message proposal w =
     (case DealStream env proposal of
        Some e \<Rightarrow> (w, Some (ErrWrap ''couldn't send response'' e))
      | None \<Rightarrow>
          (case SignResponse env mAddr state message proposal of
             Some e \<Rightarrow> (w, Some (ErrWrap ''failed to sign response message'' e))
           | None \<Rightarrow>
               (case WriteDealResponse env proposal of
                  Some e \<Rightarrow> (note_effect (Disconnect proposal) w, Some e)
                | None \<Rightarrow> (note_effect (Respond state message proposal) w, None))))"

definition releaseReservedFunds :: "MinerDeal \<Rightarrow> 'r world \<Rightarrow> MinerDeal \<times> 'r world" where
  "releaseReservedFunds deal w =
     (case FundsReserved deal of
        None \<Rightarrow> (deal, w)
      | Some amt \<Rightarrow>
          if amt = 0 then (deal, w)
          else (deal\<lparr>FundsReserved := Some 0\<rparr>, note_effect (ReleaseFunds (Provider (Proposal deal)) amt) w))"

definition FinalizeBlockstore :: "dealEnv \<Rightarrow> cid \<Rightarrow> error option" where
  "FinalizeBlockstore env proposalCid =
     (case storesGet env proposalCid of
        Some e \<Rightarrow> Some (ErrWrap ''failed to get read/write blockstore'' e)
      | None \<Rightarrow>
          (case bsFinalize env proposalCid of
             Some e \<Rightarrow> Some (ErrWrap ''failed to finalize read/write blockstore'' e)
           | None \<Rightarrow> None))"

definition TerminateBlockstore :: "cid \<Rightarrow> string \<Rightarrow> 'r world \<Rightarrow> 'r world" where
  "TerminateBlockstore proposalCid path w = note_effect (RemoveCar path) (note_effect (Untrack proposalCid) w)"

definition HandleReject :: "dealEnv \<Rightarrow> 'r StorageDealRepo \<Rightarrow> MinerDeal \<Rightarrow> StorageDealStatus \<Rightarrow> error \<Rightarrow> 'r world \<Rightarrow> 'r handled" where
  "HandleReject env repo deal0 event err w0 =
     (let deal = deal0\<lparr>mdState := event, mdMessage := errText env err\<rparr>;
          (w1, _) = SendSignedResponse env (Provider (Proposal deal)) StorageDealFailing (mdMessage deal) (ProposalCid deal) w0;
          w2 = note_effect (Disconnect (ProposalCid deal)) w1;
          w3 = note_effect (UntagPeer (mdClient deal) (ProposalCid deal)) w2
      in saveDeal repo deal w3)"

definition HandleError :: "dealEnv \<Rightarrow> 'r StorageDealRepo \<Rightarrow> MinerDeal \<Rightarrow> error \<Rightarrow> 'r world \<Rightarrow> 'r handled" where
  "HandleError env repo deal0 err w0 =
     (let deal = deal0\<lparr>mdState := StorageDealFailing, mdMessage := errText env err\<rparr>;
          w1 = note_effect (UntagPeer (mdClient deal) (ProposalCid deal)) w0;
          w2 = (if PiecePath deal \<noteq> [] then note_effect (DeleteFile (PiecePath deal)) w1 else w1);
          w3 = (if MetadataPath deal \<noteq> [] then note_effect (DeleteFile (MetadataPath deal)) w2 else w2);
          w4 = (if InboundCAR deal \<noteq> [] then TerminateBlockstore (ProposalCid deal) (InboundCAR deal) w3 else w3);
          (deal1, w5) = releaseReservedFunds deal w4
      in saveDeal repo deal1 w5)"

section \<open>Accepting a deal\<close>

definition DealMaxLabelSize :: nat where
  "DealMaxLabelSize = 256"

text \<open>The checks of \<open>AcceptDeal\<close> in order; the first that fails gives the reason of the rejection.\<close>

definition checkFunds :: "dealEnv \<Rightarrow> bytes \<Rightarrow> DealProposal \<Rightarrow> unit res" where
  "checkFunds env tok p =
     (case GetBalance env (Client p) tok of
        Inl e \<Rightarrow> Inl (ErrWrap ''node error getting client market balance failed'' e)
      | Inr available \<Rightarrow>
          failIf (available < ClientBalanceRequirement env p) (ErrMsg ''clientMarketBalance.Available too small'')
          (if VerifiedDeal p then
             (case GetDataCap env (Client p) tok of
                Inl e \<Rightarrow> Inl (ErrWrap ''node error fetching verified data cap'' e)
              | Inr None \<Rightarrow> Inl (ErrMsg ''node error fetching verified data cap: data cap missing -- client not verified'')
              | Inr (Some dataCap) \<Rightarrow>
                  failIf (dataCap < uint (PieceSize p)) (ErrMsg ''verified deal DataCap too small for proposed piece size'') (Inr ()))
           else Inr ()))"

definition minPriceOf :: "StorageAsk \<Rightarrow> DealProposal \<Rightarrow> int" where
  "minPriceOf ask p = ((if VerifiedDeal p then VerifiedPrice ask else Price ask) * sint (PieceSize p)) div 2 ^ 30"

definition checkAsk :: "dealEnv \<Rightarrow> DealProposal \<Rightarrow> unit res" where
  "checkAsk env p =
     (case GetAsk env (Provider p) of
        Inl e \<Rightarrow> Inl (ErrWrap ''failed to get ask'' e)
      | Inr ask \<Rightarrow>
          failIf (StoragePricePerEpoch p < minPriceOf ask p) (ErrMsg ''storage price per epoch less than asking price'')
         (failIf (PieceSize p < askMinPieceSize ask) (ErrMsg ''piece size less than minimum required size'')
         (failIf (PieceSize p > askMaxPieceSize ask) (ErrMsg ''piece size more than maximum allowed size'')
         (Inr ()))))"

definition checkCollateral :: "dealEnv \<Rightarrow> DealProposal \<Rightarrow> unit res" where
  "checkCollateral env p =
     (case DealProviderCollateralBounds env (PieceSize p) (VerifiedDeal p) of
        Inl e \<Rightarrow> Inl (ErrWrap ''node error getting collateral bounds'' e)
      | Inr (pcMin, pcMax) \<Rightarrow>
          failIf (ProviderCollateral p < pcMin) (ErrMsg ''proposed provider collateral below minimum'')
         (failIf (ProviderCollateral p > pcMax) (ErrMsg ''proposed provider collateral above maximum'')
         (Inr ())))"

definition checkTerms :: "dealEnv \<Rightarrow> int \<Rightarrow> DealProposal \<Rightarrow> unit res" where
  "checkTerms env curEpoch p =
     failIf (\<not> minerHas env (Provider p)) (ErrMsg ''incorrect provider for deal'')
    (failIf (length (Label p) > DealMaxLabelSize) (ErrMsg ''deal label can be at most 256 bytes'')
    (case ValidateSize env (PieceSize p) of
       Some e \<Rightarrow> Inl (ErrWrap ''proposal piece size is invalid'' e)
     | None \<Rightarrow>
         failIf (PieceCID p = Undef) (ErrMsg ''proposal PieceCID undefined'')
        (failIf (\<not> pieceCIDPrefix env (PieceCID p)) (ErrMsg ''proposal PieceCID had wrong prefix'')
        (failIf (EndEpoch p \<le> StartEpoch p) (ErrMsg ''proposal end before proposal start'')
        (failIf (curEpoch > StartEpoch p) (ErrMsg ''deal start epoch has already elapsed'')
        (let (minDuration, maxDuration) = DealDurationBounds env (PieceSize p) in
         failIf (Duration env p < minDuration \<or> Duration env p > maxDuration) (ErrMsg ''deal duration out of bounds'')
        (failIf (EndEpoch p > curEpoch + MaxSectorExpirationExtension env) (ErrMsg ''invalid deal end epoch'')
        (Inr ()))))))))"

definition checkProposal :: "dealEnv \<Rightarrow> MinerDeal \<Rightarrow> unit res" where
  "checkProposal env deal =
     (case GetChainHead env of
        Inl e \<Rightarrow> Inl (ErrWrap ''node error getting most recent state id'' e)
      | Inr (tok, curEpoch) \<Rightarrow>
          (case VerifyProposal env (Proposal deal) (ClientSignature deal) tok of
             Some e \<Rightarrow> Inl (ErrWrap ''verifying StorageDealProposal'' e)
           | None \<Rightarrow>
               (let p = Proposal deal in
                tryE (checkTerms env curEpoch p) (\<lambda>_.
                tryE (checkCollateral env p) (\<lambda>_.
                tryE (checkAsk env p) (\<lambda>_.
                checkFunds env tok p))))))"

definition AcceptDeal :: "dealEnv \<Rightarrow> 'r StorageDealRepo \<Rightarrow> MinerDeal \<Rightarrow> 'r world \<Rightarrow> 'r handled" where
  "AcceptDeal env repo minerDeal w0 =
     (let w = note_effect (TagPeer (mdClient minerDeal) (ProposalCid minerDeal)) w0 in
      case checkProposal env minerDeal of
        Inl e \<Rightarrow> HandleReject env repo minerDeal StorageDealRejecting e w
      | Inr _ \<Rightarrow>
          (case SendSignedResponse env (Provider (Proposal minerDeal)) StorageDealWaitingForData [] (ProposalCid minerDeal) w of
             (w1, Some e) \<Rightarrow> HandleError env repo minerDeal e w1
           | (w1, None) \<Rightarrow> SaveState repo minerDeal StorageDealWaitingForData (note_effect (Disconnect (ProposalCid minerDeal)) w1)))"

section \<open>Handing a deal off\<close>

text \<open>\<open>HandleOff\<close> is a chain of stages, each guarded by the state of the deal: a stage goes on to the next one, or
  returns the result of \<open>HandleError\<close>, or panics.\<close>

datatype 'r stage = Next MinerDeal "'r world" | Stop MinerDeal "'r world" "error option" | Boom string

definition failDeal :: "dealEnv \<Rightarrow> 'r StorageDealRepo \<Rightarrow> MinerDeal \<Rightarrow> error \<Rightarrow> 'r world \<Rightarrow> 'r stage" where
  "failDeal env repo deal err w = (case HandleError env repo deal err w of (d, w', e) \<Rightarrow> Stop d w' e)"

definition saveOrFail :: "dealEnv \<Rightarrow> 'r StorageDealRepo \<Rightarrow> MinerDeal \<Rightarrow> 'r world \<Rightarrow> 'r stage" where
  "saveOrFail env repo deal w =
     (case saveDeal repo deal w of
        (d, w', None) \<Rightarrow> Next d w'
      | (d, w', Some e) \<Rightarrow> failDeal env repo d (ErrMsg ''fail to save deal to database'') w')"

definition chain :: "'r stage \<Rightarrow> (MinerDeal \<Rightarrow> 'r world \<Rightarrow> 'r stage) \<Rightarrow> 'r stage" where
  "chain s k = (case s of Next d w \<Rightarrow> k d w | Stop d w e \<Rightarrow> Stop d w e | Boom m \<Rightarrow> Boom m)"

text \<open>The piece commitment of the payload, padded up to the size of the deal. The deferred function turns a
  failed close into an error unless there is one already.\<close>

definition deferClose :: "carReader \<Rightarrow> 'a res \<Rightarrow> 'a res" where
  "deferClose rd r = (case closed rd of
     None \<Rightarrow> r
   | Some e \<Rightarrow> (case r of Inl e' \<Rightarrow> Inl e' | Inr _ \<Rightarrow> Inl (ErrWrap ''failed to close CARv2 reader'' e)))"

definition GeneratePieceCommitment :: "dealEnv \<Rightarrow> string \<Rightarrow> u64 \<Rightarrow> (cid \<times> string) res" where
  "GeneratePieceCommitment env carPath dealSize =
     (case openCar env carPath of
        Inl e \<Rightarrow> Inl (ErrWrap ''failed to get CARv2 reader'' e)
      | Inr rd \<Rightarrow>
          deferClose rd
            (case copied rd of
               Inl e \<Rightarrow> Inl (ErrWrap ''failed to write to CommP writer'' e)
             | Inr written \<Rightarrow>
                 if written \<noteq> sint (DataSize rd) then Inl (ErrMsg ''number of bytes written to CommP writer not equal to the CARv1 payload size'')
                 else
                   (case commP rd of
                      Inl e \<Rightarrow> Inl (ErrWrap ''failed to get CommP'' e)
                    | Inr (pieceCID, pieceSize) \<Rightarrow>
                        if pieceSize < dealSize then
                          (case PadCommP env pieceCID pieceSize dealSize of
                             Inl e \<Rightarrow> Inl e
                           | Inr raw \<Rightarrow> Inr (DataCommitmentV1ToCID env raw, []))
                        else Inr (pieceCID, []))))"

definition clearPaths :: "MinerDeal \<Rightarrow> MinerDeal" where
  "clearPaths deal = deal\<lparr>PiecePath := [], MetadataPath := []\<rparr>"

definition verifyData :: "dealEnv \<Rightarrow> 'r StorageDealRepo \<Rightarrow> MinerDeal \<Rightarrow> 'r world \<Rightarrow> 'r stage" where
  "verifyData env repo deal w =
     (if mdState deal \<noteq> StorageDealVerifyData then Next deal w
      else
        (case FinalizeBlockstore env (ProposalCid deal) of
           Some e \<Rightarrow> failDeal env repo (clearPaths deal) (ErrWrap ''failed to finalize read/write blockstore'' e) w
         | None \<Rightarrow>
             (case GeneratePieceCommitment env (InboundCAR deal) (PieceSize (Proposal deal)) of
                Inl e \<Rightarrow> failDeal env repo (clearPaths deal) (ErrWrap ''error generating CommP'' e) w
              | Inr (pieceCid, metadataPath) \<Rightarrow>
                  if pieceCid \<noteq> PieceCID (Proposal deal)
                  then failDeal env repo (clearPaths deal) (ErrMsg ''proposal CommP doesn't match calculated CommP'') w
                  else
                    (case saveDeal repo (deal\<lparr>PiecePath := [], MetadataPath := metadataPath, mdPieceStatus := Undefine,
                                              mdState := StorageDealReserveProviderFunds\<rparr>) w of
                       (d, w', None) \<Rightarrow> Next d w'
                     | (d, w', Some e) \<Rightarrow> failDeal env repo (clearPaths d) (ErrMsg ''fail to save deal to database'') w'))))"

definition reserveProviderFunds :: "dealEnv \<Rightarrow> 'r StorageDealRepo \<Rightarrow> MinerDeal \<Rightarrow> 'r world \<Rightarrow> 'r stage" where
  "reserveProviderFunds env repo deal w =
     (if mdState deal \<noteq> StorageDealReserveProviderFunds then Next deal w
      else
        (case GetChainHead env of
           Inl e \<Rightarrow> failDeal env repo deal (ErrWrap ''acquiring chain head'' e) w
         | Inr (tok, _) \<Rightarrow>
             (case GetMinerWorkerAddress env (Provider (Proposal deal)) tok of
                Inl e \<Rightarrow> failDeal env repo deal (ErrWrap ''looking up miner worker'' e) w
              | Inr waddr \<Rightarrow>
                  (case ReserveFundsCall env waddr (Provider (Proposal deal)) (ProviderCollateral (Proposal deal)) of
                     Inl e \<Rightarrow> failDeal env repo deal (ErrWrap ''reserving funds'' e) w
                   | Inr mcid \<Rightarrow>
                       (let w1 = note_effect (ReserveFunds (Provider (Proposal deal)) (ProviderCollateral (Proposal deal))) w;
                            deal1 = deal\<lparr>FundsReserved := Some (case FundsReserved deal of
                                        None \<Rightarrow> ProviderCollateral (Proposal deal)
                                      | Some amt \<Rightarrow> amt + ProviderCollateral (Proposal deal))\<rparr>;
                            deal2 = (if mcid \<noteq> Undef then deal1\<lparr>mdAddFundsCid := Some mcid, mdState := StorageDealProviderFunding\<rparr>
                                     else deal1\<lparr>mdState := StorageDealPublish\<rparr>)
                        in saveOrFail env repo deal2 w1)))))"

text \<open>The callback of \<open>WaitForMessage\<close> returns the error of saving the deal, which \<open>WaitForMessage\<close> passes on; a
  failed wait is an error without a call of the callback.\<close>

definition waitFunding :: "dealEnv \<Rightarrow> 'r StorageDealRepo \<Rightarrow> MinerDeal \<Rightarrow> 'r world \<Rightarrow> 'r stage" where
  "waitFunding env repo deal w =
     (if mdState deal \<noteq> StorageDealProviderFunding then Next deal w
      else
        (case mdAddFundsCid deal of
           None \<Rightarrow> Boom ''invalid memory address or nil pointer dereference''
         | Some c \<Rightarrow>
             (let (d, w1, errW) =
                (case WaitForMessage env c of
                   Inl e \<Rightarrow> (deal, w, Some e)
                 | Inr (code, Some e) \<Rightarrow> HandleError env repo deal (ErrWrap ''AddFunds errored'' e) w
                 | Inr (code, None) \<Rightarrow>
                     if code \<noteq> 0 then HandleError env repo deal (ErrMsg ''AddFunds exit code'') w
                     else
                       (case saveDeal repo (deal\<lparr>mdState := StorageDealPublish\<rparr>) w of
                          (d, w', None) \<Rightarrow> (d, w', None)
                        | (d, w', Some e) \<Rightarrow> HandleError env repo d (ErrMsg ''fail to save deal to database'') w'))
              in case errW of
                   None \<Rightarrow> Next d w1
                 | Some e \<Rightarrow> failDeal env repo d (ErrWrap ''wait AddFunds msg for provider errored'' e) w1)))"

definition publishDeal :: "dealEnv \<Rightarrow> 'r StorageDealRepo \<Rightarrow> MinerDeal \<Rightarrow> 'r world \<Rightarrow> 'r stage" where
  "publishDeal env repo deal w =
     (if mdState deal \<noteq> StorageDealPublish then Next deal w
      else
        (case PublishDealsCall env deal of
           Inl e \<Rightarrow> failDeal env repo deal (ErrWrap ''publishing deal'' e) w
         | Inr pdMCid \<Rightarrow>
             saveOrFail env repo (deal\<lparr>PublishCid := Some pdMCid, mdState := StorageDealPublishing\<rparr>)
               (note_effect (PublishDeals (ProposalCid deal)) w)))"

definition waitForPublish :: "dealEnv \<Rightarrow> 'r StorageDealRepo \<Rightarrow> MinerDeal \<Rightarrow> 'r world \<Rightarrow> 'r stage" where
  "waitForPublish env repo deal w =
     (if mdState deal \<noteq> StorageDealPublishing then Next deal w
      else
        (case PublishCid deal of
           None \<Rightarrow> failDeal env repo deal (ErrMsg ''state stop at StorageDealPublishing but not found publish cid'') w
         | Some c \<Rightarrow>
             (case WaitForPublishDeals env c (Proposal deal) of
                Inl e \<Rightarrow> failDeal env repo deal (ErrWrap ''PublishStorageDeals errored'' e) w
              | Inr res \<Rightarrow>
                  (let (deal1, w1) = releaseReservedFunds deal w
                   in saveOrFail env repo
                        (deal1\<lparr>DealID := resDealID res, PublishCid := Some (FinalCid res), mdState := StorageDealStaged\<rparr>) w1))))"

definition savePieceFile :: "dealEnv \<Rightarrow> MinerDeal \<Rightarrow> u64 \<Rightarrow> 'r world \<Rightarrow> 'r world \<times> error option" where
  "savePieceFile env deal payloadSize w =
     (let pieceCid = PieceCID (Proposal deal) in
      case FindStorageForRead env pieceCid of
        None \<Rightarrow> (w, None)
      | Some _ \<Rightarrow>
          (case FindStorageForWrite env (sint payloadSize) of
             Some e \<Rightarrow> (w, Some e)
           | None \<Rightarrow>
               (case SaveTo env pieceCid of
                  Some e \<Rightarrow> (w, Some e)
                | None \<Rightarrow> (note_effect (SavePiece pieceCid) w, None))))"

text \<open>The data of an offline deal is at \<open>PiecePath\<close>, that of an online one in the inbound CAR file.\<close>

definition handOffFile :: "dealEnv \<Rightarrow> 'r StorageDealRepo \<Rightarrow> MinerDeal \<Rightarrow> 'r world \<Rightarrow> (string \<Rightarrow> MinerDeal \<Rightarrow> 'r world \<Rightarrow> 'r stage) \<Rightarrow> 'r stage" where
  "handOffFile env repo deal w k =
     (case fsOpen env (PiecePath deal) of
        Inl e \<Rightarrow> failDeal env repo deal (ErrWrap ''reading piece at path'' e) w
      | Inr file \<Rightarrow>
          chain (saveOrFail env repo (deal\<lparr>PayloadSize := of_int (fileSize file)\<rparr>) w) (\<lambda>d w1.
            case savePieceFile env d (of_int (fileSize file)) w1 of
              (w2, Some e) \<Rightarrow> failDeal env repo d (ErrWrap ''packing piece at path'' e) w2
            | (w2, None) \<Rightarrow> k (osPath file) d w2))"

definition handOffCar :: "dealEnv \<Rightarrow> 'r StorageDealRepo \<Rightarrow> MinerDeal \<Rightarrow> 'r world \<Rightarrow> (string \<Rightarrow> MinerDeal \<Rightarrow> 'r world \<Rightarrow> 'r stage) \<Rightarrow> 'r stage" where
  "handOffCar env repo deal w k =
     (case ReadCAR env (InboundCAR deal) of
        Inl e \<Rightarrow> failDeal env repo deal (ErrWrap ''failed to open CARv2 file'' e) w
      | Inr v2r \<Rightarrow>
          chain (saveOrFail env repo (deal\<lparr>PayloadSize := DataSize v2r\<rparr>) w) (\<lambda>d w1.
            case savePieceFile env d (DataSize v2r) w1 of
              (w2, packingErr) \<Rightarrow>
                (case closed v2r of
                   Some e \<Rightarrow> failDeal env repo d (ErrWrap ''failed to close CARv2 reader'' e) w2
                 | None \<Rightarrow>
                     (case packingErr of
                        Some e \<Rightarrow> failDeal env repo d (ErrWrap ''packing piece'' e) w2
                      | None \<Rightarrow> k (InboundCAR d) d w2))))"

definition handoffDeal :: "dealEnv \<Rightarrow> 'r StorageDealRepo \<Rightarrow> MinerDeal \<Rightarrow> 'r world \<Rightarrow> 'r stage" where
  "handoffDeal env repo deal w =
     (if mdState deal \<noteq> StorageDealStaged then Next deal w
      else
        (let finish = (\<lambda>carFilePath d w1.
               saveOrFail env repo (d\<lparr>AvailableForRetrieval := True, mdState := StorageDealAwaitingPreCommit\<rparr>)
                 (note_effect (RegisterShard (PieceCID (Proposal d)) carFilePath) w1))
         in if PiecePath deal \<noteq> [] then handOffFile env repo deal w finish else handOffCar env repo deal w finish))"

definition HandleOff :: "dealEnv \<Rightarrow> 'r StorageDealRepo \<Rightarrow> MinerDeal \<Rightarrow> 'r world \<Rightarrow> 'r handled outcome" where
  "HandleOff env repo deal w =
     (case chain (chain (chain (chain (chain (verifyData env repo deal w) (reserveProviderFunds env repo)) (waitFunding env repo))
            (publishDeal env repo)) (waitForPublish env repo)) (handoffDeal env repo) of
        Next d w' \<Rightarrow> Ret (d, w', None)
      | Stop d w' e \<Rightarrow> Ret (d, w', e)
      | Boom m \<Rightarrow> Panic m)"

end
