(* ===== verification/Deal_Handler_Props.thy ===== *)
theory Deal_Handler_Props
  imports Deal_Handler
begin

text \<open>
  Properties of the deal handler: what an accepted proposal satisfies, how a deal that is handed off ends, and
  that funds reserved for a deal are released again. The lemmas on \<open>HandleOff\<close> go backwards through its stages.
\<close>

section \<open>The log of effects\<close>

fun netOf :: "effect \<Rightarrow> int" where
  "netOf (ReserveFunds _ amt) = amt"
| "netOf (ReleaseFunds _ amt) = - amt"
| "netOf _ = 0"

definition netFunds :: "effect list \<Rightarrow> int" where
  "netFunds es = sum_list (map netOf es)"

fun isPublish :: "effect \<Rightarrow> bool" where
  "isPublish (PublishDeals _) = True"
| "isPublish _ = False"

definition publications :: "effect list \<Rightarrow> nat" where
  "publications es = length (filter isPublish es)"

definition funds :: "MinerDeal \<Rightarrow> int" where
  "funds d = (case FundsReserved d of None \<Rightarrow> 0 | Some amt \<Rightarrow> amt)"

text \<open>The states a response tells the client.\<close>

definition responses :: "effect list \<Rightarrow> StorageDealStatus list" where
  "responses es = map (\<lambda>e. case e of Respond st _ _ \<Rightarrow> st | _ \<Rightarrow> StorageDealUnknown)
     (filter (\<lambda>e. case e of Respond _ _ _ \<Rightarrow> True | _ \<Rightarrow> False) es)"

lemma responses_simps [simp]:
  "responses [] = []" "responses (es @ fs) = responses es @ responses fs"
  "responses (Respond st m c # es) = st # responses es" "responses (Disconnect c # es) = responses es"
  "responses (UntagPeer a b # es) = responses es" "responses (TagPeer a b # es) = responses es"
  "responses (DeleteFile p # es) = responses es" "responses (Untrack c # es) = responses es"
  "responses (RemoveCar p # es) = responses es" "responses (ReleaseFunds a n # es) = responses es"
  by (simp_all add: responses_def)

text \<open>\<open>run d w n d' w'\<close>: between the two points the funds that the log reserves and releases are the change of the
  amount the deal records, the deal was published \<open>n\<close> times and its proposal is the same.\<close>

definition run :: "MinerDeal \<Rightarrow> 'r world \<Rightarrow> nat \<Rightarrow> MinerDeal \<Rightarrow> 'r world \<Rightarrow> bool" where
  "run d w n d' w' \<longleftrightarrow>
     (\<exists>es. wLog w' = wLog w @ es \<and> netFunds es = funds d' - funds d \<and> publications es = n \<and> Proposal d' = Proposal d \<and>
           ProposalCid d' = ProposalCid d)"

lemma netFunds_simps [simp]:
  "netFunds [] = 0" "netFunds (e # es) = netOf e + netFunds es" "netFunds (es @ fs) = netFunds es + netFunds fs"
  by (simp_all add: netFunds_def)

lemma publications_simps [simp]:
  "publications [] = 0" "publications (e # es) = (if isPublish e then 1 else 0) + publications es"
  "publications (es @ fs) = publications es + publications fs"
  by (simp_all add: publications_def)

lemma run_trans [trans]: "run d w n d1 w1 \<Longrightarrow> run d1 w1 m d2 w2 \<Longrightarrow> run d w (n + m) d2 w2"
  unfolding run_def by fastforce

lemma run_same:
  "wLog w' = wLog w \<Longrightarrow> FundsReserved d' = FundsReserved d \<Longrightarrow> Proposal d' = Proposal d \<Longrightarrow> ProposalCid d' = ProposalCid d \<Longrightarrow> run d w 0 d' w'"
  by (simp add: run_def funds_def)

lemma run_note:
  "netOf e = funds d' - funds d \<Longrightarrow> Proposal d' = Proposal d \<Longrightarrow> ProposalCid d' = ProposalCid d \<Longrightarrow> run d w (if isPublish e then 1 else 0) d' (note_effect e w)"
  by (simp add: run_def note_effect_def)

section \<open>Saving and failing\<close>

definition saved :: "'r StorageDealRepo \<Rightarrow> MinerDeal \<Rightarrow> 'r world \<Rightarrow> error option \<Rightarrow> bool" where
  "saved repo d w e \<longleftrightarrow> (\<exists>r. sdSaveDeal repo r d = (wRepo w, e))"

lemma saveDeal_run: "saveDeal repo d w = (d', w', e) \<Longrightarrow> d' = d \<and> wLog w' = wLog w \<and> run d w 0 d w' \<and> saved repo d w' e"
  by (auto simp: saveDeal_def run_same saved_def split: prod.splits)

lemma releaseReservedFunds_run:
  assumes "releaseReservedFunds d w = (d', w')"
  shows "run d w 0 d' w' \<and> funds d' = 0 \<and> mdState d' = mdState d"
  using assms run_note [of "ReleaseFunds (Provider (Proposal d)) (funds d)" "d\<lparr>FundsReserved := Some 0\<rparr>" d w]
  by (auto simp: releaseReservedFunds_def funds_def run_same split: option.splits if_splits)

text \<open>A failed deal: its funds are released and it was saved in the state \<open>StorageDealFailing\<close> (or that save failed,
  which is the error returned).\<close>

definition failed :: "'r StorageDealRepo \<Rightarrow> MinerDeal \<Rightarrow> 'r world \<Rightarrow> error option \<Rightarrow> bool" where
  "failed repo d w e \<longleftrightarrow> mdState d = StorageDealFailing \<and> funds d = 0 \<and> saved repo d w e"

lemma HandleError_steps:
  assumes "HandleError env repo d err w = (d', w', e)"
  obtains w4 es d1 w5 where "wLog w4 = wLog w @ es" "netFunds es = 0" "publications es = 0" "responses es = []"
    "releaseReservedFunds (d\<lparr>mdState := StorageDealFailing, mdMessage := errText env err\<rparr>) w4 = (d1, w5)"
    "saveDeal repo d1 w5 = (d', w', e)"
proof -
  define d0 where "d0 = d\<lparr>mdState := StorageDealFailing, mdMessage := errText env err\<rparr>"
  define w1 where "w1 = note_effect (UntagPeer (mdClient d0) (ProposalCid d0)) w"
  define w2 where "w2 = (if PiecePath d0 \<noteq> [] then note_effect (DeleteFile (PiecePath d0)) w1 else w1)"
  define w3 where "w3 = (if MetadataPath d0 \<noteq> [] then note_effect (DeleteFile (MetadataPath d0)) w2 else w2)"
  define w4 where "w4 = (if InboundCAR d0 \<noteq> [] then TerminateBlockstore (ProposalCid d0) (InboundCAR d0) w3 else w3)"
  obtain d1 w5 where rel: "releaseReservedFunds d0 w4 = (d1, w5)" by (cases "releaseReservedFunds d0 w4")
  have "HandleError env repo d err w = (case releaseReservedFunds d0 w4 of (d1, w5) \<Rightarrow> saveDeal repo d1 w5)"
    unfolding HandleError_def Let_def w4_def w3_def w2_def w1_def d0_def ..
  then have save: "saveDeal repo d1 w5 = (d', w', e)" using assms rel by simp
  have "\<exists>es. wLog w4 = wLog w @ es \<and> netFunds es = 0 \<and> publications es = 0 \<and> responses es = []"
    by (auto simp: w1_def w2_def w3_def w4_def note_effect_def TerminateBlockstore_def)
  then show thesis using that rel save unfolding d0_def by blast
qed

lemma HandleError_run:
  assumes "HandleError env repo d err w = (d', w', e)"
  shows "run d w 0 d' w' \<and> failed repo d' w' e"
proof -
  let ?d0 = "d\<lparr>mdState := StorageDealFailing, mdMessage := errText env err\<rparr>"
  obtain w4 es d1 w5 where h: "wLog w4 = wLog w @ es" "netFunds es = 0" "publications es = 0"
    "releaseReservedFunds ?d0 w4 = (d1, w5)" "saveDeal repo d1 w5 = (d', w', e)"
    using HandleError_steps [OF assms] by metis
  have "run d w 0 ?d0 w4" using h(1-3) by (simp add: run_def funds_def)
  then show ?thesis
    using releaseReservedFunds_run [OF h(4)] saveDeal_run [OF h(5)] run_trans [of d w 0 ?d0 w4 0] run_trans [of d w 0 d1 w5 0]
    by (auto simp: failed_def)
qed

lemma HandleError_log:
  assumes "HandleError env repo d err w = (d', w', e)"
  shows "\<exists>es. wLog w' = wLog w @ es \<and> responses es = []"
proof -
  obtain w4 es d1 w5 where h: "wLog w4 = wLog w @ es" "responses es = []"
    "releaseReservedFunds (d\<lparr>mdState := StorageDealFailing, mdMessage := errText env err\<rparr>) w4 = (d1, w5)"
    "saveDeal repo d1 w5 = (d', w', e)"
    using HandleError_steps [OF assms] by metis
  have "\<exists>fs. wLog w5 = wLog w4 @ fs \<and> responses fs = []"
    using h(3) by (auto simp: releaseReservedFunds_def note_effect_def split: option.splits if_splits)
  then show ?thesis using h saveDeal_run [OF h(4)] by auto
qed

text \<open>The stage results that end the hand-off with a failure; at most \<open>n\<close> publications before.\<close>

definition fails :: "'r StorageDealRepo \<Rightarrow> MinerDeal \<Rightarrow> 'r world \<Rightarrow> nat \<Rightarrow> 'r stage \<Rightarrow> bool" where
  "fails repo d w n s \<longleftrightarrow> (\<exists>d' w' e m. s = Stop d' w' e \<and> m \<le> n \<and> run d w m d' w' \<and> failed repo d' w' e)"

lemma failDeal_fails: "fails repo d w n (failDeal env repo d err w)"
  using HandleError_run [of env repo d err w] unfolding fails_def failDeal_def by (auto split: prod.splits)

lemma fails_after:
  assumes "run d w m d1 w1" "fails repo d1 w1 n s" "m + n \<le> k"
  shows "fails repo d w k s"
proof -
  obtain d' w' e j where s: "s = Stop d' w' e" "j \<le> n" "run d1 w1 j d' w'" "failed repo d' w' e"
    using assms(2) unfolding fails_def by auto
  moreover have "m + j \<le> k" using s(2) assms(3) by simp
  ultimately show ?thesis unfolding fails_def using run_trans [OF assms(1) s(3)] by blast
qed

lemma saveOrFail_cases:
  "(\<exists>w'. saveOrFail env repo d w = Next d w' \<and> run d w 0 d w' \<and> saved repo d w' None) \<or> fails repo d w 0 (saveOrFail env repo d w)"
proof -
  obtain d' w' e where s: "saveDeal repo d w = (d', w', e)" by (cases "saveDeal repo d w")
  note r = saveDeal_run [OF s]
  show ?thesis
  proof (cases e)
    case None
    then show ?thesis using s r by (simp add: saveOrFail_def)
  next
    case (Some x)
    then show ?thesis using s r fails_after [OF _ failDeal_fails, of d w 0 d w' 0 0] by (simp add: saveOrFail_def)
  qed
qed

section \<open>The stages\<close>

text \<open>A stage goes on with a deal as described, or fails.\<close>

definition goes_on :: "'r StorageDealRepo \<Rightarrow> MinerDeal \<Rightarrow> 'r world \<Rightarrow> nat \<Rightarrow> (MinerDeal \<Rightarrow> bool) \<Rightarrow> 'r stage \<Rightarrow> bool" where
  "goes_on repo d w n Q s \<longleftrightarrow> (\<exists>d' w'. s = Next d' w' \<and> run d w n d' w' \<and> saved repo d' w' None \<and> Q d') \<or> fails repo d w n s"

lemma goes_onI_fail [intro]: "goes_on repo d w n Q (failDeal env repo d err w)"
  by (simp add: goes_on_def failDeal_fails)

lemma goes_on_after:
  assumes "run d w m d1 w1" "goes_on repo d1 w1 n Q s"
  shows "goes_on repo d w (m + n) Q s"
  using assms fails_after [of d w m d1 w1 repo n s "m + n"] run_trans unfolding goes_on_def by blast

lemma goes_on_fail_after: "run d w 0 d1 w1 \<Longrightarrow> goes_on repo d w n Q (failDeal env repo d1 err w1)"
  using goes_on_after [OF _ goes_onI_fail, of d w 0] by simp

lemma saveOrFail_goes_on:
  assumes "run d w n d1 w1" "Q d1"
  shows "goes_on repo d w n Q (saveOrFail env repo d1 w1)"
proof -
  have "goes_on repo d1 w1 0 Q (saveOrFail env repo d1 w1)"
    using saveOrFail_cases [of env repo d1 w1] assms(2) unfolding goes_on_def by blast
  then show ?thesis using goes_on_after [OF assms(1)] by fastforce
qed

lemma clearPaths_run: "run d w 0 (clearPaths d) w"
  by (rule run_same) (simp_all add: clearPaths_def)

lemma verifyData_stage:
  assumes "mdState d = StorageDealVerifyData"
  shows "goes_on repo d w 0 (\<lambda>d'. mdState d' = StorageDealReserveProviderFunds \<and>
           (\<exists>path. GeneratePieceCommitment env (InboundCAR d) (PieceSize (Proposal d)) = Inr (PieceCID (Proposal d), path)))
         (verifyData env repo d w)"
proof (cases "FinalizeBlockstore env (ProposalCid d)")
  case (Some e)
  then show ?thesis using assms goes_on_fail_after [OF clearPaths_run] by (simp add: verifyData_def)
next
  case None
  note fin = this
  show ?thesis
  proof (cases "GeneratePieceCommitment env (InboundCAR d) (PieceSize (Proposal d))")
    case (Inl e)
    then show ?thesis using assms fin goes_on_fail_after [OF clearPaths_run] by (simp add: verifyData_def)
  next
    case (Inr r)
    obtain pieceCid path where r: "r = (pieceCid, path)" by (cases r)
    define d1 where "d1 = d\<lparr>PiecePath := [], MetadataPath := path, mdPieceStatus := Undefine, mdState := StorageDealReserveProviderFunds\<rparr>"
    obtain d2 w2 e where s: "saveDeal repo d1 w = (d2, w2, e)" by (cases "saveDeal repo d1 w")
    have r1: "run d w 0 d1 w" by (rule run_same) (simp_all add: d1_def)
    note r2 = saveDeal_run [OF s]
    have r3: "run d w 0 d1 w2" using run_trans [OF r1, of 0] r2 by simp
    have vd: "verifyData env repo d w =
      (if pieceCid \<noteq> PieceCID (Proposal d) then failDeal env repo (clearPaths d) (ErrMsg ''proposal CommP doesn't match calculated CommP'') w
       else case e of None \<Rightarrow> Next d2 w2 | Some _ \<Rightarrow> failDeal env repo (clearPaths d2) (ErrMsg ''fail to save deal to database'') w2)"
      using assms fin Inr r s by (simp add: verifyData_def d1_def split: option.splits)
    have st: "mdState d1 = StorageDealReserveProviderFunds" by (simp add: d1_def)
    consider "pieceCid \<noteq> PieceCID (Proposal d)" | "pieceCid = PieceCID (Proposal d)" "e = None"
      | x where "pieceCid = PieceCID (Proposal d)" "e = Some x" by (cases e) auto
    then show ?thesis
    proof cases
      case 1 then show ?thesis using vd goes_on_fail_after [OF clearPaths_run] by simp
    next
      case 2 then show ?thesis using vd r2 r3 st Inr r unfolding goes_on_def by auto
    next
      case 3
      then show ?thesis using vd r2 goes_on_fail_after [OF run_trans [OF r3 clearPaths_run, simplified]] by simp
    qed
  qed
qed

lemma reserveProviderFunds_stage:
  assumes "mdState d = StorageDealReserveProviderFunds"
  shows "goes_on repo d w 0 (\<lambda>d'. mdState d' = StorageDealPublish \<or> mdState d' = StorageDealProviderFunding \<and> mdAddFundsCid d' \<noteq> None)
         (reserveProviderFunds env repo d w)"
proof -
  define e1 where "e1 = ReserveFunds (Provider (Proposal d)) (ProviderCollateral (Proposal d))"
  define d1 where "d1 = d\<lparr>FundsReserved := Some (case FundsReserved d of None \<Rightarrow> ProviderCollateral (Proposal d)
                                      | Some amt \<Rightarrow> amt + ProviderCollateral (Proposal d))\<rparr>"
  have r1: "run d w 0 (d1\<lparr>mdState := StorageDealPublish\<rparr>) (note_effect e1 w)"
    "run d w 0 (d1\<lparr>mdAddFundsCid := Some c, mdState := StorageDealProviderFunding\<rparr>) (note_effect e1 w)" for c
    by (auto simp: run_def note_effect_def e1_def d1_def funds_def split: option.splits)
  show ?thesis
    using assms saveOrFail_goes_on [OF r1(1)] saveOrFail_goes_on [OF r1(2)]
    by (auto simp: reserveProviderFunds_def Let_def e1_def d1_def split: sum.splits prod.splits)
qed

lemma publishDeal_stage:
  assumes "mdState d = StorageDealPublish"
  shows "goes_on repo d w 1 (\<lambda>d'. mdState d' = StorageDealPublishing) (publishDeal env repo d w)"
proof -
  have r1: "run d w 1 (d\<lparr>PublishCid := Some c, mdState := StorageDealPublishing\<rparr>) (note_effect (PublishDeals (ProposalCid d)) w)" for c
    by (simp add: run_def note_effect_def funds_def)
  show ?thesis
    using assms saveOrFail_goes_on [OF r1] by (auto simp: publishDeal_def split: sum.splits)
qed

lemma waitForPublish_stage:
  assumes "mdState d = StorageDealPublishing"
  shows "goes_on repo d w 0 (\<lambda>d'. mdState d' = StorageDealStaged \<and> funds d' = 0) (waitForPublish env repo d w)"
proof -
  obtain d1 w1 where rel: "releaseReservedFunds d w = (d1, w1)" by (cases "releaseReservedFunds d w")
  note r = releaseReservedFunds_run [OF rel]
  have r1: "run d w 0 (d1\<lparr>DealID := i, PublishCid := c, mdState := StorageDealStaged\<rparr>) w1"
    and z: "funds (d1\<lparr>DealID := i, PublishCid := c, mdState := StorageDealStaged\<rparr>) = 0" for i c
    using r by (auto simp: run_def funds_def)
  show ?thesis
    using assms rel saveOrFail_goes_on [OF r1] z by (auto simp: waitForPublish_def split: option.splits sum.splits)
qed

lemma savePieceFile_run:
  assumes "savePieceFile env d n w = (w', e)"
  shows "run d w 0 d w'"
proof -
  have "w' = w \<or> w' = note_effect (SavePiece (PieceCID (Proposal d))) w"
    using assms by (auto simp: savePieceFile_def Let_def split: option.splits)
  moreover have "run d w 0 d w" "run d w 0 d (note_effect (SavePiece (PieceCID (Proposal d))) w)"
    by (simp_all add: run_def note_effect_def)
  ultimately show ?thesis by auto
qed

text \<open>Both ways to hand off a deal save the payload size, store the piece and go on with the path of the CAR file.\<close>

lemma handOff_stage:
  assumes k: "\<And>path d1 w1. mdState d1 = mdState d \<Longrightarrow> funds d1 = funds d \<Longrightarrow> goes_on repo d1 w1 0 Q (k path d1 w1)"
  shows "goes_on repo d w 0 Q (handOffFile env repo d w k)" "goes_on repo d w 0 Q (handOffCar env repo d w k)"
proof -
  have piece: "goes_on repo d w 0 Q (chain (saveOrFail env repo (d\<lparr>PayloadSize := n\<rparr>) w) f)"
    if f: "\<And>w1. goes_on repo (d\<lparr>PayloadSize := n\<rparr>) w1 0 Q (f (d\<lparr>PayloadSize := n\<rparr>) w1)" for n f
  proof -
    let ?d = "d\<lparr>PayloadSize := n\<rparr>"
    have r: "run d w 0 ?d w" by (rule run_same) simp_all
    from saveOrFail_cases [of env repo ?d w] show ?thesis
    proof
      assume "\<exists>w'. saveOrFail env repo ?d w = Next ?d w' \<and> run ?d w 0 ?d w' \<and> saved repo ?d w' None"
      then obtain w' where "saveOrFail env repo ?d w = Next ?d w'" "run d w 0 ?d w'" using run_trans [OF r, of 0] by auto
      then show ?thesis using goes_on_after [OF _ f, of d w 0 w'] by (simp add: chain_def)
    next
      assume "fails repo ?d w 0 (saveOrFail env repo ?d w)"
      then show ?thesis using fails_after [OF r] unfolding goes_on_def fails_def chain_def by fastforce
    qed
  qed
  have store: "goes_on repo d1 w1 0 Q (case savePieceFile env d1 n w1 of (w2, e) \<Rightarrow> g e w2)"
    if "\<And>e w2. goes_on repo d1 w2 0 Q (g e w2)" for d1 w1 n g
    using that goes_on_after [OF savePieceFile_run, of env d1 n w1] by (auto split: prod.splits)
  have k': "goes_on repo (d\<lparr>PayloadSize := n\<rparr>) w1 0 Q (k path (d\<lparr>PayloadSize := n\<rparr>) w1)" for n path w1
    using k [of "d\<lparr>PayloadSize := n\<rparr>" w1 path] by (simp add: funds_def)
  show "goes_on repo d w 0 Q (handOffFile env repo d w k)"
    unfolding handOffFile_def
    by (auto split: sum.splits option.splits intro!: piece store k')
  show "goes_on repo d w 0 Q (handOffCar env repo d w k)"
    unfolding handOffCar_def
    by (auto split: sum.splits intro!: piece store k' split: option.splits)
qed

lemma handoffDeal_stage:
  assumes "mdState d = StorageDealStaged"
  shows "goes_on repo d w 0 (\<lambda>d'. mdState d' = StorageDealAwaitingPreCommit \<and> AvailableForRetrieval d' \<and> funds d' = funds d) (handoffDeal env repo d w)"
proof -
  have k: "goes_on repo d1 w1 0 (\<lambda>d'. mdState d' = StorageDealAwaitingPreCommit \<and> AvailableForRetrieval d' \<and> funds d' = funds d)
      (saveOrFail env repo (d1\<lparr>AvailableForRetrieval := True, mdState := StorageDealAwaitingPreCommit\<rparr>)
         (note_effect (RegisterShard (PieceCID (Proposal d1)) path) w1))" if "funds d1 = funds d" for path d1 w1
    using that by (intro saveOrFail_goes_on) (auto simp: run_def note_effect_def funds_def)
  show ?thesis using assms k by (auto simp: handoffDeal_def Let_def intro!: handOff_stage)
qed

text \<open>Waiting for the funding message. The callback may have failed the deal already, in which case the stage goes on
  with a failed deal that no later stage touches.\<close>

lemma waitFunding_stage:
  assumes "mdState d = StorageDealProviderFunding" "mdAddFundsCid d = Some c"
  shows "goes_on repo d w 0 (\<lambda>d'. mdState d' = StorageDealPublish \<or> mdState d' = StorageDealFailing \<and> funds d' = 0) (waitFunding env repo d w)"
proof -
  define cb where "cb = (case WaitForMessage env c of
                   Inl e \<Rightarrow> (d, w, Some e)
                 | Inr (code, Some e) \<Rightarrow> HandleError env repo d (ErrWrap ''AddFunds errored'' e) w
                 | Inr (code, None) \<Rightarrow>
                     if code \<noteq> 0 then HandleError env repo d (ErrMsg ''AddFunds exit code'') w
                     else
                       (case saveDeal repo (d\<lparr>mdState := StorageDealPublish\<rparr>) w of
                          (d, w', None) \<Rightarrow> (d, w', None)
                        | (d, w', Some e) \<Rightarrow> HandleError env repo d (ErrMsg ''fail to save deal to database'') w'))"
  have wf: "waitFunding env repo d w = (case cb of (d', w', None) \<Rightarrow> Next d' w'
     | (d', w', Some e) \<Rightarrow> failDeal env repo d' (ErrWrap ''wait AddFunds msg for provider errored'' e) w')"
    using assms unfolding waitFunding_def cb_def by (simp add: Let_def split: prod.splits option.splits)
  obtain d1 w1 e1 where cb: "cb = (d1, w1, e1)" by (cases cb)
  let ?p = "d\<lparr>mdState := StorageDealPublish\<rparr>"
  have rp: "run d w 0 ?p w" by (rule run_same) simp_all
  have he: "run d w 0 d1 w1 \<and> failed repo d1 w1 e1" if "HandleError env repo d x w = (d1, w1, e1)" for x
    using HandleError_run [OF that] .
  obtain d2 w2 e2 where s: "saveDeal repo ?p w = (d2, w2, e2)" by (cases "saveDeal repo ?p w")
  note r2 = saveDeal_run [OF s]
  have r3: "run d w 0 ?p w2" using run_trans [OF rp, of 0] r2 by simp
  have hs: "run d w 0 d1 w1 \<and> failed repo d1 w1 e1" if "HandleError env repo ?p x w2 = (d1, w1, e1)" for x
    using HandleError_run [OF that] run_trans [OF r3, of 0] by simp
  have res: "run d w 0 d1 w1 \<and> (e1 \<noteq> None \<or> failed repo d1 w1 e1 \<or> mdState d1 = StorageDealPublish \<and> saved repo d1 w1 None)"
    using cb he hs s r2 r3 run_same [of w w d d]
    by (auto simp: cb_def split: sum.splits prod.splits option.splits if_splits)
  show ?thesis
  proof (cases e1)
    case None
    then show ?thesis using wf cb res unfolding goes_on_def failed_def by auto
  next
    case (Some x)
    then show ?thesis using wf cb res goes_on_fail_after [of d w d1 w1] by simp
  qed
qed

section \<open>The chain of stages\<close>

lemma chain_simps [simp]: "chain (Next d w) k = k d w" "chain (Stop d w e) k = Stop d w e" "chain (Boom m) k = Boom m"
  by (simp_all add: chain_def)

lemma chain_assoc: "chain (chain s f) g = chain s (\<lambda>d w. chain (f d w) g)"
  by (cases s) simp_all

text \<open>The rest of the hand-off from each stage on.\<close>

definition fromPublishing :: "dealEnv \<Rightarrow> 'r StorageDealRepo \<Rightarrow> MinerDeal \<Rightarrow> 'r world \<Rightarrow> 'r stage" where
  "fromPublishing env repo d w = chain (waitForPublish env repo d w) (handoffDeal env repo)"

definition fromPublish :: "dealEnv \<Rightarrow> 'r StorageDealRepo \<Rightarrow> MinerDeal \<Rightarrow> 'r world \<Rightarrow> 'r stage" where
  "fromPublish env repo d w = chain (publishDeal env repo d w) (fromPublishing env repo)"

definition fromFunding :: "dealEnv \<Rightarrow> 'r StorageDealRepo \<Rightarrow> MinerDeal \<Rightarrow> 'r world \<Rightarrow> 'r stage" where
  "fromFunding env repo d w = chain (waitFunding env repo d w) (fromPublish env repo)"

definition fromReserve :: "dealEnv \<Rightarrow> 'r StorageDealRepo \<Rightarrow> MinerDeal \<Rightarrow> 'r world \<Rightarrow> 'r stage" where
  "fromReserve env repo d w = chain (reserveProviderFunds env repo d w) (fromFunding env repo)"

lemma HandleOff_stages:
  "HandleOff env repo d w = (case chain (verifyData env repo d w) (fromReserve env repo) of
     Next d' w' \<Rightarrow> Ret (d', w', None) | Stop d' w' e \<Rightarrow> Ret (d', w', e) | Boom m \<Rightarrow> Panic m)"
  unfolding HandleOff_def chain_assoc fromReserve_def fromFunding_def fromPublish_def fromPublishing_def ..

text \<open>How a hand-off ends: the deal is with the sealing subsystem after \<open>n\<close> publications, or it failed.\<close>

definition ends :: "'r StorageDealRepo \<Rightarrow> MinerDeal \<Rightarrow> 'r world \<Rightarrow> nat \<Rightarrow> bool \<Rightarrow> 'r stage \<Rightarrow> bool" where
  "ends repo d w n z s \<longleftrightarrow>
     (\<exists>d' w'. s = Next d' w' \<and> run d w n d' w' \<and> saved repo d' w' None \<and> mdState d' = StorageDealAwaitingPreCommit \<and>
              AvailableForRetrieval d' \<and> (z \<longrightarrow> funds d' = 0)) \<or>
     (\<exists>d' w' e m. (s = Stop d' w' e \<or> s = Next d' w' \<and> e = None) \<and> m \<le> n \<and> run d w m d' w' \<and> failed repo d' w' e)"

lemma ends_after:
  assumes "run d w m d1 w1" "ends repo d1 w1 n z s"
  shows "ends repo d w (m + n) z s"
proof -
  have r: "run d w (m + j) d' w'" if "run d1 w1 j d' w'" for j d' w' using run_trans [OF assms(1) that] .
  from assms(2) [unfolded ends_def] show ?thesis
  proof (elim disjE exE conjE)
    fix d' w' assume "s = Next d' w'" "run d1 w1 n d' w'" "saved repo d' w' None" "mdState d' = StorageDealAwaitingPreCommit"
      "AvailableForRetrieval d'" "z \<longrightarrow> funds d' = 0"
    then show ?thesis unfolding ends_def using r by blast
  next
    fix d' w' e j assume "j \<le> n" "run d1 w1 j d' w'" "failed repo d' w' e" "s = Stop d' w' e"
    moreover have "m + j \<le> m + n" using \<open>j \<le> n\<close> by simp
    ultimately show ?thesis unfolding ends_def using r by blast
  next
    fix d' w' e j assume "j \<le> n" "run d1 w1 j d' w'" "failed repo d' w' e" "s = Next d' w'" "e = None"
    moreover have "m + j \<le> m + n" using \<open>j \<le> n\<close> by simp
    ultimately show ?thesis unfolding ends_def using r by blast
  qed
qed

lemma goes_on_ends:
  assumes s: "goes_on repo d w m Q s"
    and k: "\<And>d1 w1. Q d1 \<Longrightarrow> saved repo d1 w1 None \<Longrightarrow> ends repo d1 w1 n z (k d1 w1)"
  shows "ends repo d w (m + n) z (chain s k)"
  using s unfolding goes_on_def
proof
  assume "\<exists>d' w'. s = Next d' w' \<and> run d w m d' w' \<and> saved repo d' w' None \<and> Q d'"
  then obtain d' w' where n: "s = Next d' w'" "run d w m d' w'" "saved repo d' w' None" "Q d'" by blast
  show ?thesis using ends_after [OF n(2) k [OF n(4,3)]] n(1) by simp
next
  assume "fails repo d w m s"
  then obtain d' w' e j where "s = Stop d' w' e" "j \<le> m" "run d w j d' w'" "failed repo d' w' e"
    unfolding fails_def by auto
  then show ?thesis unfolding ends_def by (metis chain_simps(2) trans_le_add1)
qed

lemma handoffDeal_ends: "mdState d = StorageDealStaged \<Longrightarrow> ends repo d w 0 (funds d = 0) (handoffDeal env repo d w)"
  using handoffDeal_stage [of d repo w env] unfolding goes_on_def fails_def ends_def by auto

lemma fromPublishing_ends: "mdState d = StorageDealPublishing \<Longrightarrow> ends repo d w 0 True (fromPublishing env repo d w)"
  using goes_on_ends [OF waitForPublish_stage, where k = "handoffDeal env repo" and n = 0 and z = True]
    handoffDeal_ends [where repo = repo and env = env]
  by (fastforce simp: fromPublishing_def)

lemma fromPublish_ends: "mdState d = StorageDealPublish \<Longrightarrow> ends repo d w 1 True (fromPublish env repo d w)"
  using goes_on_ends [OF publishDeal_stage fromPublishing_ends] by (fastforce simp: fromPublish_def)

lemma no_stage:
  assumes "mdState d \<notin> {StorageDealVerifyData, StorageDealReserveProviderFunds, StorageDealProviderFunding, StorageDealPublish,
    StorageDealPublishing, StorageDealStaged}"
  shows "fromPublish env repo d w = Next d w" "fromReserve env repo d w = Next d w"
  using assms by (simp_all add: fromReserve_def fromFunding_def fromPublish_def fromPublishing_def reserveProviderFunds_def
      waitFunding_def publishDeal_def waitForPublish_def handoffDeal_def)

lemma fromFunding_ends:
  assumes "mdState d = StorageDealPublish \<or> mdState d = StorageDealProviderFunding \<and> mdAddFundsCid d \<noteq> None"
  shows "ends repo d w 1 True (fromFunding env repo d w)"
  using assms
proof
  assume "mdState d = StorageDealPublish"
  then show ?thesis using fromPublish_ends by (simp add: fromFunding_def waitFunding_def)
next
  assume a: "mdState d = StorageDealProviderFunding \<and> mdAddFundsCid d \<noteq> None"
  then obtain c where c: "mdAddFundsCid d = Some c" by auto
  have k: "ends repo d1 w1 1 True (fromPublish env repo d1 w1)"
    if q: "mdState d1 = StorageDealPublish \<or> mdState d1 = StorageDealFailing \<and> funds d1 = 0" and s: "saved repo d1 w1 None" for d1 w1
    using q
  proof
    assume "mdState d1 = StorageDealPublish" then show ?thesis by (rule fromPublish_ends)
  next
    assume f: "mdState d1 = StorageDealFailing \<and> funds d1 = 0"
    then have "fromPublish env repo d1 w1 = Next d1 w1" by (simp add: no_stage)
    then show ?thesis using f s run_same [of w1 w1 d1 d1] unfolding ends_def failed_def by auto
  qed
  show ?thesis using goes_on_ends [OF waitFunding_stage k] a c by (fastforce simp: fromFunding_def)
qed

lemma fromReserve_ends: "mdState d = StorageDealReserveProviderFunds \<Longrightarrow> ends repo d w 1 True (fromReserve env repo d w)"
  using goes_on_ends [OF reserveProviderFunds_stage fromFunding_ends] by (fastforce simp: fromReserve_def)

lemma verifyData_skip: "mdState d \<noteq> StorageDealVerifyData \<Longrightarrow> verifyData env repo d w = Next d w"
  by (simp add: verifyData_def)

lemma verified_ends:
  assumes "mdState d = StorageDealVerifyData"
  shows "ends repo d w 1 True (chain (verifyData env repo d w) (fromReserve env repo))"
  using goes_on_ends [OF verifyData_stage fromReserve_ends] assms by fastforce

lemma later_tails:
  "mdState d \<noteq> StorageDealReserveProviderFunds \<Longrightarrow> fromReserve env repo d w = fromFunding env repo d w"
  "mdState d \<noteq> StorageDealProviderFunding \<Longrightarrow> fromFunding env repo d w = fromPublish env repo d w"
  "mdState d \<noteq> StorageDealPublish \<Longrightarrow> fromPublish env repo d w = fromPublishing env repo d w"
  "mdState d \<noteq> StorageDealPublishing \<Longrightarrow> fromPublishing env repo d w = handoffDeal env repo d w"
  by (simp_all add: fromReserve_def fromFunding_def fromPublish_def fromPublishing_def reserveProviderFunds_def
      waitFunding_def publishDeal_def waitForPublish_def)

definition handOffStates :: "StorageDealStatus set" where
  "handOffStates = {StorageDealVerifyData, StorageDealReserveProviderFunds, StorageDealProviderFunding, StorageDealPublish,
     StorageDealPublishing, StorageDealStaged}"

text \<open>The publications still to come for a deal in a state.\<close>

definition toPublish :: "StorageDealStatus \<Rightarrow> nat" where
  "toPublish s = (if s = StorageDealPublishing \<or> s = StorageDealStaged then 0 else 1)"

lemma stages_end:
  assumes "mdState d \<in> handOffStates" "mdState d = StorageDealProviderFunding \<Longrightarrow> mdAddFundsCid d \<noteq> None"
  shows "ends repo d w (toPublish (mdState d)) (mdState d \<noteq> StorageDealStaged \<or> funds d = 0) (chain (verifyData env repo d w) (fromReserve env repo))"
  using assms verified_ends [of d repo w env] fromReserve_ends [of d repo w env] fromFunding_ends [of d repo w env]
    fromPublish_ends [of d repo w env] fromPublishing_ends [of d repo w env] handoffDeal_ends [of d repo w env]
  by (auto simp: handOffStates_def toPublish_def verifyData_skip later_tails)

lemma stages_boom:
  assumes "mdState d = StorageDealProviderFunding" "mdAddFundsCid d = None"
  shows "\<exists>m. HandleOff env repo d w = Panic m"
  using assms by (simp add: HandleOff_stages verifyData_skip later_tails fromFunding_def waitFunding_def)

text \<open>A deal is handed off after verification only if the commitment of its data is the one of the proposal.\<close>

lemma verified_commitment:
  assumes "mdState d = StorageDealVerifyData" "HandleOff env repo d w = Ret (d', w', e)" "mdState d' \<noteq> StorageDealFailing"
  shows "\<exists>path. GeneratePieceCommitment env (InboundCAR d) (PieceSize (Proposal d)) = Inr (PieceCID (Proposal d), path)"
  using verifyData_stage [OF assms(1), of repo w env] assms(2,3) unfolding goes_on_def fails_def failed_def HandleOff_stages by auto

section \<open>Handing off\<close>


text \<open>A node, stores and a deal for a concrete run: the provider has to add funds, the payload is smaller than the deal
  and its commitment is padded.\<close>

definition demo_car :: carReader where
  "demo_car = \<lparr>DataSize = 100, copied = Inr 100, commP = Inr (''small'', 64), closed = None\<rparr>"

definition demo_denv :: dealEnv where
  "demo_denv = \<lparr>errText = (\<lambda>_. ''error''), GetChainHead = Inr (''tok'', 5), VerifyProposal = (\<lambda>_ _ _. None),
     minerHas = (\<lambda>a. a = ''miner''), ValidateSize = (\<lambda>_. None), pieceCIDPrefix = (\<lambda>_. True),
     Duration = (\<lambda>p. EndEpoch p - StartEpoch p), DealDurationBounds = (\<lambda>_. (1, 100)), MaxSectorExpirationExtension = 1000,
     DealProviderCollateralBounds = (\<lambda>_ _. Inr (0, 50)),
     GetAsk = (\<lambda>_. Inr \<lparr>Price = 0, VerifiedPrice = 0, askMinPieceSize = 64, askMaxPieceSize = 1024, askMiner = ''miner'',
       Timestamp = 0, Expiry = 100, SeqNo = 0\<rparr>),
     GetBalance = (\<lambda>_ _. Inr 100), ClientBalanceRequirement = (\<lambda>_. 10), GetDataCap = (\<lambda>_ _. Inr None),
     DealStream = (\<lambda>_. None), SignResponse = (\<lambda>_ _ _ _. None), WriteDealResponse = (\<lambda>_. None),
     GetMinerWorkerAddress = (\<lambda>_ _. Inr ''worker''), ReserveFundsCall = (\<lambda>_ _ _. Inr ''addfunds''),
     WaitForMessage = (\<lambda>_. Inr (0, None)), PublishDealsCall = (\<lambda>_. Inr ''pubmsg''),
     WaitForPublishDeals = (\<lambda>_ _. Inr \<lparr>resDealID = 9, FinalCid = ''final''\<rparr>), storesGet = (\<lambda>_. None), bsFinalize = (\<lambda>_. None),
     openCar = (\<lambda>_. Inr demo_car), ReadCAR = (\<lambda>_. Inr demo_car), PadCommP = (\<lambda>_ _ _. Inr ''raw''),
     DataCommitmentV1ToCID = (\<lambda>_. ''piece''), fsOpen = (\<lambda>_. Inl (ErrApi ''fs'')), FindStorageForRead = (\<lambda>_. Some (ErrApi ''none'')),
     FindStorageForWrite = (\<lambda>_. None), SaveTo = (\<lambda>_. None)\<rparr>"

definition demo_handled :: MinerDeal where
  "demo_handled = (demo_md ''p1'' 0 128)\<lparr>mdState := StorageDealVerifyData, Proposal := (demo_prop 128)\<lparr>ProviderCollateral := 5\<rparr>\<rparr>"

definition demo_world :: "(ds_key \<times> MinerDeal) list world" where
  "demo_world = \<lparr>wRepo = [], wLog = []\<rparr>"

lemma demo_handled_run:
  "(case HandleOff demo_denv (NewStorageDealRepo id map_deal_store) demo_handled demo_world of
      Ret (d', w', e) \<Rightarrow> mdState d' = StorageDealAwaitingPreCommit \<and> e = None | Panic _ \<Rightarrow> False) = True"
  by code_simp


section \<open>Accepting\<close>

text \<open>What the provider asks of a proposal, at the chain head \<open>tok\<close> of epoch \<open>curEpoch\<close>.\<close>

definition acceptable :: "dealEnv \<Rightarrow> MinerDeal \<Rightarrow> bytes \<Rightarrow> int \<Rightarrow> bool" where
  "acceptable env md tok curEpoch \<longleftrightarrow>
     (let p = Proposal md; size = uint (PieceSize p) in
      VerifyProposal env p (ClientSignature md) tok = None \<and> minerHas env (Provider p) \<and>
      length (Label p) \<le> 256 \<and> ValidateSize env (PieceSize p) = None \<and> PieceCID p \<noteq> Undef \<and> pieceCIDPrefix env (PieceCID p) \<and>
      curEpoch \<le> StartEpoch p \<and> StartEpoch p < EndEpoch p \<and> EndEpoch p \<le> curEpoch + MaxSectorExpirationExtension env \<and>
      fst (DealDurationBounds env (PieceSize p)) \<le> Duration env p \<and> Duration env p \<le> snd (DealDurationBounds env (PieceSize p)) \<and>
      (\<exists>pcMin pcMax. DealProviderCollateralBounds env (PieceSize p) (VerifiedDeal p) = Inr (pcMin, pcMax) \<and>
         pcMin \<le> ProviderCollateral p \<and> ProviderCollateral p \<le> pcMax) \<and>
      (\<exists>ask. GetAsk env (Provider p) = Inr ask \<and> minPriceOf ask p \<le> StoragePricePerEpoch p \<and>
         uint (askMinPieceSize ask) \<le> size \<and> size \<le> uint (askMaxPieceSize ask)) \<and>
      (\<exists>available. GetBalance env (Client p) tok = Inr available \<and> ClientBalanceRequirement env p \<le> available) \<and>
      (VerifiedDeal p \<longrightarrow> (\<exists>cap. GetDataCap env (Client p) tok = Inr (Some cap) \<and> size \<le> cap)))"

lemma checkTerms_ok: "checkTerms env curEpoch p = Inr () \<longleftrightarrow>
    minerHas env (Provider p) \<and> length (Label p) \<le> 256 \<and> ValidateSize env (PieceSize p) = None \<and> PieceCID p \<noteq> Undef \<and>
    pieceCIDPrefix env (PieceCID p) \<and> curEpoch \<le> StartEpoch p \<and> StartEpoch p < EndEpoch p \<and>
    EndEpoch p \<le> curEpoch + MaxSectorExpirationExtension env \<and>
    fst (DealDurationBounds env (PieceSize p)) \<le> Duration env p \<and> Duration env p \<le> snd (DealDurationBounds env (PieceSize p))"
  by (auto simp: checkTerms_def DealMaxLabelSize_def split: option.splits prod.splits)

lemma checkCollateral_ok: "checkCollateral env p = Inr () \<longleftrightarrow>
    (\<exists>pcMin pcMax. DealProviderCollateralBounds env (PieceSize p) (VerifiedDeal p) = Inr (pcMin, pcMax) \<and>
         pcMin \<le> ProviderCollateral p \<and> ProviderCollateral p \<le> pcMax)"
  by (auto simp: checkCollateral_def split: sum.splits)

lemma checkAsk_ok: "checkAsk env p = Inr () \<longleftrightarrow>
    (\<exists>ask. GetAsk env (Provider p) = Inr ask \<and> minPriceOf ask p \<le> StoragePricePerEpoch p \<and>
       uint (askMinPieceSize ask) \<le> uint (PieceSize p) \<and> uint (PieceSize p) \<le> uint (askMaxPieceSize ask))"
  by (auto simp: checkAsk_def word_less_def word_le_def not_less split: sum.splits)

lemma checkFunds_ok: "checkFunds env tok p = Inr () \<longleftrightarrow>
    (\<exists>available. GetBalance env (Client p) tok = Inr available \<and> ClientBalanceRequirement env p \<le> available) \<and>
    (VerifiedDeal p \<longrightarrow> (\<exists>cap. GetDataCap env (Client p) tok = Inr (Some cap) \<and> uint (PieceSize p) \<le> cap))"
  by (auto simp: checkFunds_def split: sum.splits option.splits if_splits)

lemma checkProposal_ok:
  "checkProposal env md = Inr () \<longleftrightarrow> (\<exists>tok curEpoch. GetChainHead env = Inr (tok, curEpoch) \<and> acceptable env md tok curEpoch)"
proof (cases "GetChainHead env")
  case (Inl e)
  then show ?thesis by (simp add: checkProposal_def)
next
  case (Inr h)
  obtain tok curEpoch where h: "h = (tok, curEpoch)" by (cases h)
  have "checkProposal env md = Inr () \<longleftrightarrow> VerifyProposal env (Proposal md) (ClientSignature md) tok = None \<and>
      checkTerms env curEpoch (Proposal md) = Inr () \<and> checkCollateral env (Proposal md) = Inr () \<and>
      checkAsk env (Proposal md) = Inr () \<and> checkFunds env tok (Proposal md) = Inr ()"
    using Inr h by (auto simp: checkProposal_def Let_def tryE_Inr_iff split: option.splits)
  then show ?thesis
    unfolding checkTerms_ok checkCollateral_ok checkAsk_ok checkFunds_ok acceptable_def Let_def using Inr h by auto
qed

text \<open>The client can be answered: its stream is open and the response can be signed and written.\<close>

definition answerable :: "dealEnv \<Rightarrow> address \<Rightarrow> StorageDealStatus \<Rightarrow> string \<Rightarrow> cid \<Rightarrow> bool" where
  "answerable env a st m c \<longleftrightarrow> DealStream env c = None \<and> SignResponse env a st m c = None \<and> WriteDealResponse env c = None"

definition acceptable_now :: "dealEnv \<Rightarrow> MinerDeal \<Rightarrow> bool" where
  "acceptable_now env md \<longleftrightarrow> (\<exists>tok curEpoch. GetChainHead env = Inr (tok, curEpoch) \<and> acceptable env md tok curEpoch)"

definition toldWaiting :: "dealEnv \<Rightarrow> MinerDeal \<Rightarrow> bool" where
  "toldWaiting env md \<longleftrightarrow> answerable env (Provider (Proposal md)) StorageDealWaitingForData [] (ProposalCid md)"

lemma SendSignedResponse_log:
  assumes "SendSignedResponse env a st m c w = (w', e)"
  shows "e = None \<longleftrightarrow> answerable env a st m c"
    and "\<exists>es. wLog w' = wLog w @ es \<and> (if e = None then es = [Respond st m c] else es = [] \<or> es = [Disconnect c])"
  using assms by (auto simp: SendSignedResponse_def answerable_def note_effect_def split: option.splits)

lemma HandleReject_log:
  assumes "HandleReject env repo d st err w = (d', w', e)"
  shows "mdState d' = st" "saved repo d' w' e"
    and "\<exists>es. wLog w' = wLog w @ es \<and> Disconnect (ProposalCid d) \<in> set es \<and>
      responses es = (if answerable env (Provider (Proposal d)) StorageDealFailing (errText env err) (ProposalCid d) then [StorageDealFailing] else [])"
proof -
  let ?m = "errText env err" and ?d = "d\<lparr>mdState := st, mdMessage := errText env err\<rparr>"
  obtain w1 e1 where s: "SendSignedResponse env (Provider (Proposal d)) StorageDealFailing ?m (ProposalCid d) w = (w1, e1)"
    by (cases "SendSignedResponse env (Provider (Proposal d)) StorageDealFailing ?m (ProposalCid d) w")
  have r: "saveDeal repo ?d (note_effect (UntagPeer (mdClient d) (ProposalCid d)) (note_effect (Disconnect (ProposalCid d)) w1)) = (d', w', e)"
    using assms s by (simp add: HandleReject_def)
  show "mdState d' = st" "saved repo d' w' e" using saveDeal_run [OF r] by auto
  have l: "wLog w' = wLog w1 @ [Disconnect (ProposalCid d), UntagPeer (mdClient d) (ProposalCid d)]"
    using saveDeal_run [OF r] by (simp add: note_effect_def)
  obtain es where es: "wLog w1 = wLog w @ es" "if e1 = None then es = [Respond StorageDealFailing ?m (ProposalCid d)] else es = [] \<or> es = [Disconnect (ProposalCid d)]"
    using SendSignedResponse_log(2) [OF s] by auto
  then show "\<exists>es. wLog w' = wLog w @ es \<and> Disconnect (ProposalCid d) \<in> set es \<and>
      responses es = (if answerable env (Provider (Proposal d)) StorageDealFailing (errText env err) (ProposalCid d) then [StorageDealFailing] else [])"
    using SendSignedResponse_log(1) [OF s] l by (auto split: if_splits)
qed

text \<open>Property C8. \<open>AcceptDeal\<close> leaves the deal waiting for data exactly when the proposal satisfies every condition the
  provider asks for and the client can be answered, rejecting exactly when it does not satisfy them, and failing when only
  the answer could not be sent. The client is told that the deal waits for data exactly in the first case, and never
  told so for a rejected deal; a rejected client is disconnected. The returned deal is the one that was saved.\<close>

theorem AcceptDeal_decides:
  "case AcceptDeal env repo md w of (d', w', e) \<Rightarrow>
      mdState d' = (if \<not> acceptable_now env md then StorageDealRejecting else if toldWaiting env md then StorageDealWaitingForData else StorageDealFailing) \<and>
      (\<exists>r. sdSaveDeal repo r d' = (wRepo w', e)) \<and>
      (\<exists>es. wLog w' = wLog w @ es \<and>
         (if \<not> acceptable_now env md then (responses es = [] \<or> responses es = [StorageDealFailing]) \<and> Disconnect (ProposalCid md) \<in> set es
          else if toldWaiting env md then responses es = [StorageDealWaitingForData] \<and> Disconnect (ProposalCid md) \<in> set es
          else responses es = [] \<and> funds d' = 0))"
proof -
  obtain d' w' e where acc: "AcceptDeal env repo md w = (d', w', e)" by (cases "AcceptDeal env repo md w")
  define v where "v = note_effect (TagPeer (mdClient md) (ProposalCid md)) w"
  obtain w1 e1 where s: "SendSignedResponse env (Provider (Proposal md)) StorageDealWaitingForData [] (ProposalCid md) v = (w1, e1)"
    by (cases "SendSignedResponse env (Provider (Proposal md)) StorageDealWaitingForData [] (ProposalCid md) v")
  have v: "wLog v = wLog w @ [TagPeer (mdClient md) (ProposalCid md)]" by (simp add: v_def note_effect_def)
  have ok: "acceptable_now env md \<longleftrightarrow> checkProposal env md = Inr ()" unfolding acceptable_now_def checkProposal_ok ..
  have told: "toldWaiting env md \<longleftrightarrow> e1 = None" unfolding toldWaiting_def using SendSignedResponse_log(1) [OF s] by simp
  obtain es where es: "wLog w1 = wLog v @ es" "if e1 = None then es = [Respond StorageDealWaitingForData [] (ProposalCid md)]
      else es = [] \<or> es = [Disconnect (ProposalCid md)]"
    using SendSignedResponse_log(2) [OF s] by auto
  consider (rej) x where "checkProposal env md = Inl x" | (err) x where "checkProposal env md = Inr ()" "e1 = Some x"
    | (acc) "checkProposal env md = Inr ()" "e1 = None"
    by (cases "checkProposal env md"; cases e1) auto
  then show ?thesis
  proof cases
    case rej
    then have "HandleReject env repo md StorageDealRejecting x v = (d', w', e)" using acc by (simp add: AcceptDeal_def v_def)
    note h = HandleReject_log [OF this]
    have "\<exists>fs. wLog w' = wLog w @ fs \<and> (responses fs = [] \<or> responses fs = [StorageDealFailing]) \<and> Disconnect (ProposalCid md) \<in> set fs"
      using h(3) v by (auto split: if_splits)
    then show ?thesis using acc h(1,2) ok rej by (auto simp: saved_def)
  next
    case err
    then have h: "HandleError env repo md x w1 = (d', w', e)" using acc s by (simp add: AcceptDeal_def v_def)
    obtain fs where fs: "wLog w' = wLog w1 @ fs" "responses fs = []" using HandleError_log [OF h] by auto
    have "responses es = []" using es(2) err by auto
    then show ?thesis using acc HandleError_run [OF h] ok told err v es(1) fs by (auto simp: failed_def saved_def)
  next
    case acc2: acc
    then have "saveDeal repo (md\<lparr>mdState := StorageDealWaitingForData\<rparr>) (note_effect (Disconnect (ProposalCid md)) w1) = (d', w', e)"
      using acc s by (simp add: AcceptDeal_def v_def SaveState_def)
    note h = saveDeal_run [OF this]
    show ?thesis using acc h ok told acc2 v es by (auto simp: saved_def note_effect_def)
  qed
qed

theorem AcceptDeal_decides_witness:
  "mdState (fst (AcceptDeal demo_denv (NewStorageDealRepo id map_deal_store) demo_handled demo_world)) = StorageDealWaitingForData \<and>
   acceptable_now demo_denv demo_handled"
proof -
  have w: "mdState (fst (AcceptDeal demo_denv (NewStorageDealRepo id map_deal_store) demo_handled demo_world)) = StorageDealWaitingForData"
    by code_simp
  then show ?thesis
    using AcceptDeal_decides [where env = demo_denv and repo = "NewStorageDealRepo id map_deal_store" and md = demo_handled and w = demo_world]
    by (auto split: prod.splits if_splits)
qed

end
