(* ===== verification/Deal_Tracker.thy ===== *)
theory Deal_Tracker
  imports Storage_Deal_Repo
begin

text \<open>
  Following deals on chain: \<open>src/storageprovider/deal_tracker.go\<close>. A scan looks at the deals of every miner and moves their
  states as the chain says. The node and the miner manager are the record \<open>trackNode\<close>; a chain head that could not be
  read gives the key \<open>nilKey\<close> of a nil tipset. The scan runs once a minute; \<open>Start\<close> is the sequence of the scans.
\<close>

section \<open>The scan\<close>

record marketDealState =
  SectorStartEpoch :: int
  stSlashEpoch :: int

record trackNode =
  ActorAddress :: "address list res"
  headKey :: "bytes res"
  nilKey :: bytes
  StateMarketStorageDeal :: "u64 \<Rightarrow> bytes \<Rightarrow> marketDealState res"
  StateSectorPreCommitInfo :: "address \<Rightarrow> u64 \<Rightarrow> bytes \<Rightarrow> u64 list res"

text \<open>The errors of the repository are logged; a failed query gives no deals.\<close>

definition checkDeal :: "trackNode \<Rightarrow> 'r StorageDealRepo \<Rightarrow> address \<Rightarrow> bytes \<Rightarrow> 'r \<Rightarrow> MinerDeal \<Rightarrow> 'r" where
  "checkDeal node repo addr tsk r deal =
     (case StateMarketStorageDeal node (DealID deal) tsk of
        Inl _ \<Rightarrow> r
      | Inr st \<Rightarrow>
          if SectorStartEpoch st > -1 then fst (sdUpdateDealStatus repo r (ProposalCid deal) StorageDealActive Proving)
          else if mdState deal = StorageDealAwaitingPreCommit then
            (case StateSectorPreCommitInfo node addr (SectorNumber deal) tsk of
               Inl _ \<Rightarrow> r
             | Inr dealIDs \<Rightarrow>
                 if DealID deal \<notin> set dealIDs then r
                 else fst (sdUpdateDealStatus repo r (ProposalCid deal) StorageDealSealing Packing))
          else r)"

definition slashDeal :: "trackNode \<Rightarrow> 'r StorageDealRepo \<Rightarrow> bytes \<Rightarrow> 'r \<Rightarrow> MinerDeal \<Rightarrow> 'r" where
  "slashDeal node repo tsk r deal =
     (case StateMarketStorageDeal node (DealID deal) tsk of
        Inl _ \<Rightarrow> r
      | Inr st \<Rightarrow> if stSlashEpoch st > -1 then fst (sdUpdateDealStatus repo r (ProposalCid deal) StorageDealSlashed []) else r)"

definition forDeals :: "MinerDeal list res outcome \<Rightarrow> ('r \<Rightarrow> MinerDeal \<Rightarrow> 'r) \<Rightarrow> 'r \<Rightarrow> 'r outcome" where
  "forDeals q f r =
     (case q of
        Panic m \<Rightarrow> Panic m
      | Ret (Inl _) \<Rightarrow> Ret r
      | Ret (Inr deals) \<Rightarrow> Ret (foldl f r deals))"

definition checkPreCommitAndCommit :: "trackNode \<Rightarrow> 'r StorageDealRepo \<Rightarrow> address \<Rightarrow> bytes \<Rightarrow> 'r \<Rightarrow> 'r outcome" where
  "checkPreCommitAndCommit node repo addr tsk r =
     forDeals (sdGetDealByAddrAndStatus repo r addr [StorageDealAwaitingPreCommit, StorageDealSealing]) (checkDeal node repo addr tsk) r"

definition checkSlash :: "trackNode \<Rightarrow> 'r StorageDealRepo \<Rightarrow> address \<Rightarrow> bytes \<Rightarrow> 'r \<Rightarrow> 'r outcome" where
  "checkSlash node repo addr tsk r = forDeals (sdGetDealByAddrAndStatus repo r addr [StorageDealActive]) (slashDeal node repo tsk) r"

fun scanAddrs :: "trackNode \<Rightarrow> 'r StorageDealRepo \<Rightarrow> bytes \<Rightarrow> address list \<Rightarrow> 'r \<Rightarrow> 'r outcome" where
  "scanAddrs node repo tsk [] r = Ret r"
| "scanAddrs node repo tsk (addr # addrs) r =
     (case checkSlash node repo addr tsk r of
        Panic m \<Rightarrow> Panic m
      | Ret r1 \<Rightarrow>
          (case checkPreCommitAndCommit node repo addr tsk r1 of
             Panic m \<Rightarrow> Panic m
           | Ret r2 \<Rightarrow> scanAddrs node repo tsk addrs r2))"

definition scanDeal :: "trackNode \<Rightarrow> 'r StorageDealRepo \<Rightarrow> 'r \<Rightarrow> 'r outcome" where
  "scanDeal node repo r =
     scanAddrs node repo (case headKey node of Inl _ \<Rightarrow> nilKey node | Inr k \<Rightarrow> k)
       (case ActorAddress node of Inl _ \<Rightarrow> [] | Inr addrs \<Rightarrow> addrs) r"

text \<open>The ticks of the loop, each with the node's answers at that time.\<close>

fun StartTracker :: "trackNode list \<Rightarrow> 'r StorageDealRepo \<Rightarrow> 'r \<Rightarrow> 'r outcome" where
  "StartTracker [] repo r = Ret r"
| "StartTracker (node # nodes) repo r = (case scanDeal node repo r of Panic m \<Rightarrow> Panic m | Ret r' \<Rightarrow> StartTracker nodes repo r')"

section \<open>The repository's contract\<close>

definition withStatus :: "StorageDealStatus \<Rightarrow> PieceStatus \<Rightarrow> MinerDeal \<Rightarrow> MinerDeal" where
  "withStatus status ps d = d\<lparr>mdState := (if status = StorageDealUnknown then mdState d else status),
     mdPieceStatus := (if ps = [] then mdPieceStatus d else ps)\<rparr>"

locale deal_status_repo =
  fixes repo :: "'r StorageDealRepo" and view :: "'r \<Rightarrow> cid \<Rightarrow> MinerDeal option" and invar :: "'r \<Rightarrow> bool"
  assumes update_ok: "invar r \<Longrightarrow> sdUpdateDealStatus repo r c status ps = (r', None) \<Longrightarrow>
      invar r' \<and> (\<exists>d. view r c = Some d \<and> view r' = (view r)(c \<mapsto> withStatus status ps d))"
    and update_failed: "invar r \<Longrightarrow> sdUpdateDealStatus repo r c status ps = (r', Some e) \<Longrightarrow> invar r' \<and> view r' = view r"
    and by_status_returns: "\<exists>x. sdGetDealByAddrAndStatus repo r a sts = Ret x"
    and by_status_sound: "invar r \<Longrightarrow> sdGetDealByAddrAndStatus repo r a sts = Ret (Inr ds) \<Longrightarrow>
      distinct (map ProposalCid ds) \<and> (\<forall>d \<in> set ds. view r (ProposalCid d) = Some d \<and> mdState d \<in> set sts)"

context badger_deals
begin

lemma update_fails_view:
  assumes "UpdateDealStatus st s c status ps = (s', Some e)"
  shows "deal_view contents st s' = deal_view contents st s"
  using assms failed_save_contents
  by (auto simp: UpdateDealStatus_def Let_def deal_view_def fun_eq_iff split: sum.splits if_splits)

lemma update_keeps_invar:
  assumes "deal_invar contents st s" "UpdateDealStatus st s c status ps = (s', err)"
  shows "deal_invar contents st s'"
  using assms save_keeps_invar by (auto simp: UpdateDealStatus_def Let_def split: sum.splits if_splits)

end

sublocale badger_deals \<subseteq> status: deal_status_repo "NewStorageDealRepo mo st" "deal_view contents st" "deal_invar contents st"
proof unfold_locales
  have sel: "sdGetDealByAddrAndStatus (NewStorageDealRepo mo st) = GetDealByAddrAndStatus st" by (simp add: NewStorageDealRepo_def)
  show "deal_invar contents st r' \<and> (\<exists>d. deal_view contents st r c = Some d \<and> deal_view contents st r' = (deal_view contents st r)(c \<mapsto> withStatus status ps d))"
    if "deal_invar contents st r" "sdUpdateDealStatus (NewStorageDealRepo mo st) r c status ps = (r', None)" for r c status ps r'
    using that update_keeps_invar update_status_view by (simp add: withStatus_def)
  show "deal_invar contents st r' \<and> deal_view contents st r' = deal_view contents st r"
    if "deal_invar contents st r" "sdUpdateDealStatus (NewStorageDealRepo mo st) r c status ps = (r', Some e)" for r c status ps r' e
    using that update_keeps_invar update_fails_view by simp
  show "\<exists>x. sdGetDealByAddrAndStatus (NewStorageDealRepo mo st) r a sts = Ret x" for r a sts
    by (auto simp: sel GetDealByAddrAndStatus_def afterTravel_def travelDeals_def travelLoop_collect split: sum.splits option.splits)
  show "distinct (map ProposalCid ds) \<and> (\<forall>d \<in> set ds. deal_view contents st r (ProposalCid d) = Some d \<and> mdState d \<in> set sts)"
    if "deal_invar contents st r" "sdGetDealByAddrAndStatus (NewStorageDealRepo mo st) r a sts = Ret (Inr ds)" for r a sts ds
    using collected_stored [OF that(1) that(2) [unfolded sel GetDealByAddrAndStatus_def]] by auto
qed

section \<open>The moves of a deal\<close>

text \<open>The moves a scan may make with a deal, at the chain head \<open>tsk\<close>.\<close>

inductive tracked :: "trackNode \<Rightarrow> bytes \<Rightarrow> MinerDeal \<Rightarrow> MinerDeal \<Rightarrow> bool" for node tsk where
  active: "mdState d = StorageDealAwaitingPreCommit \<or> mdState d = StorageDealSealing \<Longrightarrow>
    StateMarketStorageDeal node (DealID d) tsk = Inr st \<Longrightarrow> SectorStartEpoch st > -1 \<Longrightarrow>
    tracked node tsk d (withStatus StorageDealActive Proving d)"
| sealing: "mdState d = StorageDealAwaitingPreCommit \<Longrightarrow> StateSectorPreCommitInfo node addr (SectorNumber d) tsk = Inr ids \<Longrightarrow>
    DealID d \<in> set ids \<Longrightarrow> tracked node tsk d (withStatus StorageDealSealing Packing d)"
| slashed: "mdState d = StorageDealActive \<Longrightarrow> StateMarketStorageDeal node (DealID d) tsk = Inr st \<Longrightarrow> stSlashEpoch st > -1 \<Longrightarrow>
    tracked node tsk d (withStatus StorageDealSlashed [] d)"

text \<open>Every stored deal went from one view to the other by moves of a scan, and none was added or removed.\<close>

definition moved :: "(MinerDeal \<Rightarrow> MinerDeal \<Rightarrow> bool) \<Rightarrow> (cid \<Rightarrow> MinerDeal option) \<Rightarrow> (cid \<Rightarrow> MinerDeal option) \<Rightarrow> bool" where
  "moved R v v' \<longleftrightarrow> (\<forall>c. rel_option R\<^sup>*\<^sup>* (v c) (v' c))"

lemma moved_refl [simp]: "moved R v v"
  by (simp add: moved_def option.rel_refl)

lemma moved_trans: "moved R v1 v2 \<Longrightarrow> moved R v2 v3 \<Longrightarrow> moved R v1 v3"
  unfolding moved_def by (metis (no_types, lifting) option.rel_sel rtranclp_trans)

lemma moved_upd: "v c = Some d \<Longrightarrow> R d d' \<Longrightarrow> moved R v (v(c \<mapsto> d'))"
  by (auto simp: moved_def option.rel_refl)

context deal_status_repo
begin

text \<open>The loop over the deals of a query: each deal is unchanged in the store until its turn comes.\<close>

lemma foldl_moved:
  assumes "invar r" "distinct (map ProposalCid ds)" "\<forall>d \<in> set ds. view r (ProposalCid d) = Some d"
    and step: "\<And>r d. invar r \<Longrightarrow> d \<in> set ds \<Longrightarrow> view r (ProposalCid d) = Some d \<Longrightarrow>
      invar (f r d) \<and> (view (f r d) = view r \<or> (\<exists>d'. R d d' \<and> view (f r d) = (view r)(ProposalCid d \<mapsto> d')))"
  shows "invar (foldl f r ds) \<and> moved R (view r) (view (foldl f r ds))"
  using assms
proof (induction ds arbitrary: r)
  case (Cons d ds)
  have d: "d \<in> set (d # ds)" "view r (ProposalCid d) = Some d" using Cons.prems(3) by simp_all
  note f = conjunct1 [OF Cons.prems(4) [OF Cons.prems(1) d]] conjunct2 [OF Cons.prems(4) [OF Cons.prems(1) d]]
  have m: "moved R (view r) (view (f r d))" using f(2) moved_upd [of "view r" "ProposalCid d" d R] d(2) moved_refl [of R "view r"] by metis
  have other: "view (f r d) c = view r c" if "c \<noteq> ProposalCid d" for c using f(2) that by fastforce
  have rest: "\<forall>x \<in> set ds. view (f r d) (ProposalCid x) = Some x"
  proof
    fix x assume x: "x \<in> set ds"
    have "ProposalCid d \<notin> ProposalCid ` set ds" using Cons.prems(2) by simp
    then have "ProposalCid x \<noteq> ProposalCid d" using x by (metis image_eqI)
    moreover have "view r (ProposalCid x) = Some x" using Cons.prems(3) x by (metis list.set_intros(2))
    ultimately show "view (f r d) (ProposalCid x) = Some x" using other by metis
  qed
  have "invar (foldl f (f r d) ds) \<and> moved R (view (f r d)) (view (foldl f (f r d) ds))"
  proof (rule Cons.IH [OF f(1) _ rest])
    show "distinct (map ProposalCid ds)" using Cons.prems(2) by simp
  qed (rule Cons.prems(4), simp_all)
  then show ?case using m moved_trans by auto
qed simp

lemma update_step:
  assumes "invar r" "view r (ProposalCid d) = Some d"
  shows "invar (fst (sdUpdateDealStatus repo r (ProposalCid d) status ps)) \<and>
    (view (fst (sdUpdateDealStatus repo r (ProposalCid d) status ps)) = view r \<or>
     view (fst (sdUpdateDealStatus repo r (ProposalCid d) status ps)) = (view r)(ProposalCid d \<mapsto> withStatus status ps d))"
proof -
  obtain r' e where u: "sdUpdateDealStatus repo r (ProposalCid d) status ps = (r', e)" by (cases "sdUpdateDealStatus repo r (ProposalCid d) status ps")
  show ?thesis using update_ok [OF assms(1), of "ProposalCid d"] update_failed [OF assms(1), of "ProposalCid d"] u assms(2) by (cases e) auto
qed

lemma forDeals_moved:
  assumes "invar r"
    and step: "\<And>r d. invar r \<Longrightarrow> view r (ProposalCid d) = Some d \<Longrightarrow> mdState d \<in> set sts \<Longrightarrow>
      invar (f r d) \<and> (view (f r d) = view r \<or> (\<exists>d'. R d d' \<and> view (f r d) = (view r)(ProposalCid d \<mapsto> d')))"
  shows "\<exists>r'. forDeals (sdGetDealByAddrAndStatus repo r a sts) f r = Ret r' \<and> invar r' \<and> moved R (view r) (view r')"
proof -
  obtain x where x: "sdGetDealByAddrAndStatus repo r a sts = Ret x" using by_status_returns by blast
  show ?thesis
  proof (cases x)
    case (Inl e)
    then show ?thesis using x assms(1) by (simp add: forDeals_def)
  next
    case (Inr ds)
    have "distinct (map ProposalCid ds) \<and> (\<forall>d \<in> set ds. view r (ProposalCid d) = Some d \<and> mdState d \<in> set sts)"
      using by_status_sound [OF assms(1)] x Inr by simp
    then show ?thesis using foldl_moved [of r ds f R] assms x Inr by (simp add: forDeals_def)
  qed
qed

lemma check_moved:
  assumes "invar r"
  shows "\<exists>r'. checkPreCommitAndCommit node repo a tsk r = Ret r' \<and> invar r' \<and> moved (tracked node tsk) (view r) (view r')"
  unfolding checkPreCommitAndCommit_def
proof (rule forDeals_moved [OF assms])
  fix r d
  assume d: "invar r" "view r (ProposalCid d) = Some d" "mdState d \<in> set [StorageDealAwaitingPreCommit, StorageDealSealing]"
  show "invar (checkDeal node repo a tsk r d) \<and> (view (checkDeal node repo a tsk r d) = view r \<or>
      (\<exists>d'. tracked node tsk d d' \<and> view (checkDeal node repo a tsk r d) = (view r)(ProposalCid d \<mapsto> d')))"
    using d update_step [OF d(1,2), of StorageDealActive Proving] update_step [OF d(1,2), of StorageDealSealing Packing]
      tracked.active [of d node tsk] tracked.sealing [of d node a tsk]
    by (auto simp: checkDeal_def split: sum.splits)
qed

lemma slash_moved:
  assumes "invar r"
  shows "\<exists>r'. checkSlash node repo a tsk r = Ret r' \<and> invar r' \<and> moved (tracked node tsk) (view r) (view r')"
  unfolding checkSlash_def
proof (rule forDeals_moved [OF assms])
  fix r d
  assume d: "invar r" "view r (ProposalCid d) = Some d" "mdState d \<in> set [StorageDealActive]"
  show "invar (slashDeal node repo tsk r d) \<and> (view (slashDeal node repo tsk r d) = view r \<or>
      (\<exists>d'. tracked node tsk d d' \<and> view (slashDeal node repo tsk r d) = (view r)(ProposalCid d \<mapsto> d')))"
    using d update_step [OF d(1,2), of StorageDealSlashed "[]"] tracked.slashed [of d node tsk]
    by (auto simp: slashDeal_def split: sum.splits)
qed

lemma scanAddrs_moved:
  assumes "invar r"
  shows "\<exists>r'. scanAddrs node repo tsk addrs r = Ret r' \<and> invar r' \<and> moved (tracked node tsk) (view r) (view r')"
  using assms
proof (induction addrs arbitrary: r)
  case (Cons a addrs)
  obtain r1 where 1: "checkSlash node repo a tsk r = Ret r1" "invar r1" "moved (tracked node tsk) (view r) (view r1)"
    using slash_moved [OF Cons.prems] by blast
  obtain r2 where 2: "checkPreCommitAndCommit node repo a tsk r1 = Ret r2" "invar r2" "moved (tracked node tsk) (view r1) (view r2)"
    using check_moved [OF 1(2)] by blast
  obtain r3 where 3: "scanAddrs node repo tsk addrs r2 = Ret r3" "invar r3" "moved (tracked node tsk) (view r2) (view r3)"
    using Cons.IH [OF 2(2)] by blast
  have "moved (tracked node tsk) (view r) (view r3)" using moved_trans [OF moved_trans [OF 1(3) 2(3)] 3(3)] .
  then show ?case using 1(1) 2(1) 3(1,2) by simp
qed simp

end

section \<open>What a scan does\<close>

text \<open>Property C14. A scan over a lawful repository never panics. It neither adds nor removes deals, and takes every stored
  deal through a sequence of moves that the chain justifies: to active when the deal is in a sector, from awaiting
  precommit to sealing when it is in the precommitted sector, and from active to slashed when it was slashed; nothing but
  the two states of a deal changes.\<close>

theorem scanDeal_moves:
  assumes "deal_status_repo repo view invar" "invar r"
  shows "\<exists>r'. scanDeal node repo r = Ret r' \<and> invar r' \<and>
    (\<forall>c. rel_option (tracked node (case headKey node of Inl _ \<Rightarrow> nilKey node | Inr k \<Rightarrow> k))\<^sup>*\<^sup>* (view r c) (view r' c)) \<and>
    (\<forall>c. map_option (withStatus StorageDealActive Proving) (view r' c) = map_option (withStatus StorageDealActive Proving) (view r c))"
proof -
  let ?tsk = "case headKey node of Inl _ \<Rightarrow> nilKey node | Inr k \<Rightarrow> k"
  obtain r' where r: "scanDeal node repo r = Ret r'" "invar r'" "moved (tracked node ?tsk) (view r) (view r')"
    using deal_status_repo.scanAddrs_moved [OF assms] unfolding scanDeal_def by blast
  have keep: "withStatus StorageDealActive Proving d' = withStatus StorageDealActive Proving d" if "tracked node ?tsk d d'" for d d'
    using that by cases (simp_all add: withStatus_def Proving_def)
  have "withStatus StorageDealActive Proving d' = withStatus StorageDealActive Proving d" if "(tracked node ?tsk)\<^sup>*\<^sup>* d d'" for d d'
    using that by induction (auto dest: keep)
  then have "map_option (withStatus StorageDealActive Proving) (view r' c) = map_option (withStatus StorageDealActive Proving) (view r c)" for c
    using r(3) unfolding moved_def option.rel_sel by (cases "view r c"; cases "view r' c") (force simp: option.rel_sel)+
  then show ?thesis using r unfolding moved_def by blast
qed

definition demo_track :: trackNode where
  "demo_track = \<lparr>ActorAddress = Inr [''miner''], headKey = Inr ''head'', nilKey = [],
     StateMarketStorageDeal = (\<lambda>i _. Inr \<lparr>SectorStartEpoch = (if i = 7 then 100 else -1), stSlashEpoch = -1\<rparr>),
     StateSectorPreCommitInfo = (\<lambda>_ _ _. Inr [8])\<rparr>"

definition demo_tracked :: "(ds_key \<times> MinerDeal) list" where
  "demo_tracked = [([''p1''], (demo_md ''p1'' 7 128)\<lparr>mdState := StorageDealAwaitingPreCommit\<rparr>),
     ([''p2''], (demo_md ''p2'' 8 512)\<lparr>mdState := StorageDealAwaitingPreCommit\<rparr>)]"

theorem scanDeal_moves_witness:
  "\<exists>r'. scanDeal demo_track (NewStorageDealRepo id map_deal_store) demo_tracked = Ret r' \<and> deal_invar map_of map_deal_store r' \<and>
     map (mdState \<circ> snd) r' = [StorageDealActive, StorageDealSealing]"
proof -
  have i: "deal_invar map_of map_deal_store demo_tracked"
    by (auto simp: deal_invar_def demo_tracked_def demo_md_def split: if_splits)
  obtain r' where r: "scanDeal demo_track (NewStorageDealRepo id map_deal_store) demo_tracked = Ret r'" "deal_invar map_of map_deal_store r'"
    using scanDeal_moves [OF mapdeals.status.deal_status_repo_axioms i, where node = demo_track] by blast
  have "(case scanDeal demo_track (NewStorageDealRepo id map_deal_store) demo_tracked of
      Ret r' \<Rightarrow> map (mdState \<circ> snd) r' = [StorageDealActive, StorageDealSealing] | Panic _ \<Rightarrow> False) = True" by code_simp
  then show ?thesis using r by auto
qed

end
