(* ===== verification/State_Store.thy ===== *)
theory State_Store
  imports Badger_Travel
begin

text \<open>
  The state store \<open>src/models/badger/statestore\<close> (values under keys, changed in place by a mutator) and the repository
  of CID infos on top of it (\<open>src/models/badger/cid_info.go\<close>). The datastore and the codec are parameters with their
  laws; \<open>Has\<close> of the datastore is a further operation with its law in the locale \<open>datastore_has\<close>.
\<close>

section \<open>The store\<close>

record ('s, 'v, 'a) StateStore =
  ssDs :: "('s, 'v) datastore_ops"
  dsHas :: "'s \<Rightarrow> ds_key \<Rightarrow> bool res"
  ssCodec :: "('a, 'v) codec_ops"
  NewKey :: "string \<Rightarrow> ds_key"
  dsClose :: "'s \<Rightarrow> error option"

text \<open>Keys are stringers (the CIDs of the repository below).\<close>

definition ToKey :: "('s, 'v, 'a) StateStore \<Rightarrow> string \<Rightarrow> ds_key" where
  "ToKey st k = NewKey st k"

definition Save :: "('s, 'v, 'a) StateStore \<Rightarrow> 's \<Rightarrow> string \<Rightarrow> 'a \<Rightarrow> 's \<times> error option" where
  "Save st s i state =
     (case Dump (ssCodec st) state of
        Inl e \<Rightarrow> (s, Some e)
      | Inr b \<Rightarrow> dsPut (ssDs st) s (ToKey st i) b)"

definition Has :: "('s, 'v, 'a) StateStore \<Rightarrow> 's \<Rightarrow> string \<Rightarrow> bool res" where
  "Has st s i = dsHas st s (ToKey st i)"

text \<open>A stored state is its key; \<open>End\<close> clears the handle.\<close>

definition Get :: "('s, 'v, 'a) StateStore \<Rightarrow> string \<Rightarrow> ds_key" where
  "Get st i = ToKey st i"

definition storedGet :: "('s, 'v, 'a) StateStore \<Rightarrow> 's \<Rightarrow> ds_key \<Rightarrow> 'a res" where
  "storedGet st s name =
     (case dsGet (ssDs st) s name of
        Inl e \<Rightarrow> if errors_Is e ErrNotFound then Inl (ErrWrap ''no state'' e) else Inl e
      | Inr val \<Rightarrow> Load (ssCodec st) val)"

definition End :: "('s, 'v, 'a) StateStore \<Rightarrow> 's \<Rightarrow> ds_key \<Rightarrow> 's \<times> ds_key option \<times> error option" where
  "End st s name =
     (case dsHas st s name of
        Inl e \<Rightarrow> (s, Some name, Some e)
      | Inr False \<Rightarrow> (s, Some name, Some (ErrMsg ''no state''))
      | Inr True \<Rightarrow>
          (case dsDelete (ssDs st) s name of
             (s', Some e) \<Rightarrow> (s', Some name, Some (ErrWrap ''removing state from datastore'' e))
           | (s', None) \<Rightarrow> (s', None, None)))"

definition cborMutator :: "('a, 'v) codec_ops \<Rightarrow> ('a \<Rightarrow> 'a \<times> error option) \<Rightarrow> 'v \<Rightarrow> 'v res" where
  "cborMutator cd mutator inp =
     (case Load cd inp of
        Inl e \<Rightarrow> Inl e
      | Inr state \<Rightarrow>
          (case mutator state of
             (_, Some e) \<Rightarrow> Inl e
           | (state', None) \<Rightarrow> Dump cd state'))"

definition mutate :: "('s, 'v, 'a) StateStore \<Rightarrow> 's \<Rightarrow> ds_key \<Rightarrow> ('v \<Rightarrow> 'v res) \<Rightarrow> 's \<times> error option" where
  "mutate st s name mutator =
     (case dsHas st s name of
        Inl e \<Rightarrow> (s, Some e)
      | Inr False \<Rightarrow> (s, Some (ErrMsg ''no state''))
      | Inr True \<Rightarrow>
          (case dsGet (ssDs st) s name of
             Inl e \<Rightarrow> (s, Some e)
           | Inr cur \<Rightarrow>
               (case mutator cur of
                  Inl e \<Rightarrow> (s, Some e)
                | Inr mutated \<Rightarrow> if mutated = cur then (s, None) else dsPut (ssDs st) s name mutated)))"

definition Mutate :: "('s, 'v, 'a) StateStore \<Rightarrow> 's \<Rightarrow> ds_key \<Rightarrow> ('a \<Rightarrow> 'a \<times> error option) \<Rightarrow> 's \<times> error option" where
  "Mutate st s name mutator = mutate st s name (cborMutator (ssCodec st) mutator)"

text \<open>The loop of \<open>List\<close>: the values collected and the variable \<open>err\<close>, which the next decoded value overwrites. The
  deferred function then overwrites \<open>err\<close> with the result of closing the query.\<close>

fun listLoop :: "('a, 'v) codec_ops \<Rightarrow> 'a list \<Rightarrow> error option \<Rightarrow> ('v res) list \<Rightarrow> 'a list \<times> error option" where
  "listLoop cd out err [] = (out, err)"
| "listLoop cd out err (Inl e # rs) = (out, Some e)"
| "listLoop cd out err (Inr v # rs) =
     (case Load cd v of
        Inl e \<Rightarrow> listLoop cd out (Some (ErrWrap ''decoding state'' e)) rs
      | Inr x \<Rightarrow> listLoop cd (out @ [x]) None rs)"

definition List :: "('s, 'v, 'a) StateStore \<Rightarrow> 's \<Rightarrow> 'a list \<times> error option" where
  "List st s =
     (case dsQuery (ssDs st) s [] of
        Inl e \<Rightarrow> ([], Some e)
      | Inr rs \<Rightarrow> (case listLoop (ssCodec st) [] None rs of (out, err) \<Rightarrow> (out, dsClose st s)))"

section \<open>CID infos\<close>

record BlockLocation =
  RelOffset :: u64
  BlockSize :: u64

record PieceBlockLocation =
  pblLocation :: BlockLocation
  pblPieceCID :: cid

record CIDInfo =
  CID :: cid
  PieceBlockLocations :: "PieceBlockLocation list"

type_synonym ('s, 'v) cidInfos = "('s, 'v, CIDInfo) StateStore"

definition ensureCIDInfo :: "('s, 'v) cidInfos \<Rightarrow> 's \<Rightarrow> cid \<Rightarrow> 's \<times> error option" where
  "ensureCIDInfo st s c =
     (case Has st s c of
        Inl e \<Rightarrow> (s, Some e)
      | Inr True \<Rightarrow> (s, None)
      | Inr False \<Rightarrow> Save st s c \<lparr>CID = c, PieceBlockLocations = []\<rparr>)"

definition mutateCIDInfo :: "('s, 'v) cidInfos \<Rightarrow> 's \<Rightarrow> cid \<Rightarrow> (CIDInfo \<Rightarrow> CIDInfo \<times> error option) \<Rightarrow> 's \<times> error option" where
  "mutateCIDInfo st s c mutator =
     (case ensureCIDInfo st s c of
        (s', Some e) \<Rightarrow> (s', Some e)
      | (s', None) \<Rightarrow> Mutate st s' (Get st c) mutator)"

definition addLocation :: "cid \<Rightarrow> BlockLocation \<Rightarrow> CIDInfo \<Rightarrow> CIDInfo \<times> error option" where
  "addLocation pieceCID blockLocation ci =
     (if list_ex (\<lambda>pbl. pblPieceCID pbl = pieceCID \<and> pblLocation pbl = blockLocation) (PieceBlockLocations ci) then (ci, None)
      else (ci\<lparr>PieceBlockLocations := PieceBlockLocations ci @ [\<lparr>pblLocation = blockLocation, pblPieceCID = pieceCID\<rparr>]\<rparr>, None))"

text \<open>The entries of the Go map \<open>blockLocations\<close> come in the order the runtime picks.\<close>

fun AddPieceBlockLocations :: "('s, 'v) cidInfos \<Rightarrow> 's \<Rightarrow> cid \<Rightarrow> (cid \<times> BlockLocation) list \<Rightarrow> 's \<times> error option" where
  "AddPieceBlockLocations st s pieceCID [] = (s, None)"
| "AddPieceBlockLocations st s pieceCID ((c, blockLocation) # rest) =
     (case mutateCIDInfo st s c (addLocation pieceCID blockLocation) of
        (s', Some e) \<Rightarrow> (s', Some e)
      | (s', None) \<Rightarrow> AddPieceBlockLocations st s' pieceCID rest)"

definition ListCidInfoKeys :: "('s, 'v) cidInfos \<Rightarrow> 's \<Rightarrow> cid list res" where
  "ListCidInfoKeys st s = (case List st s of (cis, Some e) \<Rightarrow> Inl e | (cis, None) \<Rightarrow> Inr (map CID cis))"

definition GetCIDInfo :: "('s, 'v) cidInfos \<Rightarrow> 's \<Rightarrow> cid \<Rightarrow> CIDInfo res" where
  "GetCIDInfo st s payloadCID = storedGet st s (Get st payloadCID)"

section \<open>Laws\<close>

locale datastore_has = datastore ds contents
  for ds :: "('s, 'v) datastore_ops" and contents :: "'s \<Rightarrow> ds_key \<Rightarrow> 'v option" +
  fixes has :: "'s \<Rightarrow> ds_key \<Rightarrow> bool res"
  assumes has_iff: "has s k = Inr b \<Longrightarrow> b \<longleftrightarrow> contents s k \<noteq> None"

text \<open>The state stored under a key.\<close>

definition state_view :: "('s \<Rightarrow> ds_key \<Rightarrow> 'v option) \<Rightarrow> ('s, 'v, 'a) StateStore \<Rightarrow> 's \<Rightarrow> string \<Rightarrow> 'a option" where
  "state_view contents st s i = (case contents s (NewKey st i) of
     None \<Rightarrow> None
   | Some b \<Rightarrow> (case Load (ssCodec st) b of Inl _ \<Rightarrow> None | Inr x \<Rightarrow> Some x))"

locale state_store = datastore_has "ssDs st" contents "dsHas st" + codec "ssCodec st"
  for st :: "('s, 'v, 'a) StateStore" and contents :: "'s \<Rightarrow> ds_key \<Rightarrow> 'v option" +
  assumes key_inj: "NewKey st i = NewKey st j \<Longrightarrow> i = j"
begin

abbreviation view :: "'s \<Rightarrow> string \<Rightarrow> 'a option" where
  "view \<equiv> state_view contents st"

lemma Save_view: "Save st s i x = (s', None) \<Longrightarrow> view s' = (view s)(i \<mapsto> x)"
  by (auto simp: Save_def ToKey_def state_view_def fun_eq_iff dest!: put_ok load_dump key_inj split: sum.splits)

lemma Save_contents: "Save st s i x = (s', None) \<Longrightarrow> contents s' (NewKey st i) \<noteq> None"
  by (auto simp: Save_def ToKey_def dest!: put_ok split: sum.splits)

lemma storedGet_view: "storedGet st s (Get st i) = Inr x \<Longrightarrow> view s i = Some x"
  by (auto simp: storedGet_def Get_def ToKey_def state_view_def dest!: get_value split: sum.splits if_splits)

lemma Mutate_view:
  assumes "Mutate st s (Get st i) f = (s', None)"
  shows "\<exists>x y. view s i = Some x \<and> f x = (y, None) \<and> view s' = (view s)(i \<mapsto> y)"
proof -
  let ?k = "NewKey st i"
  from assms obtain cur mutated where g: "dsGet (ssDs st) s ?k = Inr cur" and m: "cborMutator (ssCodec st) f cur = Inr mutated"
    and p: "mutated = cur \<and> s' = s \<or> dsPut (ssDs st) s ?k mutated = (s', None)"
    by (auto simp: Mutate_def mutate_def Get_def ToKey_def split: sum.splits bool.splits if_splits)
  from m obtain x y where x: "Load (ssCodec st) cur = Inr x" "f x = (y, None)" "Dump (ssCodec st) y = Inr mutated"
    by (auto simp: cborMutator_def split: sum.splits prod.splits option.splits)
  have c: "contents s ?k = Some cur" using get_value [OF g] .
  have y: "Load (ssCodec st) mutated = Inr y" using load_dump [OF x(3)] .
  have "contents s' = (contents s)(?k \<mapsto> mutated)" using p put_ok c by auto
  then have "view s' = (view s)(i \<mapsto> y)" using y key_inj by (auto simp: state_view_def fun_eq_iff)
  moreover have "view s i = Some x" using c x(1) by (simp add: state_view_def)
  ultimately show ?thesis using x(2) by blast
qed

end

section \<open>What the repository of CID infos stores\<close>

text \<open>The info of a CID, fresh if there is none, with a location added.\<close>

definition infoOf :: "cid \<Rightarrow> CIDInfo option \<Rightarrow> CIDInfo" where
  "infoOf c x = (case x of None \<Rightarrow> \<lparr>CID = c, PieceBlockLocations = []\<rparr> | Some ci \<Rightarrow> ci)"

definition located :: "cid \<Rightarrow> BlockLocation \<Rightarrow> CIDInfo \<Rightarrow> CIDInfo" where
  "located p loc ci = ci\<lparr>PieceBlockLocations := PieceBlockLocations ci @
     (if \<lparr>pblLocation = loc, pblPieceCID = p\<rparr> \<in> set (PieceBlockLocations ci) then [] else [\<lparr>pblLocation = loc, pblPieceCID = p\<rparr>])\<rparr>"

lemma addLocation_located: "addLocation p loc ci = (located p loc ci, None)"
proof -
  have "(pblPieceCID pbl = p \<and> pblLocation pbl = loc) \<longleftrightarrow> pbl = \<lparr>pblLocation = loc, pblPieceCID = p\<rparr>" for pbl
    by (cases pbl) auto
  then have "list_ex (\<lambda>pbl. pblPieceCID pbl = p \<and> pblLocation pbl = loc) (PieceBlockLocations ci) \<longleftrightarrow>
      \<lparr>pblLocation = loc, pblPieceCID = p\<rparr> \<in> set (PieceBlockLocations ci)"
    unfolding list_ex_iff by metis
  then show ?thesis by (simp add: addLocation_def located_def)
qed

lemma located_has: "\<lparr>pblLocation = loc, pblPieceCID = p\<rparr> \<in> set (PieceBlockLocations (located p loc ci))"
  by (simp add: located_def)

locale cid_info_repo = state_store st contents
  for st :: "('s, 'v, CIDInfo) StateStore" and contents
begin

lemma mutateCIDInfo_view:
  assumes "mutateCIDInfo st s c (addLocation p loc) = (s', None)"
  shows "view s' = (view s)(c \<mapsto> located p loc (infoOf c (view s c)))"
proof -
  obtain s1 where e: "ensureCIDInfo st s c = (s1, None)" and m: "Mutate st s1 (Get st c) (addLocation p loc) = (s', None)"
    using assms by (auto simp: mutateCIDInfo_def split: prod.splits option.splits)
  obtain x where x: "view s1 c = Some x" "view s' = (view s1)(c \<mapsto> located p loc x)"
    using Mutate_view [OF m] by (auto simp: addLocation_located)
  obtain b where b: "dsHas st s (NewKey st c) = Inr b" "if b then s1 = s else Save st s c \<lparr>CID = c, PieceBlockLocations = []\<rparr> = (s1, None)"
    using e by (auto simp: ensureCIDInfo_def Has_def ToKey_def split: sum.splits bool.splits)
  show ?thesis
  proof (cases b)
    case True
    then show ?thesis using b x by (simp add: infoOf_def)
  next
    case False
    then have "contents s (NewKey st c) = None" using has_iff [OF b(1)] by simp
    then have "view s c = None" by (simp add: state_view_def)
    moreover have "view s1 = (view s)(c \<mapsto> \<lparr>CID = c, PieceBlockLocations = []\<rparr>)" using b False Save_view by simp
    ultimately show ?thesis using x by (simp add: infoOf_def)
  qed
qed

lemma AddPieceBlockLocations_view:
  assumes "AddPieceBlockLocations st s p locs = (s', None)" "distinct (map fst locs)"
  shows "view s' c = (case map_of locs c of None \<Rightarrow> view s c | Some loc \<Rightarrow> Some (located p loc (infoOf c (view s c))))"
  using assms
proof (induction locs arbitrary: s)
  case (Cons a rest)
  obtain c' loc where a: "a = (c', loc)" by (cases a)
  obtain s1 where m: "mutateCIDInfo st s c' (addLocation p loc) = (s1, None)" and r: "AddPieceBlockLocations st s1 p rest = (s', None)"
    using Cons.prems(1) a by (auto split: prod.splits option.splits)
  have v: "view s1 = (view s)(c' \<mapsto> located p loc (infoOf c' (view s c')))" using mutateCIDInfo_view [OF m] .
  have "map_of rest c' = None" using Cons.prems(2) a by (simp add: map_of_eq_None_iff)
  then show ?case using Cons.IH [OF r] Cons.prems(2) v a by (auto split: option.splits)
qed simp

end

text \<open>After the locations of the blocks of a piece were added, reading the info of a CID gives what was
  stored before with the location of its block in the piece added once; the infos of other CIDs are the ones before.
  The order in which the runtime walks the map of locations does not matter.\<close>

theorem AddPieceBlockLocations_roundtrip:
  assumes "cid_info_repo st contents" "distinct (map fst locs)"
    and "AddPieceBlockLocations st s p locs = (s', None)" "GetCIDInfo st s' c = Inr ci"
  shows "case map_of locs c of
      None \<Rightarrow> state_view contents st s c = Some ci
    | Some loc \<Rightarrow> ci = located p loc (infoOf c (state_view contents st s c)) \<and>
        \<lparr>pblLocation = loc, pblPieceCID = p\<rparr> \<in> set (PieceBlockLocations ci)"
  using cid_info_repo.AddPieceBlockLocations_view [OF assms(1,3,2), of c]
    state_store.storedGet_view [OF cid_info_repo.axioms(1) [OF assms(1)] assms(4) [unfolded GetCIDInfo_def]]
  by (auto simp: located_has split: option.splits)

section \<open>The in-memory store\<close>

definition map_state_store :: "((ds_key \<times> 'a) list, 'a, 'a) StateStore" where
  "map_state_store = \<lparr>ssDs = map_datastore, dsHas = (\<lambda>s k. Inr (map_of s k \<noteq> None)), ssCodec = id_codec,
     NewKey = (\<lambda>i. [i]), dsClose = (\<lambda>_. None)\<rparr>"

lemma map_state_store_simps [simp]:
  "ssDs map_state_store = map_datastore" "dsHas map_state_store s k = Inr (map_of s k \<noteq> None)"
  "ssCodec map_state_store = id_codec" "NewKey map_state_store i = [i]" "dsClose map_state_store s = None"
  by (simp_all add: map_state_store_def)

interpretation mapstates: cid_info_repo map_state_store map_of
  by unfold_locales (simp_all del: map_datastore_simps add: mapds.get_value mapds.get_missing mapds.put_ok mapds.put_failed
      mapds.delete_ok mapds.delete_failed mapds.query_lists)

definition demo_locs :: "(cid \<times> BlockLocation) list" where
  "demo_locs = [(''b1'', \<lparr>RelOffset = 0, BlockSize = 10\<rparr>), (''b2'', \<lparr>RelOffset = 10, BlockSize = 20\<rparr>)]"

theorem AddPieceBlockLocations_roundtrip_witness:
  "GetCIDInfo map_state_store (fst (AddPieceBlockLocations map_state_store [] ''piece'' demo_locs)) ''b2'' =
     Inr (located ''piece'' \<lparr>RelOffset = 10, BlockSize = 20\<rparr> (infoOf ''b2'' None))"
proof -
  obtain s' ci where s: "AddPieceBlockLocations map_state_store [] ''piece'' demo_locs = (s', None)"
    and g: "GetCIDInfo map_state_store s' ''b2'' = Inr ci"
  proof -
    have "(case AddPieceBlockLocations map_state_store [] ''piece'' demo_locs of
        (s', e) \<Rightarrow> e = None \<and> (case GetCIDInfo map_state_store s' ''b2'' of Inr _ \<Rightarrow> True | Inl _ \<Rightarrow> False)) = True" by code_simp
    then show thesis using that by (auto split: prod.splits sum.splits)
  qed
  have d: "distinct (map fst demo_locs)" by (simp add: demo_locs_def)
  have m: "map_of demo_locs ''b2'' = Some \<lparr>RelOffset = 10, BlockSize = 20\<rparr>" by (simp add: demo_locs_def)
  have "state_view map_of map_state_store ([] :: (ds_key \<times> CIDInfo) list) ''b2'' = None" by (simp add: state_view_def)
  then have "ci = located ''piece'' \<lparr>RelOffset = 10, BlockSize = 20\<rparr> (infoOf ''b2'' None)"
    using AddPieceBlockLocations_roundtrip [OF mapstates.cid_info_repo_axioms d s g] m by simp
  then show ?thesis using s g by simp
qed

section \<open>Listing\<close>

text \<open>\<open>List\<close> returns the values that decode before the first entry that carries an error; the error it reports is that of
  closing the query, whatever failed before.\<close>

lemma listLoop_values:
  "fst (listLoop cd out err rs) = out @ concat (map (\<lambda>r. case r of Inr v \<Rightarrow> (case Load cd v of Inr x \<Rightarrow> [x] | Inl _ \<Rightarrow> []) | Inl _ \<Rightarrow> [])
     (takeWhile (\<lambda>r. \<not> isl r) rs))"
  by (induction cd out err rs rule: listLoop.induct) (auto split: sum.splits)

theorem List_hides_errors:
  assumes "dsQuery (ssDs st) s [] = Inr rs"
  shows "List st s = (concat (map (\<lambda>r. case r of Inr v \<Rightarrow> (case Load (ssCodec st) v of Inr x \<Rightarrow> [x] | Inl _ \<Rightarrow> []) | Inl _ \<Rightarrow> [])
     (takeWhile (\<lambda>r. \<not> isl r) rs)), dsClose st s)"
  using assms listLoop_values [of "ssCodec st" "[]" None rs] by (auto simp: List_def split: prod.splits)

end
