(* ===== verification/Retrieval_Repo.thy ===== *)
theory Retrieval_Repo
  imports Keyed_Store
begin

text \<open>
  Retrieval deals and asks: the data (\<open>types.ProviderDealState\<close>, \<open>types.RetrievalAsk\<close> with the fields the code reads or
  writes), the interface \<open>IRetrievalDealRepo\<close> with its laws, and the badger repositories
  (\<open>src/models/badger/retrieval_deal.go\<close>, \<open>src/models/badger/retrieval_ask.go\<close>). A \<open>FundsReceived\<close> that was never set
  is encoded as zero, so it is an integer. Names that storage deals use carry the prefix \<open>rd\<close>.
\<close>

section \<open>Data\<close>

datatype DealStatus =
    DealStatusNew | DealStatusUnsealing | DealStatusUnsealed | DealStatusFundsNeededUnseal | DealStatusAccepted
  | DealStatusOngoing | DealStatusFundsNeeded | DealStatusFundsNeededLastPayment | DealStatusBlocksComplete
  | DealStatusFinalizing | DealStatusCompleted | DealStatusErrored | DealStatusRejected | DealStatusDealNotFound
  | DealStatusFailing | DealStatusCancelling | DealStatusCancelled | DealStatusOther nat

record RetrievalProposal =
  PayloadCID :: cid
  rdID :: u64
  rdPieceCID :: "cid option"
  Selector :: "bytes option"
  PricePerByte :: int
  PaymentInterval :: u64
  PaymentIntervalIncrease :: u64
  UnsealPrice :: int

record ProviderDealState =
  rdProposal :: RetrievalProposal
  SelStorageProposalCid :: cid
  rdChannelID :: "ChannelID option"
  rdStatus :: DealStatus
  Receiver :: string
  TotalSent :: u64
  FundsReceived :: int
  rdMessage :: string
  CurrentInterval :: u64
  LegacyProtocol :: bool

type_synonym dealIdentifier = "string \<times> u64"

definition Identifier :: "ProviderDealState \<Rightarrow> dealIdentifier" where
  "Identifier deal = (Receiver deal, rdID (rdProposal deal))"

record RetrievalAsk =
  raMiner :: address
  raPricePerByte :: int
  raUnsealPrice :: "int option"
  raPaymentInterval :: u64
  raPaymentIntervalIncrease :: u64

section \<open>The interface\<close>

record 'r RetrievalDealRepo =
  rrSaveDeal :: "'r \<Rightarrow> ProviderDealState \<Rightarrow> 'r \<times> error option"
  rrGetDeal :: "'r \<Rightarrow> string \<Rightarrow> u64 \<Rightarrow> ProviderDealState res"
  rrGetDealByTransferId :: "'r \<Rightarrow> ChannelID \<Rightarrow> ProviderDealState res outcome"
  rrHasDeal :: "'r \<Rightarrow> string \<Rightarrow> u64 \<Rightarrow> bool res"
  rrListDeals :: "'r \<Rightarrow> int \<Rightarrow> int \<Rightarrow> ProviderDealState list res"

locale retrieval_deal_repo =
  fixes repo :: "'r RetrievalDealRepo" and view :: "'r \<Rightarrow> dealIdentifier \<Rightarrow> ProviderDealState option" and invar :: "'r \<Rightarrow> bool"
  assumes save_ok: "rrSaveDeal repo r d = (r', None) \<Longrightarrow> view r' = (view r)(Identifier d \<mapsto> d)"
    and save_failed: "rrSaveDeal repo r d = (r', Some e) \<Longrightarrow> view r' = view r"
    and save_invar: "invar r \<Longrightarrow> rrSaveDeal repo r d = (r', err) \<Longrightarrow> invar r'"
    and get_sound: "invar r \<Longrightarrow> rrGetDeal repo r p i = Inr d \<Longrightarrow> view r (p, i) = Some d"
    and view_key: "invar r \<Longrightarrow> view r k = Some d \<Longrightarrow> Identifier d = k"
    and by_transfer_returns: "\<exists>x. rrGetDealByTransferId repo r ch = Ret x"
    and by_transfer_sound: "invar r \<Longrightarrow> rrGetDealByTransferId repo r ch = Ret (Inr d) \<Longrightarrow>
      view r (Identifier d) = Some d \<and> rdChannelID d = Some ch"

section \<open>The badger repository of deals\<close>

record ('s, 'v) retrievalDealRepo =
  rdDs :: "('s, 'v) datastore_ops"
  rdHas :: "'s \<Rightarrow> ds_key \<Rightarrow> bool res"
  rdCodec :: "(ProviderDealState, 'v) codec_ops"
  rdKey :: "dealIdentifier \<Rightarrow> ds_key"

definition SaveDeal :: "('s, 'v) retrievalDealRepo \<Rightarrow> 's \<Rightarrow> ProviderDealState \<Rightarrow> 's \<times> error option" where
  "SaveDeal r s deal =
     (case Dump (rdCodec r) deal of
        Inl e \<Rightarrow> (s, Some e)
      | Inr b \<Rightarrow> dsPut (rdDs r) s (rdKey r (Identifier deal)) b)"

definition GetDeal :: "('s, 'v) retrievalDealRepo \<Rightarrow> 's \<Rightarrow> string \<Rightarrow> u64 \<Rightarrow> ProviderDealState res" where
  "GetDeal r s peer id2 = tryE (dsGet (rdDs r) s (rdKey r (peer, id2))) (\<lambda>value. tryE (Load (rdCodec r) value) Inr)"

definition GetDealByTransferId :: "('s, 'v) retrievalDealRepo \<Rightarrow> 's \<Rightarrow> ChannelID \<Rightarrow> ProviderDealState res outcome" where
  "GetDealByTransferId r s chid =
     afterTravel (travelDeals (rdDs r) (rdCodec r) s
       (\<lambda>deal result.
          if (case rdChannelID deal of
                None \<Rightarrow> False
              | Some c \<Rightarrow> Initiator c = Initiator chid \<and> Responder c = Responder chid \<and> chanID c = chanID chid)
          then (Some deal, True, None) else (result, False, None)) None)
     (\<lambda>result. case result of None \<Rightarrow> Inl ErrNotFound | Some d \<Rightarrow> Inr d)"

definition HasDeal :: "('s, 'v) retrievalDealRepo \<Rightarrow> 's \<Rightarrow> string \<Rightarrow> u64 \<Rightarrow> bool res" where
  "HasDeal r s peer id2 = rdHas r s (rdKey r (peer, id2))"

text \<open>An entry that carries an error ends the listing with the error of the query call, which is nil, and no deals. The
  page arguments are not used.\<close>

fun listDealsLoop :: "(ProviderDealState, 'v) codec_ops \<Rightarrow> ProviderDealState list \<Rightarrow> ('v res) list \<Rightarrow> ProviderDealState list res" where
  "listDealsLoop cd acc [] = Inr acc"
| "listDealsLoop cd acc (Inl e # rs) = Inr []"
| "listDealsLoop cd acc (Inr v # rs) =
     (case Load cd v of
        Inl e \<Rightarrow> Inl e
      | Inr deal \<Rightarrow> listDealsLoop cd (acc @ [deal]) rs)"

definition ListDeals :: "('s, 'v) retrievalDealRepo \<Rightarrow> 's \<Rightarrow> int \<Rightarrow> int \<Rightarrow> ProviderDealState list res" where
  "ListDeals r s pageIndex pageSize = tryE (dsQuery (rdDs r) s []) (listDealsLoop (rdCodec r) [])"

definition NewRetrievalDealRepo :: "('s, 'v) retrievalDealRepo \<Rightarrow> 's RetrievalDealRepo" where
  "NewRetrievalDealRepo r = \<lparr>rrSaveDeal = SaveDeal r, rrGetDeal = GetDeal r, rrGetDealByTransferId = GetDealByTransferId r,
     rrHasDeal = HasDeal r, rrListDeals = ListDeals r\<rparr>"

lemma NewRetrievalDealRepo_sel [simp]:
  "rrSaveDeal (NewRetrievalDealRepo r) = SaveDeal r" "rrGetDeal (NewRetrievalDealRepo r) = GetDeal r"
  "rrGetDealByTransferId (NewRetrievalDealRepo r) = GetDealByTransferId r" "rrHasDeal (NewRetrievalDealRepo r) = HasDeal r"
  "rrListDeals (NewRetrievalDealRepo r) = ListDeals r"
  by (simp_all add: NewRetrievalDealRepo_def)

section \<open>The badger repository of asks\<close>

record ('s, 'v) retrievalAskRepo =
  raDs :: "('s, 'v) datastore_ops"
  raHas :: "'s \<Rightarrow> ds_key \<Rightarrow> bool res"
  raCodec :: "(RetrievalAsk, 'v) codec_ops"
  dskeyForAddr :: "address \<Rightarrow> ds_key"

definition HasAsk :: "('s, 'v) retrievalAskRepo \<Rightarrow> 's \<Rightarrow> address \<Rightarrow> bool res" where
  "HasAsk r s addr = raHas r s (dskeyForAddr r addr)"

definition GetAsk :: "('s, 'v) retrievalAskRepo \<Rightarrow> 's \<Rightarrow> address \<Rightarrow> RetrievalAsk res" where
  "GetAsk r s addr = tryE (dsGet (raDs r) s (dskeyForAddr r addr)) (\<lambda>data. tryE (Load (raCodec r) data) Inr)"

definition SetAsk :: "('s, 'v) retrievalAskRepo \<Rightarrow> 's \<Rightarrow> RetrievalAsk \<Rightarrow> 's \<times> error option" where
  "SetAsk r s ask =
     (case Dump (raCodec r) ask of
        Inl e \<Rightarrow> (s, Some e)
      | Inr data \<Rightarrow> dsPut (raDs r) s (dskeyForAddr r (raMiner ask)) data)"

definition ListAsk :: "('s, 'v) retrievalAskRepo \<Rightarrow> 's \<Rightarrow> RetrievalAsk list res outcome" where
  "ListAsk r s = afterTravel (travelDeals (raDs r) (raCodec r) s (collectIf (\<lambda>_. True)) []) Inr"

section \<open>The repositories satisfy their laws\<close>

lemma GetDealByTransferId_first:
  "GetDealByTransferId r s ch =
     afterTravel (travelDeals (rdDs r) (rdCodec r) s (\<lambda>d a. if rdChannelID d = Some ch then (Some d, True, None) else (a, False, None)) None)
     (\<lambda>result. case result of None \<Rightarrow> Inl ErrNotFound | Some d \<Rightarrow> Inr d)"
proof -
  have "(Initiator c = Initiator ch \<and> Responder c = Responder ch \<and> chanID c = chanID ch) = (c = ch)" for c :: ChannelID
    by (cases c; cases ch) auto
  then have "(case rdChannelID d of None \<Rightarrow> False
      | Some c \<Rightarrow> Initiator c = Initiator ch \<and> Responder c = Responder ch \<and> chanID c = chanID ch) = (rdChannelID d = Some ch)" for d :: ProviderDealState
    by (cases "rdChannelID d") simp_all
  then show ?thesis by (simp only: GetDealByTransferId_def)
qed

locale badger_retrieval_deals = keyed_store "rdDs r" contents "rdCodec r" "rdKey r" Identifier
  for r :: "('s, 'v) retrievalDealRepo" and contents :: "'s \<Rightarrow> ds_key \<Rightarrow> 'v option"
begin

lemma transfer_result:
  assumes "GetDealByTransferId r s ch = Ret (Inr d)"
  shows "\<exists>rs. dsQuery (rdDs r) s [] = Inr rs \<and> d \<in> set (fst (seen (rdCodec r) rs)) \<and> rdChannelID d = Some ch"
  using assms
  by (auto simp: GetDealByTransferId_first afterTravel_def travelDeals_def travelLoop_first find_Some_iff
      split: sum.splits option.splits)

end

sublocale badger_retrieval_deals \<subseteq> retrieval_deal_repo "NewRetrievalDealRepo r" "value_view contents (rdCodec r) (rdKey r)"
  "value_invar contents (rdCodec r) (rdKey r) Identifier"
proof unfold_locales
  fix s d s' e
  assume "rrSaveDeal (NewRetrievalDealRepo r) s d = (s', None)"
  then show "value_view contents (rdCodec r) (rdKey r) s' = (value_view contents (rdCodec r) (rdKey r) s)(Identifier d \<mapsto> d)"
    using put_view by (auto simp: SaveDeal_def split: sum.splits)
next
  fix s d s' e
  assume "rrSaveDeal (NewRetrievalDealRepo r) s d = (s', Some e)"
  then show "value_view contents (rdCodec r) (rdKey r) s' = value_view contents (rdCodec r) (rdKey r) s"
    using put_fails_view by (fastforce simp: SaveDeal_def split: sum.splits)
next
  fix s d s' err
  assume "value_invar contents (rdCodec r) (rdKey r) Identifier s" "rrSaveDeal (NewRetrievalDealRepo r) s d = (s', err)"
  then show "value_invar contents (rdCodec r) (rdKey r) Identifier s'"
    using put_invar by (auto simp: SaveDeal_def split: sum.splits)
next
  fix s p i d
  assume "rrGetDeal (NewRetrievalDealRepo r) s p i = Inr d"
  then show "value_view contents (rdCodec r) (rdKey r) s (p, i) = Some d"
    using get_view by (auto simp: GetDeal_def tryE_Inr_iff)
next
  fix s k d
  assume "value_invar contents (rdCodec r) (rdKey r) Identifier s" "value_view contents (rdCodec r) (rdKey r) s k = Some d"
  then show "Identifier d = k"
    using key_inj by (auto simp: value_invar_def value_view_def split: option.splits sum.splits)
next
  fix s ch
  show "\<exists>x. rrGetDealByTransferId (NewRetrievalDealRepo r) s ch = Ret x"
    by (auto simp: GetDealByTransferId_first afterTravel_def travelDeals_def travelLoop_first split: sum.splits option.splits)
next
  fix s ch d
  assume "value_invar contents (rdCodec r) (rdKey r) Identifier s" "rrGetDealByTransferId (NewRetrievalDealRepo r) s ch = Ret (Inr d)"
  then show "value_view contents (rdCodec r) (rdKey r) s (Identifier d) = Some d \<and> rdChannelID d = Some ch"
    using transfer_result seen_stored by fastforce
qed

section \<open>The in-memory repository\<close>

definition map_retrieval_deals :: "((ds_key \<times> ProviderDealState) list, ProviderDealState) retrievalDealRepo" where
  "map_retrieval_deals = \<lparr>rdDs = map_datastore, rdHas = (\<lambda>s k. Inr (map_of s k \<noteq> None)), rdCodec = id_codec,
     rdKey = (\<lambda>(p, i). [p, replicate (unat i) CHR ''x''])\<rparr>"

lemma map_retrieval_deals_simps [simp]:
  "rdDs map_retrieval_deals = map_datastore" "rdCodec map_retrieval_deals = id_codec"
  "rdHas map_retrieval_deals s n = Inr (map_of s n \<noteq> None)"
  "rdKey map_retrieval_deals k = [fst k, replicate (unat (snd k)) CHR ''x'']"
  by (simp_all add: map_retrieval_deals_def split: prod.splits)

interpretation mapretr: badger_retrieval_deals map_retrieval_deals map_of
  by unfold_locales (auto simp del: map_datastore_simps simp add: mapds.get_value mapds.get_missing mapds.put_ok mapds.put_failed
      mapds.delete_ok mapds.delete_failed mapds.query_lists prod_eq_iff replicate_eq_replicate word_unat_eq_iff)

end
