(* ===== verification/Retrieval_Handler.thy ===== *)
theory Retrieval_Handler
  imports Retrieval_Repo Storage_Deal_Repo Paych_Manager
begin

text \<open>
  The retrieval provider's deal handling: \<open>src/retrievalprovider/retrieval_handler.go\<close>, its environment
  (\<open>provider_environments.go\<close>) and the handlers of data transfer events (\<open>datatransfer_handler.go\<close>,
  \<open>provider_datatransfer_sub.go\<close>). The DAG store, the blockstore tracker, the data transfer module and the methods of
  \<open>types.ProviderDealState\<close> are the record \<open>retrievalEnv\<close>; the repositories and the payment channel manager are
  interfaces. The deal behind the pointer is passed and returned; \<open>rwLog\<close> lists the calls to the data transfer module
  and \<open>rwGo\<close> the deals for which a goroutine that unseals was started.
\<close>

section \<open>The outside\<close>

record DealPayment =
  dpID :: u64
  PaymentChannel :: address
  PaymentVoucher :: SignedVoucher

text \<open>The messages of the legacy protocol are opaque; the library migrates them.\<close>

datatype dtVoucher =
    VDealProposal RetrievalProposal
  | VDealProposal0 bytes
  | VDealPayment DealPayment
  | VDealPayment0 bytes
  | VOther

record retrievalEnv =
  rErrText :: "error \<Rightarrow> string"
  LoadShard :: "cid \<Rightarrow> error option"
  Track :: "u64 \<Rightarrow> error option"
  Untrack :: "u64 \<Rightarrow> error option"
  ResumeDataTransferChannel :: "ChannelID \<Rightarrow> error option"
  CloseDataTransferChannel :: "ChannelID \<Rightarrow> error option"
  IsCtxDone :: "error \<Rightarrow> bool"
  nextInterval :: "RetrievalProposal \<Rightarrow> u64 \<Rightarrow> u64"
  intervalLowerBound :: "RetrievalProposal \<Rightarrow> u64 \<Rightarrow> u64"
  TotalPaidFor :: "ProviderDealState \<Rightarrow> u64"
  MigrateDealPayment0To1 :: "bytes \<Rightarrow> DealPayment"
  MigrateDealProposal0To1 :: "bytes \<Rightarrow> RetrievalProposal"

datatype dtEffect = Resumed ChannelID | Closed ChannelID

record ('r, 'q, 'p) rworld =
  rwDeals :: 'r
  rwStorage :: 'q
  rwPaych :: 'p
  rwLog :: "dtEffect list"
  rwGo :: "ProviderDealState list"

text \<open>What the retrieval provider is made of: the environment, the two repositories and the payment channel manager's
  \<open>PaychVoucherAdd\<close> with no proof and the minimum 0.\<close>

record ('r, 'q, 'p) retrievalProvider =
  rpEnv :: retrievalEnv
  rpDeals :: "'r RetrievalDealRepo"
  rpStorage :: "'q StorageDealRepo"
  rpVoucherAdd :: "'p \<Rightarrow> address \<Rightarrow> SignedVoucher \<Rightarrow> ((int \<times> error option) \<times> 'p) outcome"

definition PaychVoucherAdd :: "paychAPI \<Rightarrow> 'r PaychRepo \<Rightarrow> 'r Manager \<Rightarrow> address \<Rightarrow> SignedVoucher \<Rightarrow> bytes \<Rightarrow> int \<Rightarrow>
    ((int \<times> error option) \<times> 'r Manager) outcome" where
  "PaychVoucherAdd api repo pm ch sv proof' minDelta = AddVoucherInbound api repo pm ch sv proof' minDelta"

definition saveRetrieval :: "('r, 'q, 'p) retrievalProvider \<Rightarrow> ProviderDealState \<Rightarrow> ('r, 'q, 'p) rworld \<Rightarrow> ('r, 'q, 'p) rworld \<times> error option" where
  "saveRetrieval p deal w = (case rrSaveDeal (rpDeals p) (rwDeals w) deal of (r, err) \<Rightarrow> (w\<lparr>rwDeals := r\<rparr>, err))"

section \<open>The deal environment\<close>

definition PrepareBlockstore :: "retrievalEnv \<Rightarrow> u64 \<Rightarrow> cid \<Rightarrow> error option" where
  "PrepareBlockstore env dealID pieceCid =
     (case LoadShard env pieceCid of
        Some e \<Rightarrow> Some (ErrWrap ''failed to load blockstore for piece'' e)
      | None \<Rightarrow> Track env dealID)"

definition ResumeDataTransfer :: "retrievalEnv \<Rightarrow> ChannelID \<Rightarrow> error option" where
  "ResumeDataTransfer env chid = ResumeDataTransferChannel env chid"

definition CloseDataTransfer :: "retrievalEnv \<Rightarrow> ChannelID \<Rightarrow> error option" where
  "CloseDataTransfer env chid =
     (case CloseDataTransferChannel env chid of
        None \<Rightarrow> None
      | Some e \<Rightarrow> if IsCtxDone env e then None else Some e)"

definition DeleteStore :: "retrievalEnv \<Rightarrow> u64 \<Rightarrow> error option" where
  "DeleteStore env dealID =
     (case Untrack env dealID of
        Some e \<Rightarrow> Some (ErrWrap ''failed to clean read-only blockstore for deal'' e)
      | None \<Rightarrow> None)"

section \<open>The deal handler\<close>

type_synonym ('r, 'q, 'p) rhandled = "ProviderDealState \<times> ('r, 'q, 'p) rworld \<times> error option"

definition ErrTerminated :: error where
  "ErrTerminated = ErrApi ''state machine is terminated''"

definition saveHandled :: "('r, 'q, 'p) retrievalProvider \<Rightarrow> ProviderDealState \<Rightarrow> ('r, 'q, 'p) rworld \<Rightarrow> ('r, 'q, 'p) rhandled" where
  "saveHandled p deal w = (case saveRetrieval p deal w of (w', err) \<Rightarrow> (deal, w', err))"

definition ErrorDeal :: "('r, 'q, 'p) retrievalProvider \<Rightarrow> ProviderDealState \<Rightarrow> error option \<Rightarrow> ('r, 'q, 'p) rworld \<Rightarrow> ('r, 'q, 'p) rhandled" where
  "ErrorDeal p deal err w =
     (let deal = deal\<lparr>rdStatus := DealStatusErrored\<rparr>;
          deal = (case err of None \<Rightarrow> deal | Some e \<Rightarrow> deal\<lparr>rdMessage := rErrText (rpEnv p) e\<rparr>)
      in saveHandled p deal w)"

definition CancelDeal :: "('r, 'q, 'p) retrievalProvider \<Rightarrow> ProviderDealState \<Rightarrow> ('r, 'q, 'p) rworld \<Rightarrow> ('r, 'q, 'p) rhandled" where
  "CancelDeal p deal w =
     (case DeleteStore (rpEnv p) (rdID (rdProposal deal)) of
        Some e \<Rightarrow> ErrorDeal p deal None w
      | None \<Rightarrow>
          (case rdChannelID deal of
             None \<Rightarrow> saveHandled p (deal\<lparr>rdStatus := DealStatusCancelled\<rparr>) w
           | Some ch \<Rightarrow>
               (let w = w\<lparr>rwLog := rwLog w @ [Closed ch]\<rparr> in
                case CloseDataTransfer (rpEnv p) ch of
                  Some e \<Rightarrow> if errors_Is e ErrTerminated then saveHandled p (deal\<lparr>rdStatus := DealStatusCancelled\<rparr>) w
                            else ErrorDeal p deal None w
                | None \<Rightarrow> saveHandled p (deal\<lparr>rdStatus := DealStatusCancelled\<rparr>) w)))"

definition CleanupDeal :: "('r, 'q, 'p) retrievalProvider \<Rightarrow> ProviderDealState \<Rightarrow> ('r, 'q, 'p) rworld \<Rightarrow> ('r, 'q, 'p) rhandled" where
  "CleanupDeal p deal w =
     (case DeleteStore (rpEnv p) (rdID (rdProposal deal)) of
        Some e \<Rightarrow> ErrorDeal p deal None w
      | None \<Rightarrow> saveHandled p (deal\<lparr>rdStatus := DealStatusCompleted\<rparr>) w)"

definition UnsealData :: "('r, 'q, 'p) retrievalProvider \<Rightarrow> ProviderDealState \<Rightarrow> ('r, 'q, 'p) rworld \<Rightarrow> ('r, 'q, 'p) rhandled" where
  "UnsealData p deal0 w0 =
     (let deal = deal0\<lparr>rdStatus := DealStatusUnsealing\<rparr> in
      case saveRetrieval p deal w0 of
        (w1, Some e) \<Rightarrow> (deal, w1, Some e)
      | (w1, None) \<Rightarrow>
          (case sdGetDeal (rpStorage p) (rwStorage w1) (SelStorageProposalCid deal) of
             Inl e \<Rightarrow> (deal, w1, Some e)
           | Inr storageDeal \<Rightarrow>
               (case PrepareBlockstore (rpEnv p) (rdID (rdProposal deal)) (PieceCID (Proposal storageDeal)) of
                  Some e \<Rightarrow> CancelDeal p deal w1
                | None \<Rightarrow>
                    (let deal = deal\<lparr>rdStatus := DealStatusUnsealed\<rparr> in
                     case saveRetrieval p deal w1 of
                       (w2, Some e) \<Rightarrow> (deal, w2, Some e)
                     | (w2, None) \<Rightarrow>
                         (case rdChannelID deal of
                            None \<Rightarrow> saveHandled p deal w2
                          | Some ch \<Rightarrow>
                              (let w3 = w2\<lparr>rwLog := rwLog w2 @ [Resumed ch]\<rparr> in
                               case ResumeDataTransfer (rpEnv p) ch of
                                 Some e \<Rightarrow> saveHandled p (deal\<lparr>rdStatus := DealStatusErrored\<rparr>) w3
                               | None \<Rightarrow> saveHandled p deal w3))))))"

section \<open>Data transfer events\<close>

type_synonym ('r, 'q, 'p) handledFor = "('r, 'q, 'p) rworld \<times> error option"

definition forDeal :: "('r, 'q, 'p) retrievalProvider \<Rightarrow> dealIdentifier \<Rightarrow> ('r, 'q, 'p) rworld \<Rightarrow> (ProviderDealState \<Rightarrow> ('r, 'q, 'p) rhandled) \<Rightarrow> ('r, 'q, 'p) handledFor" where
  "forDeal p ident w k =
     (case rrGetDeal (rpDeals p) (rwDeals w) (fst ident) (snd ident) of
        Inl e \<Rightarrow> (w, Some e)
      | Inr deal \<Rightarrow> (case k deal of (_, w', err) \<Rightarrow> (w', err)))"

definition HandleCompleteFor :: "('r, 'q, 'p) retrievalProvider \<Rightarrow> dealIdentifier \<Rightarrow> ('r, 'q, 'p) rworld \<Rightarrow> ('r, 'q, 'p) handledFor" where
  "HandleCompleteFor p ident w = forDeal p ident w (\<lambda>deal. CleanupDeal p deal w)"

definition HandleAcceptFor :: "('r, 'q, 'p) retrievalProvider \<Rightarrow> dealIdentifier \<Rightarrow> ChannelID \<Rightarrow> ('r, 'q, 'p) rworld \<Rightarrow> ('r, 'q, 'p) handledFor" where
  "HandleAcceptFor p ident channelId w =
     forDeal p ident w (\<lambda>deal.
       let deal = deal\<lparr>rdChannelID := Some channelId\<rparr> in
       case saveRetrieval p deal w of
         (w1, Some e) \<Rightarrow> (deal, w1, Some e)
       | (w1, None) \<Rightarrow>
           (case rdStatus deal of
              DealStatusFundsNeededUnseal \<Rightarrow> (deal, w1, None)
            | DealStatusNew \<Rightarrow> UnsealData p deal w1
            | _ \<Rightarrow> (deal, w1, Some (ErrMsg ''invalid state transition''))))"

definition HandleDisconnectFor :: "('r, 'q, 'p) retrievalProvider \<Rightarrow> dealIdentifier \<Rightarrow> error \<Rightarrow> ('r, 'q, 'p) rworld \<Rightarrow> ('r, 'q, 'p) handledFor" where
  "HandleDisconnectFor p ident errIn w = forDeal p ident w (\<lambda>deal. ErrorDeal p deal (Some errIn) w)"

definition HandleCancelForDeal :: "('r, 'q, 'p) retrievalProvider \<Rightarrow> dealIdentifier \<Rightarrow> ('r, 'q, 'p) rworld \<Rightarrow> ('r, 'q, 'p) handledFor" where
  "HandleCancelForDeal p ident w =
     forDeal p ident w (\<lambda>deal.
       saveHandled p
         (case rdStatus deal of
            DealStatusFailing \<Rightarrow> deal
          | DealStatusCancelling \<Rightarrow> deal
          | _ \<Rightarrow> deal\<lparr>rdMessage := ''Client cancelled retrieval''\<rparr>) w)"

definition HandleErrorForDeal :: "('r, 'q, 'p) retrievalProvider \<Rightarrow> dealIdentifier \<Rightarrow> error \<Rightarrow> ('r, 'q, 'p) rworld \<Rightarrow> ('r, 'q, 'p) handledFor" where
  "HandleErrorForDeal p ident errIn w = forDeal p ident w (\<lambda>deal. ErrorDeal p deal (Some errIn) w)"

datatype dtEvent = EvAccept | EvDisconnected | EvError string | EvCancel | EvOther

definition dealProposalFromVoucher :: "retrievalEnv \<Rightarrow> dtVoucher \<Rightarrow> RetrievalProposal option" where
  "dealProposalFromVoucher env voucher =
     (case voucher of
        VDealProposal prop \<Rightarrow> Some prop
      | VDealProposal0 legacy \<Rightarrow> Some (MigrateDealProposal0To1 env legacy)
      | _ \<Rightarrow> None)"

text \<open>The subscriber; the errors of the handlers are logged only.\<close>

record ChannelState =
  csVoucher :: dtVoucher
  csRecipient :: string
  csCompleted :: bool
  csChannelID :: ChannelID

definition ProviderDataTransferSubscriber :: "('r, 'q, 'p) retrievalProvider \<Rightarrow> dtEvent \<Rightarrow> ChannelState \<Rightarrow> ('r, 'q, 'p) rworld \<Rightarrow> ('r, 'q, 'p) rworld" where
  "ProviderDataTransferSubscriber p event cs w =
     (case dealProposalFromVoucher (rpEnv p) (csVoucher cs) of
        None \<Rightarrow> w
      | Some dealProposal \<Rightarrow>
          (let ident = (csRecipient cs, rdID dealProposal);
               w1 = (if csCompleted cs then fst (HandleCompleteFor p ident w) else w)
           in case event of
                EvAccept \<Rightarrow> fst (HandleAcceptFor p ident (csChannelID cs) w1)
              | EvDisconnected \<Rightarrow> fst (HandleDisconnectFor p ident (ErrMsg ''deal data transfer stalled (peer hungup)'') w1)
              | EvError m \<Rightarrow> fst (HandleErrorForDeal p ident (ErrWrap ''deal data transfer failed'' (ErrMsg m)) w1)
              | EvCancel \<Rightarrow> fst (HandleCancelForDeal p ident w1)
              | EvOther \<Rightarrow> w1))"

end
