(* ===== verification/Retrieval_Revalidator.thy ===== *)
theory Retrieval_Revalidator
  imports Retrieval_Handler
begin

text \<open>
  Payments for retrievals: \<open>src/retrievalprovider/revalidator.go\<close>. The data transfer module calls the revalidator with a
  payment voucher (\<open>Revalidate\<close>), after bytes were sent (\<open>OnPullDataSent\<close>) and at the end of the transfer
  (\<open>OnComplete\<close>); the errors \<open>ErrPause\<close> and \<open>ErrResume\<close> tell it to pause or resume. Byte counts are 64-bit words; a
  difference of byte counts is read as a signed number when it is multiplied with the price.
\<close>

section \<open>Responses\<close>

record DealResponse =
  drID :: u64
  drStatus :: DealStatus
  drPaymentOwed :: "int option"
  drMessage :: string

definition ErrPause :: error where "ErrPause = ErrApi ''pause channel''"
definition ErrResume :: error where "ErrResume = ErrApi ''resume channel''"

text \<open>\<open>DealResponse0\<close> has the same fields, in another type.\<close>

datatype voucherResult = VRResponse DealResponse | VRResponse0 DealResponse

definition finalResponse :: "DealResponse option \<Rightarrow> bool \<Rightarrow> voucherResult option" where
  "finalResponse response legacyProtocol =
     (case response of
        None \<Rightarrow> None
      | Some r \<Rightarrow> if legacyProtocol then Some (VRResponse0 r) else Some (VRResponse r))"

definition errorDealResponse :: "retrievalEnv \<Rightarrow> dealIdentifier \<Rightarrow> error \<Rightarrow> DealResponse" where
  "errorDealResponse env dealID err = \<lparr>drID = snd dealID, drStatus = DealStatusErrored, drPaymentOwed = None, drMessage = rErrText env err\<rparr>"

section \<open>Payments\<close>

definition NextInterval :: "retrievalEnv \<Rightarrow> ProviderDealState \<Rightarrow> u64" where
  "NextInterval env deal = nextInterval env (rdProposal deal) (CurrentInterval deal)"

definition IntervalLowerBound :: "retrievalEnv \<Rightarrow> ProviderDealState \<Rightarrow> u64" where
  "IntervalLowerBound env deal = intervalLowerBound env (rdProposal deal) (CurrentInterval deal)"

definition paymentOwed :: "retrievalEnv \<Rightarrow> ProviderDealState \<Rightarrow> int \<Rightarrow> int" where
  "paymentOwed env deal totalPaid =
     (if totalPaid < UnsealPrice (rdProposal deal) then UnsealPrice (rdProposal deal) - totalPaid
      else
        (let transferPayment = totalPaid - UnsealPrice (rdProposal deal);
             currentLimitLower = IntervalLowerBound env deal;
             totalPaymentRequired = sint currentLimitLower * PricePerByte (rdProposal deal)
         in totalPaymentRequired - transferPayment))"

text \<open>The deal after a sufficient payment, the response and the error, and whether a goroutine unseals the data.\<close>

definition resumeDeal :: "retrievalEnv \<Rightarrow> ProviderDealState \<Rightarrow> int \<Rightarrow> ProviderDealState \<times> DealResponse option \<times> error option \<times> bool" where
  "resumeDeal env deal0 received =
     (let deal = deal0\<lparr>FundsReceived := FundsReceived deal0 + received\<rparr>;
          deal = (if rdStatus deal \<noteq> DealStatusFundsNeededUnseal then deal\<lparr>CurrentInterval := NextInterval env deal\<rparr> else deal)
      in case rdStatus deal of
           DealStatusFundsNeeded \<Rightarrow> (deal\<lparr>rdStatus := DealStatusOngoing\<rparr>, None, Some ErrResume, False)
         | DealStatusFundsNeededLastPayment \<Rightarrow>
             (deal\<lparr>rdStatus := DealStatusFinalizing\<rparr>,
              Some \<lparr>drID = rdID (rdProposal deal), drStatus = DealStatusCompleted, drPaymentOwed = None, drMessage = []\<rparr>, Some ErrResume, False)
         | DealStatusFundsNeededUnseal \<Rightarrow> (deal\<lparr>rdStatus := DealStatusUnsealing\<rparr>, None, None, True)
         | DealStatusUnsealing \<Rightarrow> (deal, None, None, False)
         | _ \<Rightarrow> (deal, None, Some ErrResume, False))"

type_synonym ('r, 'q, 'p) paid = "DealResponse option \<times> error option \<times> ProviderDealState \<times> ('r, 'q, 'p) rworld"

definition processPayment :: "('r, 'q, 'p) retrievalProvider \<Rightarrow> ProviderDealState \<Rightarrow> DealPayment \<Rightarrow> ('r, 'q, 'p) rworld \<Rightarrow> ('r, 'q, 'p) paid outcome" where
  "processPayment p deal payment w =
     (case rpVoucherAdd p (rwPaych w) (PaymentChannel payment) (PaymentVoucher payment) of
        Panic m \<Rightarrow> Panic m
      | Ret ((received, Some e), pm) \<Rightarrow>
          (case CancelDeal p deal (w\<lparr>rwPaych := pm\<rparr>) of
             (d, w', _) \<Rightarrow> Ret (Some (errorDealResponse (rpEnv p) (Identifier d) e), Some e, d, w'))
      | Ret ((received, None), pm) \<Rightarrow>
          (let w1 = w\<lparr>rwPaych := pm\<rparr>;
               totalPaid = FundsReceived deal + received;
               owed = paymentOwed (rpEnv p) deal totalPaid
           in if owed > 0 then
                (let deal1 = deal\<lparr>FundsReceived := FundsReceived deal + received\<rparr> in
                 case saveRetrieval p deal1 w1 of
                   (w2, Some e) \<Rightarrow>
                     (case CancelDeal p deal1 w2 of
                        (d, w', _) \<Rightarrow> Ret (Some (errorDealResponse (rpEnv p) (Identifier d) e), Some e, d, w'))
                 | (w2, None) \<Rightarrow>
                     Ret (Some \<lparr>drID = rdID (rdProposal deal1), drStatus = rdStatus deal1, drPaymentOwed = Some owed, drMessage = []\<rparr>,
                          Some ErrPause, deal1, w2))
              else
                (case resumeDeal (rpEnv p) deal received of
                   (deal1, resp, err, unseal) \<Rightarrow>
                     (let goUnseal = (\<lambda>d v. if unseal then v\<lparr>rwGo := rwGo v @ [d]\<rparr> else v) in
                      case saveRetrieval p deal1 w1 of
                        (w2, Some dErr) \<Rightarrow>
                          (case CancelDeal p deal1 w2 of
                             (d, w', _) \<Rightarrow> Ret (Some (errorDealResponse (rpEnv p) (Identifier d) dErr), err, d, goUnseal d w'))
                      | (w2, None) \<Rightarrow> Ret (resp, err, deal1, goUnseal deal1 w2)))))"

text \<open>When the deal cannot be read for another reason than that there is none, \<open>CancelDeal\<close> is called with a nil deal and
  dereferences it.\<close>

definition Revalidate :: "('r, 'q, 'p) retrievalProvider \<Rightarrow> ChannelID \<Rightarrow> dtVoucher \<Rightarrow> ('r, 'q, 'p) rworld \<Rightarrow>
    (voucherResult option \<times> error option \<times> ('r, 'q, 'p) rworld) outcome" where
  "Revalidate p channelID voucher w =
     (let read = (case voucher of
                    VDealPayment pay \<Rightarrow> Some (pay, False)
                  | VDealPayment0 legacy \<Rightarrow> Some (MigrateDealPayment0To1 (rpEnv p) legacy, True)
                  | _ \<Rightarrow> None)
      in case read of
           None \<Rightarrow> Ret (None, Some (ErrMsg ''wrong voucher type''), w)
         | Some (payment, legacyProtocol) \<Rightarrow>
             (case rrGetDeal (rpDeals p) (rwDeals w) (Initiator channelID) (dpID payment) of
                Inl e \<Rightarrow> if e = ErrNotFound then Ret (None, None, w) else Panic ''nil pointer dereference''
              | Inr deal \<Rightarrow>
                  (case processPayment p deal payment w of
                     Panic m \<Rightarrow> Panic m
                   | Ret (response, err, _, w') \<Rightarrow> Ret (finalResponse response legacyProtocol, err, w'))))"

section \<open>Bytes sent\<close>

type_synonym ('r, 'q, 'p) checked = "bool \<times> voucherResult option \<times> error option \<times> ('r, 'q, 'p) rworld"

definition byTransfer :: "('r, 'q, 'p) retrievalProvider \<Rightarrow> ChannelID \<Rightarrow> ('r, 'q, 'p) rworld \<Rightarrow> (ProviderDealState \<Rightarrow> ('r, 'q, 'p) checked) \<Rightarrow> ('r, 'q, 'p) checked outcome" where
  "byTransfer p chid w k =
     (case rrGetDealByTransferId (rpDeals p) (rwDeals w) chid of
        Panic m \<Rightarrow> Panic m
      | Ret (Inl e) \<Rightarrow> Ret (if e = ErrNotFound then (False, None, None, w) else (True, None, Some e, w))
      | Ret (Inr deal) \<Rightarrow> Ret (k deal))"

definition requestStatus :: "DealStatus \<Rightarrow> DealStatus" where
  "requestStatus st =
     (case st of
        DealStatusOngoing \<Rightarrow> DealStatusFundsNeeded
      | DealStatusUnsealed \<Rightarrow> DealStatusFundsNeeded
      | DealStatusBlocksComplete \<Rightarrow> DealStatusFundsNeededLastPayment
      | DealStatusNew \<Rightarrow> DealStatusFundsNeededUnseal
      | _ \<Rightarrow> st)"

definition OnPullDataSent :: "('r, 'q, 'p) retrievalProvider \<Rightarrow> ChannelID \<Rightarrow> u64 \<Rightarrow> ('r, 'q, 'p) rworld \<Rightarrow> ('r, 'q, 'p) checked outcome" where
  "OnPullDataSent p chid additionalBytesSent w =
     byTransfer p chid w (\<lambda>deal.
       let totalSent = TotalSent deal + additionalBytesSent;
           totalPaidFor = TotalPaidFor (rpEnv p) deal;
           price = PricePerByte (rdProposal deal)
       in if price = 0 \<or> totalSent < CurrentInterval deal then
            (case saveRetrieval p (deal\<lparr>rdStatus := DealStatusOngoing, TotalSent := totalSent\<rparr>) w of
               (w', err) \<Rightarrow> (True, None, err, w'))
          else
            (let owed = sint (totalSent - totalPaidFor) * price in
             case saveRetrieval p (deal\<lparr>TotalSent := totalSent, rdStatus := requestStatus (rdStatus deal)\<rparr>) w of
               (w', Some e) \<Rightarrow> (True, None, Some e, w')
             | (w', None) \<Rightarrow>
                 (True, finalResponse (Some \<lparr>drID = rdID (rdProposal deal), drStatus = DealStatusFundsNeeded,
                    drPaymentOwed = Some owed, drMessage = []\<rparr>) (LegacyProtocol deal), Some ErrPause, w')))"

definition OnPushDataReceived :: "('r, 'q, 'p) retrievalProvider \<Rightarrow> ChannelID \<Rightarrow> u64 \<Rightarrow> ('r, 'q, 'p) rworld \<Rightarrow> ('r, 'q, 'p) checked" where
  "OnPushDataReceived p chid additionalBytesReceived w = (False, None, None, w)"

definition OnComplete :: "('r, 'q, 'p) retrievalProvider \<Rightarrow> ChannelID \<Rightarrow> ('r, 'q, 'p) rworld \<Rightarrow> ('r, 'q, 'p) checked outcome" where
  "OnComplete p chid w =
     byTransfer p chid w (\<lambda>deal0.
       let deal = deal0\<lparr>rdStatus := DealStatusBlocksComplete\<rparr> in
       case saveRetrieval p deal w of
         (w1, Some e) \<Rightarrow> (True, None, Some e, w1)
       | (w1, None) \<Rightarrow>
           (let totalSent = TotalSent deal;
                owed = sint (totalSent - TotalPaidFor (rpEnv p) deal) * PricePerByte (rdProposal deal)
            in if owed = 0 then
                 (True, finalResponse (Some \<lparr>drID = rdID (rdProposal deal), drStatus = DealStatusCompleted, drPaymentOwed = None, drMessage = []\<rparr>)
                    (LegacyProtocol deal), None, w1)
               else
                 (case saveRetrieval p (deal\<lparr>rdStatus := DealStatusFundsNeededLastPayment, TotalSent := totalSent\<rparr>) w1 of
                    (w2, Some e) \<Rightarrow> (True, None, Some e, w2)
                  | (w2, None) \<Rightarrow>
                      (True, finalResponse (Some \<lparr>drID = rdID (rdProposal deal), drStatus = DealStatusFundsNeededLastPayment,
                         drPaymentOwed = Some owed, drMessage = []\<rparr>) (LegacyProtocol deal), Some ErrPause, w2))))"

section \<open>The legacy revalidator\<close>

definition legacyRevalidate :: "('r, 'q, 'p) retrievalProvider \<Rightarrow> ChannelID \<Rightarrow> dtVoucher \<Rightarrow> ('r, 'q, 'p) rworld \<Rightarrow>
    (voucherResult option \<times> error option \<times> ('r, 'q, 'p) rworld) outcome" where
  "legacyRevalidate p channelID voucher w = Revalidate p channelID voucher w"

definition legacyOnPullDataSent :: "('r, 'q, 'p) retrievalProvider \<Rightarrow> ChannelID \<Rightarrow> u64 \<Rightarrow> ('r, 'q, 'p) rworld \<Rightarrow> ('r, 'q, 'p) checked" where
  "legacyOnPullDataSent p chid additionalBytesSent w = (False, None, None, w)"

definition legacyOnPushDataReceived :: "('r, 'q, 'p) retrievalProvider \<Rightarrow> ChannelID \<Rightarrow> u64 \<Rightarrow> ('r, 'q, 'p) rworld \<Rightarrow> ('r, 'q, 'p) checked" where
  "legacyOnPushDataReceived p chid additionalBytesReceived w = (False, None, None, w)"

definition legacyOnComplete :: "('r, 'q, 'p) retrievalProvider \<Rightarrow> ChannelID \<Rightarrow> ('r, 'q, 'p) rworld \<Rightarrow> ('r, 'q, 'p) checked" where
  "legacyOnComplete p chid w = (False, None, None, w)"

end
