(* ===== verification/Retrieval_Validator.thy ===== *)
theory Retrieval_Validator
  imports Retrieval_Revalidator
begin

text \<open>
  Accepting retrieval deals: the lookup of storage deals for a retrieval (\<open>src/retrievalprovider/piecestore.go\<close>), the
  check of the deal parameters (\<open>CheckDealParams\<close> of \<open>provider_environments.go\<close>), the request validator
  (\<open>requestvalidation.go\<close>) and the answer to queries (\<open>stream_handler.go\<close>). The DAG store, the selector encoding and
  \<open>Unpadded\<close> are the record \<open>pieceEnv\<close>; the ask repository is read only and given by its \<open>GetAsk\<close>.
\<close>

section \<open>Finding the data\<close>

definition ReadyRetrievalDealStatus :: "StorageDealStatus list" where
  "ReadyRetrievalDealStatus = [StorageDealAwaitingPreCommit, StorageDealSealing, StorageDealActive]"

record pieceEnv =
  GetPiecesContainingBlock :: "cid \<Rightarrow> cid list res"
  encodeSelector :: "bytes \<Rightarrow> bytes res"
  allSelectorBytes :: bytes
  Unpadded :: "u64 \<Rightarrow> u64"
  getRetrievalAsk :: "address \<Rightarrow> RetrievalAsk res"
  paymentAddr :: address

text \<open>The set \<open>filter\<close> of the code holds the proposals of the deals collected so far.\<close>

fun addNew :: "MinerDeal list \<Rightarrow> MinerDeal list \<Rightarrow> MinerDeal list" where
  "addNew allMinerDeals [] = allMinerDeals"
| "addNew allMinerDeals (deal # deals) =
     (if ProposalCid deal \<in> set (map ProposalCid allMinerDeals) then addNew allMinerDeals deals
      else addNew (allMinerDeals @ [deal]) deals)"

fun piecesLoop :: "'q StorageDealRepo \<Rightarrow> 'q \<Rightarrow> MinerDeal list \<Rightarrow> cid list \<Rightarrow> MinerDeal list res outcome" where
  "piecesLoop repo s allMinerDeals [] = Ret (Inr allMinerDeals)"
| "piecesLoop repo s allMinerDeals (piece # pieces) =
     (case sdGetDealsByPieceCidAndStatus repo s piece ReadyRetrievalDealStatus of
        Panic m \<Rightarrow> Panic m
      | Ret (Inl e) \<Rightarrow> Ret (Inl e)
      | Ret (Inr minerDeals) \<Rightarrow> piecesLoop repo s (addNew allMinerDeals minerDeals) pieces)"

definition GetPieceInfoFromCid :: "pieceEnv \<Rightarrow> 'q StorageDealRepo \<Rightarrow> 'q \<Rightarrow> cid \<Rightarrow> cid option \<Rightarrow> MinerDeal list res outcome" where
  "GetPieceInfoFromCid env repo s payloadCID piececid =
     (if (case piececid of None \<Rightarrow> False | Some c \<Rightarrow> c \<noteq> Undef) then
        (case sdGetDealsByPieceCidAndStatus repo s (the piececid) ReadyRetrievalDealStatus of
           Panic m \<Rightarrow> Panic m
         | Ret (Inl e) \<Rightarrow> Ret (Inl e)
         | Ret (Inr minerDeals) \<Rightarrow>
             Ret (if length minerDeals > 0 then Inr minerDeals else Inl (ErrWrap ''unable to find deals by pieceCid'' ErrNotFound)))
      else
        (case sdGetDealsByDataCidAndDealStatus repo s Undef payloadCID [Proving] of
           Panic m \<Rightarrow> Panic m
         | Ret r \<Rightarrow>
             (if (case r of Inl e \<Rightarrow> \<not> errors_Is e ErrNotFound | Inr _ \<Rightarrow> False)
              then Ret (Inl (ErrMsg ''failed to get deals for retrieval''))
              else
                (let allMinerDeals = addNew [] (case r of Inl _ \<Rightarrow> [] | Inr deals \<Rightarrow> deals) in
                 case GetPiecesContainingBlock env payloadCID of
                   Inl e \<Rightarrow> Ret (Inl (ErrWrap ''getting pieces for cid'' e))
                 | Inr pieces \<Rightarrow>
                     (case piecesLoop repo s allMinerDeals pieces of
                        Panic m \<Rightarrow> Panic m
                      | Ret (Inl e) \<Rightarrow> Ret (Inl e)
                      | Ret (Inr found) \<Rightarrow>
                          Ret (if length found > 0 then Inr found
                               else Inl (ErrWrap ''unable to find ready data for payload'' ErrNotFound)))))))"

section \<open>Validating a request\<close>

definition CheckDealParams :: "RetrievalAsk \<Rightarrow> int \<Rightarrow> u64 \<Rightarrow> u64 \<Rightarrow> int \<Rightarrow> error option" where
  "CheckDealParams ask pricePerByte paymentInterval paymentIntervalIncrease unsealPrice =
     (if pricePerByte < raPricePerByte ask then Some (ErrMsg ''price per byte too low'')
      else if paymentInterval > raPaymentInterval ask then Some (ErrMsg ''payment interval too large'')
      else if paymentIntervalIncrease > raPaymentIntervalIncrease ask then Some (ErrMsg ''payment interval increase too large'')
      else if (case raUnsealPrice ask of None \<Rightarrow> False | Some u \<Rightarrow> unsealPrice < u) then Some (ErrMsg ''unseal price too small'')
      else None)"

definition acceptDeal :: "pieceEnv \<Rightarrow> 'q StorageDealRepo \<Rightarrow> 'q \<Rightarrow> ProviderDealState \<Rightarrow> (ProviderDealState \<times> DealStatus \<times> error option) outcome" where
  "acceptDeal env repo s deal =
     (let prop = rdProposal deal in
      case GetPieceInfoFromCid env repo s (PayloadCID prop) (rdPieceCID prop) of
        Panic m \<Rightarrow> Panic m
      | Ret (Inl e) \<Rightarrow> Ret (deal, if errors_Is e ErrNotFound then DealStatusDealNotFound else DealStatusErrored, Some e)
      | Ret (Inr minerdeals) \<Rightarrow>
          (case minerdeals of
             [] \<Rightarrow> Panic ''index out of range''
           | md # _ \<Rightarrow>
               (let deal = deal\<lparr>SelStorageProposalCid := ProposalCid md\<rparr> in
                case getRetrievalAsk env (paymentAddr env) of
                  Inl e \<Rightarrow> Ret (deal, DealStatusErrored, Some e)
                | Inr ask \<Rightarrow>
                    (case CheckDealParams ask (PricePerByte prop) (PaymentInterval prop) (PaymentIntervalIncrease prop) (UnsealPrice prop) of
                       Some e \<Rightarrow> Ret (deal, DealStatusRejected, Some e)
                     | None \<Rightarrow>
                         if UnsealPrice prop > 0 then Ret (deal, DealStatusFundsNeededUnseal, None)
                         else Ret (deal, DealStatusAccepted, None)))))"

definition newDealState :: "RetrievalProposal \<Rightarrow> string \<Rightarrow> bool \<Rightarrow> ProviderDealState" where
  "newDealState proposal receiver legacyProtocol =
     \<lparr>rdProposal = proposal, SelStorageProposalCid = Undef, rdChannelID = None, rdStatus = DealStatusNew, Receiver = receiver,
      TotalSent = 0, FundsReceived = 0, rdMessage = [], CurrentInterval = PaymentInterval proposal, LegacyProtocol = legacyProtocol\<rparr>"

definition validatePull :: "('r, 'q, 'p) retrievalProvider \<Rightarrow> pieceEnv \<Rightarrow> bool \<Rightarrow> string \<Rightarrow> RetrievalProposal \<Rightarrow> bool \<Rightarrow> cid \<Rightarrow> bytes \<Rightarrow>
    ('r, 'q, 'p) rworld \<Rightarrow> (DealResponse option \<times> error option \<times> ('r, 'q, 'p) rworld) outcome" where
  "validatePull p env isRestart receiver proposal legacyProtocol baseCid selector w =
     (if PayloadCID proposal \<noteq> baseCid then Ret (None, Some (ErrMsg ''incorrect CID for this proposal''), w)
      else
        (case encodeSelector env selector of
           Inl e \<Rightarrow> Ret (None, Some e, w)
         | Inr buf \<Rightarrow>
             if buf \<noteq> (case Selector proposal of None \<Rightarrow> allSelectorBytes env | Some raw \<Rightarrow> raw)
             then Ret (None, Some (ErrMsg ''incorrect selector for this proposal''), w)
             else if isRestart then Ret (None, None, w)
             else
               (case acceptDeal env (rpStorage p) (rwStorage w) (newDealState proposal receiver legacyProtocol) of
                  Panic m \<Rightarrow> Panic m
                | Ret (pds, status, err) \<Rightarrow>
                    (let response = \<lparr>drID = rdID proposal, drStatus = status,
                           drPaymentOwed = (if status = DealStatusFundsNeededUnseal then Some (UnsealPrice (rdProposal pds)) else None), drMessage = []\<rparr>
                     in case err of
                          Some e \<Rightarrow> Ret (Some (response\<lparr>drMessage := rErrText (rpEnv p) e\<rparr>), Some e, w)
                        | None \<Rightarrow>
                            (let pds = (if UnsealPrice (rdProposal pds) > 0 then pds\<lparr>rdStatus := DealStatusFundsNeededUnseal, TotalSent := 0\<rparr>
                                        else pds\<lparr>TotalSent := 0, FundsReceived := 0\<rparr>)
                             in case saveRetrieval p pds w of
                                  (w', Some e) \<Rightarrow> Ret (Some (response\<lparr>drMessage := rErrText (rpEnv p) e\<rparr>), Some e, w')
                                | (w', None) \<Rightarrow> Ret (Some response, Some ErrPause, w'))))))"

definition ValidatePull :: "('r, 'q, 'p) retrievalProvider \<Rightarrow> pieceEnv \<Rightarrow> bool \<Rightarrow> string \<Rightarrow> dtVoucher \<Rightarrow> cid \<Rightarrow> bytes \<Rightarrow>
    ('r, 'q, 'p) rworld \<Rightarrow> (voucherResult option \<times> error option \<times> ('r, 'q, 'p) rworld) outcome" where
  "ValidatePull p env isRestart receiver voucher baseCid selector w =
     (case (case voucher of
              VDealProposal prop \<Rightarrow> Some (prop, False)
            | VDealProposal0 legacy \<Rightarrow> Some (MigrateDealProposal0To1 (rpEnv p) legacy, True)
            | _ \<Rightarrow> None) of
        None \<Rightarrow> Ret (None, Some (ErrMsg ''wrong voucher type''), w)
      | Some (proposal, legacyProtocol) \<Rightarrow>
          (case validatePull p env isRestart receiver proposal legacyProtocol baseCid selector w of
             Panic m \<Rightarrow> Panic m
           | Ret (response, err, w') \<Rightarrow> Ret (finalResponse response legacyProtocol, err, w')))"

definition ValidatePush :: "voucherResult option \<times> error option" where
  "ValidatePush = (None, Some (ErrMsg ''no pushes accepted''))"

section \<open>Answering queries\<close>

datatype QueryStatus = QueryResponseAvailable | QueryResponseUnavailable | QueryResponseError

record QueryResponse =
  qrStatus :: QueryStatus
  PieceCIDFound :: bool
  qrSize :: u64
  PaymentAddress :: address
  MinPricePerByte :: int
  MaxPaymentInterval :: u64
  MaxPaymentIntervalIncrease :: u64
  qrMessage :: string
  qrUnsealPrice :: "int option"

definition unavailable :: "address \<Rightarrow> QueryResponse" where
  "unavailable a = \<lparr>qrStatus = QueryResponseUnavailable, PieceCIDFound = False, qrSize = 0, PaymentAddress = a, MinPricePerByte = 0,
     MaxPaymentInterval = 0, MaxPaymentIntervalIncrease = 0, qrMessage = [], qrUnsealPrice = Some 0\<rparr>"

text \<open>The response written to the stream, if any; \<open>query\<close> is what was read from it.\<close>

definition HandleQueryStream :: "pieceEnv \<Rightarrow> 'q StorageDealRepo \<Rightarrow> 'q \<Rightarrow> (cid \<times> cid option) res \<Rightarrow> QueryResponse option outcome" where
  "HandleQueryStream env repo s query =
     (case query of
        Inl _ \<Rightarrow> Ret None
      | Inr (payloadCID, pieceCID) \<Rightarrow>
          if paymentAddr env = Undef then Ret None
          else
            (let answer = unavailable (paymentAddr env) in
             case GetPieceInfoFromCid env repo s payloadCID pieceCID of
               Panic m \<Rightarrow> Panic m
             | Ret (Inl e) \<Rightarrow>
                 Ret (Some (answer\<lparr>qrStatus := QueryResponseError,
                    qrMessage := (if errors_Is e ErrNotFound then ''retrieve piece or payload failed, not found''
                                  else ''failed to fetch piece to retrieve from'')\<rparr>))
             | Ret (Inr minerDeals) \<Rightarrow>
                 (case minerDeals of
                    [] \<Rightarrow> Panic ''index out of range''
                  | md # _ \<Rightarrow>
                      (let answer = answer\<lparr>qrStatus := QueryResponseAvailable, qrSize := Unpadded env (PieceSize (Proposal md)),
                                           PieceCIDFound := True, PaymentAddress := paymentAddr env\<rparr>
                       in case getRetrievalAsk env (paymentAddr env) of
                            Inl e \<Rightarrow> Ret (Some (answer\<lparr>qrStatus := QueryResponseError, qrMessage := ''failed to price deal''\<rparr>))
                          | Inr ask \<Rightarrow>
                              Ret (Some (answer\<lparr>MinPricePerByte := raPricePerByte ask, MaxPaymentInterval := raPaymentInterval ask,
                                 MaxPaymentIntervalIncrease := raPaymentIntervalIncrease ask, qrUnsealPrice := raUnsealPrice ask\<rparr>))))))"

end
