(* ===== verification/Retrieval_Props.thy ===== *)
theory Retrieval_Props
  imports Retrieval_Validator
begin

text \<open>
  Properties of retrieval deals. The invariant says that a deal moves to a later payment interval only when the payment
  for the one before has been received, over every interleaving of the handlers, the revalidator and the goroutines
  that unseal. The handlers rely on the laws of the deal repository and of the payment channel manager, stated as
  locales and discharged by the badger repository and by \<open>PaychVoucherAdd\<close>.
\<close>

section \<open>The payment channel manager's contract\<close>

locale voucher_sink =
  fixes add :: "'p \<Rightarrow> address \<Rightarrow> SignedVoucher \<Rightarrow> ((int \<times> error option) \<times> 'p) outcome"
  assumes add_nonneg: "add pm ch sv = Ret ((received, None), pm') \<Longrightarrow> 0 \<le> received"

lemma addVoucher_nonneg: "addVoucher api repo st ch sv 0 = (st', received, None) \<Longrightarrow> 0 \<le> received"
  by (auto simp: addVoucher_def addVoucherUnlocked_def Let_def split: sum.splits bool.splits if_splits prod.splits option.splits)

interpretation paychs: voucher_sink "\<lambda>pm ch sv. PaychVoucherAdd api repo pm ch sv [] 0" for api repo
  by unfold_locales
    (auto simp: PaychVoucherAdd_def AddVoucherInbound_def dest: addVoucher_nonneg split: outcome.splits sum.splits prod.splits)

section \<open>Paid intervals\<close>

text \<open>The deal is in its first interval, or in the interval after one whose lower bound and the unsealing are paid.\<close>

definition paidUp :: "retrievalEnv \<Rightarrow> ProviderDealState \<Rightarrow> bool" where
  "paidUp env d \<longleftrightarrow>
     (let prop = rdProposal d in
      CurrentInterval d = PaymentInterval prop \<or>
      (\<exists>c. CurrentInterval d = nextInterval env prop c \<and>
           UnsealPrice prop + sint (intervalLowerBound env prop c) * PricePerByte prop \<le> FundsReceived d))"

lemma paidUp_more:
  assumes "paidUp env d" "rdProposal d' = rdProposal d" "CurrentInterval d' = CurrentInterval d" "FundsReceived d \<le> FundsReceived d'"
  shows "paidUp env d'"
  using assms unfolding paidUp_def Let_def by (metis order_trans)

lemma paidUp_update [simp]:
  "paidUp env (d\<lparr>rdStatus := st\<rparr>) = paidUp env d" "paidUp env (d\<lparr>rdMessage := m\<rparr>) = paidUp env d"
  "paidUp env (d\<lparr>rdChannelID := ch\<rparr>) = paidUp env d" "paidUp env (d\<lparr>TotalSent := n\<rparr>) = paidUp env d"
  "paidUp env (d\<lparr>SelStorageProposalCid := c\<rparr>) = paidUp env d"
  by (simp_all add: paidUp_def Let_def)

lemma paymentOwed_paid:
  assumes "paymentOwed env d tot \<le> 0"
  shows "UnsealPrice (rdProposal d) \<le> tot"
    and "UnsealPrice (rdProposal d) + sint (IntervalLowerBound env d) * PricePerByte (rdProposal d) \<le> tot"
  using assms by (auto simp: paymentOwed_def Let_def split: if_splits)

lemma resumeDeal_paid:
  assumes r: "resumeDeal env d received = (d', resp, err, unseal)" and owed: "paymentOwed env d (FundsReceived d + received) \<le> 0"
    and paid: "paidUp env d" and "0 \<le> received"
  shows "paidUp env d'" "FundsReceived d' = FundsReceived d + received" "rdProposal d' = rdProposal d"
    "UnsealPrice (rdProposal d') \<le> FundsReceived d'"
proof -
  have f: "FundsReceived d' = FundsReceived d + received \<and> rdProposal d' = rdProposal d \<and>
      CurrentInterval d' = (if rdStatus d = DealStatusFundsNeededUnseal then CurrentInterval d else NextInterval env d)"
    using r by (auto simp: resumeDeal_def Let_def NextInterval_def split: DealStatus.splits if_splits)
  then show "FundsReceived d' = FundsReceived d + received" "rdProposal d' = rdProposal d" by auto
  show "UnsealPrice (rdProposal d') \<le> FundsReceived d'" using f paymentOwed_paid(1) [OF owed] by simp
  show "paidUp env d'"
  proof (cases "rdStatus d = DealStatusFundsNeededUnseal")
    case True
    then show ?thesis using paidUp_more [OF paid] f assms(4) by simp
  next
    case False
    then show ?thesis
      using f paymentOwed_paid(2) [OF owed] unfolding paidUp_def Let_def NextInterval_def IntervalLowerBound_def by auto
  qed
qed

section \<open>The invariant\<close>

definition retrievalInv :: "retrievalEnv \<Rightarrow> ('r \<Rightarrow> dealIdentifier \<Rightarrow> ProviderDealState option) \<Rightarrow> ('r \<Rightarrow> bool) \<Rightarrow> ('r, 'q, 'p) rworld \<Rightarrow> bool" where
  "retrievalInv env view invar w \<longleftrightarrow>
     invar (rwDeals w) \<and> (\<forall>k d. view (rwDeals w) k = Some d \<longrightarrow> Identifier d = k \<and> paidUp env d) \<and>
     (\<forall>d \<in> set (rwGo w). paidUp env d \<and> UnsealPrice (rdProposal d) \<le> FundsReceived d)"

lemma retrievalInv_update [simp]:
  "retrievalInv env view invar (w\<lparr>rwLog := l\<rparr>) = retrievalInv env view invar w"
  "retrievalInv env view invar (w\<lparr>rwPaych := pm\<rparr>) = retrievalInv env view invar w"
  "retrievalInv env view invar (w\<lparr>rwStorage := q\<rparr>) = retrievalInv env view invar w"
  by (simp_all add: retrievalInv_def)

lemma retrievalInv_go:
  "retrievalInv env view invar w \<Longrightarrow> paidUp env d \<Longrightarrow> UnsealPrice (rdProposal d) \<le> FundsReceived d \<Longrightarrow>
     retrievalInv env view invar (w\<lparr>rwGo := rwGo w @ [d]\<rparr>)"
  by (auto simp: retrievalInv_def)

lemma validatePull_saves:
  assumes "validatePull p env b rcv pr l c sel w = Ret (r, err, w')" "w' \<noteq> w"
  shows "\<exists>pds x d e. acceptDeal env (rpStorage p) (rwStorage w) (newDealState pr rcv l) = Ret (pds, x) \<and>
     (d = pds\<lparr>rdStatus := DealStatusFundsNeededUnseal, TotalSent := 0\<rparr> \<or> d = pds\<lparr>TotalSent := 0, FundsReceived := 0\<rparr>) \<and>
     saveRetrieval p d w = (w', e)"
proof -
  obtain pds st where a: "acceptDeal env (rpStorage p) (rwStorage w) (newDealState pr rcv l) = Ret (pds, st, None)"
    using assms by (auto simp: validatePull_def Let_def split: if_splits sum.splits outcome.splits option.splits prod.splits)
  let ?d = "if UnsealPrice (rdProposal pds) > 0 then pds\<lparr>rdStatus := DealStatusFundsNeededUnseal, TotalSent := 0\<rparr>
            else pds\<lparr>TotalSent := 0, FundsReceived := 0\<rparr>"
  obtain w1 e1 where s: "saveRetrieval p ?d w = (w1, e1)" by (cases "saveRetrieval p ?d w")
  have "w' = w1"
    using assms a s by (auto simp: validatePull_def Let_def split: if_splits sum.splits option.splits)
  then show ?thesis using a s by (intro exI [of _ pds] exI [of _ "(st, None)"] exI [of _ ?d] exI [of _ e1]) auto
qed

locale retrieval_payments = retrieval_deal_repo "rpDeals p" view invar + voucher_sink "rpVoucherAdd p"
  for p :: "('r, 'q, 'p) retrievalProvider" and view :: "'r \<Rightarrow> dealIdentifier \<Rightarrow> ProviderDealState option" and invar :: "'r \<Rightarrow> bool"
begin

abbreviation inv :: "('r, 'q, 'p) rworld \<Rightarrow> bool" where
  "inv \<equiv> retrievalInv (rpEnv p) view invar"

abbreviation paid :: "ProviderDealState \<Rightarrow> bool" where
  "paid \<equiv> paidUp (rpEnv p)"

lemma save_inv:
  assumes "saveRetrieval p d w = (w', err)" "inv w" "paid d"
  shows "inv w'"
proof -
  obtain r where r: "rrSaveDeal (rpDeals p) (rwDeals w) d = (r, err)" "w' = w\<lparr>rwDeals := r\<rparr>"
    using assms(1) by (auto simp: saveRetrieval_def split: prod.splits)
  have i: "invar r" using save_invar r(1) assms(2) unfolding retrievalInv_def by blast
  have "view r = (case err of None \<Rightarrow> (view (rwDeals w))(Identifier d \<mapsto> d) | Some e \<Rightarrow> view (rwDeals w))"
    using save_ok save_failed r(1) by (auto split: option.splits)
  then show ?thesis using r(2) i assms(2,3) by (auto simp: retrievalInv_def split: option.splits if_splits)
qed

lemma saveHandled_inv: "saveHandled p d w = (d', w', err) \<Longrightarrow> inv w \<Longrightarrow> paid d \<Longrightarrow> inv w' \<and> d' = d"
  using save_inv by (auto simp: saveHandled_def split: prod.splits)

lemma ErrorDeal_inv:
  assumes "ErrorDeal p d e w = (d', w', err)" "inv w" "paid d"
  shows "inv w' \<and> paid d' \<and> rdProposal d' = rdProposal d \<and> FundsReceived d' = FundsReceived d"
  using assms saveHandled_inv by (cases e) (fastforce simp: ErrorDeal_def Let_def)+

lemma CancelDeal_inv:
  assumes "CancelDeal p d w = (d', w', err)" "inv w" "paid d"
  shows "inv w' \<and> paid d' \<and> rdProposal d' = rdProposal d \<and> FundsReceived d' = FundsReceived d"
proof -
  consider (err) v where "ErrorDeal p d None v = (d', w', err)" "inv v"
    | (save) v where "saveHandled p (d\<lparr>rdStatus := DealStatusCancelled\<rparr>) v = (d', w', err)" "inv v"
    using assms(1,2) unfolding CancelDeal_def Let_def by (auto split: option.splits if_splits)
  then show ?thesis
  proof cases
    case err then show ?thesis using ErrorDeal_inv assms(3) by blast
  next
    case save
    from saveHandled_inv [OF this] show ?thesis using assms(3) by auto
  qed
qed

lemma CleanupDeal_inv:
  assumes "CleanupDeal p d w = (d', w', err)" "inv w" "paid d"
  shows "inv w'"
proof (cases "DeleteStore (rpEnv p) (rdID (rdProposal d))")
  case None
  then have "saveHandled p (d\<lparr>rdStatus := DealStatusCompleted\<rparr>) w = (d', w', err)" using assms(1) by (simp add: CleanupDeal_def)
  from saveHandled_inv [OF this assms(2)] show ?thesis using assms(3) by simp
next
  case (Some e)
  then show ?thesis using assms ErrorDeal_inv by (auto simp: CleanupDeal_def)
qed

lemma UnsealData_inv:
  assumes run: "UnsealData p d w = (d', w', err)" and i: "inv w" and pd: "paid d"
  shows "inv w'"
proof -
  let ?d1 = "d\<lparr>rdStatus := DealStatusUnsealing\<rparr>" and ?d2 = "d\<lparr>rdStatus := DealStatusUnsealed\<rparr>"
  obtain w1 e1 where s1: "saveRetrieval p ?d1 w = (w1, e1)" by (cases "saveRetrieval p ?d1 w")
  have i1: "inv w1" using save_inv [OF s1 i] pd by simp
  obtain w2 e2 where s2: "saveRetrieval p ?d2 w1 = (w2, e2)" by (cases "saveRetrieval p ?d2 w1")
  have i2: "inv w2" using save_inv [OF s2 i1] pd by simp
  consider "w' = w1" | "CancelDeal p ?d1 w1 = (d', w', err)" | "w' = w2"
    | v where "saveHandled p ?d2 v = (d', w', err)" "inv v" | v where "saveHandled p (?d2\<lparr>rdStatus := DealStatusErrored\<rparr>) v = (d', w', err)" "inv v"
    using run s1 s2 i2 unfolding UnsealData_def Let_def
    by (auto split: option.splits sum.splits prod.splits)
  then show ?thesis
  proof cases
    case 1 then show ?thesis using i1 by simp
  next
    case 2 from CancelDeal_inv [OF this i1] show ?thesis using pd by simp
  next
    case 3 then show ?thesis using i2 by simp
  next
    case 4 from saveHandled_inv [OF this] show ?thesis using pd by simp
  next
    case 5 from saveHandled_inv [OF this] show ?thesis using pd by simp
  qed
qed

lemma got_paid:
  assumes "inv w" "rrGetDeal (rpDeals p) (rwDeals w) q i = Inr d"
  shows "paid d"
  using assms get_sound unfolding retrievalInv_def by blast

lemma by_transfer_paid:
  assumes "inv w" "rrGetDealByTransferId (rpDeals p) (rwDeals w) ch = Ret (Inr d)"
  shows "paid d"
  using assms by_transfer_sound unfolding retrievalInv_def by blast

lemma processPayment_inv:
  assumes run: "processPayment p d payment w = Ret (resp, err, d', w')" and i: "inv w" and pd: "paid d"
  shows "inv w'"
proof -
  obtain received e pm where add: "rpVoucherAdd p (rwPaych w) (PaymentChannel payment) (PaymentVoucher payment) = Ret ((received, e), pm)"
    using run by (auto simp: processPayment_def split: outcome.splits)
  let ?w1 = "w\<lparr>rwPaych := pm\<rparr>" and ?d1 = "d\<lparr>FundsReceived := FundsReceived d + received\<rparr>"
  have i1: "inv ?w1" using i by simp
  show ?thesis
  proof (cases e)
    case (Some x)
    then obtain d2 e2 where "CancelDeal p d ?w1 = (d2, w', e2)" using run add by (auto simp: processPayment_def split: prod.splits)
    then show ?thesis using CancelDeal_inv i1 pd by blast
  next
    case None
    have pos: "0 \<le> received" using add_nonneg add None by blast
    have p1: "paid ?d1" using paidUp_more [OF pd] pos by simp
    show ?thesis
    proof (cases "paymentOwed (rpEnv p) d (FundsReceived d + received) > 0")
      case True
      obtain w2 e2 where s: "saveRetrieval p ?d1 ?w1 = (w2, e2)" by (cases "saveRetrieval p ?d1 ?w1")
      have i2: "inv w2" using save_inv [OF s i1 p1] .
      have "w' = w2 \<or> (\<exists>d2 e3. CancelDeal p ?d1 w2 = (d2, w', e3))"
        using run add None True s by (auto simp: processPayment_def Let_def split: option.splits prod.splits)
      then show ?thesis using i2 CancelDeal_inv [OF _ i2 p1] by blast
    next
      case False
      obtain d2 r2 err2 unseal where r: "resumeDeal (rpEnv p) d received = (d2, r2, err2, unseal)"
        by (cases "resumeDeal (rpEnv p) d received")
      have "paymentOwed (rpEnv p) d (FundsReceived d + received) \<le> 0" using False by simp
      note res = resumeDeal_paid [OF r this pd pos]
      obtain w2 e2 where s: "saveRetrieval p d2 ?w1 = (w2, e2)" by (cases "saveRetrieval p d2 ?w1")
      have i2: "inv w2" using save_inv [OF s i1 res(1)] .
      obtain d3 w3 e3 where c: "CancelDeal p d2 w2 = (d3, w3, e3)" by (cases "CancelDeal p d2 w2")
      have i3: "inv w3 \<and> paid d3 \<and> UnsealPrice (rdProposal d3) \<le> FundsReceived d3"
        using CancelDeal_inv [OF c i2 res(1)] res(4) by auto
      have "w' = w2 \<or> w' = w2\<lparr>rwGo := rwGo w2 @ [d2]\<rparr> \<or> w' = w3 \<or> w' = w3\<lparr>rwGo := rwGo w3 @ [d3]\<rparr>"
        using run add None False r s c by (auto simp: processPayment_def Let_def split: option.splits if_splits)
      then show ?thesis using i2 i3 res retrievalInv_go by blast
    qed
  qed
qed

lemma Revalidate_inv:
  assumes "Revalidate p ch v w = Ret (resp, err, w')" "inv w"
  shows "inv w'"
proof -
  have "w' = w \<or> (\<exists>d payment r e d'. rrGetDeal (rpDeals p) (rwDeals w) (Initiator ch) (dpID payment) = Inr d \<and>
      processPayment p d payment w = Ret (r, e, d', w'))"
    using assms(1) unfolding Revalidate_def Let_def
    by (auto split: dtVoucher.splits sum.splits if_splits outcome.splits prod.splits)
  then show ?thesis using assms(2) processPayment_inv got_paid by blast
qed

lemma byTransfer_inv:
  assumes "byTransfer p ch w k = Ret (a, b, c, w')" "inv w" "\<And>d a b c w'. paid d \<Longrightarrow> k d = (a, b, c, w') \<Longrightarrow> inv w'"
  shows "inv w'"
proof -
  have "w' = w \<or> (\<exists>d. rrGetDealByTransferId (rpDeals p) (rwDeals w) ch = Ret (Inr d) \<and> k d = (a, b, c, w'))"
    using assms(1) unfolding byTransfer_def by (auto split: outcome.splits sum.splits if_splits)
  then show ?thesis using assms(2,3) by_transfer_paid [OF assms(2)] by blast
qed

lemma OnPullDataSent_inv:
  assumes "OnPullDataSent p ch n w = Ret (a, b, c, w')" "inv w"
  shows "inv w'"
  using assms(1) unfolding OnPullDataSent_def
proof (rule byTransfer_inv [OF _ assms(2)])
  fix d a b c w'
  assume pd: "paid d" and k: "(let totalSent = TotalSent d + n; totalPaidFor = TotalPaidFor (rpEnv p) d; price = PricePerByte (rdProposal d)
       in if price = 0 \<or> totalSent < CurrentInterval d then
            (case saveRetrieval p (d\<lparr>rdStatus := DealStatusOngoing, TotalSent := totalSent\<rparr>) w of
               (w', err) \<Rightarrow> (True, None, err, w'))
          else
            (let owed = sint (totalSent - totalPaidFor) * price in
             case saveRetrieval p (d\<lparr>TotalSent := totalSent, rdStatus := requestStatus (rdStatus d)\<rparr>) w of
               (w', Some e) \<Rightarrow> (True, None, Some e, w')
             | (w', None) \<Rightarrow>
                 (True, finalResponse (Some \<lparr>drID = rdID (rdProposal d), drStatus = DealStatusFundsNeeded,
                    drPaymentOwed = Some owed, drMessage = []\<rparr>) (LegacyProtocol d), Some ErrPause, w'))) = (a, b, c, w')"
  have "\<exists>d1 e. paid d1 \<and> saveRetrieval p d1 w = (w', e)"
  proof (cases "PricePerByte (rdProposal d) = 0 \<or> TotalSent d + n < CurrentInterval d")
    case True
    then have "\<exists>e. saveRetrieval p (d\<lparr>rdStatus := DealStatusOngoing, TotalSent := TotalSent d + n\<rparr>) w = (w', e)"
      using k by (auto simp: Let_def split: prod.splits)
    then show ?thesis using pd paidUp_update by metis
  next
    case False
    then have "\<exists>e. saveRetrieval p (d\<lparr>TotalSent := TotalSent d + n, rdStatus := requestStatus (rdStatus d)\<rparr>) w = (w', e)"
      using k by (auto simp: Let_def split: prod.splits option.splits)
    then show ?thesis using pd paidUp_update by metis
  qed
  then show "inv w'" using save_inv [OF _ assms(2)] by blast
qed

lemma OnComplete_inv:
  assumes "OnComplete p ch w = Ret (a, b, c, w')" "inv w"
  shows "inv w'"
  using assms(1) unfolding OnComplete_def
proof (rule byTransfer_inv [OF _ assms(2)])
  fix d a b c w'
  assume pd: "paid d" and k: "(let deal = d\<lparr>rdStatus := DealStatusBlocksComplete\<rparr> in
       case saveRetrieval p deal w of
         (w1, Some e) \<Rightarrow> (True, None, Some e, w1)
       | (w1, None) \<Rightarrow>
           (let totalSent = TotalSent deal;
                owed = sint (totalSent - TotalPaidFor (rpEnv p) deal) * PricePerByte (rdProposal deal)
            in if owed = 0 then
                 (True, finalResponse (Some \<lparr>drID = rdID (rdProposal deal), drStatus = DealStatusCompleted, drPaymentOwed = None, drMessage = []\<rparr>)
                    (LegacyProtocol deal), None, w1)
               else
                 (case saveRetrieval p (deal\<lparr>rdStatus := DealStatusFundsNeededLastPayment, TotalSent := totalSent\<rparr>) w1 of
                    (w2, Some e) \<Rightarrow> (True, None, Some e, w2)
                  | (w2, None) \<Rightarrow>
                      (True, finalResponse (Some \<lparr>drID = rdID (rdProposal deal), drStatus = DealStatusFundsNeededLastPayment,
                         drPaymentOwed = Some owed, drMessage = []\<rparr>) (LegacyProtocol deal), Some ErrPause, w2)))) = (a, b, c, w')"
  let ?d = "d\<lparr>rdStatus := DealStatusBlocksComplete\<rparr>"
  obtain w1 e1 where s: "saveRetrieval p ?d w = (w1, e1)" by (cases "saveRetrieval p ?d w")
  have i1: "inv w1" using save_inv [OF s assms(2)] pd by simp
  have "w' = w1 \<or> (\<exists>e. saveRetrieval p (?d\<lparr>rdStatus := DealStatusFundsNeededLastPayment, TotalSent := TotalSent ?d\<rparr>) w1 = (w', e))"
    using k s by (auto simp: Let_def split: if_splits prod.splits option.splits)
  then show "inv w'" using i1 save_inv [OF _ i1] pd by auto
qed

lemma forDeal_inv:
  assumes "inv w" "\<And>d d' w' e. paid d \<Longrightarrow> k d = (d', w', e) \<Longrightarrow> inv w'"
  shows "inv (fst (forDeal p ident w k))"
proof (cases "rrGetDeal (rpDeals p) (rwDeals w) (fst ident) (snd ident)")
  case (Inl e)
  then show ?thesis using assms(1) by (simp add: forDeal_def)
next
  case (Inr d)
  obtain d' w' e where k: "k d = (d', w', e)" by (cases "k d")
  then show ?thesis using assms(2) [OF got_paid [OF assms(1) Inr] k] Inr by (simp add: forDeal_def)
qed

lemma HandleAcceptFor_inv:
  assumes "inv w"
  shows "inv (fst (HandleAcceptFor p ident ch w))"
  unfolding HandleAcceptFor_def
proof (rule forDeal_inv [OF assms])
  fix d d' :: ProviderDealState and w' e
  let ?d = "d\<lparr>rdChannelID := Some ch\<rparr>"
  assume pd: "paid d" and k: "(let deal = d\<lparr>rdChannelID := Some ch\<rparr> in
       case saveRetrieval p deal w of
         (w1, Some e) \<Rightarrow> (deal, w1, Some e)
       | (w1, None) \<Rightarrow>
           (case rdStatus deal of
              DealStatusFundsNeededUnseal \<Rightarrow> (deal, w1, None)
            | DealStatusNew \<Rightarrow> UnsealData p deal w1
            | _ \<Rightarrow> (deal, w1, Some (ErrMsg ''invalid state transition'')))) = (d', w', e)"
  obtain w1 e1 where s: "saveRetrieval p ?d w = (w1, e1)" by (cases "saveRetrieval p ?d w")
  have i1: "inv w1" using save_inv [OF s assms] pd by simp
  have "w' = w1 \<or> UnsealData p ?d w1 = (d', w', e)"
    using k s by (auto simp: Let_def split: option.splits DealStatus.splits)
  then show "inv w'" using i1 UnsealData_inv [OF _ i1] pd by auto
qed

lemma Subscriber_inv: "inv w \<Longrightarrow> inv (ProviderDataTransferSubscriber p ev cs w)"
proof -
  assume i: "inv w"
  have complete: "inv (fst (HandleCompleteFor p ident v))" if "inv v" for ident v
    unfolding HandleCompleteFor_def by (rule forDeal_inv [OF that]) (use CleanupDeal_inv that in blast)
  have err: "inv (fst (HandleDisconnectFor p ident x v))" "inv (fst (HandleErrorForDeal p ident x v))" if "inv v" for ident x v
    unfolding HandleDisconnectFor_def HandleErrorForDeal_def
    by (rule forDeal_inv [OF that], use ErrorDeal_inv that in blast)+
  have cancel: "inv (fst (HandleCancelForDeal p ident v))" if "inv v" for ident v
    unfolding HandleCancelForDeal_def
  proof (rule forDeal_inv [OF that])
    fix d d' w' e
    assume pd: "paid d" and k: "saveHandled p
         (case rdStatus d of
            DealStatusFailing \<Rightarrow> d
          | DealStatusCancelling \<Rightarrow> d
          | _ \<Rightarrow> d\<lparr>rdMessage := ''Client cancelled retrieval''\<rparr>) v = (d', w', e)"
    have "paid (case rdStatus d of
            DealStatusFailing \<Rightarrow> d
          | DealStatusCancelling \<Rightarrow> d
          | _ \<Rightarrow> d\<lparr>rdMessage := ''Client cancelled retrieval''\<rparr>)" using pd by (auto split: DealStatus.splits)
    then show "inv w'" using saveHandled_inv [OF k that] by simp
  qed
  show ?thesis
    using i complete err cancel HandleAcceptFor_inv
    by (auto simp: ProviderDataTransferSubscriber_def Let_def split: option.splits dtEvent.splits)
qed

lemma ValidatePull_inv:
  assumes "ValidatePull p env b rcv v c sel w = Ret (resp, err, w')" "inv w"
  shows "inv w'"
proof -
  have new: "paid (d\<lparr>rdStatus := st, TotalSent := 0\<rparr>)" "paid (d\<lparr>TotalSent := 0, FundsReceived := 0\<rparr>)"
    if "acceptDeal env (rpStorage p) s (newDealState pr q l) = Ret (d, x)" for st s pr l q x and d :: ProviderDealState
  proof -
    have "\<exists>c. d = (newDealState pr q l)\<lparr>SelStorageProposalCid := c\<rparr>"
      using that unfolding acceptDeal_def Let_def
      by (auto split: outcome.splits sum.splits list.splits option.splits if_splits intro: exI [of _ Undef] simp: newDealState_def)
    then show "paid (d\<lparr>rdStatus := st, TotalSent := 0\<rparr>)" "paid (d\<lparr>TotalSent := 0, FundsReceived := 0\<rparr>)"
      by (auto simp: newDealState_def paidUp_def)
  qed
  obtain pr l r where v: "w' = w \<or> validatePull p env b rcv pr l c sel w = Ret (r, err, w')"
    using assms(1) unfolding ValidatePull_def by (auto split: dtVoucher.splits outcome.splits)
  have "w' = w \<or> (\<exists>d e. paid d \<and> saveRetrieval p d w = (w', e))"
  proof (cases "w' = w")
    case False
    then have vp: "validatePull p env b rcv pr l c sel w = Ret (r, err, w')" using v by simp
    obtain pds x d e where "acceptDeal env (rpStorage p) (rwStorage w) (newDealState pr rcv l) = Ret (pds, x)"
      and d: "d = pds\<lparr>rdStatus := DealStatusFundsNeededUnseal, TotalSent := 0\<rparr> \<or> d = pds\<lparr>TotalSent := 0, FundsReceived := 0\<rparr>"
      and s: "saveRetrieval p d w = (w', e)"
      using validatePull_saves [OF vp False] by metis
    then have "paid d" using new d by metis
    then show ?thesis using s by metis
  qed simp
  then show ?thesis using assms(2) save_inv by blast
qed

end

section \<open>Runs\<close>

text \<open>What can happen at the retrieval provider: a request is validated, a payment arrives, bytes were sent, a transfer
  ends or another event of it is delivered, a goroutine unseals the data with the deal it was started with, or the
  storage deals change.\<close>

inductive retr_step :: "('r, 'q, 'p) retrievalProvider \<Rightarrow> pieceEnv \<Rightarrow> ('r, 'q, 'p) rworld \<Rightarrow> ('r, 'q, 'p) rworld \<Rightarrow> bool"
  for p env where
  validate: "ValidatePull p env isRestart receiver v baseCid selector w = Ret (resp, err, w') \<Longrightarrow> retr_step p env w w'"
| revalidate: "Revalidate p ch v w = Ret (resp, err, w') \<Longrightarrow> retr_step p env w w'"
| sent: "OnPullDataSent p ch n w = Ret (handled, resp, err, w') \<Longrightarrow> retr_step p env w w'"
| complete: "OnComplete p ch w = Ret (handled, resp, err, w') \<Longrightarrow> retr_step p env w w'"
| event: "retr_step p env w (ProviderDataTransferSubscriber p ev cs w)"
| unseal: "d \<in> set (rwGo w) \<Longrightarrow> UnsealData p d w = (d', w', err) \<Longrightarrow> retr_step p env w (w'\<lparr>rwGo := remove1 d (rwGo w')\<rparr>)"
| storage: "retr_step p env w (w\<lparr>rwStorage := q\<rparr>)"

inductive retr_reachable :: "('r, 'q, 'p) retrievalProvider \<Rightarrow> pieceEnv \<Rightarrow> ('r, 'q, 'p) rworld \<Rightarrow> ('r, 'q, 'p) rworld \<Rightarrow> bool"
  for p env w0 where
  start: "retr_reachable p env w0 w0"
| next_step: "retr_reachable p env w0 w \<Longrightarrow> retr_step p env w w' \<Longrightarrow> retr_reachable p env w0 w'"

lemma retrievalInv_remove_go:
  assumes "retrievalInv env view invar w"
  shows "retrievalInv env view invar (w\<lparr>rwGo := remove1 d (rwGo w)\<rparr>)"
  using assms set_remove1_subset [of d "rwGo w"] by (auto simp: retrievalInv_def)

lemma retr_step_inv:
  assumes "retrieval_payments p view invar" "retr_step p env w w'" "retrievalInv (rpEnv p) view invar w"
  shows "retrievalInv (rpEnv p) view invar w'"
  using assms(2)
proof cases
  case validate
  then show ?thesis using retrieval_payments.ValidatePull_inv [OF assms(1)] assms(3) by metis
next
  case revalidate
  then show ?thesis using retrieval_payments.Revalidate_inv [OF assms(1)] assms(3) by metis
next
  case sent
  then show ?thesis using retrieval_payments.OnPullDataSent_inv [OF assms(1)] assms(3) by metis
next
  case complete
  then show ?thesis using retrieval_payments.OnComplete_inv [OF assms(1)] assms(3) by metis
next
  case event
  then show ?thesis using retrieval_payments.Subscriber_inv [OF assms(1,3)] by simp
next
  case (unseal d d' w1 err)
  have "paidUp (rpEnv p) d" using unseal(2) assms(3) by (auto simp: retrievalInv_def)
  then show ?thesis
    using unseal(1) retrieval_payments.UnsealData_inv [OF assms(1) unseal(3) assms(3)] by (simp add: retrievalInv_remove_go)
next
  case storage
  then show ?thesis using assms(3) by simp
qed


section \<open>A concrete run\<close>

definition demo_renv :: retrievalEnv where
  "demo_renv = \<lparr>rErrText = (\<lambda>_. ''error''), LoadShard = (\<lambda>_. None), Track = (\<lambda>_. None), Untrack = (\<lambda>_. None),
     ResumeDataTransferChannel = (\<lambda>_. None), CloseDataTransferChannel = (\<lambda>_. None), IsCtxDone = (\<lambda>_. False),
     nextInterval = (\<lambda>pr c. c + PaymentInterval pr), intervalLowerBound = (\<lambda>pr c. c - PaymentInterval pr),
     TotalPaidFor = (\<lambda>d. of_int ((FundsReceived d - UnsealPrice (rdProposal d)) div PricePerByte (rdProposal d))),
     MigrateDealPayment0To1 = (\<lambda>_. \<lparr>dpID = 0, PaymentChannel = [], PaymentVoucher = \<lparr>svChannelAddr = [], svTimeLockMin = 0, svTimeLockMax = 0,
       svSecretHash = [], svExtra = None, svLane = 0, svNonce = 0, svAmount = 0, svMinSettleHeight = 0, svMerges = [], svSignature = None\<rparr>\<rparr>),
     MigrateDealProposal0To1 = (\<lambda>_. \<lparr>PayloadCID = [], rdID = 0, rdPieceCID = None, Selector = None, PricePerByte = 0, PaymentInterval = 0,
       PaymentIntervalIncrease = 0, UnsealPrice = 0\<rparr>)\<rparr>"

definition demo_payment :: "int \<Rightarrow> DealPayment" where
  "demo_payment amt = \<lparr>dpID = 1, PaymentChannel = ''ch'', PaymentVoucher = \<lparr>svChannelAddr = ''ch'', svTimeLockMin = 0, svTimeLockMax = 0,
     svSecretHash = [], svExtra = None, svLane = 0, svNonce = 0, svAmount = amt, svMinSettleHeight = 0, svMerges = [], svSignature = None\<rparr>\<rparr>"

definition demo_rprop :: RetrievalProposal where
  "demo_rprop = \<lparr>PayloadCID = ''payload'', rdID = 1, rdPieceCID = Some ''piece'', Selector = None, PricePerByte = 2, PaymentInterval = 100,
     PaymentIntervalIncrease = 0, UnsealPrice = 5\<rparr>"

definition demo_penv :: pieceEnv where
  "demo_penv = \<lparr>GetPiecesContainingBlock = (\<lambda>_. Inr []), encodeSelector = Inr, allSelectorBytes = ''all'', Unpadded = (\<lambda>n. n),
     getRetrievalAsk = (\<lambda>_. Inr \<lparr>raMiner = ''pay'', raPricePerByte = 2, raUnsealPrice = Some 5, raPaymentInterval = 100, raPaymentIntervalIncrease = 10\<rparr>),
     paymentAddr = ''pay''\<rparr>"

definition demo_rp :: "((ds_key \<times> ProviderDealState) list, (ds_key \<times> MinerDeal) list, int) retrievalProvider" where
  "demo_rp = \<lparr>rpEnv = demo_renv, rpDeals = NewRetrievalDealRepo map_retrieval_deals, rpStorage = NewStorageDealRepo id map_deal_store,
     rpVoucherAdd = (\<lambda>pm ch sv. Ret ((max 0 (svAmount sv - pm), None), max pm (svAmount sv)))\<rparr>"

definition demo_rw :: "((ds_key \<times> ProviderDealState) list, (ds_key \<times> MinerDeal) list, int) rworld" where
  "demo_rw = \<lparr>rwDeals = [], rwStorage = [([''p1''], (demo_md ''p1'' 7 128)\<lparr>mdState := StorageDealActive\<rparr>)], rwPaych = 0, rwLog = [], rwGo = []\<rparr>"

definition demo_ch :: ChannelID where
  "demo_ch = \<lparr>Initiator = ''cli'', Responder = ''me'', chanID = 1\<rparr>"

lemma demo_rp_payments:
  "retrieval_payments demo_rp (value_view map_of (rdCodec map_retrieval_deals) (rdKey map_retrieval_deals))
     (value_invar map_of (rdCodec map_retrieval_deals) (rdKey map_retrieval_deals) Identifier)"
proof -
  have "voucher_sink (rpVoucherAdd demo_rp)" by unfold_locales (auto simp: demo_rp_def)
  moreover have "rpDeals demo_rp = NewRetrievalDealRepo map_retrieval_deals" by (simp add: demo_rp_def)
  ultimately show ?thesis
    using mapretr.retrieval_deal_repo_axioms unfolding retrieval_payments_def by simp
qed

definition demo_rw1 :: "((ds_key \<times> ProviderDealState) list, (ds_key \<times> MinerDeal) list, int) rworld" where
  "demo_rw1 = (case ValidatePull demo_rp demo_penv False ''cli'' (VDealProposal demo_rprop) ''payload'' ''all'' demo_rw of
     Ret (_, _, w) \<Rightarrow> w | Panic _ \<Rightarrow> demo_rw)"

definition demo_rw2 :: "((ds_key \<times> ProviderDealState) list, (ds_key \<times> MinerDeal) list, int) rworld" where
  "demo_rw2 = (case Revalidate demo_rp demo_ch (VDealPayment (demo_payment 5)) demo_rw1 of Ret (_, _, w) \<Rightarrow> w | Panic _ \<Rightarrow> demo_rw1)"

lemma demo_rw_reachable: "retr_reachable demo_rp demo_penv demo_rw demo_rw2"
proof -
  have "(case ValidatePull demo_rp demo_penv False ''cli'' (VDealProposal demo_rprop) ''payload'' ''all'' demo_rw of Ret _ \<Rightarrow> True | Panic _ \<Rightarrow> False) = True"
    by code_simp
  then have 1: "retr_step demo_rp demo_penv demo_rw demo_rw1"
    unfolding demo_rw1_def by (auto split: outcome.splits intro: retr_step.validate)
  have "(case Revalidate demo_rp demo_ch (VDealPayment (demo_payment 5)) demo_rw1 of Ret _ \<Rightarrow> True | Panic _ \<Rightarrow> False) = True"
    by code_simp
  then have "retr_step demo_rp demo_penv demo_rw1 demo_rw2"
    unfolding demo_rw2_def by (auto split: outcome.splits intro: retr_step.revalidate)
  then show ?thesis using retr_reachable.next_step [OF retr_reachable.next_step [OF retr_reachable.start 1]] by blast
qed


end
