(* ===== verification/Retrieval_Lookup.thy ===== *)
theory Retrieval_Lookup
  imports Retrieval_Props
begin

text \<open>
  What a retrieval finds and what its payments do: the deals that \<open>GetPieceInfoFromCid\<close> returns over the badger
  repository, and the behaviour of the revalidator on single calls, errors included.
\<close>

section \<open>Finding the data\<close>

lemma addNew_distinct:
  "distinct (map ProposalCid acc) \<Longrightarrow> distinct (map ProposalCid (addNew acc ds)) \<and> set (addNew acc ds) \<subseteq> set acc \<union> set ds \<and>
     set acc \<subseteq> set (addNew acc ds)"
  by (induction acc ds rule: addNew.induct) auto

lemma NewStorageDealRepo_retrieval_sel [simp]:
  "sdGetDealsByPieceCidAndStatus (NewStorageDealRepo mo st) = GetDealsByPieceCidAndStatus st"
  "sdGetDealsByDataCidAndDealStatus (NewStorageDealRepo mo st) = GetDealsByDataCidAndDealStatus st"
  by (simp_all add: NewStorageDealRepo_def)

text \<open>A stored deal whose data can be retrieved: ready by its state, or its piece is being proven and holds the payload.\<close>

definition retrievable :: "cid \<Rightarrow> MinerDeal \<Rightarrow> bool" where
  "retrievable payloadCID d \<longleftrightarrow> mdState d \<in> set ReadyRetrievalDealStatus \<or> mdPieceStatus d = Proving \<and> Root (Ref d) = payloadCID"

context badger_deals
begin

lemma by_piece_ready:
  assumes "deal_invar contents st s" "GetDealsByPieceCidAndStatus st s c ReadyRetrievalDealStatus = Ret (Inr ds)"
  shows "ds \<noteq> [] \<and> distinct (map ProposalCid ds) \<and>
    (\<forall>d \<in> set ds. deal_view contents st s (ProposalCid d) = Some d \<and> retrievable payloadCID d)"
proof -
  have "ds \<noteq> []" using assms(2)
    by (auto simp: GetDealsByPieceCidAndStatus_def afterTravel_def orNotFound_def split: outcome.splits option.splits if_splits)
  then show ?thesis
    using collected_stored [OF assms(1) assms(2) [unfolded GetDealsByPieceCidAndStatus_def]] by (auto simp: retrievable_def)
qed

lemma by_data_ready:
  assumes "deal_invar contents st s" "GetDealsByDataCidAndDealStatus st s Undef payloadCID [Proving] = Ret (Inr ds)"
  shows "distinct (map ProposalCid ds) \<and> (\<forall>d \<in> set ds. deal_view contents st s (ProposalCid d) = Some d \<and> retrievable payloadCID d)"
  using collected_stored [OF assms(1) assms(2) [unfolded GetDealsByDataCidAndDealStatus_def]] by (auto simp: retrievable_def)

lemma lookups_return:
  "\<exists>x. GetDealsByPieceCidAndStatus st s c sts = Ret x" "\<exists>x. GetDealsByDataCidAndDealStatus st s m c pss = Ret x"
  by (auto simp: GetDealsByPieceCidAndStatus_def GetDealsByDataCidAndDealStatus_def afterTravel_def travelDeals_def travelLoop_collect
      split: sum.splits option.splits)

lemma piecesLoop_ready:
  assumes "deal_invar contents st s"
  shows "\<exists>x. piecesLoop (NewStorageDealRepo mo st) s acc pieces = Ret x"
    and "piecesLoop (NewStorageDealRepo mo st) s acc pieces = Ret (Inr ds) \<Longrightarrow> distinct (map ProposalCid acc) \<Longrightarrow>
      (\<forall>d \<in> set acc. deal_view contents st s (ProposalCid d) = Some d \<and> retrievable payloadCID d) \<Longrightarrow>
      distinct (map ProposalCid ds) \<and> (\<forall>d \<in> set ds. deal_view contents st s (ProposalCid d) = Some d \<and> retrievable payloadCID d)"
proof (induction pieces arbitrary: acc)
  case (Cons c pieces)
  obtain x where x: "GetDealsByPieceCidAndStatus st s c ReadyRetrievalDealStatus = Ret x" using lookups_return(1) by blast
  case 1
  show ?case using x Cons.IH(1) by (cases x) auto
  case 2
  then obtain new where new: "x = Inr new" "piecesLoop (NewStorageDealRepo mo st) s (addNew acc new) pieces = Ret (Inr ds)"
    using x by (auto split: sum.splits)
  have a: "distinct (map ProposalCid (addNew acc new))" "set (addNew acc new) \<subseteq> set acc \<union> set new"
    using addNew_distinct 2(2) by auto
  have "\<forall>d \<in> set (addNew acc new). deal_view contents st s (ProposalCid d) = Some d \<and> retrievable payloadCID d"
    using a(2) 2(3) by_piece_ready [OF assms, of c new] x new(1) by blast
  then show ?case using Cons.IH(2) [OF new(2) a(1)] by blast
qed auto

end

text \<open>Over the badger repository the lookup for a retrieval never panics, and when it succeeds it returns at
  least one deal, each deal once, and only stored deals whose data can be retrieved: they await precommit, are being
  sealed or are active, or their piece is proven and their payload is the one asked for. So the first deal that the
  validator and the query handler take from the list exists.\<close>

theorem GetPieceInfoFromCid_ready:
  assumes "badger_deals st contents" "deal_invar contents st s"
  shows "\<exists>x. GetPieceInfoFromCid env (NewStorageDealRepo mo st) s payloadCID piececid = Ret x \<and>
    (\<forall>ds. x = Inr ds \<longrightarrow> ds \<noteq> [] \<and> distinct (map ProposalCid ds) \<and>
       (\<forall>d. d \<in> set ds \<longrightarrow> deal_view contents st s (ProposalCid d) = Some d \<and> retrievable payloadCID d))"
proof (cases "case piececid of None \<Rightarrow> False | Some c \<Rightarrow> c \<noteq> Undef")
  case True
  obtain x where "GetDealsByPieceCidAndStatus st s (the piececid) ReadyRetrievalDealStatus = Ret x"
    using badger_deals.lookups_return(1) [OF assms(1)] by blast
  then show ?thesis
    using True badger_deals.by_piece_ready [OF assms, of "the piececid"] by (cases x) (auto simp: GetPieceInfoFromCid_def)
next
  case False
  obtain r where r: "GetDealsByDataCidAndDealStatus st s Undef payloadCID [Proving] = Ret r"
    using badger_deals.lookups_return(2) [OF assms(1)] by blast
  define acc where "acc = addNew [] (case r of Inl _ \<Rightarrow> [] | Inr deals \<Rightarrow> deals)"
  have acc: "distinct (map ProposalCid acc)" "\<forall>d \<in> set acc. deal_view contents st s (ProposalCid d) = Some d \<and> retrievable payloadCID d"
    using addNew_distinct [of "[]"] badger_deals.by_data_ready [OF assms, of payloadCID] r
    by (auto simp: acc_def split: sum.splits)
  show ?thesis
  proof (cases "GetPiecesContainingBlock env payloadCID")
    case (Inl e)
    then show ?thesis using False r by (simp add: GetPieceInfoFromCid_def split: sum.splits)
  next
    case (Inr pieces)
    obtain y where y: "piecesLoop (NewStorageDealRepo mo st) s acc pieces = Ret y"
      using badger_deals.piecesLoop_ready(1) [OF assms] by blast
    have "distinct (map ProposalCid ds) \<and> (\<forall>d \<in> set ds. deal_view contents st s (ProposalCid d) = Some d \<and> retrievable payloadCID d)"
      if "y = Inr ds" for ds using badger_deals.piecesLoop_ready(2) [OF assms, of mo acc pieces ds payloadCID] y that acc by blast
    then show ?thesis using False r y Inr by (cases y) (auto simp: GetPieceInfoFromCid_def Let_def acc_def split: sum.splits)
  qed
qed

theorem GetPieceInfoFromCid_ready_witness:
  "GetPieceInfoFromCid demo_penv (NewStorageDealRepo id map_deal_store) (rwStorage demo_rw) ''payload'' (Some ''piece'') =
     Ret (Inr [(demo_md ''p1'' 7 128)\<lparr>mdState := StorageDealActive\<rparr>]) \<and>
   retrievable ''payload'' ((demo_md ''p1'' 7 128)\<lparr>mdState := StorageDealActive\<rparr>)"
proof -
  have i: "deal_invar map_of map_deal_store (rwStorage demo_rw)"
    by (auto simp: deal_invar_def demo_rw_def demo_md_def split: if_splits)
  have "GetPieceInfoFromCid demo_penv (NewStorageDealRepo id map_deal_store) (rwStorage demo_rw) ''payload'' (Some ''piece'') =
     Ret (Inr [(demo_md ''p1'' 7 128)\<lparr>mdState := StorageDealActive\<rparr>])" by code_simp
  then show ?thesis
    using GetPieceInfoFromCid_ready [OF mapdeals.badger_deals_axioms i, of demo_penv id "''payload''" "Some ''piece''"] by auto
qed

text \<open>A piece that contains the block and has no ready deal ends the lookup by payload with an error, whatever was found
  before: the badger repository reports no deals as the error \<open>ErrNotFound\<close>.\<close>

lemma piecesLoop_fails:
  assumes "badger_deals st contents" "c \<in> set pieces" "GetDealsByPieceCidAndStatus st s c ReadyRetrievalDealStatus = Ret (Inl e0)"
  shows "\<exists>e. piecesLoop (NewStorageDealRepo mo st) s acc pieces = Ret (Inl e)"
  using assms(2)
proof (induction pieces arbitrary: acc)
  case (Cons a pieces)
  obtain x where x: "GetDealsByPieceCidAndStatus st s a ReadyRetrievalDealStatus = Ret x"
    using badger_deals.lookups_return(1) [OF assms(1)] by blast
  then show ?case using Cons assms(3) by (cases x) auto
qed simp

theorem unready_piece_fails:
  assumes "badger_deals st contents" "GetPiecesContainingBlock env payloadCID = Inr pieces" "c \<in> set pieces"
    and "GetDealsByPieceCidAndStatus st s c ReadyRetrievalDealStatus = Ret (Inl ErrNotFound)"
  shows "\<exists>e. GetPieceInfoFromCid env (NewStorageDealRepo mo st) s payloadCID None = Ret (Inl e)"
proof -
  obtain r where "GetDealsByDataCidAndDealStatus st s Undef payloadCID [Proving] = Ret r"
    using badger_deals.lookups_return(2) [OF assms(1)] by blast
  moreover obtain e where "piecesLoop (NewStorageDealRepo mo st) s (addNew [] (case r of Inl _ \<Rightarrow> [] | Inr deals \<Rightarrow> deals)) pieces = Ret (Inl e)"
    using piecesLoop_fails [OF assms(1,3,4)] by blast
  ultimately show ?thesis using assms(2) by (cases r) (auto simp: GetPieceInfoFromCid_def Let_def)
qed

section \<open>Bytes and payments\<close>

text \<open>When bytes were sent for a known transfer and the deal can be saved, the stored deal counts them (in 64
  bits), and the transfer is paused exactly when the data has a price and the count reaches the current interval; the
  client is then asked for the price of the bytes sent and not paid for.\<close>

theorem OnPullDataSent_counts:
  assumes "retrieval_deal_repo (rpDeals p) view invar" "invar (rwDeals w)"
    and deal: "rrGetDealByTransferId (rpDeals p) (rwDeals w) chid = Ret (Inr d)"
    and saves: "\<And>x. snd (rrSaveDeal (rpDeals p) (rwDeals w) x) = None"
  shows "\<exists>resp err w' d'. OnPullDataSent p chid n w = Ret (True, resp, err, w') \<and>
    view (rwDeals w') (Identifier d) = Some d' \<and> TotalSent d' = TotalSent d + n \<and> FundsReceived d' = FundsReceived d \<and>
    (if PricePerByte (rdProposal d) \<noteq> 0 \<and> CurrentInterval d \<le> TotalSent d + n
     then err = Some ErrPause \<and> rdStatus d' = requestStatus (rdStatus d) \<and>
       resp = finalResponse (Some \<lparr>drID = rdID (rdProposal d), drStatus = DealStatusFundsNeeded,
         drPaymentOwed = Some (sint (TotalSent d + n - TotalPaidFor (rpEnv p) d) * PricePerByte (rdProposal d)), drMessage = []\<rparr>) (LegacyProtocol d)
     else err = None \<and> resp = None \<and> rdStatus d' = DealStatusOngoing)"
proof -
  have saved: "\<exists>r. saveRetrieval p x w = (w\<lparr>rwDeals := r\<rparr>, None) \<and> view r (Identifier x) = Some x" for x
  proof -
    obtain r where "rrSaveDeal (rpDeals p) (rwDeals w) x = (r, None)" using saves by (metis prod.collapse)
    then show ?thesis using retrieval_deal_repo.save_ok [OF assms(1)] by (auto simp: saveRetrieval_def)
  qed
  have ident: "Identifier (d\<lparr>rdStatus := st, TotalSent := k\<rparr>) = Identifier d" "Identifier (d\<lparr>TotalSent := k, rdStatus := st\<rparr>) = Identifier d" for st k
    by (simp_all add: Identifier_def)
  show ?thesis
  proof (cases "PricePerByte (rdProposal d) = 0 \<or> TotalSent d + n < CurrentInterval d")
    case True
    then have c: "\<not> (PricePerByte (rdProposal d) \<noteq> 0 \<and> CurrentInterval d \<le> TotalSent d + n)" by (auto simp: not_le)
    show ?thesis
      unfolding if_not_P [OF c]
      using True deal saved [of "d\<lparr>rdStatus := DealStatusOngoing, TotalSent := TotalSent d + n\<rparr>"] ident
      by (auto simp: OnPullDataSent_def byTransfer_def)
  next
    case False
    then have c: "PricePerByte (rdProposal d) \<noteq> 0 \<and> CurrentInterval d \<le> TotalSent d + n" by (auto simp: not_less)
    show ?thesis
      unfolding if_P [OF c]
      using False deal saved [of "d\<lparr>TotalSent := TotalSent d + n, rdStatus := requestStatus (rdStatus d)\<rparr>"] ident
      by (auto simp: OnPullDataSent_def byTransfer_def)
  qed
qed

definition demo_rw3 :: "((ds_key \<times> ProviderDealState) list, (ds_key \<times> MinerDeal) list, int) rworld" where
  "demo_rw3 = demo_rw\<lparr>rwDeals := [([''cli'', ''x''], (newDealState demo_rprop ''cli'' False)\<lparr>rdStatus := DealStatusOngoing, FundsReceived := 5,
     rdChannelID := Some demo_ch\<rparr>)]\<rparr>"

theorem OnPullDataSent_counts_witness:
  "\<exists>resp w'. OnPullDataSent demo_rp demo_ch 120 demo_rw3 = Ret (True, resp, Some ErrPause, w') \<and>
     resp = Some (VRResponse \<lparr>drID = 1, drStatus = DealStatusFundsNeeded, drPaymentOwed = Some 240, drMessage = []\<rparr>)"
proof -
  let ?d = "(newDealState demo_rprop ''cli'' False)\<lparr>rdStatus := DealStatusOngoing, FundsReceived := 5, rdChannelID := Some demo_ch\<rparr>"
  have l: "retrieval_deal_repo (rpDeals demo_rp) (value_view map_of (rdCodec map_retrieval_deals) (rdKey map_retrieval_deals))
     (value_invar map_of (rdCodec map_retrieval_deals) (rdKey map_retrieval_deals) Identifier)"
    using demo_rp_payments by (simp add: retrieval_payments_def)
  have i: "value_invar map_of (rdCodec map_retrieval_deals) (rdKey map_retrieval_deals) Identifier (rwDeals demo_rw3)"
    by (auto simp: value_invar_def demo_rw3_def Identifier_def newDealState_def demo_rprop_def split: if_splits)
  have g: "rrGetDealByTransferId (rpDeals demo_rp) (rwDeals demo_rw3) demo_ch = Ret (Inr ?d)" by code_simp
  have s: "snd (rrSaveDeal (rpDeals demo_rp) (rwDeals demo_rw3) x) = None" for x by (simp add: demo_rp_def Retrieval_Repo.SaveDeal_def)
  have c: "PricePerByte (rdProposal ?d) \<noteq> 0 \<and> CurrentInterval ?d \<le> TotalSent ?d + 120" by code_simp
  have o: "finalResponse (Some \<lparr>drID = rdID (rdProposal ?d), drStatus = DealStatusFundsNeeded,
         drPaymentOwed = Some (sint (TotalSent ?d + 120 - TotalPaidFor (rpEnv demo_rp) ?d) * PricePerByte (rdProposal ?d)), drMessage = []\<rparr>)
       (LegacyProtocol ?d) = Some (VRResponse \<lparr>drID = 1, drStatus = DealStatusFundsNeeded, drPaymentOwed = Some 240, drMessage = []\<rparr>)"
    by code_simp
  show ?thesis using OnPullDataSent_counts [OF l i g s, of 120] c unfolding o by auto
qed

lemma sint_small: "- (2 ^ 63) \<le> k \<Longrightarrow> k < 2 ^ 63 \<Longrightarrow> sint (of_int k :: u64) = k"
  by (simp add: sint_sbintrunc' signed_take_bit_int_eq_self)

text \<open>At the end of a transfer a client that has paid for more bytes than were sent is not done: the difference
  wraps around to a negative number, so the deal goes to \<open>DealStatusFundsNeededLastPayment\<close>, the transfer is paused and the
  client is asked for a negative payment.\<close>

theorem OnComplete_overpaid:
  assumes deal: "rrGetDealByTransferId (rpDeals p) (rwDeals w) chid = Ret (Inr d)"
    and saves: "\<And>r x. snd (rrSaveDeal (rpDeals p) r x) = None"
    and over: "uint (TotalPaidFor (rpEnv p) (d\<lparr>rdStatus := DealStatusBlocksComplete\<rparr>)) = uint (TotalSent d) + k" "0 < k" "k < 2 ^ 63"
    and price: "0 < PricePerByte (rdProposal d)"
  shows "\<exists>w'. OnComplete p chid w = Ret (True, finalResponse (Some \<lparr>drID = rdID (rdProposal d), drStatus = DealStatusFundsNeededLastPayment,
       drPaymentOwed = Some (- k * PricePerByte (rdProposal d)), drMessage = []\<rparr>) (LegacyProtocol d), Some ErrPause, w')"
proof -
  have saved: "\<exists>w'. saveRetrieval p x v = (w', None)" for x v
    using saves [of "rwDeals v" x] by (auto simp: saveRetrieval_def split: prod.splits)
  let ?d = "d\<lparr>rdStatus := DealStatusBlocksComplete\<rparr>"
  have "TotalPaidFor (rpEnv p) ?d = TotalSent d + of_int k"
    using arg_cong [OF over(1), of "of_int :: int \<Rightarrow> u64"] by simp
  then have "TotalSent d - TotalPaidFor (rpEnv p) ?d = of_int (- k)" by simp
  moreover have "sint (of_int (- k) :: u64) = - k" using sint_small [of "- k"] over(2,3) by simp
  ultimately have owed: "sint (TotalSent d - TotalPaidFor (rpEnv p) ?d) = - k" by simp
  obtain w1 where w1: "saveRetrieval p ?d w = (w1, None)" using saved by blast
  obtain w2 where w2: "saveRetrieval p (?d\<lparr>rdStatus := DealStatusFundsNeededLastPayment, TotalSent := TotalSent ?d\<rparr>) w1 = (w2, None)"
    using saved by blast
  show ?thesis using deal w1 w2 owed over(2) price by (auto simp: OnComplete_def byTransfer_def)
qed

definition demo_rw4 :: "((ds_key \<times> ProviderDealState) list, (ds_key \<times> MinerDeal) list, int) rworld" where
  "demo_rw4 = demo_rw\<lparr>rwDeals := [([''cli'', ''x''], (newDealState demo_rprop ''cli'' False)\<lparr>rdStatus := DealStatusOngoing, FundsReceived := 105,
     TotalSent := 30, rdChannelID := Some demo_ch\<rparr>)]\<rparr>"

theorem OnComplete_overpaid_witness:
  "\<exists>w'. OnComplete demo_rp demo_ch demo_rw4 = Ret (True, Some (VRResponse \<lparr>drID = 1, drStatus = DealStatusFundsNeededLastPayment,
       drPaymentOwed = Some (- 40), drMessage = []\<rparr>), Some ErrPause, w')"
proof -
  let ?d = "(newDealState demo_rprop ''cli'' False)\<lparr>rdStatus := DealStatusOngoing, FundsReceived := 105, TotalSent := 30, rdChannelID := Some demo_ch\<rparr>"
  have g: "rrGetDealByTransferId (rpDeals demo_rp) (rwDeals demo_rw4) demo_ch = Ret (Inr ?d)" by code_simp
  have s: "snd (rrSaveDeal (rpDeals demo_rp) r x) = None" for r x by (simp add: demo_rp_def Retrieval_Repo.SaveDeal_def)
  have o: "uint (TotalPaidFor (rpEnv demo_rp) (?d\<lparr>rdStatus := DealStatusBlocksComplete\<rparr>)) = uint (TotalSent ?d) + 20" by code_simp
  have k: "(0::int) < 20" "(20::int) < 2 ^ 63" "0 < PricePerByte (rdProposal ?d)" by (simp_all add: newDealState_def demo_rprop_def)
  show ?thesis
    using OnComplete_overpaid [OF g s o k] by (simp add: finalResponse_def newDealState_def demo_rprop_def)
qed

section \<open>Repository errors\<close>

text \<open>A payment for a deal that cannot be read, for another reason than that there is none, makes the provider panic.\<close>

theorem Revalidate_panics:
  assumes "rrGetDeal (rpDeals p) (rwDeals w) (Initiator ch) (dpID payment) = Inl e" "e \<noteq> ErrNotFound"
  shows "Revalidate p ch (VDealPayment payment) w = Panic ''nil pointer dereference''"
  using assms by (simp add: Revalidate_def)

text \<open>A payment that suffices, for a deal that then cannot be saved: the client is told that the deal failed, while the
  data transfer is told to resume.\<close>

theorem processPayment_resumes_failed:
  assumes "rpVoucherAdd p (rwPaych w) (PaymentChannel payment) (PaymentVoucher payment) = Ret ((received, None), pm)"
    and "paymentOwed (rpEnv p) d (FundsReceived d + received) \<le> 0" "rdStatus d = DealStatusFundsNeeded"
    and "\<And>r x. \<exists>e. snd (rrSaveDeal (rpDeals p) r x) = Some e"
  shows "\<exists>resp d' w'. processPayment p d payment w = Ret (Some resp, Some ErrResume, d', w') \<and> drStatus resp = DealStatusErrored"
proof -
  have saves: "\<exists>v' e. saveRetrieval p x v = (v', Some e)" for x v
    using assms(4) [of "rwDeals v" x] by (auto simp: saveRetrieval_def split: prod.splits)
  obtain d1 where r: "resumeDeal (rpEnv p) d received = (d1, None, Some ErrResume, False)"
    using assms(3) by (auto simp: resumeDeal_def Let_def)
  obtain w2 e where s: "saveRetrieval p d1 (w\<lparr>rwPaych := pm\<rparr>) = (w2, Some e)" using saves by blast
  obtain d2 w3 e3 where c: "CancelDeal p d1 w2 = (d2, w3, e3)" by (cases "CancelDeal p d1 w2")
  show ?thesis using assms(1,2) r s c by (auto simp: processPayment_def errorDealResponse_def)
qed

text \<open>The goroutine that unseals saves the deal it was started with: a payment that arrives before it runs is counted in
  the stored deal, and no longer counted after it ran.\<close>

definition demo_rw5 :: "((ds_key \<times> ProviderDealState) list, (ds_key \<times> MinerDeal) list, int) rworld" where
  "demo_rw5 = (case Revalidate demo_rp demo_ch (VDealPayment (demo_payment 9)) demo_rw2 of Ret (_, _, w) \<Rightarrow> w | Panic _ \<Rightarrow> demo_rw2)"

definition demo_rw6 :: "((ds_key \<times> ProviderDealState) list, (ds_key \<times> MinerDeal) list, int) rworld" where
  "demo_rw6 = fst (snd (UnsealData demo_rp (hd (rwGo demo_rw5)) demo_rw5))"

theorem unsealing_loses_payment:
  "map (FundsReceived \<circ> snd) (rwDeals demo_rw5) = [9] \<and> map (FundsReceived \<circ> snd) (rwDeals demo_rw6) = [5] \<and>
   rwPaych demo_rw6 = 9"
  by code_simp

end
