(* ===== verification/Storage_Transfer.thy ===== *)
theory Storage_Transfer
  imports Deal_Handler_Props
begin

text \<open>
  Data transfer events of storage deals: the handlers (\<open>src/storageprovider/datatransfer_handler.go\<close>) and the subscriber
  that calls them (\<open>src/storageprovider/datatransfersubscriber.go\<close>). The state of the storage provider is the world of
  the deal handler and the list \<open>spGo\<close> of the deals for which a goroutine running \<open>HandleOff\<close> was started. Errors the
  subscriber only logs are dropped.
\<close>

section \<open>The handlers\<close>

record 'r spState =
  spWorld :: "'r world"
  spGo :: "MinerDeal list"

definition withDeal :: "'r StorageDealRepo \<Rightarrow> cid \<Rightarrow> 'r spState \<Rightarrow> (MinerDeal \<Rightarrow> 'r spState \<times> error option) \<Rightarrow> 'r spState \<times> error option" where
  "withDeal repo proposalid s k =
     (case sdGetDeal repo (wRepo (spWorld s)) proposalid of
        Inl e \<Rightarrow> (s, Some (ErrWrap ''get deal while transfer completed'' e))
      | Inr deal \<Rightarrow> k deal)"

definition storeDeal :: "'r StorageDealRepo \<Rightarrow> MinerDeal \<Rightarrow> 'r spState \<Rightarrow> 'r spState \<times> error option" where
  "storeDeal repo deal s =
     (case saveDeal repo deal (spWorld s) of
        (_, w, Some e) \<Rightarrow> (s\<lparr>spWorld := w\<rparr>, Some (ErrWrap ''save deal while transfer completed'' e))
      | (_, w, None) \<Rightarrow> (s\<lparr>spWorld := w\<rparr>, None))"

definition HandleCompleteFor :: "'r StorageDealRepo \<Rightarrow> cid \<Rightarrow> 'r spState \<Rightarrow> 'r spState \<times> error option" where
  "HandleCompleteFor repo proposalid s = withDeal repo proposalid s (\<lambda>deal.
     let deal = deal\<lparr>mdState := StorageDealVerifyData\<rparr> in
     case storeDeal repo deal s of
       (s', Some e) \<Rightarrow> (s', Some e)
     | (s', None) \<Rightarrow> (s'\<lparr>spGo := spGo s' @ [deal]\<rparr>, None))"

definition HandleCancelForDeal :: "dealEnv \<Rightarrow> 'r StorageDealRepo \<Rightarrow> cid \<Rightarrow> 'r spState \<Rightarrow> 'r spState \<times> error option" where
  "HandleCancelForDeal env repo proposalid s = withDeal repo proposalid s (\<lambda>deal.
     case HandleError env repo deal (ErrMsg ''proposal data transfer cancelled'') (spWorld s) of
       (_, w, err) \<Rightarrow> (s\<lparr>spWorld := w\<rparr>, err))"

definition HandleRestartForDeal :: "'r StorageDealRepo \<Rightarrow> cid \<Rightarrow> ChannelID \<Rightarrow> 'r spState \<Rightarrow> 'r spState \<times> error option" where
  "HandleRestartForDeal repo proposalid channelID s = withDeal repo proposalid s (\<lambda>deal.
     storeDeal repo (deal\<lparr>mdMessage := [], mdState := StorageDealProviderTransferAwaitRestart, TransferChannelID := Some channelID\<rparr>) s)"

definition HandleStalledForDeal :: "'r StorageDealRepo \<Rightarrow> cid \<Rightarrow> 'r spState \<Rightarrow> 'r spState \<times> error option" where
  "HandleStalledForDeal repo proposalid s = withDeal repo proposalid s (\<lambda>deal.
     storeDeal repo (deal\<lparr>mdMessage := ''data transfer appears to be stalled, awaiting reconnect from client'',
       mdState := StorageDealProviderTransferAwaitRestart\<rparr>) s)"

definition HandleInitForDeal :: "'r StorageDealRepo \<Rightarrow> cid \<Rightarrow> ChannelID \<Rightarrow> 'r spState \<Rightarrow> 'r spState \<times> error option" where
  "HandleInitForDeal repo proposalid channelID s = withDeal repo proposalid s (\<lambda>deal.
     storeDeal repo (deal\<lparr>mdMessage := [], mdState := StorageDealProviderTransferAwaitRestart, TransferChannelID := Some channelID\<rparr>) s)"

definition HandleFailedForDeal :: "dealEnv \<Rightarrow> 'r StorageDealRepo \<Rightarrow> cid \<Rightarrow> error \<Rightarrow> 'r spState \<Rightarrow> 'r spState \<times> error option" where
  "HandleFailedForDeal env repo proposalid reason s = withDeal repo proposalid s (\<lambda>deal.
     storeDeal repo (deal\<lparr>mdMessage := errText env (ErrWrap ''error transferring data'' reason),
       mdState := StorageDealProviderTransferAwaitRestart\<rparr>) s)"

section \<open>The subscriber\<close>

text \<open>The codes the subscriber tells apart, and whether the status of the channel is \<open>Completed\<close>; a voucher of another
  protocol has no storage proposal.\<close>

datatype transferCode = EvOpen | EvRestart | EvCancel | EvError | EvDisconnected | EvOther nat

record transferEvent =
  evCode :: transferCode
  evMessage :: string

record channelState =
  csProposal :: "cid option"
  csChannelID :: ChannelID
  csCompleted :: bool

definition translateEvent :: "dealEnv \<Rightarrow> 'r StorageDealRepo \<Rightarrow> transferEvent \<Rightarrow> ChannelID \<Rightarrow> cid \<Rightarrow> 'r spState \<Rightarrow> 'r spState \<times> error option" where
  "translateEvent env repo event channelID proposal s =
     (case evCode event of
        EvCancel \<Rightarrow> HandleCancelForDeal env repo proposal s
      | EvRestart \<Rightarrow> HandleRestartForDeal repo proposal channelID s
      | EvDisconnected \<Rightarrow> HandleStalledForDeal repo proposal s
      | EvOpen \<Rightarrow> HandleInitForDeal repo proposal channelID s
      | EvError \<Rightarrow> HandleFailedForDeal env repo proposal (ErrMsg (''deal data transfer failed: '' @ evMessage event)) s
      | EvOther _ \<Rightarrow> (s, None))"

definition ProviderDataTransferSubscriber :: "dealEnv \<Rightarrow> 'r StorageDealRepo \<Rightarrow> transferEvent \<Rightarrow> channelState \<Rightarrow> 'r spState \<Rightarrow> 'r spState" where
  "ProviderDataTransferSubscriber env repo event ch s =
     (case csProposal ch of
        None \<Rightarrow> s
      | Some proposal \<Rightarrow>
          (let s1 = (if csCompleted ch then fst (HandleCompleteFor repo proposal s) else s)
           in fst (translateEvent env repo event (csChannelID ch) proposal s1)))"

text \<open>A goroutine that was started runs to its end; a panic ends the program.\<close>

definition runHandleOff :: "dealEnv \<Rightarrow> 'r StorageDealRepo \<Rightarrow> nat \<Rightarrow> 'r spState \<Rightarrow> 'r spState outcome" where
  "runHandleOff env repo i s =
     (if i < length (spGo s) then
        (case HandleOff env repo (spGo s ! i) (spWorld s) of
           Ret (_, w, _) \<Rightarrow> Ret (s\<lparr>spWorld := w, spGo := take i (spGo s) @ drop (Suc i) (spGo s)\<rparr>)
         | Panic m \<Rightarrow> Panic m)
      else Ret s)"

end
