(* ===== verification/Deal_Stream.thy ===== *)
theory Deal_Stream
  imports Storage_Transfer
begin

text \<open>
  The storage protocols of the provider: \<open>src/storageprovider/stream.go\<close>. What a stream delivers is an argument (the
  message read, or the error of reading it), what is written to the ask and status streams is the result; responses on
  the deal stream are effects of the world of the deal handler. The node, the network, the file store and the connection
  manager are the record \<open>streamEnv\<close>. Pointers that a message may leave nil are options.
\<close>

section \<open>Data\<close>

record networkProposal =
  npDealProposal :: "(DealProposal \<times> bytes) option"
  npPiece :: "DataRef option"
  npFastRetrieval :: bool

record DealStatusRequest =
  rqProposal :: cid
  rqSignature :: bytes

record StorageProviderDealState =
  psState :: StorageDealStatus
  psMessage :: string
  psProposal :: "DealProposal option"
  psProposalCid :: "cid option"
  psAddFundsCid :: "cid option"
  psPublishCid :: "cid option"
  psDealID :: u64
  psFastRetrieval :: bool

record streamEnv =
  seDeal :: dealEnv
  AsIpld :: "(DealProposal \<times> bytes) option \<Rightarrow> cid res"
  peerID :: string
  TTManual :: string
  fsCreateTemp :: "string res"
  tempClose :: "error option"
  curTime :: int
  AddStream :: "cid \<Rightarrow> error option"
  storedGetAsk :: "address \<Rightarrow> SignedStorageAsk res"
  WriteAskResponse :: "SignedStorageAsk \<Rightarrow> address \<Rightarrow> error option"
  SignReply :: "address \<Rightarrow> StorageProviderDealState \<Rightarrow> bytes res"
  SignDealResponse :: "address \<Rightarrow> StorageDealStatus \<Rightarrow> string \<Rightarrow> cid \<Rightarrow> bytes res"
  WriteResponse :: "StorageDealStatus \<Rightarrow> string \<Rightarrow> cid \<Rightarrow> bytes \<Rightarrow> address \<Rightarrow> error option"
  WriteDealStatusResponse :: "StorageProviderDealState \<Rightarrow> bytes \<Rightarrow> address \<Rightarrow> error option"
  dumpCid :: "cid \<Rightarrow> bytes res"
  VerifyStatusSignature :: "bytes \<Rightarrow> address \<Rightarrow> bytes \<Rightarrow> bytes \<Rightarrow> error option"
  isMid :: "cid \<Rightarrow> bool"
  messageChainCid :: "cid \<Rightarrow> cid option res"

section \<open>Asks\<close>

definition HandleAskStream :: "streamEnv \<Rightarrow> address res \<Rightarrow> SignedStorageAsk option" where
  "HandleAskStream env request =
     (case request of
        Inl _ \<Rightarrow> None
      | Inr miner \<Rightarrow>
          (case storedGetAsk env miner of
             Inl _ \<Rightarrow> None
           | Inr ask \<Rightarrow> (case WriteAskResponse env ask miner of Some _ \<Rightarrow> None | None \<Rightarrow> Some ask)))"

section \<open>Proposals\<close>

definition resendProposalResponse :: "streamEnv \<Rightarrow> MinerDeal \<Rightarrow> 'r world \<Rightarrow> 'r world \<times> error option" where
  "resendProposalResponse env md w =
     (case SignDealResponse env (Provider (Proposal md)) (mdState md) (mdMessage md) (ProposalCid md) of
        Inl e \<Rightarrow> (w, Some (ErrWrap ''failed to sign response message'' e))
      | Inr sig \<Rightarrow>
          (case WriteResponse env (mdState md) (mdMessage md) (ProposalCid md) sig (Provider (Proposal md)) of
             Some e \<Rightarrow> (w, Some e)
           | None \<Rightarrow> (note_effect (Respond (mdState md) (mdMessage md) (ProposalCid md)) w, None)))"

text \<open>The empty CAR file of a deal whose data is transferred; a manual deal has none. \<open>None\<close> ends the handler.\<close>

definition createInbound :: "streamEnv \<Rightarrow> DataRef \<Rightarrow> 'r world \<Rightarrow> string option \<times> 'r world" where
  "createInbound env piece w =
     (if TransferType piece \<noteq> TTManual env then
        (case fsCreateTemp env of
           Inl _ \<Rightarrow> (None, w)
         | Inr path \<Rightarrow>
             (let w1 = note_effect (CreateTemp path) w in
              case tempClose env of
                Some _ \<Rightarrow> (None, note_effect (DeleteFile path) w1)
              | None \<Rightarrow> (Some path, w1)))
      else (Some [], w))"

definition newMinerDeal :: "streamEnv \<Rightarrow> string \<Rightarrow> DealProposal \<times> bytes \<Rightarrow> cid \<Rightarrow> DataRef \<Rightarrow> bool \<Rightarrow> string \<Rightarrow> MinerDeal" where
  "newMinerDeal env remotePeer proposal proposalCid piece fastRetrieval path =
     \<lparr>Proposal = fst proposal, ClientSignature = snd proposal, ProposalCid = proposalCid, mdAddFundsCid = None, PublishCid = None,
      mdMiner = peerID env, mdClient = remotePeer, mdState = StorageDealUnknown, PiecePath = [], PayloadSize = 0, MetadataPath = [],
      SlashEpoch = 0, FastRetrieval = fastRetrieval, mdMessage = [], FundsReserved = None, Ref = piece,
      AvailableForRetrieval = False, InboundCAR = path, DealID = 0, SectorNumber = 0, Offset = 0, mdPieceStatus = [],
      CreationTime = curTime env, TransferChannelID = None\<rparr>"

definition trackDeal :: "streamEnv \<Rightarrow> 'r StorageDealRepo \<Rightarrow> MinerDeal \<Rightarrow> 'r world \<Rightarrow> 'r world" where
  "trackDeal env repo deal w =
     (case saveDeal repo deal w of
        (_, w1, Some _) \<Rightarrow> w1
      | (_, w1, None) \<Rightarrow>
          (case AddStream env (ProposalCid deal) of
             Some _ \<Rightarrow> w1
           | None \<Rightarrow> (case AcceptDeal (seDeal env) repo deal w1 of (_, w2, _) \<Rightarrow> w2)))"

definition HandleDealStream :: "streamEnv \<Rightarrow> 'r StorageDealRepo \<Rightarrow> string \<Rightarrow> networkProposal res \<Rightarrow> 'r world \<Rightarrow> 'r world outcome" where
  "HandleDealStream env repo remotePeer message w =
     (case message of
        Inl _ \<Rightarrow> Ret w
      | Inr proposal \<Rightarrow>
          (case AsIpld env (npDealProposal proposal) of
             Inl _ \<Rightarrow> Ret w
           | Inr c \<Rightarrow>
               (case sdGetDeal repo (wRepo w) c of
                  Inr md \<Rightarrow> Ret (fst (resendProposalResponse env md w))
                | Inl _ \<Rightarrow>
                    (case npPiece proposal of
                       None \<Rightarrow> Panic ''invalid memory address or nil pointer dereference''
                     | Some piece \<Rightarrow>
                         (case createInbound env piece w of
                            (None, w1) \<Rightarrow> Ret w1
                          | (Some path, w1) \<Rightarrow>
                              (case npDealProposal proposal of
                                 None \<Rightarrow> Panic ''invalid memory address or nil pointer dereference''
                               | Some p \<Rightarrow>
                                   Ret (trackDeal env repo (newMinerDeal env remotePeer p c piece (npFastRetrieval proposal) path) w1)))))))"

section \<open>Deal status\<close>

definition chainCid :: "streamEnv \<Rightarrow> cid option \<Rightarrow> cid option res" where
  "chainCid env mc =
     (case mc of
        None \<Rightarrow> Inr None
      | Some c \<Rightarrow> if isMid env c then messageChainCid env c else Inr (Some c))"

definition processDealStatusRequest :: "streamEnv \<Rightarrow> 'r StorageDealRepo \<Rightarrow> 'r \<Rightarrow> DealStatusRequest \<Rightarrow> (StorageProviderDealState \<times> address) res" where
  "processDealStatusRequest env repo r request =
     (case sdGetDeal repo r (rqProposal request) of
        Inl _ \<Rightarrow> Inl (ErrMsg ''no such proposal'')
      | Inr md \<Rightarrow>
          (case dumpCid env (rqProposal request) of
             Inl _ \<Rightarrow> Inl (ErrMsg ''internal error'')
           | Inr buf \<Rightarrow>
               (case GetChainHead (seDeal env) of
                  Inl _ \<Rightarrow> Inl (ErrMsg ''internal error'')
                | Inr (tok, _) \<Rightarrow>
                    (case VerifyStatusSignature env (rqSignature request) (Client (Proposal md)) buf tok of
                       Some _ \<Rightarrow> Inl (ErrMsg ''internal error'')
                     | None \<Rightarrow>
                         (case chainCid env (mdAddFundsCid md) of
                            Inl _ \<Rightarrow> Inl (ErrMsg ''internal error'')
                          | Inr addFundsCid \<Rightarrow>
                              (case chainCid env (PublishCid md) of
                                 Inl _ \<Rightarrow> Inl (ErrMsg ''internal error'')
                               | Inr publishCid \<Rightarrow>
                                   Inr (\<lparr>psState = mdState md, psMessage = mdMessage md, psProposal = Some (Proposal md),
                                         psProposalCid = Some (ProposalCid md), psAddFundsCid = addFundsCid,
                                         psPublishCid = publishCid, psDealID = DealID md, psFastRetrieval = FastRetrieval md\<rparr>,
                                        Provider (Proposal md))))))))"

definition errorDealState :: "streamEnv \<Rightarrow> error \<Rightarrow> StorageProviderDealState" where
  "errorDealState env err = \<lparr>psState = StorageDealError, psMessage = errText (seDeal env) err, psProposal = None, psProposalCid = None,
     psAddFundsCid = None, psPublishCid = None, psDealID = 0, psFastRetrieval = False\<rparr>"

definition HandleDealStatusStream :: "streamEnv \<Rightarrow> 'r StorageDealRepo \<Rightarrow> 'r \<Rightarrow> DealStatusRequest res \<Rightarrow> (StorageProviderDealState \<times> bytes) option" where
  "HandleDealStatusStream env repo r message =
     (case message of
        Inl _ \<Rightarrow> None
      | Inr request \<Rightarrow>
          (let (dealState, mAddr) = (case processDealStatusRequest env repo r request of
                 Inl e \<Rightarrow> (errorDealState env e, Undef)
               | Inr x \<Rightarrow> x)
           in case SignReply env mAddr dealState of
                Inl _ \<Rightarrow> None
              | Inr signature \<Rightarrow>
                  (case WriteDealStatusResponse env dealState signature mAddr of
                     Some _ \<Rightarrow> None
                   | None \<Rightarrow> Some (dealState, signature))))"

end
