(* ===== verification/Storage_Provider.thy ===== *)
theory Storage_Provider
  imports Deal_Stream Deal_Assigner
begin

text \<open>
  The storage provider: restarting the deals, importing the data of an offline deal and importing published deals
  (\<open>src/storageprovider/storageprovider.go\<close>), and the provider as a state machine whose steps are its entry points and
  the goroutines they start. The data of an import is a byte string; what the file store, the proofs library and the node
  make of it are fields of \<open>providerEnv\<close>. \<open>statusNum\<close> is the number of a deal state in \<open>go-fil-markets\<close>.
\<close>

section \<open>The outside\<close>

datatype addrProtocol = ProtoID | ProtoSECP256K1 | ProtoActor | ProtoBLS

record providerEnv =
  peStream :: streamEnv
  statusNum :: "StorageDealStatus \<Rightarrow> nat"
  copyTo :: "bytes \<Rightarrow> error option"
  tempSize :: "bytes \<Rightarrow> u64"
  seekStart :: "error option"
  GetProofType :: "address \<Rightarrow> nat res"
  padreaderSize :: "u64 \<Rightarrow> u64"
  GeneratePieceCIDFromFile :: "nat \<Rightarrow> bytes \<Rightarrow> u64 \<Rightarrow> cid res"
  Padded :: "u64 \<Rightarrow> u64"
  Unpadded :: "u64 \<Rightarrow> u64"
  ProposalCidOf :: "DealProposal \<Rightarrow> cid res"
  OnlineDeal :: "u64 \<Rightarrow> DealProposal res"
  Protocol :: "address \<Rightarrow> addrProtocol"
  accountKey :: "address \<Rightarrow> address res"
  lookupActorID :: "address \<Rightarrow> address res"
  AddFunds :: "address \<Rightarrow> int \<Rightarrow> cid res"
  marketBalance :: "address \<Rightarrow> bytes \<Rightarrow> (int \<times> int) res"

abbreviation peDeal :: "providerEnv \<Rightarrow> dealEnv" where
  "peDeal env \<equiv> seDeal (peStream env)"

section \<open>Restarting\<close>

fun restartDeals :: "MinerDeal list \<Rightarrow> 'r spState \<Rightarrow> 'r spState" where
  "restartDeals [] s = s"
| "restartDeals (deal # deals) s =
     (if isTerminateState deal then restartDeals deals s
      else restartDeals deals (s\<lparr>spGo := spGo s @ [deal]\<rparr>))"

definition start :: "'r StorageDealRepo \<Rightarrow> 'r spState \<Rightarrow> ('r spState \<times> error option) outcome" where
  "start repo s =
     (case sdListDeal repo (wRepo (spWorld s)) of
        Panic m \<Rightarrow> Panic m
      | Ret (Inl _) \<Rightarrow> Ret (s, None)
      | Ret (Inr deals) \<Rightarrow> Ret (restartDeals deals s, None))"

section \<open>Importing the data of a deal\<close>

text \<open>\<open>utils.GeneratePieceCommitment\<close>: the commitment of the data padded by the reader.\<close>

definition pieceCommitment :: "providerEnv \<Rightarrow> nat \<Rightarrow> bytes \<Rightarrow> u64 \<Rightarrow> cid res" where
  "pieceCommitment env rt rd pieceSize =
     (case GeneratePieceCIDFromFile env rt rd (padreaderSize env pieceSize) of Inl e \<Rightarrow> Inl e | Inr c \<Rightarrow> Inr c)"

definition importedCommP :: "providerEnv \<Rightarrow> DealProposal \<Rightarrow> bytes \<Rightarrow> cid res" where
  "importedCommP env p data =
     (let carSize = tempSize env data in
      case seekStart env of
        Some e \<Rightarrow> Inl (ErrWrap ''failed to seek through temp imported file'' e)
      | None \<Rightarrow>
          (case GetProofType env (Provider p) of
             Inl e \<Rightarrow> Inl (ErrWrap ''failed to determine proof type'' e)
           | Inr proofType \<Rightarrow>
               (case pieceCommitment env proofType data carSize of
                  Inl e \<Rightarrow> Inl (ErrWrap ''failed to generate commP'' e)
                | Inr pieceCid \<Rightarrow>
                    (let carSizePadded = Padded env (padreaderSize env carSize) in
                     if carSizePadded < PieceSize p
                     then tryE (PadCommP (peDeal env) pieceCid carSizePadded (PieceSize p)) (\<lambda>raw. Inr (DataCommitmentV1ToCID (peDeal env) raw))
                     else Inr pieceCid))))"

definition importFile :: "providerEnv \<Rightarrow> DealProposal \<Rightarrow> bytes \<Rightarrow> unit res" where
  "importFile env p data =
     (case copyTo env data of
        Some e \<Rightarrow> Inl (ErrWrap ''importing deal data failed'' e)
      | None \<Rightarrow>
          (case importedCommP env p data of
             Inl e \<Rightarrow> Inl e
           | Inr pieceCid \<Rightarrow>
               if pieceCid \<noteq> PieceCID p then Inl (ErrMsg ''given data does not match expected commP'') else Inr ()))"

definition ImportDataForDeal :: "providerEnv \<Rightarrow> 'r StorageDealRepo \<Rightarrow> cid \<Rightarrow> bytes \<Rightarrow> 'r spState \<Rightarrow> 'r spState \<times> error option" where
  "ImportDataForDeal env repo propCid data s =
     (case sdGetDeal repo (wRepo (spWorld s)) propCid of
        Inl e \<Rightarrow> (s, Some (ErrWrap ''failed getting deal'' e))
      | Inr d \<Rightarrow>
          if isTerminateState d then (s, Some (ErrMsg ''deal is terminate state''))
          else if statusNum env (mdState d) > statusNum env StorageDealWaitingForData
          then (s, Some (ErrMsg ''deal does not support offline data''))
          else
            (case fsCreateTemp (peStream env) of
               Inl e \<Rightarrow> (s, Some (ErrWrap ''failed to create temp file for data import'' e))
             | Inr path \<Rightarrow>
                 (let w1 = note_effect (CreateTemp path) (spWorld s) in
                  case importFile env (Proposal d) data of
                    Inl e \<Rightarrow> (s\<lparr>spWorld := note_effect (DeleteFile path) w1\<rparr>, Some e)
                  | Inr _ \<Rightarrow>
                      (let d = d\<lparr>PiecePath := path, MetadataPath := [], mdState := StorageDealReserveProviderFunds, mdPieceStatus := Undefine\<rparr> in
                       case saveDeal repo d w1 of
                         (_, w2, Some e) \<Rightarrow> (s\<lparr>spWorld := w2\<rparr>, Some (ErrWrap ''save deal failed'' e))
                       | (_, w2, None) \<Rightarrow> (s\<lparr>spWorld := w2, spGo := spGo s @ [d]\<rparr>, None)))))"

section \<open>Importing a published deal\<close>

definition clientAccount :: "providerEnv \<Rightarrow> address \<Rightarrow> address \<Rightarrow> address res" where
  "clientAccount env client onlineClient =
     (if client \<noteq> onlineClient then
        (case Protocol env client of
           ProtoBLS \<Rightarrow> accountKey env onlineClient
         | ProtoSECP256K1 \<Rightarrow> accountKey env onlineClient
         | ProtoActor \<Rightarrow> lookupActorID env onlineClient
         | ProtoID \<Rightarrow> Inr onlineClient)
      else Inr onlineClient)"

definition checkPublished :: "providerEnv \<Rightarrow> MinerDeal \<Rightarrow> unit res" where
  "checkPublished env deal =
     failIf (\<not> minerHas (peDeal env) (Provider (Proposal deal))) (ErrMsg ''miner not support'')
     (case ProposalCidOf env (Proposal deal) of
        Inl e \<Rightarrow> Inl (ErrWrap ''unable to get proposal cid from deal online'' e)
      | Inr dealPCid \<Rightarrow>
          failIf (dealPCid \<noteq> ProposalCid deal) (ErrMsg ''deal proposal not match the calculated result'')
          (case OnlineDeal env (DealID deal) of
             Inl e \<Rightarrow> Inl (ErrMsg ''cannt find deal'')
           | Inr online \<Rightarrow>
               (case clientAccount env (Client (Proposal deal)) (Client online) of
                  Inl e \<Rightarrow> Inl (ErrWrap ''get account err'' e)
                | Inr account \<Rightarrow>
                    (case ProposalCidOf env (online\<lparr>Client := account\<rparr>) of
                       Inl e \<Rightarrow> Inl (ErrWrap ''fail build cid'' e)
                     | Inr pCid \<Rightarrow>
                         failIf (pCid \<noteq> dealPCid) (ErrMsg ''deal online proposal not match with proposal'') (Inr ())))))"

text \<open>The pointer \<open>deal.Ref\<close> of the argument is passed on its own.\<close>

definition importDeal :: "providerEnv \<Rightarrow> MinerDeal \<Rightarrow> DataRef \<Rightarrow> MinerDeal" where
  "importDeal env deal ref =
     \<lparr>Proposal = Proposal deal, ClientSignature = ClientSignature deal, ProposalCid = ProposalCid deal, mdAddFundsCid = None,
      PublishCid = PublishCid deal, mdMiner = peerID (peStream env), mdClient = mdClient deal, mdState = StorageDealAwaitingPreCommit,
      PiecePath = [], PayloadSize = PayloadSize deal, MetadataPath = [], SlashEpoch = 0, FastRetrieval = True, mdMessage = [],
      FundsReserved = None,
      Ref = \<lparr>TransferType = ''import'', Root = Root ref, refPieceCid = Some (PieceCID (Proposal deal)),
             refPieceSize = Unpadded env (PieceSize (Proposal deal)), RawBlockSize = PayloadSize deal\<rparr>,
      AvailableForRetrieval = AvailableForRetrieval deal, InboundCAR = [], DealID = DealID deal, SectorNumber = 0, Offset = 0,
      mdPieceStatus = Undefine, CreationTime = curTime (peStream env), TransferChannelID = None\<rparr>"

definition ImportPublishedDeal :: "providerEnv \<Rightarrow> 'r StorageDealRepo \<Rightarrow> MinerDeal \<Rightarrow> DataRef option \<Rightarrow> 'r spState \<Rightarrow> ('r spState \<times> error option) outcome" where
  "ImportPublishedDeal env repo deal ref s =
     (case checkPublished env deal of
        Inl e \<Rightarrow> Ret (s, Some e)
      | Inr _ \<Rightarrow>
          (case sdGetDeal repo (wRepo (spWorld s)) (ProposalCid deal) of
             Inr _ \<Rightarrow> Ret (s, Some (ErrMsg ''deal exist proposal cid''))
           | Inl _ \<Rightarrow>
               (case ref of
                  None \<Rightarrow> Panic ''invalid memory address or nil pointer dereference''
                | Some ref \<Rightarrow>
                    (case saveDeal repo (importDeal env deal ref) (spWorld s) of
                       (_, w, err) \<Rightarrow> Ret (s\<lparr>spWorld := w\<rparr>, err)))))"

section \<open>Collateral\<close>

text \<open>The callback of \<open>WaitForMessage\<close> sends its verdict on a channel that the function reads after the wait.\<close>

definition AddStorageCollateral :: "providerEnv \<Rightarrow> address \<Rightarrow> int \<Rightarrow> error option" where
  "AddStorageCollateral env mAddr amount =
     (case AddFunds env mAddr amount of
        Inl e \<Rightarrow> Some e
      | Inr mcid \<Rightarrow>
          (case WaitForMessage (peDeal env) mcid of
             Inl e \<Rightarrow> Some e
           | Inr (code, Some e) \<Rightarrow> Some (ErrWrap ''AddFunds errored'' e)
           | Inr (code, None) \<Rightarrow> if code \<noteq> 0 then Some (ErrMsg ''AddFunds error, exit code'') else None))"

definition GetStorageCollateral :: "providerEnv \<Rightarrow> address \<Rightarrow> (int \<times> int) res" where
  "GetStorageCollateral env mAddr =
     (case GetChainHead (peDeal env) of
        Inl e \<Rightarrow> Inl e
      | Inr (tok, _) \<Rightarrow> marketBalance env mAddr tok)"

end
