(* ===== verification/Storage_Provider_Props.thy ===== *)
theory Storage_Provider_Props
  imports Storage_Provider
begin

text \<open>
  Properties of the storage provider. \<open>saves\<close> says which deals the code between two points may have saved; the handlers of
  a deal save only versions of that deal, with the same proposal under the same CID. The provider is a state machine
  over its entry points and the goroutines they start; the laws of the deal repository turn the saves of a step into
  what it changes in the store.
\<close>

section \<open>What a handler saves\<close>

inductive saves :: "'r StorageDealRepo \<Rightarrow> (MinerDeal \<Rightarrow> bool) \<Rightarrow> 'r world \<Rightarrow> 'r world \<Rightarrow> bool" for repo P w where
  quiet: "wRepo w' = wRepo w \<Longrightarrow> saves repo P w w'"
| saved: "saves repo P w w1 \<Longrightarrow> P d \<Longrightarrow> sdSaveDeal repo (wRepo w1) d = (wRepo w', e) \<Longrightarrow> saves repo P w w'"

lemma saves_refl [simp]: "saves repo P w w"
  by (rule saves.quiet) simp

lemma saves_trans: "saves repo P w1 w2 \<Longrightarrow> saves repo P w w1 \<Longrightarrow> saves repo P w w2"
proof (induction rule: saves.induct)
  case (quiet w')
  from quiet(2) show ?case
  proof cases
    case quiet
    then show ?thesis using \<open>wRepo w' = wRepo w1\<close> by (simp add: saves.quiet)
  next
    case (saved w3 d e)
    then show ?thesis using \<open>wRepo w' = wRepo w1\<close> saves.saved [OF saved(1,2)] by metis
  qed
next
  case (saved w3 d w' e)
  then show ?case using saves.saved by blast
qed

lemma saves_quiet: "saves repo P w w1 \<Longrightarrow> wRepo w2 = wRepo w1 \<Longrightarrow> saves repo P w w2"
  using saves_trans [OF saves.quiet] by metis

lemma note_effect_repo [simp]: "wRepo (note_effect e w) = wRepo w"
  by (simp add: note_effect_def)

definition sameDeal :: "MinerDeal \<Rightarrow> MinerDeal \<Rightarrow> bool" where
  "sameDeal d d' \<longleftrightarrow> ProposalCid d' = ProposalCid d \<and> Proposal d' = Proposal d"

lemma sameDeal_refl [simp]: "sameDeal d d"
  by (simp add: sameDeal_def)

lemma sameDeal_cong: "sameDeal d d1 \<Longrightarrow> sameDeal d1 = sameDeal d"
  by (auto simp: sameDeal_def fun_eq_iff)

lemma saveDeal_saves:
  assumes "saveDeal repo d w = (d', w', e)" "P d"
  shows "d' = d" "saves repo P w w'"
proof -
  show "d' = d" using assms(1) by (auto simp: saveDeal_def split: prod.splits)
  have "sdSaveDeal repo (wRepo w) d = (wRepo w', e)" using assms(1) by (auto simp: saveDeal_def split: prod.splits)
  then show "saves repo P w w'" using saves.saved [of repo P w w d] assms(2) by simp
qed

lemma releaseReservedFunds_same:
  "releaseReservedFunds d w = (d', w') \<Longrightarrow> sameDeal d d' \<and> wRepo w' = wRepo w"
  by (auto simp: releaseReservedFunds_def sameDeal_def split: option.splits if_splits)

lemma SendSignedResponse_repo: "wRepo (fst (SendSignedResponse env m st msg c w)) = wRepo w"
  by (simp add: SendSignedResponse_def split: option.splits)

text \<open>\<open>HandleError\<close> and \<open>AcceptDeal\<close> save the deal once, as they return it.\<close>

lemma HandleError_save:
  assumes "HandleError env repo d err w = (d', w', e)"
  shows "sdSaveDeal repo (wRepo w) d' = (wRepo w', e) \<and> sameDeal d d' \<and> mdState d' = StorageDealFailing"
proof -
  define d0 where "d0 = d\<lparr>mdState := StorageDealFailing, mdMessage := errText env err\<rparr>"
  define w4 where "w4 = (let w1 = note_effect (UntagPeer (mdClient d0) (ProposalCid d0)) w;
        w2 = (if PiecePath d0 \<noteq> [] then note_effect (DeleteFile (PiecePath d0)) w1 else w1);
        w3 = (if MetadataPath d0 \<noteq> [] then note_effect (DeleteFile (MetadataPath d0)) w2 else w2)
    in (if InboundCAR d0 \<noteq> [] then TerminateBlockstore (ProposalCid d0) (InboundCAR d0) w3 else w3))"
  obtain d1 w5 where r: "releaseReservedFunds d0 w4 = (d1, w5)" by (cases "releaseReservedFunds d0 w4")
  have s: "saveDeal repo d1 w5 = (d', w', e)" using assms r unfolding HandleError_def Let_def w4_def d0_def by simp
  have "wRepo w4 = wRepo w" by (simp add: w4_def TerminateBlockstore_def Let_def)
  then have "sameDeal d d1" "wRepo w5 = wRepo w" using releaseReservedFunds_same [OF r] by (auto simp: sameDeal_def d0_def)
  moreover have "mdState d1 = StorageDealFailing" using releaseReservedFunds_run [OF r] by (simp add: d0_def)
  ultimately show ?thesis using s by (auto simp: saveDeal_def split: prod.splits)
qed

lemma HandleError_saves:
  assumes "HandleError env repo d err w = (d', w', e)"
  shows "sameDeal d d' \<and> saves repo (sameDeal d) w w'"
  using HandleError_save [OF assms] saves.saved [OF saves_refl, of "sameDeal d" d' repo w w' e] by blast

lemma AcceptDeal_save:
  assumes "AcceptDeal env repo d w = (d', w', e)"
  shows "sdSaveDeal repo (wRepo w) d' = (wRepo w', e) \<and> sameDeal d d' \<and>
    mdState d' \<in> {StorageDealRejecting, StorageDealFailing, StorageDealWaitingForData} \<and>
    (mdState d' = StorageDealWaitingForData \<longrightarrow> acceptable_now env d)"
proof -
  define v where "v = note_effect (TagPeer (mdClient d) (ProposalCid d)) w"
  have v: "wRepo v = wRepo w" by (simp add: v_def)
  obtain w1 e1 where s: "SendSignedResponse env (Provider (Proposal d)) StorageDealWaitingForData [] (ProposalCid d) v = (w1, e1)"
    by (cases "SendSignedResponse env (Provider (Proposal d)) StorageDealWaitingForData [] (ProposalCid d) v")
  have w1: "wRepo w1 = wRepo w" using SendSignedResponse_repo [of env "Provider (Proposal d)" StorageDealWaitingForData "[]" "ProposalCid d" v] s v by simp
  consider (rej) x where "checkProposal env d = Inl x" | (err) x where "checkProposal env d = Inr ()" "e1 = Some x"
    | (ok) "checkProposal env d = Inr ()" "e1 = None"
    by (cases "checkProposal env d"; cases e1) auto
  then show ?thesis
  proof cases
    case rej
    let ?d = "d\<lparr>mdState := StorageDealRejecting, mdMessage := errText env x\<rparr>"
    obtain w2 where w2: "saveDeal repo ?d w2 = (d', w', e)" "wRepo w2 = wRepo w"
      using assms rej v SendSignedResponse_repo [of env "Provider (Proposal d)" StorageDealFailing "errText env x" "ProposalCid d" v]
      by (auto simp: AcceptDeal_def HandleReject_def v_def split: prod.splits)
    then show ?thesis by (auto simp: saveDeal_def sameDeal_def split: prod.splits)
  next
    case err
    then have "HandleError env repo d x w1 = (d', w', e)" using assms s by (simp add: AcceptDeal_def v_def)
    then show ?thesis using w1 HandleError_save [of env repo d x w1] by simp
  next
    case ok
    then have "saveDeal repo (d\<lparr>mdState := StorageDealWaitingForData\<rparr>) (note_effect (Disconnect (ProposalCid d)) w1) = (d', w', e)"
      using assms s by (simp add: AcceptDeal_def SaveState_def v_def)
    moreover have "acceptable_now env d" using ok(1) unfolding acceptable_now_def checkProposal_ok .
    ultimately show ?thesis using w1 by (auto simp: saveDeal_def sameDeal_def split: prod.splits)
  qed
qed

lemma AcceptDeal_saves:
  assumes "AcceptDeal env repo d w = (d', w', e)"
  shows "saves repo (sameDeal d) w w'"
  using AcceptDeal_save [OF assms] saves.saved [OF saves_refl, of "sameDeal d" d' repo w w' e] by blast

section \<open>What the stages save\<close>

text \<open>A stage saves versions of the deal and goes on with one.\<close>

definition stageSaves :: "'r StorageDealRepo \<Rightarrow> MinerDeal \<Rightarrow> 'r world \<Rightarrow> 'r stage \<Rightarrow> bool" where
  "stageSaves repo d w s = (case s of
      Next d' w' \<Rightarrow> sameDeal d d' \<and> saves repo (sameDeal d) w w'
    | Stop d' w' e \<Rightarrow> saves repo (sameDeal d) w w'
    | Boom m \<Rightarrow> True)"

lemma stageSaves_from:
  assumes "stageSaves repo d1 w1 s" "sameDeal d d1" "saves repo (sameDeal d) w w1"
  shows "stageSaves repo d w s"
  using assms sameDeal_cong [OF assms(2)] saves_trans by (cases s) (auto simp: stageSaves_def)

lemma stageSaves_next [simp]: "stageSaves repo d w (Next d w)"
  by (simp add: stageSaves_def)

lemma stageSaves_boom [simp]: "stageSaves repo d w (Boom m)"
  by (simp add: stageSaves_def)

lemma failDeal_stage: "sameDeal d d1 \<Longrightarrow> saves repo (sameDeal d) w w1 \<Longrightarrow> stageSaves repo d w (failDeal env repo d1 err w1)"
proof (rule stageSaves_from [of repo d1 w1])
  show "stageSaves repo d1 w1 (failDeal env repo d1 err w1)"
    using HandleError_saves [of env repo d1 err w1] by (auto simp: failDeal_def stageSaves_def split: prod.splits)
qed

lemma saveOrFail_stage:
  assumes "sameDeal d d1" "saves repo (sameDeal d) w w1"
  shows "stageSaves repo d w (saveOrFail env repo d1 w1)"
proof -
  obtain d2 w2 e where s: "saveDeal repo d1 w1 = (d2, w2, e)" by (cases "saveDeal repo d1 w1")
  have d2: "d2 = d1" "saves repo (sameDeal d) w w2" using saveDeal_saves [OF s, of "sameDeal d"] assms saves_trans by blast+
  show ?thesis using s d2 assms(1) failDeal_stage [OF assms(1) d2(2)] by (cases e) (simp_all add: saveOrFail_def stageSaves_def)
qed

lemma chain_stage:
  assumes "stageSaves repo d w s" "\<And>d' w'. stageSaves repo d' w' (k d' w')"
  shows "stageSaves repo d w (chain s k)"
proof (cases s)
  case (Next d' w')
  then show ?thesis using assms(1) stageSaves_from [OF assms(2) [of d' w'], of d w] by (simp add: chain_def stageSaves_def)
qed (use assms(1) in \<open>simp_all add: chain_def stageSaves_def\<close>)

lemma clearPaths_same [simp]: "sameDeal d (clearPaths d1) = sameDeal d d1"
  by (simp add: clearPaths_def sameDeal_def)

lemma verifyData_saves: "stageSaves repo d w (verifyData env repo d w)"
proof -
  have fd: "stageSaves repo d w (failDeal env repo (clearPaths d) err w)" for err by (rule failDeal_stage) simp_all
  have sv: "stageSaves repo d w (case saveDeal repo d1 w of (d', w', None) \<Rightarrow> Next d' w'
      | (d', w', Some e) \<Rightarrow> failDeal env repo (clearPaths d') err w')" if "sameDeal d d1" for d1 err
  proof -
    obtain d2 w2 e where s: "saveDeal repo d1 w = (d2, w2, e)" by (cases "saveDeal repo d1 w")
    have d2: "d2 = d1" "saves repo (sameDeal d) w w2" using saveDeal_saves [OF s, of "sameDeal d"] that by blast+
    show ?thesis using s d2 that failDeal_stage [OF _ d2(2), of "clearPaths d1"] by (cases e) (simp_all add: stageSaves_def)
  qed
  have up: "sameDeal d (d\<lparr>PiecePath := [], MetadataPath := m, mdPieceStatus := Undefine, mdState := StorageDealReserveProviderFunds\<rparr>)" for m
    by (simp add: sameDeal_def)
  show ?thesis
    unfolding verifyData_def using fd sv [OF up] by (simp split: option.split sum.split prod.split)
qed

lemma reserveProviderFunds_saves: "stageSaves repo d w (reserveProviderFunds env repo d w)"
  using failDeal_stage [of d d repo w w env]
  by (auto simp: reserveProviderFunds_def Let_def sameDeal_def intro!: saveOrFail_stage saves.quiet split: sum.split prod.split)

lemma waitFunding_saves: "stageSaves repo d w (waitFunding env repo d w)"
proof -
  define r where "r c = (case WaitForMessage env c of
       Inl e \<Rightarrow> (d, w, Some e)
     | Inr (code, Some e) \<Rightarrow> HandleError env repo d (ErrWrap ''AddFunds errored'' e) w
     | Inr (code, None) \<Rightarrow>
         if code \<noteq> 0 then HandleError env repo d (ErrMsg ''AddFunds exit code'') w
         else
           (case saveDeal repo (d\<lparr>mdState := StorageDealPublish\<rparr>) w of
              (d, w', None) \<Rightarrow> (d, w', None)
            | (d, w', Some e) \<Rightarrow> HandleError env repo d (ErrMsg ''fail to save deal to database'') w'))" for c
  have r: "sameDeal d d' \<and> saves repo (sameDeal d) w w'" if "r c = (d', w', e)" for c d' w' e
  proof -
    let ?d = "d\<lparr>mdState := StorageDealPublish\<rparr>"
    have same: "sameDeal d ?d" by (simp add: sameDeal_def)
    obtain d2 w2 e2 where s: "saveDeal repo ?d w = (d2, w2, e2)" by (cases "saveDeal repo ?d w")
    note d2 = saveDeal_saves [OF s, of "sameDeal d", OF same]
    have he: "sameDeal d d' \<and> saves repo (sameDeal d) w w'" if "HandleError env repo d2 x w2 = (d', w', e)" for x
      using HandleError_saves [OF that] d2 same sameDeal_cong [OF same] saves_trans by metis
    show ?thesis
      using that HandleError_saves [of env repo d _ w d' w' e] he s d2 same
      by (auto simp: r_def split: sum.splits prod.splits option.splits if_splits)
  qed
  have "waitFunding env repo d w = (if mdState d \<noteq> StorageDealProviderFunding then Next d w else
      (case mdAddFundsCid d of None \<Rightarrow> Boom ''invalid memory address or nil pointer dereference''
       | Some c \<Rightarrow> (case r c of (d', w', errW) \<Rightarrow> (case errW of None \<Rightarrow> Next d' w'
           | Some e \<Rightarrow> failDeal env repo d' (ErrWrap ''wait AddFunds msg for provider errored'' e) w'))))"
    unfolding waitFunding_def r_def Let_def ..
  then show ?thesis using r failDeal_stage [of d _ repo w _ env] by (auto simp: stageSaves_def split: option.split prod.split)
qed

lemma publishDeal_saves: "stageSaves repo d w (publishDeal env repo d w)"
  using failDeal_stage [of d d repo w w env]
  by (auto simp: publishDeal_def sameDeal_def intro!: saveOrFail_stage saves.quiet split: sum.split)

lemma waitForPublish_saves: "stageSaves repo d w (waitForPublish env repo d w)"
proof -
  obtain d1 w1 where r: "releaseReservedFunds d w = (d1, w1)" by (cases "releaseReservedFunds d w")
  have d1: "sameDeal d d1" "wRepo w1 = wRepo w" using releaseReservedFunds_same [OF r] by simp_all
  have "stageSaves repo d w (saveOrFail env repo (d1\<lparr>DealID := i, PublishCid := c, mdState := StorageDealStaged\<rparr>) w1)" for i c
    by (rule saveOrFail_stage) (use d1 in \<open>simp_all add: sameDeal_def saves.quiet\<close>)
  then show ?thesis
    using failDeal_stage [of d d repo w w env] r by (simp add: waitForPublish_def split: sum.split option.split)
qed

lemma savePieceFile_repo: "savePieceFile env d n w = (w', e) \<Longrightarrow> wRepo w' = wRepo w"
  by (auto simp: savePieceFile_def Let_def split: option.splits)

lemma handoffDeal_saves: "stageSaves repo d w (handoffDeal env repo d w)"
proof -
  define fin where "fin = (\<lambda>carFilePath d w1.
     saveOrFail env repo (d\<lparr>AvailableForRetrieval := True, mdState := StorageDealAwaitingPreCommit\<rparr>)
       (note_effect (RegisterShard (PieceCID (Proposal d)) carFilePath) w1))"
  have fin: "stageSaves repo d0 w0 (fin p d0 w1)" if "wRepo w1 = wRepo w0" for p d0 w0 w1
    unfolding fin_def by (rule saveOrFail_stage) (simp_all add: sameDeal_def saves.quiet that)
  have fd: "stageSaves repo d0 w0 (failDeal env repo d0 x w1)" if "wRepo w1 = wRepo w0" for d0 w0 w1 x
    by (rule failDeal_stage) (simp_all add: saves.quiet that)
  have sv: "stageSaves repo d w (saveOrFail env repo (d\<lparr>PayloadSize := n\<rparr>) w)" for n
    by (rule saveOrFail_stage) (simp_all add: sameDeal_def)
  have "stageSaves repo d w (handOffFile env repo d w fin)"
    unfolding handOffFile_def
    by (auto split: sum.split prod.split option.split intro!: chain_stage sv fd fin dest: savePieceFile_repo)
  moreover have "stageSaves repo d w (handOffCar env repo d w fin)"
    unfolding handOffCar_def
    by (auto split: sum.split prod.split option.split intro!: chain_stage sv fd fin dest: savePieceFile_repo)
  ultimately show ?thesis by (simp add: handoffDeal_def Let_def fin_def)
qed

lemma HandleOff_saves:
  assumes "HandleOff env repo d w = Ret (d', w', e)"
  shows "saves repo (sameDeal d) w w'"
proof -
  have "stageSaves repo d w (chain (chain (chain (chain (chain (verifyData env repo d w) (reserveProviderFunds env repo)) (waitFunding env repo))
            (publishDeal env repo)) (waitForPublish env repo)) (handoffDeal env repo))"
    by (intro chain_stage verifyData_saves reserveProviderFunds_saves waitFunding_saves publishDeal_saves waitForPublish_saves handoffDeal_saves)
  then show ?thesis using assms by (auto simp: HandleOff_def stageSaves_def split: stage.splits)
qed

section \<open>The provider as a state machine\<close>

text \<open>The CID of a signed proposal and the CID of a bare proposal name a deal. The steps of the provider: a stream with a
  proposal, an event of a transfer, the two imports, a restart, and the run of a goroutine. The outside may be different
  at every step.\<close>

definition named :: "((DealProposal \<times> bytes) option \<Rightarrow> cid res) \<Rightarrow> (DealProposal \<Rightarrow> cid res) \<Rightarrow> MinerDeal \<Rightarrow> bool" where
  "named sid uid d \<longleftrightarrow> (\<exists>sg. sid (Some (Proposal d, sg)) = Inr (ProposalCid d)) \<or> uid (Proposal d) = Inr (ProposalCid d)"

inductive spStep :: "'r StorageDealRepo \<Rightarrow> ((DealProposal \<times> bytes) option \<Rightarrow> cid res) \<Rightarrow> (DealProposal \<Rightarrow> cid res) \<Rightarrow> 'r spState \<Rightarrow> 'r spState \<Rightarrow> bool"
  for repo sid uid where
  dealStream: "AsIpld env = sid \<Longrightarrow> HandleDealStream env repo peer m (spWorld s) = Ret w \<Longrightarrow> spStep repo sid uid s (s\<lparr>spWorld := w\<rparr>)"
| transfer: "spStep repo sid uid s (ProviderDataTransferSubscriber denv repo ev ch s)"
| importData: "ImportDataForDeal penv repo c data s = (s', e) \<Longrightarrow> spStep repo sid uid s s'"
| importPublished: "ProposalCidOf penv = uid \<Longrightarrow> ImportPublishedDeal penv repo deal ref s = Ret (s', e) \<Longrightarrow> spStep repo sid uid s s'"
| restart: "start repo s = Ret (s', e) \<Longrightarrow> spStep repo sid uid s s'"
| goroutine: "runHandleOff denv repo i s = Ret s' \<Longrightarrow> spStep repo sid uid s s'"

definition spInv :: "('r \<Rightarrow> cid \<Rightarrow> MinerDeal option) \<Rightarrow> ('r \<Rightarrow> bool) \<Rightarrow> ((DealProposal \<times> bytes) option \<Rightarrow> cid res) \<Rightarrow> (DealProposal \<Rightarrow> cid res) \<Rightarrow> 'r spState \<Rightarrow> bool" where
  "spInv view invar sid uid s \<longleftrightarrow> invar (wRepo (spWorld s)) \<and>
     (\<forall>c d. view (wRepo (spWorld s)) c = Some d \<longrightarrow> named sid uid d) \<and> (\<forall>d \<in> set (spGo s). named sid uid d)"

lemma named_same: "sameDeal d d' \<Longrightarrow> named sid uid d' = named sid uid d"
  by (simp add: sameDeal_def named_def)

lemma saves_mono: "saves repo P w w' \<Longrightarrow> (\<And>d. P d \<Longrightarrow> Q d) \<Longrightarrow> saves repo Q w w'"
  by (induction rule: saves.induct) (auto intro: saves.intros)

lemma saves_named: "saves repo (sameDeal d) w w' \<Longrightarrow> named sid uid d \<Longrightarrow> saves repo (named sid uid) w w'"
  using saves_mono named_same by blast

lemma restartDeals_go: "spWorld (restartDeals ds s) = spWorld s \<and> spGo (restartDeals ds s) = spGo s @ filter (\<lambda>d. \<not> isTerminateState d) ds"
  by (induction ds s rule: restartDeals.induct) simp_all

text \<open>The outcomes of importing the data of a deal.\<close>

definition importedDeal :: "string \<Rightarrow> MinerDeal \<Rightarrow> MinerDeal" where
  "importedDeal path d = d\<lparr>PiecePath := path, MetadataPath := [], mdState := StorageDealReserveProviderFunds, mdPieceStatus := Undefine\<rparr>"

definition importable :: "providerEnv \<Rightarrow> MinerDeal \<Rightarrow> bool" where
  "importable env d \<longleftrightarrow> \<not> isTerminateState d \<and> statusNum env (mdState d) \<le> statusNum env StorageDealWaitingForData"

lemma ImportDataForDeal_elims:
  assumes "ImportDataForDeal env repo c data s = (s', e)"
  obtains (unchanged) "s' = s" "e \<noteq> None"
  | (cleaned) path d x where "sdGetDeal repo (wRepo (spWorld s)) c = Inr d" "importFile env (Proposal d) data = Inl x" "e = Some x"
      "s' = s\<lparr>spWorld := note_effect (DeleteFile path) (note_effect (CreateTemp path) (spWorld s))\<rparr>"
  | (saved) d path d' w x where "sdGetDeal repo (wRepo (spWorld s)) c = Inr d" "importable env d" "importFile env (Proposal d) data = Inr ()"
      "fsCreateTemp (peStream env) = Inr path" "e = None \<longleftrightarrow> x = None"
      "saveDeal repo (importedDeal path d) (note_effect (CreateTemp path) (spWorld s)) = (d', w, x)"
      "s' = s\<lparr>spWorld := w, spGo := spGo s @ (if x = None then [importedDeal path d] else [])\<rparr>"
proof (cases "sdGetDeal repo (wRepo (spWorld s)) c")
  case (Inl y)
  then have "s' = s \<and> e \<noteq> None" using assms by (auto simp: ImportDataForDeal_def)
  then show thesis using unchanged by blast
next
  case (Inr d)
  show thesis
  proof (cases "importable env d")
    case False
    then have "s' = s \<and> e \<noteq> None" using assms Inr by (auto simp: ImportDataForDeal_def importable_def split: if_splits)
    then show thesis using unchanged by blast
  next
    case imp: True
    show thesis
    proof (cases "fsCreateTemp (peStream env)")
      case (Inl y)
      then have "s' = s \<and> e \<noteq> None" using assms Inr by (auto simp: ImportDataForDeal_def split: if_splits)
      then show thesis using unchanged by blast
    next
      case tmp: (Inr path)
      let ?w = "note_effect (CreateTemp path) (spWorld s)"
      obtain d' w x where sv: "saveDeal repo (importedDeal path d) ?w = (d', w, x)" by (metis prod_cases3)
      have eq: "(s', e) = (case importFile env (Proposal d) data of
            Inl y \<Rightarrow> (s\<lparr>spWorld := note_effect (DeleteFile path) ?w\<rparr>, Some y)
          | Inr _ \<Rightarrow> (case x of Some y \<Rightarrow> (s\<lparr>spWorld := w\<rparr>, Some (ErrWrap ''save deal failed'' y))
              | None \<Rightarrow> (s\<lparr>spWorld := w, spGo := spGo s @ [importedDeal path d]\<rparr>, None)))"
        using assms Inr imp tmp sv unfolding ImportDataForDeal_def importable_def importedDeal_def Let_def
        by (auto split: sum.splits option.splits)
      show thesis
      proof (cases "importFile env (Proposal d) data")
        case (Inl y) then show thesis using eq cleaned Inr by simp
      next
        case (Inr u)
        have "(e = None \<longleftrightarrow> x = None) \<and> s' = s\<lparr>spWorld := w, spGo := spGo s @ (if x = None then [importedDeal path d] else [])\<rparr>"
          using eq Inr by (auto split: option.splits)
        then show thesis using saved [OF \<open>sdGetDeal repo (wRepo (spWorld s)) c = Inr d\<close> imp _ tmp _ sv] Inr by simp
      qed
    qed
  qed
qed

section \<open>What a step saves\<close>

text \<open>The deals a walk lists are stored.\<close>

locale provider_repo = storage_deal_repo +
  assumes list_sound: "invar r \<Longrightarrow> sdListDeal repo r = Ret (Inr ds) \<Longrightarrow> d \<in> set ds \<Longrightarrow> view r (ProposalCid d) = Some d"
begin

lemma saves_view:
  assumes "saves repo P w w'" "invar (wRepo w)"
  shows "invar (wRepo w') \<and> (\<forall>c. view (wRepo w') c = view (wRepo w) c \<or> (\<exists>d. view (wRepo w') c = Some d \<and> P d \<and> ProposalCid d = c))"
  using assms
proof (induction rule: saves.induct)
  case (saved w1 d w' e)
  have "view (wRepo w') = (case e of None \<Rightarrow> (view (wRepo w1))(ProposalCid d \<mapsto> d) | Some _ \<Rightarrow> view (wRepo w1))"
    using save_view [OF saved(3)] .
  moreover have "invar (wRepo w')" using save_invar [OF _ saved(3)] saved.IH saved.prems by blast
  ultimately show ?case using saved.IH saved.prems saved.hyps(2) by (auto split: option.splits)
qed simp

text \<open>A step saves named deals and starts goroutines for named deals.\<close>

definition namedStep :: "((DealProposal \<times> bytes) option \<Rightarrow> cid res) \<Rightarrow> (DealProposal \<Rightarrow> cid res) \<Rightarrow> 'a spState \<Rightarrow> 'a spState \<Rightarrow> bool" where
  "namedStep sid uid s s' \<longleftrightarrow> saves repo (named sid uid) (spWorld s) (spWorld s') \<and> (\<forall>d \<in> set (spGo s'). named sid uid d)"

lemma stored_named: "spInv view invar sid uid s \<Longrightarrow> sdGetDeal repo (wRepo (spWorld s)) c = Inr d \<Longrightarrow> named sid uid d"
  unfolding spInv_def using get_sound by blast

lemma namedStep_inv:
  assumes "spInv view invar sid uid s" "namedStep sid uid s s'"
  shows "spInv view invar sid uid s'"
proof -
  note v = saves_view [of "named sid uid" "spWorld s" "spWorld s'"]
  have "invar (wRepo (spWorld s))" using assms(1) by (simp add: spInv_def)
  then have n: "invar (wRepo (spWorld s'))" "\<And>c. view (wRepo (spWorld s')) c = view (wRepo (spWorld s)) c \<or>
      (\<exists>d. view (wRepo (spWorld s')) c = Some d \<and> named sid uid d \<and> ProposalCid d = c)"
    using v assms(2) by (auto simp: namedStep_def)
  have "named sid uid d" if "view (wRepo (spWorld s')) c = Some d" for c d
    using n(2) [of c] that assms(1) by (auto simp: spInv_def)
  then show ?thesis using n(1) assms(2) by (auto simp: spInv_def namedStep_def)
qed

lemma namedStep_refl: "spInv view invar sid uid s \<Longrightarrow> namedStep sid uid s s"
  by (simp add: namedStep_def spInv_def)

lemma namedStep_trans: "namedStep sid uid s s1 \<Longrightarrow> namedStep sid uid s1 s2 \<Longrightarrow> namedStep sid uid s s2"
  using saves_trans by (auto simp: namedStep_def)

lemma storeDeal_named:
  assumes "spInv view invar sid uid s" "named sid uid d" "storeDeal repo d s = (s', e)"
  shows "namedStep sid uid s s' \<and> spGo s' = spGo s"
  using assms saveDeal_saves(2) [of repo d "spWorld s" _ _ _ "named sid uid"]
  by (auto simp: storeDeal_def namedStep_def spInv_def split: prod.splits option.splits)

lemma withDeal_named:
  assumes "spInv view invar sid uid s" "withDeal repo c s k = (s', e)"
    and "\<And>d. named sid uid d \<Longrightarrow> k d = (s', e) \<Longrightarrow> namedStep sid uid s s'"
  shows "namedStep sid uid s s'"
  using assms stored_named [OF assms(1)] namedStep_refl [OF assms(1)] by (auto simp: withDeal_def split: sum.splits)

lemma complete_named:
  assumes i: "spInv view invar sid uid s" and h: "HandleCompleteFor repo c s = (s', e)"
  shows "namedStep sid uid s s'"
  using i h [unfolded HandleCompleteFor_def]
proof (rule withDeal_named)
  fix d :: MinerDeal
  let ?d = "d\<lparr>mdState := StorageDealVerifyData\<rparr>"
  assume d: "named sid uid d" "(let deal = ?d in case storeDeal repo deal s of (s', Some e) \<Rightarrow> (s', Some e)
     | (s', None) \<Rightarrow> (s'\<lparr>spGo := spGo s' @ [deal]\<rparr>, None)) = (s', e)"
  have n: "named sid uid ?d" using d(1) by (simp add: named_def)
  obtain s1 e1 where s: "storeDeal repo ?d s = (s1, e1)" by (cases "storeDeal repo ?d s")
  show "namedStep sid uid s s'"
    using d(2) s storeDeal_named [OF i n s] n by (cases e1) (auto simp: namedStep_def)
qed

lemma translate_named:
  assumes i: "spInv view invar sid uid s" and t: "translateEvent env repo ev ch c s = (s', e)"
  shows "namedStep sid uid s s'"
proof -
  have store: "namedStep sid uid s s'" if "withDeal repo c s (\<lambda>d. storeDeal repo (f d) s) = (s', e)"
    "\<And>d. sameDeal d (f d)" for f
    using i that(1) by (rule withDeal_named) (use storeDeal_named [OF i] named_same [OF that(2)] in blast)
  have "namedStep sid uid s s'" if "HandleCancelForDeal env repo c s = (s', e)"
    using i that [unfolded HandleCancelForDeal_def]
  proof (rule withDeal_named)
    fix d
    assume d: "named sid uid d" "(case HandleError env repo d (ErrMsg ''proposal data transfer cancelled'') (spWorld s) of
       (_, w, err) \<Rightarrow> (s\<lparr>spWorld := w\<rparr>, err)) = (s', e)"
    obtain d1 w1 e1 where h: "HandleError env repo d (ErrMsg ''proposal data transfer cancelled'') (spWorld s) = (d1, w1, e1)"
      by (metis prod_cases3)
    have "saves repo (named sid uid) (spWorld s) w1" using HandleError_saves [OF h] saves_named [OF _ d(1)] by blast
    then show "namedStep sid uid s s'" using d(2) i unfolding h by (auto simp: namedStep_def spInv_def)
  qed
  moreover have "namedStep sid uid s s'" if "HandleRestartForDeal repo c ch s = (s', e)"
    using that [unfolded HandleRestartForDeal_def] by (rule store) (simp add: sameDeal_def)
  moreover have "namedStep sid uid s s'" if "HandleStalledForDeal repo c s = (s', e)"
    using that [unfolded HandleStalledForDeal_def] by (rule store) (simp add: sameDeal_def)
  moreover have "namedStep sid uid s s'" if "HandleInitForDeal repo c ch s = (s', e)"
    using that [unfolded HandleInitForDeal_def] by (rule store) (simp add: sameDeal_def)
  moreover have "namedStep sid uid s s'" if "HandleFailedForDeal env repo c x s = (s', e)" for x
    using that [unfolded HandleFailedForDeal_def] by (rule store) (simp add: sameDeal_def)
  ultimately show ?thesis using t namedStep_refl [OF i] by (cases "evCode ev") (simp_all add: translateEvent_def)
qed

lemma subscriber_named:
  assumes i: "spInv view invar sid uid s"
  shows "namedStep sid uid s (ProviderDataTransferSubscriber env repo ev ch s)"
proof (cases "csProposal ch")
  case None
  then show ?thesis using namedStep_refl [OF i] by (simp add: ProviderDataTransferSubscriber_def)
next
  case (Some c)
  define s1 where "s1 = (if csCompleted ch then fst (HandleCompleteFor repo c s) else s)"
  have 1: "namedStep sid uid s s1"
    using complete_named [OF i, of c] namedStep_refl [OF i] by (cases "HandleCompleteFor repo c s") (simp add: s1_def)
  have "namedStep sid uid s1 (fst (translateEvent env repo ev (csChannelID ch) c s1))"
    using translate_named [OF namedStep_inv [OF i 1], of env ev "csChannelID ch" c] by (cases "translateEvent env repo ev (csChannelID ch) c s1") simp
  then have "namedStep sid uid s (fst (translateEvent env repo ev (csChannelID ch) c s1))" by (rule namedStep_trans [OF 1])
  then show ?thesis unfolding ProviderDataTransferSubscriber_def Some option.case Let_def s1_def .
qed

lemma trackDeal_saves:
  assumes "named sid uid d"
  shows "saves repo (named sid uid) w (trackDeal env repo d w)"
proof -
  obtain d1 w1 e where s: "saveDeal repo d w = (d1, w1, e)" by (cases "saveDeal repo d w")
  note 1 = saveDeal_saves(2) [OF s, of "named sid uid", OF assms]
  obtain d2 w2 e2 where a: "AcceptDeal (seDeal env) repo d w1 = (d2, w2, e2)" by (cases "AcceptDeal (seDeal env) repo d w1")
  note 2 = saves_named [OF AcceptDeal_saves [OF a] assms]
  show ?thesis using s a 1 saves_trans [OF 2 1] by (simp add: trackDeal_def split: option.split)
qed

lemma createInbound_repo: "createInbound env piece w = (p, w') \<Longrightarrow> wRepo w' = wRepo w"
  by (auto simp: createInbound_def Let_def split: if_splits sum.splits option.splits)

lemma stream_named:
  assumes i: "spInv view invar (AsIpld env) uid s" and h: "HandleDealStream env repo peer m (spWorld s) = Ret w"
  shows "namedStep (AsIpld env) uid s (s\<lparr>spWorld := w\<rparr>)"
proof -
  have resend: "wRepo (fst (resendProposalResponse env md v)) = wRepo v" for md and v :: "'a world"
    by (simp add: resendProposalResponse_def split: sum.split option.split)
  have track: "saves repo (named (AsIpld env) uid) (spWorld s) (trackDeal env repo (newMinerDeal env peer p c piece fr path) w1)"
    if "AsIpld env (Some p) = Inr c" "wRepo w1 = wRepo (spWorld s)" for p c piece fr path w1
  proof -
    have "named (AsIpld env) uid (newMinerDeal env peer p c piece fr path)" using that(1) by (cases p) (auto simp: named_def newMinerDeal_def)
    then show ?thesis using trackDeal_saves saves_trans [OF _ saves.quiet [OF that(2)]] by blast
  qed
  have "saves repo (named (AsIpld env) uid) (spWorld s) w"
    using h track resend
    by (auto simp: HandleDealStream_def intro: saves.quiet dest: createInbound_repo split: sum.splits option.splits prod.splits)
  then show ?thesis using i by (simp add: namedStep_def spInv_def)
qed

lemma import_named:
  assumes i: "spInv view invar sid uid s" and h: "ImportDataForDeal env repo c data s = (s', e)"
  shows "namedStep sid uid s s'"
  using h
proof (cases rule: ImportDataForDeal_elims)
  case unchanged
  then show ?thesis using namedStep_refl [OF i] by simp
next
  case cleaned
  then show ?thesis using i by (simp add: namedStep_def spInv_def saves.quiet)
next
  case (saved d path d' w x)
  have n: "named sid uid (importedDeal path d)" using stored_named [OF i saved(1)] by (simp add: named_def importedDeal_def)
  have "saves repo (named sid uid) (spWorld s) w"
    using saves_trans [OF saveDeal_saves(2) [OF saved(6), of "named sid uid", OF n] saves.quiet] by simp
  then show ?thesis using saved(7) i n by (auto simp: namedStep_def spInv_def)
qed

lemma published_named:
  assumes i: "spInv view invar sid (ProposalCidOf env) s" and h: "ImportPublishedDeal env repo deal ref s = Ret (s', e)"
  shows "namedStep sid (ProposalCidOf env) s s'"
proof (cases "checkPublished env deal")
  case (Inl x)
  then show ?thesis using h namedStep_refl [OF i] by (simp add: ImportPublishedDeal_def)
next
  case (Inr u)
  then have "ProposalCidOf env (Proposal deal) = Inr (ProposalCid deal)"
    by (auto simp: checkPublished_def split: sum.splits)
  then have n: "named sid (ProposalCidOf env) (importDeal env deal rf)" for rf by (simp add: named_def importDeal_def)
  show ?thesis
    using h Inr namedStep_refl [OF i] i saveDeal_saves(2) [of repo _ "spWorld s" _ _ _ "named sid (ProposalCidOf env)", OF _ n]
    by (auto simp: ImportPublishedDeal_def namedStep_def spInv_def split: sum.splits option.splits prod.splits)
qed

lemma start_named:
  assumes i: "spInv view invar sid uid s" and h: "start repo s = Ret (s', e)"
  shows "namedStep sid uid s s'"
proof -
  consider "s' = s" | ds where "sdListDeal repo (wRepo (spWorld s)) = Ret (Inr ds)" "s' = restartDeals ds s"
    using h by (auto simp: start_def split: outcome.splits sum.splits)
  then show ?thesis
  proof cases
    case 1 then show ?thesis using namedStep_refl [OF i] by simp
  next
    case 2
    have "named sid uid d" if "d \<in> set ds" for d
      using list_sound [OF _ 2(1) that] i unfolding spInv_def by blast
    then show ?thesis using 2(2) i by (auto simp: restartDeals_go namedStep_def spInv_def)
  qed
qed

lemma goroutine_named:
  assumes i: "spInv view invar sid uid s" and h: "runHandleOff env repo j s = Ret s'"
  shows "namedStep sid uid s s'"
proof (cases "j < length (spGo s)")
  case False
  then show ?thesis using h namedStep_refl [OF i] by (simp add: runHandleOff_def)
next
  case True
  then obtain d w e where o: "HandleOff env repo (spGo s ! j) (spWorld s) = Ret (d, w, e)"
    "s' = s\<lparr>spWorld := w, spGo := take j (spGo s) @ drop (Suc j) (spGo s)\<rparr>"
    using h by (auto simp: runHandleOff_def split: outcome.splits)
  have n: "named sid uid (spGo s ! j)" using i True by (simp add: spInv_def)
  show ?thesis
    using o(2) i saves_named [OF HandleOff_saves [OF o(1)] n] by (auto simp: namedStep_def spInv_def dest: in_set_takeD in_set_dropD)
qed

lemma step_named: "spStep repo sid uid s s' \<Longrightarrow> spInv view invar sid uid s \<Longrightarrow> namedStep sid uid s s'"
  by (induction rule: spStep.induct)
    (auto intro: stream_named subscriber_named import_named published_named start_named goroutine_named)

end

end
