(* ===== verification/Storage_Provider_Thms.thy ===== *)
theory Storage_Provider_Thms
  imports Storage_Provider_Props
begin

text \<open>
  What the storage provider promises: the deals it knows keep their proposals whatever happens, what a proposal stream and
  an import leave in the store, and what the handlers do with deals they should leave alone.
\<close>

section \<open>The badger repository serves the provider\<close>

sublocale badger_deals \<subseteq> provider: provider_repo "NewStorageDealRepo mo st" "deal_view contents st" "deal_invar contents st"
proof unfold_locales
  have sel: "sdListDeal (NewStorageDealRepo mo st) = ListDeal st" by (simp add: NewStorageDealRepo_def)
  show "deal_view contents st r (ProposalCid d) = Some d"
    if "deal_invar contents st r" "sdListDeal (NewStorageDealRepo mo st) r = Ret (Inr ds)" "d \<in> set ds" for r ds d
    using collected_stored [OF that(1) that(2) [unfolded sel ListDeal_def]] that(3) by auto
qed

section \<open>A concrete provider\<close>

definition demo_ref :: DataRef where
  "demo_ref = \<lparr>TransferType = ''graphsync'', Root = ''root'', refPieceCid = None, refPieceSize = 0, RawBlockSize = 0\<rparr>"

definition demo_sid :: "(DealProposal \<times> bytes) option \<Rightarrow> cid res" where
  "demo_sid x = (case x of Some (p, sg) \<Rightarrow> if p = demo_prop 128 then Inr ''p1'' else Inl (ErrApi ''cbor'') | None \<Rightarrow> Inl (ErrApi ''cbor''))"

definition demo_uid :: "DealProposal \<Rightarrow> cid res" where
  "demo_uid p = (if p = demo_prop 128 then Inr ''u1'' else Inl (ErrApi ''cbor''))"

definition demo_senv :: streamEnv where
  "demo_senv = \<lparr>seDeal = demo_denv, AsIpld = demo_sid, peerID = ''peer'', TTManual = ''manual'', fsCreateTemp = Inr ''tmp'',
     tempClose = None, curTime = 1, AddStream = (\<lambda>_. None), storedGetAsk = (\<lambda>_. Inl ErrNotFound), WriteAskResponse = (\<lambda>_ _. None),
     SignReply = (\<lambda>_ _. Inr ''sig''), SignDealResponse = (\<lambda>_ _ _ _. Inr ''sig''), WriteResponse = (\<lambda>_ _ _ _ _. None),
     WriteDealStatusResponse = (\<lambda>_ _ _. None), dumpCid = Inr, VerifyStatusSignature = (\<lambda>s _ _ _. if s = ''ok'' then None else Some (ErrApi ''sig'')),
     isMid = (\<lambda>_. False), messageChainCid = (\<lambda>c. Inr (Some c))\<rparr>"

definition demo_message :: networkProposal where
  "demo_message = \<lparr>npDealProposal = Some (demo_prop 128, ''sig''), npPiece = Some demo_ref, npFastRetrieval = True\<rparr>"

definition demo_s0 :: "(ds_key \<times> MinerDeal) list spState" where
  "demo_s0 = \<lparr>spWorld = demo_world, spGo = []\<rparr>"

abbreviation demo_repo :: "(ds_key \<times> MinerDeal) list StorageDealRepo" where
  "demo_repo \<equiv> NewStorageDealRepo id map_deal_store"

definition demo_w1 :: "(ds_key \<times> MinerDeal) list world" where
  "demo_w1 = (case HandleDealStream demo_senv demo_repo ''client'' (Inr demo_message) demo_world of Ret w \<Rightarrow> w | Panic _ \<Rightarrow> demo_world)"

definition demo_done :: channelState where
  "demo_done = \<lparr>csProposal = Some ''p1'', csChannelID = \<lparr>Initiator = ''client'', Responder = ''peer'', chanID = 1\<rparr>, csCompleted = True\<rparr>"

definition demo_event :: transferEvent where
  "demo_event = \<lparr>evCode = EvOther 0, evMessage = []\<rparr>"

lemma demo_w1_run: "HandleDealStream demo_senv demo_repo ''client'' (Inr demo_message) demo_world = Ret demo_w1"
proof -
  have "(case HandleDealStream demo_senv demo_repo ''client'' (Inr demo_message) demo_world of Ret _ \<Rightarrow> True | Panic _ \<Rightarrow> False) = True"
    by code_simp
  then show ?thesis by (auto simp: demo_w1_def split: outcome.splits)
qed

section \<open>Proposals are kept\<close>

text \<open>No two proposals have the same CID, and the CID of a signed proposal is not that of a bare one.\<close>

definition cidsDistinct :: "((DealProposal \<times> bytes) option \<Rightarrow> cid res) \<Rightarrow> (DealProposal \<Rightarrow> cid res) \<Rightarrow> bool" where
  "cidsDistinct sid uid \<longleftrightarrow>
     (\<forall>p sg q tg c. sid (Some (p, sg)) = Inr c \<and> sid (Some (q, tg)) = Inr c \<longrightarrow> p = q) \<and>
     (\<forall>p q c. uid p = Inr c \<and> uid q = Inr c \<longrightarrow> p = q) \<and>
     (\<forall>p sg q c. sid (Some (p, sg)) = Inr c \<longrightarrow> uid q \<noteq> Inr c)"

lemma named_proposal: "cidsDistinct sid uid \<Longrightarrow> named sid uid d \<Longrightarrow> named sid uid d' \<Longrightarrow> ProposalCid d' = ProposalCid d \<Longrightarrow> Proposal d' = Proposal d"
  unfolding cidsDistinct_def named_def by metis

context provider_repo
begin

lemma step_keeps:
  assumes "cidsDistinct sid uid" "spInv view invar sid uid s" "spStep repo sid uid s s'" "view (wRepo (spWorld s)) c = Some d"
  shows "\<exists>d'. view (wRepo (spWorld s')) c = Some d' \<and> Proposal d' = Proposal d"
proof -
  have i: "invar (wRepo (spWorld s))" "named sid uid d" using assms(2,4) unfolding spInv_def by blast+
  have st: "saves repo (named sid uid) (spWorld s) (spWorld s')" using step_named [OF assms(3,2)] by (simp add: namedStep_def)
  have c: "ProposalCid d = c" by (rule view_key [OF i(1) assms(4)])
  show ?thesis using saves_view [OF st i(1)] assms(4) named_proposal [OF assms(1) i(2)] c by metis
qed

lemma steps_keep:
  assumes "(spStep repo sid uid)\<^sup>*\<^sup>* s s'" "cidsDistinct sid uid" "spInv view invar sid uid s"
  shows "spInv view invar sid uid s' \<and> (\<forall>c d. view (wRepo (spWorld s)) c = Some d \<longrightarrow>
    (\<exists>d'. view (wRepo (spWorld s')) c = Some d' \<and> Proposal d' = Proposal d))"
  using assms(1)
proof (induction rule: rtranclp_induct)
  case base
  then show ?case using assms(3) by blast
next
  case (step s1 s2)
  then have i: "spInv view invar sid uid s1" by blast
  have "spInv view invar sid uid s2" by (rule namedStep_inv [OF i step_named [OF step(2) i]])
  then show ?case using step(3) step_keeps [OF assms(2) i step(2)] by metis
qed

end

text \<open>Property C4. Whatever sequence of proposals, transfer events, imports, restarts and runs of goroutines happens, with any
  behaviour of the node, the network and the file store: a deal the provider knows is never lost, its proposal never
  changes, and every stored or scheduled deal is filed under the CID of its own proposal.\<close>

theorem provider_keeps_proposals:
  assumes "provider_repo repo view invar" "cidsDistinct sid uid"
    and "spInv view invar sid uid s" "(spStep repo sid uid)\<^sup>*\<^sup>* s s'"
  shows "spInv view invar sid uid s' \<and>
    (\<forall>c d. view (wRepo (spWorld s)) c = Some d \<longrightarrow>
      (\<exists>d'. view (wRepo (spWorld s')) c = Some d' \<and> Proposal d' = Proposal d))"
  using provider_repo.steps_keep [OF assms(1,4,2,3)] .

definition demo_s1 :: "(ds_key \<times> MinerDeal) list spState" where
  "demo_s1 = demo_s0\<lparr>spWorld := demo_w1\<rparr>"

definition demo_s2 :: "(ds_key \<times> MinerDeal) list spState" where
  "demo_s2 = ProviderDataTransferSubscriber demo_denv demo_repo demo_event demo_done demo_s1"

definition demo_s3 :: "(ds_key \<times> MinerDeal) list spState" where
  "demo_s3 = (case runHandleOff demo_denv demo_repo 0 demo_s2 of Ret s \<Rightarrow> s | Panic _ \<Rightarrow> demo_s2)"

lemma demo_steps: "spStep demo_repo demo_sid demo_uid demo_s0 demo_s1" "(spStep demo_repo demo_sid demo_uid)\<^sup>*\<^sup>* demo_s1 demo_s3"
proof -
  show "spStep demo_repo demo_sid demo_uid demo_s0 demo_s1"
    unfolding demo_s1_def by (rule spStep.dealStream) (use demo_w1_run in \<open>simp_all add: demo_senv_def demo_s0_def\<close>)
  have 2: "spStep demo_repo demo_sid demo_uid demo_s1 demo_s2" unfolding demo_s2_def by (rule spStep.transfer)
  have "(case runHandleOff demo_denv demo_repo 0 demo_s2 of Ret s \<Rightarrow> True | Panic _ \<Rightarrow> False) = True" by code_simp
  then have "runHandleOff demo_denv demo_repo 0 demo_s2 = Ret demo_s3" by (auto simp: demo_s3_def split: outcome.splits)
  then have "spStep demo_repo demo_sid demo_uid demo_s2 demo_s3" by (rule spStep.goroutine)
  then show "(spStep demo_repo demo_sid demo_uid)\<^sup>*\<^sup>* demo_s1 demo_s3" using 2 by (meson converse_rtranclp_into_rtranclp rtranclp.rtrancl_refl)
qed

lemma demo_cids: "cidsDistinct demo_sid demo_uid"
  unfolding cidsDistinct_def demo_sid_def demo_uid_def by (auto split: if_splits)

lemma demo_inv0: "spInv (deal_view map_of map_deal_store) (deal_invar map_of map_deal_store) demo_sid demo_uid demo_s0"
  by (simp add: spInv_def demo_s0_def demo_world_def deal_invar_def deal_view_def)

theorem provider_keeps_proposals_witness:
  "\<exists>d. deal_view map_of map_deal_store (wRepo (spWorld demo_s3)) ''p1'' = Some d \<and> Proposal d = demo_prop 128 \<and>
     ProposalCid d = ''p1''"
proof -
  note keep = provider_keeps_proposals [OF mapdeals.provider.provider_repo_axioms demo_cids]
  have i: "spInv (deal_view map_of map_deal_store) (deal_invar map_of map_deal_store) demo_sid demo_uid demo_s1"
    using keep [OF demo_inv0 r_into_rtranclp [of "spStep demo_repo demo_sid demo_uid", OF demo_steps(1)]] by blast
  have "(case deal_view map_of map_deal_store (wRepo (spWorld demo_s1)) ''p1'' of Some d \<Rightarrow> Proposal d = demo_prop 128 | None \<Rightarrow> False) = True"
    by code_simp
  then obtain d where d: "deal_view map_of map_deal_store (wRepo (spWorld demo_s1)) ''p1'' = Some d" "Proposal d = demo_prop 128"
    by (auto split: option.splits)
  note k = keep [OF i demo_steps(2)]
  obtain d' where d': "deal_view map_of map_deal_store (wRepo (spWorld demo_s3)) ''p1'' = Some d'" "Proposal d' = demo_prop 128"
    using k d by metis
  have "deal_invar map_of map_deal_store (wRepo (spWorld demo_s3))" using k by (simp add: spInv_def)
  then show ?thesis using mapdeals.view_proposal d' by blast
qed

section \<open>Proposals\<close>

text \<open>What \<open>trackDeal\<close> leaves in the store: nothing, or the deal as it was received or as \<open>AcceptDeal\<close> returned it.\<close>

definition received :: "dealEnv \<Rightarrow> MinerDeal \<Rightarrow> MinerDeal \<Rightarrow> bool" where
  "received env deal d \<longleftrightarrow> sameDeal deal d \<and>
     mdState d \<in> {StorageDealUnknown, StorageDealRejecting, StorageDealFailing, StorageDealWaitingForData} \<and>
     (mdState d = StorageDealWaitingForData \<longrightarrow> acceptable_now env deal)"

context provider_repo
begin

lemma trackDeal_view:
  assumes "mdState deal = StorageDealUnknown" "invar (wRepo w)"
  shows "view (wRepo (trackDeal env repo deal w)) = view (wRepo w) \<or>
    (\<exists>d. received (seDeal env) deal d \<and> view (wRepo (trackDeal env repo deal w)) = (view (wRepo w))(ProposalCid deal \<mapsto> d))"
proof -
  obtain r1 e1 where s: "sdSaveDeal repo (wRepo w) deal = (r1, e1)" by (cases "sdSaveDeal repo (wRepo w) deal")
  define w1 where "w1 = w\<lparr>wRepo := r1\<rparr>"
  obtain d2 w2 e2 where a: "AcceptDeal (seDeal env) repo deal w1 = (d2, w2, e2)" by (metis prod_cases3)
  have t: "trackDeal env repo deal w = (if e1 \<noteq> None \<or> AddStream env (ProposalCid deal) \<noteq> None then w1 else w2)"
    using s a by (cases e1; cases "AddStream env (ProposalCid deal)") (simp_all add: trackDeal_def saveDeal_def w1_def)
  have u: "received (seDeal env) deal deal" using assms(1) by (simp add: received_def)
  note ac = AcceptDeal_save [OF a]
  have d2: "received (seDeal env) deal d2" using ac by (auto simp: received_def)
  have sv: "sdSaveDeal repo r1 d2 = (wRepo w2, e2)" using ac by (simp add: w1_def)
  have c2: "ProposalCid d2 = ProposalCid deal" using d2 by (simp add: received_def sameDeal_def)
  show ?thesis
  proof (cases e1)
    case (Some x)
    then show ?thesis using t save_failed [of "wRepo w" deal r1 x] s by (simp add: w1_def)
  next
    case None
    then have v1: "view r1 = (view (wRepo w))(ProposalCid deal \<mapsto> deal)" using save_ok [of "wRepo w" deal r1] s by simp
    have v2: "view (wRepo w2) = view r1 \<or> view (wRepo w2) = (view r1)(ProposalCid deal \<mapsto> d2)"
      using save_view [OF sv] c2 by (auto split: option.splits)
    have up: "(view r1)(ProposalCid deal \<mapsto> d2) = (view (wRepo w))(ProposalCid deal \<mapsto> d2)" unfolding v1 by simp
    show ?thesis
    proof (cases "trackDeal env repo deal w = w1")
      case True
      then have "view (wRepo (trackDeal env repo deal w)) = (view (wRepo w))(ProposalCid deal \<mapsto> deal)" using v1 by (simp add: w1_def)
      then show ?thesis using u by blast
    next
      case False
      then have "trackDeal env repo deal w = w2" using t by (auto split: if_splits)
      then show ?thesis using v2 unfolding up using v1 u d2 by metis
    qed
  qed
qed

lemma stream_outcome:
  assumes "AsIpld env (Some p) = Inr c" "npDealProposal m = Some p" "npPiece m = Some piece" "invar (wRepo w)"
  shows "\<exists>w'. HandleDealStream env repo peer (Inr m) w = Ret w' \<and>
    (case sdGetDeal repo (wRepo w) c of
       Inr md \<Rightarrow> wRepo w' = wRepo w \<and> (wLog w' = wLog w \<or> wLog w' = wLog w @ [Respond (mdState md) (mdMessage md) c])
     | Inl _ \<Rightarrow> view (wRepo w') = view (wRepo w) \<or>
         (\<exists>path d. received (seDeal env) (newMinerDeal env peer p c piece (npFastRetrieval m) path) d \<and>
            view (wRepo w') = (view (wRepo w))(c \<mapsto> d)))"
proof (cases "sdGetDeal repo (wRepo w) c")
  case (Inr md)
  have "ProposalCid md = c" using view_key [OF assms(4) get_sound [OF assms(4) Inr]] .
  then show ?thesis
    using assms(1,2) Inr
    by (auto simp: HandleDealStream_def resendProposalResponse_def note_effect_def split: sum.split option.split)
next
  case (Inl x)
  note inl = this
  obtain path w1 where ci: "createInbound env piece w = (path, w1)" by (cases "createInbound env piece w")
  have w1: "wRepo w1 = wRepo w" by (rule createInbound_repo [OF ci])
  show ?thesis
  proof (cases path)
    case None
    then show ?thesis using assms(1-3) Inl ci w1 by (simp add: HandleDealStream_def)
  next
    case (Some pa)
    define deal where "deal = newMinerDeal env peer p c piece (npFastRetrieval m) pa"
    have d: "mdState deal = StorageDealUnknown" "ProposalCid deal = c" by (simp_all add: deal_def newMinerDeal_def)
    have h: "HandleDealStream env repo peer (Inr m) w = Ret (trackDeal env repo deal w1)"
      using assms(1-3) Inl ci Some by (simp add: HandleDealStream_def deal_def)
    show ?thesis
      using trackDeal_view [OF d(1), of w1 env] assms(4) w1 d(2) h inl unfolding deal_def by auto
  qed
qed

end



text \<open>A message without a piece reference, under a CID that is not known, makes the provider dereference a nil pointer.\<close>

theorem HandleDealStream_nil_piece:
  assumes "AsIpld env (npDealProposal m) = Inr c" "sdGetDeal repo (wRepo w) c = Inl e" "npPiece m = None"
  shows "HandleDealStream env repo peer (Inr m) w = Panic ''invalid memory address or nil pointer dereference''"
  using assms by (simp add: HandleDealStream_def)

section \<open>Deal status\<close>

text \<open>Property C27. A status response reveals a deal only to its client: a response that carries a proposal goes to a request
  whose signature was verified for the client of the stored deal, and state, message, proposal, deal identifier and
  retrieval flag are those of the stored deal; every other response is the error state without any data of a deal.\<close>

theorem HandleDealStatusStream_authentic:
  assumes "HandleDealStatusStream env repo r (Inr rq) = Some (st, sg)"
  shows "if psProposal st = None then psState st = StorageDealError \<and> psProposalCid st = None \<and> psPublishCid st = None \<and> psDealID st = 0
     else (\<exists>md buf tok h. sdGetDeal repo r (rqProposal rq) = Inr md \<and> dumpCid env (rqProposal rq) = Inr buf \<and>
        GetChainHead (seDeal env) = Inr (tok, h) \<and> VerifyStatusSignature env (rqSignature rq) (Client (Proposal md)) buf tok = None \<and>
        psState st = mdState md \<and> psMessage st = mdMessage md \<and> psProposal st = Some (Proposal md) \<and> psProposalCid st = Some (ProposalCid md) \<and>
        psDealID st = DealID md \<and> psFastRetrieval st = FastRetrieval md)"
proof -
  obtain mAddr where st: "(case processDealStatusRequest env repo r rq of Inl e \<Rightarrow> (errorDealState env e, Undef) | Inr x \<Rightarrow> x) = (st, mAddr)"
    using assms by (auto simp: HandleDealStatusStream_def split: sum.splits option.splits prod.splits)
  show ?thesis
  proof (cases "processDealStatusRequest env repo r rq")
    case (Inl e)
    then have "st = errorDealState env e" using st by simp
    then show ?thesis by (simp add: errorDealState_def)
  next
    case (Inr x)
    then have "processDealStatusRequest env repo r rq = Inr (st, mAddr)" using st by simp
    then show ?thesis by (auto simp: processDealStatusRequest_def split: sum.splits option.splits prod.splits)
  qed
qed

theorem HandleDealStatusStream_authentic_witness:
  "\<exists>st sg. HandleDealStatusStream demo_senv demo_repo (wRepo demo_w1) (Inr \<lparr>rqProposal = ''p1'', rqSignature = ''ok''\<rparr>) = Some (st, sg) \<and>
     psProposal st = Some (demo_prop 128) \<and>
     (\<exists>md. sdGetDeal demo_repo (wRepo demo_w1) ''p1'' = Inr md \<and> psState st = mdState md)"
proof -
  have "(case HandleDealStatusStream demo_senv demo_repo (wRepo demo_w1) (Inr \<lparr>rqProposal = ''p1'', rqSignature = ''ok''\<rparr>) of
      Some (st, sg) \<Rightarrow> psProposal st = Some (demo_prop 128) | None \<Rightarrow> False) = True" by code_simp
  then obtain st sg where h: "HandleDealStatusStream demo_senv demo_repo (wRepo demo_w1) (Inr \<lparr>rqProposal = ''p1'', rqSignature = ''ok''\<rparr>) = Some (st, sg)"
    "psProposal st = Some (demo_prop 128)" by (auto split: option.splits)
  then show ?thesis using HandleDealStatusStream_authentic [OF h(1)] by auto
qed

section \<open>Imports\<close>

text \<open>Property C21. Importing the data of a deal succeeds only for a stored deal that has not ended, whose data has the
  commitment of its proposal; it then moves exactly that deal to the reservation of funds with the imported file and
  starts one hand-off. A failed import changes no deal and starts nothing, and deletes the file it made unless the deal
  could not be saved.\<close>

theorem ImportDataForDeal_checks:
  assumes "provider_repo repo view invar" "invar (wRepo (spWorld s))" "ImportDataForDeal env repo c data s = (s', e)"
  shows "if e = None then
      (\<exists>d path. view (wRepo (spWorld s)) c = Some d \<and> \<not> isTerminateState d \<and>
         importedCommP env (Proposal d) data = Inr (PieceCID (Proposal d)) \<and>
         view (wRepo (spWorld s')) = (view (wRepo (spWorld s)))(c \<mapsto>
           d\<lparr>PiecePath := path, MetadataPath := [], mdState := StorageDealReserveProviderFunds, mdPieceStatus := Undefine\<rparr>) \<and>
         spGo s' = spGo s @ [d\<lparr>PiecePath := path, MetadataPath := [], mdState := StorageDealReserveProviderFunds, mdPieceStatus := Undefine\<rparr>])
    else view (wRepo (spWorld s')) = view (wRepo (spWorld s)) \<and> spGo s' = spGo s \<and>
      (wLog (spWorld s') = wLog (spWorld s) \<or> (\<exists>path. wLog (spWorld s') = wLog (spWorld s) @ [CreateTemp path, DeleteFile path]) \<or>
       (\<exists>d path x. sdSaveDeal repo (wRepo (spWorld s)) d = (wRepo (spWorld s'), Some x) \<and>
          wLog (spWorld s') = wLog (spWorld s) @ [CreateTemp path]))"
  using assms(3)
proof (cases rule: ImportDataForDeal_elims)
  case unchanged
  then show ?thesis by simp
next
  case cleaned
  then show ?thesis by (auto simp: note_effect_def)
next
  case (saved d path d' w x)
  note l = provider_repo.axioms(1) [OF assms(1)]
  have sv: "sdSaveDeal repo (wRepo (spWorld s)) (importedDeal path d) = (wRepo w, x)" "wLog w = wLog (spWorld s) @ [CreateTemp path]"
    using saved(6) by (auto simp: saveDeal_def note_effect_def split: prod.splits)
  have v: "view (wRepo (spWorld s)) c = Some d" by (rule storage_deal_repo.get_sound [OF l assms(2) saved(1)])
  have c: "ProposalCid d = c" by (rule storage_deal_repo.view_key [OF l assms(2) v])
  have f: "importedCommP env (Proposal d) data = Inr (PieceCID (Proposal d))"
    using saved(3) by (auto simp: importFile_def split: option.splits sum.splits if_splits)
  show ?thesis
  proof (cases x)
    case None
    have "view (wRepo w) = (view (wRepo (spWorld s)))(c \<mapsto> importedDeal path d)"
      using storage_deal_repo.save_ok [OF l sv(1) [unfolded None]] c by (simp add: importedDeal_def)
    then show ?thesis using saved(2,5,7) None v f by (auto simp: importable_def importedDeal_def)
  next
    case (Some y)
    then show ?thesis using saved(5,7) storage_deal_repo.save_failed [OF l sv(1) [unfolded Some]] sv by auto
  qed
qed

definition demo_penv :: providerEnv where
  "demo_penv = \<lparr>peStream = demo_senv,
     statusNum = (\<lambda>st. case st of StorageDealStaged \<Rightarrow> 4 | StorageDealSealing \<Rightarrow> 5 | StorageDealFinalizing \<Rightarrow> 6 | StorageDealActive \<Rightarrow> 7
       | StorageDealRejecting \<Rightarrow> 10 | StorageDealWaitingForData \<Rightarrow> 18 | _ \<Rightarrow> 19),
     copyTo = (\<lambda>_. None), tempSize = (\<lambda>b. of_nat (length b)), seekStart = None, GetProofType = (\<lambda>_. Inr 3), padreaderSize = (\<lambda>_. 127),
     GeneratePieceCIDFromFile = (\<lambda>_ d _. if d = ''data'' then Inr ''piece'' else Inr ''other''), Padded = (\<lambda>n. n + 1), Unpadded = (\<lambda>n. n - 1),
     ProposalCidOf = demo_uid, OnlineDeal = (\<lambda>i. if i = 7 then Inr (demo_prop 128) else Inl (ErrApi ''none'')), Protocol = (\<lambda>_. ProtoBLS),
     accountKey = Inr, lookupActorID = Inr, AddFunds = (\<lambda>_ _. Inr ''msg''), marketBalance = (\<lambda>_ _. Inr (0, 0))\<rparr>"

theorem ImportDataForDeal_checks_witness:
  "\<exists>s' d. ImportDataForDeal demo_penv demo_repo ''p1'' ''data'' demo_s1 = (s', None) \<and>
     deal_view map_of map_deal_store (wRepo (spWorld s')) ''p1'' = Some d \<and> mdState d = StorageDealReserveProviderFunds \<and>
     Proposal d = demo_prop 128 \<and> length (spGo s') = 1"
proof -
  have i: "deal_invar map_of map_deal_store (wRepo (spWorld demo_s1))"
  proof -
    have "map (\<lambda>(k, d). k = [ProposalCid d]) (wRepo (spWorld demo_s1)) = [True]" by code_simp
    then show ?thesis by (auto simp: deal_invar_def split: prod.splits dest!: map_of_SomeD)
  qed
  obtain s' e where h: "ImportDataForDeal demo_penv demo_repo ''p1'' ''data'' demo_s1 = (s', e)"
    by (cases "ImportDataForDeal demo_penv demo_repo ''p1'' ''data'' demo_s1")
  have e: "snd (ImportDataForDeal demo_penv demo_repo ''p1'' ''data'' demo_s1) = None" by code_simp
  have p: "map_option Proposal (deal_view map_of map_deal_store (wRepo (spWorld demo_s1)) ''p1'') = Some (demo_prop 128)" by code_simp
  have g: "spGo demo_s1 = []" by code_simp
  show ?thesis
    using ImportDataForDeal_checks [OF mapdeals.provider.provider_repo_axioms [of id] i h] h e p g by auto
qed

text \<open>Importing data does not look at how far a deal has come: a deal that was rejected, or one that is already
  published (staged, sealing, finalizing or active), is taken back to the reservation of funds and handed off again, since
  the number of its state is not above that of \<open>StorageDealWaitingForData\<close>.\<close>

theorem ImportDataForDeal_reopens:
  assumes "sdGetDeal repo (wRepo (spWorld s)) c = Inr d"
    and "mdState d \<in> {StorageDealRejecting, StorageDealStaged, StorageDealSealing, StorageDealFinalizing, StorageDealActive}"
    and "statusNum env (mdState d) \<le> statusNum env StorageDealWaitingForData"
    and "fsCreateTemp (peStream env) = Inr path" "importFile env (Proposal d) data = Inr ()"
    and "\<And>d'. snd (sdSaveDeal repo (wRepo (spWorld s)) d') = None"
  shows "\<exists>s' d'. ImportDataForDeal env repo c data s = (s', None) \<and> spGo s' = spGo s @ [d'] \<and>
    mdState d' = StorageDealReserveProviderFunds \<and> Proposal d' = Proposal d"
proof -
  obtain r where sv: "sdSaveDeal repo (wRepo (spWorld s)) (importedDeal path d) = (r, None)"
    using assms(6) [of "importedDeal path d"] by (cases "sdSaveDeal repo (wRepo (spWorld s)) (importedDeal path d)") simp
  have t: "\<not> isTerminateState d" using assms(2) by (auto simp: isTerminateState_def)
  show ?thesis
    using sv t assms(1,3,4,5) by (simp add: ImportDataForDeal_def Let_def saveDeal_def importedDeal_def note_effect_def)
qed

definition demo_active :: "(ds_key \<times> MinerDeal) list spState" where
  "demo_active = \<lparr>spWorld = \<lparr>wRepo = [([''p1''], (demo_md ''p1'' 7 128)\<lparr>mdState := StorageDealActive\<rparr>)], wLog = []\<rparr>, spGo = []\<rparr>"

theorem ImportDataForDeal_reopens_witness:
  "\<exists>s' d'. ImportDataForDeal demo_penv demo_repo ''p1'' ''data'' demo_active = (s', None) \<and> spGo s' = [d'] \<and>
    mdState d' = StorageDealReserveProviderFunds"
proof -
  let ?d = "(demo_md ''p1'' 7 128)\<lparr>mdState := StorageDealActive\<rparr>"
  have a: "sdGetDeal demo_repo (wRepo (spWorld demo_active)) ''p1'' = Inr ?d" by code_simp
  have b: "mdState ?d = StorageDealActive" by simp
  have n: "statusNum demo_penv StorageDealActive \<le> statusNum demo_penv StorageDealWaitingForData" by (simp add: demo_penv_def)
  have f: "fsCreateTemp (peStream demo_penv) = Inr ''tmp''" by (simp add: demo_penv_def demo_senv_def)
  have i: "importFile demo_penv (Proposal ?d) ''data'' = Inr ()" by code_simp
  have sv: "snd (sdSaveDeal demo_repo (wRepo (spWorld demo_active)) d') = None" for d'
    by (simp add: SaveDeal_def map_datastore_def id_codec_def)
  have g: "spGo demo_active = []" by (simp add: demo_active_def)
  show ?thesis using ImportDataForDeal_reopens [OF a _ _ f i sv] b n g by auto
qed

text \<open>A published deal is stored only if it is on chain with the same terms.\<close>

lemma checkPublished_ok:
  assumes "checkPublished env deal = Inr ()"
  obtains online account where "ProposalCidOf env (Proposal deal) = Inr (ProposalCid deal)" "OnlineDeal env (DealID deal) = Inr online"
    "clientAccount env (Client (Proposal deal)) (Client online) = Inr account"
    "ProposalCidOf env (online\<lparr>Client := account\<rparr>) = Inr (ProposalCid deal)" "minerHas (peDeal env) (Provider (Proposal deal))"
  using assms by (auto simp: checkPublished_def split: sum.splits)

text \<open>\<open>ImportPublishedDeal\<close> stores a deal only if the chain has the deal under that identifier with the same
  proposal (up to the form of the client's address), for a miner of the pool, and never replaces a deal it can read. A deal
  under the CID that the deal protocol gives it, which is the CID of the signed proposal, is always refused.\<close>

theorem ImportPublishedDeal_checks:
  assumes "cidsDistinct sid (ProposalCidOf env)" "ImportPublishedDeal env repo deal (Some ref) s = Ret (s', e)"
  shows "(e = None \<longrightarrow>
      (\<exists>online account. OnlineDeal env (DealID deal) = Inr online \<and> Proposal deal = online\<lparr>Client := account\<rparr> \<and>
         minerHas (peDeal env) (Provider (Proposal deal)) \<and> (\<exists>x. sdGetDeal repo (wRepo (spWorld s)) (ProposalCid deal) = Inl x) \<and>
         (\<exists>d. sdSaveDeal repo (wRepo (spWorld s)) d = (wRepo (spWorld s'), None) \<and> ProposalCid d = ProposalCid deal \<and>
            Proposal d = Proposal deal \<and> DealID d = DealID deal \<and> mdState d = StorageDealAwaitingPreCommit))) \<and>
    ((\<exists>p sg. sid (Some (p, sg)) = Inr (ProposalCid deal)) \<longrightarrow> e \<noteq> None \<and> s' = s)"
proof (cases "checkPublished env deal")
  case (Inl x)
  then show ?thesis using assms(2) by (auto simp: ImportPublishedDeal_def)
next
  case (Inr u)
  then have ok: "checkPublished env deal = Inr ()" by simp
  obtain online account where o: "ProposalCidOf env (Proposal deal) = Inr (ProposalCid deal)" "OnlineDeal env (DealID deal) = Inr online"
    "ProposalCidOf env (online\<lparr>Client := account\<rparr>) = Inr (ProposalCid deal)" "minerHas (peDeal env) (Provider (Proposal deal))"
    using checkPublished_ok [OF ok] by blast
  have eq: "Proposal deal = online\<lparr>Client := account\<rparr>" using assms(1) o(1,3) unfolding cidsDistinct_def by blast
  have "\<not> (\<exists>p sg. sid (Some (p, sg)) = Inr (ProposalCid deal))" using assms(1) o(1) unfolding cidsDistinct_def by blast
  moreover have "(\<exists>x. sdGetDeal repo (wRepo (spWorld s)) (ProposalCid deal) = Inl x) \<and>
      sdSaveDeal repo (wRepo (spWorld s)) (importDeal env deal ref) = (wRepo (spWorld s'), None)" if "e = None"
    using assms(2) that ok by (auto simp: ImportPublishedDeal_def saveDeal_def split: sum.splits prod.splits)
  ultimately show ?thesis using o(2,4) eq by (auto simp: importDeal_def)
qed

theorem ImportPublishedDeal_checks_witness:
  "\<exists>s'. ImportPublishedDeal demo_penv demo_repo ((demo_md ''u1'' 7 128)) (Some demo_ref) demo_s1 = Ret (s', None) \<and>
     (\<exists>d. sdSaveDeal demo_repo (wRepo (spWorld demo_s1)) d = (wRepo (spWorld s'), None) \<and> DealID d = 7) \<and>
     length (wRepo (spWorld s')) = 2"
proof -
  have "(case ImportPublishedDeal demo_penv demo_repo (demo_md ''u1'' 7 128) (Some demo_ref) demo_s1 of
      Ret (s', e) \<Rightarrow> e = None \<and> length (wRepo (spWorld s')) = 2 | Panic _ \<Rightarrow> False) = True" by code_simp
  then obtain s' where h: "ImportPublishedDeal demo_penv demo_repo (demo_md ''u1'' 7 128) (Some demo_ref) demo_s1 = Ret (s', None)"
    "length (wRepo (spWorld s')) = 2" by (auto split: outcome.splits)
  have "cidsDistinct demo_sid (ProposalCidOf demo_penv)" using demo_cids by (simp add: demo_penv_def)
  moreover have "DealID (demo_md ''u1'' 7 128) = 7" by (simp add: demo_md_def)
  ultimately show ?thesis using ImportPublishedDeal_checks [OF _ h(1)] h by fastforce
qed

section \<open>Transfer events\<close>

text \<open>Every event of a channel that has completed counts as the completion of the transfer: the deal goes back to
  \<open>StorageDealVerifyData\<close>, whatever its state is (published, active, failed or slashed), and another hand-off is started.\<close>

theorem completed_event_restarts:
  assumes "sdGetDeal repo (wRepo (spWorld s)) c = Inr d" "csProposal ch = Some c" "csCompleted ch" "evCode ev = EvOther n"
    and "sdSaveDeal repo (wRepo (spWorld s)) (d\<lparr>mdState := StorageDealVerifyData\<rparr>) = (r, None)"
  shows "ProviderDataTransferSubscriber env repo ev ch s =
    s\<lparr>spWorld := (spWorld s)\<lparr>wRepo := r\<rparr>, spGo := spGo s @ [d\<lparr>mdState := StorageDealVerifyData\<rparr>]\<rparr>"
  using assms
  by (simp add: ProviderDataTransferSubscriber_def translateEvent_def HandleCompleteFor_def withDeal_def storeDeal_def saveDeal_def Let_def)

text \<open>Two events after the end of a transfer: the deal is published twice.\<close>

definition demo_twice :: "(ds_key \<times> MinerDeal) list spState" where
  "demo_twice = ProviderDataTransferSubscriber demo_denv demo_repo demo_event demo_done demo_s2"

theorem completed_event_restarts_witness:
  "length (spGo demo_twice) = 2 \<and>
   (case runHandleOff demo_denv demo_repo 0 demo_twice of
      Ret s \<Rightarrow> (case runHandleOff demo_denv demo_repo 0 s of Ret s' \<Rightarrow> publications (wLog (spWorld s')) = 2 | Panic _ \<Rightarrow> False)
    | Panic _ \<Rightarrow> False)"
proof -
  have g: "(case sdGetDeal demo_repo (wRepo (spWorld demo_s2)) ''p1'' of Inr d \<Rightarrow> True | Inl _ \<Rightarrow> False) = True" by code_simp
  then obtain d where d: "sdGetDeal demo_repo (wRepo (spWorld demo_s2)) ''p1'' = Inr d" by (auto split: sum.splits)
  have ch: "csProposal demo_done = Some ''p1''" "csCompleted demo_done" "evCode demo_event = EvOther 0"
    by (simp_all add: demo_done_def demo_event_def)
  obtain r e where sv: "sdSaveDeal demo_repo (wRepo (spWorld demo_s2)) (d\<lparr>mdState := StorageDealVerifyData\<rparr>) = (r, e)"
    by (cases "sdSaveDeal demo_repo (wRepo (spWorld demo_s2)) (d\<lparr>mdState := StorageDealVerifyData\<rparr>)")
  then have "e = None" by (auto simp: SaveDeal_def map_datastore_def id_codec_def)
  then have eq: "demo_twice = demo_s2\<lparr>spWorld := (spWorld demo_s2)\<lparr>wRepo := r\<rparr>, spGo := spGo demo_s2 @ [d\<lparr>mdState := StorageDealVerifyData\<rparr>]\<rparr>"
    unfolding demo_twice_def using completed_event_restarts [OF d ch] sv by blast
  have "length (spGo demo_s2) = 1" by code_simp
  then have l: "length (spGo demo_twice) = 2" by (simp add: eq)
  have "(case runHandleOff demo_denv demo_repo 0 demo_twice of
      Ret s \<Rightarrow> (case runHandleOff demo_denv demo_repo 0 s of Ret s' \<Rightarrow> publications (wLog (spWorld s')) = 2 | Panic _ \<Rightarrow> False)
    | Panic _ \<Rightarrow> False) = True" by code_simp
  then show ?thesis using l by simp
qed

end
