(* ===== verification/Message_Client.thy ===== *)
theory Message_Client
  imports Market_Prelude
begin

text \<open>
  Sending messages and waiting for them: \<open>src/api/clients/mix_msgclient.go\<close> and \<open>nonce_assign.go\<close>. Without a messager the
  client talks to the node, with one it sends through the messager and polls it under a message identifier, a CID with
  the prefix \<open>utils.MidPrefix\<close>. The node, the messager and the address manager are the record \<open>mixEnv\<close>; what was pushed
  where is returned as a list of effects. \<open>GasOverEstimation\<close>, a float, is opaque.
\<close>

section \<open>Data\<close>

record MessageSendSpec =
  MaxFee :: int
  GasOverEstimation :: string

record MessageReceipt =
  ExitCode :: int
  recReturn :: bytes
  GasUsed :: int

record MsgLookup =
  lkMessage :: cid
  lkReceipt :: MessageReceipt
  lkTipSet :: bytes
  lkHeight :: int

datatype MessageState = UnKnown | UnFillMsg | FillMsg | OnChainMsg | FailedMsg | ReplacedMsg | OtherMsg nat

text \<open>The fields of the messager's message the code reads; \<open>Receipt\<close> and \<open>SignedCid\<close> are pointers.\<close>

record messagerMsg =
  mmState :: MessageState
  mmConfidence :: int
  mmReceipt :: "MessageReceipt option"
  mmTipSetKey :: bytes
  mmHeight :: int
  mmSignedCid :: "cid option"
  VMMessage :: Message

record mixEnv =
  hasMessager :: bool
  hasAddrMgr :: bool
  hasMidPrefix :: "cid \<Rightarrow> bool"
  mxStateAccountKey :: "address \<Rightarrow> address res"
  GasEstimateMessageGas :: "Message \<Rightarrow> MessageSendSpec option \<Rightarrow> Message res"
  MpoolGetNonce :: "address \<Rightarrow> u64 res"
  signAndPush :: "Message \<Rightarrow> u64 \<Rightarrow> cid res"
  NewMId :: "cid res"
  GetAccount :: "address \<Rightarrow> string res"
  ForcePushMessageWithId :: "string \<Rightarrow> cid \<Rightarrow> Message \<Rightarrow> error option"
  PushMessageWithId :: "cid \<Rightarrow> Message \<Rightarrow> error option"
  GetMessageByUid :: "cid \<Rightarrow> messagerMsg res"
  StateWaitMsg :: "cid \<Rightarrow> u64 \<Rightarrow> int \<Rightarrow> bool \<Rightarrow> MsgLookup res"
  StateSearchMsg :: "bytes \<Rightarrow> cid \<Rightarrow> int \<Rightarrow> bool \<Rightarrow> MsgLookup option res"
  ChainGetMessage :: "cid \<Rightarrow> Message res"

section \<open>Sending\<close>

datatype pushed = ToNode Message u64 | ToMessager cid Message

definition AssignNonce :: "mixEnv \<Rightarrow> address \<Rightarrow> u64 res" where
  "AssignNonce env addr = MpoolGetNonce env addr"

text \<open>The storage block of the message is signed by the wallet and pushed to the mempool: \<open>signAndPush\<close>.\<close>

definition pushToNode :: "mixEnv \<Rightarrow> Message \<Rightarrow> MessageSendSpec option \<Rightarrow> pushed list \<times> cid res" where
  "pushToNode env p1 p2 =
     (let sendSpec = map_option (\<lambda>p. \<lparr>MaxFee = MaxFee p, GasOverEstimation = GasOverEstimation p\<rparr>) p2 in
      case mxStateAccountKey env (msgFrom p1) of
        Inl e \<Rightarrow> ([], Inl e)
      | Inr k \<Rightarrow>
          (case GasEstimateMessageGas env (p1\<lparr>msgFrom := k\<rparr>) sendSpec of
             Inl e \<Rightarrow> ([], Inl e)
           | Inr estimatedMsg \<Rightarrow>
               (case AssignNonce env k of
                  Inl e \<Rightarrow> ([], Inl e)
                | Inr nonce \<Rightarrow>
                    (case signAndPush env estimatedMsg nonce of
                       Inl e \<Rightarrow> ([], Inl e)
                     | Inr signedCid \<Rightarrow> ([ToNode estimatedMsg nonce], Inr signedCid)))))"

definition pushToMessager :: "mixEnv \<Rightarrow> Message \<Rightarrow> pushed list \<times> cid res" where
  "pushToMessager env p1 =
     (case NewMId env of
        Inl e \<Rightarrow> ([], Inl e)
      | Inr msgid \<Rightarrow>
          if hasAddrMgr env then
            (case mxStateAccountKey env (msgFrom p1) of
               Inl e \<Rightarrow> ([], Inl e)
             | Inr fromAddr \<Rightarrow>
                 (case GetAccount env fromAddr of
                    Inl e \<Rightarrow> ([], Inl e)
                  | Inr account \<Rightarrow>
                      (case ForcePushMessageWithId env account msgid p1 of
                         Some e \<Rightarrow> ([], Inl e)
                       | None \<Rightarrow> ([ToMessager msgid p1], Inr msgid))))
          else
            (case PushMessageWithId env msgid p1 of
               Some e \<Rightarrow> ([], Inl e)
             | None \<Rightarrow> ([ToMessager msgid p1], Inr msgid)))"

definition PushMessage :: "mixEnv \<Rightarrow> Message \<Rightarrow> MessageSendSpec option \<Rightarrow> pushed list \<times> cid res" where
  "PushMessage env p1 p2 = (if \<not> hasMessager env then pushToNode env p1 p2 else pushToMessager env p1)"

section \<open>Waiting\<close>

definition int64 :: "u64 \<Rightarrow> int" where
  "int64 n = sint n"

definition lookupOf :: "cid \<Rightarrow> messagerMsg \<Rightarrow> MessageReceipt \<Rightarrow> MsgLookup" where
  "lookupOf mCid msg r = \<lparr>lkMessage = mCid, lkReceipt = \<lparr>ExitCode = ExitCode r, recReturn = recReturn r, GasUsed = GasUsed r\<rparr>,
     lkTipSet = mmTipSetKey msg, lkHeight = mmHeight msg\<rparr>"

text \<open>The wait is a loop around a select over the channel \<open>doneCh\<close>, which holds at most one token, the ticker and the
  context. \<open>Waiting b\<close> is the loop with (\<open>b\<close>) or without a token in \<open>doneCh\<close>; \<open>Blocked\<close> is a send to the full channel,
  which has no other reader. A \<open>selectCase\<close> is the case the select takes, with the answer of the messager.\<close>

datatype selectCase = DoneCh "messagerMsg res" | Tick | CtxDone

datatype waitState = Waiting bool | Returned "MsgLookup res" | Blocked | Crashed

definition pollMsg :: "cid \<Rightarrow> u64 \<Rightarrow> messagerMsg res \<Rightarrow> waitState" where
  "pollMsg mCid confidence answer =
     (case answer of
        Inl _ \<Rightarrow> Waiting False
      | Inr msg \<Rightarrow>
          (case mmState msg of
             OnChainMsg \<Rightarrow> if mmConfidence msg > int64 confidence
               then (case mmReceipt msg of None \<Rightarrow> Crashed | Some r \<Rightarrow> Returned (Inr (lookupOf mCid msg r))) else Waiting False
           | ReplacedMsg \<Rightarrow> if mmConfidence msg > int64 confidence
               then (case mmReceipt msg of None \<Rightarrow> Crashed | Some r \<Rightarrow> Returned (Inr (lookupOf mCid msg r))) else Waiting False
           | FailedMsg \<Rightarrow> Returned (Inl (ErrMsg (''msg failed due to '' @ (case mmReceipt msg of None \<Rightarrow> [] | Some r \<Rightarrow> recReturn r))))
           | _ \<Rightarrow> Waiting False))"

fun waitStep :: "cid \<Rightarrow> u64 \<Rightarrow> waitState \<Rightarrow> selectCase \<Rightarrow> waitState" where
  "waitStep mCid confidence (Waiting True) (DoneCh answer) = pollMsg mCid confidence answer"
| "waitStep mCid confidence (Waiting False) (DoneCh answer) = Waiting False"
| "waitStep mCid confidence (Waiting b) Tick = (if b then Blocked else Waiting True)"
| "waitStep mCid confidence (Waiting b) CtxDone = Returned (Inl (ErrMsg ''get message fail while wait''))"
| "waitStep mCid confidence s c = s"

definition WaitMsg :: "mixEnv \<Rightarrow> cid \<Rightarrow> u64 \<Rightarrow> int \<Rightarrow> bool \<Rightarrow> selectCase list \<Rightarrow> waitState" where
  "WaitMsg env mCid confidence loopbackLimit allowReplaced cases =
     (if \<not> hasMessager env \<or> \<not> hasMidPrefix env mCid then Returned (StateWaitMsg env mCid confidence loopbackLimit allowReplaced)
      else foldl (waitStep mCid confidence) (Waiting True) cases)"

definition SearchMsg :: "mixEnv \<Rightarrow> bytes \<Rightarrow> cid \<Rightarrow> int \<Rightarrow> bool \<Rightarrow> MsgLookup option res outcome" where
  "SearchMsg env from' mCid loopbackLimit allowReplaced =
     (if \<not> hasMessager env \<or> \<not> hasMidPrefix env mCid then Ret (StateSearchMsg env from' mCid loopbackLimit allowReplaced)
      else
        (case GetMessageByUid env mCid of
           Inl e \<Rightarrow> Ret (Inl e)
         | Inr msg \<Rightarrow>
             (let onChain = (case mmReceipt msg of
                    None \<Rightarrow> Panic ''invalid memory address or nil pointer dereference''
                  | Some r \<Rightarrow> Ret (Inr (Some (lookupOf mCid msg r))))
              in case mmState msg of
                   FillMsg \<Rightarrow> Ret (Inr None)
                 | UnFillMsg \<Rightarrow> Ret (Inr None)
                 | UnKnown \<Rightarrow> Ret (Inr None)
                 | ReplacedMsg \<Rightarrow> onChain
                 | OnChainMsg \<Rightarrow> onChain
                 | FailedMsg \<Rightarrow> Ret (Inl (ErrMsg (''msg failed due to '' @ (case mmReceipt msg of None \<Rightarrow> [] | Some r \<Rightarrow> recReturn r))))
                 | OtherMsg _ \<Rightarrow> Ret (Inl (ErrMsg ''unexpect status'')))))"

definition GetMessage :: "mixEnv \<Rightarrow> cid \<Rightarrow> Message res" where
  "GetMessage env mCid =
     (if \<not> hasMessager env \<or> \<not> hasMidPrefix env mCid then ChainGetMessage env mCid
      else tryE (GetMessageByUid env mCid) (\<lambda>msg. Inr (VMMessage msg)))"

definition GetMessageChainCid :: "mixEnv \<Rightarrow> cid \<Rightarrow> cid option res" where
  "GetMessageChainCid env mid =
     (if hasMidPrefix env mid then
        (if \<not> hasMessager env then Inl (ErrMsg ''unable to get message chain cid from messager,no messager configured'')
         else tryE (GetMessageByUid env mid) (\<lambda>msg. Inr (mmSignedCid msg)))
      else Inr (Some mid))"

section \<open>How a wait ends\<close>

text \<open>An answer that ends the wait.\<close>

definition decisive :: "u64 \<Rightarrow> messagerMsg res \<Rightarrow> bool" where
  "decisive confidence answer = (case answer of
      Inl _ \<Rightarrow> False
    | Inr msg \<Rightarrow> mmState msg = FailedMsg \<or> (mmState msg = OnChainMsg \<or> mmState msg = ReplacedMsg) \<and> int64 confidence < mmConfidence msg)"

text \<open>The cases of an undisturbed wait: a poll, and a tick before every other poll.\<close>

fun polls :: "messagerMsg res list \<Rightarrow> selectCase list" where
  "polls [] = []"
| "polls [a] = [DoneCh a]"
| "polls (a # b # as) = DoneCh a # Tick # polls (b # as)"

lemma pollMsg_waits: "\<not> decisive confidence a \<Longrightarrow> pollMsg mCid confidence a = Waiting False"
  by (auto simp: decisive_def pollMsg_def split: sum.splits MessageState.splits)

lemma pollMsg_ends: "decisive confidence a \<Longrightarrow> pollMsg mCid confidence a = Crashed \<or> (\<exists>r. pollMsg mCid confidence a = Returned r)"
  by (auto simp: decisive_def pollMsg_def split: sum.splits MessageState.splits option.splits)

lemma waitStep_stays:
  assumes "s = Crashed \<or> s = Blocked \<or> (\<exists>r. s = Returned r)"
  shows "foldl (waitStep mCid confidence) s cs = s"
  using assms by (induction cs) auto

lemma wait_polls:
  assumes "\<forall>a \<in> set as. \<not> decisive confidence a" "decisive confidence b"
  shows "foldl (waitStep mCid confidence) (Waiting True) (polls (as @ b # bs)) = pollMsg mCid confidence b"
  using assms(1)
proof (induction as)
  case Nil
  have "foldl (waitStep mCid confidence) (pollMsg mCid confidence b) cs = pollMsg mCid confidence b" for cs
    using waitStep_stays pollMsg_ends [OF assms(2)] by metis
  from this [of "Tick # polls bs"] show ?case by (cases bs) simp_all
next
  case (Cons a as)
  obtain x xs where "as @ b # bs = x # xs" by (cases "as @ b # bs") auto
  then show ?case using Cons by (simp add: pollMsg_waits)
qed

text \<open>A wait through the messager ends with the first decisive answer: as soon as a poll finds the message on
  chain (or replaced) deep enough it returns the receipt the messager gave, and as soon as the message failed it returns
  that error; it waits through every answer before. The receipt must be there, or the process crashes.\<close>

theorem WaitMsg_first_decisive:
  assumes "hasMessager env" "hasMidPrefix env mCid" "\<forall>a \<in> set as. \<not> decisive confidence a" "decisive confidence (Inr msg)"
  shows "WaitMsg env mCid confidence lim rep (polls (as @ Inr msg # bs)) =
    (if mmState msg = FailedMsg then Returned (Inl (ErrMsg (''msg failed due to '' @ (case mmReceipt msg of None \<Rightarrow> [] | Some r \<Rightarrow> recReturn r))))
     else case mmReceipt msg of
       None \<Rightarrow> Crashed
     | Some r \<Rightarrow> Returned (Inr \<lparr>lkMessage = mCid, lkReceipt = r, lkTipSet = mmTipSetKey msg, lkHeight = mmHeight msg\<rparr>))"
  using assms wait_polls [OF assms(3,4), of mCid bs]
  by (auto simp: WaitMsg_def pollMsg_def decisive_def lookupOf_def split: option.split)

definition demo_msg :: messagerMsg where
  "demo_msg = \<lparr>mmState = OnChainMsg, mmConfidence = 11, mmReceipt = Some \<lparr>ExitCode = 0, recReturn = ''ret'', GasUsed = 5\<rparr>,
     mmTipSetKey = ''ts'', mmHeight = 100, mmSignedCid = Some ''signed'',
     VMMessage = \<lparr>msgTo = ''f05'', msgFrom = ''f0100'', msgValue = 0, msgMethod = 4, msgParams = []\<rparr>\<rparr>"

definition demo_mix :: mixEnv where
  "demo_mix = \<lparr>hasMessager = True, hasAddrMgr = True, hasMidPrefix = (\<lambda>_. True), mxStateAccountKey = Inr,
     GasEstimateMessageGas = (\<lambda>m _. Inr m), MpoolGetNonce = (\<lambda>_. Inr 1), signAndPush = (\<lambda>_ _. Inr ''signed''), NewMId = Inr ''mid'',
     GetAccount = (\<lambda>_. Inr ''account''), ForcePushMessageWithId = (\<lambda>_ _ _. None), PushMessageWithId = (\<lambda>_ _. None),
     GetMessageByUid = (\<lambda>_. Inr demo_msg), StateWaitMsg = (\<lambda>_ _ _ _. Inl ErrNotFound), StateSearchMsg = (\<lambda>_ _ _ _. Inr None),
     ChainGetMessage = (\<lambda>_. Inl ErrNotFound)\<rparr>"

theorem WaitMsg_first_decisive_witness:
  "WaitMsg demo_mix ''mid'' 10 0 True (polls [Inl (ErrApi ''down''), Inr (demo_msg\<lparr>mmConfidence := 10\<rparr>), Inr demo_msg]) =
     Returned (Inr \<lparr>lkMessage = ''mid'', lkReceipt = \<lparr>ExitCode = 0, recReturn = ''ret'', GasUsed = 5\<rparr>, lkTipSet = ''ts'', lkHeight = 100\<rparr>)"
proof -
  have m: "hasMessager demo_mix" "hasMidPrefix demo_mix ''mid''" by (simp_all add: demo_mix_def)
  have a: "\<forall>a \<in> set [Inl (ErrApi ''down''), Inr (demo_msg\<lparr>mmConfidence := 10\<rparr>)]. \<not> decisive 10 a"
    by (simp add: decisive_def demo_msg_def int64_def)
  have b: "decisive 10 (Inr demo_msg)" by (simp add: decisive_def demo_msg_def int64_def)
  show ?thesis
    using WaitMsg_first_decisive [OF m a b, where lim = 0 and rep = True and bs = "[]"] by (simp add: demo_msg_def)
qed

text \<open>The wait can block for ever: when the select takes a tick while \<open>doneCh\<close> holds a token, the send to the
  full channel never returns, and neither an answer of the messager nor the end of the context wakes the wait.\<close>

theorem WaitMsg_blocks_forever:
  assumes "hasMessager env" "hasMidPrefix env mCid" "foldl (waitStep mCid confidence) (Waiting True) cs = Waiting True"
  shows "WaitMsg env mCid confidence lim rep (cs @ Tick # ds) = Blocked"
  using assms by (simp add: WaitMsg_def waitStep_stays)

theorem WaitMsg_blocks_forever_witness:
  "WaitMsg demo_mix ''mid'' 10 0 True ([DoneCh (Inl (ErrApi ''slow'')), Tick] @ Tick # [DoneCh (Inr demo_msg), CtxDone]) = Blocked"
proof -
  have m: "hasMessager demo_mix" "hasMidPrefix demo_mix ''mid''" by (simp_all add: demo_mix_def)
  have w: "foldl (waitStep ''mid'' 10) (Waiting True) [DoneCh (Inl (ErrApi ''slow'')), Tick] = Waiting True" by (simp add: pollMsg_def)
  show ?thesis by (rule WaitMsg_blocks_forever [OF m w])
qed

text \<open>In messager mode the specification of the fee is not used.\<close>

theorem PushMessage_ignores_spec:
  "hasMessager env \<Longrightarrow> PushMessage env p1 p2 = PushMessage env p1 None"
  by (simp add: PushMessage_def)

end
