(* ===== verification/Current_Deal_Info.thy ===== *)
theory Current_Deal_Info
  imports Deal_Types Message_Client
begin

text \<open>
  Finding a published deal on chain: \<open>src/storageprovider/currentdealinfo.go\<close>. The identifier of a deal is assigned when its
  publish message is executed, so it is looked up through the message: the deal is searched among the parameters, and its
  index leads to the identifier in the return value. The node and the decoding of parameters and return values are
  \<open>dealInfoAPI\<close>; \<open>EmptyTSK\<close> is the zero tipset key.
\<close>

section \<open>Data\<close>

record MarketDeal =
  mkProposal :: DealProposal
  mkSectorStartEpoch :: int
  mkSlashEpoch :: int

record publishReturn =
  retDealIDs :: "u64 list res"
  IsDealValid :: "nat \<Rightarrow> (bool \<times> int) res"

record dealInfoAPI =
  EmptyTSK :: bytes
  ciStateLookupID :: "address \<Rightarrow> bytes \<Rightarrow> address res"
  ciStateMarketStorageDeal :: "u64 \<Rightarrow> bytes \<Rightarrow> MarketDeal res"
  ciStateNetworkVersion :: "bytes \<Rightarrow> nat res"
  ciGetMessage :: "cid \<Rightarrow> Message res"
  ciSearchMsg :: "cid \<Rightarrow> MsgLookup option res"
  DecodePublishStorageDealsReturn :: "bytes \<Rightarrow> nat \<Rightarrow> publishReturn res"
  UnmarshalPublishParams :: "bytes \<Rightarrow> DealProposal list res"

record CurrentDealInfo =
  cdDealID :: u64
  cdMarketDeal :: "MarketDeal option"
  PublishMsgTipSet :: bytes

section \<open>Operations\<close>

definition CheckDealEquality :: "dealInfoAPI \<Rightarrow> bytes \<Rightarrow> DealProposal \<Rightarrow> DealProposal \<Rightarrow> bool res" where
  "CheckDealEquality api tok p1 p2 =
     tryE (ciStateLookupID api (Client p1) tok) (\<lambda>p1ClientID.
     tryE (ciStateLookupID api (Client p2) tok) (\<lambda>p2ClientID.
       Inr (PieceCID p1 = PieceCID p2 \<and> PieceSize p1 = PieceSize p2 \<and> VerifiedDeal p1 = VerifiedDeal p2 \<and> Label p1 = Label p2 \<and>
            StartEpoch p1 = StartEpoch p2 \<and> EndEpoch p1 = EndEpoch p2 \<and> StoragePricePerEpoch p1 = StoragePricePerEpoch p2 \<and>
            ProviderCollateral p1 = ProviderCollateral p2 \<and> ClientCollateral p1 = ClientCollateral p2 \<and> Provider p1 = Provider p2 \<and>
            p1ClientID = p2ClientID)))"

text \<open>The scan for the deal among the parameters, from index \<open>i\<close> on; \<open>None\<close> is the index -1.\<close>

fun findDealIdx :: "dealInfoAPI \<Rightarrow> bytes \<Rightarrow> DealProposal \<Rightarrow> nat \<Rightarrow> DealProposal list \<Rightarrow> nat option res" where
  "findDealIdx api tok proposal i [] = Inr None"
| "findDealIdx api tok proposal i (paramDeal # deals) =
     (case CheckDealEquality api tok proposal paramDeal of
        Inl e \<Rightarrow> Inl (ErrWrap ''comparing publish deal message proposal to deal proposal'' e)
      | Inr True \<Rightarrow> Inr (Some i)
      | Inr False \<Rightarrow> findDealIdx api tok proposal (Suc i) deals)"

text \<open>Indexing: out of range panics.\<close>

definition idAt :: "u64 list \<Rightarrow> int \<Rightarrow> bytes \<Rightarrow> (u64 \<times> bytes) res outcome" where
  "idAt dealIDs i tsk = (if 0 \<le> i \<and> nat i < length dealIDs then Ret (Inr (dealIDs ! nat i, tsk)) else Panic ''index out of range'')"

definition paramIdx :: "dealInfoAPI \<Rightarrow> bytes \<Rightarrow> DealProposal \<Rightarrow> cid \<Rightarrow> nat res" where
  "paramIdx api tok proposal publishCid =
     (case ciGetMessage api publishCid of
        Inl e \<Rightarrow> Inl (ErrWrap ''getting publish deal message'' e)
      | Inr pubmsg \<Rightarrow>
          (case UnmarshalPublishParams api (msgParams pubmsg) of
             Inl e \<Rightarrow> Inl (ErrWrap ''unmarshalling publish deal message params'' e)
           | Inr deals \<Rightarrow>
               (case findDealIdx api tok proposal 0 deals of
                  Inl e \<Rightarrow> Inl e
                | Inr None \<Rightarrow> Inl (ErrMsg ''could not find deal in publish deals message'')
                | Inr (Some dealIdx) \<Rightarrow>
                    if dealIdx \<ge> length deals then Inl (ErrMsg ''deal index out of bounds of deals proposals'') else Inr dealIdx)))"

definition publishResult :: "dealInfoAPI \<Rightarrow> cid \<Rightarrow> (MsgLookup \<times> publishReturn \<times> u64 list) res" where
  "publishResult api publishCid =
     (case ciSearchMsg api publishCid of
        Inl e \<Rightarrow> Inl (ErrWrap ''looking for publish deal message: search msg failed'' e)
      | Inr None \<Rightarrow> Inl (ErrMsg ''looking for publish deal message: not found'')
      | Inr (Some lookup) \<Rightarrow>
          if ExitCode (lkReceipt lookup) \<noteq> 0 then Inl (ErrMsg ''looking for publish deal message: non-ok exit code'')
          else
            (case ciStateNetworkVersion api (lkTipSet lookup) of
               Inl e \<Rightarrow> Inl (ErrWrap ''getting network version'' e)
             | Inr nv \<Rightarrow>
                 (case DecodePublishStorageDealsReturn api (recReturn (lkReceipt lookup)) nv of
                    Inl e \<Rightarrow> Inl (ErrWrap ''looking for publish deal message: decoding message return'' e)
                  | Inr retval \<Rightarrow>
                      (case retDealIDs retval of
                         Inl e \<Rightarrow> Inl (ErrWrap ''looking for publish deal message: getting dealIDs'' e)
                       | Inr dealIDs \<Rightarrow> Inr (lookup, retval, dealIDs)))))"

definition dealIDFromPublishDealsMsg :: "dealInfoAPI \<Rightarrow> bytes \<Rightarrow> DealProposal option \<Rightarrow> cid \<Rightarrow> (u64 \<times> bytes) res outcome" where
  "dealIDFromPublishDealsMsg api tok proposal publishCid =
     (case publishResult api publishCid of
        Inl e \<Rightarrow> Ret (Inl e)
      | Inr (lookup, retval, dealIDs) \<Rightarrow>
          (case proposal of
             None \<Rightarrow>
               if length dealIDs > 1 then Ret (Inl (ErrMsg ''no deal proposal supplied but message return value has more than one deal''))
               else idAt dealIDs 0 (lkTipSet lookup)
           | Some p \<Rightarrow>
               (case paramIdx api tok p publishCid of
                  Inl e \<Rightarrow> Ret (Inl e)
                | Inr dealIdx \<Rightarrow>
                    (case IsDealValid retval dealIdx of
                       Inl e \<Rightarrow> Ret (Inl (ErrWrap ''determining deal validity'' e))
                     | Inr (valid, outIdx) \<Rightarrow>
                         if \<not> valid then Ret (Inl (ErrMsg ''deal was invalid at publication''))
                         else if outIdx \<ge> int (length dealIDs) then Ret (Inl (ErrMsg ''invalid publish storage deals ret''))
                         else idAt dealIDs outIdx (EmptyTSK api)))))"

text \<open>The result carries the error of looking up the deal, together with the identifier.\<close>

definition GetCurrentDealInfo :: "dealInfoAPI \<Rightarrow> bytes \<Rightarrow> DealProposal option \<Rightarrow> cid \<Rightarrow> (CurrentDealInfo \<times> error option) res outcome" where
  "GetCurrentDealInfo api tok proposal publishCid =
     (case dealIDFromPublishDealsMsg api tok proposal publishCid of
        Panic m \<Rightarrow> Panic m
      | Ret (Inl e) \<Rightarrow> Ret (Inl e)
      | Ret (Inr (dealID, pubMsgTok)) \<Rightarrow>
          (case ciStateMarketStorageDeal api dealID tok of
             Inl e \<Rightarrow> Ret (Inr (\<lparr>cdDealID = dealID, cdMarketDeal = None, PublishMsgTipSet = pubMsgTok\<rparr>, Some e))
           | Inr marketDeal \<Rightarrow>
               (let info = \<lparr>cdDealID = dealID, cdMarketDeal = Some marketDeal, PublishMsgTipSet = pubMsgTok\<rparr> in
                case proposal of
                  None \<Rightarrow> Ret (Inr (info, None))
                | Some p \<Rightarrow>
                    (case CheckDealEquality api tok p (mkProposal marketDeal) of
                       Inl e \<Rightarrow> Ret (Inl e)
                     | Inr equal \<Rightarrow>
                         if \<not> equal then Ret (Inl (ErrMsg ''deal proposals for publish message did not match''))
                         else Ret (Inr (info, None))))))"

text \<open>The adapter drops the message of the lookup.\<close>

definition adapterSearchMsg :: "(bytes \<Rightarrow> cid \<Rightarrow> int \<Rightarrow> bool \<Rightarrow> MsgLookup option res) \<Rightarrow> bytes \<Rightarrow> int \<Rightarrow> cid \<Rightarrow> MsgLookup option res" where
  "adapterSearchMsg search emptyTSK lookbackNoLimit k =
     (case search emptyTSK k lookbackNoLimit True of
        Inl e \<Rightarrow> Inl e
      | Inr None \<Rightarrow> Inr None
      | Inr (Some wmsg) \<Rightarrow>
          Inr (Some \<lparr>lkMessage = Undef,
             lkReceipt = \<lparr>ExitCode = ExitCode (lkReceipt wmsg), recReturn = recReturn (lkReceipt wmsg), GasUsed = GasUsed (lkReceipt wmsg)\<rparr>,
             lkTipSet = lkTipSet wmsg, lkHeight = lkHeight wmsg\<rparr>))"

section \<open>What is found\<close>

text \<open>Two proposals are the same deal: equal up to the form of the client's address.\<close>

definition sameTerms :: "dealInfoAPI \<Rightarrow> bytes \<Rightarrow> DealProposal \<Rightarrow> DealProposal \<Rightarrow> bool" where
  "sameTerms api tok p q \<longleftrightarrow> q = p\<lparr>Client := Client q\<rparr> \<and> (\<exists>i. ciStateLookupID api (Client p) tok = Inr i \<and> ciStateLookupID api (Client q) tok = Inr i)"

lemma CheckDealEquality_iff:
  assumes "CheckDealEquality api tok p q = Inr b"
  shows "b \<longleftrightarrow> sameTerms api tok p q"
  using assms by (cases p; cases q) (auto simp: CheckDealEquality_def sameTerms_def tryE_Inr_iff)

lemma findDealIdx_first:
  "findDealIdx api tok p i deals = Inr (Some k) \<Longrightarrow>
    \<exists>j. k = i + j \<and> j < length deals \<and> sameTerms api tok p (deals ! j) \<and> (\<forall>l < j. \<not> sameTerms api tok p (deals ! l))"
proof (induction deals arbitrary: i)
  case (Cons d deals)
  show ?case
  proof (cases "CheckDealEquality api tok p d")
    case (Inr b)
    show ?thesis
    proof (cases b)
      case True
      then have "k = i" "sameTerms api tok p d" using Cons.prems Inr CheckDealEquality_iff [OF Inr] by simp_all
      then show ?thesis by (intro exI [of _ 0]) simp
    next
      case False
      then have "findDealIdx api tok p (Suc i) deals = Inr (Some k)" using Cons.prems Inr by simp
      from Cons.IH [OF this] obtain j where j: "k = Suc i + j" "j < length deals" "sameTerms api tok p (deals ! j)"
        "\<forall>l < j. \<not> sameTerms api tok p (deals ! l)" by blast
      have n: "\<not> sameTerms api tok p d" using CheckDealEquality_iff [OF Inr] False by simp
      have "\<not> sameTerms api tok p ((d # deals) ! l)" if "l < Suc j" for l
        using that j(4) n by (cases l) simp_all
      then show ?thesis using j by (intro exI [of _ "Suc j"]) simp
    qed
  qed (use Cons.prems in simp)
qed simp

lemma publishResult_ok:
  assumes "publishResult api c = Inr (lookup, retval, ids)"
  shows "ciSearchMsg api c = Inr (Some lookup) \<and> ExitCode (lkReceipt lookup) = 0 \<and> retDealIDs retval = Inr ids \<and>
    (\<exists>nv. ciStateNetworkVersion api (lkTipSet lookup) = Inr nv \<and> DecodePublishStorageDealsReturn api (recReturn (lkReceipt lookup)) nv = Inr retval)"
  using assms by (auto simp: publishResult_def split: sum.splits option.splits if_splits)

lemma paramIdx_ok:
  assumes "paramIdx api tok p c = Inr k"
  obtains msg deals where "ciGetMessage api c = Inr msg" "UnmarshalPublishParams api (msgParams msg) = Inr deals" "k < length deals"
    "sameTerms api tok p (deals ! k)" "\<forall>l < k. \<not> sameTerms api tok p (deals ! l)"
proof -
  obtain msg deals where m: "ciGetMessage api c = Inr msg" "UnmarshalPublishParams api (msgParams msg) = Inr deals"
    "findDealIdx api tok p 0 deals = Inr (Some k)"
    using assms by (auto simp: paramIdx_def split: sum.splits option.splits if_splits)
  then show thesis using that findDealIdx_first [OF m(3)] by auto
qed

lemma currentInfo_terms:
  assumes "GetCurrentDealInfo api tok (Some p) c = Ret (Inr (info, None))"
  shows "\<exists>md. ciStateMarketStorageDeal api (cdDealID info) tok = Inr md \<and> cdMarketDeal info = Some md \<and> sameTerms api tok p (mkProposal md)"
proof -
  obtain i t md where "ciStateMarketStorageDeal api i tok = Inr md" "CheckDealEquality api tok p (mkProposal md) = Inr True"
    "info = \<lparr>cdDealID = i, cdMarketDeal = Some md, PublishMsgTipSet = t\<rparr>"
    using assms by (auto simp: GetCurrentDealInfo_def Let_def split: sum.splits if_splits outcome.splits)
  then show ?thesis using CheckDealEquality_iff [of api tok p "mkProposal md" True] by auto
qed

text \<open>Property C20. The deal information of a proposal: when \<open>GetCurrentDealInfo\<close> returns a deal, the publish message was
  executed successfully, the proposal is the one at the first matching place of its parameters, that deal was valid, the
  identifier is the one the return value gives for that place, and the deal on chain under it has the same terms.\<close>

theorem GetCurrentDealInfo_sound:
  assumes "GetCurrentDealInfo api tok (Some p) c = Ret (Inr (info, None))"
  shows "\<exists>lookup nv retval ids msg deals k out md.
    ciSearchMsg api c = Inr (Some lookup) \<and> ExitCode (lkReceipt lookup) = 0 \<and>
    ciStateNetworkVersion api (lkTipSet lookup) = Inr nv \<and>
    DecodePublishStorageDealsReturn api (recReturn (lkReceipt lookup)) nv = Inr retval \<and> retDealIDs retval = Inr ids \<and>
    ciGetMessage api c = Inr msg \<and> UnmarshalPublishParams api (msgParams msg) = Inr deals \<and> k < length deals \<and>
    sameTerms api tok p (deals ! k) \<and> (\<forall>l < k. \<not> sameTerms api tok p (deals ! l)) \<and>
    IsDealValid retval k = Inr (True, out) \<and> 0 \<le> out \<and> nat out < length ids \<and> cdDealID info = ids ! nat out \<and>
    ciStateMarketStorageDeal api (cdDealID info) tok = Inr md \<and> cdMarketDeal info = Some md \<and> sameTerms api tok p (mkProposal md)"
proof -
  obtain lookup retval ids where pr: "publishResult api c = Inr (lookup, retval, ids)"
    using assms by (auto simp: GetCurrentDealInfo_def dealIDFromPublishDealsMsg_def split: sum.splits outcome.splits)
  obtain k where k: "paramIdx api tok p c = Inr k"
    using assms pr by (auto simp: GetCurrentDealInfo_def dealIDFromPublishDealsMsg_def split: sum.splits outcome.splits)
  obtain out where out: "IsDealValid retval k = Inr (True, out)" "0 \<le> out" "nat out < length ids"
    "dealIDFromPublishDealsMsg api tok (Some p) c = Ret (Inr (ids ! nat out, EmptyTSK api))"
    using assms pr k
    by (auto simp: GetCurrentDealInfo_def dealIDFromPublishDealsMsg_def idAt_def split: sum.splits outcome.splits if_splits)
  obtain md b where md: "ciStateMarketStorageDeal api (ids ! nat out) tok = Inr md" "CheckDealEquality api tok p (mkProposal md) = Inr b" "b"
    "info = \<lparr>cdDealID = ids ! nat out, cdMarketDeal = Some md, PublishMsgTipSet = EmptyTSK api\<rparr>"
    using assms out(4) by (auto simp: GetCurrentDealInfo_def Let_def split: sum.splits if_splits)
  obtain msg deals where m: "ciGetMessage api c = Inr msg" "UnmarshalPublishParams api (msgParams msg) = Inr deals" "k < length deals"
    "sameTerms api tok p (deals ! k)" "\<forall>l < k. \<not> sameTerms api tok p (deals ! l)"
    using paramIdx_ok [OF k] by blast
  obtain nv where r: "ciSearchMsg api c = Inr (Some lookup)" "ExitCode (lkReceipt lookup) = 0" "retDealIDs retval = Inr ids"
    "ciStateNetworkVersion api (lkTipSet lookup) = Inr nv" "DecodePublishStorageDealsReturn api (recReturn (lkReceipt lookup)) nv = Inr retval"
    using publishResult_ok [OF pr] by blast
  have "sameTerms api tok p (mkProposal md)" using CheckDealEquality_iff [OF md(2)] md(3) by blast
  then show ?thesis
    using r out(1-3) md(1,4) m
    by - (rule exI [of _ lookup], rule exI [of _ nv], rule exI [of _ retval], rule exI [of _ ids], rule exI [of _ msg], rule exI [of _ deals],
      rule exI [of _ k], rule exI [of _ out], rule exI [of _ md], simp)
qed

definition demo_info :: dealInfoAPI where
  "demo_info = \<lparr>EmptyTSK = [], ciStateLookupID = (\<lambda>a _. Inr (if a = ''client'' then ''f01'' else a)),
     ciStateMarketStorageDeal = (\<lambda>i _. if i = 8 then Inr \<lparr>mkProposal = (demo_prop 128)\<lparr>Client := ''f01''\<rparr>, mkSectorStartEpoch = -1, mkSlashEpoch = -1\<rparr> else Inl ErrNotFound),
     ciStateNetworkVersion = (\<lambda>_. Inr 16), ciGetMessage = (\<lambda>_. Inr \<lparr>msgTo = ''f05'', msgFrom = ''f0100'', msgValue = 0, msgMethod = 4, msgParams = ''p''\<rparr>),
     ciSearchMsg = (\<lambda>_. Inr (Some \<lparr>lkMessage = [], lkReceipt = \<lparr>ExitCode = 0, recReturn = ''r'', GasUsed = 1\<rparr>, lkTipSet = ''publish'', lkHeight = 7\<rparr>)),
     DecodePublishStorageDealsReturn = (\<lambda>_ _. Inr \<lparr>retDealIDs = Inr [8], IsDealValid = (\<lambda>i. Inr (i = 1, 0))\<rparr>),
     UnmarshalPublishParams = (\<lambda>_. Inr [demo_prop 64, demo_prop 128])\<rparr>"

lemma demo_info_run: "(case GetCurrentDealInfo demo_info ''head'' (Some (demo_prop 128)) ''pub'' of
    Ret (Inr (info, None)) \<Rightarrow> cdDealID info = 8 \<and> PublishMsgTipSet info = [] | _ \<Rightarrow> False) = True"
  by code_simp

theorem GetCurrentDealInfo_sound_witness:
  "\<exists>info md. GetCurrentDealInfo demo_info ''head'' (Some (demo_prop 128)) ''pub'' = Ret (Inr (info, None)) \<and> cdDealID info = 8 \<and>
     cdMarketDeal info = Some md \<and> sameTerms demo_info ''head'' (demo_prop 128) (mkProposal md)"
proof -
  obtain info where i: "GetCurrentDealInfo demo_info ''head'' (Some (demo_prop 128)) ''pub'' = Ret (Inr (info, None))" "cdDealID info = 8"
    using demo_info_run by (auto split: outcome.splits sum.splits option.splits)
  then show ?thesis using GetCurrentDealInfo_sound [OF i(1)] by blast
qed

text \<open>The tipset of the publish message is lost: with a proposal the result always carries the empty tipset key,
  although the message was found in a tipset.\<close>

theorem GetCurrentDealInfo_no_tipset:
  assumes "GetCurrentDealInfo api tok (Some p) c = Ret (Inr (info, err))"
  shows "PublishMsgTipSet info = EmptyTSK api \<and> (\<exists>lookup. ciSearchMsg api c = Inr (Some lookup))"
proof -
  obtain i t where d: "dealIDFromPublishDealsMsg api tok (Some p) c = Ret (Inr (i, t))" "PublishMsgTipSet info = t"
    using assms by (auto simp: GetCurrentDealInfo_def Let_def split: outcome.splits sum.splits if_splits)
  obtain lookup retval ids where pr: "publishResult api c = Inr (lookup, retval, ids)"
    using d(1) by (auto simp: dealIDFromPublishDealsMsg_def split: sum.splits)
  have "t = EmptyTSK api"
    using d(1) pr by (auto simp: dealIDFromPublishDealsMsg_def idAt_def split: sum.splits if_splits)
  then show ?thesis using d(2) publishResult_ok [OF pr] by blast
qed

theorem GetCurrentDealInfo_no_tipset_witness:
  "\<exists>info. GetCurrentDealInfo demo_info ''head'' (Some (demo_prop 128)) ''pub'' = Ret (Inr (info, None)) \<and> PublishMsgTipSet info = [] \<and>
     map_sum id (map_option lkTipSet) (ciSearchMsg demo_info ''pub'') = Inr (Some ''publish'')"
proof -
  obtain info where i: "GetCurrentDealInfo demo_info ''head'' (Some (demo_prop 128)) ''pub'' = Ret (Inr (info, None))"
    using demo_info_run by (auto split: outcome.splits sum.splits option.splits)
  then show ?thesis using GetCurrentDealInfo_no_tipset [OF i] by (simp add: demo_info_def)
qed

text \<open>Without a proposal, an empty list of identifiers is indexed at 0.\<close>

theorem GetCurrentDealInfo_empty_panics:
  assumes "publishResult api c = Inr (lookup, retval, [])"
  shows "GetCurrentDealInfo api tok None c = Panic ''index out of range''"
  using assms by (simp add: GetCurrentDealInfo_def dealIDFromPublishDealsMsg_def idAt_def)

end
