(* ===== verification/Sector_Committed.thy ===== *)
theory Sector_Committed
  imports Current_Deal_Info
begin

text \<open>
  Following a deal into its sector: \<open>src/storageprovider/ondealsectorcommitted.go\<close>. \<open>OnDealSectorPreCommitted\<close> and
  \<open>OnDealSectorCommitted\<close> hand closures to the chain events service; each closure is a function here. The callback
  goes through \<open>sync.Once\<close>: the state of the closures is the one call that reached it, if any. A tipset is its key; a
  message of nil is the timeout. The events service is not modelled: the theorems hold for every sequence of calls.
\<close>

section \<open>Data\<close>

record preCommit =
  pcDealIDs :: "u64 list"
  pcSectorNumber :: u64

record sectorEnv =
  scInfo :: dealInfoAPI
  diffPreCommits :: "address \<Rightarrow> bytes \<Rightarrow> bytes \<Rightarrow> preCommit list res"
  methodPreCommitSector :: nat
  methodPreCommitSectorBatch :: nat
  methodProveCommitSector :: nat
  methodProveCommitAggregate :: nat
  UnmarshalPreCommit :: "bytes \<Rightarrow> preCommit res"
  UnmarshalPreCommitBatch :: "bytes \<Rightarrow> preCommit list res"
  UnmarshalProveCommit :: "bytes \<Rightarrow> u64 res"
  UnmarshalAggregate :: "bytes \<Rightarrow> (u64 \<Rightarrow> bool res) res"

section \<open>Operations\<close>

definition currentInfo :: "sectorEnv \<Rightarrow> bytes \<Rightarrow> DealProposal \<Rightarrow> cid \<Rightarrow> CurrentDealInfo res outcome" where
  "currentInfo env tsk proposal publishCid =
     (case GetCurrentDealInfo (scInfo env) tsk (Some proposal) publishCid of
        Panic m \<Rightarrow> Panic m
      | Ret (Inl e) \<Rightarrow> Ret (Inl e)
      | Ret (Inr (_, Some e)) \<Rightarrow> Ret (Inl e)
      | Ret (Inr (info, None)) \<Rightarrow> Ret (Inr info))"

text \<open>The market deal is there when the lookup gave no error; without it the code would dereference nil.\<close>

definition checkIfDealAlreadyActive :: "sectorEnv \<Rightarrow> bytes \<Rightarrow> DealProposal \<Rightarrow> cid \<Rightarrow> (CurrentDealInfo \<times> bool) res outcome" where
  "checkIfDealAlreadyActive env tsk proposal publishCid =
     (case currentInfo env tsk proposal publishCid of
        Panic m \<Rightarrow> Panic m
      | Ret (Inl e) \<Rightarrow> Ret (Inl (ErrWrap ''failed to look up deal on chain'' e))
      | Ret (Inr res) \<Rightarrow>
          (case cdMarketDeal res of
             None \<Rightarrow> Panic ''invalid memory address or nil pointer dereference''
           | Some md \<Rightarrow>
               if mkSlashEpoch md > 0 then Ret (Inl (ErrMsg ''deal was slashed''))
               else Ret (Inr (res, mkSectorStartEpoch md > 0))))"

definition sectorWith :: "u64 \<Rightarrow> preCommit list \<Rightarrow> u64 option" where
  "sectorWith dealID infos = map_option pcSectorNumber (find (\<lambda>info. dealID \<in> set (pcDealIDs info)) infos)"

definition dealSectorInPreCommitMsg :: "sectorEnv \<Rightarrow> Message \<Rightarrow> CurrentDealInfo \<Rightarrow> u64 option res" where
  "dealSectorInPreCommitMsg env msg res =
     (if msgMethod msg = methodPreCommitSector env then
        (case UnmarshalPreCommit env (msgParams msg) of
           Inl e \<Rightarrow> Inl (ErrWrap ''unmarshal pre commit'' e)
         | Inr params \<Rightarrow> Inr (if cdDealID res \<in> set (pcDealIDs params) then Some (pcSectorNumber params) else None))
      else if msgMethod msg = methodPreCommitSectorBatch env then
        (case UnmarshalPreCommitBatch env (msgParams msg) of
           Inl e \<Rightarrow> Inl (ErrWrap ''unmarshal pre commit'' e)
         | Inr sectors \<Rightarrow> Inr (sectorWith (cdDealID res) sectors))
      else Inl (ErrMsg ''unexpected method''))"

definition sectorInCommitMsg :: "sectorEnv \<Rightarrow> Message \<Rightarrow> u64 \<Rightarrow> bool res" where
  "sectorInCommitMsg env msg sectorNumber =
     (if msgMethod msg = methodProveCommitSector env then
        (case UnmarshalProveCommit env (msgParams msg) of
           Inl e \<Rightarrow> Inl (ErrWrap ''failed to unmarshal prove commit sector params'' e)
         | Inr n \<Rightarrow> Inr (n = sectorNumber))
      else if msgMethod msg = methodProveCommitAggregate env then
        (case UnmarshalAggregate env (msgParams msg) of
           Inl e \<Rightarrow> Inl (ErrWrap ''failed to unmarshal prove commit sector params'' e)
         | Inr isSet \<Rightarrow>
             (case isSet sectorNumber of
                Inl e \<Rightarrow> Inl (ErrWrap ''checking if sectorNumber is set in commit aggregate message'' e)
              | Inr b \<Rightarrow> Inr b))
      else Inr False)"

section \<open>Precommits\<close>

text \<open>\<open>once.Do\<close>: only the first call of the callback has an effect.\<close>

definition onceDo :: "'a \<Rightarrow> 'a option \<Rightarrow> 'a option" where
  "onceDo x st = (case st of None \<Rightarrow> Some x | Some y \<Rightarrow> Some y)"

type_synonym preCall = "u64 \<times> bool \<times> error option"

definition preCheckFunc :: "sectorEnv \<Rightarrow> address \<Rightarrow> DealProposal \<Rightarrow> cid \<Rightarrow> bytes \<Rightarrow> preCall option \<Rightarrow> ((bool \<times> bool \<times> error option) \<times> preCall option) outcome" where
  "preCheckFunc env provider proposal publishCid tsk st =
     (case checkIfDealAlreadyActive env tsk proposal publishCid of
        Panic m \<Rightarrow> Panic m
      | Ret (Inl e) \<Rightarrow> Ret ((False, False, Some e), st)
      | Ret (Inr (dealInfo, isActive)) \<Rightarrow>
          if isActive then Ret ((True, False, None), onceDo (0, True, None) st)
          else
            (case diffPreCommits env provider (PublishMsgTipSet dealInfo) tsk of
               Inl e \<Rightarrow> Ret ((False, False, Some e), st)
             | Inr added \<Rightarrow>
                 (case sectorWith (cdDealID dealInfo) added of
                    Some n \<Rightarrow> Ret ((True, False, None), onceDo (n, False, None) st)
                  | None \<Rightarrow> Ret ((False, True, None), st))))"

definition preMatchEvent :: "sectorEnv \<Rightarrow> address \<Rightarrow> Message \<Rightarrow> bool" where
  "preMatchEvent env provider msg \<longleftrightarrow>
     msgTo msg = provider \<and> (msgMethod msg = methodPreCommitSector env \<or> msgMethod msg = methodPreCommitSectorBatch env)"

text \<open>An error returned is also handed to the callback by the deferred function.\<close>

definition preFailed :: "error \<Rightarrow> preCall option \<Rightarrow> ((bool \<times> error option) \<times> preCall option) outcome" where
  "preFailed e st = Ret ((False, Some e), onceDo (0, False, Some (ErrWrap ''handling applied event'' e)) st)"

definition preCalled :: "sectorEnv \<Rightarrow> DealProposal \<Rightarrow> cid \<Rightarrow> Message option \<Rightarrow> int \<Rightarrow> bytes \<Rightarrow> preCall option \<Rightarrow> ((bool \<times> error option) \<times> preCall option) outcome" where
  "preCalled env proposal publishCid msg exitCode tsk st =
     (case msg of
        None \<Rightarrow> preFailed (ErrMsg ''deal was not activated by proposed deal start epoch'') st
      | Some msg \<Rightarrow>
          if exitCode \<noteq> 0 then Ret ((True, None), st)
          else
            (case currentInfo env tsk proposal publishCid of
               Panic m \<Rightarrow> Panic m
             | Ret (Inl e) \<Rightarrow> preFailed e st
             | Ret (Inr res) \<Rightarrow>
                 (case dealSectorInPreCommitMsg env msg res of
                    Inl e \<Rightarrow> preFailed e st
                  | Inr sn \<Rightarrow> Ret ((True, None), (case sn of Some n \<Rightarrow> onceDo (n, False, None) st | None \<Rightarrow> st)))))"

definition timeoutEpoch :: "DealProposal \<Rightarrow> int" where
  "timeoutEpoch proposal = StartEpoch proposal + 1"

section \<open>Commits\<close>

type_synonym commitCall = "error option"

definition commitCheckFunc :: "sectorEnv \<Rightarrow> DealProposal \<Rightarrow> cid \<Rightarrow> bytes \<Rightarrow> commitCall option \<Rightarrow> ((bool \<times> bool \<times> error option) \<times> commitCall option) outcome" where
  "commitCheckFunc env proposal publishCid tsk st =
     (case checkIfDealAlreadyActive env tsk proposal publishCid of
        Panic m \<Rightarrow> Panic m
      | Ret (Inl e) \<Rightarrow> Ret ((False, False, Some e), st)
      | Ret (Inr (_, isActive)) \<Rightarrow> if isActive then Ret ((True, False, None), onceDo None st) else Ret ((False, True, None), st))"

definition commitMatchEvent :: "sectorEnv \<Rightarrow> address \<Rightarrow> u64 \<Rightarrow> Message \<Rightarrow> bool res" where
  "commitMatchEvent env provider sectorNumber msg =
     (if msgTo msg \<noteq> provider then Inr False else sectorInCommitMsg env msg sectorNumber)"

definition commitFailed :: "error \<Rightarrow> commitCall option \<Rightarrow> ((bool \<times> error option) \<times> commitCall option) outcome" where
  "commitFailed e st = Ret ((False, Some e), onceDo (Some (ErrWrap ''handling applied event'' e)) st)"

definition commitCalled :: "sectorEnv \<Rightarrow> DealProposal \<Rightarrow> cid \<Rightarrow> Message option \<Rightarrow> int \<Rightarrow> bytes \<Rightarrow> commitCall option \<Rightarrow> ((bool \<times> error option) \<times> commitCall option) outcome" where
  "commitCalled env proposal publishCid msg exitCode tsk st =
     (case msg of
        None \<Rightarrow> commitFailed (ErrMsg ''deal was not activated by proposed deal start epoch'') st
      | Some msg \<Rightarrow>
          if exitCode \<noteq> 0 then Ret ((True, None), st)
          else
            (case currentInfo env tsk proposal publishCid of
               Panic m \<Rightarrow> Panic m
             | Ret (Inl e) \<Rightarrow> commitFailed (ErrWrap ''failed to look up deal on chain'' e) st
             | Ret (Inr res) \<Rightarrow>
                 (case cdMarketDeal res of
                    None \<Rightarrow> Panic ''invalid memory address or nil pointer dereference''
                  | Some md \<Rightarrow>
                      if mkSectorStartEpoch md < 1 then commitFailed (ErrMsg ''deal wasn't active'') st
                      else Ret ((False, None), onceDo None st))))"

section \<open>Any sequence of calls\<close>

text \<open>A call of the events service: the check, a message that matched with its exit code, or the timeout. After a panic
  there are no further calls.\<close>

datatype scCall = CheckAt bytes | Applied "Message option" int bytes

definition preStep :: "sectorEnv \<Rightarrow> address \<Rightarrow> DealProposal \<Rightarrow> cid \<Rightarrow> preCall option outcome \<Rightarrow> scCall \<Rightarrow> preCall option outcome" where
  "preStep env provider proposal publishCid ost c =
     (case ost of
        Panic m \<Rightarrow> Panic m
      | Ret st \<Rightarrow>
          (case c of
             CheckAt tsk \<Rightarrow> (case preCheckFunc env provider proposal publishCid tsk st of Panic m \<Rightarrow> Panic m | Ret (_, st') \<Rightarrow> Ret st')
           | Applied msg code tsk \<Rightarrow> (case preCalled env proposal publishCid msg code tsk st of Panic m \<Rightarrow> Panic m | Ret (_, st') \<Rightarrow> Ret st')))"

definition commitStep :: "sectorEnv \<Rightarrow> DealProposal \<Rightarrow> cid \<Rightarrow> commitCall option outcome \<Rightarrow> scCall \<Rightarrow> commitCall option outcome" where
  "commitStep env proposal publishCid ost c =
     (case ost of
        Panic m \<Rightarrow> Panic m
      | Ret st \<Rightarrow>
          (case c of
             CheckAt tsk \<Rightarrow> (case commitCheckFunc env proposal publishCid tsk st of Panic m \<Rightarrow> Panic m | Ret (_, st') \<Rightarrow> Ret st')
           | Applied msg code tsk \<Rightarrow> (case commitCalled env proposal publishCid msg code tsk st of Panic m \<Rightarrow> Panic m | Ret (_, st') \<Rightarrow> Ret st')))"

text \<open>What the chain says when the callback reports a sector or an active deal.\<close>

definition onChain :: "sectorEnv \<Rightarrow> DealProposal \<Rightarrow> cid \<Rightarrow> bytes \<Rightarrow> CurrentDealInfo \<Rightarrow> MarketDeal \<Rightarrow> bool" where
  "onChain env proposal publishCid tsk info md \<longleftrightarrow>
     GetCurrentDealInfo (scInfo env) tsk (Some proposal) publishCid = Ret (Inr (info, None)) \<and> cdMarketDeal info = Some md"

definition preJustified :: "sectorEnv \<Rightarrow> address \<Rightarrow> DealProposal \<Rightarrow> cid \<Rightarrow> scCall list \<Rightarrow> preCall \<Rightarrow> bool" where
  "preJustified env provider proposal publishCid calls r \<longleftrightarrow> (case r of (sn, active, err) \<Rightarrow>
     (err = None \<and> active \<longrightarrow> (\<exists>tsk info md. CheckAt tsk \<in> set calls \<and> onChain env proposal publishCid tsk info md \<and> 0 < mkSectorStartEpoch md)) \<and>
     (err = None \<and> \<not> active \<longrightarrow> (\<exists>tsk info. currentInfo env tsk proposal publishCid = Ret (Inr info) \<and>
        ((\<exists>added pc. CheckAt tsk \<in> set calls \<and> diffPreCommits env provider (PublishMsgTipSet info) tsk = Inr added \<and> pc \<in> set added \<and>
            cdDealID info \<in> set (pcDealIDs pc) \<and> pcSectorNumber pc = sn) \<or>
         (\<exists>msg. Applied (Some msg) 0 tsk \<in> set calls \<and> dealSectorInPreCommitMsg env msg info = Inr (Some sn))))))"

lemma onceDo_simps [simp]: "onceDo x None = Some x" "onceDo x (Some y) = Some y"
  by (simp_all add: onceDo_def)

lemma onceDo_cases: "onceDo x st = Some y \<Longrightarrow> st = Some y \<or> st = None \<and> y = x"
  by (cases st) simp_all

lemma sectorWith_Some: "sectorWith i infos = Some n \<Longrightarrow> \<exists>pc \<in> set infos. i \<in> set (pcDealIDs pc) \<and> pcSectorNumber pc = n"
  by (auto simp: sectorWith_def find_Some_iff)

lemma currentInfo_onChain:
  "currentInfo env tsk p c = Ret (Inr info) \<Longrightarrow> GetCurrentDealInfo (scInfo env) tsk (Some p) c = Ret (Inr (info, None))"
  by (auto simp: currentInfo_def split: outcome.splits sum.splits option.splits)

lemma alreadyActive_ok:
  assumes "checkIfDealAlreadyActive env tsk p c = Ret (Inr (info, active))"
  shows "currentInfo env tsk p c = Ret (Inr info) \<and> (\<exists>md. onChain env p c tsk info md \<and> (active \<longleftrightarrow> 0 < mkSectorStartEpoch md))"
proof -
  obtain md where "currentInfo env tsk p c = Ret (Inr info)" "cdMarketDeal info = Some md" "active \<longleftrightarrow> 0 < mkSectorStartEpoch md"
    using assms by (auto simp: checkIfDealAlreadyActive_def split: outcome.splits sum.splits option.splits if_splits)
  then show ?thesis using currentInfo_onChain by (auto simp: onChain_def)
qed

lemma preJustified_mono: "preJustified env pr p c calls r \<Longrightarrow> set calls \<subseteq> set calls' \<Longrightarrow> preJustified env pr p c calls' r"
  unfolding preJustified_def by (cases r) blast

lemma preCheckFunc_justified:
  assumes "preCheckFunc env pr p c tsk st = Ret (x, Some r)"
  shows "st = Some r \<or> preJustified env pr p c [CheckAt tsk] r"
proof -
  obtain y where y: "checkIfDealAlreadyActive env tsk p c = Ret y" using assms by (auto simp: preCheckFunc_def split: outcome.splits)
  show ?thesis
  proof (cases y)
    case (Inl e)
    then show ?thesis using assms y by (simp add: preCheckFunc_def)
  next
    case (Inr z)
    obtain info active where z: "z = (info, active)" by (cases z)
    note a = alreadyActive_ok [of env tsk p c info active, OF y [unfolded Inr z]]
    show ?thesis
    proof (cases active)
      case True
      then have "onceDo (0, True, None) st = Some r" using assms y Inr z by (simp add: preCheckFunc_def)
      then show ?thesis using onceDo_cases [of "(0, True, None)" st r] a True by (auto simp: preJustified_def)
    next
      case False
      show ?thesis
      proof (cases "diffPreCommits env pr (PublishMsgTipSet info) tsk")
        case (Inl e)
        then show ?thesis using assms y \<open>y = Inr z\<close> z False by (simp add: preCheckFunc_def)
      next
        case diff: (Inr added)
        show ?thesis
        proof (cases "sectorWith (cdDealID info) added")
          case None
          then show ?thesis using assms y \<open>y = Inr z\<close> z False diff by (simp add: preCheckFunc_def)
        next
          case (Some n)
          then have "onceDo (n, False, None) st = Some r" using assms y \<open>y = Inr z\<close> z False diff by (simp add: preCheckFunc_def)
          then show ?thesis using onceDo_cases [of "(n, False, None)" st r] sectorWith_Some [OF Some] a diff by (auto simp: preJustified_def)
        qed
      qed
    qed
  qed
qed

lemma preFailed_justified: "preFailed e st = Ret (x, Some r) \<Longrightarrow> st = Some r \<or> preJustified env pr p c calls r"
  by (cases st) (auto simp: preFailed_def preJustified_def)

lemma preCalled_justified:
  assumes "preCalled env p c msg code tsk st = Ret (x, Some r)"
  shows "st = Some r \<or> preJustified env pr p c [Applied msg code tsk] r"
proof (cases msg)
  case None
  then show ?thesis using assms preFailed_justified by (auto simp: preCalled_def)
next
  case (Some m)
  show ?thesis
  proof (cases "code = 0")
    case False
    then show ?thesis using assms Some by (simp add: preCalled_def)
  next
    case True
    then obtain y where y: "currentInfo env tsk p c = Ret y" using assms Some by (auto simp: preCalled_def split: outcome.splits)
    show ?thesis
    proof (cases y)
      case (Inl e)
      then show ?thesis using assms Some True y preFailed_justified by (auto simp: preCalled_def)
    next
      case (Inr info)
      show ?thesis
      proof (cases "dealSectorInPreCommitMsg env m info")
        case (Inl e)
        then show ?thesis using assms Some True y Inr preFailed_justified by (auto simp: preCalled_def)
      next
        case sn: (Inr sn)
        show ?thesis
        proof (cases sn)
          case None
          then show ?thesis using assms Some True y Inr sn by (simp add: preCalled_def)
        next
          case (Some n)
          then have "onceDo (n, False, None) st = Some r" using assms \<open>msg = Some m\<close> True y Inr sn by (simp add: preCalled_def)
          then show ?thesis using onceDo_cases [of "(n, False, None)" st r] \<open>msg = Some m\<close> True y Inr sn Some by (auto simp: preJustified_def)
        qed
      qed
    qed
  qed
qed

lemma preStep_Ret:
  assumes "preStep env pr p c ost call = Ret (Some r)"
  shows "ost = Ret (Some r) \<or> preJustified env pr p c [call] r"
proof (cases ost)
  case (Ret st)
  show ?thesis
  proof (cases call)
    case (CheckAt tsk)
    then obtain x where "preCheckFunc env pr p c tsk st = Ret (x, Some r)" using assms Ret by (auto simp: preStep_def split: outcome.splits)
    then show ?thesis using preCheckFunc_justified Ret CheckAt by blast
  next
    case (Applied msg code tsk)
    then obtain x where "preCalled env p c msg code tsk st = Ret (x, Some r)" using assms Ret by (auto simp: preStep_def split: outcome.splits)
    then show ?thesis using preCalled_justified Ret Applied by blast
  qed
qed (use assms in \<open>simp add: preStep_def\<close>)

lemma preFailed_keeps: "preFailed e (Some r) = Ret (x, st) \<Longrightarrow> st = Some r"
  by (simp add: preFailed_def)

lemma preStep_panic: "preStep env pr p c (Panic m) call = Panic m"
  by (simp add: preStep_def)

lemma preStep_keeps: "preStep env pr p c (Ret (Some r)) call = Ret st \<Longrightarrow> st = Some r"
  by (auto simp: preStep_def preCheckFunc_def preCalled_def preFailed_def split: scCall.splits outcome.splits sum.splits option.splits if_splits)


definition demo_sector :: sectorEnv where
  "demo_sector = \<lparr>scInfo = demo_info, diffPreCommits = (\<lambda>_ _ _. Inr []), methodPreCommitSector = 6, methodPreCommitSectorBatch = 25,
     methodProveCommitSector = 7, methodProveCommitAggregate = 26, UnmarshalPreCommit = (\<lambda>_. Inr \<lparr>pcDealIDs = [7, 8], pcSectorNumber = 3\<rparr>),
     UnmarshalPreCommitBatch = (\<lambda>_. Inr []), UnmarshalProveCommit = (\<lambda>_. Inr 3), UnmarshalAggregate = (\<lambda>_. Inr (\<lambda>_. Inr False))\<rparr>"

definition demo_calls :: "scCall list" where
  "demo_calls = [CheckAt ''t1'', Applied (Some \<lparr>msgTo = ''miner'', msgFrom = ''w'', msgValue = 0, msgMethod = 6, msgParams = []\<rparr>) 0 ''t2'',
     Applied None 0 ''t3'']"


text \<open>The check of earlier precommits compares the empty tipset key, not the tipset of the publication, with the tipset it
  is called for.\<close>

theorem preCheckFunc_diffs_empty:
  assumes "diffPreCommits env provider (EmptyTSK (scInfo env)) tsk = Inr []"
    and "preCheckFunc env provider proposal publishCid tsk None = Ret (x, Some (sn, active, err))"
  shows "active"
proof -
  obtain info act where a: "checkIfDealAlreadyActive env tsk proposal publishCid = Ret (Inr (info, act))"
    using assms(2) by (auto simp: preCheckFunc_def split: outcome.splits sum.splits)
  have "GetCurrentDealInfo (scInfo env) tsk (Some proposal) publishCid = Ret (Inr (info, None))"
    using alreadyActive_ok [OF a] by (auto simp: onChain_def)
  then have "PublishMsgTipSet info = EmptyTSK (scInfo env)"
    by (auto simp: GetCurrentDealInfo_def dealIDFromPublishDealsMsg_def idAt_def Let_def split: outcome.splits sum.splits option.splits if_splits)
  then show ?thesis using assms a by (auto simp: preCheckFunc_def sectorWith_def split: if_splits)
qed

section \<open>The commit\<close>

lemma commitStep_Ret:
  assumes "commitStep env p c ost call = Ret (Some None)"
  shows "ost = Ret (Some None) \<or> (\<exists>tsk info md. onChain env p c tsk info md \<and> 0 < mkSectorStartEpoch md)"
proof (cases ost)
  case (Ret st)
  show ?thesis
  proof (cases call)
    case (CheckAt tsk)
    then obtain x where "commitCheckFunc env p c tsk st = Ret (x, Some None)" using assms Ret by (auto simp: commitStep_def split: outcome.splits)
    then have "st = Some None \<or> (\<exists>info. checkIfDealAlreadyActive env tsk p c = Ret (Inr (info, True)))"
      by (cases st) (auto simp: commitCheckFunc_def split: outcome.splits sum.splits if_splits)
    then show ?thesis using alreadyActive_ok Ret by blast
  next
    case (Applied msg code tsk)
    then obtain x where h: "commitCalled env p c msg code tsk st = Ret (x, Some None)" using assms Ret by (auto simp: commitStep_def split: outcome.splits)
    have "st = Some None \<or> (\<exists>info md. currentInfo env tsk p c = Ret (Inr info) \<and> cdMarketDeal info = Some md \<and> 0 < mkSectorStartEpoch md)"
      using h by (cases st) (auto simp: commitCalled_def commitFailed_def split: outcome.splits sum.splits option.splits if_splits)
    then show ?thesis using currentInfo_onChain [of env tsk p c] Ret unfolding onChain_def by blast
  qed
qed (use assms in \<open>simp add: commitStep_def\<close>)

text \<open>\<open>OnDealSectorCommitted\<close> reports success only for a deal that the chain has in a sector.\<close>

theorem commit_reported:
  assumes "foldl (commitStep env proposal publishCid) (Ret None) calls = Ret (Some None)"
  shows "\<exists>tsk info md. onChain env proposal publishCid tsk info md \<and> 0 < mkSectorStartEpoch md"
  using assms
proof (induction calls rule: rev_induct)
  case (snoc call calls)
  then show ?case using commitStep_Ret [of env proposal publishCid _ call] by auto
qed simp

end
