(* ===== verification/Provider_Node.thy ===== *)
theory Provider_Node
  imports Storage_Provider_Thms Sector_Committed
begin

text \<open>
  The node as the storage provider sees it: \<open>ProviderNodeAdapter\<close> of \<open>src/storageprovider/provider.go\<close>, over the full node,
  the wallet and the message client (\<open>chainNode\<close>). \<open>servedBy\<close> says that the outside of the deal handler is such an adapter;
  the theorems at the end compose the adapter with the deal handler. \<open>pnWaitMsg\<close> is what \<open>WaitMsg\<close> of the message client
  returns.
\<close>

section \<open>Data\<close>

record minerInfo =
  Worker :: address
  WindowPoStProofType :: nat

record chainNode =
  TipSetKeyFromBytes :: "bytes \<Rightarrow> bytes res"
  pnStateMinerInfo :: "address \<Rightarrow> bytes \<Rightarrow> minerInfo res"
  pnStateNetworkVersion :: "bytes \<Rightarrow> nat res"
  PreferredSealProofType :: "nat \<Rightarrow> nat \<Rightarrow> nat res"
  pnStateAccountKey :: "address \<Rightarrow> address res"
  pnWalletSign :: "address \<Rightarrow> bytes \<Rightarrow> string \<Rightarrow> bytes res"
  cryptoVerify :: "bytes \<Rightarrow> address \<Rightarrow> bytes \<Rightarrow> error option"
  pnChainHead :: "(bytes \<times> int) res"
  pnStateMarketBalance :: "address \<Rightarrow> bytes \<Rightarrow> (int \<times> int) res"
  StateDealProviderCollateralBounds :: "u64 \<Rightarrow> bool \<Rightarrow> (int \<times> int) res"
  StateVerifiedClientStatus :: "address \<Rightarrow> bytes \<Rightarrow> int option res"
  pnWaitMsg :: "cid \<Rightarrow> u64 \<Rightarrow> int \<Rightarrow> MsgLookup res"
  pnMix :: mixEnv
  pnInfo :: dealInfoAPI
  MessageConfidence :: u64
  LookbackNoLimit :: int
  MTUnknown :: string
  marketActorAddress :: address
  methodAddBalance :: nat

record providerConfig =
  MaxMarketBalanceAddFee :: int
  MaxProviderCollateralMultiplier :: u64

record ProviderNodeAdapter =
  addBalanceSpec :: "MessageSendSpec option"
  maxDealCollateralMultiplier :: u64

text \<open>What is signed: a \<open>SignInfo\<close> with the bytes of its data, or something else.\<close>

datatype signData = SignInfo "bytes res" string address | OtherData

section \<open>Operations\<close>

definition defaultMaxProviderCollateralMultiplier :: u64 where
  "defaultMaxProviderCollateralMultiplier = 2"

definition NewProviderNodeAdapter :: "providerConfig option \<Rightarrow> ProviderNodeAdapter" where
  "NewProviderNodeAdapter fc =
     (let na = \<lparr>addBalanceSpec = None, maxDealCollateralMultiplier = 0\<rparr>;
          na = (case fc of
                  None \<Rightarrow> na
                | Some c \<Rightarrow> na\<lparr>addBalanceSpec := Some \<lparr>MaxFee = MaxMarketBalanceAddFee c, GasOverEstimation = []\<rparr>,
                    maxDealCollateralMultiplier := MaxProviderCollateralMultiplier c\<rparr>)
      in na\<lparr>maxDealCollateralMultiplier := defaultMaxProviderCollateralMultiplier\<rparr>)"

definition nodeVerifySignature :: "chainNode \<Rightarrow> bytes \<Rightarrow> address \<Rightarrow> bytes \<Rightarrow> bool \<times> error option" where
  "nodeVerifySignature n sig addr input =
     (case pnStateAccountKey n addr of
        Inl e \<Rightarrow> (False, Some e)
      | Inr a \<Rightarrow> (let err = cryptoVerify n sig a input in (err = None, err)))"

definition nodeGetMinerWorkerAddress :: "chainNode \<Rightarrow> address \<Rightarrow> bytes \<Rightarrow> address res" where
  "nodeGetMinerWorkerAddress n maddr tok =
     tryE (TipSetKeyFromBytes n tok) (\<lambda>tsk. tryE (pnStateMinerInfo n maddr tsk) (\<lambda>mi. Inr (Worker mi)))"

definition nodeGetProofType :: "chainNode \<Rightarrow> address \<Rightarrow> bytes \<Rightarrow> nat res" where
  "nodeGetProofType n maddr tok =
     tryE (TipSetKeyFromBytes n tok) (\<lambda>tsk.
     tryE (pnStateMinerInfo n maddr tsk) (\<lambda>mi.
     tryE (pnStateNetworkVersion n tsk) (\<lambda>nver. PreferredSealProofType n nver (WindowPoStProofType mi))))"

definition nodeGetChainHead :: "chainNode \<Rightarrow> (bytes \<times> int) res" where
  "nodeGetChainHead n = tryE (pnChainHead n) Inr"

definition signAs :: "chainNode \<Rightarrow> address \<Rightarrow> bytes \<Rightarrow> bytes \<Rightarrow> string \<Rightarrow> bytes res" where
  "signAs n mAddr tok msgBytes typ =
     tryE (nodeGetMinerWorkerAddress n mAddr tok) (\<lambda>worker.
     tryE (pnStateAccountKey n worker) (\<lambda>signer.
     tryE (pnWalletSign n signer msgBytes typ) Inr))"

definition Sign :: "chainNode \<Rightarrow> signData \<Rightarrow> bytes res" where
  "Sign n data =
     (case nodeGetChainHead n of
        Inl e \<Rightarrow> Inl (ErrWrap ''couldn't get chain head'' e)
      | Inr (tok, _) \<Rightarrow>
          (case data of
             OtherData \<Rightarrow> Inl (ErrMsg ''data type is not SignInfo'')
           | SignInfo dumped typ addr \<Rightarrow>
               (case dumped of
                  Inl e \<Rightarrow> Inl (ErrWrap ''serializing'' e)
                | Inr msgBytes \<Rightarrow> signAs n addr tok msgBytes typ)))"

definition SignWithGivenMiner :: "chainNode \<Rightarrow> address \<Rightarrow> bytes res \<Rightarrow> bytes res" where
  "SignWithGivenMiner n mAddr dumped =
     (case nodeGetChainHead n of
        Inl e \<Rightarrow> Inl (ErrWrap ''couldn't get chain head'' e)
      | Inr (tok, _) \<Rightarrow>
          (case dumped of
             Inl e \<Rightarrow> Inl (ErrWrap ''serializing'' e)
           | Inr msgBytes \<Rightarrow> signAs n mAddr tok msgBytes (MTUnknown n)))"

definition nodeAddFunds :: "chainNode \<Rightarrow> ProviderNodeAdapter \<Rightarrow> address \<Rightarrow> int \<Rightarrow> pushed list \<times> cid res" where
  "nodeAddFunds n a addr amount =
     (case PushMessage (pnMix n) \<lparr>msgTo = marketActorAddress n, msgFrom = addr, msgValue = amount, msgMethod = methodAddBalance n, msgParams = []\<rparr>
             (addBalanceSpec a) of
        (es, Inl e) \<Rightarrow> (es, Inl e)
      | (es, Inr msgId) \<Rightarrow> (es, Inr msgId))"

text \<open>\<open>utils.ToSharedBalance\<close>: the locked and the available balance of an escrow and a locked balance.\<close>

definition ToSharedBalance :: "int \<times> int \<Rightarrow> int \<times> int" where
  "ToSharedBalance bal = (case bal of (escrow, locked) \<Rightarrow> (locked, escrow - locked))"

definition nodeGetBalance :: "chainNode \<Rightarrow> address \<Rightarrow> bytes \<Rightarrow> (int \<times> int) res" where
  "nodeGetBalance n addr encodedTs =
     tryE (TipSetKeyFromBytes n encodedTs) (\<lambda>tsk. tryE (pnStateMarketBalance n addr tsk) (\<lambda>bal. Inr (ToSharedBalance bal)))"

definition nodeDealProviderCollateralBounds :: "chainNode \<Rightarrow> ProviderNodeAdapter \<Rightarrow> u64 \<Rightarrow> bool \<Rightarrow> (int \<times> int) res" where
  "nodeDealProviderCollateralBounds n a pieceSize isVerified =
     tryE (StateDealProviderCollateralBounds n pieceSize isVerified) (\<lambda>(boundsMin, boundsMax).
       Inr (boundsMin, boundsMin * uint (maxDealCollateralMultiplier a)))"

definition nodeWaitForMessage :: "chainNode \<Rightarrow> cid \<Rightarrow> (int \<Rightarrow> bytes \<Rightarrow> cid \<Rightarrow> error option \<Rightarrow> 'a) \<Rightarrow> 'a" where
  "nodeWaitForMessage n mcid cb =
     (case pnWaitMsg n mcid (2 * MessageConfidence n) (LookbackNoLimit n) of
        Inl e \<Rightarrow> cb 0 [] Undef (Some e)
      | Inr receipt \<Rightarrow> cb (ExitCode (lkReceipt receipt)) (recReturn (lkReceipt receipt)) (lkMessage receipt) None)"

definition nodeWaitForPublishDeals :: "chainNode \<Rightarrow> cid \<Rightarrow> DealProposal \<Rightarrow> publishedDeal res outcome" where
  "nodeWaitForPublishDeals n publishCid proposal =
     (case pnWaitMsg n publishCid (2 * MessageConfidence n) (LookbackNoLimit n) of
        Inl e \<Rightarrow> Ret (Inl (ErrWrap ''WaitForPublishDeals errored'' e))
      | Inr receipt \<Rightarrow>
          if ExitCode (lkReceipt receipt) \<noteq> 0 then Ret (Inl (ErrMsg ''WaitForPublishDeals exit code''))
          else
            (case pnChainHead n of
               Inl e \<Rightarrow> Ret (Inl (ErrWrap ''WaitForPublishDeals failed to get chain head'' e))
             | Inr (key, _) \<Rightarrow>
                 (case GetCurrentDealInfo (pnInfo n) key (Some proposal) publishCid of
                    Panic m \<Rightarrow> Panic m
                  | Ret (Inl e) \<Rightarrow> Ret (Inl (ErrWrap ''WaitForPublishDeals getting deal info errored'' e))
                  | Ret (Inr (_, Some e)) \<Rightarrow> Ret (Inl (ErrWrap ''WaitForPublishDeals getting deal info errored'' e))
                  | Ret (Inr (res, None)) \<Rightarrow> Ret (Inr \<lparr>resDealID = cdDealID res, FinalCid = lkMessage receipt\<rparr>))))"

definition nodeGetDataCap :: "chainNode \<Rightarrow> address \<Rightarrow> bytes \<Rightarrow> int option res" where
  "nodeGetDataCap n addr encodedTs = tryE (TipSetKeyFromBytes n encodedTs) (\<lambda>tsk. StateVerifiedClientStatus n addr tsk)"

text \<open>\<open>SearchMsg\<close> waits for the message; \<open>from\<close> is not used.\<close>

definition nodeSearchMsg :: "chainNode \<Rightarrow> bytes \<Rightarrow> cid \<Rightarrow> int \<Rightarrow> MsgLookup res" where
  "nodeSearchMsg n from' msg limit = pnWaitMsg n msg (MessageConfidence n) limit"

definition nodeGetMessage :: "chainNode \<Rightarrow> cid \<Rightarrow> Message res" where
  "nodeGetMessage n mc = GetMessage (pnMix n) mc"

section \<open>The adapter as the outside of the deal handler\<close>

definition servedBy :: "chainNode \<Rightarrow> ProviderNodeAdapter \<Rightarrow> dealEnv \<Rightarrow> bool" where
  "servedBy n a env \<longleftrightarrow>
     GetChainHead env = nodeGetChainHead n \<and>
     (\<forall>sz v. DealProviderCollateralBounds env sz v = nodeDealProviderCollateralBounds n a sz v) \<and>
     (\<forall>addr tok. GetBalance env addr tok = map_sum id snd (nodeGetBalance n addr tok)) \<and>
     (\<forall>addr tok. GetDataCap env addr tok = nodeGetDataCap n addr tok) \<and>
     (\<forall>addr tok. GetMinerWorkerAddress env addr tok = nodeGetMinerWorkerAddress n addr tok) \<and>
     (\<forall>c. WaitForMessage env c = nodeWaitForMessage n c (\<lambda>code _ _ err. Inr (code, err))) \<and>
     (\<forall>c p. nodeWaitForPublishDeals n c p = Ret (WaitForPublishDeals env c p))"

lemma tryE_cases: "tryE x k = Inr y \<Longrightarrow> (\<And>v. x = Inr v \<Longrightarrow> k v = Inr y \<Longrightarrow> thesis) \<Longrightarrow> thesis"
  by (cases x) auto


section \<open>A concrete node\<close>

definition demo_node :: chainNode where
  "demo_node = \<lparr>TipSetKeyFromBytes = Inr,
     pnStateMinerInfo = (\<lambda>a _. if a = ''miner'' then Inr \<lparr>Worker = ''worker'', WindowPoStProofType = 3\<rparr> else Inl (ErrApi ''no actor'')),
     pnStateNetworkVersion = (\<lambda>_. Inr 16), PreferredSealProofType = (\<lambda>_ _. Inr 8), pnStateAccountKey = Inr,
     pnWalletSign = (\<lambda>_ b _. Inr b), cryptoVerify = (\<lambda>_ _ _. None), pnChainHead = Inr (''head'', 5), pnStateMarketBalance = (\<lambda>_ _. Inr (110, 10)),
     StateDealProviderCollateralBounds = (\<lambda>_ _. Inr (0, 50)), StateVerifiedClientStatus = (\<lambda>_ _. Inr None),
     pnWaitMsg = (\<lambda>c _ _. Inr \<lparr>lkMessage = ''final'', lkReceipt = \<lparr>ExitCode = 0, recReturn = ''r'', GasUsed = 1\<rparr>, lkTipSet = ''publish'', lkHeight = 7\<rparr>),
     pnMix = demo_mix, pnInfo = demo_info, MessageConfidence = 5, LookbackNoLimit = -1, MTUnknown = ''unknown'', marketActorAddress = ''f05'',
     methodAddBalance = 2\<rparr>"

definition demo_config :: providerConfig where
  "demo_config = \<lparr>MaxMarketBalanceAddFee = 1, MaxProviderCollateralMultiplier = 10\<rparr>"

definition adapterEnv :: "chainNode \<Rightarrow> ProviderNodeAdapter \<Rightarrow> dealEnv \<Rightarrow> dealEnv" where
  "adapterEnv n a env = env\<lparr>GetChainHead := nodeGetChainHead n, DealProviderCollateralBounds := nodeDealProviderCollateralBounds n a,
     GetBalance := (\<lambda>addr tok. map_sum id snd (nodeGetBalance n addr tok)), GetDataCap := nodeGetDataCap n,
     GetMinerWorkerAddress := nodeGetMinerWorkerAddress n, WaitForMessage := (\<lambda>c. nodeWaitForMessage n c (\<lambda>code _ _ err. Inr (code, err))),
     WaitForPublishDeals := (\<lambda>c p. case nodeWaitForPublishDeals n c p of Ret x \<Rightarrow> x | Panic m \<Rightarrow> Inl (ErrMsg m))\<rparr>"

lemma adapterEnv_served: "(\<And>c p. \<exists>x. nodeWaitForPublishDeals n c p = Ret x) \<Longrightarrow> servedBy n a (adapterEnv n a env)"
  unfolding servedBy_def adapterEnv_def by (auto split: outcome.splits) (metis outcome.distinct(1))

lemma demo_node_returns: "\<exists>x. nodeWaitForPublishDeals demo_node c p = Ret x"
proof -
  have idx: "IsDealValid \<lparr>retDealIDs = Inr [8], IsDealValid = (\<lambda>i. Inr (i = 1, 0))\<rparr> k = Inr (k = 1, 0)" for k by simp
  have "\<exists>x. dealIDFromPublishDealsMsg demo_info t (Some p) c = Ret x" for t
    by (simp add: dealIDFromPublishDealsMsg_def publishResult_def demo_info_def idAt_def split: sum.split)
  then have "\<exists>x. GetCurrentDealInfo demo_info t (Some p) c = Ret x" for t
    by (auto simp: GetCurrentDealInfo_def Let_def split: outcome.splits sum.splits) (metis outcome.distinct(1))
  then obtain x where x: "GetCurrentDealInfo demo_info ''head'' (Some p) c = Ret x" by blast
  then show ?thesis by (auto simp: nodeWaitForPublishDeals_def demo_node_def split: sum.splits option.splits)
qed

definition demo_aenv :: dealEnv where
  "demo_aenv = adapterEnv demo_node (NewProviderNodeAdapter (Some demo_config)) demo_denv"

lemma demo_served: "servedBy demo_node (NewProviderNodeAdapter (Some demo_config)) demo_aenv"
  unfolding demo_aenv_def using adapterEnv_served [OF demo_node_returns] .


text \<open>Property C30. When the deal handler, over the node adapter, has waited for the publication and goes on with a staged deal,
  the identifier it stores is one under which the chain has a deal with the terms of the proposal, and the publish
  message was executed successfully.\<close>

theorem staged_deal_on_chain:
  assumes "servedBy n a env" "mdState d = StorageDealPublishing" "waitForPublish env repo d w = Next d' w'"
  shows "mdState d' = StorageDealStaged \<and> (\<exists>c receipt key h md. PublishCid d = Some c \<and>
    pnWaitMsg n c (2 * MessageConfidence n) (LookbackNoLimit n) = Inr receipt \<and> ExitCode (lkReceipt receipt) = 0 \<and>
    PublishCid d' = Some (lkMessage receipt) \<and> pnChainHead n = Inr (key, h) \<and>
    ciStateMarketStorageDeal (pnInfo n) (DealID d') key = Inr md \<and> sameTerms (pnInfo n) key (Proposal d') (mkProposal md))"
proof -
  obtain d1 w1 where rel: "releaseReservedFunds d w = (d1, w1)" by (cases "releaseReservedFunds d w")
  have d1: "Proposal d1 = Proposal d" using releaseReservedFunds_same [OF rel] by (simp add: sameDeal_def)
  obtain c res where c: "PublishCid d = Some c" "WaitForPublishDeals env c (Proposal d) = Inr res"
    using assms(2,3) by (auto simp: waitForPublish_def failDeal_def split: option.splits sum.splits prod.splits)
  have "saveOrFail env repo (d1\<lparr>DealID := resDealID res, PublishCid := Some (FinalCid res), mdState := StorageDealStaged\<rparr>) w1 = Next d' w'"
    using assms(2,3) c rel by (simp add: waitForPublish_def)
  then have d': "d' = d1\<lparr>DealID := resDealID res, PublishCid := Some (FinalCid res), mdState := StorageDealStaged\<rparr>"
    by (auto simp: saveOrFail_def saveDeal_def failDeal_def split: prod.splits option.splits)
  have "nodeWaitForPublishDeals n c (Proposal d) = Ret (Inr res)" using assms(1) c(2) by (simp add: servedBy_def)
  then obtain receipt key h info where r: "pnWaitMsg n c (2 * MessageConfidence n) (LookbackNoLimit n) = Inr receipt"
    "ExitCode (lkReceipt receipt) = 0" "pnChainHead n = Inr (key, h)"
    "GetCurrentDealInfo (pnInfo n) key (Some (Proposal d)) c = Ret (Inr (info, None))"
    "res = \<lparr>resDealID = cdDealID info, FinalCid = lkMessage receipt\<rparr>"
    by (auto simp: nodeWaitForPublishDeals_def split: sum.splits option.splits if_splits prod.splits outcome.splits)
  obtain md where md: "ciStateMarketStorageDeal (pnInfo n) (cdDealID info) key = Inr md" "sameTerms (pnInfo n) key (Proposal d) (mkProposal md)"
    using currentInfo_terms [OF r(4)] by blast
  show ?thesis using c(1) r md d' d1 by simp
qed

definition demo_publishing :: MinerDeal where
  "demo_publishing = (demo_md ''p1'' 0 128)\<lparr>mdState := StorageDealPublishing\<rparr>"

theorem staged_deal_on_chain_witness:
  "\<exists>d' w' (md :: MarketDeal). waitForPublish demo_aenv demo_repo demo_publishing demo_world = Next d' w' \<and> DealID d' = 8 \<and>
     sameTerms demo_info ''head'' (Proposal d') (mkProposal md)"
proof -
  have "(case waitForPublish demo_aenv demo_repo demo_publishing demo_world of Next d' w' \<Rightarrow> DealID d' = 8 | _ \<Rightarrow> False) = True" by code_simp
  then obtain d' w' where h: "waitForPublish demo_aenv demo_repo demo_publishing demo_world = Next d' w'" "DealID d' = 8"
    by (auto split: stage.splits)
  have p: "mdState demo_publishing = StorageDealPublishing" by (simp add: demo_publishing_def)
  have "pnChainHead demo_node = Inr (''head'', 5)" "pnInfo demo_node = demo_info" by (simp_all add: demo_node_def)
  then show ?thesis using staged_deal_on_chain [OF demo_served p h(1)] h by auto
qed

section \<open>Errors of status requests\<close>

text \<open>A client whose status request fails never gets the error: the response is signed for the undefined address,
  which is no miner, so signing fails and nothing is written.\<close>

theorem status_errors_unanswered:
  assumes "\<And>addr st. SignReply env addr st = Sign n (SignInfo (dumpState st) typ addr)" "\<And>tsk. \<exists>e. pnStateMinerInfo n Undef tsk = Inl e"
    and "processDealStatusRequest env repo r rq = Inl e"
  shows "HandleDealStatusStream env repo r (Inr rq) = None"
proof -
  have "\<exists>x. nodeGetMinerWorkerAddress n Undef tok = Inl x" for tok
  proof (cases "TipSetKeyFromBytes n tok")
    case (Inr tsk)
    obtain x where "pnStateMinerInfo n Undef tsk = Inl x" using assms(2) by blast
    then show ?thesis using Inr by (simp add: nodeGetMinerWorkerAddress_def)
  qed (simp add: nodeGetMinerWorkerAddress_def)
  then have "\<exists>x. signAs n Undef tok b t = Inl x" for tok b t by (metis signAs_def tryE_simps(1))
  then have "\<exists>x. Sign n (SignInfo y typ Undef) = Inl x" for y by (auto simp: Sign_def split: sum.splits)
  then have "\<exists>x. SignReply env Undef (errorDealState env e) = Inl x" using assms(1) by metis
  then show ?thesis using assms(3) by (auto simp: HandleDealStatusStream_def)
qed

definition demo_status_env :: streamEnv where
  "demo_status_env = demo_senv\<lparr>SignReply := (\<lambda>addr st. Sign demo_node (SignInfo (Inr (psMessage st)) ''unknown'' addr))\<rparr>"

theorem status_errors_unanswered_witness:
  "HandleDealStatusStream demo_status_env demo_repo (wRepo demo_w1) (Inr \<lparr>rqProposal = ''p1'', rqSignature = ''forged''\<rparr>) = None \<and>
   HandleDealStatusStream demo_status_env demo_repo (wRepo demo_w1) (Inr \<lparr>rqProposal = ''p1'', rqSignature = ''ok''\<rparr>) \<noteq> None"
proof -
  have 1: "SignReply demo_status_env addr st = Sign demo_node (SignInfo (Inr (psMessage st)) ''unknown'' addr)" for addr st
    by (simp add: demo_status_env_def)
  have 2: "\<exists>e. pnStateMinerInfo demo_node Undef tsk = Inl e" for tsk by (simp add: demo_node_def)
  have "(case processDealStatusRequest demo_status_env demo_repo (wRepo demo_w1) \<lparr>rqProposal = ''p1'', rqSignature = ''forged''\<rparr> of
      Inl _ \<Rightarrow> True | Inr _ \<Rightarrow> False) = True" by code_simp
  then obtain e where 3: "processDealStatusRequest demo_status_env demo_repo (wRepo demo_w1) \<lparr>rqProposal = ''p1'', rqSignature = ''forged''\<rparr> = Inl e"
    by (auto split: sum.splits)
  have "(case HandleDealStatusStream demo_status_env demo_repo (wRepo demo_w1) (Inr \<lparr>rqProposal = ''p1'', rqSignature = ''ok''\<rparr>) of
      Some _ \<Rightarrow> True | None \<Rightarrow> False) = True" by code_simp
  then show ?thesis using status_errors_unanswered [OF 1 2 3] by (auto split: option.splits)
qed

end
