(* ===== verification/Miner_Manager.thy ===== *)
theory Miner_Manager
  imports Market_Prelude
begin

text \<open>
  The addresses the market works for: \<open>src/minermgr/minermgr.go\<close>. The manager keeps a list of users, an address with its
  account, filled from the configuration and refreshed from the authentication service; it only grows. The full node
  and the service are the record \<open>minerEnv\<close>, which may differ at every step.
\<close>

section \<open>Data\<close>

record User =
  usrAddr :: address
  Account :: string

datatype actorCode = AccountActor | StorageMinerActor | OtherActor

record minerActorInfo =
  miOwner :: address
  miWorker :: address
  ControlAddresses :: "address list"

text \<open>A user of the service: whether it is enabled, its name and its miners, as strings.\<close>

record authUser =
  auEnabled :: bool
  auName :: string
  auMiners :: "string list"

record minerEnv =
  hasAuthClient :: bool
  StateGetActor :: "address \<Rightarrow> actorCode res"
  mmStateMinerInfo :: "address \<Rightarrow> minerActorInfo res"
  mmStateAccountKey :: "address \<Rightarrow> address res"
  ListUsersWithMiners :: "int \<Rightarrow> int \<Rightarrow> authUser list res"
  NewFromString :: "string \<Rightarrow> address res"

type_synonym miners = "User list"

section \<open>Reading\<close>

definition ActorAddress :: "miners \<Rightarrow> address list" where
  "ActorAddress miners = map usrAddr miners"

definition ActorList :: "miners \<Rightarrow> User list" where
  "ActorList miners = map (\<lambda>user. \<lparr>usrAddr = usrAddr user, Account = Account user\<rparr>) miners"

definition GetMiners :: "miners \<Rightarrow> User list" where
  "GetMiners miners = miners"

fun Has :: "miners \<Rightarrow> address \<Rightarrow> bool" where
  "Has [] addr = False"
| "Has (miner # miners) addr = (if usrAddr miner = addr then True else Has miners addr)"

text \<open>The loop keeps the account of the last match.\<close>

fun accountLoop :: "string \<Rightarrow> address \<Rightarrow> miners \<Rightarrow> string" where
  "accountLoop account addr [] = account"
| "accountLoop account addr (miner # miners) = accountLoop (if usrAddr miner = addr then Account miner else account) addr miners"

definition GetAccount :: "miners \<Rightarrow> address \<Rightarrow> string res" where
  "GetAccount miners addr =
     (let account = accountLoop [] addr miners in
      if length account = 0 then Inl (ErrMsg ''unable find account of address'') else Inr account)"

section \<open>Adding\<close>

definition appendAddress :: "minerEnv \<Rightarrow> string \<Rightarrow> address \<Rightarrow> miners \<Rightarrow> miners \<times> error option" where
  "appendAddress env account addr miners =
     (let present = (\<lambda>a. a \<in> usrAddr ` set miners) in
      case StateGetActor env addr of
        Inl e \<Rightarrow> (miners, Some e)
      | Inr AccountActor \<Rightarrow>
          (case mmStateAccountKey env addr of
             Inl e \<Rightarrow> (miners, Some e)
           | Inr accountKey \<Rightarrow>
               if \<not> present accountKey then (miners @ [\<lparr>usrAddr = accountKey, Account = account\<rparr>], None) else (miners, None))
      | Inr StorageMinerActor \<Rightarrow>
          if \<not> present addr then (miners @ [\<lparr>usrAddr = addr, Account = account\<rparr>], None) else (miners, None)
      | Inr OtherActor \<Rightarrow> (miners, None))"

fun appendAll :: "minerEnv \<Rightarrow> string \<Rightarrow> address list \<Rightarrow> miners \<Rightarrow> miners \<times> error option" where
  "appendAll env account [] miners = (miners, None)"
| "appendAll env account (a # as) miners =
     (case appendAddress env account a miners of
        (ms, Some e) \<Rightarrow> (ms, Some e)
      | (ms, None) \<Rightarrow> appendAll env account as ms)"

fun addUser :: "minerEnv \<Rightarrow> User list \<Rightarrow> miners \<Rightarrow> miners \<times> error option" where
  "addUser env [] miners = (miners, None)"
| "addUser env (usr # usrs) miners =
     (if usrAddr usr = Undef then addUser env usrs miners
      else
        (case StateGetActor env (usrAddr usr) of
           Inl e \<Rightarrow> (miners, Some e)
         | Inr actor \<Rightarrow>
             (case appendAddress env (Account usr) (usrAddr usr) miners of
                (ms, Some e) \<Rightarrow> (ms, Some e)
              | (ms, None) \<Rightarrow>
                  if actor = StorageMinerActor then
                    (case mmStateMinerInfo env (usrAddr usr) of
                       Inl e \<Rightarrow> (ms, Some e)
                     | Inr info \<Rightarrow>
                         (case appendAll env (Account usr) (miOwner info # miWorker info # ControlAddresses info) ms of
                            (ms', Some e) \<Rightarrow> (ms', Some e)
                          | (ms', None) \<Rightarrow> addUser env usrs ms'))
                  else addUser env usrs ms)))"

section \<open>Refreshing\<close>

definition CoMinersLimit :: int where
  "CoMinersLimit = 200"

fun usersOf :: "minerEnv \<Rightarrow> authUser list \<Rightarrow> User list" where
  "usersOf env [] = []"
| "usersOf env (u # us) =
     (if \<not> auEnabled u then usersOf env us
      else List.map_filter (\<lambda>m. case NewFromString env m of Inl _ \<Rightarrow> None | Inr addr \<Rightarrow> Some \<lparr>usrAddr = addr, Account = auName u\<rparr>) (auMiners u)
           @ usersOf env us)"

definition getMinerFromVenusAuth :: "minerEnv \<Rightarrow> int \<Rightarrow> int \<Rightarrow> User list res" where
  "getMinerFromVenusAuth env skip limit =
     (if \<not> hasAuthClient env then Inr []
      else
        (let limit = (if limit = 0 then CoMinersLimit else limit) in
         case ListUsersWithMiners env skip limit of
           Inl e \<Rightarrow> Inl e
         | Inr usersWithMiners \<Rightarrow> Inr (usersOf env usersWithMiners)))"

definition refreshOnce :: "minerEnv \<Rightarrow> miners \<Rightarrow> miners \<times> error option" where
  "refreshOnce env miners =
     (if \<not> hasAuthClient env then (miners, Some (ErrMsg ''authClient is nil''))
      else
        (case getMinerFromVenusAuth env 0 0 of
           Inl e \<Rightarrow> (miners, Some e)
         | Inr ms \<Rightarrow> addUser env ms miners))"

text \<open>The refresh at every tick, with the environment of that time; errors are logged. The first argument is whether there
  is a client of the service.\<close>

fun refreshLoop :: "minerEnv list \<Rightarrow> miners \<Rightarrow> miners" where
  "refreshLoop [] miners = miners"
| "refreshLoop (env # ticks) miners = refreshLoop ticks (fst (refreshOnce env miners))"

definition refreshUsers :: "bool \<Rightarrow> minerEnv list \<Rightarrow> miners \<Rightarrow> miners" where
  "refreshUsers authClient ticks miners = (if \<not> authClient then miners else refreshLoop ticks miners)"

record minerConfig =
  StorageMiners :: "User list"
  RetrievalPaymentAddress :: User
  DealPublishControl :: "User list"

definition NeAddrMgrImpl :: "minerEnv \<Rightarrow> minerConfig \<Rightarrow> miners res" where
  "NeAddrMgrImpl env cfg =
     (case addUser env (StorageMiners cfg) [] of
        (_, Some e) \<Rightarrow> Inl e
      | (m1, None) \<Rightarrow>
          (case addUser env [RetrievalPaymentAddress cfg] m1 of
             (_, Some e) \<Rightarrow> Inl e
           | (m2, None) \<Rightarrow>
               (case addUser env (DealPublishControl cfg) m2 of
                  (_, Some e) \<Rightarrow> Inl e
                | (m3, None) \<Rightarrow>
                    if hasAuthClient env then
                      (case refreshOnce env m3 of
                         (_, Some e) \<Rightarrow> Inl (ErrWrap ''first refresh users from venus-auth failed'' e)
                       | (m4, None) \<Rightarrow> Inr m4)
                    else Inr m3)))"

section \<open>What the list holds\<close>

text \<open>\<open>grown ms ms'\<close>: addresses were appended, each once.\<close>

definition grown :: "miners \<Rightarrow> miners \<Rightarrow> bool" where
  "grown ms ms' \<longleftrightarrow> (\<exists>new. ms' = ms @ new) \<and> (distinct (map usrAddr ms) \<longrightarrow> distinct (map usrAddr ms'))"

lemma grown_refl [simp]: "grown ms ms"
  by (simp add: grown_def)

lemma grown_trans: "grown ms ms1 \<Longrightarrow> grown ms1 ms2 \<Longrightarrow> grown ms ms2"
  by (auto simp: grown_def)

lemma appendAddress_grown: "grown ms (fst (appendAddress env account addr ms))"
  by (auto simp: grown_def appendAddress_def Let_def split: sum.split actorCode.split)

lemma appendAll_grown: "grown ms (fst (appendAll env account as ms))"
proof (induction as arbitrary: ms)
  case (Cons a as)
  obtain m1 e where a: "appendAddress env account a ms = (m1, e)" by (cases "appendAddress env account a ms")
  have g: "grown ms m1" using appendAddress_grown [of ms env account a] a by simp
  show ?case using a g Cons [of m1] grown_trans by (cases e) auto
qed simp

lemma addUser_grown: "grown ms (fst (addUser env us ms))"
proof (induction us arbitrary: ms)
  case (Cons u us)
  obtain m1 e1 where a: "appendAddress env (Account u) (usrAddr u) ms = (m1, e1)" by (cases "appendAddress env (Account u) (usrAddr u) ms")
  have g1: "grown ms m1" using appendAddress_grown [of ms env "Account u" "usrAddr u"] a by simp
  have info: "grown ms (fst (case appendAll env (Account u) as m1 of (ms', Some e) \<Rightarrow> (ms', Some e) | (ms', None) \<Rightarrow> addUser env us ms'))" for as
  proof -
    obtain m2 e2 where b: "appendAll env (Account u) as m1 = (m2, e2)" by (cases "appendAll env (Account u) as m1")
    have g2: "grown ms m2" using grown_trans [OF g1] appendAll_grown [of m1 env "Account u" as] b by simp
    have g3: "grown ms (fst (addUser env us m2))" by (rule grown_trans [OF g2 Cons])
    show ?thesis using b g2 g3 by (cases e2) simp_all
  qed
  show ?case
  proof (cases "usrAddr u = Undef \<or> e1 \<noteq> None \<or> (\<exists>e. StateGetActor env (usrAddr u) = Inl e)")
    case True
    then show ?thesis using Cons [of ms] a g1 by (auto split: sum.split option.split)
  next
    case False
    then obtain actor where act: "StateGetActor env (usrAddr u) = Inr actor" "e1 = None" "usrAddr u \<noteq> Undef"
      by (cases "StateGetActor env (usrAddr u)") auto
    show ?thesis
    proof (cases "actor = StorageMinerActor")
      case False
      then show ?thesis using act a grown_trans [OF g1 Cons [of m1]] by simp
    next
      case True
      then show ?thesis using act a g1 info by (cases "mmStateMinerInfo env (usrAddr u)") (simp_all del: appendAll.simps)
    qed
  qed
qed simp

lemma refreshOnce_grown: "grown ms (fst (refreshOnce env ms))"
  using addUser_grown by (auto simp: refreshOnce_def split: sum.split)

lemma refreshLoop_grown: "grown ms (refreshLoop ticks ms)"
proof (induction ticks arbitrary: ms)
  case (Cons env ticks)
  then show ?case using grown_trans [OF refreshOnce_grown Cons [of "fst (refreshOnce env ms)"]] by simp
qed simp

lemma refreshUsers_grown: "grown ms (refreshUsers b ticks ms)"
  using refreshLoop_grown by (simp add: refreshUsers_def)

lemma Has_iff: "Has ms a \<longleftrightarrow> a \<in> set (map usrAddr ms)"
  by (induction ms) auto

lemma accountLoop_absent: "a \<notin> usrAddr ` set ms \<Longrightarrow> accountLoop acc a ms = acc"
  by (induction ms arbitrary: acc) auto

lemma accountLoop_distinct:
  "distinct (map usrAddr ms) \<Longrightarrow> u \<in> set ms \<Longrightarrow> accountLoop acc (usrAddr u) ms = Account u"
proof (induction ms arbitrary: acc)
  case (Cons m ms)
  show ?case
  proof (cases "m = u")
    case True
    then show ?thesis using Cons.prems accountLoop_absent [of "usrAddr u" ms] by auto
  next
    case False
    then have "u \<in> set ms" using Cons.prems(2) by simp
    then have "usrAddr m \<noteq> usrAddr u" using Cons.prems(1) by (metis distinct.simps(2) image_eqI list.set_map list.simps(9))
    then show ?thesis using Cons \<open>u \<in> set ms\<close> by simp
  qed
qed simp

lemma NeAddrMgrImpl_distinct: "NeAddrMgrImpl env cfg = Inr ms \<Longrightarrow> distinct (map usrAddr ms)"
proof -
  assume h: "NeAddrMgrImpl env cfg = Inr ms"
  obtain m1 e1 where 1: "addUser env (StorageMiners cfg) [] = (m1, e1)" by (cases "addUser env (StorageMiners cfg) []")
  obtain m2 e2 where 2: "addUser env [RetrievalPaymentAddress cfg] m1 = (m2, e2)" by (cases "addUser env [RetrievalPaymentAddress cfg] m1")
  obtain m3 e3 where 3: "addUser env (DealPublishControl cfg) m2 = (m3, e3)" by (cases "addUser env (DealPublishControl cfg) m2")
  obtain m4 e4 where 4: "refreshOnce env m3 = (m4, e4)" by (cases "refreshOnce env m3")
  have "grown [] m1" "grown m1 m2" "grown m2 m3" "grown m3 m4"
    using addUser_grown [of "[]" env "StorageMiners cfg"] addUser_grown [of m1 env "[RetrievalPaymentAddress cfg]"]
      addUser_grown [of m2 env "DealPublishControl cfg"] refreshOnce_grown [of m3 env] 1 2 3 4 by simp_all
  then have "distinct (map usrAddr m3)" "distinct (map usrAddr m4)" by (auto simp: grown_def)
  moreover have "ms = m3 \<or> ms = m4"
    using h 1 2 3 4 by (auto simp: NeAddrMgrImpl_def simp del: addUser.simps split: option.splits if_splits)
  ultimately show "distinct (map usrAddr ms)" by auto
qed

text \<open>From its creation on, over any number of refreshes with any answers of the node and the service: the manager
  holds every address once; an address it has stays, at the same place and with the same account; \<open>Has\<close> tells exactly
  the addresses it holds; and the account found for a held address is the one it was registered with.\<close>

theorem miner_manager_invariant:
  assumes "NeAddrMgrImpl env cfg = Inr ms" "ms' = refreshUsers (hasAuthClient env) ticks ms"
  shows "distinct (map usrAddr ms') \<and> (\<exists>new. ms' = ms @ new) \<and> (\<forall>a. Has ms' a \<longleftrightarrow> a \<in> set (ActorAddress ms')) \<and>
    (\<forall>u \<in> set ms'. GetAccount ms' (usrAddr u) = (if Account u = [] then Inl (ErrMsg ''unable find account of address'') else Inr (Account u)))"
proof -
  have g: "grown ms ms'" unfolding assms(2) by (rule refreshUsers_grown)
  then have d: "distinct (map usrAddr ms')" using NeAddrMgrImpl_distinct [OF assms(1)] by (simp add: grown_def)
  show ?thesis
    using d g accountLoop_distinct [OF d] by (auto simp: grown_def Has_iff ActorAddress_def GetAccount_def)
qed

definition demo_miners :: minerEnv where
  "demo_miners = \<lparr>hasAuthClient = True, StateGetActor = (\<lambda>a. Inr (if a = ''f01'' then StorageMinerActor else if a = ''f02'' then OtherActor else AccountActor)),
     mmStateMinerInfo = (\<lambda>_. Inr \<lparr>miOwner = ''f02'', miWorker = ''f03'', ControlAddresses = [''f03'', ''f04'']\<rparr>), mmStateAccountKey = (\<lambda>a. Inr (a @ ''k'')),
     ListUsersWithMiners = (\<lambda>_ _. Inr [\<lparr>auEnabled = False, auName = ''off'', auMiners = [''f09'']\<rparr>, \<lparr>auEnabled = True, auName = ''pool'', auMiners = [''f01'']\<rparr>]),
     NewFromString = Inr\<rparr>"

definition demo_mcfg :: minerConfig where
  "demo_mcfg = \<lparr>StorageMiners = [\<lparr>usrAddr = ''f01'', Account = ''conf''\<rparr>], RetrievalPaymentAddress = \<lparr>usrAddr = [], Account = []\<rparr>, DealPublishControl = []\<rparr>"

theorem miner_manager_invariant_witness:
  "\<exists>ms. NeAddrMgrImpl demo_miners demo_mcfg = Inr ms \<and> ActorAddress ms = [''f01'', ''f03k'', ''f04k''] \<and>
     (\<forall>u \<in> set (refreshUsers (hasAuthClient demo_miners) [demo_miners] ms). GetAccount (refreshUsers (hasAuthClient demo_miners) [demo_miners] ms) (usrAddr u) =
        (if Account u = [] then Inl (ErrMsg ''unable find account of address'') else Inr (Account u)))"
proof -
  have "(case NeAddrMgrImpl demo_miners demo_mcfg of Inr ms \<Rightarrow> ActorAddress ms = [''f01'', ''f03k'', ''f04k''] | Inl _ \<Rightarrow> False) = True" by code_simp
  then obtain ms where ms: "NeAddrMgrImpl demo_miners demo_mcfg = Inr ms" "ActorAddress ms = [''f01'', ''f03k'', ''f04k'']"
    by (auto split: sum.splits)
  then show ?thesis using miner_manager_invariant [OF ms(1) refl] by blast
qed

text \<open>The refresh asks for the first 200 users only, so further users never get into the list.\<close>

theorem refreshOnce_first_page:
  assumes "hasAuthClient env" "\<And>n. ListUsersWithMiners env 0 n = Inr (take (nat n) us)"
  shows "refreshOnce env ms = addUser env (usersOf env (take 200 us)) ms"
  using assms by (simp add: refreshOnce_def getMinerFromVenusAuth_def CoMinersLimit_def Let_def)

end
