(* ===== verification/Piece_Storage.thy ===== *)
theory Piece_Storage
  imports Market_Prelude
begin

text \<open>
  Piece storage: the manager of the configured stores (\<open>src/piecestorage/storagemgr.go\<close>), the store in a directory
  (\<open>filestore.go\<close>) and the store in memory (\<open>memstore.go\<close>). The S3 store, a wrapper of the AWS library, is a store like any
  other for the manager. The file system is a map from paths to contents; the errors of its calls are in \<open>fsEnv\<close>. The
  order in which a Go map is traversed and the random choice are arguments.
\<close>

section \<open>Stores\<close>

text \<open>What a reader delivers: the bytes read, and the error that ended it, if any.\<close>

type_synonym reader = "bytes \<times> error option"

definition int64_length :: "bytes \<Rightarrow> int" where
  "int64_length b = int (length b)"

text \<open>The contract of a store: what was saved is there and can be read, and nothing else changes.\<close>

locale piece_store =
  fixes saveTo :: "'s \<Rightarrow> string \<Rightarrow> reader \<Rightarrow> 's \<times> int \<times> error option"
    and has :: "'s \<Rightarrow> string \<Rightarrow> bool res" and readPiece :: "'s \<Rightarrow> string \<Rightarrow> bytes res" and invar :: "'s \<Rightarrow> bool"
  assumes saved_length: "saveTo s i r = (s', n, None) \<Longrightarrow> n = int (length (fst r)) \<and> snd r = None"
    and saved_invar: "invar s \<Longrightarrow> saveTo s i r = (s', n, e) \<Longrightarrow> invar s'"
    and saved_read: "invar s \<Longrightarrow> saveTo s i r = (s', n, None) \<Longrightarrow> readPiece s' i = Inr (fst r)"
    and saved_other: "invar s \<Longrightarrow> saveTo s i r = (s', n, e) \<Longrightarrow> j \<noteq> i \<Longrightarrow> readPiece s' j = readPiece s j"
    and saved_failed: "invar s \<Longrightarrow> saveTo s i r = (s', n, Some x) \<Longrightarrow> readPiece s' i = readPiece s i"
    and read_has: "invar s \<Longrightarrow> readPiece s i = Inr b \<Longrightarrow> has s i = Inr True"
begin

text \<open>A sequence of saves: every piece reads as the last successful save of it.\<close>

definition saveAll :: "'s \<Rightarrow> (string \<times> reader) list \<Rightarrow> 's" where
  "saveAll s ps = foldl (\<lambda>s (i, r). fst (saveTo s i r)) s ps"

lemma saveAll_invar: "invar s \<Longrightarrow> invar (saveAll s ps)"
proof (induction ps arbitrary: s)
  case (Cons p ps)
  then show ?case using saved_invar by (cases p; cases "saveTo s (fst p) (snd p)") (auto simp: saveAll_def)
qed (simp add: saveAll_def)

lemma saveAll_untouched: "invar s \<Longrightarrow> i \<notin> fst ` set ps \<Longrightarrow> readPiece (saveAll s ps) i = readPiece s i"
proof (induction ps arbitrary: s)
  case (Cons p ps)
  obtain j r where p: "p = (j, r)" by (cases p)
  obtain s1 n e where sv: "saveTo s j r = (s1, n, e)" by (metis prod_cases3)
  have "readPiece s1 i = readPiece s i" using saved_other [OF Cons.prems(1) sv] Cons.prems(2) p by auto
  moreover have "readPiece (saveAll s1 ps) i = readPiece s1 i" using Cons saved_invar [OF Cons.prems(1) sv] by simp
  ultimately show ?case using p sv by (simp add: saveAll_def)
qed (simp add: saveAll_def)

lemma last_save_wins:
  assumes "invar s" "saveTo (saveAll s ps) i r = (s1, n, None)" "i \<notin> fst ` set qs"
  shows "readPiece (saveAll s (ps @ (i, r) # qs)) i = Inr (fst r) \<and> has (saveAll s (ps @ (i, r) # qs)) i = Inr True"
proof -
  have i1: "invar (saveAll s ps)" by (rule saveAll_invar [OF assms(1)])
  have s1: "invar s1" by (rule saved_invar [OF i1 assms(2)])
  have eq: "saveAll s (ps @ (i, r) # qs) = saveAll s1 qs" using assms(2) by (simp add: saveAll_def)
  have "readPiece (saveAll s1 qs) i = Inr (fst r)" using saveAll_untouched [OF s1 assms(3)] saved_read [OF i1 assms(2)] by simp
  then show ?thesis using eq read_has saveAll_invar [OF s1] by simp
qed

end

section \<open>The store in memory\<close>

record MemPieceStore =
  memName :: string
  memData :: "(string \<times> bytes) list"
  memAvailable :: "int option"
  RedirectResources :: "(string \<times> bool) list"

definition NewMemPieceStore :: "string \<Rightarrow> int option \<Rightarrow> MemPieceStore" where
  "NewMemPieceStore name status = \<lparr>memName = name, memData = [], memAvailable = status, RedirectResources = []\<rparr>"

definition memSaveTo :: "MemPieceStore \<Rightarrow> string \<Rightarrow> reader \<Rightarrow> MemPieceStore \<times> int \<times> error option" where
  "memSaveTo m resourceId reader =
     (case snd reader of
        Some e \<Rightarrow> (m, 0, Some e)
      | None \<Rightarrow> (m\<lparr>memData := (resourceId, fst reader) # memData m\<rparr>, int64_length (fst reader), None))"

definition memLen :: "MemPieceStore \<Rightarrow> string \<Rightarrow> int res" where
  "memLen m resourceId = (case map_of (memData m) resourceId of Some d \<Rightarrow> Inr (int64_length d) | None \<Rightarrow> Inl (ErrMsg ''unable to find resource''))"

definition memListResourceIds :: "(string list \<Rightarrow> string list) \<Rightarrow> MemPieceStore \<Rightarrow> string list" where
  "memListResourceIds mapOrder m = mapOrder (remdups (map fst (memData m)))"

definition memGetMountReader :: "MemPieceStore \<Rightarrow> string \<Rightarrow> bytes res" where
  "memGetMountReader m resourceId = (case map_of (memData m) resourceId of Some d \<Rightarrow> Inr d | None \<Rightarrow> Inl (ErrMsg ''unable to find resource''))"

definition memHas :: "MemPieceStore \<Rightarrow> string \<Rightarrow> bool res" where
  "memHas m resourceId = Inr (map_of (memData m) resourceId \<noteq> None)"

definition memCanAllocate :: "MemPieceStore \<Rightarrow> int \<Rightarrow> bool" where
  "memCanAllocate m sz = (case memAvailable m of Some available \<Rightarrow> available > sz | None \<Rightarrow> True)"

abbreviation "ErrUnsupportRedirect \<equiv> ErrMsg ''this storage unsupport redirect url''"

definition memGetRedirectUrl :: "MemPieceStore \<Rightarrow> string \<Rightarrow> string res" where
  "memGetRedirectUrl m resourceId =
     (case map_of (RedirectResources m) resourceId of
        Some isRedirect \<Rightarrow> if isRedirect then Inr (''mock redirect resourceId '' @ resourceId) else Inl ErrUnsupportRedirect
      | None \<Rightarrow> Inl ErrUnsupportRedirect)"

interpretation mem: piece_store memSaveTo memHas memGetMountReader "\<lambda>_. True"
  by unfold_locales
    (auto simp: memSaveTo_def memHas_def memGetMountReader_def int64_length_def split: option.splits)

section \<open>The store in a directory\<close>

record fsEnv =
  pathJoin :: "string \<Rightarrow> string \<Rightarrow> string"
  pathBase :: "string \<Rightarrow> string"
  homedirExpand :: "string \<Rightarrow> string res"
  tempName :: "string res"
  mvErr :: "string \<Rightarrow> string \<Rightarrow> error option"
  statErr :: "string \<Rightarrow> error option"
  mkdirErr :: "string \<Rightarrow> error option"
  StatfsAvailable :: "string \<Rightarrow> int res"

record fsPieceStorage =
  baseUrl :: string
  fsReadOnly :: bool
  fsName :: string
  fsFiles :: "string \<rightharpoonup> bytes"
  fsIsDir :: "string \<Rightarrow> bool"

text \<open>\<open>os.Stat\<close>: an error of the system, or what is at the path (\<open>Some True\<close> a directory, \<open>Some False\<close> a file, \<open>None\<close> nothing).\<close>

definition osStat :: "fsEnv \<Rightarrow> fsPieceStorage \<Rightarrow> string \<Rightarrow> bool option res" where
  "osStat env f p =
     (case statErr env p of
        Some e \<Rightarrow> Inl e
      | None \<Rightarrow> Inr (if fsIsDir f p then Some True else if fsFiles f p \<noteq> None then Some False else None))"

definition fsLen :: "fsEnv \<Rightarrow> fsPieceStorage \<Rightarrow> string \<Rightarrow> int res" where
  "fsLen env f resourceId =
     (let p = pathJoin env (baseUrl f) resourceId in
      tryE (osStat env f p) (\<lambda>st.
        case st of
          None \<Rightarrow> Inl ErrNotFound
        | Some True \<Rightarrow> Inl (ErrMsg ''resource expect to be a file but found directory'')
        | Some False \<Rightarrow> Inr (int64_length (the (fsFiles f p)))))"

text \<open>\<open>os.ReadDir\<close> gives the entries of a directory sorted by name, each with whether it is a directory.\<close>

definition fsListResourceIds :: "(string \<Rightarrow> (string \<times> bool) list res) \<Rightarrow> fsPieceStorage \<Rightarrow> string list res" where
  "fsListResourceIds ReadDir f = tryE (ReadDir (baseUrl f)) (\<lambda>entries. Inr (map fst (filter (\<lambda>(_, isDir). \<not> isDir) entries)))"

text \<open>\<open>utils.Move\<close> expands \<open>~\<close> in both paths and runs \<open>mv\<close>, which replaces a file and moves into a directory.\<close>

definition utilsMove :: "fsEnv \<Rightarrow> fsPieceStorage \<Rightarrow> string \<Rightarrow> string \<Rightarrow> fsPieceStorage \<times> error option" where
  "utilsMove env f src dst =
     (case homedirExpand env src of
        Inl e \<Rightarrow> (f, Some (ErrWrap ''move: expanding from'' e))
      | Inr src1 \<Rightarrow>
          (case homedirExpand env dst of
             Inl e \<Rightarrow> (f, Some (ErrWrap ''move: expanding to'' e))
           | Inr dst1 \<Rightarrow>
               (case mvErr env src1 dst1 of
                  Some e \<Rightarrow> (f, Some (ErrWrap ''exec mv'' e))
                | None \<Rightarrow>
                    (let target = (if fsIsDir f dst1 then pathJoin env dst1 (pathBase env src1) else dst1) in
                     (f\<lparr>fsFiles := ((fsFiles f)(src1 := None))(target := fsFiles f src1)\<rparr>, None)))))"

definition fsSaveTo :: "fsEnv \<Rightarrow> fsPieceStorage \<Rightarrow> string \<Rightarrow> reader \<Rightarrow> fsPieceStorage \<times> int \<times> error option" where
  "fsSaveTo env f resourceId r =
     (if fsReadOnly f then (f, 0, Some (ErrMsg ''do not write to a 'readonly' piece store''))
      else
        (let dstPath = pathJoin env (baseUrl f) resourceId in
         case tempName env of
           Inl e \<Rightarrow> (f, 0, Some e)
         | Inr tmp \<Rightarrow>
             (let f1 = f\<lparr>fsFiles := (fsFiles f)(tmp \<mapsto> fst r)\<rparr> in
              case snd r of
                Some e \<Rightarrow> (f1, -1, Some (ErrWrap ''unable to write file'' e))
              | None \<Rightarrow> (let (f2, err) = utilsMove env f1 tmp dstPath in (f2, int64_length (fst r), err)))))"

text \<open>Opening a file and reading it to the end; a directory opens, but cannot be read.\<close>

definition fsGetReaderCloser :: "fsEnv \<Rightarrow> fsPieceStorage \<Rightarrow> string \<Rightarrow> bytes res" where
  "fsGetReaderCloser env f resourceId =
     (let dstPath = pathJoin env (baseUrl f) resourceId in
      case statErr env dstPath of
        Some e \<Rightarrow> Inl (ErrWrap ''unable to open file'' e)
      | None \<Rightarrow>
          if fsIsDir f dstPath then Inl (ErrMsg ''is a directory'')
          else (case fsFiles f dstPath of None \<Rightarrow> Inl (ErrWrap ''unable to open file'' ErrNotFound) | Some d \<Rightarrow> Inr d))"

definition fsGetRedirectUrl :: "fsPieceStorage \<Rightarrow> string \<Rightarrow> string res" where
  "fsGetRedirectUrl f resourceId = Inl ErrUnsupportRedirect"

definition fsHas :: "fsEnv \<Rightarrow> fsPieceStorage \<Rightarrow> string \<Rightarrow> bool res" where
  "fsHas env f resourceId = tryE (osStat env f (pathJoin env (baseUrl f) resourceId)) (\<lambda>st. Inr (st \<noteq> None))"

definition fsValidate :: "fsEnv \<Rightarrow> fsPieceStorage \<Rightarrow> fsPieceStorage \<times> error option" where
  "fsValidate env f =
     (case osStat env f (baseUrl f) of
        Inl e \<Rightarrow> (f, Some e)
      | Inr None \<Rightarrow>
          (case mkdirErr env (baseUrl f) of
             Some e \<Rightarrow> (f, Some e)
           | None \<Rightarrow> (f\<lparr>fsIsDir := (fsIsDir f)(baseUrl f := True)\<rparr>, None))
      | Inr (Some True) \<Rightarrow> (f, None)
      | Inr (Some False) \<Rightarrow> (f, Some (ErrMsg ''expect a directory but got file'')))"

definition fsCanAllocate :: "fsEnv \<Rightarrow> fsPieceStorage \<Rightarrow> int \<Rightarrow> bool" where
  "fsCanAllocate env f sz = (case StatfsAvailable env (baseUrl f) of Inl _ \<Rightarrow> False | Inr available \<Rightarrow> available > sz)"

definition NewFsPieceStorage :: "fsEnv \<Rightarrow> fsPieceStorage \<Rightarrow> fsPieceStorage res" where
  "NewFsPieceStorage env fs = (case fsValidate env fs of (_, Some e) \<Rightarrow> Inl e | (fs1, None) \<Rightarrow> Inr fs1)"

text \<open>In a file system that can be read, where different pieces have different paths, no path of a piece is a directory or
  changed by the expansion of \<open>~\<close>, and temporary files are elsewhere, the directory is a store. Creating, writing and moving files may
  fail.\<close>

definition fsWf :: "fsEnv \<Rightarrow> string \<Rightarrow> fsPieceStorage \<Rightarrow> bool" where
  "fsWf env base f \<longleftrightarrow> baseUrl f = base \<and> (\<forall>i. \<not> fsIsDir f (pathJoin env base i))"

locale fs_store =
  fixes env :: fsEnv and base :: string
  assumes join_inj: "pathJoin env base i = pathJoin env base j \<Longrightarrow> i = j"
    and temp_apart: "tempName env = Inr tmp \<Longrightarrow> pathJoin env base i \<noteq> tmp"
    and temp_expand: "tempName env = Inr tmp \<Longrightarrow> homedirExpand env tmp = Inr tmp"
    and join_expand: "homedirExpand env (pathJoin env base i) = Inr (pathJoin env base i)"
    and stat_ok: "statErr env p = None"
begin

lemma save_cases:
  assumes "fsSaveTo env f i r = (f', n, e)" "fsWf env base f"
  shows "fsWf env base f' \<and> (e = None \<longrightarrow> n = int (length (fst r)) \<and> snd r = None \<and> fsFiles f' (pathJoin env base i) = Some (fst r)) \<and>
    (\<forall>j. j \<noteq> i \<or> e \<noteq> None \<longrightarrow> fsFiles f' (pathJoin env base j) = fsFiles f (pathJoin env base j))"
proof (cases "fsReadOnly f")
  case True
  then show ?thesis using assms by (auto simp: fsSaveTo_def)
next
  case False
  show ?thesis
  proof (cases "tempName env")
    case (Inl x)
    then show ?thesis using assms False by (auto simp: fsSaveTo_def)
  next
    case (Inr tmp)
    have t: "pathJoin env base j \<noteq> tmp" "tmp \<noteq> pathJoin env base j" for j using temp_apart [OF Inr] by auto
    have j: "pathJoin env base j = pathJoin env base i \<longleftrightarrow> j = i" for j using join_inj by blast
    show ?thesis using assms False Inr t j temp_expand [OF Inr] join_expand
      by (auto simp: fsSaveTo_def utilsMove_def fsWf_def Let_def int64_length_def split: option.splits)
  qed
qed

lemma read_wf:
  assumes "fsWf env base f"
  shows "fsGetReaderCloser env f i =
    (case fsFiles f (pathJoin env base i) of None \<Rightarrow> Inl (ErrWrap ''unable to open file'' ErrNotFound) | Some d \<Rightarrow> Inr d)"
  using assms stat_ok by (simp add: fsGetReaderCloser_def Let_def fsWf_def)

end

sublocale fs_store \<subseteq> store: piece_store "fsSaveTo env" "fsHas env" "fsGetReaderCloser env" "fsWf env base"
proof unfold_locales
  fix s s' :: fsPieceStorage and i j r n e
  show "n = int (length (fst r)) \<and> snd r = None" if "fsSaveTo env s i r = (s', n, None)"
    using that by (auto simp: fsSaveTo_def Let_def int64_length_def split: if_splits sum.splits option.splits prod.splits)
  show "fsWf env base s'" if "fsWf env base s" "fsSaveTo env s i r = (s', n, e)" using save_cases [OF that(2,1)] by blast
  show "fsGetReaderCloser env s' i = Inr (fst r)" if "fsWf env base s" "fsSaveTo env s i r = (s', n, None)"
    using save_cases [OF that(2,1)] read_wf by simp
  show "fsGetReaderCloser env s' j = fsGetReaderCloser env s j" if "fsWf env base s" "fsSaveTo env s i r = (s', n, e)" "j \<noteq> i"
    using save_cases [OF that(2,1)] read_wf that by simp
  show "fsGetReaderCloser env s' i = fsGetReaderCloser env s i" if "fsWf env base s" "fsSaveTo env s i r = (s', n, Some x)" for x
    using save_cases [OF that(2,1)] read_wf that by simp
  show "fsHas env s i = Inr True" if "fsWf env base s" "fsGetReaderCloser env s i = Inr b" for b
    using that read_wf stat_ok by (auto simp: fsHas_def osStat_def fsWf_def split: option.splits)
qed

context fs_store begin

lemmas dir_store = store.piece_store_axioms

end

text \<open>A directory \<open>/pieces\<close> with temporary files elsewhere.\<close>

definition std_fs :: fsEnv where
  "std_fs = \<lparr>pathJoin = (\<lambda>b i. b @ ''/'' @ i), pathBase = (\<lambda>p. p), homedirExpand = Inr, tempName = Inr ''tmp'', mvErr = (\<lambda>_ _. None),
     statErr = (\<lambda>_. None), mkdirErr = (\<lambda>_. None), StatfsAvailable = (\<lambda>_. Inr 1000)\<rparr>"

interpretation stdfs: fs_store std_fs "''/pieces''"
  by unfold_locales (auto simp: std_fs_def)

section \<open>The manager\<close>

text \<open>What the manager uses of a store.\<close>

record 'p storageOps =
  stHas :: "'p \<Rightarrow> string \<Rightarrow> bool res"
  stReadOnly :: "'p \<Rightarrow> bool"
  stCanAllocate :: "'p \<Rightarrow> int \<Rightarrow> bool"
  stGetName :: "'p \<Rightarrow> string"

type_synonym 'p storages = "(string \<times> 'p) list"

definition addStorages :: "string \<Rightarrow> (string \<times> 'p res) list \<Rightarrow> 'p storages \<Rightarrow> 'p storages res" where
  "addStorages emptyName cfgs storages0 =
     foldl (\<lambda>acc (name, created). tryE acc (\<lambda>storages.
        if name = [] then Inl (ErrMsg emptyName)
        else if map_of storages name \<noteq> None then Inl (ErrMsg ''duplicate storage name'')
        else (case created of
                Inl e \<Rightarrow> Inl (ErrWrap ''unable to create piece storage'' e)
              | Inr st \<Rightarrow> Inr ((name, st) # storages)))) (Inr storages0) cfgs"

definition NewPieceStorageManager :: "(string \<times> 'p res) list \<Rightarrow> (string \<times> 'p res) list \<Rightarrow> 'p storages res" where
  "NewPieceStorageManager cfgFs cfgS3 =
     tryE (addStorages ''fs piece storage name is empty'' cfgFs []) (addStorages ''s3 pieceStorage name is empty'' cfgS3)"

definition randStorageSelector :: "(nat \<Rightarrow> nat) \<Rightarrow> 'p list \<Rightarrow> 'p res" where
  "randStorageSelector Intn storages =
     (case storages of
        [] \<Rightarrow> Inl (ErrMsg ''given storages is zero'')
      | [st] \<Rightarrow> Inr st
      | _ \<Rightarrow> Inr (storages ! Intn (length storages)))"

definition FindStorageForRead :: "'p storageOps \<Rightarrow> (nat \<Rightarrow> nat) \<Rightarrow> 'p storages \<Rightarrow> string \<Rightarrow> 'p res" where
  "FindStorageForRead ops Intn storages s =
     (let found = filter (\<lambda>st. case stHas ops st s of Inl _ \<Rightarrow> False | Inr b \<Rightarrow> b) (map snd storages) in
      if found = [] then Inl (ErrMsg ''unable to find piece in storage'') else randStorageSelector Intn found)"

definition FindStorageForWrite :: "'p storageOps \<Rightarrow> (nat \<Rightarrow> nat) \<Rightarrow> 'p storages \<Rightarrow> int \<Rightarrow> 'p res" where
  "FindStorageForWrite ops Intn storages sz =
     (let found = filter (\<lambda>st. \<not> stReadOnly ops st \<and> stCanAllocate ops st sz) (map snd storages) in
      if found = [] then Inl (ErrMsg ''unable to find enough space for size'') else randStorageSelector Intn found)"

definition GetPieceStorageByName :: "'p storages \<Rightarrow> string \<Rightarrow> 'p res" where
  "GetPieceStorageByName storages name =
     (case map_of storages name of Some st \<Rightarrow> Inr st | None \<Rightarrow> Inl (ErrMsg ''storage not exit please check config''))"

definition putStorage :: "string \<Rightarrow> 'p \<Rightarrow> 'p storages \<Rightarrow> 'p storages" where
  "putStorage name st storages = (name, st) # filter (\<lambda>(n, _). n \<noteq> name) storages"

definition AddMemPieceStorage :: "'p storageOps \<Rightarrow> 'p \<Rightarrow> 'p storages \<Rightarrow> 'p storages" where
  "AddMemPieceStorage ops st storages = putStorage (stGetName ops st) st storages"

definition AddPieceStorage :: "'p storageOps \<Rightarrow> 'p \<Rightarrow> 'p storages \<Rightarrow> 'p storages \<times> error option" where
  "AddPieceStorage ops st storages =
     (if map_of storages (stGetName ops st) \<noteq> None then (storages, Some (ErrMsg ''duplicate storage name''))
      else (putStorage (stGetName ops st) st storages, None))"

definition RemovePieceStorage :: "string \<Rightarrow> 'p storages \<Rightarrow> 'p storages \<times> error option" where
  "RemovePieceStorage name storages =
     (if map_of storages name = None then (storages, Some (ErrMsg ''storage not exist''))
      else (filter (\<lambda>(n, _). n \<noteq> name) storages, None))"

datatype storageType = S3 | FS | MemStore

record storageInfo =
  infoName :: string
  infoPath :: string
  infoReadOnly :: bool

text \<open>The infos of the stores in a directory and of those at an S3 end point (whose \<open>infoPath\<close> is the end point).\<close>

definition ListStorageInfos :: "('p \<Rightarrow> storageType) \<Rightarrow> ('p \<Rightarrow> storageInfo) \<Rightarrow> 'p storages \<Rightarrow> storageInfo list \<times> storageInfo list" where
  "ListStorageInfos stType stCfg storages =
     foldl (\<lambda>(fs, s3) st. case stType st of S3 \<Rightarrow> (fs, s3 @ [stCfg st]) | FS \<Rightarrow> (fs @ [stCfg st], s3) | MemStore \<Rightarrow> (fs, s3)) ([], []) (map snd storages)"

section \<open>What the manager finds\<close>

lemma randStorageSelector_in:
  assumes "xs \<noteq> []" "\<And>n. 0 < n \<Longrightarrow> Intn n < n"
  shows "\<exists>x \<in> set xs. randStorageSelector Intn xs = Inr x"
proof (cases xs)
  case (Cons y ys)
  show ?thesis
  proof (cases ys)
    case (Cons z zs)
    have "Intn (length xs) < length xs" using assms by simp
    then have "xs ! Intn (length xs) \<in> set xs" by simp
    then show ?thesis using Cons \<open>xs = y # ys\<close> by (simp add: randStorageSelector_def)
  qed (use Cons in \<open>simp add: randStorageSelector_def\<close>)
qed (use assms in simp)

lemma found_selected:
  assumes "\<And>n. 0 < n \<Longrightarrow> Intn n < n" "(if filter P (map snd ss) = [] then Inl e else randStorageSelector Intn (filter P (map snd ss))) = r"
  shows "case r of Inr st \<Rightarrow> (\<exists>name. (name, st) \<in> set ss) \<and> P st | Inl _ \<Rightarrow> \<forall>(name, st) \<in> set ss. \<not> P st"
proof (cases "filter P (map snd ss) = []")
  case True
  then have "r = Inl e" using assms(2) by simp
  moreover have "\<forall>(name, st) \<in> set ss. \<not> P st" using True by (auto simp: filter_empty_conv)
  ultimately show ?thesis by simp
next
  case False
  then show ?thesis using randStorageSelector_in [OF False assms(1)] assms(2) by fastforce
qed

text \<open>Finding a store: for reading, the result is a store of the manager that has the piece, for writing one that
  may be written and has the space; an error means that no store qualifies (a store that fails to answer does not).\<close>

theorem FindStorage_qualifies:
  assumes "\<And>n. 0 < n \<Longrightarrow> Intn n < n"
  shows "(case FindStorageForRead ops Intn ss s of
        Inr st \<Rightarrow> (\<exists>name. (name, st) \<in> set ss) \<and> stHas ops st s = Inr True
      | Inl _ \<Rightarrow> \<forall>(name, st) \<in> set ss. stHas ops st s \<noteq> Inr True) \<and>
    (case FindStorageForWrite ops Intn ss sz of
        Inr st \<Rightarrow> (\<exists>name. (name, st) \<in> set ss) \<and> \<not> stReadOnly ops st \<and> stCanAllocate ops st sz
      | Inl _ \<Rightarrow> \<forall>(name, st) \<in> set ss. stReadOnly ops st \<or> \<not> stCanAllocate ops st sz)"
proof -
  have h: "(case stHas ops st s of Inl _ \<Rightarrow> False | Inr b \<Rightarrow> b) \<longleftrightarrow> stHas ops st s = Inr True" for st
    by (cases "stHas ops st s") auto
  have r: "case FindStorageForRead ops Intn ss s of
        Inr st \<Rightarrow> (\<exists>name. (name, st) \<in> set ss) \<and> stHas ops st s = Inr True
      | Inl _ \<Rightarrow> \<forall>(name, st) \<in> set ss. stHas ops st s \<noteq> Inr True"
    using found_selected [of Intn "\<lambda>st. stHas ops st s = Inr True" ss _ "FindStorageForRead ops Intn ss s", OF assms]
    unfolding FindStorageForRead_def Let_def h by blast
  have "case FindStorageForWrite ops Intn ss sz of
        Inr st \<Rightarrow> (\<exists>name. (name, st) \<in> set ss) \<and> (\<not> stReadOnly ops st \<and> stCanAllocate ops st sz)
      | Inl _ \<Rightarrow> \<forall>(name, st) \<in> set ss. \<not> (\<not> stReadOnly ops st \<and> stCanAllocate ops st sz)"
    using found_selected [of Intn "\<lambda>st. \<not> stReadOnly ops st \<and> stCanAllocate ops st sz" ss _ "FindStorageForWrite ops Intn ss sz", OF assms]
    unfolding FindStorageForWrite_def Let_def by blast
  then show ?thesis using r by (auto split: sum.splits)
qed

definition mem_ops :: "MemPieceStore storageOps" where
  "mem_ops = \<lparr>stHas = memHas, stReadOnly = (\<lambda>_. False), stCanAllocate = memCanAllocate, stGetName = memName\<rparr>"

definition demo_stores :: "MemPieceStore storages" where
  "demo_stores = [(''a'', \<lparr>memName = ''a'', memData = [], memAvailable = Some 2, RedirectResources = []\<rparr>), (''b'', \<lparr>memName = ''b'', memData = [(''baga'', ''data'')], memAvailable = None, RedirectResources = []\<rparr>)]"

theorem FindStorage_qualifies_witness:
  "FindStorageForRead mem_ops (\<lambda>_. 0) demo_stores ''baga'' = Inr \<lparr>memName = ''b'', memData = [(''baga'', ''data'')], memAvailable = None, RedirectResources = []\<rparr> \<and>
   stHas mem_ops \<lparr>memName = ''b'', memData = [(''baga'', ''data'')], memAvailable = None, RedirectResources = []\<rparr> ''baga'' = Inr True"
proof -
  have r: "FindStorageForRead mem_ops (\<lambda>_. 0) demo_stores ''baga'' = Inr \<lparr>memName = ''b'', memData = [(''baga'', ''data'')], memAvailable = None, RedirectResources = []\<rparr>"
    by code_simp
  show ?thesis using r FindStorage_qualifies [where Intn = "\<lambda>_. 0" and ops = mem_ops and ss = demo_stores and s = "''baga''"] by simp
qed

text \<open>A piece that was saved is read back from a directory: after any sequence of saves, successful or not, a
  piece saved successfully and not saved again has the content of its last save, and \<open>Has\<close> finds it.\<close>

theorem saved_piece_roundtrip:
  assumes "fs_store env base" "fsWf env base f"
    and "fsSaveTo env (foldl (\<lambda>f (i, r). fst (fsSaveTo env f i r)) f ps) i r = (f1, n, None)" "i \<notin> fst ` set qs"
  shows "fsGetReaderCloser env (foldl (\<lambda>f (i, r). fst (fsSaveTo env f i r)) f (ps @ (i, r) # qs)) i = Inr (fst r) \<and>
    fsHas env (foldl (\<lambda>f (i, r). fst (fsSaveTo env f i r)) f (ps @ (i, r) # qs)) i = Inr True \<and> n = int (length (fst r))"
proof -
  note store = fs_store.dir_store [OF assms(1)]
  note d = piece_store.saveAll_def [OF store]
  have "n = int (length (fst r))" using piece_store.saved_length [OF store assms(3)] by blast
  then show ?thesis using piece_store.last_save_wins [OF store assms(2), unfolded d, OF assms(3,4)] by blast
qed

text \<open>An empty directory.\<close>

definition demo_fs :: fsPieceStorage where
  "demo_fs = \<lparr>baseUrl = ''/pieces'', fsReadOnly = False, fsName = ''fs'', fsFiles = (\<lambda>_. None), fsIsDir = (\<lambda>p. p = ''/pieces'')\<rparr>"

theorem saved_piece_roundtrip_witness:
  "fsGetReaderCloser std_fs (fst (fsSaveTo std_fs (fst (fsSaveTo std_fs demo_fs ''baga'' (''old'', None))) ''baga'' (''new'', None))) ''baga'' = Inr ''new''"
proof -
  have wf: "fsWf std_fs ''/pieces'' demo_fs" by (simp add: fsWf_def demo_fs_def std_fs_def)
  have "\<exists>f1 n. fsSaveTo std_fs (foldl (\<lambda>f (i, r). fst (fsSaveTo std_fs f i r)) demo_fs [(''baga'', (''old'', None))]) ''baga'' (''new'', None) = (f1, n, None)"
    by (simp add: fsSaveTo_def utilsMove_def std_fs_def demo_fs_def Let_def)
  then obtain f1 n where sv: "fsSaveTo std_fs (foldl (\<lambda>f (i, r). fst (fsSaveTo std_fs f i r)) demo_fs [(''baga'', (''old'', None))]) ''baga'' (''new'', None) = (f1, n, None)"
    by blast
  show ?thesis using saved_piece_roundtrip [OF stdfs.fs_store_axioms wf sv, of "[]"] by simp
qed

end
