(* ===== verification/S3_Storage.thy ===== *)
theory S3_Storage
  imports Piece_Storage
begin

text \<open>
  The piece store in an S3 bucket (\<open>src/piecestorage/s3.go\<close>) with the counting reader it uploads from
  (\<open>src/utils/counter_reader.go\<close>) and the reader it mounts (\<open>seekWraper\<close>). The AWS client is a record of its calls, the bodies
  of its answers are byte strings, and \<open>bodyRead\<close> is one call of \<open>Read\<close> on such a body. Offsets are taken not to overflow
  \<open>int64\<close>.
\<close>

section \<open>Readers\<close>

text \<open>How a reader ends, and a Go reader: its answers without an error, then an answer with data and an error.\<close>

datatype readEnd = EOF | Failed error

type_synonym goReader = "bytes list \<times> bytes \<times> readEnd"

text \<open>A consumer takes the data of every answer, that of the last one too.\<close>

definition drain :: "goReader \<Rightarrow> bytes \<times> readEnd" where
  "drain r = (case r of (bs, b, e) \<Rightarrow> (concat bs @ b, e))"

text \<open>\<open>CounterBufferReader.Read\<close>.\<close>

definition counterRead :: "int \<Rightarrow> bytes \<times> readEnd option \<Rightarrow> (bytes \<times> readEnd option) \<times> int" where
  "counterRead c ans = (case snd ans of Some e \<Rightarrow> (([], Some e), c) | None \<Rightarrow> ((fst ans, None), c + int (length (fst ans))))"

fun countReads :: "int \<Rightarrow> bytes list \<Rightarrow> bytes list \<times> int" where
  "countReads c [] = ([], c)"
| "countReads c (b # bs) = (let (ans, c1) = counterRead c (b, None); (bs1, c2) = countReads c1 bs in (fst ans # bs1, c2))"

definition counted :: "goReader \<Rightarrow> goReader \<times> int" where
  "counted r = (case r of (bs, b, e) \<Rightarrow>
     let (bs1, c) = countReads 0 bs; (ans, c1) = counterRead c (b, Some e) in ((bs1, fst ans, e), c1))"

section \<open>The client\<close>

datatype awsError = AwsCode string | AwsOther error

record url =
  urlHost :: string
  urlPath :: string
  urlRest :: string

record 's s3Client =
  Upload :: "'s \<Rightarrow> string \<Rightarrow> string \<Rightarrow> bytes \<times> readEnd \<Rightarrow> 's \<times> error option"
  GetObject :: "'s \<Rightarrow> string \<Rightarrow> string \<Rightarrow> (int \<times> int) option \<Rightarrow> bytes res"
  HeadObject :: "'s \<Rightarrow> string \<Rightarrow> string \<Rightarrow> awsError + unit"
  ListObjectsV2 :: "'s \<Rightarrow> string \<Rightarrow> (string \<times> int option) list res"
  GetBucketAcl :: "'s \<Rightarrow> string \<Rightarrow> error option"
  PresignGet :: "'s \<Rightarrow> string \<Rightarrow> string \<Rightarrow> string res"

record s3PieceStorage =
  s3Bucket :: string
  s3ReadOnly :: bool
  s3Name :: string

section \<open>Configuration\<close>

text \<open>\<open>strings.Split\<close> at a character and \<open>strings.Trim\<close> of a character.\<close>

fun stringsSplit :: "char \<Rightarrow> string \<Rightarrow> string list" where
  "stringsSplit c [] = [[]]"
| "stringsSplit c (x # xs) =
     (if x = c then [] # stringsSplit c xs
      else (case stringsSplit c xs of [] \<Rightarrow> [[x]] | w # ws \<Rightarrow> (x # w) # ws))"

definition stringsTrim :: "char \<Rightarrow> string \<Rightarrow> string" where
  "stringsTrim c s = rev (dropWhile (\<lambda>x. x = c) (rev (dropWhile (\<lambda>x. x = c) s)))"

definition parseS3Endpoint :: "(string \<Rightarrow> url res) \<Rightarrow> (url \<Rightarrow> string) \<Rightarrow> string \<Rightarrow> (string \<times> string \<times> string) res" where
  "parseS3Endpoint urlParse urlString endPoint =
     (case urlParse endPoint of
        Inl e \<Rightarrow> Inl (ErrWrap ''parser s3 endpoint'' e)
      | Inr endPointUrl \<Rightarrow>
          (let hostSeq = stringsSplit (CHR ''.'') (urlHost endPointUrl) in
           if length hostSeq < 2 then Inl (ErrMsg ''must specify region in host'')
           else if urlPath endPointUrl = [] then Inl (ErrMsg ''must append bucket in endpoint'')
           else Inr (urlString (endPointUrl\<lparr>urlPath := []\<rparr>), hostSeq ! 0, stringsTrim (CHR ''/'') (urlPath endPointUrl))))"

definition newS3PieceStorage :: "(string \<Rightarrow> url res) \<Rightarrow> (url \<Rightarrow> string) \<Rightarrow> string \<Rightarrow> bool \<Rightarrow> string \<Rightarrow> (s3PieceStorage \<times> string \<times> string) res" where
  "newS3PieceStorage urlParse urlString name readOnly endPoint =
     tryE (parseS3Endpoint urlParse urlString endPoint) (\<lambda>(endpoint, region, bucket).
       Inr (\<lparr>s3Bucket = bucket, s3ReadOnly = readOnly, s3Name = name\<rparr>, endpoint, region))"

section \<open>Operations\<close>

definition s3SaveTo :: "'s s3Client \<Rightarrow> s3PieceStorage \<Rightarrow> 's \<Rightarrow> string \<Rightarrow> goReader \<Rightarrow> 's \<times> int \<times> error option" where
  "s3SaveTo cl st s resourceId r =
     (if s3ReadOnly st then (s, 0, Some (ErrMsg ''do not write to a 'readonly' piece store''))
      else
        (let (countReader, count) = counted r in
         case Upload cl s (s3Bucket st) resourceId (drain countReader) of
           (s1, Some e) \<Rightarrow> (s1, 0, Some e)
         | (s1, None) \<Rightarrow> (s1, count, None)))"

definition s3Len :: "'s s3Client \<Rightarrow> s3PieceStorage \<Rightarrow> 's \<Rightarrow> string \<Rightarrow> int res" where
  "s3Len cl st s piececid = tryE (GetObject cl s (s3Bucket st) piececid None) (\<lambda>body. Inr (int (length body)))"

text \<open>\<open>name[len(name)-1]\<close> panics on an empty name.\<close>

fun listPieces :: "(string \<times> int option) list \<Rightarrow> string list outcome" where
  "listPieces [] = Ret []"
| "listPieces ((name, sz) # objs) =
     (if name = [] then Panic ''index out of range''
      else (case listPieces objs of
              Panic m \<Rightarrow> Panic m
            | Ret pieces \<Rightarrow> Ret (if last name \<noteq> CHR ''/'' \<and> sz \<noteq> None \<and> sz \<noteq> Some 0 then name # pieces else pieces)))"

definition s3ListResourceIds :: "'s s3Client \<Rightarrow> s3PieceStorage \<Rightarrow> 's \<Rightarrow> string list res outcome" where
  "s3ListResourceIds cl st s =
     (case ListObjectsV2 cl s (s3Bucket st) of
        Inl e \<Rightarrow> Ret (Inl e)
      | Inr objs \<Rightarrow> (case listPieces objs of Panic m \<Rightarrow> Panic m | Ret pieces \<Rightarrow> Ret (Inr pieces)))"

definition s3GetReaderCloser :: "'s s3Client \<Rightarrow> s3PieceStorage \<Rightarrow> 's \<Rightarrow> string \<Rightarrow> bytes res" where
  "s3GetReaderCloser cl st s resourceId = GetObject cl s (s3Bucket st) resourceId None"

definition s3Has :: "'s s3Client \<Rightarrow> s3PieceStorage \<Rightarrow> 's \<Rightarrow> string \<Rightarrow> bool res" where
  "s3Has cl st s piececid =
     (case HeadObject cl s (s3Bucket st) piececid of
        Inl (AwsCode c) \<Rightarrow> if c = ''NotFound'' then Inr False else Inl (ErrApi c)
      | Inl (AwsOther e) \<Rightarrow> Inl e
      | Inr _ \<Rightarrow> Inr True)"

definition s3GetRedirectUrl :: "'s s3Client \<Rightarrow> s3PieceStorage \<Rightarrow> 's \<Rightarrow> string \<Rightarrow> string res" where
  "s3GetRedirectUrl cl st s resourceId =
     (case s3Has cl st s resourceId of
        Inl e \<Rightarrow> Inl (ErrWrap ''check object exist error'' e)
      | Inr False \<Rightarrow> Inl (ErrMsg ''object not exists'')
      | Inr True \<Rightarrow> PresignGet cl s (s3Bucket st) resourceId)"

definition s3CanAllocate :: "s3PieceStorage \<Rightarrow> int \<Rightarrow> bool" where
  "s3CanAllocate st sz = True"

definition s3Validate :: "'s s3Client \<Rightarrow> s3PieceStorage \<Rightarrow> 's \<Rightarrow> error option" where
  "s3Validate cl st s = GetBucketAcl cl s (s3Bucket st)"

section \<open>The mounted reader\<close>

record seekWraper =
  swBucket :: string
  swResourceId :: string
  swLen :: int
  swOffset :: int

definition newSeekWraper :: "string \<Rightarrow> string \<Rightarrow> int \<Rightarrow> seekWraper" where
  "newSeekWraper bucket resourceId len = \<lparr>swBucket = bucket, swResourceId = resourceId, swLen = len, swOffset = 0\<rparr>"

definition s3GetMountReader :: "'s s3Client \<Rightarrow> s3PieceStorage \<Rightarrow> 's \<Rightarrow> string \<Rightarrow> seekWraper res" where
  "s3GetMountReader cl st s resourceId = tryE (s3Len cl st s resourceId) (\<lambda>len. Inr (newSeekWraper (s3Bucket st) resourceId (len - 1)))"

text \<open>A read into a buffer of \<open>k\<close> bytes: the reader afterwards, the bytes counted as read and the error.\<close>

definition swRead :: "'s s3Client \<Rightarrow> (bytes \<Rightarrow> nat \<Rightarrow> bytes \<times> readEnd option) \<Rightarrow> 's \<Rightarrow> nat \<Rightarrow> seekWraper \<Rightarrow> seekWraper \<times> bytes \<times> readEnd option" where
  "swRead cl bodyRead s k sw =
     (case GetObject cl s (swBucket sw) (swResourceId sw) (Some (swOffset sw, swOffset sw + int k)) of
        Inl e \<Rightarrow> (sw, [], Some (Failed e))
      | Inr body \<Rightarrow>
          (case bodyRead body k of
             (_, Some e) \<Rightarrow> (sw, [], Some e)
           | (b, None) \<Rightarrow> (sw\<lparr>swOffset := swOffset sw + int (length b)\<rparr>, b, None)))"

datatype whence = SeekStart | SeekCurrent | SeekEnd

definition swSeek :: "int \<Rightarrow> whence \<Rightarrow> seekWraper \<Rightarrow> seekWraper \<times> int res" where
  "swSeek offset whence sw =
     (if whence \<noteq> SeekStart then (sw, Inl (ErrMsg ''only support seek from start for oss''))
      else (sw\<lparr>swOffset := offset\<rparr>, Inr offset))"

text \<open>\<open>io.ReadFull\<close> into a buffer of \<open>k\<close> bytes.\<close>

definition ioReadFull :: "nat \<Rightarrow> bytes \<Rightarrow> bytes \<times> readEnd option" where
  "ioReadFull k body =
     (if k \<le> length body then (take k body, None)
      else if body = [] then ([], Some EOF) else (body, Some (Failed (ErrMsg ''unexpected EOF''))))"

definition swReadAt :: "'s s3Client \<Rightarrow> 's \<Rightarrow> nat \<Rightarrow> int \<Rightarrow> seekWraper \<Rightarrow> bytes \<times> readEnd option" where
  "swReadAt cl s k off sw =
     (let maxLen = (if off + int k > swLen sw then swLen sw else off + int k) in
      case GetObject cl s (swBucket sw) (swResourceId sw) (Some (off, maxLen)) of
        Inl e \<Rightarrow> ([], Some (Failed e))
      | Inr body \<Rightarrow> ioReadFull k body)"

text \<open>A client that reads with buffers of \<open>k\<close> bytes until it gets an error, at most \<open>n\<close> times.\<close>

fun readAll :: "'s s3Client \<Rightarrow> (bytes \<Rightarrow> nat \<Rightarrow> bytes \<times> readEnd option) \<Rightarrow> 's \<Rightarrow> nat \<Rightarrow> nat \<Rightarrow> seekWraper \<Rightarrow> bytes \<times> readEnd option" where
  "readAll cl bodyRead s k 0 sw = ([], None)"
| "readAll cl bodyRead s k (Suc n) sw =
     (case swRead cl bodyRead s k sw of
        (_, b, Some e) \<Rightarrow> (b, Some e)
      | (sw1, b, None) \<Rightarrow> (let (bs, e) = readAll cl bodyRead s k n sw1 in (b @ bs, e)))"

section \<open>The service\<close>

text \<open>What S3 promises: an upload that succeeds has stored all of its body, one whose body fails does not succeed; a range of
  an object includes both ends, is cut at the end of the object and cannot start behind it; a header whose range ends
  before it starts is ignored.\<close>

locale s3_service =
  fixes cl :: "'s s3Client" and bucket :: string and obj :: "'s \<Rightarrow> string \<Rightarrow> bytes option"
  assumes upload_ok: "Upload cl s bucket k (d, EOF) = (s', None) \<Longrightarrow> obj s' = (obj s)(k \<mapsto> d)"
    and upload_failed: "Upload cl s bucket k x = (s', Some e) \<Longrightarrow> obj s' = obj s"
    and upload_body: "Upload cl s bucket k (d, Failed e) \<noteq> (s', None)"
    and get_whole: "GetObject cl s bucket k None = Inr d \<longleftrightarrow> obj s k = Some d"
    and get_missing: "obj s k = None \<Longrightarrow> GetObject cl s bucket k None = Inl ErrNotFound"
    and get_range: "obj s k = Some d \<Longrightarrow> 0 \<le> a \<Longrightarrow> a \<le> b \<Longrightarrow> a < int (length d) \<Longrightarrow>
      GetObject cl s bucket k (Some (a, b)) = Inr (take (nat (b - a + 1)) (drop (nat a) d))"
    and get_behind: "obj s k = Some d \<Longrightarrow> int (length d) \<le> a \<Longrightarrow> a \<le> b \<Longrightarrow> \<exists>e. GetObject cl s bucket k (Some (a, b)) = Inl e"
    and get_invalid: "obj s k = Some d \<Longrightarrow> b < a \<Longrightarrow> GetObject cl s bucket k (Some (a, b)) = Inr d"
    and head_found: "obj s k = Some d \<Longrightarrow> HeadObject cl s bucket k = Inr ()"
begin

lemma get_none: "GetObject cl s bucket k None = (case obj s k of None \<Rightarrow> Inl ErrNotFound | Some d \<Rightarrow> Inr d)"
  by (auto simp: get_whole get_missing split: option.splits)

lemma range_read:
  assumes "obj s k = Some d" "0 \<le> off" "off < int (length d)"
  shows "swReadAt cl s n off (newSeekWraper bucket k (int (length d) - 1)) =
    (take n (drop (nat off) d), if off + int n \<le> int (length d) then None else Some (Failed (ErrMsg ''unexpected EOF'')))"
proof -
  define m where "m = (if off + int n > int (length d) - 1 then int (length d) - 1 else off + int n)"
  have g: "GetObject cl s bucket k (Some (off, m)) = Inr (take (nat (m - off + 1)) (drop (nat off) d))"
    by (rule get_range [OF assms(1,2)]) (use assms in \<open>auto simp: m_def\<close>)
  have r: "swReadAt cl s n off (newSeekWraper bucket k (int (length d) - 1)) = ioReadFull n (take (nat (m - off + 1)) (drop (nat off) d))"
    using g by (auto simp: swReadAt_def newSeekWraper_def Let_def m_def split: if_splits)
  show ?thesis
  proof (cases "off + int n < int (length d)")
    case True
    then have "m = off + int n" by (simp add: m_def)
    then show ?thesis using r True assms by (auto simp: ioReadFull_def min_def)
  next
    case False
    then have "nat (m - off + 1) = length d - nat off" using assms by (simp add: m_def)
    then show ?thesis using r False assms by (auto simp: ioReadFull_def)
  qed
qed

lemma read_behind:
  assumes "obj s k = Some d" "int (length d) \<le> off"
  shows "swReadAt cl s n off (newSeekWraper bucket k (int (length d) - 1)) = ioReadFull n d"
  using assms get_invalid [OF assms(1), of "int (length d) - 1" off] by (simp add: swReadAt_def newSeekWraper_def Let_def)

lemma body_read:
  assumes "obj s k = Some d" "swBucket sw = bucket" "swResourceId sw = k" "swOffset sw = int p" "p < length d"
  shows "GetObject cl s (swBucket sw) (swResourceId sw) (Some (swOffset sw, swOffset sw + int n)) = Inr (take (Suc n) (drop p d))"
  using get_range [OF assms(1), of "int p" "int p + int n"] assms by (simp add: nat_add_distrib)

end

lemma countReads_all: "countReads c bs = (bs, c + int (length (concat bs)))"
  by (induction bs arbitrary: c) (auto simp: counterRead_def)

lemma counted_eq: "counted (bs, b, e) = ((bs, [], e), int (length (concat bs)))"
  by (simp add: counted_def countReads_all counterRead_def)

lemma s3SaveTo_eq:
  "s3SaveTo cl st s i (bs, b, e) =
    (if s3ReadOnly st then (s, 0, Some (ErrMsg ''do not write to a 'readonly' piece store''))
     else (case Upload cl s (s3Bucket st) i (concat bs, e) of
             (s1, Some x) \<Rightarrow> (s1, 0, Some x) | (s1, None) \<Rightarrow> (s1, int (length (concat bs)), None)))"
  by (simp add: s3SaveTo_def counted_eq drain_def Let_def)

text \<open>The store satisfies the contract for readers that report their end on its own.\<close>

definition quietReader :: "reader \<Rightarrow> goReader" where
  "quietReader r = ([fst r], [], case snd r of None \<Rightarrow> EOF | Some e \<Rightarrow> Failed e)"

lemma quietReader_drains: "drain (quietReader r) = (fst r, case snd r of None \<Rightarrow> EOF | Some e \<Rightarrow> Failed e)"
  by (simp add: drain_def quietReader_def)

sublocale s3_service \<subseteq> store: piece_store
  "\<lambda>s i r. s3SaveTo cl \<lparr>s3Bucket = bucket, s3ReadOnly = ro, s3Name = nm\<rparr> s i (quietReader r)"
  "s3Has cl \<lparr>s3Bucket = bucket, s3ReadOnly = ro, s3Name = nm\<rparr>"
  "s3GetReaderCloser cl \<lparr>s3Bucket = bucket, s3ReadOnly = ro, s3Name = nm\<rparr>" "\<lambda>_. True" for ro nm
proof unfold_locales
  let ?st = "\<lparr>s3Bucket = bucket, s3ReadOnly = ro, s3Name = nm\<rparr>"
  fix s s' :: 's and i j r n e
  have sv: "(e = None \<longrightarrow> n = int (length (fst r)) \<and> snd r = None \<and> obj s' = (obj s)(i \<mapsto> fst r)) \<and> (e \<noteq> None \<longrightarrow> obj s' = obj s)"
    if "s3SaveTo cl ?st s i (quietReader r) = (s', n, e)" for s s' i r n e
    using that upload_ok upload_failed upload_body
    by (cases "snd r") (auto simp: quietReader_def s3SaveTo_eq split: if_splits prod.splits option.splits)
  show "n = int (length (fst r)) \<and> snd r = None" if "s3SaveTo cl ?st s i (quietReader r) = (s', n, None)" using sv [OF that] by simp
  show True by simp
  show "s3GetReaderCloser cl ?st s' i = Inr (fst r)" if "s3SaveTo cl ?st s i (quietReader r) = (s', n, None)"
    using sv [OF that] by (simp add: s3GetReaderCloser_def get_none)
  show "s3GetReaderCloser cl ?st s' j = s3GetReaderCloser cl ?st s j"
    if "s3SaveTo cl ?st s i (quietReader r) = (s', n, e)" "j \<noteq> i"
    using sv [OF that(1)] that(2) by (cases e) (auto simp: s3GetReaderCloser_def get_none)
  show "s3GetReaderCloser cl ?st s' i = s3GetReaderCloser cl ?st s i"
    if "s3SaveTo cl ?st s i (quietReader r) = (s', n, Some x)" for x
    using sv [OF that] by (simp add: s3GetReaderCloser_def get_none)
  show "s3Has cl ?st s i = Inr True" if "s3GetReaderCloser cl ?st s i = Inr b" for b
    using that head_found by (auto simp: s3GetReaderCloser_def s3Has_def get_none split: option.splits)
qed

text \<open>A bucket in memory.\<close>

definition mem_s3 :: "(string \<times> bytes) list s3Client" where
  "mem_s3 = \<lparr>Upload = (\<lambda>s _ k (d, e). case e of EOF \<Rightarrow> ((k, d) # s, None) | Failed x \<Rightarrow> (s, Some x)),
     GetObject = (\<lambda>s _ k rg. case map_of s k of
        None \<Rightarrow> Inl ErrNotFound
      | Some d \<Rightarrow> (case rg of None \<Rightarrow> Inr d
           | Some (a, b) \<Rightarrow> if b < a then Inr d else if int (length d) \<le> a then Inl (ErrApi ''InvalidRange'')
               else Inr (take (nat (b - a + 1)) (drop (nat a) d)))),
     HeadObject = (\<lambda>s _ k. if map_of s k = None then Inl (AwsCode ''NotFound'') else Inr ()),
     ListObjectsV2 = (\<lambda>s _. Inr (map (\<lambda>(k, d). (k, Some (int (length d)))) s)),
     GetBucketAcl = (\<lambda>_ _. None), PresignGet = (\<lambda>_ _ k. Inr k)\<rparr>"

interpretation mems3: s3_service mem_s3 bkt map_of for bkt
  by unfold_locales (auto simp: mem_s3_def split: option.splits readEnd.splits)

section \<open>What is stored and read\<close>

text \<open>Saving to S3: a save that succeeds stores exactly the data of the reader's answers before the one that ended
  it, and returns its length; so the piece is complete if and only if the answer that ended the reader carried no data. A
  save that fails leaves every piece as it was, and other pieces never change.\<close>

theorem s3SaveTo_stores:
  assumes "s3_service cl (s3Bucket st) obj" "s3SaveTo cl st s i (bs, b, e) = (s', n, err)"
  shows "case err of
      None \<Rightarrow> \<not> s3ReadOnly st \<and> e = EOF \<and> obj s' = (obj s)(i \<mapsto> concat bs) \<and> n = int (length (concat bs)) \<and>
        s3GetReaderCloser cl st s' i = Inr (concat bs) \<and> (s3GetReaderCloser cl st s' i = Inr (fst (drain (bs, b, e))) \<longleftrightarrow> b = [])
    | Some _ \<Rightarrow> obj s' = obj s"
proof -
  have f: "\<And>d s'. Upload cl s (s3Bucket st) i (d, EOF) = (s', None) \<Longrightarrow> obj s' = (obj s)(i \<mapsto> d)"
    by (rule s3_service.upload_ok [OF assms(1)])
  note svc = s3_service.upload_failed [OF assms(1)] s3_service.upload_body [OF assms(1)] s3_service.get_none [OF assms(1)]
  show ?thesis using assms(2) f svc
    by (cases e) (auto simp: s3SaveTo_eq s3GetReaderCloser_def drain_def split: if_splits prod.splits option.splits)
qed

text \<open>The reader ends with the answer \<open>tail\<close>: it is lost.\<close>

theorem s3SaveTo_stores_witness:
  "s3SaveTo mem_s3 \<lparr>s3Bucket = ''b'', s3ReadOnly = False, s3Name = ''s3''\<rparr> [] ''baga'' ([''head''], ''tail'', EOF) = ([(''baga'', ''head'')], 4, None) \<and>
   s3GetReaderCloser mem_s3 \<lparr>s3Bucket = ''b'', s3ReadOnly = False, s3Name = ''s3''\<rparr> [(''baga'', ''head'')] ''baga'' = Inr ''head''"
proof -
  let ?st = "\<lparr>s3Bucket = ''b'', s3ReadOnly = False, s3Name = ''s3''\<rparr>"
  have r: "s3SaveTo mem_s3 ?st [] ''baga'' ([''head''], ''tail'', EOF) = ([(''baga'', ''head'')], 4, None)" by code_simp
  show ?thesis using r s3SaveTo_stores [OF _ r, of map_of] mems3.s3_service_axioms [of "''b''"] by simp
qed

text \<open>Reading a mounted piece at an offset: inside the piece it gives exactly the bytes there, without an error
  when they fill the buffer and with an unexpected end otherwise. From the end of the piece on it gives the bytes at
  the beginning of the piece instead, since the range asked for ends before it starts.\<close>

theorem swReadAt_reads:
  assumes "s3_service cl (s3Bucket st) obj" "obj s i = Some d" "0 \<le> off"
  shows "\<exists>sw. s3GetMountReader cl st s i = Inr sw \<and>
    swReadAt cl s k off sw =
      (if off < int (length d)
       then (take k (drop (nat off) d), if off + int k \<le> int (length d) then None else Some (Failed (ErrMsg ''unexpected EOF'')))
       else ioReadFull k d)"
proof -
  have "s3GetMountReader cl st s i = Inr (newSeekWraper (s3Bucket st) i (int (length d) - 1))"
    using s3_service.get_none [OF assms(1), of s i] assms(2) by (simp add: s3GetMountReader_def s3Len_def)
  then show ?thesis
    using s3_service.range_read [OF assms] s3_service.read_behind [OF assms(1,2)] by auto
qed

theorem swReadAt_reads_witness:
  "\<exists>sw. s3GetMountReader mem_s3 \<lparr>s3Bucket = ''b'', s3ReadOnly = False, s3Name = ''s3''\<rparr> [(''baga'', ''0123456789'')] ''baga'' = Inr sw \<and>
    swReadAt mem_s3 [(''baga'', ''0123456789'')] 3 4 sw = (''456'', None)"
  using swReadAt_reads [of mem_s3 "\<lparr>s3Bucket = ''b'', s3ReadOnly = False, s3Name = ''s3''\<rparr>" map_of "[(''baga'', ''0123456789'')]" "''baga''" "''0123456789''" 4 3]
    mems3.s3_service_axioms [of "''b''"] by simp

text \<open>A body that reports its end together with its last bytes, as the bodies of \<open>net/http\<close> do when the length is known, and one
  that reports it with an answer of its own.\<close>

definition httpRead :: "bytes \<Rightarrow> nat \<Rightarrow> bytes \<times> readEnd option" where
  "httpRead body k = (take k body, if length body \<le> k then Some EOF else None)"

definition plainRead :: "bytes \<Rightarrow> nat \<Rightarrow> bytes \<times> readEnd option" where
  "plainRead body k = (if body = [] then ([], Some EOF) else (take k body, None))"

lemma readAll_http:
  assumes "s3_service cl bucket obj" "obj s i = Some d" "0 < k"
  shows "swBucket sw = bucket \<Longrightarrow> swResourceId sw = i \<Longrightarrow> swOffset sw = int p \<Longrightarrow> p < length d \<Longrightarrow> length d - p \<le> n \<Longrightarrow>
    readAll cl httpRead s k n sw = (take ((length d - 1 - p) div k * k) (drop p d), Some EOF)"
proof (induction n arbitrary: sw p)
  case (Suc n)
  note g = s3_service.body_read [OF assms(1,2) Suc.prems(1-4)]
  show ?case
  proof (cases "length d - p \<le> k")
    case True
    then have "(length d - 1 - p) div k = 0" using Suc.prems assms(3) by simp
    then show ?thesis using g True by (simp add: swRead_def httpRead_def)
  next
    case False
    have eq: "length d - 1 - p = k + (length d - 1 - (p + k))" using False by simp
    have "(length d - 1 - p) div k * k = k + (length d - 1 - (p + k)) div k * k" using assms(3) by (subst eq, subst div_add_self1) auto
    then have t: "take ((length d - 1 - p) div k * k) (drop p d) = take k (drop p d) @ take ((length d - 1 - (p + k)) div k * k) (drop (p + k) d)"
      by (simp add: take_add add.commute)
    have "readAll cl httpRead s k n (sw\<lparr>swOffset := int p + int k\<rparr>) = (take ((length d - 1 - (p + k)) div k * k) (drop (p + k) d), Some EOF)"
      using Suc.prems False assms(3) by (intro Suc.IH) auto
    moreover have "httpRead (take (Suc k) (drop p d)) k = (take k (drop p d), None)" using False by (simp add: httpRead_def min_def)
    ultimately show ?thesis using g False t Suc.prems(3) by (simp add: swRead_def)
  qed
qed simp

text \<open>Reading a mounted piece from the start to its end loses data: with bodies that report the end together
  with the last bytes, a reader with buffers of \<open>k\<close> bytes gets the piece without its last block (of 1 to \<open>k\<close> bytes) and a regular end of
  file, however often it may read.\<close>

theorem mounted_read_truncates:
  assumes "s3_service cl (s3Bucket st) obj" "obj s i = Some d" "d \<noteq> []" "0 < k" "length d \<le> n"
  shows "\<exists>sw. s3GetMountReader cl st s i = Inr sw \<and>
    readAll cl httpRead s k n sw = (take ((length d - 1) div k * k) d, Some EOF) \<and> (length d - 1) div k * k < length d"
proof -
  have "s3GetMountReader cl st s i = Inr (newSeekWraper (s3Bucket st) i (int (length d) - 1))"
    using s3_service.get_none [OF assms(1), of s i] assms(2) by (simp add: s3GetMountReader_def s3Len_def)
  moreover have "readAll cl httpRead s k n (newSeekWraper (s3Bucket st) i (int (length d) - 1)) = (take ((length d - 1) div k * k) d, Some EOF)"
    using readAll_http [OF assms(1,2,4), of "newSeekWraper (s3Bucket st) i (int (length d) - 1)" 0 n] assms(3,5) by (simp add: newSeekWraper_def)
  moreover have "(length d - 1) div k * k < length d" using assms(3) div_times_less_eq_dividend [of "length d - 1" k]
    by (metis (no_types) diff_less le_less_trans length_greater_0_conv zero_less_one)
  ultimately show ?thesis by blast
qed

theorem mounted_read_truncates_witness:
  "\<exists>sw. s3GetMountReader mem_s3 \<lparr>s3Bucket = ''b'', s3ReadOnly = False, s3Name = ''s3''\<rparr> [(''baga'', ''0123456789'')] ''baga'' = Inr sw \<and>
    readAll mem_s3 httpRead [(''baga'', ''0123456789'')] 4 10 sw = (''01234567'', Some EOF)"
  using mounted_read_truncates [of mem_s3 "\<lparr>s3Bucket = ''b'', s3ReadOnly = False, s3Name = ''s3''\<rparr>" map_of "[(''baga'', ''0123456789'')]" "''baga''" "''0123456789''" 4 10]
    mems3.s3_service_axioms [of "''b''"] by simp

text \<open>With bodies that report their end on its own every byte arrives, but the end is an error of the service and no end of
  file.\<close>

theorem mounted_read_no_eof:
  assumes "s3_service cl bucket obj" "obj s i = Some d" "0 < k"
  shows "swBucket sw = bucket \<Longrightarrow> swResourceId sw = i \<Longrightarrow> swOffset sw = int p \<Longrightarrow> p \<le> length d \<Longrightarrow> length d - p < n \<Longrightarrow>
    \<exists>e. readAll cl plainRead s k n sw = (drop p d, Some (Failed e))"
proof (induction n arbitrary: sw p)
  case (Suc n)
  show ?case
  proof (cases "p = length d")
    case True
    then show ?thesis using s3_service.get_behind [OF assms(1,2), of "int p" "int p + int k"] Suc.prems by (auto simp: swRead_def)
  next
    case False
    have pl: "p < length d" using False Suc.prems by simp
    note g = s3_service.body_read [OF assms(1,2) Suc.prems(1-3) pl]
    define b where "b = take k (drop p d)"
    have "b @ drop k (drop p d) = drop p d" by (simp only: b_def append_take_drop_id)
    then have b: "0 < length b" "length b \<le> length d - p" "b @ drop (p + length b) d = drop p d"
      using pl assms(3) by (auto simp: b_def min_def add.commute)
    have "\<exists>e. readAll cl plainRead s k n (sw\<lparr>swOffset := int p + int (length b)\<rparr>) = (drop (p + length b) d, Some (Failed e))"
      using Suc.prems pl b by (intro Suc.IH) (simp_all del: length_greater_0_conv)
    moreover have "plainRead (take (Suc k) (drop p d)) k = (b, None)" using pl by (simp add: plainRead_def b_def min_def)
    ultimately show ?thesis using g b(3) Suc.prems(3) by (auto simp: swRead_def)
  qed
qed simp

end
