(* ===== verification/Align_Reader.thy ===== *)
theory Align_Reader
  imports S3_Storage
begin

text \<open>
  The reader that pads a piece with zeroes up to its size (\<open>src/utils/algn_zero_reader.go\<close>), over the interface of the reader
  it wraps. A read gives the count it returns, the bytes it leaves in the buffer up to that count, and the error.
\<close>

section \<open>The reader\<close>

record 'm mountReader =
  mrReadAt :: "'m \<Rightarrow> nat \<Rightarrow> int \<Rightarrow> bytes \<times> readEnd option"
  mrRead :: "'m \<Rightarrow> nat \<Rightarrow> 'm \<times> bytes \<times> readEnd option"
  mrSeekStart :: "'m \<Rightarrow> int \<Rightarrow> 'm \<times> error option"

record 'm AlgnZeroMountReader =
  azR :: 'm
  azL :: int
  azSize :: int
  azSeekPos :: int

definition NewAlgnZeroMountReader :: "'m \<Rightarrow> int \<Rightarrow> int \<Rightarrow> 'm AlgnZeroMountReader" where
  "NewAlgnZeroMountReader r payload sz = \<lparr>azR = r, azL = payload, azSize = sz, azSeekPos = 0\<rparr>"

abbreviation zeroes :: "int \<Rightarrow> bytes" where
  "zeroes n \<equiv> replicate (nat n) (CHR 0x00)"

text \<open>The common tail of \<open>ReadAt\<close> and \<open>Read\<close>: what was read, filled up with zeroes.\<close>

definition alignZero :: "int \<Rightarrow> nat \<Rightarrow> int \<Rightarrow> bytes \<Rightarrow> int \<times> int \<times> bytes \<times> readEnd option" where
  "alignZero sz k offset d =
     (let wLen = int (length d);
          (minL, err) = (if int k + offset \<ge> sz then (sz, Some EOF) else (int k + offset, None));
          align = minL - wLen - offset
      in (minL, minL - offset, if align > 0 then d @ zeroes align else take (nat (minL - offset)) d, err))"

definition azReadAt :: "'m mountReader \<Rightarrow> 'm AlgnZeroMountReader \<Rightarrow> nat \<Rightarrow> int \<Rightarrow> int \<times> bytes \<times> readEnd option" where
  "azReadAt ops a k offset =
     (let (d, err) = (if offset < azL a then mrReadAt ops (azR a) k offset else ([], None)) in
      if err \<noteq> None \<and> err \<noteq> Some EOF then (0, [], err)
      else snd (alignZero (azSize a) k offset d))"

definition azRead :: "'m mountReader \<Rightarrow> 'm AlgnZeroMountReader \<Rightarrow> nat \<Rightarrow> 'm AlgnZeroMountReader \<times> int \<times> bytes \<times> readEnd option" where
  "azRead ops a k =
     (if azSeekPos a > azSize a then (a, 0, [], Some EOF)
      else
        (let (r, d, err) =
           (if azSeekPos a < azL a then
              (case mrSeekStart ops (azR a) (azSeekPos a) of
                 (r1, Some e) \<Rightarrow> (r1, [], Some (Failed e))
               | (r1, None) \<Rightarrow> mrRead ops r1 k)
            else (azR a, [], None)) in
         if err \<noteq> None \<and> err \<noteq> Some EOF then (a\<lparr>azR := r\<rparr>, 0, [], err)
         else (case alignZero (azSize a) k (azSeekPos a) d of
                 (minL, n, data, err) \<Rightarrow> (a\<lparr>azR := r, azSeekPos := minL\<rparr>, n, data, err))))"

definition azSeek :: "'m AlgnZeroMountReader \<Rightarrow> int \<Rightarrow> whence \<Rightarrow> 'm AlgnZeroMountReader \<times> int res" where
  "azSeek a offset whence =
     (case whence of
        SeekCurrent \<Rightarrow> (a\<lparr>azSeekPos := azSeekPos a + offset\<rparr>, Inr (azSeekPos a + offset))
      | SeekStart \<Rightarrow> (a\<lparr>azSeekPos := offset\<rparr>, Inr offset)
      | SeekEnd \<Rightarrow> (a, Inl (ErrMsg ''only support seek'')))"

section \<open>What it reads\<close>

text \<open>The contract of a reader over the payload \<open>d\<close> that fills its buffer as far as there is data, and reports the end, if at all,
  with \<open>io.EOF\<close>; seeking and reading keep it so.\<close>

locale full_reader =
  fixes ops :: "'m mountReader" and content :: "'m \<Rightarrow> bytes option" and pos :: "'m \<Rightarrow> int"
  assumes read_at: "content r = Some d \<Longrightarrow> 0 \<le> off \<Longrightarrow> off < int (length d) \<Longrightarrow>
      \<exists>e. mrReadAt ops r k off = (take k (drop (nat off) d), e) \<and> (e = None \<or> e = Some EOF)"
    and seek_start: "content r = Some d \<Longrightarrow> 0 \<le> off \<Longrightarrow> \<exists>r1. mrSeekStart ops r off = (r1, None) \<and> content r1 = Some d \<and> pos r1 = off"
    and read_fills: "content r = Some d \<Longrightarrow> 0 \<le> pos r \<Longrightarrow> pos r < int (length d) \<Longrightarrow>
      \<exists>r1 e. mrRead ops r k = (r1, take k (drop (nat (pos r)) d), e) \<and> (e = None \<or> e = Some EOF) \<and> content r1 = Some d"

text \<open>The payload followed by zeroes.\<close>

definition padded :: "bytes \<Rightarrow> int \<Rightarrow> bytes" where
  "padded d sz = d @ zeroes (sz - int (length d))"

lemma padded_length: "int (length d) \<le> sz \<Longrightarrow> int (length (padded d sz)) = sz"
  by (simp add: padded_def)

lemma alignZero_padded:
  assumes "int (length d) \<le> sz" "0 \<le> off" "off \<le> sz"
  shows "alignZero sz k off (if off < int (length d) then take k (drop (nat off) d) else []) =
    (min (off + int k) sz, min (int k) (sz - off), take k (drop (nat off) (padded d sz)), if off + int k \<ge> sz then Some EOF else None)"
proof -
  define n where "n = min k (nat (sz - off))"
  define w where "w = (if off < int (length d) then take k (drop (nat off) d) else [])"
  have wl: "length w = min k (length d - nat off)" by (auto simp: w_def)
  obtain z p where zp: "sz = int z" "off = int p" using assms by (metis nonneg_int_cases order_trans)
  have le: "length d \<le> z" "p \<le> z" using assms zp by auto
  have zl: "nat (int z - int (length d)) = z - length d" "nat (int z - int p) = z - p" by auto
  have pd: "take k (drop (nat off) (padded d sz)) = w @ replicate (n - length w) (CHR 0x00)"
  proof (cases "p < length d")
    case True
    have "n - length w = min (k - (length d - p)) (z - length d)" using True le by (auto simp: wl zp n_def zl)
    then show ?thesis using True by (simp add: padded_def w_def zp zl)
  next
    case False
    then have "n - length w = min k (z - p)" "z - length d - (p - length d) = z - p" using le by (auto simp: wl zp n_def zl)
    then show ?thesis using False by (simp add: padded_def w_def zp zl)
  qed
  have minL: "(if int k + off \<ge> sz then (sz, Some EOF) else (int k + off, None)) = (off + int n, if off + int k \<ge> sz then Some EOF else None)"
    using assms by (auto simp: n_def min_def)
  have wn: "length w \<le> n" using assms by (auto simp: wl n_def)
  have "alignZero sz k off w = (off + int n, int n, w @ replicate (n - length w) (CHR 0x00), if off + int k \<ge> sz then Some EOF else None)"
    using wn by (auto simp: alignZero_def Let_def minL nat_diff_distrib)
  moreover have "off + int n = min (off + int k) sz" "int n = min (int k) (sz - off)" using assms by (auto simp: n_def min_def)
  ultimately show ?thesis using pd by (simp add: w_def)
qed

context full_reader begin

lemma readAt_padded:
  assumes "content (azR a) = Some d" "azL a = int (length d)" "int (length d) \<le> azSize a" "0 \<le> off" "off \<le> azSize a"
  shows "azReadAt ops a k off =
    (min (int k) (azSize a - off), take k (drop (nat off) (padded d (azSize a))), if off + int k \<ge> azSize a then Some EOF else None)"
proof (cases "off < int (length d)")
  case True
  obtain e where e: "mrReadAt ops (azR a) k off = (take k (drop (nat off) d), e)" "e = None \<or> e = Some EOF"
    using read_at [OF assms(1,4) True] by blast
  then show ?thesis using alignZero_padded [OF assms(3-5), of k] True assms(2) by (auto simp: azReadAt_def)
next
  case False
  then show ?thesis using alignZero_padded [OF assms(3-5), of k] assms(2) by (simp add: azReadAt_def)
qed

lemma read_padded:
  assumes "content (azR a) = Some d" "azL a = int (length d)" "int (length d) \<le> azSize a" "0 \<le> azSeekPos a" "azSeekPos a \<le> azSize a"
  shows "\<exists>r. content r = Some d \<and> azRead ops a k =
    (a\<lparr>azR := r, azSeekPos := min (azSeekPos a + int k) (azSize a)\<rparr>, min (int k) (azSize a - azSeekPos a),
     take k (drop (nat (azSeekPos a)) (padded d (azSize a))), if azSeekPos a + int k \<ge> azSize a then Some EOF else None)"
proof (cases "azSeekPos a < int (length d)")
  case True
  obtain r1 where r1: "mrSeekStart ops (azR a) (azSeekPos a) = (r1, None)" "content r1 = Some d" "pos r1 = azSeekPos a"
    using seek_start [OF assms(1,4)] by blast
  obtain r2 e where r2: "mrRead ops r1 k = (r2, take k (drop (nat (azSeekPos a)) d), e)" "e = None \<or> e = Some EOF" "content r2 = Some d"
    using read_fills [OF r1(2), of k] r1(3) assms(4) True by auto
  show ?thesis
    using r1 r2 alignZero_padded [OF assms(3-5), of k] True assms(2,5) by (intro exI [of _ r2]) (auto simp: azRead_def)
next
  case False
  then show ?thesis using alignZero_padded [OF assms(3-5), of k] assms by (intro exI [of _ "azR a"]) (simp add: azRead_def)
qed

end

text \<open>A regular file, or the bytes of the store in memory: \<open>ReadAt\<close> and \<open>Read\<close> of \<open>os.File\<close> and \<open>bytes.Reader\<close>.\<close>

definition file_reader :: "(bytes \<times> int) mountReader" where
  "file_reader = \<lparr>mrReadAt = (\<lambda>(d, p) k off. (take k (drop (nat off) d), if off + int k > int (length d) then Some EOF else None)),
     mrRead = (\<lambda>(d, p) k. if p \<ge> int (length d) \<and> k > 0 then ((d, p), [], Some EOF)
        else let b = take k (drop (nat p) d) in ((d, p + int (length b)), b, None)),
     mrSeekStart = (\<lambda>(d, p) off. if off < 0 then ((d, p), Some (ErrMsg ''negative position'')) else ((d, off), None))\<rparr>"

interpretation filereader: full_reader file_reader "\<lambda>r. Some (fst r)" snd
  by unfold_locales (auto simp: file_reader_def Let_def)



text \<open>A read behind the end of the piece returns a negative count.\<close>

theorem azReadAt_behind: "azL a \<le> azSize a \<Longrightarrow> azSize a < off \<Longrightarrow> azReadAt ops a k off = (azSize a - off, [], Some EOF)"
  by (simp add: azReadAt_def alignZero_def)

text \<open>A reader that gives fewer bytes than asked for, as \<open>io.Reader\<close> allows, is taken to have ended: zeroes stand for the
  bytes that were not delivered, and the position moves behind them.\<close>

theorem azRead_short_read:
  assumes "mrSeekStart ops (azR a) (azSeekPos a) = (r1, None)" "mrRead ops r1 k = (r2, b, None)" "length b < k"
    and "0 \<le> azSeekPos a" "azSeekPos a + int k < azSize a" "azSeekPos a < azL a"
  shows "azRead ops a k = (a\<lparr>azR := r2, azSeekPos := azSeekPos a + int k\<rparr>, int k, b @ zeroes (int k - int (length b)), None)"
  using assms by (simp add: azRead_def alignZero_def Let_def)

text \<open>A piece mounted from S3 under the padded reader: \<open>seekWraper\<close> reports a read that crosses the end of the payload as an unexpected
  end, not as \<open>io.EOF\<close>, so that every such read fails instead of being padded.\<close>

definition s3_reader :: "'s s3Client \<Rightarrow> (bytes \<Rightarrow> nat \<Rightarrow> bytes \<times> readEnd option) \<Rightarrow> 's \<Rightarrow> seekWraper mountReader" where
  "s3_reader cl bodyRead s = \<lparr>mrReadAt = (\<lambda>sw k off. swReadAt cl s k off sw), mrRead = (\<lambda>sw k. swRead cl bodyRead s k sw),
     mrSeekStart = (\<lambda>sw off. (fst (swSeek off SeekStart sw), None))\<rparr>"

text \<open>Reading a piece in S3 through the mount of the DAG store: inside the payload a read gives the bytes there; one
  that crosses the end of the payload fails, although the padded piece goes on.\<close>

theorem s3_padded_reads:
  assumes "s3_service cl (s3Bucket st) obj" "obj s i = Some d" "int (length d) < sz" "0 \<le> off" "off < int (length d)"
  shows "\<exists>sw. s3GetMountReader cl st s i = Inr sw \<and>
    azReadAt (s3_reader cl bodyRead s) (NewAlgnZeroMountReader sw (int (length d)) sz) k off =
      (if off + int k \<le> int (length d) then (int k, take k (drop (nat off) d), None)
       else (0, [], Some (Failed (ErrMsg ''unexpected EOF''))))"
proof -
  let ?sw = "newSeekWraper (s3Bucket st) i (int (length d) - 1)"
  have m: "s3GetMountReader cl st s i = Inr ?sw"
    using s3_service.get_none [OF assms(1), of s i] assms(2) by (simp add: s3GetMountReader_def s3Len_def)
  have "azReadAt (s3_reader cl bodyRead s) (NewAlgnZeroMountReader ?sw (int (length d)) sz) k off =
      (if off + int k \<le> int (length d) then (int k, take k (drop (nat off) d), None)
       else (0, [], Some (Failed (ErrMsg ''unexpected EOF''))))"
    using s3_service.range_read [OF assms(1,2,4,5), of k] assms(3-5)
    by (auto simp: azReadAt_def s3_reader_def NewAlgnZeroMountReader_def alignZero_def Let_def)
  then show ?thesis using m by blast
qed

theorem s3_padded_reads_witness:
  "\<exists>sw. s3GetMountReader mem_s3 \<lparr>s3Bucket = ''b'', s3ReadOnly = False, s3Name = ''s3''\<rparr> [(''baga'', ''0123456789'')] ''baga'' = Inr sw \<and>
    azReadAt (s3_reader mem_s3 httpRead [(''baga'', ''0123456789'')]) (NewAlgnZeroMountReader sw 10 16) 4 8 = (0, [], Some (Failed (ErrMsg ''unexpected EOF'')))"
  using s3_padded_reads [of mem_s3 "\<lparr>s3Bucket = ''b'', s3ReadOnly = False, s3Name = ''s3''\<rparr>" map_of "[(''baga'', ''0123456789'')]" "''baga''" "''0123456789''" 16 8 httpRead 4]
    mems3.s3_service_axioms [of "''b''"] by simp

end
