(* ===== verification/Dag_Store.thy ===== *)
theory Dag_Store
  imports Align_Reader Storage_Deal_Repo
begin

text \<open>
  The DAG store wrapper (\<open>src/dagstore/wrapper.go\<close>), the mount of a piece (\<open>mount.go\<close>) and the market API behind it
  (\<open>market_api.go\<close>). The DAG store itself and its \<open>RegisterShardSync\<close> are a library and the fields of \<open>dagStore\<close>; the
  repository of deals and the piece stores are those of the development.
\<close>

section \<open>The market API\<close>

text \<open>What the API uses of a piece store: \<open>'p\<close> is the store, \<open>'m\<close> its mounted readers and \<open>'c\<close> its streams.\<close>

record ('p, 'm, 'c) pieceOps =
  poOps :: "'p storageOps"
  poGetMountReader :: "'p \<Rightarrow> string \<Rightarrow> 'm res"
  poGetReaderCloser :: "'p \<Rightarrow> string \<Rightarrow> 'c res"

record ('p, 'm, 'c, 'i) marketAPI =
  maOps :: "('p, 'm, 'c) pieceOps"
  maStorages :: "'p storages"
  maIntn :: "nat \<Rightarrow> nat"
  maUseTransient :: bool
  cidString :: "cid \<Rightarrow> string"
  pieceUnpadded :: "u64 \<Rightarrow> u64"
  NewInflator :: "'c \<Rightarrow> u64 \<Rightarrow> u64 \<Rightarrow> 'i res"

datatype ('m, 'i) fetched = Stream 'i | Mounted "'m AlgnZeroMountReader"

abbreviation findForRead :: "('p, 'm, 'c, 'i) marketAPI \<Rightarrow> cid \<Rightarrow> 'p res" where
  "findForRead m pieceCid \<equiv> FindStorageForRead (poOps (maOps m)) (maIntn m) (maStorages m) (cidString m pieceCid)"

definition IsUnsealed :: "('p, 'm, 'c, 'i) marketAPI \<Rightarrow> cid \<Rightarrow> bool res" where
  "IsUnsealed m pieceCid = (case findForRead m pieceCid of Inl e \<Rightarrow> Inl (ErrWrap ''unable to find storage for piece'' e) | Inr _ \<Rightarrow> Inr True)"

definition FetchUnsealedPiece :: "('p, 'm, 'c, 'i) marketAPI \<Rightarrow> 'r StorageDealRepo \<Rightarrow> 'r \<Rightarrow> cid \<Rightarrow> ('m, 'i) fetched res outcome" where
  "FetchUnsealedPiece m repo r pieceCid =
     (case sdGetPieceSize repo r pieceCid of
        Panic msg \<Rightarrow> Panic msg
      | Ret (Inl e) \<Rightarrow> Ret (Inl e)
      | Ret (Inr (payloadSize, pieceSize)) \<Rightarrow> Ret
          (case findForRead m pieceCid of
             Inl e \<Rightarrow> Inl e
           | Inr pieceStorage \<Rightarrow>
               if maUseTransient m then
                 tryE (poGetReaderCloser (maOps m) pieceStorage (cidString m pieceCid)) (\<lambda>rd.
                 tryE (NewInflator m rd payloadSize (pieceUnpadded m pieceSize)) (\<lambda>padR. Inr (Stream padR)))
               else
                 tryE (poGetMountReader (maOps m) pieceStorage (cidString m pieceCid)) (\<lambda>rd.
                   Inr (Mounted (NewAlgnZeroMountReader rd (sint payloadSize) (sint pieceSize))))))"

definition GetUnpaddedCARSize :: "'r StorageDealRepo \<Rightarrow> 'r \<Rightarrow> cid \<Rightarrow> u64 res outcome" where
  "GetUnpaddedCARSize repo r pieceCid =
     (case sdGetPieceInfo repo r pieceCid of
        Panic msg \<Rightarrow> Panic msg
      | Ret (Inl e) \<Rightarrow> Ret (Inl (ErrWrap ''failed to fetch pieceInfo'' e))
      | Ret (Inr []) \<Rightarrow> Ret (Inl (ErrMsg ''no storage deals found for piece''))
      | Ret (Inr (info # _)) \<Rightarrow> Ret (Inr (pdLength info)))"

section \<open>The mount of a piece\<close>

record PieceMount =
  mtPieceCid :: cid
  mtUseTransient :: bool

definition NewPieceMount :: "cid \<Rightarrow> bool \<Rightarrow> PieceMount res" where
  "NewPieceMount pieceCid useTransient = Inr \<lparr>mtPieceCid = pieceCid, mtUseTransient = useTransient\<rparr>"

definition mountSerialize :: "(cid \<Rightarrow> string) \<Rightarrow> PieceMount \<Rightarrow> url" where
  "mountSerialize toString l = \<lparr>urlHost = toString (mtPieceCid l), urlPath = [], urlRest = []\<rparr>"

definition mountDeserialize :: "(string \<Rightarrow> cid res) \<Rightarrow> url \<Rightarrow> PieceMount \<Rightarrow> PieceMount res" where
  "mountDeserialize decode u l =
     (case decode (urlHost u) of
        Inl e \<Rightarrow> Inl (ErrWrap ''failed to parse PieceCid from host'' e)
      | Inr pieceCid \<Rightarrow> Inr (l\<lparr>mtPieceCid := pieceCid\<rparr>))"

definition mountFetch :: "('p, 'm, 'c, 'i) marketAPI \<Rightarrow> 'r StorageDealRepo \<Rightarrow> 'r \<Rightarrow> PieceMount \<Rightarrow> ('m, 'i) fetched res outcome" where
  "mountFetch m repo r l =
     (case FetchUnsealedPiece m repo r (mtPieceCid l) of
        Panic msg \<Rightarrow> Panic msg
      | Ret (Inl e) \<Rightarrow> Ret (Inl (ErrWrap ''failed to fetch unsealed piece'' e))
      | Ret (Inr rd) \<Rightarrow> Ret (Inr rd))"

record mountInfo =
  AccessSequential :: bool
  AccessSeek :: bool
  AccessRandom :: bool

definition mountInfoOf :: "PieceMount \<Rightarrow> mountInfo" where
  "mountInfoOf l = (if mtUseTransient l then \<lparr>AccessSequential = True, AccessSeek = False, AccessRandom = False\<rparr>
     else \<lparr>AccessSequential = True, AccessSeek = True, AccessRandom = True\<rparr>)"

record mountStatus =
  statExists :: bool
  statSize :: int
  statReady :: bool

definition mountStat :: "('p, 'm, 'c, 'i) marketAPI \<Rightarrow> 'r StorageDealRepo \<Rightarrow> 'r \<Rightarrow> PieceMount \<Rightarrow> mountStatus res outcome" where
  "mountStat m repo r l =
     (case GetUnpaddedCARSize repo r (mtPieceCid l) of
        Panic msg \<Rightarrow> Panic msg
      | Ret (Inl e) \<Rightarrow> Ret (Inl (ErrWrap ''failed to fetch piece size'' e))
      | Ret (Inr sz) \<Rightarrow>
          (case IsUnsealed m (mtPieceCid l) of
             Inl e \<Rightarrow> Ret (Inl (ErrWrap ''failed to verify if we have the unsealed piece'' e))
           | Inr isUnsealed \<Rightarrow> Ret (Inr \<lparr>statExists = True, statSize = sint sz, statReady = isUnsealed\<rparr>)))"

section \<open>The wrapper\<close>

datatype 'a awaited = CtxDone error | Delivered "'a res"

record ('d, 'a, 'b) dagStore =
  AcquireShard :: "'d \<Rightarrow> string \<Rightarrow> 'd \<times> error option"
  awaitShard :: "'d \<Rightarrow> string \<Rightarrow> 'a awaited"
  AccessorBlockstore :: "'a \<Rightarrow> 'b res"
  dagRegisterShard :: "'d \<Rightarrow> string \<Rightarrow> PieceMount \<Rightarrow> string \<Rightarrow> bool \<Rightarrow> 'd \<times> error option"
  RegisterShardSync :: "'d \<Rightarrow> cid \<Rightarrow> string \<Rightarrow> bool \<Rightarrow> 'd \<times> error option"
  KeyFromCID :: "cid \<Rightarrow> string"
  ShardsContainingMultihash :: "'d \<Rightarrow> cid \<Rightarrow> string list res"
  ParseCid :: "string \<Rightarrow> cid res"

abbreviation "ErrShardUnknown \<equiv> ErrApi ''shard not found''"

definition awaitBlockstore :: "('d, 'a, 'b) dagStore \<Rightarrow> 'd \<Rightarrow> cid \<Rightarrow> 'b res" where
  "awaitBlockstore dg d pieceCid =
     (case awaitShard dg d (KeyFromCID dg pieceCid) of
        CtxDone e \<Rightarrow> Inl e
      | Delivered (Inl e) \<Rightarrow> Inl (ErrWrap ''failed to acquire shard for piece CID'' e)
      | Delivered (Inr accessor) \<Rightarrow> AccessorBlockstore dg accessor)"

definition LoadShard :: "('d, 'a, 'b) dagStore \<Rightarrow> 'd \<Rightarrow> cid \<Rightarrow> 'd \<times> 'b res" where
  "LoadShard dg d pieceCid =
     (case AcquireShard dg d (KeyFromCID dg pieceCid) of
        (d1, None) \<Rightarrow> (d1, awaitBlockstore dg d1 pieceCid)
      | (d1, Some e) \<Rightarrow>
          if \<not> errors_Is e ErrShardUnknown then (d1, Inl (ErrWrap ''failed to schedule acquire shard'' e))
          else
            (case RegisterShardSync dg d1 pieceCid [] False of
               (d2, Some e) \<Rightarrow> (d2, Inl (ErrWrap ''failed to re-register shard'' e))
             | (d2, None) \<Rightarrow>
                 (case AcquireShard dg d2 (KeyFromCID dg pieceCid) of
                    (d3, Some e) \<Rightarrow> (d3, Inl (ErrWrap ''failed to acquire Shard after re-registering'' e))
                  | (d3, None) \<Rightarrow> (d3, awaitBlockstore dg d3 pieceCid))))"

definition RegisterShard :: "('d, 'a, 'b) dagStore \<Rightarrow> bool \<Rightarrow> 'd \<Rightarrow> cid \<Rightarrow> string \<Rightarrow> bool \<Rightarrow> 'd \<times> error option" where
  "RegisterShard dg useTransient d pieceCid carPath eagerInit =
     (case NewPieceMount pieceCid useTransient of
        Inl e \<Rightarrow> (d, Some (ErrWrap ''failed to create lotus mount'' e))
      | Inr mt \<Rightarrow>
          (case dagRegisterShard dg d (KeyFromCID dg pieceCid) mt carPath (\<not> eagerInit) of
             (d1, Some e) \<Rightarrow> (d1, Some (ErrWrap ''failed to schedule register shard'' e))
           | (d1, None) \<Rightarrow> (d1, None)))"

fun registerDeals :: "('d, 'a, 'b) dagStore \<Rightarrow> bool \<Rightarrow> StorageDealStatus list \<Rightarrow> 'd \<Rightarrow> MinerDeal list \<Rightarrow> 'd \<times> nat" where
  "registerDeals dg useTransient inSealing d [] = (d, 0)"
| "registerDeals dg useTransient inSealing d (deal # deals) =
     (if mdState deal \<notin> set inSealing then registerDeals dg useTransient inSealing d deals
      else
        (case RegisterShard dg useTransient d (PieceCID (Proposal deal)) [] False of
           (d1, Some _) \<Rightarrow> registerDeals dg useTransient inSealing d1 deals
         | (d1, None) \<Rightarrow> (let (d2, n) = registerDeals dg useTransient inSealing d1 deals in (d2, Suc n))))"

text \<open>The migration: \<open>statMarker\<close> is what \<open>os.Stat\<close> says of the marker file, \<open>markErr\<close> the error of creating it, and
  \<open>arrived\<close> how many results of registrations arrive in the channel in all. The goroutine that takes them ends when it has as
  many as there are registered shards, and the migration waits for it: \<open>None\<close> is a migration that waits for ever.\<close>

definition registrationComplete :: "bool res \<Rightarrow> bool res" where
  "registrationComplete statMarker = statMarker"

definition MigrateDeals :: "('d, 'a, 'b) dagStore \<Rightarrow> bool \<Rightarrow> StorageDealStatus list \<Rightarrow> bool res \<Rightarrow> error option \<Rightarrow> nat \<Rightarrow> MinerDeal list \<Rightarrow> 'd \<Rightarrow>
    ('d \<times> bool \<times> bool res) option" where
  "MigrateDeals dg useTransient inSealing statMarker markErr arrived deals d =
     (case registrationComplete statMarker of
        Inl e \<Rightarrow> Some (d, False, Inl (ErrWrap ''failed to get dagstore migration status'' e))
      | Inr True \<Rightarrow> Some (d, True, Inr False)
      | Inr False \<Rightarrow>
          (let (d1, registered) = registerDeals dg useTransient inSealing d deals in
           if arrived < registered then None else Some (d1, markErr = None, Inr True)))"

fun parseKeys :: "('d, 'a, 'b) dagStore \<Rightarrow> string list \<Rightarrow> cid list res" where
  "parseKeys dg [] = Inr []"
| "parseKeys dg (k # ks) =
     (case ParseCid dg k of
        Inl e \<Rightarrow> Inl (ErrWrap ''converting shard key to piece cid'' e)
      | Inr c \<Rightarrow> tryE (parseKeys dg ks) (\<lambda>cs. Inr (c # cs)))"

definition GetPiecesContainingBlock :: "('d, 'a, 'b) dagStore \<Rightarrow> 'd \<Rightarrow> cid \<Rightarrow> cid list res" where
  "GetPiecesContainingBlock dg d blockCID =
     (case ShardsContainingMultihash dg d blockCID of
        Inl e \<Rightarrow> Inl (ErrWrap ''getting pieces containing block'' e)
      | Inr shardKeys \<Rightarrow> parseKeys dg shardKeys)"

section \<open>What is mounted\<close>

context badger_deals
begin

text \<open>The size of a piece is that of a stored deal, or 0 when the walk over the deals failed.\<close>

lemma piece_size_stored:
  assumes inv: "deal_invar contents st s" and run: "GetPieceSize st s c = Ret (Inr (pl, ps))"
  shows "pl = 0 \<and> ps = 0 \<or>
    (\<exists>d. deal_view contents st s (ProposalCid d) = Some d \<and> PieceCID (Proposal d) = c \<and> pl = PayloadSize d \<and> ps = PieceSize (Proposal d))"
proof (cases "dsQuery (stDs st) s []")
  case (Inl e)
  then show ?thesis using run by (simp add: GetPieceSize_def travelDeals_def)
next
  case (Inr rs)
  show ?thesis
  proof (cases "find (\<lambda>d. PieceCID (Proposal d) = c) (fst (seen (stCodec st) rs))")
    case None
    then show ?thesis using run Inr by (cases "snd (seen (stCodec st) rs)") (simp_all add: GetPieceSize_def travelDeals_def travelLoop_first)
  next
    case (Some d)
    then have "PieceCID (Proposal d) = c" "d \<in> set (fst (seen (stCodec st) rs))" by (auto simp: find_Some_iff)
    moreover have "pl = PayloadSize d" "ps = PieceSize (Proposal d)" using run Inr Some by (simp_all add: GetPieceSize_def travelDeals_def travelLoop_first)
    ultimately show ?thesis using seen_stored [OF inv Inr] by blast
  qed
qed

end

text \<open>Pieces in memory, mounted with \<open>bytes.Reader\<close>.\<close>

definition mem_pieces :: "(MemPieceStore, bytes \<times> int, bytes) pieceOps" where
  "mem_pieces = \<lparr>poOps = mem_ops, poGetMountReader = (\<lambda>m i. tryE (memGetMountReader m i) (\<lambda>d. Inr (d, 0))), poGetReaderCloser = memGetMountReader\<rparr>"

lemma fetched_mounted:
  assumes "FetchUnsealedPiece m repo r c = Ret (Inr (Mounted a))"
  obtains pl ps p rd where "sdGetPieceSize repo r c = Ret (Inr (pl, ps))" "findForRead m c = Inr p"
    "poGetMountReader (maOps m) p (cidString m c) = Inr rd" "a = NewAlgnZeroMountReader rd (sint pl) (sint ps)"
  using assms by (auto simp: FetchUnsealedPiece_def go_err split: outcome.splits sum.splits prod.splits if_splits)


definition demo_pdeals :: "(ds_key \<times> MinerDeal) list" where
  "demo_pdeals = [([''p1''], (demo_md ''p1'' 7 16)\<lparr>PayloadSize := 10\<rparr>)]"

definition demo_market :: "(MemPieceStore, bytes \<times> int, bytes, bytes) marketAPI" where
  "demo_market = \<lparr>maOps = mem_pieces, maStorages = [(''b'', \<lparr>memName = ''b'', memData = [(''piece'', ''0123456789'')], memAvailable = None, RedirectResources = []\<rparr>)],
     maIntn = (\<lambda>_. 0), maUseTransient = False, cidString = (\<lambda>c. c), pieceUnpadded = (\<lambda>n. n), NewInflator = (\<lambda>c _ _. Inr c)\<rparr>"

definition demo_mounted :: "(bytes \<times> int) AlgnZeroMountReader" where
  "demo_mounted = \<lparr>azR = (''0123456789'', 0), azL = 10, azSize = 16, azSeekPos = 0\<rparr>"


text \<open>When the deals cannot be read, the mount succeeds all the same and the piece reads as empty.\<close>

theorem unreadable_deals_mount_empty:
  assumes "dsQuery (stDs st) s [] = Inl e" "findForRead m c = Inr p" "poGetMountReader (maOps m) p (cidString m c) = Inr rd" "\<not> maUseTransient m"
  shows "\<exists>a. FetchUnsealedPiece m (NewStorageDealRepo mo st) s c = Ret (Inr (Mounted a)) \<and> azReadAt ops a k 0 = (0, [], Some EOF)"
proof -
  have "GetPieceSize st s c = Ret (Inr (0, 0))" using assms(1) by (simp add: GetPieceSize_def travelDeals_def)
  then have "FetchUnsealedPiece m (NewStorageDealRepo mo st) s c = Ret (Inr (Mounted (NewAlgnZeroMountReader rd 0 0)))"
    using assms(2-4) by (simp add: FetchUnsealedPiece_def NewStorageDealRepo_def)
  then show ?thesis by (auto simp: azReadAt_def NewAlgnZeroMountReader_def alignZero_def)
qed

text \<open>A mount is the same after it was written to a URL and read back from it.\<close>

lemma mount_roundtrip: "decode (toString (mtPieceCid l)) = Inr (mtPieceCid l) \<Longrightarrow> mountDeserialize decode (mountSerialize toString l) l = Inr l"
  by (simp add: mountDeserialize_def mountSerialize_def)

section \<open>The migration and the shards\<close>

lemma registerDeals_bound: "snd (registerDeals dg t inS d deals) \<le> length (filter (\<lambda>x. mdState x \<in> set inS) deals)"
  by (induction deals arbitrary: d) (auto split: prod.splits option.splits intro: le_SucI, (metis le_SucI snd_conv)+)


text \<open>A DAG store whose shards are a list of keys; a shard is delivered as its key.\<close>

definition list_dag :: "(string list, string, string) dagStore" where
  "list_dag = \<lparr>AcquireShard = (\<lambda>d k. (d, if k \<in> set d then None else Some (ErrWrap ''acquire'' ErrShardUnknown))),
     awaitShard = (\<lambda>d k. Delivered (if k \<in> set d then Inr k else Inl ErrNotFound)), AccessorBlockstore = Inr,
     dagRegisterShard = (\<lambda>d k _ _ _. if k \<in> set d then (d, Some (ErrMsg ''shard exists'')) else (k # d, None)),
     RegisterShardSync = (\<lambda>d c _ _. (List.insert c d, None)), KeyFromCID = (\<lambda>c. c), ShardsContainingMultihash = (\<lambda>d c. Inr d), ParseCid = Inr\<rparr>"


text \<open>What the wrapper relies on: a known shard is not reported as unknown, an unknown one is not acquired, and a shard that was
  registered and initialised is known.\<close>

locale dag_shards =
  fixes dg :: "('d, 'a, 'b) dagStore" and known :: "'d \<Rightarrow> string \<Rightarrow> bool"
  assumes acquire_known: "known d k \<Longrightarrow> AcquireShard dg d k = (d', Some e) \<Longrightarrow> \<not> errors_Is e ErrShardUnknown"
    and acquire_unknown: "\<not> known d k \<Longrightarrow> AcquireShard dg d k \<noteq> (d', None)"
    and acquire_keeps: "AcquireShard dg d k = (d', err) \<Longrightarrow> known d' = known d"
    and register_known: "RegisterShardSync dg d c path eager = (d', None) \<Longrightarrow> known d' (KeyFromCID dg c)"
    and register_keeps: "RegisterShardSync dg d c path eager = (d', err) \<Longrightarrow> k \<noteq> KeyFromCID dg c \<Longrightarrow> known d' k = known d k"
begin

lemma load_known: "known d (KeyFromCID dg c) \<Longrightarrow> LoadShard dg d c = (d', r) \<Longrightarrow> known d' = known d"
  by (auto simp: LoadShard_def dest: acquire_known acquire_keeps split: prod.splits option.splits if_splits)

lemma load_other: "LoadShard dg d c = (d', r) \<Longrightarrow> k \<noteq> KeyFromCID dg c \<Longrightarrow> known d' k = known d k"
  by (auto simp: LoadShard_def dest!: acquire_keeps register_keeps split: prod.splits option.splits if_splits)

lemma load_ok:
  assumes "LoadShard dg d c = (d', Inr bs)"
  shows "known d' (KeyFromCID dg c) \<and> awaitBlockstore dg d' c = Inr bs"
  using assms acquire_unknown
  by (auto simp: LoadShard_def dest: acquire_keeps register_known split: prod.splits option.splits if_splits) (metis acquire_keeps)+

end

interpretation listdag: dag_shards list_dag "\<lambda>d k. k \<in> set d"
  by unfold_locales (auto simp: list_dag_def)

text \<open>Loading the shard of a piece: when a blockstore is returned it is the one of the shard the DAG store delivered for
  that piece, which is registered afterwards; a shard that was known is not registered again, and no other shard is.\<close>

theorem LoadShard_delivers:
  assumes "dag_shards dg known" "LoadShard dg d c = (d', r)"
  shows "(case r of
        Inr bs \<Rightarrow> known d' (KeyFromCID dg c) \<and> (\<exists>a. awaitShard dg d' (KeyFromCID dg c) = Delivered (Inr a) \<and> AccessorBlockstore dg a = Inr bs)
      | Inl _ \<Rightarrow> True) \<and>
    (known d (KeyFromCID dg c) \<longrightarrow> known d' = known d) \<and> (\<forall>k. k \<noteq> KeyFromCID dg c \<longrightarrow> known d' k = known d k)"
proof (intro conjI allI impI)
  show "case r of
        Inr bs \<Rightarrow> known d' (KeyFromCID dg c) \<and> (\<exists>a. awaitShard dg d' (KeyFromCID dg c) = Delivered (Inr a) \<and> AccessorBlockstore dg a = Inr bs)
      | Inl _ \<Rightarrow> True"
    using dag_shards.load_ok [OF assms(1)] assms(2)
    by (cases r) (fastforce simp: awaitBlockstore_def split: awaited.splits sum.splits)+
qed (use dag_shards.load_known [OF assms(1)] dag_shards.load_other [OF assms(1)] assms(2) in blast)+

theorem LoadShard_delivers_witness:
  "LoadShard list_dag [''other''] ''piece'' = ([''piece'', ''other''], Inr ''piece'') \<and> ''other'' \<in> set [''piece'', ''other'']"
proof -
  have run: "LoadShard list_dag [''other''] ''piece'' = ([''piece'', ''other''], Inr ''piece'')" by code_simp
  have "KeyFromCID list_dag ''piece'' = ''piece''" by (simp add: list_dag_def)
  then show ?thesis using run LoadShard_delivers [OF listdag.dag_shards_axioms run] by auto
qed

end
