(* ===== verification/Blockstores.thy ===== *)
theory Blockstores
  imports Market_Prelude "HOL-Library.AList"
begin

text \<open>
  Blockstores: the interface (\<open>src/blockstore/blockstore.go\<close>), the store in memory (\<open>mem.go\<close>), the store that answers for
  CIDs that carry their data (\<open>idstore.go\<close>), the buffer over two stores (\<open>buffered.go\<close>) and the adapter of plain stores. A
  store is a state with a record of operations; \<open>idstore\<close> and \<open>buffered\<close> make such records from others.
\<close>

section \<open>The interface\<close>

text \<open>\<open>isBasic\<close> tells whether the block is a \<open>blocks.BasicBlock\<close>.\<close>

record block =
  blkCid :: cid
  RawData :: bytes
  isBasic :: bool

record 's bsOps =
  bsHas :: "'s \<Rightarrow> cid \<Rightarrow> bool res"
  bsGet :: "'s \<Rightarrow> cid \<Rightarrow> block res"
  bsGetSize :: "'s \<Rightarrow> cid \<Rightarrow> int \<times> error option"
  bsView :: "'s \<Rightarrow> cid \<Rightarrow> (bytes \<Rightarrow> error option) \<Rightarrow> error option"
  bsPut :: "'s \<Rightarrow> block \<Rightarrow> 's \<times> error option"
  bsPutMany :: "'s \<Rightarrow> block list \<Rightarrow> 's \<times> error option"
  bsDeleteBlock :: "'s \<Rightarrow> cid \<Rightarrow> 's \<times> error option"
  bsDeleteMany :: "'s \<Rightarrow> cid list \<Rightarrow> 's \<times> error option"
  bsAllKeysChan :: "'s \<Rightarrow> cid list res"

definition basicBlock :: "bytes \<Rightarrow> cid \<Rightarrow> block" where
  "basicBlock d c = \<lparr>blkCid = c, RawData = d, isBasic = True\<rparr>"

text \<open>Any sequence of puts and deletes, successful or not.\<close>

definition runOps :: "'s bsOps \<Rightarrow> 's \<Rightarrow> (block + cid) list \<Rightarrow> 's" where
  "runOps ops s xs = foldl (\<lambda>s x. case x of Inl b \<Rightarrow> fst (bsPut ops s b) | Inr c \<Rightarrow> fst (bsDeleteBlock ops s c)) s xs"

text \<open>The contract. Blocks are addressed by their content: \<open>valid c d\<close> says that \<open>d\<close> is the data of \<open>c\<close>. \<open>pinned\<close> blocks are there
  whatever is deleted. A failed operation may have taken effect on the blocks it was given, never on others.\<close>

locale blockstore =
  fixes ops :: "'s bsOps" and view :: "'s \<Rightarrow> cid \<Rightarrow> bytes option" and invar :: "'s \<Rightarrow> bool"
    and valid :: "cid \<Rightarrow> bytes \<Rightarrow> bool" and pinned :: "cid \<Rightarrow> bool"
  assumes valid_unique: "valid c d \<Longrightarrow> valid c d' \<Longrightarrow> d = d'"
    and view_valid: "invar s \<Longrightarrow> view s c = Some d \<Longrightarrow> valid c d"
    and has_view: "invar s \<Longrightarrow> bsHas ops s c = Inr x \<Longrightarrow> x = (view s c \<noteq> None)"
    and get_view: "invar s \<Longrightarrow> bsGet ops s c = Inr b \<Longrightarrow> blkCid b = c \<and> view s c = Some (RawData b)"
    and get_missing: "invar s \<Longrightarrow> bsGet ops s c = Inl ErrNotFound \<Longrightarrow> view s c = None"
    and size_view: "invar s \<Longrightarrow> bsGetSize ops s c = (n, None) \<Longrightarrow> \<exists>d. view s c = Some d \<and> n = int (length d)"
    and put_invar: "invar s \<Longrightarrow> valid (blkCid b) (RawData b) \<Longrightarrow> bsPut ops s b = (s', err) \<Longrightarrow> invar s'"
    and put_view: "invar s \<Longrightarrow> valid (blkCid b) (RawData b) \<Longrightarrow> bsPut ops s b = (s', None) \<Longrightarrow> view s' = (view s)(blkCid b \<mapsto> RawData b)"
    and put_other: "invar s \<Longrightarrow> valid (blkCid b) (RawData b) \<Longrightarrow> bsPut ops s b = (s', Some e) \<Longrightarrow> c \<noteq> blkCid b \<Longrightarrow> view s' c = view s c"
    and put_keeps: "invar s \<Longrightarrow> valid (blkCid b) (RawData b) \<Longrightarrow> bsPut ops s b = (s', Some e) \<Longrightarrow> view s c = Some d \<Longrightarrow> view s' c = Some d"
    and delete_invar: "invar s \<Longrightarrow> bsDeleteBlock ops s c = (s', err) \<Longrightarrow> invar s'"
    and delete_view: "invar s \<Longrightarrow> bsDeleteBlock ops s c = (s', None) \<Longrightarrow> \<not> pinned c \<Longrightarrow> view s' c = None"
    and delete_other: "invar s \<Longrightarrow> bsDeleteBlock ops s c = (s', err) \<Longrightarrow> c' \<noteq> c \<or> pinned c \<Longrightarrow> view s' c' = view s c'"
begin

lemma runOps_invar: "invar s \<Longrightarrow> \<forall>b. Inl b \<in> set xs \<longrightarrow> valid (blkCid b) (RawData b) \<Longrightarrow> invar (runOps ops s xs)"
proof (induction xs arbitrary: s)
  case (Cons x xs)
  have "invar (case x of Inl b \<Rightarrow> fst (bsPut ops s b) | Inr c \<Rightarrow> fst (bsDeleteBlock ops s c))"
  proof (cases x)
    case (Inl b)
    then show ?thesis using Cons.prems put_invar [of s b] by (cases "bsPut ops s b") simp
  next
    case (Inr c)
    then show ?thesis using Cons.prems delete_invar [of s c] by (cases "bsDeleteBlock ops s c") simp
  qed
  then show ?case using Cons by (simp add: runOps_def)
qed (simp add: runOps_def)

text \<open>A stored block stays, with its data, as long as it is not deleted.\<close>

lemma runOps_keeps:
  assumes "invar s" "\<forall>b. Inl b \<in> set xs \<longrightarrow> valid (blkCid b) (RawData b)" "Inr c \<notin> set xs" "view s c = Some d"
  shows "view (runOps ops s xs) c = Some d"
  using assms
proof (induction xs arbitrary: s)
  case (Cons x xs)
  let ?s = "case x of Inl b \<Rightarrow> fst (bsPut ops s b) | Inr c \<Rightarrow> fst (bsDeleteBlock ops s c)"
  have i: "invar ?s" using runOps_invar [of s "[x]"] Cons.prems by (simp add: runOps_def)
  have "view ?s c = Some d"
  proof (cases x)
    case (Inl b)
    obtain s1 e where p: "bsPut ops s b = (s1, e)" by (cases "bsPut ops s b")
    have v: "valid (blkCid b) (RawData b)" using Cons.prems(2) Inl by simp
    show ?thesis
    proof (cases e)
      case None
      then show ?thesis using put_view [OF Cons.prems(1) v] p Inl Cons.prems(1,4) v valid_unique view_valid by (auto split: if_splits)
    next
      case (Some e')
      then show ?thesis using put_keeps [OF Cons.prems(1) v _ Cons.prems(4)] p Inl by simp
    qed
  next
    case (Inr c')
    then show ?thesis using Cons.prems delete_other [OF Cons.prems(1), of c'] by (cases "bsDeleteBlock ops s c'") auto
  qed
  then show ?case using Cons.IH [OF i] Cons.prems by (simp add: runOps_def)
qed (simp add: runOps_def)

lemma put_then_get:
  assumes "invar s" "valid (blkCid b) (RawData b)" "bsPut ops s b = (s1, None)"
    and "\<forall>b. Inl b \<in> set xs \<longrightarrow> valid (blkCid b) (RawData b)" "Inr (blkCid b) \<notin> set xs"
  shows "bsGet ops (runOps ops s1 xs) (blkCid b) \<noteq> Inl ErrNotFound \<and> bsHas ops (runOps ops s1 xs) (blkCid b) \<noteq> Inr False \<and>
    (\<forall>b'. bsGet ops (runOps ops s1 xs) (blkCid b) = Inr b' \<longrightarrow> RawData b' = RawData b \<and> blkCid b' = blkCid b)"
proof -
  have i: "invar s1" by (rule put_invar [OF assms(1-3)])
  have "view s1 (blkCid b) = Some (RawData b)" using put_view [OF assms(1-3)] by simp
  note v = runOps_keeps [OF i assms(4,5) this] and j = runOps_invar [OF i assms(4)]
  show ?thesis using get_view [OF j] get_missing [OF j] has_view [OF j] v by fastforce
qed

end

section \<open>The store in memory\<close>

type_synonym MemBlockstore = "(cid \<times> block) list"

definition memBsPut :: "MemBlockstore \<Rightarrow> block \<Rightarrow> MemBlockstore \<times> error option" where
  "memBsPut m b =
     (if \<not> isBasic b then
        (if map_of m (blkCid b) \<noteq> None then (m, None)
         else (AList.update (blkCid b) (basicBlock (RawData b) (blkCid b)) m, None))
      else (AList.update (blkCid b) b m, None))"

definition memBsPutMany :: "MemBlockstore \<Rightarrow> block list \<Rightarrow> MemBlockstore \<times> error option" where
  "memBsPutMany m bs = (foldl (\<lambda>m b. fst (memBsPut m b)) m bs, None)"

definition memBsDeleteMany :: "MemBlockstore \<Rightarrow> cid list \<Rightarrow> MemBlockstore \<times> error option" where
  "memBsDeleteMany m ks = (foldl (\<lambda>m k. AList.delete k m) m ks, None)"

definition memBsGet :: "MemBlockstore \<Rightarrow> cid \<Rightarrow> block res" where
  "memBsGet m k = (case map_of m k of None \<Rightarrow> Inl ErrNotFound | Some b \<Rightarrow> Inr b)"

definition memBsGetSize :: "MemBlockstore \<Rightarrow> cid \<Rightarrow> int \<times> error option" where
  "memBsGetSize m k = (case map_of m k of None \<Rightarrow> (0, Some ErrNotFound) | Some b \<Rightarrow> (int (length (RawData b)), None))"

definition memBsView :: "MemBlockstore \<Rightarrow> cid \<Rightarrow> (bytes \<Rightarrow> error option) \<Rightarrow> error option" where
  "memBsView m k callback = (case map_of m k of None \<Rightarrow> Some ErrNotFound | Some b \<Rightarrow> callback (RawData b))"

definition memBlockstore :: "MemBlockstore bsOps" where
  "memBlockstore = \<lparr>bsHas = (\<lambda>m k. Inr (map_of m k \<noteq> None)), bsGet = memBsGet, bsGetSize = memBsGetSize, bsView = memBsView,
     bsPut = memBsPut, bsPutMany = memBsPutMany, bsDeleteBlock = (\<lambda>m k. (AList.delete k m, None)), bsDeleteMany = memBsDeleteMany,
     bsAllKeysChan = (\<lambda>m. Inr (remdups (map fst m)))\<rparr>"

definition memView :: "MemBlockstore \<Rightarrow> cid \<Rightarrow> bytes option" where
  "memView m c = map_option RawData (map_of m c)"

definition memInvar :: "(cid \<Rightarrow> bytes \<Rightarrow> bool) \<Rightarrow> MemBlockstore \<Rightarrow> bool" where
  "memInvar valid m \<longleftrightarrow> (\<forall>c b. map_of m c = Some b \<longrightarrow> blkCid b = c \<and> valid c (RawData b))"

lemma mem_blockstore:
  assumes "\<And>c d d'. valid c d \<Longrightarrow> valid c d' \<Longrightarrow> d = d'"
  shows "blockstore memBlockstore memView (memInvar valid) valid (\<lambda>_. False)"
  by unfold_locales
    (auto simp: memBlockstore_def memView_def memInvar_def memBsGet_def memBsGetSize_def memBsPut_def update_conv' delete_conv' basicBlock_def fun_eq_iff
      intro: assms split: if_splits option.splits)

section \<open>CIDs that carry their data\<close>

text \<open>\<open>decodeCid\<close>: the digest of an identity CID, nothing for other CIDs, or an error; \<open>isIdentity\<close> and \<open>mhDecode\<close> (the code and the
  digest of the multihash) are the CID library.\<close>

record cidLib =
  isIdentity :: "cid \<Rightarrow> bool"
  mhDecode :: "cid \<Rightarrow> (bool \<times> bytes) res"

definition decodeCid :: "cidLib \<Rightarrow> cid \<Rightarrow> bytes option res" where
  "decodeCid lib c =
     (if \<not> isIdentity lib c then Inr None
      else (case mhDecode lib c of
              Inl e \<Rightarrow> Inl e
            | Inr (isId, digest) \<Rightarrow> if isId then Inr (Some digest) else Inr None))"

definition decoding :: "'a res \<Rightarrow> ('a \<Rightarrow> 'b res) \<Rightarrow> 'b res" where
  "decoding x k = (case x of Inl e \<Rightarrow> Inl (ErrWrap ''error decoding Cid'' e) | Inr v \<Rightarrow> k v)"

definition idHas :: "cidLib \<Rightarrow> 's bsOps \<Rightarrow> 's \<Rightarrow> cid \<Rightarrow> bool res" where
  "idHas lib bs s c = decoding (decodeCid lib c) (\<lambda>inline. if inline \<noteq> None then Inr True else bsHas bs s c)"

definition idGet :: "cidLib \<Rightarrow> 's bsOps \<Rightarrow> 's \<Rightarrow> cid \<Rightarrow> block res" where
  "idGet lib bs s c = decoding (decodeCid lib c) (\<lambda>inline. case inline of Some data \<Rightarrow> Inr (basicBlock data c) | None \<Rightarrow> bsGet bs s c)"

definition idGetSize :: "cidLib \<Rightarrow> 's bsOps \<Rightarrow> 's \<Rightarrow> cid \<Rightarrow> int \<times> error option" where
  "idGetSize lib bs s c =
     (case decodeCid lib c of
        Inl e \<Rightarrow> (0, Some (ErrWrap ''error decoding Cid'' e))
      | Inr (Some data) \<Rightarrow> (int (length data), None)
      | Inr None \<Rightarrow> bsGetSize bs s c)"

definition idView :: "cidLib \<Rightarrow> 's bsOps \<Rightarrow> 's \<Rightarrow> cid \<Rightarrow> (bytes \<Rightarrow> error option) \<Rightarrow> error option" where
  "idView lib bs s c cb =
     (case decodeCid lib c of
        Inl e \<Rightarrow> Some (ErrWrap ''error decoding Cid'' e)
      | Inr (Some data) \<Rightarrow> cb data
      | Inr None \<Rightarrow> bsView bs s c cb)"

definition idPut :: "cidLib \<Rightarrow> 's bsOps \<Rightarrow> 's \<Rightarrow> block \<Rightarrow> 's \<times> error option" where
  "idPut lib bs s b =
     (case decodeCid lib (blkCid b) of
        Inl e \<Rightarrow> (s, Some (ErrWrap ''error decoding Cid'' e))
      | Inr (Some _) \<Rightarrow> (s, None)
      | Inr None \<Rightarrow> bsPut bs s b)"

text \<open>The items whose CIDs carry no data, or the first decoding error.\<close>

fun notInline :: "cidLib \<Rightarrow> ('a \<Rightarrow> cid) \<Rightarrow> 'a list \<Rightarrow> 'a list res" where
  "notInline lib f [] = Inr []"
| "notInline lib f (x # xs) =
     decoding (decodeCid lib (f x)) (\<lambda>inline. tryE (notInline lib f xs) (\<lambda>ys. Inr (if inline \<noteq> None then ys else x # ys)))"

definition idPutMany :: "cidLib \<Rightarrow> 's bsOps \<Rightarrow> 's \<Rightarrow> block list \<Rightarrow> 's \<times> error option" where
  "idPutMany lib bs s blks =
     (case notInline lib blkCid blks of
        Inl e \<Rightarrow> (s, Some e)
      | Inr toPut \<Rightarrow> if toPut \<noteq> [] then bsPutMany bs s toPut else (s, None))"

definition idDeleteBlock :: "cidLib \<Rightarrow> 's bsOps \<Rightarrow> 's \<Rightarrow> cid \<Rightarrow> 's \<times> error option" where
  "idDeleteBlock lib bs s c =
     (case decodeCid lib c of
        Inl e \<Rightarrow> (s, Some (ErrWrap ''error decoding Cid'' e))
      | Inr (Some _) \<Rightarrow> (s, None)
      | Inr None \<Rightarrow> bsDeleteBlock bs s c)"

definition idDeleteMany :: "cidLib \<Rightarrow> 's bsOps \<Rightarrow> 's \<Rightarrow> cid list \<Rightarrow> 's \<times> error option" where
  "idDeleteMany lib bs s cids =
     (case notInline lib (\<lambda>c. c) cids of
        Inl e \<Rightarrow> (s, Some e)
      | Inr toDelete \<Rightarrow> if toDelete \<noteq> [] then bsDeleteMany bs s toDelete else (s, None))"

definition NewIDStore :: "cidLib \<Rightarrow> 's bsOps \<Rightarrow> 's bsOps" where
  "NewIDStore lib bs = \<lparr>bsHas = idHas lib bs, bsGet = idGet lib bs, bsGetSize = idGetSize lib bs, bsView = idView lib bs,
     bsPut = idPut lib bs, bsPutMany = idPutMany lib bs, bsDeleteBlock = idDeleteBlock lib bs, bsDeleteMany = idDeleteMany lib bs,
     bsAllKeysChan = bsAllKeysChan bs\<rparr>"

section \<open>The buffer over two stores\<close>

definition bufDeleteBlock :: "'r bsOps \<Rightarrow> 'w bsOps \<Rightarrow> 'r \<times> 'w \<Rightarrow> cid \<Rightarrow> ('r \<times> 'w) \<times> error option" where
  "bufDeleteBlock rd wr st c =
     (case bsDeleteBlock rd (fst st) c of
        (r, Some e) \<Rightarrow> ((r, snd st), Some e)
      | (r, None) \<Rightarrow> (case bsDeleteBlock wr (snd st) c of (w, err) \<Rightarrow> ((r, w), err)))"

definition bufDeleteMany :: "'r bsOps \<Rightarrow> 'w bsOps \<Rightarrow> 'r \<times> 'w \<Rightarrow> cid list \<Rightarrow> ('r \<times> 'w) \<times> error option" where
  "bufDeleteMany rd wr st cids =
     (case bsDeleteMany rd (fst st) cids of
        (r, Some e) \<Rightarrow> ((r, snd st), Some e)
      | (r, None) \<Rightarrow> (case bsDeleteMany wr (snd st) cids of (w, err) \<Rightarrow> ((r, w), err)))"

definition bufView :: "'r bsOps \<Rightarrow> 'w bsOps \<Rightarrow> 'r \<times> 'w \<Rightarrow> cid \<Rightarrow> (bytes \<Rightarrow> error option) \<Rightarrow> error option" where
  "bufView rd wr st c callback =
     (case bsView wr (snd st) c callback of
        Some ErrNotFound \<Rightarrow> bsView rd (fst st) c callback
      | err \<Rightarrow> err)"

definition bufGet :: "'r bsOps \<Rightarrow> 'w bsOps \<Rightarrow> 'r \<times> 'w \<Rightarrow> cid \<Rightarrow> block res" where
  "bufGet rd wr st c =
     (case bsGet wr (snd st) c of
        Inr b \<Rightarrow> Inr b
      | Inl e \<Rightarrow> if e \<noteq> ErrNotFound then Inl e else bsGet rd (fst st) c)"

definition bufGetSize :: "'r bsOps \<Rightarrow> 'w bsOps \<Rightarrow> 'r \<times> 'w \<Rightarrow> cid \<Rightarrow> int \<times> error option" where
  "bufGetSize rd wr st c =
     (case bsGetSize rd (fst st) c of
        (s, err) \<Rightarrow> if err = Some ErrNotFound \<or> s = 0 then bsGetSize wr (snd st) c else (s, err))"

definition bufPut :: "'r bsOps \<Rightarrow> 'w bsOps \<Rightarrow> 'r \<times> 'w \<Rightarrow> block \<Rightarrow> ('r \<times> 'w) \<times> error option" where
  "bufPut rd wr st b =
     (case bsHas rd (fst st) (blkCid b) of
        Inl e \<Rightarrow> (st, Some e)
      | Inr True \<Rightarrow> (st, None)
      | Inr False \<Rightarrow> (case bsPut wr (snd st) b of (w, err) \<Rightarrow> ((fst st, w), err)))"

definition bufHas :: "'r bsOps \<Rightarrow> 'w bsOps \<Rightarrow> 'r \<times> 'w \<Rightarrow> cid \<Rightarrow> bool res" where
  "bufHas rd wr st c = tryE (bsHas wr (snd st) c) (\<lambda>has. if has then Inr True else bsHas rd (fst st) c)"

text \<open>\<open>merge\<close> is the order in which the keys of the two stores arrive.\<close>

definition NewTieredBstore :: "(cid list \<Rightarrow> cid list \<Rightarrow> cid list) \<Rightarrow> 'r bsOps \<Rightarrow> 'w bsOps \<Rightarrow> ('r \<times> 'w) bsOps" where
  "NewTieredBstore merge rd wr = \<lparr>bsHas = bufHas rd wr, bsGet = bufGet rd wr, bsGetSize = bufGetSize rd wr, bsView = bufView rd wr,
     bsPut = bufPut rd wr, bsPutMany = (\<lambda>st bs. case bsPutMany wr (snd st) bs of (w, err) \<Rightarrow> ((fst st, w), err)),
     bsDeleteBlock = bufDeleteBlock rd wr, bsDeleteMany = bufDeleteMany rd wr,
     bsAllKeysChan = (\<lambda>st. tryE (bsAllKeysChan rd (fst st)) (\<lambda>a. tryE (bsAllKeysChan wr (snd st)) (\<lambda>b. Inr (merge a b))))\<rparr>"

section \<open>The adapter\<close>

definition adaptView :: "('s \<Rightarrow> cid \<Rightarrow> block res) \<Rightarrow> 's \<Rightarrow> cid \<Rightarrow> (bytes \<Rightarrow> error option) \<Rightarrow> error option" where
  "adaptView get s c callback = (case get s c of Inl e \<Rightarrow> Some e | Inr b \<Rightarrow> callback (RawData b))"

fun adaptDeleteMany :: "('s \<Rightarrow> cid \<Rightarrow> 's \<times> error option) \<Rightarrow> 's \<Rightarrow> cid list \<Rightarrow> 's \<times> error option" where
  "adaptDeleteMany del s [] = (s, None)"
| "adaptDeleteMany del s (c # cs) = (case del s c of (s1, Some e) \<Rightarrow> (s1, Some e) | (s1, None) \<Rightarrow> adaptDeleteMany del s1 cs)"

definition Adapt :: "'s bsOps \<Rightarrow> 's bsOps" where
  "Adapt bs = bs\<lparr>bsView := adaptView (bsGet bs), bsDeleteMany := adaptDeleteMany (bsDeleteBlock bs)\<rparr>"

section \<open>Stores made of stores satisfy the contract\<close>

definition inlineView :: "cidLib \<Rightarrow> ('s \<Rightarrow> cid \<Rightarrow> bytes option) \<Rightarrow> 's \<Rightarrow> cid \<Rightarrow> bytes option" where
  "inlineView lib view s c = (case decodeCid lib c of Inr (Some d) \<Rightarrow> Some d | _ \<Rightarrow> view s c)"

definition inlined :: "cidLib \<Rightarrow> cid \<Rightarrow> bool" where
  "inlined lib c \<longleftrightarrow> (\<exists>d. decodeCid lib c = Inr (Some d))"

locale id_over = blockstore bs view invar valid pinned
  for bs :: "'s bsOps" and view and invar and valid and pinned +
  fixes lib :: cidLib
  assumes inline_valid: "decodeCid lib c = Inr (Some data) \<Longrightarrow> valid c data"
begin

lemmas id_defs = NewIDStore_def idHas_def idGet_def idGetSize_def idPut_def idDeleteBlock_def decoding_def inlineView_def inlined_def basicBlock_def

end

sublocale id_over \<subseteq> ids: blockstore "NewIDStore lib bs" "inlineView lib view" invar valid "\<lambda>c. pinned c \<or> inlined lib c"
proof unfold_locales
  fix s s' c c' d d' n b err
  show "valid c d \<Longrightarrow> valid c d' \<Longrightarrow> d = d'" by (rule valid_unique)
  show "invar s \<Longrightarrow> inlineView lib view s c = Some d \<Longrightarrow> valid c d"
    using inline_valid view_valid by (auto simp: inlineView_def split: sum.splits option.splits)
  show "invar s \<Longrightarrow> bsHas (NewIDStore lib bs) s c = Inr x \<Longrightarrow> x = (inlineView lib view s c \<noteq> None)" for x
    using has_view by (auto simp: id_defs split: sum.splits option.splits if_splits)
  show "invar s \<Longrightarrow> bsGet (NewIDStore lib bs) s c = Inr b \<Longrightarrow> blkCid b = c \<and> inlineView lib view s c = Some (RawData b)"
    using get_view by (auto simp: id_defs split: sum.splits option.splits)
  show "invar s \<Longrightarrow> bsGet (NewIDStore lib bs) s c = Inl ErrNotFound \<Longrightarrow> inlineView lib view s c = None"
    using get_missing by (auto simp: id_defs split: sum.splits option.splits)
  show "invar s \<Longrightarrow> bsGetSize (NewIDStore lib bs) s c = (n, None) \<Longrightarrow> \<exists>d. inlineView lib view s c = Some d \<and> n = int (length d)"
    using size_view by (auto simp: id_defs split: sum.splits option.splits)
  show "invar s \<Longrightarrow> valid (blkCid b) (RawData b) \<Longrightarrow> bsPut (NewIDStore lib bs) s b = (s', err) \<Longrightarrow> invar s'"
    using put_invar by (auto simp: id_defs split: sum.splits option.splits)
  show "invar s \<Longrightarrow> valid (blkCid b) (RawData b) \<Longrightarrow> bsPut (NewIDStore lib bs) s b = (s', None) \<Longrightarrow>
      inlineView lib view s' = (inlineView lib view s)(blkCid b \<mapsto> RawData b)"
    using put_view inline_valid valid_unique by (fastforce simp: id_defs fun_eq_iff split: sum.splits option.splits)
  show "invar s \<Longrightarrow> valid (blkCid b) (RawData b) \<Longrightarrow> bsPut (NewIDStore lib bs) s b = (s', Some e) \<Longrightarrow> c \<noteq> blkCid b \<Longrightarrow>
      inlineView lib view s' c = inlineView lib view s c" for e
    using put_other by (auto simp: id_defs split: sum.splits option.splits)
  show "invar s \<Longrightarrow> valid (blkCid b) (RawData b) \<Longrightarrow> bsPut (NewIDStore lib bs) s b = (s', Some e) \<Longrightarrow> inlineView lib view s c = Some d \<Longrightarrow>
      inlineView lib view s' c = Some d" for e
    using put_keeps by (fastforce simp: id_defs split: sum.splits option.splits)
  show "invar s \<Longrightarrow> bsDeleteBlock (NewIDStore lib bs) s c = (s', err) \<Longrightarrow> invar s'"
    using delete_invar by (auto simp: id_defs split: sum.splits option.splits)
  show "invar s \<Longrightarrow> bsDeleteBlock (NewIDStore lib bs) s c = (s', None) \<Longrightarrow> \<not> (pinned c \<or> inlined lib c) \<Longrightarrow> inlineView lib view s' c = None"
    using delete_view by (auto simp: id_defs split: sum.splits option.splits)
  show "invar s \<Longrightarrow> bsDeleteBlock (NewIDStore lib bs) s c = (s', err) \<Longrightarrow> c' \<noteq> c \<or> pinned c \<or> inlined lib c \<Longrightarrow>
      inlineView lib view s' c' = inlineView lib view s c'"
    using delete_other by (fastforce simp: id_defs split: sum.splits option.splits)
qed

context id_over begin

lemmas id_laws = ids.blockstore_axioms

end

definition tieredView :: "('r \<Rightarrow> cid \<Rightarrow> bytes option) \<Rightarrow> ('w \<Rightarrow> cid \<Rightarrow> bytes option) \<Rightarrow> 'r \<times> 'w \<Rightarrow> cid \<Rightarrow> bytes option" where
  "tieredView vr vw st c = (case vw (snd st) c of Some d \<Rightarrow> Some d | None \<Rightarrow> vr (fst st) c)"

locale two_stores = R: blockstore rd vr ir valid pinned + W: blockstore wr vw iw valid pinned
  for rd :: "'r bsOps" and vr and ir and wr :: "'w bsOps" and vw and iw and valid and pinned
begin

lemmas tier_defs = NewTieredBstore_def bufHas_def bufGet_def bufGetSize_def bufPut_def bufDeleteBlock_def tieredView_def tryE_def

lemma put_keeps_tiered:
  assumes "ir (fst s) \<and> iw (snd s)" "valid (blkCid b) (RawData b)" "bsPut (NewTieredBstore merge rd wr) s b = (s', Some e)" "tieredView vr vw s c = Some d"
  shows "tieredView vr vw s' c = Some d"
proof (cases "s' = s")
  case False
  then obtain w where w: "bsPut wr (snd s) b = (w, Some e)" "s' = (fst s, w)"
    using assms(3) by (auto simp: NewTieredBstore_def bufPut_def split: sum.splits prod.splits bool.splits)
  have "iw w" using W.put_invar [OF _ assms(2) w(1)] assms(1) by blast
  then have "vw w c = Some d' \<Longrightarrow> vr (fst s) c = Some d \<Longrightarrow> d' = d" for d'
    using W.view_valid R.view_valid assms(1) R.valid_unique by blast
  then show ?thesis using W.put_keeps [OF _ assms(2) w(1)] w(2) assms(1,4) by (auto simp: tieredView_def split: option.splits)
qed (use assms(4) in simp)

end

sublocale two_stores \<subseteq> tiered: blockstore "NewTieredBstore merge rd wr" "tieredView vr vw" "\<lambda>st. ir (fst st) \<and> iw (snd st)" valid pinned for merge
proof unfold_locales
  let ?ops = "NewTieredBstore merge rd wr" and ?v = "tieredView vr vw"
  fix s s' :: "'r \<times> 'w" and c c' d d' n b err
  show "valid c d \<Longrightarrow> valid c d' \<Longrightarrow> d = d'" by (rule R.valid_unique)
  show "ir (fst s) \<and> iw (snd s) \<Longrightarrow> ?v s c = Some d \<Longrightarrow> valid c d"
    using R.view_valid W.view_valid by (auto simp: tieredView_def split: option.splits)
  show "ir (fst s) \<and> iw (snd s) \<Longrightarrow> bsHas ?ops s c = Inr x \<Longrightarrow> x = (?v s c \<noteq> None)" for x
    using R.has_view W.has_view by (fastforce simp: tier_defs split: sum.splits option.splits if_splits)
  show "ir (fst s) \<and> iw (snd s) \<Longrightarrow> bsGet ?ops s c = Inr b \<Longrightarrow> blkCid b = c \<and> ?v s c = Some (RawData b)"
    using R.get_view W.get_view W.get_missing by (fastforce simp: tier_defs split: sum.splits option.splits if_splits)
  show "ir (fst s) \<and> iw (snd s) \<Longrightarrow> bsGet ?ops s c = Inl ErrNotFound \<Longrightarrow> ?v s c = None"
    using R.get_missing W.get_missing by (fastforce simp: tier_defs split: sum.splits option.splits if_splits)
  show "ir (fst s) \<and> iw (snd s) \<Longrightarrow> bsGetSize ?ops s c = (n, None) \<Longrightarrow> \<exists>d. ?v s c = Some d \<and> n = int (length d)"
    using R.size_view [of "fst s" c] W.size_view [of "snd s" c] R.view_valid [of "fst s" c] W.view_valid [of "snd s" c] R.valid_unique
    by (fastforce simp: tier_defs split: prod.splits option.splits if_splits)
  show "ir (fst s) \<and> iw (snd s) \<Longrightarrow> valid (blkCid b) (RawData b) \<Longrightarrow> bsPut ?ops s b = (s', err) \<Longrightarrow> ir (fst s') \<and> iw (snd s')"
    using W.put_invar by (auto simp: tier_defs split: sum.splits prod.splits bool.splits)
  show "ir (fst s) \<and> iw (snd s) \<Longrightarrow> valid (blkCid b) (RawData b) \<Longrightarrow> bsPut ?ops s b = (s', None) \<Longrightarrow> ?v s' = (?v s)(blkCid b \<mapsto> RawData b)"
    using W.put_view [of "snd s" b] R.has_view [of "fst s" "blkCid b"] R.view_valid [of "fst s" "blkCid b"] W.view_valid [of "snd s" "blkCid b"] R.valid_unique
    by (fastforce simp: tier_defs fun_eq_iff split: sum.splits prod.splits bool.splits option.splits)
  show "ir (fst s) \<and> iw (snd s) \<Longrightarrow> valid (blkCid b) (RawData b) \<Longrightarrow> bsPut ?ops s b = (s', Some e) \<Longrightarrow> c \<noteq> blkCid b \<Longrightarrow> ?v s' c = ?v s c" for e
    using W.put_other by (auto simp: tier_defs split: sum.splits prod.splits bool.splits option.splits)
  show "ir (fst s) \<and> iw (snd s) \<Longrightarrow> valid (blkCid b) (RawData b) \<Longrightarrow> bsPut ?ops s b = (s', Some e) \<Longrightarrow> ?v s c = Some d \<Longrightarrow> ?v s' c = Some d" for e
    by (rule put_keeps_tiered)
  show "ir (fst s) \<and> iw (snd s) \<Longrightarrow> bsDeleteBlock ?ops s c = (s', err) \<Longrightarrow> ir (fst s') \<and> iw (snd s')"
    using R.delete_invar W.delete_invar by (auto simp: tier_defs split: prod.splits option.splits)
  show "ir (fst s) \<and> iw (snd s) \<Longrightarrow> bsDeleteBlock ?ops s c = (s', None) \<Longrightarrow> \<not> pinned c \<Longrightarrow> ?v s' c = None"
    using R.delete_view W.delete_view by (fastforce simp: tier_defs split: prod.splits option.splits)
  show "ir (fst s) \<and> iw (snd s) \<Longrightarrow> bsDeleteBlock ?ops s c = (s', err) \<Longrightarrow> c' \<noteq> c \<or> pinned c \<Longrightarrow> ?v s' c' = ?v s c'"
    using R.delete_other [of "fst s" c] W.delete_other [of "snd s" c] by (fastforce simp: tier_defs split: prod.splits option.splits)
qed

context two_stores begin

lemmas tiered_laws = tiered.blockstore_axioms

end

lemma id_over_tiered:
  assumes "blockstore rd vr ir valid pinned" "blockstore wr vw iw valid pinned" "\<And>c d. decodeCid lib c = Inr (Some d) \<Longrightarrow> valid c d"
  shows "blockstore (NewIDStore lib (NewTieredBstore merge rd wr)) (inlineView lib (tieredView vr vw)) (\<lambda>st. ir (fst st) \<and> iw (snd st)) valid
    (\<lambda>c. pinned c \<or> inlined lib c)"
proof -
  have "two_stores rd vr ir wr vw iw valid pinned" by (rule two_stores.intro [OF assms(1,2)])
  from two_stores.tiered_laws [OF this] have "id_over (NewTieredBstore merge rd wr) (tieredView vr vw) (\<lambda>st. ir (fst st) \<and> iw (snd st)) valid pinned lib"
    using assms(3) by (simp add: id_over_def id_over_axioms_def)
  then show ?thesis by (rule id_over.id_laws)
qed

text \<open>A concrete addressing of blocks, without identity CIDs.\<close>

definition demo_valid :: "cid \<Rightarrow> bytes \<Rightarrow> bool" where
  "demo_valid c d \<longleftrightarrow> c = ''bafk'' @ d"

definition demo_lib :: cidLib where
  "demo_lib = \<lparr>isIdentity = (\<lambda>_. False), mhDecode = (\<lambda>_. Inl ErrNotFound)\<rparr>"

text \<open>Property C34. A block that was put into a store made of an identity store over a buffer over two stores is never missing
  afterwards, and reads back with its data, whatever other puts and deletes follow, succeed or fail, as long as that
  block is not deleted; a block whose CID carries its data is there even then.\<close>

theorem stacked_store_keeps_blocks:
  assumes "blockstore rd vr ir valid pinned" "blockstore wr vw iw valid pinned" "\<And>c d. decodeCid lib c = Inr (Some d) \<Longrightarrow> valid c d"
    and "ir (fst s)" "iw (snd s)" "valid (blkCid b) (RawData b)" "bsPut (NewIDStore lib (NewTieredBstore merge rd wr)) s b = (s1, None)"
    and "\<forall>b. Inl b \<in> set xs \<longrightarrow> valid (blkCid b) (RawData b)" "Inr (blkCid b) \<notin> set xs \<or> inlined lib (blkCid b)"
    and "s2 = runOps (NewIDStore lib (NewTieredBstore merge rd wr)) s1 xs"
  shows "bsGet (NewIDStore lib (NewTieredBstore merge rd wr)) s2 (blkCid b) \<noteq> Inl ErrNotFound \<and>
    bsHas (NewIDStore lib (NewTieredBstore merge rd wr)) s2 (blkCid b) \<noteq> Inr False \<and>
    (\<forall>b'. bsGet (NewIDStore lib (NewTieredBstore merge rd wr)) s2 (blkCid b) = Inr b' \<longrightarrow> RawData b' = RawData b \<and> blkCid b' = blkCid b)"
proof -
  have stk: "blockstore (NewIDStore lib (NewTieredBstore merge rd wr)) (inlineView lib (tieredView vr vw)) (\<lambda>st. ir (fst st) \<and> iw (snd st)) valid
      (\<lambda>c. pinned c \<or> inlined lib c)" by (rule id_over_tiered [OF assms(1,2)]) (rule assms(3))
  show ?thesis
  proof (cases "inlined lib (blkCid b)")
    case True
    then obtain d where d: "decodeCid lib (blkCid b) = Inr (Some d)" by (auto simp: inlined_def)
    then have "d = RawData b" using assms(3,6) blockstore.valid_unique [OF assms(1)] by blast
    then have "bsGet (NewIDStore lib bs) s2 (blkCid b) = Inr (basicBlock (RawData b) (blkCid b))" "bsHas (NewIDStore lib bs) s2 (blkCid b) = Inr True" for bs
      using d by (simp_all add: NewIDStore_def idGet_def idHas_def decoding_def)
    then show ?thesis by (simp add: basicBlock_def)
  next
    case False
    then have nd: "Inr (blkCid b) \<notin> set xs" using assms(9) by blast
    have iv: "ir (fst s) \<and> iw (snd s)" using assms(4,5) by blast
    show ?thesis unfolding assms(10) by (rule blockstore.put_then_get [OF stk iv assms(6,7,8) nd])
  qed
qed

interpretation membs: blockstore memBlockstore memView "memInvar demo_valid" demo_valid "\<lambda>_. False"
  by (rule mem_blockstore) (simp add: demo_valid_def)

interpretation memtiers: two_stores memBlockstore memView "memInvar demo_valid" memBlockstore memView "memInvar demo_valid" demo_valid "\<lambda>_. False"
  by unfold_locales

interpretation memids: id_over memBlockstore memView "memInvar demo_valid" demo_valid "\<lambda>_. False" demo_lib
  by unfold_locales (simp add: demo_lib_def decodeCid_def)

theorem stacked_store_keeps_blocks_witness:
  "bsGet (NewIDStore demo_lib (NewTieredBstore (@) memBlockstore memBlockstore)) ([], [(''bafkx'', basicBlock ''x'' ''bafkx'')]) ''bafkx'' \<noteq> Inl ErrNotFound"
proof -
  have put: "bsPut (NewIDStore demo_lib (NewTieredBstore (@) memBlockstore memBlockstore)) ([], []) (basicBlock ''x'' ''bafkx'') = (([], [(''bafkx'', basicBlock ''x'' ''bafkx'')]), None)"
    by code_simp
  have "decodeCid demo_lib c \<noteq> Inr (Some d)" for c d by (simp add: demo_lib_def decodeCid_def)
  then show ?thesis
    using stacked_store_keeps_blocks [OF membs.blockstore_axioms membs.blockstore_axioms _ _ _ _ put, of "[]"]
    by (simp add: memInvar_def demo_valid_def basicBlock_def runOps_def)
qed

text \<open>The size of an empty block in the lower store: it is reported as missing, although \<open>Has\<close> and \<open>Get\<close> find it.\<close>

theorem bufGetSize_empty_block:
  assumes "bsGetSize rd r c = (0, None)" "bsGetSize wr w c = (0, Some ErrNotFound)"
  shows "bsGetSize (NewTieredBstore merge rd wr) (r, w) c = (0, Some ErrNotFound)"
  using assms by (simp add: NewTieredBstore_def bufGetSize_def)

end
