(* ===== verification/Badger_Blockstore.thy ===== *)
theory Badger_Blockstore
  imports Blockstores
begin

text \<open>
  The badger blockstore (\<open>src/blockstore/badger/blockstore.go\<close>): its states, the locks around the database and its
  operations. A badger database is an association list from keys to values; the errors of its transactions, the base 32 codec and
  the CID library are fields of \<open>badgerEnv\<close>. An operation that would have to wait for a lock is \<open>None\<close>.
\<close>

section \<open>State\<close>

datatype bsStatus = StateOpen | StateClosing | StateClosed

datatype bsMoveState = MoveStateNone | MoveStateMoving | MoveStateCleanup | MoveStateLock

type_synonym badgerDB = "(bytes \<times> bytes) list"

record Blockstore =
  bsState :: bsStatus
  viewers :: nat
  moveState :: bsMoveState
  rlock :: nat
  db :: badgerDB
  dbNext :: "badgerDB option"
  bsPrefix :: bytes

record badgerEnv =
  cidHash :: "cid \<Rightarrow> bytes"
  cidDefined :: "cid \<Rightarrow> bool"
  base32Encode :: "bytes \<Rightarrow> bytes"
  base32Decode :: "bytes \<Rightarrow> bytes res"
  NewCidV1 :: "bytes \<Rightarrow> cid"
  txnGetErr :: "bytes \<Rightarrow> error option"
  txnSetErr :: "bytes \<Rightarrow> error option"
  nextSetErr :: "bytes \<Rightarrow> error option"
  flushErr :: "bytes list \<Rightarrow> error option"
  txnDeleteErr :: "bytes \<Rightarrow> error option"

abbreviation "ErrBlockstoreClosed \<equiv> ErrMsg ''badger blockstore closed''"

definition OpenBlockstore :: "badgerDB res \<Rightarrow> bytes \<Rightarrow> Blockstore res" where
  "OpenBlockstore opened prefix =
     (case opened of
        Inl e \<Rightarrow> Inl (ErrWrap ''failed to open badger blockstore'' e)
      | Inr d \<Rightarrow> Inr \<lparr>bsState = StateOpen, viewers = 0, moveState = MoveStateNone, rlock = 0, db = d, dbNext = None, bsPrefix = prefix\<rparr>)"

section \<open>Locks\<close>

definition access :: "Blockstore \<Rightarrow> Blockstore res" where
  "access b = (if bsState b \<noteq> StateOpen then Inl ErrBlockstoreClosed else Inr (b\<lparr>viewers := viewers b + 1\<rparr>))"

definition viewersDone :: "Blockstore \<Rightarrow> Blockstore" where
  "viewersDone b = b\<lparr>viewers := viewers b - 1\<rparr>"

definition lockDB :: "Blockstore \<Rightarrow> Blockstore option" where
  "lockDB b = (if rlock b = 0 \<and> moveState b = MoveStateLock then None else Some (b\<lparr>rlock := rlock b + 1\<rparr>))"

definition unlockDB :: "Blockstore \<Rightarrow> Blockstore" where
  "unlockDB b = b\<lparr>rlock := rlock b - 1\<rparr>"

text \<open>\<open>lockMove\<close> announces the lock and then waits until no operation holds the database; \<open>unlockMove\<close> sets the next state.\<close>

definition lockMove :: "Blockstore \<Rightarrow> Blockstore" where
  "lockMove b = b\<lparr>moveState := MoveStateLock\<rparr>"

definition unlockMove :: "bsMoveState \<Rightarrow> Blockstore \<Rightarrow> Blockstore" where
  "unlockMove st b = b\<lparr>moveState := st\<rparr>"

definition closeBegin :: "Blockstore \<Rightarrow> Blockstore" where
  "closeBegin b = (if bsState b \<noteq> StateOpen then b else b\<lparr>bsState := StateClosing\<rparr>)"

definition closeEnd :: "Blockstore \<Rightarrow> Blockstore option" where
  "closeEnd b = (if bsState b = StateClosing \<and> viewers b = 0 then Some (b\<lparr>bsState := StateClosed\<rparr>) else None)"

section \<open>Operations\<close>

definition PooledStorageKey :: "badgerEnv \<Rightarrow> Blockstore \<Rightarrow> cid \<Rightarrow> bytes" where
  "PooledStorageKey env b c =
     (if bsPrefix b = [] then base32Encode env (cidHash env c) else bsPrefix b @ base32Encode env (cidHash env c))"

text \<open>Every operation: register as a viewer, lock the database, run, unlock.\<close>

definition withDB :: "Blockstore \<Rightarrow> (error \<Rightarrow> 'a) \<Rightarrow> (Blockstore \<Rightarrow> Blockstore \<times> 'a) \<Rightarrow> (Blockstore \<times> 'a) option" where
  "withDB b closed f =
     (case access b of
        Inl e \<Rightarrow> Some (b, closed e)
      | Inr b1 \<Rightarrow>
          (case lockDB b1 of
             None \<Rightarrow> None
           | Some b2 \<Rightarrow> (let (b3, r) = f b2 in Some (viewersDone (unlockDB b3), r))))"

definition txnGet :: "badgerEnv \<Rightarrow> badgerDB \<Rightarrow> bytes \<Rightarrow> bytes option res" where
  "txnGet env d k = (case txnGetErr env k of Some e \<Rightarrow> Inl e | None \<Rightarrow> Inr (map_of d k))"

definition badgerView :: "badgerEnv \<Rightarrow> Blockstore \<Rightarrow> cid \<Rightarrow> (bytes \<Rightarrow> error option) \<Rightarrow> (Blockstore \<times> error option) option" where
  "badgerView env b c fn = withDB b Some (\<lambda>b. (b,
     case txnGet env (db b) (PooledStorageKey env b c) of
       Inr (Some v) \<Rightarrow> fn v
     | Inr None \<Rightarrow> Some ErrNotFound
     | Inl e \<Rightarrow> Some (ErrWrap ''failed to view block from badger blockstore'' e)))"

definition badgerHas :: "badgerEnv \<Rightarrow> Blockstore \<Rightarrow> cid \<Rightarrow> (Blockstore \<times> bool res) option" where
  "badgerHas env b c = withDB b Inl (\<lambda>b. (b,
     case txnGet env (db b) (PooledStorageKey env b c) of
       Inr v \<Rightarrow> Inr (v \<noteq> None)
     | Inl e \<Rightarrow> Inl (ErrWrap ''failed to check if block exists in badger blockstore'' e)))"

definition badgerGet :: "badgerEnv \<Rightarrow> Blockstore \<Rightarrow> cid \<Rightarrow> (Blockstore \<times> block res) option" where
  "badgerGet env b c =
     (if \<not> cidDefined env c then Some (b, Inl ErrNotFound)
      else withDB b Inl (\<lambda>b. (b,
        case txnGet env (db b) (PooledStorageKey env b c) of
          Inr (Some v) \<Rightarrow> Inr (basicBlock v c)
        | Inr None \<Rightarrow> Inl ErrNotFound
        | Inl e \<Rightarrow> Inl (ErrWrap ''failed to get block from badger blockstore'' e))))"

definition badgerGetSize :: "badgerEnv \<Rightarrow> Blockstore \<Rightarrow> cid \<Rightarrow> (Blockstore \<times> int \<times> error option) option" where
  "badgerGetSize env b c = withDB b (\<lambda>e. (0, Some e)) (\<lambda>b. (b,
     case txnGet env (db b) (PooledStorageKey env b c) of
       Inr (Some v) \<Rightarrow> (int (length v), None)
     | Inr None \<Rightarrow> (-1, Some ErrNotFound)
     | Inl e \<Rightarrow> (-1, Some (ErrWrap ''failed to get block size from badger blockstore'' e))))"

text \<open>The two puts of \<open>Put\<close>: to the database, then to the one being filled by a move.\<close>

definition putDB :: "badgerEnv \<Rightarrow> bytes \<Rightarrow> bytes \<Rightarrow> Blockstore \<Rightarrow> Blockstore \<times> error option" where
  "putDB env k v b =
     (case txnSetErr env k of
        Some e \<Rightarrow> (b, Some (ErrWrap ''failed to put block in badger blockstore'' e))
      | None \<Rightarrow> (b\<lparr>db := AList.update k v (db b)\<rparr>, None))"

definition putNext :: "badgerEnv \<Rightarrow> bytes \<Rightarrow> bytes \<Rightarrow> Blockstore \<Rightarrow> Blockstore \<times> error option" where
  "putNext env k v b =
     (case dbNext b of
        None \<Rightarrow> (b, None)
      | Some n \<Rightarrow>
          (case nextSetErr env k of
             Some e \<Rightarrow> (b, Some (ErrWrap ''failed to put block in badger blockstore'' e))
           | None \<Rightarrow> (b\<lparr>dbNext := Some (AList.update k v n)\<rparr>, None)))"

definition badgerPut :: "badgerEnv \<Rightarrow> Blockstore \<Rightarrow> block \<Rightarrow> (Blockstore \<times> error option) option" where
  "badgerPut env b blk = withDB b Some (\<lambda>b.
     let k = PooledStorageKey env b (blkCid blk) in
     case putDB env k (RawData blk) b of
       (b1, Some e) \<Rightarrow> (b1, Some e)
     | (b1, None) \<Rightarrow> putNext env k (RawData blk) b1)"

text \<open>A batch is written as a whole when it is flushed.\<close>

definition putBatch :: "badgerEnv \<Rightarrow> (bytes \<times> bytes) list \<Rightarrow> badgerDB \<Rightarrow> badgerDB \<times> error option" where
  "putBatch env kvs d =
     (case flushErr env (map fst kvs) of
        Some e \<Rightarrow> (d, Some (ErrWrap ''failed to put blocks in badger blockstore'' e))
      | None \<Rightarrow> (fold (\<lambda>(k, v). AList.update k v) kvs d, None))"

definition badgerPutMany :: "badgerEnv \<Rightarrow> Blockstore \<Rightarrow> block list \<Rightarrow> (Blockstore \<times> error option) option" where
  "badgerPutMany env b blks = withDB b Some (\<lambda>b.
     let kvs = map (\<lambda>blk. (PooledStorageKey env b (blkCid blk), RawData blk)) blks in
     case putBatch env kvs (db b) of
       (d, Some e) \<Rightarrow> (b\<lparr>db := d\<rparr>, Some e)
     | (d, None) \<Rightarrow>
         (case dbNext b of
            None \<Rightarrow> (b\<lparr>db := d\<rparr>, None)
          | Some n \<Rightarrow> (case putBatch env kvs n of (n1, err) \<Rightarrow> (b\<lparr>db := d, dbNext := Some n1\<rparr>, err))))"

definition deleteDB :: "badgerEnv \<Rightarrow> bytes \<Rightarrow> Blockstore \<Rightarrow> Blockstore \<times> error option" where
  "deleteDB env k b = (case txnDeleteErr env k of Some e \<Rightarrow> (b, Some e) | None \<Rightarrow> (b\<lparr>db := AList.delete k (db b)\<rparr>, None))"

definition badgerDeleteBlock :: "badgerEnv \<Rightarrow> Blockstore \<Rightarrow> cid \<Rightarrow> (Blockstore \<times> error option) option" where
  "badgerDeleteBlock env b c = withDB b Some (\<lambda>b. deleteDB env (PooledStorageKey env b c) b)"

definition badgerDeleteMany :: "badgerEnv \<Rightarrow> Blockstore \<Rightarrow> cid list \<Rightarrow> (Blockstore \<times> error option) option" where
  "badgerDeleteMany env b cids = withDB b Some (\<lambda>b.
     let ks = map (PooledStorageKey env b) cids in
     case flushErr env ks of
       Some e \<Rightarrow> (b, Some (ErrWrap ''failed to delete blocks from badger blockstore'' e))
     | None \<Rightarrow> (b\<lparr>db := fold AList.delete ks (db b)\<rparr>, None))"

text \<open>The keys with the prefix, in the order of the database, and the CIDs they stand for.\<close>

definition blockKeys :: "Blockstore \<Rightarrow> bytes list" where
  "blockKeys b = map (drop (length (bsPrefix b))) (filter (\<lambda>k. take (length (bsPrefix b)) k = bsPrefix b) (map fst (db b)))"

definition badgerAllKeys :: "badgerEnv \<Rightarrow> Blockstore \<Rightarrow> cid list" where
  "badgerAllKeys env b = concat (map (\<lambda>k. case base32Decode env k of Inl _ \<Rightarrow> [] | Inr h \<Rightarrow> [NewCidV1 env h]) (blockKeys b))"

fun forEachKey :: "badgerEnv \<Rightarrow> (cid \<Rightarrow> 'a \<Rightarrow> 'a \<times> error option) \<Rightarrow> 'a \<Rightarrow> bytes list \<Rightarrow> 'a \<times> error option" where
  "forEachKey env f a [] = (a, None)"
| "forEachKey env f a (k # ks) =
     (case base32Decode env k of
        Inl e \<Rightarrow> (a, Some e)
      | Inr h \<Rightarrow> (case f (NewCidV1 env h) a of (a1, Some e) \<Rightarrow> (a1, Some e) | (a1, None) \<Rightarrow> forEachKey env f a1 ks))"

definition badgerForEachKey :: "badgerEnv \<Rightarrow> (cid \<Rightarrow> 'a \<Rightarrow> 'a \<times> error option) \<Rightarrow> 'a \<Rightarrow> Blockstore \<Rightarrow> (Blockstore \<times> 'a \<times> error option) option" where
  "badgerForEachKey env f a b = withDB b (\<lambda>e. (a, Some e)) (\<lambda>b. (b, forEachKey env f a (blockKeys b)))"

section \<open>As a blockstore\<close>

text \<open>With no move in progress no operation waits, and the store satisfies the contract.\<close>

definition atRest :: "Blockstore \<Rightarrow> bool" where
  "atRest b \<longleftrightarrow> moveState b = MoveStateNone \<and> rlock b = 0 \<and> viewers b = 0 \<and> dbNext b = None"

definition restOps :: "badgerEnv \<Rightarrow> Blockstore bsOps" where
  "restOps env = \<lparr>bsHas = (\<lambda>b c. snd (the (badgerHas env b c))), bsGet = (\<lambda>b c. snd (the (badgerGet env b c))),
     bsGetSize = (\<lambda>b c. snd (the (badgerGetSize env b c))), bsView = (\<lambda>b c f. snd (the (badgerView env b c f))),
     bsPut = (\<lambda>b x. the (badgerPut env b x)), bsPutMany = (\<lambda>b xs. the (badgerPutMany env b xs)),
     bsDeleteBlock = (\<lambda>b c. the (badgerDeleteBlock env b c)), bsDeleteMany = (\<lambda>b cs. the (badgerDeleteMany env b cs)),
     bsAllKeysChan = (\<lambda>b. if bsState b \<noteq> StateOpen then Inl ErrBlockstoreClosed else Inr (badgerAllKeys env b))\<rparr>"

lemma withDB_rest:
  "atRest b \<Longrightarrow> withDB b closed f = Some (if bsState b \<noteq> StateOpen then (b, closed ErrBlockstoreClosed)
     else (let (b3, r) = f (b\<lparr>viewers := 1, rlock := 1\<rparr>) in (viewersDone (unlockDB b3), r)))"
  by (auto simp: withDB_def access_def lockDB_def atRest_def split: prod.splits)

locale badger_blocks =
  fixes env :: badgerEnv and valid :: "cid \<Rightarrow> bytes \<Rightarrow> bool" and prefix :: bytes
  assumes valid_unique: "valid c d \<Longrightarrow> valid c d' \<Longrightarrow> d = d'"
    and key_inj: "base32Encode env (cidHash env c) = base32Encode env (cidHash env c') \<Longrightarrow> c = c'"
    and defined: "valid c d \<Longrightarrow> cidDefined env c"
begin

definition keyOf :: "cid \<Rightarrow> bytes" where
  "keyOf c = prefix @ base32Encode env (cidHash env c)"

definition bview :: "Blockstore \<Rightarrow> cid \<Rightarrow> bytes option" where
  "bview b c = map_of (db b) (keyOf c)"

definition binvar :: "Blockstore \<Rightarrow> bool" where
  "binvar b \<longleftrightarrow> atRest b \<and> bsPrefix b = prefix \<and> (\<forall>c d. bview b c = Some d \<longrightarrow> valid c d)"

lemma keyOf_inj: "keyOf c = keyOf c' \<longleftrightarrow> c = c'"
  using key_inj by (auto simp: keyOf_def)

lemma key_of: "bsPrefix b = prefix \<Longrightarrow> PooledStorageKey env b c = keyOf c"
  by (simp add: PooledStorageKey_def keyOf_def)

lemmas rest_defs = restOps_def badgerHas_def badgerGet_def badgerGetSize_def badgerPut_def badgerDeleteBlock_def txnGet_def
  putDB_def putNext_def deleteDB_def bview_def basicBlock_def

lemma rest_key: "binvar b \<Longrightarrow> PooledStorageKey env (b\<lparr>viewers := 1, rlock := 1\<rparr>) c = keyOf c"
  by (simp add: PooledStorageKey_def keyOf_def binvar_def)

lemma rest_back:
  assumes "binvar b"
  shows "b\<lparr>db := x, rlock := 0, viewers := 0\<rparr> = b\<lparr>db := x\<rparr>" "b\<lparr>rlock := 0, viewers := 0\<rparr> = b" "dbNext b = None"
  using assms by (cases b, simp add: binvar_def atRest_def)+

lemma rest_run: "binvar b \<Longrightarrow> withDB b closed f = Some (if bsState b \<noteq> StateOpen then (b, closed ErrBlockstoreClosed)
     else (let (b3, r) = f (b\<lparr>viewers := 1, rlock := 1\<rparr>) in (viewersDone (unlockDB b3), r)))"
  by (rule withDB_rest) (simp add: binvar_def)

lemma rest_put:
  assumes "binvar s" "bsPut (restOps env) s b = (s', err)"
  shows "(err = None \<longrightarrow> s' = s\<lparr>db := AList.update (keyOf (blkCid b)) (RawData b) (db s)\<rparr>) \<and> (err \<noteq> None \<longrightarrow> s' = s)"
  using assms by (auto simp: rest_defs rest_run rest_key rest_key [simplified] rest_back Let_def viewersDone_def unlockDB_def split: if_splits option.splits)

lemma rest_delete:
  assumes "binvar s" "bsDeleteBlock (restOps env) s c = (s', err)"
  shows "(err = None \<longrightarrow> s' = s\<lparr>db := AList.delete (keyOf c) (db s)\<rparr>) \<and> (err \<noteq> None \<longrightarrow> s' = s)"
  using assms by (auto simp: rest_defs rest_run rest_key rest_key [simplified] rest_back Let_def viewersDone_def unlockDB_def split: if_splits option.splits)

lemma rest_reads:
  assumes "binvar s"
  shows "bsHas (restOps env) s c = Inr x \<Longrightarrow> x = (bview s c \<noteq> None)"
    and "bsGet (restOps env) s c = Inr b \<Longrightarrow> blkCid b = c \<and> bview s c = Some (RawData b)"
    and "bsGet (restOps env) s c = Inl ErrNotFound \<Longrightarrow> bview s c = None"
    and "bsGetSize (restOps env) s c = (n, None) \<Longrightarrow> \<exists>d. bview s c = Some d \<and> n = int (length d)"
proof -
  have u: "bview s c = None" if "\<not> cidDefined env c" using assms defined that by (cases "bview s c") (auto simp: binvar_def)
  show "bsHas (restOps env) s c = Inr x \<Longrightarrow> x = (bview s c \<noteq> None)"
    using assms by (auto simp: rest_defs rest_run rest_key rest_key [simplified] split: if_splits option.splits)
  show "bsGet (restOps env) s c = Inr b \<Longrightarrow> blkCid b = c \<and> bview s c = Some (RawData b)"
    using assms by (auto simp: rest_defs rest_run rest_key rest_key [simplified] split: if_splits option.splits)
  show "bsGet (restOps env) s c = Inl ErrNotFound \<Longrightarrow> bview s c = None"
    using assms u by (auto simp: rest_defs rest_run rest_key rest_key [simplified] split: if_splits option.splits)
  show "bsGetSize (restOps env) s c = (n, None) \<Longrightarrow> \<exists>d. bview s c = Some d \<and> n = int (length d)"
    using assms by (auto simp: rest_defs rest_run rest_key rest_key [simplified] split: if_splits option.splits)
qed

lemma rest_upd:
  "binvar s \<Longrightarrow> valid c d \<Longrightarrow> binvar (s\<lparr>db := AList.update (keyOf c) d (db s)\<rparr>)"
  "binvar s \<Longrightarrow> binvar (s\<lparr>db := AList.delete (keyOf c) (db s)\<rparr>)"
  "bview (s\<lparr>db := AList.update (keyOf c) d (db s)\<rparr>) = (bview s)(c \<mapsto> d)"
  "bview (s\<lparr>db := AList.delete (keyOf c) (db s)\<rparr>) = (bview s)(c := None)"
  by (auto simp: binvar_def atRest_def bview_def update_conv' delete_conv' keyOf_inj fun_eq_iff split: if_splits)

end

sublocale badger_blocks \<subseteq> store: blockstore "restOps env" bview binvar valid "\<lambda>_. False"
proof unfold_locales
  fix s s' c c' d d' n b err
  show "valid c d \<Longrightarrow> valid c d' \<Longrightarrow> d = d'" by (rule valid_unique)
  show "binvar s \<Longrightarrow> bview s c = Some d \<Longrightarrow> valid c d" by (simp add: binvar_def)
  show "binvar s \<Longrightarrow> valid (blkCid b) (RawData b) \<Longrightarrow> bsPut (restOps env) s b = (s', err) \<Longrightarrow> binvar s'"
    using rest_put [of s b s' err] rest_upd(1) by (cases err) auto
  show "binvar s \<Longrightarrow> valid (blkCid b) (RawData b) \<Longrightarrow> bsPut (restOps env) s b = (s', None) \<Longrightarrow> bview s' = (bview s)(blkCid b \<mapsto> RawData b)"
    using rest_put [of s b s' None] rest_upd(3) by auto
  show "binvar s \<Longrightarrow> valid (blkCid b) (RawData b) \<Longrightarrow> bsPut (restOps env) s b = (s', Some e) \<Longrightarrow> c \<noteq> blkCid b \<Longrightarrow> bview s' c = bview s c" for e
    using rest_put [of s b s' "Some e"] by auto
  show "binvar s \<Longrightarrow> valid (blkCid b) (RawData b) \<Longrightarrow> bsPut (restOps env) s b = (s', Some e) \<Longrightarrow> bview s c = Some d \<Longrightarrow> bview s' c = Some d" for e
    using rest_put [of s b s' "Some e"] by auto
  show "binvar s \<Longrightarrow> bsDeleteBlock (restOps env) s c = (s', err) \<Longrightarrow> binvar s'"
    using rest_delete [of s c s' err] rest_upd(2) by (cases err) auto
  show "binvar s \<Longrightarrow> bsDeleteBlock (restOps env) s c = (s', None) \<Longrightarrow> \<not> False \<Longrightarrow> bview s' c = None"
    using rest_delete [of s c s' None] rest_upd(4) by auto
  show "binvar s \<Longrightarrow> bsDeleteBlock (restOps env) s c = (s', err) \<Longrightarrow> c' \<noteq> c \<or> False \<Longrightarrow> bview s' c' = bview s c'"
    using rest_delete [of s c s' err] rest_upd(4) by (cases err) auto
qed (use rest_reads in blast)+

definition demo_badger :: badgerEnv where
  "demo_badger = \<lparr>cidHash = (\<lambda>c. c), cidDefined = (\<lambda>c. c \<noteq> []), base32Encode = (\<lambda>h. h), base32Decode = Inr, NewCidV1 = (\<lambda>h. h),
     txnGetErr = (\<lambda>_. None), txnSetErr = (\<lambda>_. None), nextSetErr = (\<lambda>_. None), flushErr = (\<lambda>_. None), txnDeleteErr = (\<lambda>_. None)\<rparr>"

interpretation badgerbs: badger_blocks demo_badger demo_valid prefix for prefix
  by unfold_locales (simp_all add: demo_badger_def demo_valid_def)

end
