(* ===== verification/Badger_Move.thy ===== *)
theory Badger_Move
  imports Badger_Blockstore
begin

text \<open>
  The move of a badger blockstore (\<open>movingGC\<close> and \<open>doCopy\<close> of \<open>src/blockstore/badger/blockstore.go\<close>) next to the operations that go on
  during it. A system is the blockstore, the operations that hold the database lock, the place where the move is, and, as a
  history, the keys of the puts that returned without an error. A step is one critical section: the start of an operation, one
  of its accesses to a database, or a section of the move between two waits for its lock.
\<close>

section \<open>Operations in flight\<close>

datatype opState = PutStart bytes bytes | PutDbDone bytes bytes | DelStart bytes | Reading bytes

text \<open>One access of an operation: the store afterwards, what is left of the operation, and the key of a put that is
  acknowledged.\<close>

fun opStep :: "badgerEnv \<Rightarrow> opState \<Rightarrow> Blockstore \<Rightarrow> Blockstore \<times> opState option \<times> bytes option" where
  "opStep env (PutStart k v) b = (case putDB env k v b of (b1, Some _) \<Rightarrow> (b1, None, None) | (b1, None) \<Rightarrow> (b1, Some (PutDbDone k v), None))"
| "opStep env (PutDbDone k v) b = (case putNext env k v b of (b1, Some _) \<Rightarrow> (b1, None, None) | (b1, None) \<Rightarrow> (b1, None, Some k))"
| "opStep env (DelStart k) b = (fst (deleteDB env k b), None, None)"
| "opStep env (Reading k) b = (b, None, None)"

section \<open>The move\<close>

text \<open>The places of \<open>movingGC\<close>: \<open>GcWait...\<close> waits for the lock it has announced; \<open>GcCopy\<close> copies the snapshot, with the keys that were
  delivered; \<open>GcDefer\<close> is the deferred function.\<close>

datatype gcPc =
    GcIdle | GcWaitStart | GcOpen | GcWaitNext | GcCopyStart | GcCopy badgerDB "bytes list" | GcWaitSwap | GcClean
  | GcDefer | GcWaitDefer | GcLeftover | GcWaitEnd

text \<open>\<open>doCopy\<close>, \<open>stream.Send\<close>: entries without a key or a value are skipped.\<close>

fun copyKVs :: "(bytes option \<times> bytes option) list \<Rightarrow> badgerDB \<Rightarrow> badgerDB" where
  "copyKVs [] d = d"
| "copyKVs ((Some k, Some v) # kvs) d = copyKVs kvs (AList.update k v d)"
| "copyKVs (_ # kvs) d = copyKVs kvs d"

definition delivered :: "(bytes option \<times> bytes option) list \<Rightarrow> bytes list" where
  "delivered kvs = concat (map (\<lambda>(k, v). case (k, v) of (Some k, Some _) \<Rightarrow> [k] | _ \<Rightarrow> []) kvs)"

text \<open>The stream of badger delivers the entries of its snapshot; an empty value comes as \<open>nil\<close>.\<close>

definition fromSnapshot :: "badgerDB \<Rightarrow> (bytes option \<times> bytes option) list \<Rightarrow> bool" where
  "fromSnapshot snap kvs \<longleftrightarrow> list_all (\<lambda>(k, v). case (k, v) of (Some k, Some v) \<Rightarrow> map_of snap k = Some v | _ \<Rightarrow> True) kvs"

definition allDelivered :: "badgerDB \<Rightarrow> bytes list \<Rightarrow> bool" where
  "allDelivered snap del \<longleftrightarrow> list_all (\<lambda>(k, _). map_of snap k = Some [] \<or> k \<in> set del) snap"

text \<open>\<open>if b.rlock == 0\<close>: what a wait for the lock of the move goes on with.\<close>

definition whenFree :: "Blockstore \<Rightarrow> 'a \<Rightarrow> 'a option" where
  "whenFree b x = (if rlock b > 0 then None else Some x)"

fun gcStep :: "bool \<Rightarrow> gcPc \<Rightarrow> Blockstore \<Rightarrow> (Blockstore \<times> gcPc) option" where
  "gcStep ok GcIdle b = None"
| "gcStep ok GcWaitStart b = whenFree b (unlockMove MoveStateMoving b, GcOpen)"
| "gcStep ok GcOpen b = Some (if ok then (lockMove b, GcWaitNext) else (b, GcDefer))"
| "gcStep ok GcWaitNext b = whenFree b (unlockMove MoveStateMoving (b\<lparr>dbNext := Some []\<rparr>), GcCopyStart)"
| "gcStep ok GcCopyStart b = Some (b, GcCopy (db b) [])"
| "gcStep ok (GcCopy snap del) b =
     (if \<not> ok then Some (b, GcDefer) else if allDelivered snap del then Some (lockMove b, GcWaitSwap) else None)"
| "gcStep ok GcWaitSwap b = whenFree b (unlockMove MoveStateCleanup (b\<lparr>db := (case dbNext b of Some n \<Rightarrow> n | None \<Rightarrow> []), dbNext := None\<rparr>), GcClean)"
| "gcStep ok GcClean b = Some (b, GcDefer)"
| "gcStep ok GcDefer b = Some (lockMove b, GcWaitDefer)"
| "gcStep ok GcWaitDefer b = whenFree b
     (case dbNext b of
        Some _ \<Rightarrow> (unlockMove MoveStateCleanup (b\<lparr>dbNext := None\<rparr>), GcLeftover)
      | None \<Rightarrow> (viewersDone (unlockMove MoveStateNone b), GcIdle))"
| "gcStep ok GcLeftover b = Some (lockMove b, GcWaitEnd)"
| "gcStep ok GcWaitEnd b = whenFree b (viewersDone (unlockMove MoveStateNone b), GcIdle)"

section \<open>The system\<close>

record sysState =
  sysBs :: Blockstore
  sysOps :: "opState list"
  sysGc :: gcPc
  sysAcked :: "bytes list"

datatype label = Begin opState | OpStep badgerEnv nat | GcStart | GcStep bool | CopyList "(bytes option \<times> bytes option) list" | CloseBegin | CloseEnd

text \<open>\<open>None\<close>: the step is not possible now.\<close>

definition beginOp :: "opState \<Rightarrow> sysState \<Rightarrow> sysState option" where
  "beginOp x s =
     (case access (sysBs s) of
        Inl _ \<Rightarrow> Some s
      | Inr b1 \<Rightarrow> (case lockDB b1 of None \<Rightarrow> None | Some b2 \<Rightarrow> Some (s\<lparr>sysBs := b2, sysOps := sysOps s @ [x]\<rparr>)))"

definition runOp :: "badgerEnv \<Rightarrow> nat \<Rightarrow> sysState \<Rightarrow> sysState option" where
  "runOp env i s =
     (if i < length (sysOps s) then
        (case opStep env (sysOps s ! i) (sysBs s) of
           (b1, Some x, _) \<Rightarrow> Some (s\<lparr>sysBs := b1, sysOps := (sysOps s)[i := x]\<rparr>)
         | (b1, None, ack) \<Rightarrow>
             Some (s\<lparr>sysBs := viewersDone (unlockDB b1), sysOps := take i (sysOps s) @ drop (Suc i) (sysOps s),
                     sysAcked := (case ack of Some k \<Rightarrow> k # sysAcked s | None \<Rightarrow> sysAcked s)\<rparr>))
      else None)"

definition startGc :: "sysState \<Rightarrow> sysState" where
  "startGc s =
     (case access (sysBs s) of
        Inl _ \<Rightarrow> s
      | Inr b1 \<Rightarrow> if moveState b1 \<noteq> MoveStateNone then s\<lparr>sysBs := viewersDone b1\<rparr> else s\<lparr>sysBs := lockMove b1, sysGc := GcWaitStart\<rparr>)"

fun sysStep :: "label \<Rightarrow> sysState \<Rightarrow> sysState option" where
  "sysStep (Begin x) s = (case x of PutDbDone _ _ \<Rightarrow> None | _ \<Rightarrow> beginOp x s)"
| "sysStep (OpStep env i) s = runOp env i s"
| "sysStep GcStart s = Some (startGc s)"
| "sysStep (GcStep ok) s = (case gcStep ok (sysGc s) (sysBs s) of None \<Rightarrow> None | Some (b, pc) \<Rightarrow> Some (s\<lparr>sysBs := b, sysGc := pc\<rparr>))"
| "sysStep (CopyList kvs) s =
     (case (sysGc s, dbNext (sysBs s)) of
        (GcCopy snap del, Some n) \<Rightarrow>
          if fromSnapshot snap kvs
          then Some (s\<lparr>sysBs := (sysBs s)\<lparr>dbNext := Some (copyKVs kvs n)\<rparr>, sysGc := GcCopy snap (delivered kvs @ del)\<rparr>)
          else None
      | _ \<Rightarrow> None)"
| "sysStep CloseBegin s = Some (s\<lparr>sysBs := closeBegin (sysBs s)\<rparr>)"
| "sysStep CloseEnd s = (case closeEnd (sysBs s) of None \<Rightarrow> None | Some b \<Rightarrow> Some (s\<lparr>sysBs := b\<rparr>))"

fun runSteps :: "label list \<Rightarrow> sysState \<Rightarrow> sysState option" where
  "runSteps [] s = Some s"
| "runSteps (l # ls) s = (case sysStep l s of None \<Rightarrow> None | Some s1 \<Rightarrow> runSteps ls s1)"

definition initial :: "Blockstore \<Rightarrow> sysState" where
  "initial b = \<lparr>sysBs = b, sysOps = [], sysGc = GcIdle, sysAcked = map fst (db b)\<rparr>"

section \<open>Invariant\<close>

text \<open>Blocks are addressed by content: \<open>content k\<close> is the data stored under the key \<open>k\<close>. \<open>D\<close> are the keys that are deleted at some
  time.\<close>

definition agrees :: "(bytes \<Rightarrow> bytes) \<Rightarrow> badgerDB \<Rightarrow> bool" where
  "agrees content d \<longleftrightarrow> (\<forall>k v. map_of d k = Some v \<longrightarrow> v = content k)"

definition holds :: "badgerDB \<Rightarrow> bytes \<Rightarrow> bool" where
  "holds d k \<longleftrightarrow> map_of d k \<noteq> None"

fun opOk :: "(bytes \<Rightarrow> bytes) \<Rightarrow> bytes set \<Rightarrow> badgerDB \<Rightarrow> opState \<Rightarrow> bool" where
  "opOk content D d (PutStart k v) = (v = content k)"
| "opOk content D d (PutDbDone k v) = (v = content k \<and> (k \<notin> D \<longrightarrow> holds d k))"
| "opOk content D d (DelStart k) = (k \<in> D)"
| "opOk content D d (Reading k) = True"

text \<open>The lock of the move and the database it fills, at every place of the move.\<close>

definition lockOk :: "gcPc \<Rightarrow> bsMoveState \<Rightarrow> bool" where
  "lockOk pc ms = (case pc of
     GcIdle \<Rightarrow> ms = MoveStateNone
   | GcOpen \<Rightarrow> ms = MoveStateMoving | GcCopyStart \<Rightarrow> ms = MoveStateMoving | GcCopy _ _ \<Rightarrow> ms = MoveStateMoving
   | GcClean \<Rightarrow> ms = MoveStateCleanup | GcLeftover \<Rightarrow> ms = MoveStateCleanup
   | GcDefer \<Rightarrow> ms = MoveStateMoving \<or> ms = MoveStateCleanup
   | _ \<Rightarrow> ms = MoveStateLock)"

definition nextOk :: "gcPc \<Rightarrow> badgerDB option \<Rightarrow> bool" where
  "nextOk pc n = (case pc of
     GcCopyStart \<Rightarrow> n \<noteq> None | GcCopy _ _ \<Rightarrow> n \<noteq> None | GcWaitSwap \<Rightarrow> n \<noteq> None
   | GcDefer \<Rightarrow> True | GcWaitDefer \<Rightarrow> True
   | _ \<Rightarrow> n = None)"

definition lockInv :: "sysState \<Rightarrow> bool" where
  "lockInv s \<longleftrightarrow> rlock (sysBs s) = length (sysOps s) \<and> viewers (sysBs s) = length (sysOps s) + (if sysGc s = GcIdle then 0 else 1) \<and>
     lockOk (sysGc s) (moveState (sysBs s)) \<and> nextOk (sysGc s) (dbNext (sysBs s))"

text \<open>What the move has still to bring over, when it copies and when it is about to swap.\<close>

definition copyOk :: "gcPc \<Rightarrow> badgerDB option \<Rightarrow> bytes set \<Rightarrow> bool" where
  "copyOk pc next K = (case (pc, next) of
     (GcCopy snap del, Some n) \<Rightarrow> (\<forall>k \<in> K. holds n k \<or> holds snap k) \<and> (\<forall>k \<in> set del. holds n k)
   | (GcWaitSwap, Some n) \<Rightarrow> (\<forall>k \<in> K. holds n k)
   | _ \<Rightarrow> True)"

definition needed :: "(bytes \<Rightarrow> bytes) \<Rightarrow> bytes set \<Rightarrow> sysState \<Rightarrow> bytes set" where
  "needed content D s = {k \<in> set (sysAcked s). k \<notin> D \<and> content k \<noteq> []}"

definition dataInv :: "(bytes \<Rightarrow> bytes) \<Rightarrow> bytes set \<Rightarrow> sysState \<Rightarrow> bool" where
  "dataInv content D s \<longleftrightarrow>
     agrees content (db (sysBs s)) \<and> (\<forall>n. dbNext (sysBs s) = Some n \<longrightarrow> agrees content n) \<and>
     (\<forall>snap del. sysGc s = GcCopy snap del \<longrightarrow> agrees content snap) \<and>
     (\<forall>k \<in> needed content D s. holds (db (sysBs s)) k) \<and> (\<forall>x \<in> set (sysOps s). opOk content D (db (sysBs s)) x) \<and>
     copyOk (sysGc s) (dbNext (sysBs s)) (needed content D s)"

text \<open>The labels of a run: puts carry the data of their keys, and only keys of \<open>D\<close> are deleted.\<close>

definition labelOk :: "(bytes \<Rightarrow> bytes) \<Rightarrow> bytes set \<Rightarrow> label \<Rightarrow> bool" where
  "labelOk content D l = (case l of Begin (PutStart k v) \<Rightarrow> v = content k | Begin (DelStart k) \<Rightarrow> k \<in> D | _ \<Rightarrow> True)"

lemma holds_update [simp]: "holds (AList.update k v d) k' \<longleftrightarrow> k' = k \<or> holds d k'"
  by (simp add: holds_def update_conv')

lemma holds_delete [simp]: "holds (AList.delete k d) k' \<longleftrightarrow> k' \<noteq> k \<and> holds d k'"
  by (simp add: holds_def delete_conv')

lemma agrees_update: "agrees content d \<Longrightarrow> agrees content (AList.update k (content k) d)"
  by (simp add: agrees_def update_conv')

lemma agrees_delete: "agrees content d \<Longrightarrow> agrees content (AList.delete k d)"
  by (auto simp: agrees_def delete_conv' split: if_splits)

lemma copyKVs_holds: "holds (copyKVs kvs d) k \<longleftrightarrow> holds d k \<or> k \<in> set (delivered kvs)"
  by (induction kvs d rule: copyKVs.induct) (auto simp: delivered_def)

lemma copyKVs_agrees: "agrees content d \<Longrightarrow> agrees content snap \<Longrightarrow> fromSnapshot snap kvs \<Longrightarrow> agrees content (copyKVs kvs d)"
proof (induction kvs d rule: copyKVs.induct)
  case (2 k v kvs d)
  have "map_of snap k = Some v" using 2(4) by (simp add: fromSnapshot_def)
  then have "v = content k" using 2(3) unfolding agrees_def by blast
  then show ?case using 2 agrees_update by (simp add: fromSnapshot_def)
qed (auto simp: fromSnapshot_def)

lemma opStep_effect:
  assumes "opStep env x b = (b1, r, ack)" "opOk content D (db b) x" "agrees content (db b)" "\<forall>n. dbNext b = Some n \<longrightarrow> agrees content n"
  shows "moveState b1 = moveState b" "rlock b1 = rlock b" "viewers b1 = viewers b" "dbNext b1 = None \<longleftrightarrow> dbNext b = None"
    and "agrees content (db b1)" "\<forall>n. dbNext b1 = Some n \<longrightarrow> agrees content n"
    and "\<forall>k. k \<notin> D \<longrightarrow> holds (db b) k \<longrightarrow> holds (db b1) k"
    and "\<forall>n n1 k. dbNext b = Some n \<longrightarrow> dbNext b1 = Some n1 \<longrightarrow> holds n k \<longrightarrow> holds n1 k"
    and "\<forall>y. r = Some y \<longrightarrow> opOk content D (db b1) y"
    and "\<forall>k. ack = Some k \<longrightarrow> (k \<notin> D \<longrightarrow> holds (db b1) k) \<and> (\<forall>n. dbNext b1 = Some n \<longrightarrow> holds n k)"
  using assms
  by (cases x; auto simp: putDB_def putNext_def deleteDB_def agrees_update agrees_delete split: option.splits)+

lemma copyOk_next:
  assumes "copyOk pc next K" "\<forall>n n1 k. next = Some n \<longrightarrow> next1 = Some n1 \<longrightarrow> holds n k \<longrightarrow> holds n1 k" "next1 = None \<longleftrightarrow> next = None"
    and "\<forall>k n. k \<in> K' - K \<longrightarrow> next1 = Some n \<longrightarrow> holds n k"
  shows "copyOk pc next1 K'"
proof (cases next1)
  case None
  then show ?thesis by (cases pc) (simp_all add: copyOk_def)
next
  case (Some n1)
  then obtain n where n: "next = Some n" using assms(3) by (cases "next") auto
  have mono: "\<And>k. holds n k \<Longrightarrow> holds n1 k" and new: "\<And>k. k \<in> K' \<Longrightarrow> k \<notin> K \<Longrightarrow> holds n1 k" using assms(2,4) n Some by blast+
  show ?thesis using assms(1) mono new unfolding copyOk_def n Some by (cases pc) (simp_all, blast+)
qed

lemma opOk_mono: "opOk content D d x \<Longrightarrow> \<forall>k. k \<notin> D \<longrightarrow> holds d k \<longrightarrow> holds d' k \<Longrightarrow> opOk content D d' x"
  by (cases x) auto

section \<open>Every step keeps the invariant\<close>

abbreviation moveInv :: "(bytes \<Rightarrow> bytes) \<Rightarrow> bytes set \<Rightarrow> sysState \<Rightarrow> bool" where
  "moveInv content D s \<equiv> lockInv s \<and> dataInv content D s"

lemma needed_upd [simp]: "needed content D (s\<lparr>sysBs := b, sysGc := pc\<rparr>) = needed content D s" "needed content D (s\<lparr>sysGc := pc\<rparr>) = needed content D s"
  "needed content D (s\<lparr>sysBs := b\<rparr>) = needed content D s"
  by (simp_all add: needed_def)

lemma begin_inv:
  assumes "moveInv content D s" "beginOp x s = Some s'" "opOk content D (db (sysBs s)) x"
  shows "moveInv content D s'"
  using assms by (auto simp: beginOp_def access_def lockDB_def lockInv_def dataInv_def needed_def split: if_splits)

lemma runOp_inv:
  assumes inv: "moveInv content D s" and run: "runOp env i s = Some s'"
  shows "moveInv content D s'"
proof -
  have i: "i < length (sysOps s)" using run by (simp add: runOp_def split: if_splits)
  obtain b1 r ack where st: "opStep env (sysOps s ! i) (sysBs s) = (b1, r, ack)" by (metis prod_cases3)
  note I = inv [unfolded lockInv_def dataInv_def]
  have x: "opOk content D (db (sysBs s)) (sysOps s ! i)" using I i by simp
  have ag: "agrees content (db (sysBs s))" "\<forall>n. dbNext (sysBs s) = Some n \<longrightarrow> agrees content n" using I by blast+
  note eff = opStep_effect [OF st x ag]
  have ops: "opOk content D (db b1) y" if "y \<in> set (sysOps s)" for y
    using I that opOk_mono eff(7) by blast
  show ?thesis
  proof (cases r)
    case (Some y)
    have s': "s' = s\<lparr>sysBs := b1, sysOps := (sysOps s)[i := y]\<rparr>" using run i st Some by (simp add: runOp_def)
    have nd: "needed content D s' = needed content D s" by (simp add: s' needed_def)
    have "copyOk (sysGc s) (dbNext b1) (needed content D s)" using I eff(4,8) copyOk_next by (metis Diff_cancel empty_iff)
    moreover have "nextOk (sysGc s) (dbNext b1)" using I eff(4) by (cases "sysGc s") (auto simp: nextOk_def)
    moreover have "\<forall>z \<in> set ((sysOps s)[i := y]). opOk content D (db b1) z" using ops eff(9) Some set_update_subset_insert by fastforce
    ultimately show ?thesis using I eff nd by (simp add: lockInv_def dataInv_def s' needed_def)
  next
    case None
    define K where "K = (case ack of Some k \<Rightarrow> k # sysAcked s | None \<Rightarrow> sysAcked s)"
    have s': "s' = s\<lparr>sysBs := viewersDone (unlockDB b1), sysOps := take i (sysOps s) @ drop (Suc i) (sysOps s), sysAcked := K\<rparr>"
      using run i st None by (simp add: runOp_def K_def)
    have nd: "k \<in> needed content D s \<or> ack = Some k \<and> k \<notin> D" if "k \<in> needed content D s'" for k
      using that by (auto simp: s' needed_def K_def split: option.splits)
    have "copyOk (sysGc s) (dbNext b1) (needed content D s')"
    proof (rule copyOk_next)
      show "copyOk (sysGc s) (dbNext (sysBs s)) (needed content D s)" using I by blast
      show "\<forall>k n. k \<in> needed content D s' - needed content D s \<longrightarrow> dbNext b1 = Some n \<longrightarrow> holds n k" using nd eff(10) by blast
    qed (use eff(4,8) in blast)+
    moreover have "nextOk (sysGc s) (dbNext b1)" using I eff(4) by (cases "sysGc s") (auto simp: nextOk_def)
    moreover have "\<forall>k \<in> needed content D s'. holds (db b1) k" 
    proof
      fix k assume k: "k \<in> needed content D s'"
      then have "k \<notin> D" by (simp add: needed_def)
      then show "holds (db b1) k" using nd [OF k] I eff(7,10) by blast
    qed
    moreover have "set (take i (sysOps s) @ drop (Suc i) (sysOps s)) \<subseteq> set (sysOps s)" by (auto dest: in_set_takeD in_set_dropD)
    then have "\<forall>z \<in> set (take i (sysOps s) @ drop (Suc i) (sysOps s)). opOk content D (db b1) z" using ops by blast
    moreover have "length (take i (sysOps s) @ drop (Suc i) (sysOps s)) = length (sysOps s) - 1" using i by simp
    ultimately show ?thesis using I eff i by (simp add: lockInv_def dataInv_def s' viewersDone_def unlockDB_def)
  qed
qed

lemma startGc_inv:
  assumes "moveInv content D s"
  shows "moveInv content D (startGc s)"
proof (cases "moveState (sysBs s) = MoveStateNone")
  case True
  then have "sysGc s = GcIdle" using assms by (cases "sysGc s") (auto simp: lockInv_def lockOk_def)
  then show ?thesis using assms True
    by (auto simp: startGc_def access_def lockMove_def lockInv_def dataInv_def lockOk_def nextOk_def copyOk_def needed_def)
next
  case False
  then show ?thesis using assms by (auto simp: startGc_def access_def viewersDone_def lockInv_def dataInv_def needed_def)
qed

lemma delivered_all: "allDelivered snap del \<Longrightarrow> agrees content snap \<Longrightarrow> holds snap k \<Longrightarrow> content k \<noteq> [] \<Longrightarrow> k \<in> set del"
proof -
  assume all: "allDelivered snap del" and ag: "agrees content snap" and k: "holds snap k" "content k \<noteq> []"
  obtain v where v: "map_of snap k = Some v" using k(1) by (auto simp: holds_def)
  then have "v = content k" using ag by (simp add: agrees_def)
  then have "v \<noteq> []" using k(2) by simp
  moreover have "map_of snap k = Some [] \<or> k \<in> set del" using all map_of_SomeD [OF v] by (auto simp: allDelivered_def list_all_iff)
  ultimately show "k \<in> set del" using v by simp
qed

lemma gcStep_inv:
  assumes inv: "moveInv content D s" and run: "gcStep ok (sysGc s) (sysBs s) = Some (b, pc)"
  shows "moveInv content D (s\<lparr>sysBs := b, sysGc := pc\<rparr>)"
proof -
  note I = inv [unfolded lockInv_def dataInv_def]
  note defs = lockInv_def dataInv_def lockOk_def nextOk_def copyOk_def whenFree_def unlockMove_def lockMove_def viewersDone_def
  show ?thesis
  proof (cases "sysGc s")
    case (GcCopy snap del)
    obtain n where n: "dbNext (sysBs s) = Some n" using I GcCopy by (auto simp: nextOk_def)
    have "\<forall>k \<in> needed content D s. holds n k" if "allDelivered snap del"
      using I GcCopy n delivered_all [OF that] by (fastforce simp: copyOk_def needed_def)
    then show ?thesis using I GcCopy n run by (auto simp: defs split: if_splits)
  next
    case GcWaitSwap
    obtain n where n: "dbNext (sysBs s) = Some n" using I GcWaitSwap by (auto simp: nextOk_def)
    then show ?thesis using I GcWaitSwap run by (auto simp: defs split: if_splits)
  next
    case GcCopyStart
    then show ?thesis using I run by (auto simp: defs split: option.splits)
  next
    case GcWaitDefer
    then show ?thesis using I run by (auto simp: defs split: if_splits option.splits)
  next
    case GcWaitNext
    then show ?thesis using I run by (auto simp: defs agrees_def split: if_splits option.splits)
  qed (use I run in \<open>auto simp: defs split: if_splits\<close>)
qed

lemma copyList_inv:
  assumes inv: "moveInv content D s" and "sysGc s = GcCopy snap del" "dbNext (sysBs s) = Some n" "fromSnapshot snap kvs"
  shows "moveInv content D (s\<lparr>sysBs := (sysBs s)\<lparr>dbNext := Some (copyKVs kvs n)\<rparr>, sysGc := GcCopy snap (delivered kvs @ del)\<rparr>)"
  using assms copyKVs_agrees [of content n snap kvs]
  by (auto simp: lockInv_def dataInv_def lockOk_def nextOk_def copyOk_def needed_def copyKVs_holds)

lemma sysStep_inv:
  assumes inv: "moveInv content D s" and ok: "labelOk content D l" and run: "sysStep l s = Some s'"
  shows "moveInv content D s'"
proof (cases l)
  case (Begin x)
  then have "beginOp x s = Some s'" "opOk content D (db (sysBs s)) x" using run ok by (auto simp: labelOk_def split: opState.splits)
  then show ?thesis using begin_inv inv by blast
next
  case (OpStep env i)
  then show ?thesis using runOp_inv [OF inv] run by simp
next
  case GcStart
  then show ?thesis using startGc_inv [OF inv] run by simp
next
  case (GcStep ok)
  then show ?thesis using gcStep_inv [OF inv, of ok] run by (auto split: option.splits)
next
  case (CopyList kvs)
  then show ?thesis using copyList_inv [OF inv] run by (auto split: gcPc.splits option.splits if_splits)
next
  case CloseBegin
  then show ?thesis using inv run by (cases "bsState (sysBs s)") (auto simp: closeBegin_def lockInv_def dataInv_def)
next
  case CloseEnd
  then show ?thesis using inv run by (auto simp: closeEnd_def lockInv_def dataInv_def needed_def split: option.splits if_splits)
qed

lemma runSteps_inv: "moveInv content D s \<Longrightarrow> list_all (labelOk content D) ls \<Longrightarrow> runSteps ls s = Some s' \<Longrightarrow> moveInv content D s'"
proof (induction ls arbitrary: s)
  case (Cons l ls)
  then obtain s1 where s1: "sysStep l s = Some s1" "runSteps ls s1 = Some s'" by (auto split: option.splits)
  have "moveInv content D s1" using sysStep_inv [OF Cons.prems(1) _ s1(1)] Cons.prems(2) by simp
  then show ?case using Cons.IH [OF _ _ s1(2)] Cons.prems(2) by simp
qed simp

lemma initial_inv: "atRest b \<Longrightarrow> agrees content (db b) \<Longrightarrow> moveInv content D (initial b)"
  by (auto simp: initial_def atRest_def lockInv_def dataInv_def lockOk_def nextOk_def copyOk_def needed_def holds_def map_of_eq_None_iff)

section \<open>No acknowledged block is lost\<close>

text \<open>Property C22. Whatever operations run next to a move of the badger blockstore, and wherever the move fails: a block whose put returned without an
  error, or that was there at the start, and that nobody deletes is in the current database at every moment, with its data,
  unless its data are empty.\<close>

theorem moving_gc_keeps_writes:
  assumes "atRest b" "agrees content (db b)" "list_all (labelOk content D) ls" "runSteps ls (initial b) = Some s"
    and "k \<in> set (sysAcked s)" "k \<notin> D" "content k \<noteq> []"
  shows "map_of (db (sysBs s)) k = Some (content k)"
proof -
  have inv: "dataInv content D s" using runSteps_inv [OF initial_inv [OF assms(1,2)] assms(3,4)] by blast
  then have "holds (db (sysBs s)) k" using assms(5-7) by (auto simp: dataInv_def needed_def)
  then show ?thesis using inv by (auto simp: dataInv_def agrees_def holds_def)
qed

definition demo_content :: "bytes \<Rightarrow> bytes" where
  "demo_content k = (if k = ''e'' then [] else k @ ''!'')"

definition demo_bs :: Blockstore where
  "demo_bs = \<lparr>bsState = StateOpen, viewers = 0, moveState = MoveStateNone, rlock = 0, db = [(''a'', ''a!''), (''e'', [])], dbNext = None, bsPrefix = []\<rparr>"

text \<open>A put that reaches the database after the snapshot was taken, a delete during the copy, and the swap.\<close>

definition demo_run :: "label list" where
  "demo_run = [GcStart, GcStep True, GcStep True, GcStep True, GcStep True, Begin (PutStart ''b'' ''b!''), OpStep demo_badger 0,
     Begin (DelStart ''a''), OpStep demo_badger 1, OpStep demo_badger 0, CopyList [(Some ''a'', Some ''a!''), (Some ''e'', None)],
     GcStep True, GcStep True, GcStep True, GcStep True, GcStep True]"

lemmas demo_move = demo_run_def demo_bs_def initial_def startGc_def access_def lockMove_def whenFree_def unlockMove_def beginOp_def lockDB_def
  runOp_def putDB_def putNext_def deleteDB_def demo_badger_def viewersDone_def unlockDB_def fromSnapshot_def delivered_def allDelivered_def

lemma demo_run_result: "runSteps demo_run (initial demo_bs) =
    Some \<lparr>sysBs = demo_bs\<lparr>db := [(''b'', ''b!''), (''a'', ''a!'')]\<rparr>, sysOps = [], sysGc = GcIdle, sysAcked = [''b'', ''a'', ''e'']\<rparr>"
  by (simp add: demo_move)

theorem moving_gc_keeps_writes_witness: "map_of [(''b'', ''b!''), (''a'', ''a!'')] ''b'' = Some (demo_content ''b'')"
  using moving_gc_keeps_writes [of demo_bs demo_content "{''a''}" demo_run _ "''b''", OF _ _ _ demo_run_result]
  by (simp add: atRest_def demo_bs_def agrees_def demo_run_def labelOk_def demo_content_def)

text \<open>A block deleted while the move copies it is there again after the move, and an empty block is gone.\<close>

theorem moving_gc_deletes_and_empties:
  "\<exists>s. runSteps demo_run (initial demo_bs) = Some s \<and> map_of (db (sysBs s)) ''a'' = Some ''a!'' \<and>
     map_of (db demo_bs) ''e'' = Some [] \<and> map_of (db (sysBs s)) ''e'' = None"
  unfolding demo_run_result by (simp add: demo_bs_def)

section \<open>The move ends\<close>

definition isProgress :: "label \<Rightarrow> bool" where
  "isProgress l = (case l of OpStep _ _ \<Rightarrow> True | GcStep ok \<Rightarrow> ok | CopyList _ \<Rightarrow> True | _ \<Rightarrow> False)"

lemma runSteps_append: "runSteps (ls @ ls') s = (case runSteps ls s of None \<Rightarrow> None | Some s1 \<Rightarrow> runSteps ls' s1)"
  by (induction ls arbitrary: s) (auto split: option.splits)

lemma progress_labels: "list_all isProgress ls \<Longrightarrow> list_all (labelOk content D) ls"
  by (auto simp: list_all_iff isProgress_def labelOk_def split: label.splits)

fun opWeight :: "opState \<Rightarrow> nat" where
  "opWeight (PutStart _ _) = 2"
| "opWeight _ = 1"

lemma opStep_weight: "opStep env x b = (b1, Some y, ack) \<Longrightarrow> opWeight y < opWeight x"
  by (cases x) (auto simp: putDB_def putNext_def split: option.splits)

lemma opWeight_pos: "0 < opWeight x"
  by (cases x) simp_all

lemma runOp_first:
  assumes ops: "sysOps s = x # xs"
  shows "\<exists>s1. runOp env 0 s = Some s1 \<and> sum_list (map opWeight (sysOps s1)) < sum_list (map opWeight (sysOps s)) \<and> sysGc s1 = sysGc s"
proof -
  obtain b1 r ack where st: "opStep env x (sysBs s) = (b1, r, ack)" by (metis prod_cases3)
  show ?thesis using st ops opWeight_pos [of x] opStep_weight [of env x "sysBs s"] by (cases r) (auto simp: runOp_def)
qed

lemma drain_ops: "\<exists>ls s'. list_all isProgress ls \<and> runSteps ls s = Some s' \<and> sysOps s' = [] \<and> sysGc s' = sysGc s"
proof (induction "sum_list (map opWeight (sysOps s))" arbitrary: s rule: less_induct)
  case less
  show ?case
  proof (cases "sysOps s")
    case Nil
    then show ?thesis by (intro exI [of _ "[]"]) simp
  next
    case (Cons x xs)
    obtain s1 where s1: "runOp demo_badger 0 s = Some s1" "sum_list (map opWeight (sysOps s1)) < sum_list (map opWeight (sysOps s))" "sysGc s1 = sysGc s"
      using runOp_first [OF Cons] by blast
    obtain ls s' where "list_all isProgress ls" "runSteps ls s1 = Some s'" "sysOps s' = []" "sysGc s' = sysGc s1" using less [OF s1(2)] by blast
    then show ?thesis using s1 by (intro exI [of _ "OpStep demo_badger 0 # ls"]) (simp add: isProgress_def)
  qed
qed

text \<open>The places of the move in their order; a copy has one list to go when something is not delivered yet.\<close>

fun gcRank :: "gcPc \<Rightarrow> nat" where
  "gcRank GcIdle = 0" | "gcRank GcWaitEnd = 1" | "gcRank GcLeftover = 2" | "gcRank GcWaitDefer = 3" | "gcRank GcDefer = 4"
| "gcRank GcClean = 5" | "gcRank GcWaitSwap = 6" | "gcRank (GcCopy snap del) = (if allDelivered snap del then 7 else 8)"
| "gcRank GcCopyStart = 9" | "gcRank GcWaitNext = 10" | "gcRank GcOpen = 11" | "gcRank GcWaitStart = 12"

definition wholeSnapshot :: "badgerDB \<Rightarrow> (bytes option \<times> bytes option) list" where
  "wholeSnapshot snap = map (\<lambda>(k, _). (Some k, if map_of snap k = Some [] then None else map_of snap k)) snap"

lemma whole_from: "fromSnapshot snap (wholeSnapshot snap)"
  by (auto simp: fromSnapshot_def wholeSnapshot_def list_all_iff split: option.splits if_splits)

lemma whole_delivers: "allDelivered snap (delivered (wholeSnapshot snap) @ del)"
  unfolding allDelivered_def list_all_iff
proof (clarify)
  fix k v assume kv: "(k, v) \<in> set snap" "k \<notin> set (delivered (wholeSnapshot snap) @ del)"
  then obtain w where w: "map_of snap k = Some w" by (metis weak_map_of_SomeI)
  have "k \<in> set (delivered (wholeSnapshot snap))" if "w \<noteq> []"
    using kv(1) w that by (force simp: delivered_def wholeSnapshot_def)
  then show "map_of snap k = Some []" using w kv(2) by auto
qed

lemma gc_progress:
  assumes inv: "lockInv s" and ops: "sysOps s = []" and gc: "sysGc s \<noteq> GcIdle"
  shows "\<exists>l s'. isProgress l \<and> sysStep l s = Some s' \<and> sysOps s' = [] \<and> gcRank (sysGc s') < gcRank (sysGc s)"
proof (cases "\<exists>snap del. sysGc s = GcCopy snap del \<and> \<not> allDelivered snap del")
  case True
  then obtain snap del n where "sysGc s = GcCopy snap del" "\<not> allDelivered snap del" "dbNext (sysBs s) = Some n"
    using inv by (auto simp: lockInv_def nextOk_def)
  then show ?thesis using ops whole_from whole_delivers
    by (intro exI [of _ "CopyList (wholeSnapshot snap)"]) (simp add: isProgress_def)
next
  case False
  then have "\<exists>s'. sysStep (GcStep True) s = Some s' \<and> sysOps s' = [] \<and> gcRank (sysGc s') < gcRank (sysGc s)"
    using inv ops gc by (cases "sysGc s") (auto simp: lockInv_def whenFree_def split: option.splits)
  then show ?thesis by (intro exI [of _ "GcStep True"]) (simp add: isProgress_def)
qed

lemma finish_gc:
  assumes "moveInv content D s" "sysOps s = []"
  shows "\<exists>ls s'. list_all isProgress ls \<and> runSteps ls s = Some s' \<and> sysOps s' = [] \<and> sysGc s' = GcIdle"
  using assms
proof (induction "gcRank (sysGc s)" arbitrary: s rule: less_induct)
  case less
  show ?case
  proof (cases "sysGc s = GcIdle")
    case True
    then show ?thesis using less.prems by (intro exI [of _ "[]"]) simp
  next
    case False
    then obtain l s1 where s1: "isProgress l" "sysStep l s = Some s1" "sysOps s1 = []" "gcRank (sysGc s1) < gcRank (sysGc s)"
      using gc_progress less.prems by blast
    have "moveInv content D s1" using sysStep_inv [OF less.prems(1) _ s1(2)] progress_labels [of "[l]"] s1(1) by simp
    then obtain ls s' where "list_all isProgress ls" "runSteps ls s1 = Some s'" "sysOps s' = []" "sysGc s' = GcIdle"
      using less.hyps [OF s1(4)] s1(3) by blast
    then show ?thesis using s1 by (intro exI [of _ "l # ls"]) simp
  qed
qed



end
