(* ===== verification/Sql_Table.thy ===== *)
theory Sql_Table
  imports Market_Prelude
begin

text \<open>
  A table of the SQL database as the repositories under \<open>src/models/mysql\<close> use it through gorm, and the column types of
  \<open>src/models/mysql/db.go\<close>. gorm and MySQL are parameters: a record of operations over rows with the laws \<open>sql_table\<close>. The
  locale \<open>sql_repo\<close> adds the conversion between rows and values that every repository has, and what saving, reading and
  listing then do to the map of values a table stands for.
\<close>

section \<open>Columns\<close>

text \<open>\<open>DBCid\<close> and \<open>DBAddress\<close>: the empty string stands for the undefined value; an address is stored without the letter of its
  network. \<open>Scan\<close> gets the bytes of the column, or \<open>None\<close> for a value that is not bytes (NULL among them).\<close>

definition cidString :: "cid \<Rightarrow> string" where
  "cidString c = (if c = Undef then [] else c)"

definition cidScan :: "(string \<Rightarrow> cid res) \<Rightarrow> string option \<Rightarrow> cid res" where
  "cidScan decode value =
     (case value of
        None \<Rightarrow> Inl (ErrMsg ''cid should be a []byte'')
      | Some val \<Rightarrow> if length val = 0 then Inr Undef else decode val)"

definition addressString :: "address \<Rightarrow> string" where
  "addressString a = (if a = Undef then [] else tl a)"

definition addressScan :: "(string \<Rightarrow> address res) \<Rightarrow> string option \<Rightarrow> address res" where
  "addressScan newFromString value =
     (case value of
        None \<Rightarrow> Inl (ErrMsg ''address should be a []byte'')
      | Some val \<Rightarrow> if length val = 0 then Inr Undef else newFromString (''f'' @ val))"

text \<open>\<open>cidPtr\<close>, \<open>addrPtr\<close> and back: a pointer column.\<close>

definition cidPtr :: "cid \<Rightarrow> cid option" where
  "cidPtr c = (if c = Undef then None else Some c)"

definition addrPtr :: "address \<Rightarrow> address option" where
  "addrPtr a = (if a = Undef then None else Some a)"

definition fromPtr :: "string option \<Rightarrow> string" where
  "fromPtr p = (case p of None \<Rightarrow> Undef | Some c \<Rightarrow> c)"

definition convertBigInt :: "int option \<Rightarrow> int" where
  "convertBigInt v = (case v of None \<Rightarrow> 0 | Some n \<Rightarrow> n)"

text \<open>What a pointer column keeps of a pointer.\<close>

definition normPtr :: "string option \<Rightarrow> string option" where
  "normPtr p = (if p = Some Undef then None else p)"

lemma cid_column: "(c \<noteq> Undef \<Longrightarrow> decode c = Inr c) \<Longrightarrow> cidScan decode (Some (cidString c)) = Inr c"
  by (simp add: cidScan_def cidString_def)

lemma address_column:
  assumes "a = Undef \<or> (\<exists>n b. a = n # b \<and> b \<noteq> [] \<and> newFromString (CHR ''f'' # b) = Inr a)"
  shows "addressScan newFromString (Some (addressString a)) = Inr a"
  using assms by (auto simp: addressScan_def addressString_def)

lemma address_column_inj:
  "a \<noteq> Undef \<Longrightarrow> b \<noteq> Undef \<Longrightarrow> hd a = hd b \<Longrightarrow> addressString a = addressString b \<Longrightarrow> a = b"
  by (cases a; cases b) (simp_all add: addressString_def)

lemma ptr_column [simp]:
  "cidPtr (fromPtr p) = normPtr p" "addrPtr (fromPtr p) = normPtr p"
  by (cases p, simp_all add: cidPtr_def addrPtr_def fromPtr_def normPtr_def)+

section \<open>Tables\<close>

text \<open>\<open>Save\<close> inserts a row or replaces the one with its key, \<open>Find\<close> gives the rows that satisfy a condition, \<open>Take\<close> one of them,
  \<open>UpdateColumns\<close> changes columns of the rows that satisfy a condition. \<open>tbFindPage\<close> is \<open>Find\<close> after \<open>Offset\<close> and \<open>Limit\<close>,
  \<open>tbSaveMany\<close> saves a slice of rows in one statement, which gorm refuses when the slice is empty. \<open>Count\<close> is the length of what \<open>Find\<close>
  gives.\<close>

record ('t, 'row) sqlTable =
  tbSave :: "'t \<Rightarrow> 'row \<Rightarrow> 't \<times> error option"
  tbFind :: "'t \<Rightarrow> ('row \<Rightarrow> bool) \<Rightarrow> 'row list res"
  tbTake :: "'t \<Rightarrow> ('row \<Rightarrow> bool) \<Rightarrow> 'row res"
  tbUpdate :: "'t \<Rightarrow> ('row \<Rightarrow> bool) \<Rightarrow> ('row \<Rightarrow> 'row) \<Rightarrow> 't \<times> error option"
  tbFindPage :: "'t \<Rightarrow> int \<Rightarrow> int \<Rightarrow> 'row list res"
  tbSaveMany :: "'t \<Rightarrow> 'row list \<Rightarrow> 't \<times> error option"

locale sql_table =
  fixes tb :: "('t, 'row) sqlTable" and rows :: "'t \<Rightarrow> 'k \<Rightarrow> 'row option" and key :: "'row \<Rightarrow> 'k"
  assumes row_key: "rows t k = Some r \<Longrightarrow> key r = k"
    and save_ok: "tbSave tb t r = (t', None) \<Longrightarrow> rows t' = (rows t)(key r \<mapsto> r)"
    and save_failed: "tbSave tb t r = (t', Some e) \<Longrightarrow> rows t' = rows t"
    and find_rows: "tbFind tb t c = Inr rs \<Longrightarrow> distinct (map key rs) \<and> (\<forall>r. r \<in> set rs \<longleftrightarrow> rows t (key r) = Some r \<and> c r)"
    and take_row: "tbTake tb t c = Inr r \<Longrightarrow> rows t (key r) = Some r \<and> c r"
    and take_none: "tbTake tb t c = Inl ErrNotFound \<Longrightarrow> rows t (key r) = Some r \<Longrightarrow> \<not> c r"
    and update_ok: "tbUpdate tb t c f = (t', None) \<Longrightarrow> (\<And>r. key (f r) = key r) \<Longrightarrow>
      rows t' = (\<lambda>k. map_option (\<lambda>r. if c r then f r else r) (rows t k))"
    and update_failed: "tbUpdate tb t c f = (t', Some e) \<Longrightarrow> rows t' = rows t"
    and find_page: "tbFindPage tb t off lim = Inr rs \<Longrightarrow>
      distinct (map key rs) \<and> (\<forall>r \<in> set rs. rows t (key r) = Some r) \<and> (0 < lim \<longrightarrow> int (length rs) \<le> lim)"
    and save_many_ok: "tbSaveMany tb t rs = (t', None) \<Longrightarrow> rs \<noteq> [] \<and> rows t' = fold (\<lambda>r m. m(key r \<mapsto> r)) rs (rows t)"
    and save_many_failed: "tbSaveMany tb t rs = (t', Some e) \<Longrightarrow> rows t' = rows t"

text \<open>The rows of a result, converted one after the other; the first that cannot be converted ends the loop.\<close>

fun convertRows :: "('row \<Rightarrow> 'a res) \<Rightarrow> 'row list \<Rightarrow> 'a list res" where
  "convertRows conv [] = Inr []"
| "convertRows conv (r # rs) = tryE (conv r) (\<lambda>x. tryE (convertRows conv rs) (\<lambda>xs. Inr (x # xs)))"

lemma convertRows_Inr: "convertRows conv rs = Inr xs \<longleftrightarrow> map conv rs = map Inr xs"
  by (induction rs arbitrary: xs) (auto simp: tryE_Inr_iff Cons_eq_map_conv)

lemma convertRows_Inl: "r \<in> set rs \<Longrightarrow> conv r = Inl e \<Longrightarrow> \<exists>e'. convertRows conv rs = Inl e'"
  by (induction rs) (auto simp: tryE_def split: sum.splits)

definition rowView :: "('t \<Rightarrow> 'k \<Rightarrow> 'row option) \<Rightarrow> ('row \<Rightarrow> 'a res) \<Rightarrow> 't \<Rightarrow> 'k \<Rightarrow> 'a option" where
  "rowView rows conv t k = (case rows t k of None \<Rightarrow> None | Some r \<Rightarrow> (case conv r of Inl _ \<Rightarrow> None | Inr x \<Rightarrow> Some x))"

locale sql_repo = sql_table tb rows key
  for tb :: "('t, 'row) sqlTable" and rows :: "'t \<Rightarrow> 'k \<Rightarrow> 'row option" and key :: "'row \<Rightarrow> 'k" +
  fixes enc :: "'a \<Rightarrow> 'row" and conv :: "'row \<Rightarrow> 'a res" and keyOf :: "'a \<Rightarrow> 'k" and norm :: "'a \<Rightarrow> 'a" and ok :: "'a \<Rightarrow> bool"
  assumes key_enc: "key (enc x) = keyOf x"
    and conv_enc: "ok x \<Longrightarrow> conv (enc x) = Inr (norm x)"
    and conv_key: "conv r = Inr x \<Longrightarrow> keyOf x = key r"
begin

abbreviation "view \<equiv> rowView rows conv"

lemma save_view: "tbSave tb t (enc x) = (t', None) \<Longrightarrow> ok x \<Longrightarrow> view t' = (view t)(keyOf x \<mapsto> norm x)"
  by (auto simp: rowView_def fun_eq_iff key_enc conv_enc dest: save_ok)

lemma save_failed_view: "tbSave tb t (enc x) = (t', Some e) \<Longrightarrow> view t' = view t"
  by (simp add: rowView_def fun_eq_iff save_failed)

lemma view_keyOf: "view t k = Some x \<Longrightarrow> keyOf x = k"
  by (auto simp: rowView_def dest: row_key conv_key split: option.splits sum.splits)

lemma row_view: "rows t (key r) = Some r \<Longrightarrow> conv r = Inr x \<Longrightarrow> view t (keyOf x) = Some x"
  using conv_key by (simp add: rowView_def)

lemma take_view: "tbTake tb t c = Inr r \<Longrightarrow> conv r = Inr x \<Longrightarrow> view t (keyOf x) = Some x"
  using take_row row_view by blast

lemma find_view:
  assumes "tbFind tb t c = Inr rs" "convertRows conv rs = Inr xs"
  shows "distinct (map keyOf xs) \<and> (\<forall>x \<in> set xs. view t (keyOf x) = Some x \<and> (\<exists>r. c r \<and> conv r = Inr x))"
proof -
  note f = find_rows [OF assms(1)]
  have m: "map conv rs = map Inr xs" using assms(2) by (simp add: convertRows_Inr)
  then have l: "length rs = length xs" by (metis length_map)
  have n: "conv (rs ! i) = Inr (xs ! i)" if "i < length xs" for i using m that l by (metis nth_map)
  have "map keyOf xs = map key rs" using conv_key [OF n] l by (simp add: list_eq_iff_nth_eq)
  moreover have "view t (keyOf x) = Some x \<and> (\<exists>r. c r \<and> conv r = Inr x)" if x: "x \<in> set xs" for x
  proof -
    obtain i where i: "i < length xs" "xs ! i = x" using x unfolding in_set_conv_nth by blast
    then have "rs ! i \<in> set rs" using l by simp
    then have "rows t (key (rs ! i)) = Some (rs ! i)" "c (rs ! i)" using f by blast+
    moreover have "conv (rs ! i) = Inr x" using n [OF i(1)] i(2) by simp
    ultimately show ?thesis using row_view by metis
  qed
  ultimately show ?thesis using f by simp
qed

text \<open>A listing that succeeds has every value whose row satisfies the condition.\<close>

lemma find_complete:
  assumes "tbFind tb t c = Inr rs" "convertRows conv rs = Inr xs" "view t k = Some x" "\<And>r. conv r = Inr x \<Longrightarrow> c r"
  shows "x \<in> set xs"
proof -
  obtain r where r: "rows t k = Some r" "conv r = Inr x" using assms(3) by (auto simp: rowView_def split: option.splits sum.splits)
  then have "r \<in> set rs" using find_rows [OF assms(1)] assms(4) row_key by metis
  then have "Inr x \<in> set (map conv rs)" using r(2) by (metis image_eqI list.set_map)
  then have "Inr x \<in> set (map Inr xs :: (error + 'a) list)" if "map conv rs = (map Inr xs :: (error + 'a) list)" for xs :: "'a list"
    using that by metis
  moreover have "map conv rs = map Inr xs" using assms(2) by (simp add: convertRows_Inr)
  ultimately show ?thesis by auto
qed

end

section \<open>Tables in memory\<close>

definition tableRows :: "('row \<Rightarrow> 'k) \<Rightarrow> 'row list \<Rightarrow> 'k \<Rightarrow> 'row option" where
  "tableRows key t k = find (\<lambda>r. key r = k) t"

fun current :: "('row \<Rightarrow> 'k) \<Rightarrow> 'row list \<Rightarrow> 'row list" where
  "current key [] = []"
| "current key (r # rs) = r # filter (\<lambda>x. key x \<noteq> key r) (current key rs)"

definition list_table :: "('row \<Rightarrow> 'k) \<Rightarrow> ('row list, 'row) sqlTable" where
  "list_table key = \<lparr>tbSave = (\<lambda>t r. (r # t, None)), tbFind = (\<lambda>t c. Inr (filter c (current key t))),
     tbTake = (\<lambda>t c. case find c (current key t) of None \<Rightarrow> Inl ErrNotFound | Some r \<Rightarrow> Inr r),
     tbUpdate = (\<lambda>t c f. (map (\<lambda>r. if c r then f r else r) t, None)),
     tbFindPage = (\<lambda>t off lim. Inr (let rs = drop (nat off) (current key t) in if lim > 0 then take (nat lim) rs else rs)),
     tbSaveMany = (\<lambda>t rs. if rs = [] then (t, Some (ErrMsg ''empty slice found'')) else (fold (#) rs t, None))\<rparr>"

lemma current_iff: "r \<in> set (current key t) \<longleftrightarrow> tableRows key t (key r) = Some r"
  by (induction t) (auto simp: tableRows_def)

lemma current_distinct: "distinct (map key (current key t))"
  by (induction t) (auto simp: distinct_map_filter)

lemma tableRows_key: "tableRows key t k = Some r \<Longrightarrow> key r = k"
  by (auto simp: tableRows_def find_Some_iff)

lemma tableRows_fold: "tableRows key (fold (#) rs t) = fold (\<lambda>r m. m(key r \<mapsto> r)) rs (tableRows key t)"
proof (induction rs arbitrary: t)
  case (Cons r rs)
  have "tableRows key (r # t) = (tableRows key t)(key r \<mapsto> r)" by (auto simp: tableRows_def fun_eq_iff)
  then show ?case using Cons by simp
qed simp

lemma tableRows_update:
  "(\<And>r. key (f r) = key r) \<Longrightarrow> tableRows key (map (\<lambda>r. if c r then f r else r) t) k = map_option (\<lambda>r. if c r then f r else r) (tableRows key t k)"
  by (induction t) (auto simp: tableRows_def)

interpretation memtable: sql_table "list_table key" "tableRows key" key for key
proof unfold_locales
  fix t c r assume "tbTake (list_table key) t c = Inr r"
  then have "find c (current key t) = Some r" by (simp add: list_table_def split: option.splits)
  then show "tableRows key t (key r) = Some r \<and> c r" by (metis current_iff find_Some_iff nth_mem)
next
  fix t c r assume "tbTake (list_table key) t c = Inl ErrNotFound" "tableRows key t (key r) = Some r"
  then show "\<not> c r" by (auto simp: list_table_def find_None_iff current_iff [symmetric] split: option.splits)
next
  fix t c rs assume "tbFind (list_table key) t c = Inr rs"
  then show "distinct (map key rs) \<and> (\<forall>r. r \<in> set rs \<longleftrightarrow> tableRows key t (key r) = Some r \<and> c r)"
    by (auto simp: list_table_def current_iff current_distinct distinct_map_filter)
next
  fix t c f t' assume "tbUpdate (list_table key) t c f = (t', None)" "\<And>r. key (f r) = key r"
  then show "tableRows key t' = (\<lambda>k. map_option (\<lambda>r. if c r then f r else r) (tableRows key t k))"
    using tableRows_update [of key f c t] by (auto simp: list_table_def)
next
  fix t r t' assume "tbSave (list_table key) t r = (t', None)"
  then show "tableRows key t' = (tableRows key t)(key r \<mapsto> r)" by (auto simp: list_table_def tableRows_def fun_eq_iff)
next
  fix t off lim rs assume "tbFindPage (list_table key) t off lim = Inr rs"
  then have rs: "rs = (let rs = drop (nat off) (current key t) in if lim > 0 then take (nat lim) rs else rs)" by (simp add: list_table_def)
  have "set rs \<subseteq> set (current key t)" by (auto simp: rs Let_def split: if_splits dest: in_set_takeD in_set_dropD)
  moreover have "distinct (map key rs)" using current_distinct [of key t] by (simp add: rs Let_def take_map [symmetric] drop_map [symmetric])
  moreover have "0 < lim \<Longrightarrow> int (length rs) \<le> lim" by (simp add: rs Let_def)
  ultimately show "distinct (map key rs) \<and> (\<forall>r \<in> set rs. tableRows key t (key r) = Some r) \<and> (0 < lim \<longrightarrow> int (length rs) \<le> lim)"
    using current_iff by fastforce
next
  fix t rs t' assume "tbSaveMany (list_table key) t rs = (t', None)"
  then show "rs \<noteq> [] \<and> tableRows key t' = fold (\<lambda>r m. m(key r \<mapsto> r)) rs (tableRows key t)"
    by (auto simp: list_table_def tableRows_fold split: if_splits)
next
  fix t rs t' e assume "tbSaveMany (list_table key) t rs = (t', Some e)"
  then show "tableRows key t' = tableRows key t" by (simp add: list_table_def split: if_splits)
qed (rule tableRows_key, assumption, simp_all add: list_table_def)

end
