(* ===== verification/Mysql_Paych.thy ===== *)
theory Mysql_Paych
  imports Fund_Repo Paych_Repo Sql_Table
begin

text \<open>
  The MySQL repositories of the fund manager (\<open>src/models/mysql/fund.go\<close>) and of payment channels and their messages
  (\<open>src/models/mysql/paych.go\<close>). The state of the latter is a table of channels and a table of messages; the identifier that
  \<open>uuid.NewString()\<close> draws is an argument. Removed channels stay in the table with a mark.
\<close>

section \<open>Funded addresses\<close>

record fundedAddressState =
  fasAddr :: address
  fasAmtReserved :: int
  fasMsgCid :: cid

definition fromFundedAddressState :: "FundedAddressState \<Rightarrow> fundedAddressState" where
  "fromFundedAddressState src = \<lparr>fasAddr = Addr src, fasAmtReserved = AmtReserved src, fasMsgCid = fromPtr (MsgCid src)\<rparr>"

definition toFundedAddressState :: "fundedAddressState \<Rightarrow> FundedAddressState res" where
  "toFundedAddressState src = Inr \<lparr>Addr = fasAddr src, AmtReserved = fasAmtReserved src, MsgCid = cidPtr (fasMsgCid src)\<rparr>"

definition sqlSaveFundedAddressState :: "('t, fundedAddressState) sqlTable \<Rightarrow> 't \<Rightarrow> FundedAddressState \<Rightarrow> 't \<times> error option" where
  "sqlSaveFundedAddressState tb t fds = tbSave tb t (fromFundedAddressState fds)"

definition sqlGetFundedAddressState :: "('t, fundedAddressState) sqlTable \<Rightarrow> 't \<Rightarrow> address \<Rightarrow> FundedAddressState res" where
  "sqlGetFundedAddressState tb t addr = tryE (tbTake tb t (\<lambda>r. fasAddr r = addr)) toFundedAddressState"

definition sqlListFundedAddressState :: "('t, fundedAddressState) sqlTable \<Rightarrow> 't \<Rightarrow> FundedAddressState list res" where
  "sqlListFundedAddressState tb t = tryE (tbFind tb t (\<lambda>_. True)) (convertRows toFundedAddressState)"

definition NewSqlFundRepo :: "('t, fundedAddressState) sqlTable \<Rightarrow> 't FundRepo" where
  "NewSqlFundRepo tb = \<lparr>frSave = sqlSaveFundedAddressState tb, frGet = sqlGetFundedAddressState tb, frList = sqlListFundedAddressState tb\<rparr>"

section \<open>Channels\<close>

record channelInfo =
  chChannelID :: string
  chChannel :: address
  chControl :: address
  chTarget :: address
  chDirection :: Dir
  chNextLane :: u64
  chAmount :: int
  chPendingAmount :: int
  chCreateMsg :: cid
  chAddFundsMsg :: cid
  chSettling :: bool
  chVoucherInfo :: "VoucherInfo list"
  chIsDeleted :: bool

definition fromChannelInfo :: "ChannelInfo \<Rightarrow> channelInfo" where
  "fromChannelInfo src =
     \<lparr>chChannelID = ChannelID src, chChannel = fromPtr (Channel src), chControl = Control src, chTarget = Target src,
      chDirection = Direction src, chNextLane = NextLane src, chAmount = ciAmount src, chPendingAmount = PendingAmount src,
      chCreateMsg = fromPtr (CreateMsg src), chAddFundsMsg = fromPtr (AddFundsMsg src), chSettling = Settling src,
      chVoucherInfo = Vouchers src, chIsDeleted = False\<rparr>"

definition toChannelInfo :: "channelInfo \<Rightarrow> ChannelInfo res" where
  "toChannelInfo src = Inr
     \<lparr>ChannelID = chChannelID src, Channel = addrPtr (chChannel src), Control = chControl src, Target = chTarget src,
      Direction = chDirection src, Vouchers = chVoucherInfo src, NextLane = chNextLane src, ciAmount = chAmount src,
      PendingAmount = chPendingAmount src, CreateMsg = cidPtr (chCreateMsg src), AddFundsMsg = cidPtr (chAddFundsMsg src),
      Settling = chSettling src\<rparr>"

record msgInfo =
  mrChannelID :: string
  mrMsgCid :: cid
  mrReceived :: bool
  mrErr :: string

definition fromMsgInfo :: "MsgInfo \<Rightarrow> msgInfo" where
  "fromMsgInfo src = \<lparr>mrChannelID = miChannelID src, mrMsgCid = miMsgCid src, mrReceived = Received src, mrErr = miErr src\<rparr>"

definition toMsgInfo :: "msgInfo \<Rightarrow> MsgInfo res" where
  "toMsgInfo src = Inr \<lparr>miChannelID = mrChannelID src, miMsgCid = mrMsgCid src, Received = mrReceived src, miErr = mrErr src\<rparr>"

record ('c, 'm) sqlPaych =
  channelTable :: "('c, channelInfo) sqlTable"
  messageTable :: "('m, msgInfo) sqlTable"

text \<open>The identifier is written into the channel info of the caller.\<close>

definition sqlSaveChannel :: "('c, 'm) sqlPaych \<Rightarrow> 'c \<times> 'm \<Rightarrow> string \<Rightarrow> ChannelInfo \<Rightarrow> ('c \<times> 'm) \<times> ChannelInfo \<times> error option" where
  "sqlSaveChannel p s uid ci =
     (let ci1 = withID uid ci in
      case tbSave (channelTable p) (fst s) (fromChannelInfo ci1) of (c, err) \<Rightarrow> ((c, snd s), ci1, err))"

definition sqlSaveMessage :: "('c, 'm) sqlPaych \<Rightarrow> 'c \<times> 'm \<Rightarrow> MsgInfo \<Rightarrow> ('c \<times> 'm) \<times> error option" where
  "sqlSaveMessage p s info = (case tbSave (messageTable p) (snd s) (fromMsgInfo info) of (m, err) \<Rightarrow> ((fst s, m), err))"

definition sqlCreateChannel :: "('c, 'm) sqlPaych \<Rightarrow> 'c \<times> 'm \<Rightarrow> string \<Rightarrow> address \<Rightarrow> address \<Rightarrow> cid \<Rightarrow> int \<Rightarrow> ('c \<times> 'm) \<times> ChannelInfo res" where
  "sqlCreateChannel p s uid from to createMsgCid amt =
     (case sqlSaveChannel p s uid (newChannel [] from to createMsgCid amt) of
        (s1, ci, Some e) \<Rightarrow> (s1, Inl e)
      | (s1, ci, None) \<Rightarrow>
          (case sqlSaveMessage p s1 \<lparr>miChannelID = ChannelID ci, miMsgCid = createMsgCid, Received = False, miErr = []\<rparr> of
             (s2, Some e) \<Rightarrow> (s2, Inl e)
           | (s2, None) \<Rightarrow> (s2, Inr ci)))"

definition sqlGetChannelByAddress :: "('c, 'm) sqlPaych \<Rightarrow> 'c \<times> 'm \<Rightarrow> address \<Rightarrow> ChannelInfo res" where
  "sqlGetChannelByAddress p s channel = tryE (tbTake (channelTable p) (fst s) (\<lambda>r. chChannel r = channel \<and> \<not> chIsDeleted r)) toChannelInfo"

definition sqlGetChannelByChannelID :: "('c, 'm) sqlPaych \<Rightarrow> 'c \<times> 'm \<Rightarrow> string \<Rightarrow> ChannelInfo res" where
  "sqlGetChannelByChannelID p s channelID = tryE (tbTake (channelTable p) (fst s) (\<lambda>r. chChannelID r = channelID \<and> \<not> chIsDeleted r)) toChannelInfo"

definition sqlGetChannelByMessageCid :: "('c, 'm) sqlPaych \<Rightarrow> 'c \<times> 'm \<Rightarrow> cid \<Rightarrow> ChannelInfo res" where
  "sqlGetChannelByMessageCid p s mcid =
     tryE (tbTake (messageTable p) (snd s) (\<lambda>r. mrMsgCid r = mcid)) (\<lambda>m. sqlGetChannelByChannelID p s (mrChannelID m))"

definition sqlOutboundActiveByFromTo :: "('c, 'm) sqlPaych \<Rightarrow> 'c \<times> 'm \<Rightarrow> address \<Rightarrow> address \<Rightarrow> ChannelInfo res" where
  "sqlOutboundActiveByFromTo p s from to =
     tryE (tbTake (channelTable p) (fst s)
       (\<lambda>r. chDirection r = DirOutbound \<and> \<not> chSettling r \<and> chControl r = from \<and> chTarget r = to \<and> \<not> chIsDeleted r)) toChannelInfo"

definition sqlWithPendingAddFunds :: "('c, 'm) sqlPaych \<Rightarrow> 'c \<times> 'm \<Rightarrow> ChannelInfo list res" where
  "sqlWithPendingAddFunds p s =
     tryE (tbFind (channelTable p) (fst s) (\<lambda>r. chDirection r = DirOutbound \<and> \<not> chIsDeleted r)) (\<lambda>cis.
       convertRows toChannelInfo (filter (\<lambda>ci. chCreateMsg ci \<noteq> Undef \<or> chAddFundsMsg ci \<noteq> Undef) cis))"

definition sqlListChannel :: "('c, 'm) sqlPaych \<Rightarrow> 'c \<times> 'm \<Rightarrow> address list res" where
  "sqlListChannel p s =
     tryE (tbFind (channelTable p) (fst s) (\<lambda>r. chChannel r \<noteq> Undef \<and> \<not> chIsDeleted r)) (\<lambda>infos.
       Inr (map chChannel (filter (\<lambda>info. chChannel info \<noteq> Undef) infos)))"

definition sqlRemoveChannel :: "('c, 'm) sqlPaych \<Rightarrow> 'c \<times> 'm \<Rightarrow> string \<Rightarrow> ('c \<times> 'm) \<times> error option" where
  "sqlRemoveChannel p s channelID =
     (case tbTake (channelTable p) (fst s) (\<lambda>r. chChannelID r = channelID \<and> \<not> chIsDeleted r) of
        Inl e \<Rightarrow> (s, Some e)
      | Inr _ \<Rightarrow>
          (case tbUpdate (channelTable p) (fst s) (\<lambda>r. chChannelID r = channelID) (\<lambda>r. r\<lparr>chIsDeleted := True\<rparr>) of
             (c, err) \<Rightarrow> ((c, snd s), err)))"

definition sqlGetMessage :: "('c, 'm) sqlPaych \<Rightarrow> 'c \<times> 'm \<Rightarrow> cid \<Rightarrow> MsgInfo res" where
  "sqlGetMessage p s mcid = tryE (tbTake (messageTable p) (snd s) (\<lambda>r. mrMsgCid r = mcid)) toMsgInfo"

definition sqlSaveMessageResult :: "('c, 'm) sqlPaych \<Rightarrow> 'c \<times> 'm \<Rightarrow> cid \<Rightarrow> error option \<Rightarrow> ('c \<times> 'm) \<times> error option" where
  "sqlSaveMessageResult p s mcid msgErr =
     (case tbUpdate (messageTable p) (snd s) (\<lambda>r. mrMsgCid r = mcid)
        (\<lambda>r. r\<lparr>mrReceived := True, mrErr := (case msgErr of None \<Rightarrow> mrErr r | Some e \<Rightarrow> errorString e)\<rparr>) of
        (m, err) \<Rightarrow> ((fst s, m), err))"

definition NewSqlPaychRepo :: "('c, 'm) sqlPaych \<Rightarrow> ('c \<times> 'm) PaychRepo" where
  "NewSqlPaychRepo p = \<lparr>
     pcCreateChannel = sqlCreateChannel p, pcGetChannelByAddress = sqlGetChannelByAddress p,
     pcGetChannelByChannelID = sqlGetChannelByChannelID p, pcGetChannelByMessageCid = sqlGetChannelByMessageCid p,
     pcWithPendingAddFunds = sqlWithPendingAddFunds p, pcOutboundActiveByFromTo = sqlOutboundActiveByFromTo p,
     pcListChannel = sqlListChannel p,
     pcSaveChannel = (\<lambda>s uid ci. case sqlSaveChannel p s uid ci of (s1, _, err) \<Rightarrow> (s1, err)),
     pcRemoveChannel = sqlRemoveChannel p, pmGetMessage = sqlGetMessage p, pmSaveMessage = sqlSaveMessage p,
     pmSaveMessageResult = sqlSaveMessageResult p\<rparr>"

section \<open>What the tables hold\<close>

definition normalFunds :: "FundedAddressState \<Rightarrow> FundedAddressState" where
  "normalFunds st = st\<lparr>MsgCid := normPtr (MsgCid st)\<rparr>"

locale sql_funds = sql_table tb rows fasAddr
  for tb :: "('t, fundedAddressState) sqlTable" and rows :: "'t \<Rightarrow> address \<Rightarrow> fundedAddressState option"

sublocale sql_funds \<subseteq> repo: sql_repo tb rows fasAddr fromFundedAddressState toFundedAddressState Addr normalFunds "\<lambda>_. True"
  by unfold_locales (auto simp: fromFundedAddressState_def toFundedAddressState_def normalFunds_def)

interpretation memfunds: sql_funds "list_table fasAddr" "tableRows fasAddr"
  by unfold_locales

definition normalChannel :: "ChannelInfo \<Rightarrow> ChannelInfo" where
  "normalChannel ci = ci\<lparr>Channel := normPtr (Channel ci), CreateMsg := normPtr (CreateMsg ci), AddFundsMsg := normPtr (AddFundsMsg ci)\<rparr>"

text \<open>The channels of the repository: the rows that are not marked as removed.\<close>

definition sqlChannels :: "('c \<Rightarrow> string \<Rightarrow> channelInfo option) \<Rightarrow> 'c \<times> 'm \<Rightarrow> string \<Rightarrow> ChannelInfo option" where
  "sqlChannels crows s i =
     (case crows (fst s) i of
        None \<Rightarrow> None
      | Some r \<Rightarrow> if chIsDeleted r then None else (case toChannelInfo r of Inl _ \<Rightarrow> None | Inr ci \<Rightarrow> Some ci))"

locale sql_paych = ch: sql_table "channelTable p" crows chChannelID + ms: sql_table "messageTable p" mrows mrMsgCid
  for p :: "('c, 'm) sqlPaych" and crows :: "'c \<Rightarrow> string \<Rightarrow> channelInfo option" and mrows :: "'m \<Rightarrow> cid \<Rightarrow> msgInfo option"
begin

abbreviation "view \<equiv> sqlChannels crows"

lemma to_from_channel: "toChannelInfo (fromChannelInfo ci) = Inr (normalChannel ci)"
  by (simp add: toChannelInfo_def fromChannelInfo_def normalChannel_def)

lemma save_channel:
  assumes "sqlSaveChannel p s uid ci = (s', ci', None)"
  shows "view s' = (view s)(ChannelID (withID uid ci) \<mapsto> normalChannel (withID uid ci)) \<and> snd s' = snd s \<and> ci' = withID uid ci"
proof -
  obtain c where c: "tbSave (channelTable p) (fst s) (fromChannelInfo (withID uid ci)) = (c, None)" "s' = (c, snd s)" "ci' = withID uid ci"
    using assms by (auto simp: sqlSaveChannel_def Let_def split: prod.splits)
  have "crows c = (crows (fst s))(ChannelID (withID uid ci) \<mapsto> fromChannelInfo (withID uid ci))"
    using ch.save_ok [OF c(1)] by (simp add: fromChannelInfo_def)
  then show ?thesis using c by (auto simp: sqlChannels_def fun_eq_iff to_from_channel) (simp_all add: fromChannelInfo_def)
qed

lemma channel_row:
  assumes "crows (fst s) (chChannelID r) = Some r" "\<not> chIsDeleted r" "toChannelInfo r = Inr ci"
  shows "view s (ChannelID ci) = Some ci"
  using assms by (auto simp: sqlChannels_def toChannelInfo_def)

lemma taken_channel:
  assumes "tryE (tbTake (channelTable p) (fst s) c) toChannelInfo = Inr ci" "\<And>r. c r \<Longrightarrow> \<not> chIsDeleted r"
  shows "\<exists>r. c r \<and> toChannelInfo r = Inr ci \<and> view s (ChannelID ci) = Some ci"
proof -
  obtain r where r: "tbTake (channelTable p) (fst s) c = Inr r" "toChannelInfo r = Inr ci" using assms(1) by (auto simp: tryE_Inr_iff)
  then show ?thesis using ch.take_row [OF r(1)] channel_row assms(2) by blast
qed

lemma removed_channel:
  assumes "sqlRemoveChannel p s i = (s', None)"
  shows "view s i \<noteq> None \<and> view s' = (view s)(i := None)"
proof -
  let ?c = "\<lambda>r. chChannelID r = i"
  obtain r c where r: "tbTake (channelTable p) (fst s) (\<lambda>r. chChannelID r = i \<and> \<not> chIsDeleted r) = Inr r"
    "tbUpdate (channelTable p) (fst s) ?c (\<lambda>r. r\<lparr>chIsDeleted := True\<rparr>) = (c, None)" "s' = (c, snd s)"
    using assms by (auto simp: sqlRemoveChannel_def split: sum.splits prod.splits)
  have rows: "crows c k = map_option (\<lambda>r. if ?c r then r\<lparr>chIsDeleted := True\<rparr> else r) (crows (fst s) k)" for k
    using ch.update_ok [OF r(2)] by simp
  have "view s' k = ((view s)(i := None)) k" for k
    using rows [of k] ch.row_key [of "fst s" k] by (cases "crows (fst s) k") (auto simp: r(3) sqlChannels_def)
  moreover have "view s i \<noteq> None" using ch.take_row [OF r(1)] by (auto simp: sqlChannels_def toChannelInfo_def)
  ultimately show ?thesis by blast
qed

lemma pending_channels:
  assumes "sqlWithPendingAddFunds p s = Inr cs"
  shows "set cs = {ci. view s (ChannelID ci) = Some ci \<and> Direction ci = DirOutbound \<and> (CreateMsg ci \<noteq> None \<or> AddFundsMsg ci \<noteq> None)}"
proof -
  let ?p = "\<lambda>ci. chCreateMsg ci \<noteq> Undef \<or> chAddFundsMsg ci \<noteq> Undef"
  obtain rs where rs: "tbFind (channelTable p) (fst s) (\<lambda>r. chDirection r = DirOutbound \<and> \<not> chIsDeleted r) = Inr rs"
    "convertRows toChannelInfo (filter ?p rs) = Inr cs" using assms by (auto simp: sqlWithPendingAddFunds_def tryE_Inr_iff)
  have m: "map toChannelInfo (filter ?p rs) = map Inr cs" using rs(2) by (simp add: convertRows_Inr)
  have cs: "ci \<in> set cs \<longleftrightarrow> (\<exists>r \<in> set rs. ?p r \<and> toChannelInfo r = Inr ci)" for ci
  proof -
    have "ci \<in> set cs \<longleftrightarrow> Inr ci \<in> set (map Inr cs :: (error + ChannelInfo) list)" by auto
    also have "\<dots> \<longleftrightarrow> Inr ci \<in> set (map toChannelInfo (filter ?p rs))" by (simp only: m)
    finally show ?thesis by (auto simp: image_iff)
  qed
  have row: "r \<in> set rs \<longleftrightarrow> crows (fst s) (chChannelID r) = Some r \<and> chDirection r = DirOutbound \<and> \<not> chIsDeleted r" for r
    using ch.find_rows [OF rs(1)] by blast
  have to: "toChannelInfo r = Inr ci \<Longrightarrow> ChannelID ci = chChannelID r \<and> Direction ci = chDirection r \<and> (?p r \<longleftrightarrow> CreateMsg ci \<noteq> None \<or> AddFundsMsg ci \<noteq> None)" for r ci
    by (auto simp: toChannelInfo_def cidPtr_def)
  have vw: "view s (ChannelID ci) = Some ci \<longleftrightarrow> (\<exists>r. crows (fst s) (chChannelID r) = Some r \<and> \<not> chIsDeleted r \<and> toChannelInfo r = Inr ci)" for ci
  proof
    assume "view s (ChannelID ci) = Some ci"
    then obtain r where r: "crows (fst s) (ChannelID ci) = Some r" "\<not> chIsDeleted r" "toChannelInfo r = Inr ci"
      by (auto simp: sqlChannels_def split: option.splits sum.splits if_splits)
    then have "crows (fst s) (chChannelID r) = Some r" using ch.row_key [OF r(1)] by simp
    then show "\<exists>r. crows (fst s) (chChannelID r) = Some r \<and> \<not> chIsDeleted r \<and> toChannelInfo r = Inr ci" using r by blast
  qed (use channel_row in blast)
  have "ci \<in> set cs \<longleftrightarrow> view s (ChannelID ci) = Some ci \<and> Direction ci = DirOutbound \<and> (CreateMsg ci \<noteq> None \<or> AddFundsMsg ci \<noteq> None)" for ci
  proof
    assume "ci \<in> set cs"
    then obtain r where r: "r \<in> set rs" "?p r" "toChannelInfo r = Inr ci" using cs by blast
    then show "view s (ChannelID ci) = Some ci \<and> Direction ci = DirOutbound \<and> (CreateMsg ci \<noteq> None \<or> AddFundsMsg ci \<noteq> None)"
      using vw [of ci] row [of r] to [OF r(3)] by metis
  next
    assume a: "view s (ChannelID ci) = Some ci \<and> Direction ci = DirOutbound \<and> (CreateMsg ci \<noteq> None \<or> AddFundsMsg ci \<noteq> None)"
    then obtain r where r: "crows (fst s) (chChannelID r) = Some r" "\<not> chIsDeleted r" "toChannelInfo r = Inr ci" using vw by blast
    then show "ci \<in> set cs" using a cs [of ci] row [of r] to [OF r(3)] by metis
  qed
  then show ?thesis by blast
qed

lemma created_channel:
  assumes "sqlCreateChannel p s uid from to c amt = (s', Inr ci)"
  shows "ci = newChannel uid from to c amt \<and> view s' = (view s)(uid \<mapsto> normalChannel (newChannel uid from to c amt)) \<and>
    (sqlGetChannelByMessageCid p s' c = Inr ci' \<longrightarrow> ci' = normalChannel ci)"
proof -
  let ?m = "\<lambda>ci. \<lparr>miChannelID = ChannelID ci, miMsgCid = c, Received = False, miErr = []\<rparr>"
  obtain s1 where s1: "sqlSaveChannel p s uid (newChannel [] from to c amt) = (s1, ci, None)" "sqlSaveMessage p s1 (?m ci) = (s', None)"
    using assms by (auto simp: sqlCreateChannel_def split: prod.splits option.splits)
  have new: "withID uid (newChannel [] from to c amt) = newChannel uid from to c amt" "ChannelID (newChannel uid from to c amt) = uid"
    by (simp_all add: withID_def newChannel_def)
  note sv = save_channel [OF s1(1), unfolded new]
  obtain m where m: "tbSave (messageTable p) (snd s1) (fromMsgInfo (?m ci)) = (m, None)" "s' = (fst s1, m)"
    using s1(2) by (auto simp: sqlSaveMessage_def split: prod.splits)
  have v: "view s' = view s1" by (simp add: m(2) sqlChannels_def fun_eq_iff)
  have "ci' = normalChannel ci" if g: "sqlGetChannelByMessageCid p s' c = Inr ci'"
  proof -
    obtain r where r: "tbTake (messageTable p) m (\<lambda>r. mrMsgCid r = c) = Inr r" "sqlGetChannelByChannelID p s' (mrChannelID r) = Inr ci'"
      using g by (auto simp: sqlGetChannelByMessageCid_def m(2) tryE_Inr_iff)
    have "mrows m c = Some (fromMsgInfo (?m ci))" using ms.save_ok [OF m(1)] by (simp add: fromMsgInfo_def)
    then have "r = fromMsgInfo (?m ci)" using ms.take_row [OF r(1)] by auto
    then have "mrChannelID r = uid" using sv new by (simp add: fromMsgInfo_def)
    then have "view s' uid = Some ci'"
      using taken_channel [OF r(2) [unfolded sqlGetChannelByChannelID_def]] by (auto simp: toChannelInfo_def)
    then show ?thesis using v sv by simp
  qed
  then show ?thesis using sv v by simp
qed

end

definition mem_paych :: "(channelInfo list, msgInfo list) sqlPaych" where
  "mem_paych = \<lparr>channelTable = list_table chChannelID, messageTable = list_table mrMsgCid\<rparr>"

interpretation mempaychs: sql_paych mem_paych "tableRows chChannelID" "tableRows mrMsgCid"
  unfolding sql_paych_def mem_paych_def by (simp add: memtable.sql_table_axioms)

text \<open>Property C36. The MySQL repository of payment channels holds a map from identifiers to channels, up to pointers to undefined values: a
  saved channel is found, a removed one is not, only a channel that is there can be removed; a created channel is found by its message;
  reads by identifier, address and parties give channels of the map, and the listing of pending channels gives all of them.\<close>

theorem mysql_channels_refine:
  assumes "sql_paych p crows mrows"
  shows "(sqlSaveChannel p s uid ci = (s', ci', None) \<longrightarrow>
      sqlChannels crows s' = (sqlChannels crows s)(ChannelID (withID uid ci) \<mapsto> normalChannel (withID uid ci))) \<and>
    (sqlRemoveChannel p s i = (s', None) \<longrightarrow> sqlChannels crows s i \<noteq> None \<and> sqlChannels crows s' = (sqlChannels crows s)(i := None)) \<and>
    (sqlCreateChannel p s uid from to c amt = (s', Inr ci) \<longrightarrow> ci = newChannel uid from to c amt \<and>
      sqlChannels crows s' = (sqlChannels crows s)(uid \<mapsto> normalChannel ci) \<and>
      (sqlGetChannelByMessageCid p s' c = Inr ci' \<longrightarrow> ci' = normalChannel ci)) \<and>
    (sqlGetChannelByChannelID p s i = Inr ci \<longrightarrow> sqlChannels crows s i = Some ci) \<and>
    (sqlGetChannelByAddress p s a = Inr ci \<longrightarrow> sqlChannels crows s (ChannelID ci) = Some ci \<and> Channel ci = addrPtr a) \<and>
    (sqlOutboundActiveByFromTo p s from to = Inr ci \<longrightarrow> sqlChannels crows s (ChannelID ci) = Some ci \<and> Direction ci = DirOutbound \<and>
      \<not> Settling ci \<and> Control ci = from \<and> Target ci = to) \<and>
    (sqlWithPendingAddFunds p s = Inr cs \<longrightarrow>
      set cs = {ci. sqlChannels crows s (ChannelID ci) = Some ci \<and> Direction ci = DirOutbound \<and> (CreateMsg ci \<noteq> None \<or> AddFundsMsg ci \<noteq> None)})"
proof (intro conjI impI)
  note L = assms
  note taken = sql_paych.taken_channel [OF L, of s]
  show "sqlSaveChannel p s uid ci = (s', ci', None) \<Longrightarrow>
      sqlChannels crows s' = (sqlChannels crows s)(ChannelID (withID uid ci) \<mapsto> normalChannel (withID uid ci))"
    using sql_paych.save_channel [OF L] by blast
  show "sqlRemoveChannel p s i = (s', None) \<Longrightarrow> sqlChannels crows s i \<noteq> None"
    "sqlRemoveChannel p s i = (s', None) \<Longrightarrow> sqlChannels crows s' = (sqlChannels crows s)(i := None)"
    using sql_paych.removed_channel [OF L] by blast+
  assume "sqlCreateChannel p s uid from to c amt = (s', Inr ci)"
  note cr = sql_paych.created_channel [OF L this]
  show "ci = newChannel uid from to c amt" "sqlChannels crows s' = (sqlChannels crows s)(uid \<mapsto> normalChannel ci)"
    "sqlGetChannelByMessageCid p s' c = Inr ci' \<Longrightarrow> ci' = normalChannel ci" using cr by auto
next
  note taken = sql_paych.taken_channel [OF assms, of s]
  show "sqlGetChannelByChannelID p s i = Inr ci \<Longrightarrow> sqlChannels crows s i = Some ci"
    using taken [of "\<lambda>r. chChannelID r = i \<and> \<not> chIsDeleted r"] by (auto simp: sqlGetChannelByChannelID_def toChannelInfo_def)
  show "sqlGetChannelByAddress p s a = Inr ci \<Longrightarrow> sqlChannels crows s (ChannelID ci) = Some ci"
    "sqlGetChannelByAddress p s a = Inr ci \<Longrightarrow> Channel ci = addrPtr a"
    using taken [of "\<lambda>r. chChannel r = a \<and> \<not> chIsDeleted r"] by (auto simp: sqlGetChannelByAddress_def toChannelInfo_def)
  assume o: "sqlOutboundActiveByFromTo p s from to = Inr ci"
  show "sqlChannels crows s (ChannelID ci) = Some ci" "Direction ci = DirOutbound" "\<not> Settling ci" "Control ci = from" "Target ci = to"
    using taken [OF o [unfolded sqlOutboundActiveByFromTo_def]] by (auto simp: toChannelInfo_def)
next
  assume "sqlWithPendingAddFunds p s = Inr cs"
  then show "set cs = {ci. sqlChannels crows s (ChannelID ci) = Some ci \<and> Direction ci = DirOutbound \<and> (CreateMsg ci \<noteq> None \<or> AddFundsMsg ci \<noteq> None)}"
    by (rule sql_paych.pending_channels [OF assms])
qed

theorem mysql_channels_refine_witness:
  "\<exists>s. sqlCreateChannel mem_paych ([], []) ''id'' ''from'' ''to'' ''msg'' 5 = (s, Inr (newChannel ''id'' ''from'' ''to'' ''msg'' 5)) \<and>
     sqlChannels (tableRows chChannelID) s ''id'' = Some (normalChannel (newChannel ''id'' ''from'' ''to'' ''msg'' 5))"
proof -
  let ?ci = "newChannel ''id'' ''from'' ''to'' ''msg'' 5"
  have run: "sqlCreateChannel mem_paych ([], []) ''id'' ''from'' ''to'' ''msg'' 5 =
      (([fromChannelInfo ?ci], [\<lparr>mrChannelID = ''id'', mrMsgCid = ''msg'', mrReceived = False, mrErr = []\<rparr>]), Inr ?ci)" by code_simp
  have "sqlChannels (tableRows chChannelID) ([fromChannelInfo ?ci], [\<lparr>mrChannelID = ''id'', mrMsgCid = ''msg'', mrReceived = False, mrErr = []\<rparr>]) =
      (sqlChannels (tableRows chChannelID) ([], [] :: msgInfo list))(''id'' \<mapsto> normalChannel ?ci)"
    using mysql_channels_refine [OF mempaychs.sql_paych_axioms, THEN conjunct2, THEN conjunct2, THEN conjunct1, THEN mp, OF run] by blast
  then show ?thesis using run by simp
qed

text \<open>A read by the undefined address gives a channel that has no address yet, while the badger repository finds none.\<close>

theorem undefined_address_found:
  "\<exists>ci. sqlGetChannelByAddress mem_paych ([fromChannelInfo (newChannel ''id'' ''from'' ''to'' ''msg'' 5)], []) Undef = Inr ci \<and> Channel ci = None \<and>
     GetChannelByAddress map_datastore mem_paych_codec [(dskeyForChannel ''id'', ChannelValue (newChannel ''id'' ''from'' ''to'' ''msg'' 5))] Undef = Inl ErrNotFound"
  by (simp add: sqlGetChannelByAddress_def mem_paych_def list_table_def fromChannelInfo_def newChannel_def fromPtr_def toChannelInfo_def addrPtr_def
      GetChannelByAddress_def findChan_def findChans_def unmarshallChannelInfo_def mem_paych_codec_def dskeyForChannel_def dsKeyChannelInfo_def)

end
