(* ===== verification/Mysql_Deals.thy ===== *)
theory Mysql_Deals
  imports Storage_Deal_Repo Sql_Table
begin

text \<open>
  The MySQL repository of storage deals (\<open>src/models/mysql/storage_deal.go\<close>): the row of a deal, the conversions and the
  operations of the interface \<open>StorageDealRepo\<close>, and how it compares with the badger repository. Peer identifiers are identified
  with their rendering; \<open>decodePeerId\<close> and the constructors of labels are parameters. A column of a number has the type of the Go
  field; conditions on rendered columns are conditions on the values they render.
\<close>

section \<open>Rows\<close>

record sqlClientDealProposal =
  cdpPieceCID :: cid
  cdpPieceSize :: u64
  cdpVerifiedDeal :: bool
  cdpClient :: address
  cdpProvider :: address
  cdpLabel :: string
  cdpStartEpoch :: int
  cdpEndEpoch :: int
  cdpStoragePricePerEpoch :: int
  cdpProviderCollateral :: int
  cdpClientCollateral :: int
  cdpClientSignature :: bytes

record sqlChannelID =
  tciInitiator :: string
  tciResponder :: string
  tciID :: u64

record sqlDataRef =
  sqlTransferType :: string
  sqlRoot :: cid
  sqlPieceCid :: cid
  sqlPieceSize :: u64
  sqlRawBlockSize :: u64

record storageDeal =
  rwProposal :: sqlClientDealProposal
  rwProposalCid :: cid
  rwAddFundsCid :: cid
  rwPublishCid :: cid
  rwMiner :: string
  rwClient :: string
  rwState :: StorageDealStatus
  rwPayloadSize :: u64
  rwPiecePath :: string
  rwMetadataPath :: string
  rwSlashEpoch :: int
  rwFastRetrieval :: bool
  rwMessage :: string
  rwFundsReserved :: int
  rwRef :: sqlDataRef
  rwAvailableForRetrieval :: bool
  rwDealID :: u64
  rwCreationTime :: int
  rwTransferChannelId :: sqlChannelID
  rwSectorNumber :: u64
  rwInboundCAR :: string
  rwOffset :: u64
  rwLength :: u64
  rwPieceStatus :: PieceStatus

record dealLib =
  decodePeerId :: "string \<Rightarrow> string res"
  NewLabel :: "string \<Rightarrow> string res"

section \<open>Conversions\<close>

text \<open>\<open>UnixNano\<close> is an \<open>int64\<close>. A label is stored as its bytes, be it a string or not. A nil channel leaves the zero struct.\<close>

definition UnixNano :: "int \<Rightarrow> int" where
  "UnixNano t = sint (word_of_int t :: 64 word)"

definition fromStorageDeal :: "MinerDeal \<Rightarrow> storageDeal" where
  "fromStorageDeal src =
     \<lparr>rwProposal =
        \<lparr>cdpPieceCID = PieceCID (Proposal src), cdpPieceSize = PieceSize (Proposal src), cdpVerifiedDeal = VerifiedDeal (Proposal src),
         cdpClient = Client (Proposal src), cdpProvider = Provider (Proposal src), cdpLabel = Label (Proposal src),
         cdpStartEpoch = StartEpoch (Proposal src), cdpEndEpoch = EndEpoch (Proposal src),
         cdpStoragePricePerEpoch = StoragePricePerEpoch (Proposal src), cdpProviderCollateral = ProviderCollateral (Proposal src),
         cdpClientCollateral = ClientCollateral (Proposal src), cdpClientSignature = ClientSignature src\<rparr>,
      rwProposalCid = ProposalCid src, rwAddFundsCid = fromPtr (mdAddFundsCid src), rwPublishCid = fromPtr (PublishCid src),
      rwMiner = mdMiner src, rwClient = mdClient src, rwState = mdState src, rwPayloadSize = PayloadSize src,
      rwPiecePath = PiecePath src, rwMetadataPath = MetadataPath src, rwSlashEpoch = SlashEpoch src,
      rwFastRetrieval = FastRetrieval src, rwMessage = mdMessage src, rwFundsReserved = convertBigInt (FundsReserved src),
      rwRef = \<lparr>sqlTransferType = TransferType (Ref src), sqlRoot = Root (Ref src), sqlPieceCid = fromPtr (refPieceCid (Ref src)),
        sqlPieceSize = refPieceSize (Ref src), sqlRawBlockSize = RawBlockSize (Ref src)\<rparr>,
      rwAvailableForRetrieval = AvailableForRetrieval src, rwDealID = DealID src, rwCreationTime = UnixNano (CreationTime src),
      rwTransferChannelId = (case TransferChannelID src of
          None \<Rightarrow> \<lparr>tciInitiator = [], tciResponder = [], tciID = 0\<rparr>
        | Some ch \<Rightarrow> \<lparr>tciInitiator = Initiator ch, tciResponder = Responder ch, tciID = chanID ch\<rparr>),
      rwSectorNumber = SectorNumber src, rwInboundCAR = InboundCAR src, rwOffset = Offset src, rwLength = PieceSize (Proposal src),
      rwPieceStatus = mdPieceStatus src\<rparr>"

definition toChannel :: "dealLib \<Rightarrow> sqlChannelID \<Rightarrow> ChannelID option res" where
  "toChannel lib ch =
     (if length (tciInitiator ch) > 0 then
        (case decodePeerId lib (tciInitiator ch) of
           Inl e \<Rightarrow> Inl (ErrMsg ''decode tci_initiator'')
         | Inr i \<Rightarrow>
             (case decodePeerId lib (tciResponder ch) of
                Inl e \<Rightarrow> Inl (ErrMsg ''decode tci_responder'')
              | Inr r \<Rightarrow> Inr (Some \<lparr>Initiator = i, Responder = r, chanID = tciID ch\<rparr>)))
      else Inr None)"

definition toProposal :: "sqlClientDealProposal \<Rightarrow> string \<Rightarrow> DealProposal" where
  "toProposal p label =
     \<lparr>PieceCID = cdpPieceCID p, PieceSize = cdpPieceSize p, VerifiedDeal = cdpVerifiedDeal p, Client = cdpClient p,
      Provider = cdpProvider p, Label = label, StartEpoch = cdpStartEpoch p, EndEpoch = cdpEndEpoch p,
      StoragePricePerEpoch = cdpStoragePricePerEpoch p, ProviderCollateral = cdpProviderCollateral p,
      ClientCollateral = cdpClientCollateral p\<rparr>"

definition toStorageDeal :: "dealLib \<Rightarrow> storageDeal \<Rightarrow> MinerDeal res" where
  "toStorageDeal lib src =
     tryE (NewLabel lib (cdpLabel (rwProposal src))) (\<lambda>label.
     tryE (toChannel lib (rwTransferChannelId src)) (\<lambda>ch.
     (case decodePeerId lib (rwMiner src) of
        Inl e \<Rightarrow> Inl (ErrMsg ''decode miner_peer'')
      | Inr miner \<Rightarrow>
     (case decodePeerId lib (rwClient src) of
        Inl e \<Rightarrow> Inl (ErrMsg ''decode client_peer'')
      | Inr client \<Rightarrow> Inr
     \<lparr>Proposal = toProposal (rwProposal src) label, ClientSignature = cdpClientSignature (rwProposal src),
      ProposalCid = rwProposalCid src, mdAddFundsCid = cidPtr (rwAddFundsCid src), PublishCid = cidPtr (rwPublishCid src),
      mdMiner = miner, mdClient = client, mdState = rwState src, PiecePath = rwPiecePath src, PayloadSize = rwPayloadSize src,
      MetadataPath = rwMetadataPath src, SlashEpoch = rwSlashEpoch src, FastRetrieval = rwFastRetrieval src, mdMessage = rwMessage src,
      FundsReserved = Some (rwFundsReserved src),
      Ref = \<lparr>TransferType = sqlTransferType (rwRef src), Root = sqlRoot (rwRef src), refPieceCid = cidPtr (sqlPieceCid (rwRef src)),
        refPieceSize = sqlPieceSize (rwRef src), RawBlockSize = sqlRawBlockSize (rwRef src)\<rparr>,
      AvailableForRetrieval = rwAvailableForRetrieval src, InboundCAR = rwInboundCAR src, DealID = rwDealID src,
      SectorNumber = rwSectorNumber src, Offset = rwOffset src, mdPieceStatus = rwPieceStatus src,
      CreationTime = rwCreationTime src, TransferChannelID = ch\<rparr>))))"

definition convertDeal :: "dealLib \<Rightarrow> storageDeal \<Rightarrow> MinerDeal res" where
  "convertDeal lib deal =
     (case toStorageDeal lib deal of
        Inl e \<Rightarrow> Inl (ErrWrap ''convert StorageDeal to a types.MinerDeal failed'' e)
      | Inr d \<Rightarrow> Inr d)"

definition fromDbDeals :: "dealLib \<Rightarrow> storageDeal list \<Rightarrow> MinerDeal list res" where
  "fromDbDeals lib dbDeals = convertRows (toStorageDeal lib) dbDeals"

section \<open>Operations\<close>

definition sqlSaveDeal :: "('t, storageDeal) sqlTable \<Rightarrow> 't \<Rightarrow> MinerDeal \<Rightarrow> 't \<times> error option" where
  "sqlSaveDeal tb t d = tbSave tb t (fromStorageDeal d)"

definition sqlGetDeal :: "dealLib \<Rightarrow> ('t, storageDeal) sqlTable \<Rightarrow> 't \<Rightarrow> cid \<Rightarrow> MinerDeal res" where
  "sqlGetDeal lib tb t proposalCid = tryE (tbTake tb t (\<lambda>r. rwProposalCid r = proposalCid)) (toStorageDeal lib)"

text \<open>\<open>Offset\<close> and \<open>Limit\<close> are called on the result of \<open>Find\<close>, which has run the query: the page has no effect.\<close>

definition sqlGetDeals :: "dealLib \<Rightarrow> ('t, storageDeal) sqlTable \<Rightarrow> 't \<Rightarrow> address \<Rightarrow> int \<Rightarrow> int \<Rightarrow> MinerDeal list res" where
  "sqlGetDeals lib tb t miner pageIndex pageSize =
     tryE (tbFind tb t (\<lambda>r. cdpProvider (rwProposal r) = miner)) (convertRows (convertDeal lib))"

definition sqlGetDealsByPieceCidAndStatus :: "dealLib \<Rightarrow> ('t, storageDeal) sqlTable \<Rightarrow> 't \<Rightarrow> cid \<Rightarrow> StorageDealStatus list \<Rightarrow> MinerDeal list res" where
  "sqlGetDealsByPieceCidAndStatus lib tb t piececid statues =
     tryE (tbFind tb t (\<lambda>r. cdpPieceCID (rwProposal r) = piececid \<and> rwState r \<in> set statues)) (convertRows (convertDeal lib))"

definition sqlGetDealsByDataCidAndDealStatus ::
    "dealLib \<Rightarrow> ('t, storageDeal) sqlTable \<Rightarrow> 't \<Rightarrow> address \<Rightarrow> cid \<Rightarrow> PieceStatus list \<Rightarrow> MinerDeal list res" where
  "sqlGetDealsByDataCidAndDealStatus lib tb t mAddr dataCid pieceStatuss =
     tryE (tbFind tb t (\<lambda>r. sqlRoot (rwRef r) = dataCid \<and> (mAddr \<noteq> Undef \<longrightarrow> cdpProvider (rwProposal r) = mAddr) \<and>
        (length pieceStatuss > 0 \<longrightarrow> rwPieceStatus r \<in> set pieceStatuss))) (convertRows (convertDeal lib))"

definition sqlGetDealByAddrAndStatus :: "dealLib \<Rightarrow> ('t, storageDeal) sqlTable \<Rightarrow> 't \<Rightarrow> address \<Rightarrow> StorageDealStatus list \<Rightarrow> MinerDeal list res" where
  "sqlGetDealByAddrAndStatus lib tb t mAddr status =
     tryE (tbFind tb t (\<lambda>r. (mAddr \<noteq> Undef \<longrightarrow> cdpProvider (rwProposal r) = mAddr) \<and> (length status > 0 \<longrightarrow> rwState r \<in> set status)))
       (convertRows (convertDeal lib))"

text \<open>The update of columns that match no row is no error.\<close>

definition sqlUpdateDealStatus :: "('t, storageDeal) sqlTable \<Rightarrow> 't \<Rightarrow> cid \<Rightarrow> StorageDealStatus \<Rightarrow> PieceStatus \<Rightarrow> 't \<times> error option" where
  "sqlUpdateDealStatus tb t proposalCid status pieceState =
     (if status = StorageDealUnknown \<and> length pieceState = 0 then (t, None)
      else tbUpdate tb t (\<lambda>r. rwProposalCid r = proposalCid)
        (\<lambda>r. r\<lparr>rwState := (if status \<noteq> StorageDealUnknown then status else rwState r),
               rwPieceStatus := (if length pieceState \<noteq> 0 then pieceState else rwPieceStatus r)\<rparr>))"

definition sqlListDealByAddr :: "dealLib \<Rightarrow> ('t, storageDeal) sqlTable \<Rightarrow> 't \<Rightarrow> address \<Rightarrow> MinerDeal list res" where
  "sqlListDealByAddr lib tb t miner = tryE (tbFind tb t (\<lambda>r. cdpProvider (rwProposal r) = miner)) (fromDbDeals lib)"

definition sqlListDeal :: "dealLib \<Rightarrow> ('t, storageDeal) sqlTable \<Rightarrow> 't \<Rightarrow> MinerDeal list res" where
  "sqlListDeal lib tb t = tryE (tbFind tb t (\<lambda>r. True)) (fromDbDeals lib)"

definition sqlGetPieceInfo :: "dealLib \<Rightarrow> ('t, storageDeal) sqlTable \<Rightarrow> 't \<Rightarrow> cid \<Rightarrow> PieceDealInfo list res" where
  "sqlGetPieceInfo lib tb t pieceCID =
     tryE (tbFind tb t (\<lambda>r. cdpPieceCID (rwProposal r) = pieceCID)) (\<lambda>rs.
     tryE (convertRows (toStorageDeal lib) rs) (\<lambda>ds. Inr (map pieceDealInfo ds)))"

definition sqlListPieceInfoKeys :: "(string \<Rightarrow> cid res) \<Rightarrow> ('t, storageDeal) sqlTable \<Rightarrow> 't \<Rightarrow> cid list res" where
  "sqlListPieceInfoKeys decode tb t =
     tryE (tbFind tb t (\<lambda>r. True)) (\<lambda>rs. convertRows decode (map (\<lambda>r. cidString (cdpPieceCID (rwProposal r))) rs))"

definition sqlGetDealByDealID :: "dealLib \<Rightarrow> ('t, storageDeal) sqlTable \<Rightarrow> 't \<Rightarrow> address \<Rightarrow> u64 \<Rightarrow> MinerDeal res" where
  "sqlGetDealByDealID lib tb t mAddr dealID =
     tryE (tbTake tb t (\<lambda>r. cdpProvider (rwProposal r) = mAddr \<and> rwDealID r = dealID)) (toStorageDeal lib)"

definition sqlGetDealsByPieceStatus :: "dealLib \<Rightarrow> ('t, storageDeal) sqlTable \<Rightarrow> 't \<Rightarrow> address \<Rightarrow> PieceStatus \<Rightarrow> MinerDeal list res" where
  "sqlGetDealsByPieceStatus lib tb t mAddr pieceStatus =
     tryE (tbFind tb t (\<lambda>r. rwPieceStatus r = pieceStatus \<and> (mAddr \<noteq> Undef \<longrightarrow> cdpProvider (rwProposal r) = mAddr))) (fromDbDeals lib)"

definition sqlGetPieceSize :: "('t, storageDeal) sqlTable \<Rightarrow> 't \<Rightarrow> cid \<Rightarrow> (u64 \<times> u64) res" where
  "sqlGetPieceSize tb t pieceCID =
     tryE (tbTake tb t (\<lambda>r. cdpPieceCID (rwProposal r) = pieceCID)) (\<lambda>deal. Inr (rwPayloadSize deal, cdpPieceSize (rwProposal deal)))"

definition NewSqlDealRepo :: "(string \<Rightarrow> cid res) \<Rightarrow> dealLib \<Rightarrow> ('t, storageDeal) sqlTable \<Rightarrow> 't StorageDealRepo" where
  "NewSqlDealRepo decode lib tb = \<lparr>
     sdSaveDeal = sqlSaveDeal tb, sdUpdateDealStatus = sqlUpdateDealStatus tb, sdGetDeal = sqlGetDeal lib tb,
     sdGetDealByDealID = (\<lambda>t m i. Ret (sqlGetDealByDealID lib tb t m i)), sdGetDeals = (\<lambda>t m i n. Ret (sqlGetDeals lib tb t m i n)),
     sdGetDealsByPieceStatus = (\<lambda>t m p. Ret (sqlGetDealsByPieceStatus lib tb t m p)),
     sdGetDealsByDataCidAndDealStatus = (\<lambda>t m c p. Ret (sqlGetDealsByDataCidAndDealStatus lib tb t m c p)),
     sdGetDealsByPieceCidAndStatus = (\<lambda>t c s. Ret (sqlGetDealsByPieceCidAndStatus lib tb t c s)),
     sdGetDealByAddrAndStatus = (\<lambda>t m s. Ret (sqlGetDealByAddrAndStatus lib tb t m s)),
     sdListDealByAddr = (\<lambda>t m. Ret (sqlListDealByAddr lib tb t m)), sdListDeal = (\<lambda>t. Ret (sqlListDeal lib tb t)),
     sdGetPieceInfo = (\<lambda>t c. Ret (sqlGetPieceInfo lib tb t c)), sdGetPieceSize = (\<lambda>t c. Ret (sqlGetPieceSize tb t c)),
     sdListPieceInfoKeys = (\<lambda>t. Ret (sqlListPieceInfoKeys decode tb t))\<rparr>"

section \<open>What a row keeps of a deal\<close>

text \<open>A nil amount comes back as zero, a pointer to the undefined CID as nil, a channel without initiator as none.\<close>

definition normalDeal :: "MinerDeal \<Rightarrow> MinerDeal" where
  "normalDeal d = d\<lparr>mdAddFundsCid := normPtr (mdAddFundsCid d), PublishCid := normPtr (PublishCid d),
     FundsReserved := Some (convertBigInt (FundsReserved d)), Ref := (Ref d)\<lparr>refPieceCid := normPtr (refPieceCid (Ref d))\<rparr>,
     CreationTime := UnixNano (CreationTime d),
     TransferChannelID := (case TransferChannelID d of None \<Rightarrow> None | Some ch \<Rightarrow> if Initiator ch = [] then None else Some ch)\<rparr>"

text \<open>The deals that can be read back: label and peer identifiers are accepted by the libraries.\<close>

definition readable :: "dealLib \<Rightarrow> MinerDeal \<Rightarrow> bool" where
  "readable lib d \<longleftrightarrow> NewLabel lib (Label (Proposal d)) = Inr (Label (Proposal d)) \<and>
     decodePeerId lib (mdMiner d) = Inr (mdMiner d) \<and> decodePeerId lib (mdClient d) = Inr (mdClient d) \<and>
     (case TransferChannelID d of
        None \<Rightarrow> True
      | Some ch \<Rightarrow> Initiator ch = [] \<or> decodePeerId lib (Initiator ch) = Inr (Initiator ch) \<and> decodePeerId lib (Responder ch) = Inr (Responder ch))"

locale sql_deals = sql_table tb rows rwProposalCid
  for tb :: "('t, storageDeal) sqlTable" and rows :: "'t \<Rightarrow> cid \<Rightarrow> storageDeal option" +
  fixes lib :: dealLib
  assumes peer_id: "decodePeerId lib s = Inr p \<Longrightarrow> p = s"
    and label_id: "NewLabel lib s = Inr l \<Longrightarrow> l = s"
begin

lemma to_from_readable: "readable lib d \<Longrightarrow> toStorageDeal lib (fromStorageDeal d) = Inr (normalDeal d)"
  by (cases d; cases "TransferChannelID d") (auto simp: readable_def toStorageDeal_def fromStorageDeal_def normalDeal_def normPtr_def
      toProposal_def toChannel_def)

lemma decoded_parts:
  assumes "toStorageDeal lib r = Inr x"
  shows "\<exists>l. NewLabel lib (cdpLabel (rwProposal r)) = Inr l" "\<exists>ch. toChannel lib (rwTransferChannelId r) = Inr ch"
    "\<exists>p. decodePeerId lib (rwMiner r) = Inr p" "\<exists>p. decodePeerId lib (rwClient r) = Inr p"
  using assms by (cases "decodePeerId lib (rwMiner r)"; cases "decodePeerId lib (rwClient r)"; auto simp: toStorageDeal_def tryE_Inr_iff)+

lemma decoded_channel:
  assumes "toChannel lib c = Inr ch" "tciInitiator c \<noteq> []"
  shows "decodePeerId lib (tciInitiator c) = Inr (tciInitiator c) \<and> decodePeerId lib (tciResponder c) = Inr (tciResponder c)"
proof -
  obtain i r where "decodePeerId lib (tciInitiator c) = Inr i" "decodePeerId lib (tciResponder c) = Inr r"
    using assms by (cases "decodePeerId lib (tciInitiator c)"; cases "decodePeerId lib (tciResponder c)") (simp_all add: toChannel_def)
  then show ?thesis using peer_id by metis
qed

lemma to_from_unreadable:
  assumes n: "\<not> readable lib d"
  shows "\<exists>e. toStorageDeal lib (fromStorageDeal d) = Inl e"
proof (cases "toStorageDeal lib (fromStorageDeal d)")
  case (Inr x)
  note p = decoded_parts [OF Inr]
  have "NewLabel lib (Label (Proposal d)) = Inr (Label (Proposal d))" using p(1) label_id by (fastforce simp: fromStorageDeal_def)
  moreover have "decodePeerId lib (mdMiner d) = Inr (mdMiner d)" "decodePeerId lib (mdClient d) = Inr (mdClient d)"
    using p(3,4) peer_id by (fastforce simp: fromStorageDeal_def)+
  moreover have "Initiator ch = [] \<or> decodePeerId lib (Initiator ch) = Inr (Initiator ch) \<and> decodePeerId lib (Responder ch) = Inr (Responder ch)"
    if "TransferChannelID d = Some ch" for ch
    using p(2) decoded_channel [of "rwTransferChannelId (fromStorageDeal d)"] that by (auto simp: fromStorageDeal_def)
  ultimately have "readable lib d" by (simp add: readable_def split: option.splits)
  then show ?thesis using n by blast
qed blast

lemma to_deal_fields:
  assumes "toStorageDeal lib r = Inr d"
  shows "ProposalCid d = rwProposalCid r" "Provider (Proposal d) = cdpProvider (rwProposal r)" "DealID d = rwDealID r"
    "mdPieceStatus d = rwPieceStatus r" "mdState d = rwState r" "PieceCID (Proposal d) = cdpPieceCID (rwProposal r)"
  using assms by (cases "decodePeerId lib (rwMiner r)"; cases "decodePeerId lib (rwClient r)";
      auto simp: toStorageDeal_def toProposal_def tryE_Inr_iff)+

lemma to_deal_update:
  "toStorageDeal lib (r\<lparr>rwState := s, rwPieceStatus := ps\<rparr>) =
     (case toStorageDeal lib r of Inl e \<Rightarrow> Inl e | Inr d \<Rightarrow> Inr (d\<lparr>mdState := s, mdPieceStatus := ps\<rparr>))"
  by (simp add: toStorageDeal_def tryE_def split: sum.splits)

end

sublocale sql_deals \<subseteq> repo: sql_repo tb rows rwProposalCid fromStorageDeal "toStorageDeal lib" ProposalCid normalDeal "readable lib"
  by unfold_locales (simp add: fromStorageDeal_def, rule to_from_readable, assumption, simp add: to_deal_fields)

context sql_deals
begin

lemmas axioms_repo = repo.sql_repo_axioms

abbreviation "dealView \<equiv> rowView rows (toStorageDeal lib)"

lemma convertDeal_Inr: "convertDeal lib r = Inr d \<longleftrightarrow> toStorageDeal lib r = Inr d"
  by (simp add: convertDeal_def split: sum.splits)

lemma convertRows_deals: "convertRows (convertDeal lib) rs = Inr ds \<longleftrightarrow> convertRows (toStorageDeal lib) rs = Inr ds"
proof -
  have "map (convertDeal lib) rs = map Inr ds \<longleftrightarrow> map (toStorageDeal lib) rs = map Inr ds"
    by (auto simp: list_eq_iff_nth_eq convertDeal_Inr)
  then show ?thesis by (simp add: convertRows_Inr)
qed

lemma sql_update_view:
  assumes "sqlUpdateDealStatus tb t c status ps = (t', None)"
  shows "dealView t' = (case dealView t c of None \<Rightarrow> dealView t | Some d \<Rightarrow> (dealView t)(c \<mapsto>
      d\<lparr>mdState := (if status = StorageDealUnknown then mdState d else status),
        mdPieceStatus := (if ps = [] then mdPieceStatus d else ps)\<rparr>))"
proof (cases "status = StorageDealUnknown \<and> ps = []")
  case True
  then have "t' = t" using assms by (simp add: sqlUpdateDealStatus_def)
  then show ?thesis using True by (auto simp: fun_eq_iff split: option.splits)
next
  case False
  let ?f = "\<lambda>r. r\<lparr>rwState := (if status \<noteq> StorageDealUnknown then status else rwState r), rwPieceStatus := (if length ps \<noteq> 0 then ps else rwPieceStatus r)\<rparr>"
  have "tbUpdate tb t (\<lambda>r. rwProposalCid r = c) ?f = (t', None)" using assms False by (auto simp: sqlUpdateDealStatus_def)
  from update_ok [OF this] have rows: "rows t' k = map_option (\<lambda>r. if rwProposalCid r = c then ?f r else r) (rows t k)" for k by simp
  have "dealView t' k = (case dealView t c of None \<Rightarrow> dealView t | Some d \<Rightarrow> (dealView t)(c \<mapsto>
      d\<lparr>mdState := (if status = StorageDealUnknown then mdState d else status),
        mdPieceStatus := (if ps = [] then mdPieceStatus d else ps)\<rparr>)) k" for k
  proof (cases "k = c")
    case True
    show ?thesis
    proof (cases "rows t c")
      case (Some r)
      then have "rwProposalCid r = c" by (rule row_key)
      then show ?thesis using rows [of c] Some True
        by (cases "toStorageDeal lib r") (auto simp: rowView_def to_deal_update to_deal_fields)
    qed (simp add: rowView_def rows True)
  next
    case False
    then have "rows t' k = rows t k" using rows [of k] row_key [of t k] by (cases "rows t k") auto
    then show ?thesis using False by (simp add: rowView_def split: option.splits)
  qed
  then show ?thesis by blast
qed

lemma sql_list_all:
  assumes "sqlListDeal lib tb t = Inr ds"
  shows "distinct (map ProposalCid ds) \<and> (\<forall>d. d \<in> set ds \<longleftrightarrow> dealView t (ProposalCid d) = Some d)"
proof -
  obtain rs where rs: "tbFind tb t (\<lambda>r. True) = Inr rs" "convertRows (toStorageDeal lib) rs = Inr ds"
    using assms by (auto simp: sqlListDeal_def fromDbDeals_def tryE_Inr_iff)
  show ?thesis using repo.find_view [OF rs] repo.find_complete [OF rs] by blast
qed

lemma sql_by_piece_status:
  assumes "sqlGetDealsByPieceStatus lib tb t m ps = Inr ds"
  shows "distinct (map ProposalCid ds) \<and>
    (\<forall>d. d \<in> set ds \<longleftrightarrow> dealView t (ProposalCid d) = Some d \<and> mdPieceStatus d = ps \<and> (m \<noteq> Undef \<longrightarrow> Provider (Proposal d) = m))"
proof -
  let ?c = "\<lambda>r. rwPieceStatus r = ps \<and> (m \<noteq> Undef \<longrightarrow> cdpProvider (rwProposal r) = m)"
  obtain rs where rs: "tbFind tb t ?c = Inr rs" "convertRows (toStorageDeal lib) rs = Inr ds"
    using assms by (auto simp: sqlGetDealsByPieceStatus_def fromDbDeals_def tryE_Inr_iff)
  have c: "?c r \<longleftrightarrow> mdPieceStatus d = ps \<and> (m \<noteq> Undef \<longrightarrow> Provider (Proposal d) = m)" if "toStorageDeal lib r = Inr d" for r d
    using to_deal_fields [OF that] by simp
  show ?thesis using repo.find_view [OF rs] repo.find_complete [OF rs] c by blast
qed

lemma sql_get:
  assumes "sqlGetDeal lib tb t c = Inr d"
  shows "dealView t c = Some d"
proof -
  obtain r where r: "tbTake tb t (\<lambda>r. rwProposalCid r = c) = Inr r" "toStorageDeal lib r = Inr d"
    using assms by (auto simp: sqlGetDeal_def tryE_Inr_iff)
  then have "ProposalCid d = c" using take_row [OF r(1)] to_deal_fields(1) [OF r(2)] by simp
  then show ?thesis using repo.take_view [OF r] by simp
qed

text \<open>A saved deal that cannot be decoded makes every listing fail that its row belongs to.\<close>

lemma unreadable_listing:
  assumes "tbSave tb t (fromStorageDeal d) = (t', None)" "\<not> readable lib d" "c (fromStorageDeal d)"
  shows "\<exists>e. tryE (tbFind tb t' c) (fromDbDeals lib) = Inl e"
proof (cases "tbFind tb t' c")
  case (Inr rs)
  obtain e where e: "toStorageDeal lib (fromStorageDeal d) = Inl e" using to_from_unreadable [OF assms(2)] by blast
  have "rows t' (ProposalCid d) = Some (fromStorageDeal d)" using save_ok [OF assms(1)] by (simp add: fromStorageDeal_def)
  then have "fromStorageDeal d \<in> set rs" using find_rows [OF Inr] assms(3) by (simp add: fromStorageDeal_def)
  then show ?thesis using convertRows_Inl [where conv = "toStorageDeal lib", OF _ e] Inr by (simp add: fromDbDeals_def)
qed simp

lemma sql_deal_laws: "sql_deals tb rows lib"
  by unfold_locales (auto dest: peer_id label_id)

end

definition demo_lib :: dealLib where
  "demo_lib = \<lparr>decodePeerId = (\<lambda>s. if s = [] then Inl (ErrMsg ''failed to parse peer ID'') else Inr s),
     NewLabel = (\<lambda>s. if length s > 256 then Inl (ErrMsg ''label too long'') else Inr s)\<rparr>"

interpretation memdeals: sql_deals "list_table rwProposalCid" "tableRows rwProposalCid" demo_lib
  by unfold_locales (auto simp: demo_lib_def split: if_splits)

section \<open>Properties\<close>



section \<open>Against the badger repository\<close>

datatype dealOp = OpSave MinerDeal | OpUpdate cid StorageDealStatus PieceStatus

definition dealStep :: "'r StorageDealRepo \<Rightarrow> dealOp \<Rightarrow> 'r \<Rightarrow> 'r \<times> error option" where
  "dealStep repo x r = (case x of OpSave d \<Rightarrow> sdSaveDeal repo r d | OpUpdate c status ps \<Rightarrow> sdUpdateDealStatus repo r c status ps)"

text \<open>A run of changes that all succeed.\<close>

fun runDealOps :: "'r StorageDealRepo \<Rightarrow> dealOp list \<Rightarrow> 'r \<Rightarrow> 'r option" where
  "runDealOps repo [] r = Some r"
| "runDealOps repo (x # xs) r = (case dealStep repo x r of (r1, None) \<Rightarrow> runDealOps repo xs r1 | (r1, Some e) \<Rightarrow> None)"

text \<open>Changes with deals that the row of a deal can hold.\<close>

definition plainOp :: "dealLib \<Rightarrow> dealOp \<Rightarrow> bool" where
  "plainOp lib x = (case x of OpSave d \<Rightarrow> readable lib d \<and> normalDeal d = d | OpUpdate _ _ _ \<Rightarrow> True)"

text \<open>A walk of the badger repository ends early, and without an error, at an entry that carries one.\<close>

definition cleanQuery :: "('s, 'v) deal_store \<Rightarrow> 's \<Rightarrow> bool" where
  "cleanQuery st s = (case dsQuery (stDs st) s [] of Inl _ \<Rightarrow> True | Inr rs \<Rightarrow> list_all (\<lambda>r. \<not> isl r) rs)"

context badger_deals
begin

lemma badger_collects:
  assumes inv: "deal_invar contents st s" and clean: "cleanQuery st s" and run: "afterTravel (travelDeals (stDs st) (stCodec st) s (collectIf P) []) Inr = Ret (Inr ds)"
  shows "set ds = {d. deal_view contents st s (ProposalCid d) = Some d \<and> P d}"
proof -
  obtain rs where rs: "dsQuery (stDs st) s [] = Inr rs" "ds = filter P (fst (seen (stCodec st) rs))" "snd (seen (stCodec st) rs) = None"
    using run by (auto simp: afterTravel_def travelDeals_def travelLoop_collect split: sum.splits option.splits)
  have entries: "\<forall>r \<in> set rs. \<not> isl r" using clean rs(1) by (simp add: cleanQuery_def list_all_iff)
  have all: "snd (seen cd rs) = None \<Longrightarrow> \<forall>r \<in> set rs. \<not> isl r \<Longrightarrow> (\<forall>v. Inr v \<in> set rs \<longrightarrow> (\<forall>d. Load cd v = Inr d \<longrightarrow> d \<in> set (fst (seen cd rs))))"
    for cd :: "(MinerDeal, 'v) codec_ops" and rs
    by (induction cd rs rule: seen.induct) (auto split: sum.splits prod.splits)
  have "d \<in> set (fst (seen (stCodec st) rs))" if stored: "deal_view contents st s (ProposalCid d) = Some d" for d
  proof -
    obtain v where v: "contents s (ToKey st (ProposalCid d)) = Some v" "Load (stCodec st) v = Inr d"
      using stored by (auto simp: deal_view_def split: option.splits sum.splits)
    then have "Inr v \<in> set rs" using query_complete [OF rs(1) entries v(1)] by simp
    then show ?thesis using all [OF rs(3) entries] v(2) by blast
  qed
  then show ?thesis using seen_stored [OF inv rs(1)] by (auto simp: rs(2))
qed

lemma update_keeps_invar: "deal_invar contents st s \<Longrightarrow> UpdateDealStatus st s c status ps = (s', err) \<Longrightarrow> deal_invar contents st s'"
  by (auto simp: UpdateDealStatus_def Let_def intro: save_keeps_invar split: sum.splits if_splits)

end

lemma deal_step_agrees:
  assumes B: "badger_deals st contents" and S: "sql_deals tb rows lib"
    and inv: "deal_invar contents st s" and same: "deal_view contents st s = rowView rows (toStorageDeal lib) t" and x: "plainOp lib x"
    and b: "dealStep (NewStorageDealRepo mo st) x s = (s1, None)" and q: "dealStep (NewSqlDealRepo decode lib tb) x t = (t1, None)"
  shows "deal_invar contents st s1 \<and> deal_view contents st s1 = rowView rows (toStorageDeal lib) t1"
proof (cases x)
  case (OpSave d)
  have sv: "SaveDeal st s d = (s1, None)" "tbSave tb t (fromStorageDeal d) = (t1, None)"
    using b q OpSave by (simp_all add: dealStep_def NewSqlDealRepo_def sqlSaveDeal_def)
  have "rowView rows (toStorageDeal lib) t1 = (rowView rows (toStorageDeal lib) t)(ProposalCid d \<mapsto> d)"
    using sql_repo.save_view [OF sql_deals.axioms_repo [OF S] sv(2)] x OpSave by (simp add: plainOp_def)
  then show ?thesis using badger_deals.saved_view [OF B sv(1)] badger_deals.save_keeps_invar [OF B inv sv(1)] same by simp
next
  case (OpUpdate c status ps)
  have up: "UpdateDealStatus st s c status ps = (s1, None)" "sqlUpdateDealStatus tb t c status ps = (t1, None)"
    using b q OpUpdate by (simp_all add: dealStep_def NewSqlDealRepo_def)
  show ?thesis
    using badger_deals.update_status_view [OF B inv up(1)] sql_deals.sql_update_view [OF S up(2)] badger_deals.update_keeps_invar [OF B inv up(1)] same
    by auto
qed

lemma deal_runs_agree:
  assumes "badger_deals st contents" "sql_deals tb rows lib"
  shows "deal_invar contents st s \<Longrightarrow> deal_view contents st s = rowView rows (toStorageDeal lib) t \<Longrightarrow> list_all (plainOp lib) xs \<Longrightarrow>
    runDealOps (NewStorageDealRepo mo st) xs s = Some s' \<Longrightarrow> runDealOps (NewSqlDealRepo decode lib tb) xs t = Some t' \<Longrightarrow>
    deal_invar contents st s' \<and> deal_view contents st s' = rowView rows (toStorageDeal lib) t'"
proof (induction xs arbitrary: s t)
  case (Cons x xs)
  obtain s1 where s1: "dealStep (NewStorageDealRepo mo st) x s = (s1, None)" "runDealOps (NewStorageDealRepo mo st) xs s1 = Some s'"
    using Cons.prems(4) by (auto split: prod.splits option.splits)
  obtain t1 where t1: "dealStep (NewSqlDealRepo decode lib tb) x t = (t1, None)" "runDealOps (NewSqlDealRepo decode lib tb) xs t1 = Some t'"
    using Cons.prems(5) by (auto split: prod.splits option.splits)
  have x: "plainOp lib x" "list_all (plainOp lib) xs" using Cons.prems(3) by simp_all
  from deal_step_agrees [OF assms Cons.prems(1,2) x(1) s1(1) t1(1)] show ?case using Cons.IH [OF _ _ x(2) s1(2) t1(2)] by blast
qed simp


definition demo_ops :: "dealOp list" where
  "demo_ops = [OpSave (normalDeal (demo_md ''p1'' 7 128)), OpSave (normalDeal (demo_md ''p2'' 8 512)), OpUpdate ''p1'' StorageDealActive Proving]"


text \<open>Where they differ: a page of deals is all deals of the provider, the update of an unknown deal succeeds, and an empty list of
  states selects every deal instead of none.\<close>

theorem sqlGetDeals_ignores_page: "sqlGetDeals lib tb t miner i n = sqlGetDeals lib tb t miner j m"
  by (simp add: sqlGetDeals_def)

theorem sql_update_missing:
  assumes "sql_deals tb rows lib" "rowView rows (toStorageDeal lib) t c = None" "sqlUpdateDealStatus tb t c status ps = (t', err)"
  shows "rowView rows (toStorageDeal lib) t' = rowView rows (toStorageDeal lib) t"
proof (cases err)
  case None
  then show ?thesis using sql_deals.sql_update_view [OF assms(1), of t c status ps t'] assms(2,3) by simp
next
  case (Some e)
  have "sql_table tb rows rwProposalCid" using assms(1) by (simp add: sql_deals_def)
  then show ?thesis using assms(3) Some sql_table.update_failed
    by (fastforce simp: sqlUpdateDealStatus_def rowView_def split: if_splits)
qed

theorem empty_states_differ:
  "GetDealByAddrAndStatus map_deal_store demo_deals ''miner'' [] = Ret (Inl ErrNotFound) \<and>
   sqlGetDealByAddrAndStatus demo_lib (list_table rwProposalCid) [fromStorageDeal (demo_md ''p1'' 7 128)] ''miner'' [] = Inr [normalDeal (demo_md ''p1'' 7 128)]"
  by code_simp

end
