(* ===== verification/Mysql_Retrieval.thy ===== *)
theory Mysql_Retrieval
  imports Mysql_Deals Retrieval_Repo Storage_Ask State_Store
begin

text \<open>
  The MySQL repositories of retrieval deals (\<open>src/models/mysql/retrieval_deal.go\<close>), of retrieval and storage asks
  (\<open>retrieval_ask.go\<close>, \<open>storage_ask.go\<close>) and of CID infos (\<open>cid_info.go\<close>), over the tables of \<open>Sql_Table\<close>.
\<close>

section \<open>Retrieval deals\<close>

record sqlRetrievalProposal =
  rpPayloadCID :: cid
  rpID :: u64
  rpSelector :: "bytes option"
  rpPieceCID :: cid
  rpPricePerByte :: int
  rpPaymentInterval :: u64
  rpPaymentIntervalIncrease :: u64
  rpUnsealPrice :: int

record retrievalDeal =
  rtProposal :: sqlRetrievalProposal
  rtChannelID :: sqlChannelID
  rtSelStorageProposalCid :: cid
  rtStatus :: DealStatus
  rtReceiver :: string
  rtTotalSent :: u64
  rtFundsReceived :: int
  rtMessage :: string
  rtCurrentInterval :: u64
  rtLegacyProtocol :: bool

definition fromProviderDealState :: "ProviderDealState \<Rightarrow> retrievalDeal" where
  "fromProviderDealState deal =
     \<lparr>rtProposal =
        \<lparr>rpPayloadCID = PayloadCID (rdProposal deal), rpID = rdID (rdProposal deal), rpSelector = Selector (rdProposal deal),
         rpPieceCID = fromPtr (rdPieceCID (rdProposal deal)), rpPricePerByte = PricePerByte (rdProposal deal),
         rpPaymentInterval = PaymentInterval (rdProposal deal), rpPaymentIntervalIncrease = PaymentIntervalIncrease (rdProposal deal),
         rpUnsealPrice = UnsealPrice (rdProposal deal)\<rparr>,
      rtChannelID = (case rdChannelID deal of
          None \<Rightarrow> \<lparr>tciInitiator = [], tciResponder = [], tciID = 0\<rparr>
        | Some ch \<Rightarrow> \<lparr>tciInitiator = Initiator ch, tciResponder = Responder ch, tciID = chanID ch\<rparr>),
      rtSelStorageProposalCid = SelStorageProposalCid deal, rtStatus = rdStatus deal, rtReceiver = Receiver deal,
      rtTotalSent = TotalSent deal, rtFundsReceived = Retrieval_Repo.FundsReceived deal, rtMessage = rdMessage deal,
      rtCurrentInterval = CurrentInterval deal, rtLegacyProtocol = LegacyProtocol deal\<rparr>"

definition toReceiver :: "dealLib \<Rightarrow> string \<Rightarrow> string res" where
  "toReceiver lib r = (if length r > 0 then
     (case decodePeerId lib r of Inl e \<Rightarrow> Inl (ErrMsg ''decode receiver'') | Inr p \<Rightarrow> Inr p) else Inr [])"

definition toRetrievalChannel :: "dealLib \<Rightarrow> sqlChannelID \<Rightarrow> ChannelID option res" where
  "toRetrievalChannel lib ch =
     (if length (tciInitiator ch) > 0 then
        (case decodePeerId lib (tciInitiator ch) of
           Inl e \<Rightarrow> Inl (ErrMsg ''decode ci_initiator'')
         | Inr i \<Rightarrow>
             (case decodePeerId lib (tciResponder ch) of
                Inl e \<Rightarrow> Inl (ErrMsg ''decode ci_responder'')
              | Inr r \<Rightarrow> Inr (Some \<lparr>Initiator = i, Responder = r, chanID = tciID ch\<rparr>)))
      else Inr None)"

definition toProviderDealState :: "dealLib \<Rightarrow> retrievalDeal \<Rightarrow> ProviderDealState res" where
  "toProviderDealState lib deal =
     tryE (toReceiver lib (rtReceiver deal)) (\<lambda>receiver.
     tryE (toRetrievalChannel lib (rtChannelID deal)) (\<lambda>ch. Inr
     \<lparr>rdProposal =
        \<lparr>PayloadCID = rpPayloadCID (rtProposal deal), rdID = rpID (rtProposal deal), rdPieceCID = cidPtr (rpPieceCID (rtProposal deal)),
         Selector = rpSelector (rtProposal deal), PricePerByte = rpPricePerByte (rtProposal deal),
         PaymentInterval = rpPaymentInterval (rtProposal deal), PaymentIntervalIncrease = rpPaymentIntervalIncrease (rtProposal deal),
         UnsealPrice = rpUnsealPrice (rtProposal deal)\<rparr>,
      SelStorageProposalCid = rtSelStorageProposalCid deal, rdChannelID = ch, rdStatus = rtStatus deal, Receiver = receiver,
      TotalSent = rtTotalSent deal, FundsReceived = rtFundsReceived deal, rdMessage = rtMessage deal,
      CurrentInterval = rtCurrentInterval deal, LegacyProtocol = rtLegacyProtocol deal\<rparr>))"

definition rtKey :: "retrievalDeal \<Rightarrow> dealIdentifier" where
  "rtKey r = (rtReceiver r, rpID (rtProposal r))"

definition sqlSaveRetrieval :: "('t, retrievalDeal) sqlTable \<Rightarrow> 't \<Rightarrow> ProviderDealState \<Rightarrow> 't \<times> error option" where
  "sqlSaveRetrieval tb t deal = tbSave tb t (fromProviderDealState deal)"

definition sqlGetRetrieval :: "dealLib \<Rightarrow> ('t, retrievalDeal) sqlTable \<Rightarrow> 't \<Rightarrow> string \<Rightarrow> u64 \<Rightarrow> ProviderDealState res" where
  "sqlGetRetrieval lib tb t peer id2 =
     tryE (tbTake tb t (\<lambda>r. rpID (rtProposal r) = id2 \<and> rtReceiver r = peer)) (toProviderDealState lib)"

definition sqlGetRetrievalByTransferId :: "dealLib \<Rightarrow> ('t, retrievalDeal) sqlTable \<Rightarrow> 't \<Rightarrow> ChannelID \<Rightarrow> ProviderDealState res" where
  "sqlGetRetrievalByTransferId lib tb t chid =
     tryE (tbTake tb t (\<lambda>r. tciInitiator (rtChannelID r) = Initiator chid \<and> tciResponder (rtChannelID r) = Responder chid \<and>
        tciID (rtChannelID r) = chanID chid)) (toProviderDealState lib)"

definition sqlHasRetrieval :: "('t, retrievalDeal) sqlTable \<Rightarrow> 't \<Rightarrow> string \<Rightarrow> u64 \<Rightarrow> bool res" where
  "sqlHasRetrieval tb t peer id2 =
     tryE (tbFind tb t (\<lambda>r. rpID (rtProposal r) = id2 \<and> rtReceiver r = peer)) (\<lambda>rs. Inr (length rs > 0))"

definition sqlListRetrievals :: "dealLib \<Rightarrow> ('t, retrievalDeal) sqlTable \<Rightarrow> 't \<Rightarrow> int \<Rightarrow> int \<Rightarrow> ProviderDealState list res" where
  "sqlListRetrievals lib tb t pageIndex pageSize =
     tryE (tbFindPage tb t ((pageIndex - 1) * pageSize) pageSize) (convertRows (toProviderDealState lib))"

definition NewSqlRetrievalDealRepo :: "dealLib \<Rightarrow> ('t, retrievalDeal) sqlTable \<Rightarrow> 't RetrievalDealRepo" where
  "NewSqlRetrievalDealRepo lib tb = \<lparr>rrSaveDeal = sqlSaveRetrieval tb, rrGetDeal = sqlGetRetrieval lib tb,
     rrGetDealByTransferId = (\<lambda>t ch. Ret (sqlGetRetrievalByTransferId lib tb t ch)), rrHasDeal = sqlHasRetrieval tb,
     rrListDeals = sqlListRetrievals lib tb\<rparr>"

section \<open>Asks\<close>

text \<open>The numeric primary key of the tables of asks is not used; a row is found and replaced by its unique address column. The piece
  sizes of a storage ask go through \<open>int64\<close>.\<close>

record retrievalAsk =
  arAddress :: address
  arPricePerByte :: int
  arUnsealPrice :: int
  arPaymentInterval :: u64
  arPaymentIntervalIncrease :: u64

definition toRetrievalAsk :: "address \<Rightarrow> retrievalAsk \<Rightarrow> RetrievalAsk" where
  "toRetrievalAsk addr r =
     \<lparr>raMiner = addr, raPricePerByte = arPricePerByte r, raUnsealPrice = Some (arUnsealPrice r),
      raPaymentInterval = arPaymentInterval r, raPaymentIntervalIncrease = arPaymentIntervalIncrease r\<rparr>"

definition sqlGetRetrievalAsk :: "('t, retrievalAsk) sqlTable \<Rightarrow> 't \<Rightarrow> address \<Rightarrow> RetrievalAsk res" where
  "sqlGetRetrievalAsk tb t addr = tryE (tbTake tb t (\<lambda>r. arAddress r = addr)) (\<lambda>r. Inr (toRetrievalAsk addr r))"

definition fromRetrievalAsk :: "RetrievalAsk \<Rightarrow> retrievalAsk" where
  "fromRetrievalAsk ask =
     \<lparr>arAddress = raMiner ask, arPricePerByte = raPricePerByte ask, arUnsealPrice = convertBigInt (raUnsealPrice ask),
      arPaymentInterval = raPaymentInterval ask, arPaymentIntervalIncrease = raPaymentIntervalIncrease ask\<rparr>"

definition sqlSetRetrievalAsk :: "('t, retrievalAsk) sqlTable \<Rightarrow> 't \<Rightarrow> RetrievalAsk \<Rightarrow> 't \<times> error option" where
  "sqlSetRetrievalAsk tb t ask = tbSave tb t (fromRetrievalAsk ask)"

definition sqlListRetrievalAsk :: "('t, retrievalAsk) sqlTable \<Rightarrow> 't \<Rightarrow> RetrievalAsk list res" where
  "sqlListRetrievalAsk tb t = tryE (tbFind tb t (\<lambda>_. True)) (\<lambda>rs. Inr (map (\<lambda>r. toRetrievalAsk (arAddress r) r) rs))"

record storageAsk =
  saMiner :: address
  saPrice :: int
  saVerifiedPrice :: int
  saMinPieceSize :: int
  saMaxPieceSize :: int
  saTimestamp :: int
  saExpiry :: int
  saSeqNo :: u64
  saSignature :: bytes

definition fromStorageAsk :: "StorageAsk \<Rightarrow> bytes \<Rightarrow> storageAsk" where
  "fromStorageAsk a signature =
     \<lparr>saMiner = askMiner a, saPrice = Price a, saVerifiedPrice = VerifiedPrice a, saMinPieceSize = sint (askMinPieceSize a),
      saMaxPieceSize = sint (askMaxPieceSize a), saTimestamp = Timestamp a, saExpiry = Expiry a, saSeqNo = SeqNo a, saSignature = signature\<rparr>"

definition toStorageAsk :: "storageAsk \<Rightarrow> SignedStorageAsk res" where
  "toStorageAsk src = Inr
     \<lparr>Ask = Some \<lparr>Price = saPrice src, VerifiedPrice = saVerifiedPrice src, askMinPieceSize = word_of_int (saMinPieceSize src),
        askMaxPieceSize = word_of_int (saMaxPieceSize src), askMiner = saMiner src, Timestamp = saTimestamp src, Expiry = saExpiry src,
        SeqNo = saSeqNo src\<rparr>, askSignature = saSignature src\<rparr>"

definition sqlGetStorageAsk :: "('t, storageAsk) sqlTable \<Rightarrow> 't \<Rightarrow> address \<Rightarrow> SignedStorageAsk res" where
  "sqlGetStorageAsk tb t miner = tryE (tbTake tb t (\<lambda>r. saMiner r = miner)) toStorageAsk"

definition sqlSetStorageAsk :: "('t, storageAsk) sqlTable \<Rightarrow> 't \<Rightarrow> SignedStorageAsk option \<Rightarrow> 't \<times> error option" where
  "sqlSetStorageAsk tb t ask =
     (case ask of
        None \<Rightarrow> (t, Some (ErrMsg ''param is nil''))
      | Some sa \<Rightarrow> (case Ask sa of None \<Rightarrow> (t, Some (ErrMsg ''param is nil'')) | Some a \<Rightarrow> tbSave tb t (fromStorageAsk a (askSignature sa))))"

definition sqlListStorageAsk :: "('t, storageAsk) sqlTable \<Rightarrow> 't \<Rightarrow> SignedStorageAsk list res" where
  "sqlListStorageAsk tb t = tryE (tbFind tb t (\<lambda>_. True)) (convertRows toStorageAsk)"

section \<open>CID infos\<close>

record cidInfo =
  ciPieceCid :: cid
  ciPayloadCid :: cid
  ciBlockLocation :: BlockLocation

definition ciKey :: "cidInfo \<Rightarrow> cid \<times> cid" where
  "ciKey r = (ciPieceCid r, ciPayloadCid r)"

text \<open>The map of locations in the order in which the runtime ranges over it.\<close>

definition sqlAddPieceBlockLocations :: "('t, cidInfo) sqlTable \<Rightarrow> 't \<Rightarrow> cid \<Rightarrow> (cid \<times> BlockLocation) list \<Rightarrow> 't \<times> error option" where
  "sqlAddPieceBlockLocations tb t pieceCID blockLocations =
     tbSaveMany tb t (map (\<lambda>(blockCid, location). \<lparr>ciPieceCid = pieceCID, ciPayloadCid = blockCid, ciBlockLocation = location\<rparr>) blockLocations)"

text \<open>\<open>Find\<close> into a struct fills it with the first row of the result, and leaves it as it is when there is none.\<close>

definition sqlGetCIDInfo :: "('t, cidInfo) sqlTable \<Rightarrow> 't \<Rightarrow> cid \<Rightarrow> CIDInfo res" where
  "sqlGetCIDInfo tb t payloadCID =
     tryE (tbFind tb t (\<lambda>r. ciPayloadCid r = payloadCID)) (\<lambda>rs.
       let cidInfo = (case rs of [] \<Rightarrow> \<lparr>ciPieceCid = Undef, ciPayloadCid = Undef, ciBlockLocation = \<lparr>RelOffset = 0, BlockSize = 0\<rparr>\<rparr> | r # _ \<Rightarrow> r) in
       Inr \<lparr>CID = payloadCID, PieceBlockLocations = [\<lparr>pblLocation = ciBlockLocation cidInfo, pblPieceCID = ciPieceCid cidInfo\<rparr>]\<rparr>)"

definition sqlListCidInfoKeys :: "(string \<Rightarrow> cid res) \<Rightarrow> ('t, cidInfo) sqlTable \<Rightarrow> 't \<Rightarrow> cid list res" where
  "sqlListCidInfoKeys decode tb t = tryE (tbFind tb t (\<lambda>_. True)) (\<lambda>rs. convertRows decode (map (\<lambda>r. cidString (ciPayloadCid r)) rs))"

section \<open>What the tables hold\<close>

definition normalRetrieval :: "ProviderDealState \<Rightarrow> ProviderDealState" where
  "normalRetrieval d = d\<lparr>rdProposal := (rdProposal d)\<lparr>rdPieceCID := normPtr (rdPieceCID (rdProposal d))\<rparr>,
     rdChannelID := (case rdChannelID d of None \<Rightarrow> None | Some ch \<Rightarrow> if Initiator ch = [] then None else Some ch)\<rparr>"

definition readableRetrieval :: "dealLib \<Rightarrow> ProviderDealState \<Rightarrow> bool" where
  "readableRetrieval lib d \<longleftrightarrow> (Receiver d = [] \<or> decodePeerId lib (Receiver d) = Inr (Receiver d)) \<and>
     (case rdChannelID d of
        None \<Rightarrow> True
      | Some ch \<Rightarrow> Initiator ch = [] \<or> decodePeerId lib (Initiator ch) = Inr (Initiator ch) \<and> decodePeerId lib (Responder ch) = Inr (Responder ch))"

locale sql_retrievals = sql_table tb rows rtKey
  for tb :: "('t, retrievalDeal) sqlTable" and rows :: "'t \<Rightarrow> dealIdentifier \<Rightarrow> retrievalDeal option" +
  fixes lib :: dealLib
  assumes peer_id: "decodePeerId lib s = Inr p \<Longrightarrow> p = s"
begin

lemma to_from_retrieval: "readableRetrieval lib d \<Longrightarrow> toProviderDealState lib (fromProviderDealState d) = Inr (normalRetrieval d)"
  by (cases d; cases "rdChannelID d") (auto simp: readableRetrieval_def toProviderDealState_def fromProviderDealState_def normalRetrieval_def
      toReceiver_def toRetrievalChannel_def)

lemma to_retrieval_key:
  assumes "toProviderDealState lib r = Inr d"
  shows "Identifier d = rtKey r"
proof -
  obtain p where p: "toReceiver lib (rtReceiver r) = Inr p" "Receiver d = p" "rdID (rdProposal d) = rpID (rtProposal r)"
    using assms by (auto simp: toProviderDealState_def tryE_Inr_iff)
  have "p = rtReceiver r" using p(1) peer_id by (auto simp: toReceiver_def split: if_splits sum.splits)
  then show ?thesis using p by (simp add: Identifier_def rtKey_def)
qed

lemma to_retrieval_channel:
  assumes "toProviderDealState lib r = Inr d" "tciInitiator (rtChannelID r) \<noteq> []"
  shows "rdChannelID d = Some \<lparr>Initiator = tciInitiator (rtChannelID r), Responder = tciResponder (rtChannelID r), chanID = tciID (rtChannelID r)\<rparr>"
proof -
  have c: "toRetrievalChannel lib (rtChannelID r) = Inr (rdChannelID d)" using assms(1) by (auto simp: toProviderDealState_def tryE_Inr_iff)
  obtain i x where ix: "decodePeerId lib (tciInitiator (rtChannelID r)) = Inr i" "decodePeerId lib (tciResponder (rtChannelID r)) = Inr x"
    using c assms(2) by (cases "decodePeerId lib (tciInitiator (rtChannelID r))"; cases "decodePeerId lib (tciResponder (rtChannelID r))")
      (simp_all add: toRetrievalChannel_def)
  then show ?thesis using c assms(2) peer_id [OF ix(1)] peer_id [OF ix(2)] by (simp add: toRetrievalChannel_def)
qed

end

sublocale sql_retrievals \<subseteq> repo: sql_repo tb rows rtKey fromProviderDealState "toProviderDealState lib" Identifier normalRetrieval "readableRetrieval lib"
  by unfold_locales (simp add: fromProviderDealState_def rtKey_def Identifier_def, erule to_from_retrieval, erule to_retrieval_key)

context sql_retrievals
begin

lemmas retrieval_repo = repo.sql_repo_axioms

end

interpretation memretrievals: sql_retrievals "list_table rtKey" "tableRows rtKey" demo_lib
  by unfold_locales (auto simp: demo_lib_def split: if_splits)

text \<open>A retrieval deal saved in the MySQL repository is found under its identifier and by its channel, up to nil pointers, and
  pages hold deals of the table, each once and at most as many as asked for.\<close>

theorem mysql_retrievals_refine:
  assumes L: "sql_retrievals tb rows lib"
  shows "(sqlSaveRetrieval tb t d = (t', None) \<and> readableRetrieval lib d \<longrightarrow>
      rowView rows (toProviderDealState lib) t' = (rowView rows (toProviderDealState lib) t)(Identifier d \<mapsto> normalRetrieval d)) \<and>
    (sqlGetRetrieval lib tb t peer i = Inr d1 \<longrightarrow> rowView rows (toProviderDealState lib) t (peer, i) = Some d1) \<and>
    (sqlGetRetrievalByTransferId lib tb t ch = Inr d1 \<and> Initiator ch \<noteq> [] \<longrightarrow>
      rowView rows (toProviderDealState lib) t (Identifier d1) = Some d1 \<and> rdChannelID d1 = Some ch) \<and>
    (sqlListRetrievals lib tb t pageIndex pageSize = Inr ds \<and> 0 < pageSize \<longrightarrow> int (length ds) \<le> pageSize)"
proof (intro conjI impI)
  note R = sql_retrievals.retrieval_repo [OF L]
  have st: "sql_table tb rows rtKey" using L by (simp add: sql_retrievals_def)
  show "rowView rows (toProviderDealState lib) t' = (rowView rows (toProviderDealState lib) t)(Identifier d \<mapsto> normalRetrieval d)"
    if "sqlSaveRetrieval tb t d = (t', None) \<and> readableRetrieval lib d"
    using sql_repo.save_view [OF R] that by (simp add: sqlSaveRetrieval_def)
  show "rowView rows (toProviderDealState lib) t (peer, i) = Some d1" if g: "sqlGetRetrieval lib tb t peer i = Inr d1"
  proof -
    obtain r where r: "tbTake tb t (\<lambda>r. rpID (rtProposal r) = i \<and> rtReceiver r = peer) = Inr r" "toProviderDealState lib r = Inr d1"
      using g by (auto simp: sqlGetRetrieval_def tryE_Inr_iff)
    have "Identifier d1 = (peer, i)" using sql_table.take_row [OF st r(1)] sql_retrievals.to_retrieval_key [OF L r(2)] by (simp add: rtKey_def)
    then show ?thesis using sql_repo.take_view [OF R r] by simp
  qed
  show "rowView rows (toProviderDealState lib) t (Identifier d1) = Some d1" "rdChannelID d1 = Some ch"
    if g: "sqlGetRetrievalByTransferId lib tb t ch = Inr d1 \<and> Initiator ch \<noteq> []"
  proof -
    let ?c = "\<lambda>r. tciInitiator (rtChannelID r) = Initiator ch \<and> tciResponder (rtChannelID r) = Responder ch \<and> tciID (rtChannelID r) = chanID ch"
    obtain r where r: "tbTake tb t ?c = Inr r" "toProviderDealState lib r = Inr d1"
      using g by (auto simp: sqlGetRetrievalByTransferId_def tryE_Inr_iff)
    show "rowView rows (toProviderDealState lib) t (Identifier d1) = Some d1" using sql_repo.take_view [OF R r] .
    show "rdChannelID d1 = Some ch" using sql_retrievals.to_retrieval_channel [OF L r(2)] sql_table.take_row [OF st r(1)] g by simp
  qed
  show "int (length ds) \<le> pageSize" if g: "sqlListRetrievals lib tb t pageIndex pageSize = Inr ds \<and> 0 < pageSize"
  proof -
    obtain rs where rs: "tbFindPage tb t ((pageIndex - 1) * pageSize) pageSize = Inr rs" "convertRows (toProviderDealState lib) rs = Inr ds"
      using g by (auto simp: sqlListRetrievals_def tryE_Inr_iff)
    have "length rs = length ds" using rs(2) by (metis convertRows_Inr length_map)
    then show ?thesis using sql_table.find_page [OF st rs(1)] g by simp
  qed
qed

theorem mysql_retrievals_refine_witness:
  "\<exists>t. tbSave (list_table rtKey) [] (fromProviderDealState d) = (t, None) \<and>
    (readableRetrieval demo_lib d \<longrightarrow> rowView (tableRows rtKey) (toProviderDealState demo_lib) t (Identifier d) = Some (normalRetrieval d))"
proof -
  have "sqlSaveRetrieval (list_table rtKey) [] d = ([fromProviderDealState d], None)" by (simp add: sqlSaveRetrieval_def list_table_def)
  then show ?thesis using mysql_retrievals_refine [OF memretrievals.sql_retrievals_axioms, THEN conjunct1, of "[]" d "[fromProviderDealState d]"]
    by (simp add: sqlSaveRetrieval_def)
qed

section \<open>Asks and infos\<close>

text \<open>An ask of either kind is read back as it was set, a nil unsealing price as zero.\<close>

theorem mysql_asks_roundtrip:
  assumes "sql_table stb srows saMiner" "sql_table rtb rrows arAddress"
  shows "(sqlSetStorageAsk stb s (Some \<lparr>Ask = Some a, askSignature = sig\<rparr>) = (s', None) \<and> sqlGetStorageAsk stb s' (askMiner a) = Inr x \<longrightarrow>
      x = \<lparr>Ask = Some a, askSignature = sig\<rparr>) \<and>
    (sqlSetRetrievalAsk rtb t ra = (t', None) \<and> sqlGetRetrievalAsk rtb t' (raMiner ra) = Inr y \<longrightarrow>
      y = ra\<lparr>raUnsealPrice := Some (convertBigInt (raUnsealPrice ra))\<rparr>)"
proof (intro conjI impI)
  show "x = \<lparr>Ask = Some a, askSignature = sig\<rparr>"
    if g: "sqlSetStorageAsk stb s (Some \<lparr>Ask = Some a, askSignature = sig\<rparr>) = (s', None) \<and> sqlGetStorageAsk stb s' (askMiner a) = Inr x"
  proof -
    have "tbSave stb s (fromStorageAsk a sig) = (s', None)" using g by (simp add: sqlSetStorageAsk_def)
    from sql_table.save_ok [OF assms(1) this] have "srows s' (askMiner a) = Some (fromStorageAsk a sig)" by (simp add: fromStorageAsk_def)
    then have "toStorageAsk (fromStorageAsk a sig) = Inr x"
      using sql_table.take_row [OF assms(1)] g by (fastforce simp: sqlGetStorageAsk_def tryE_Inr_iff)
    then show ?thesis by (cases a) (auto simp: toStorageAsk_def fromStorageAsk_def)
  qed
  show "y = ra\<lparr>raUnsealPrice := Some (convertBigInt (raUnsealPrice ra))\<rparr>"
    if g: "sqlSetRetrievalAsk rtb t ra = (t', None) \<and> sqlGetRetrievalAsk rtb t' (raMiner ra) = Inr y"
  proof -
    have "tbSave rtb t (fromRetrievalAsk ra) = (t', None)" using g by (simp add: sqlSetRetrievalAsk_def)
    from sql_table.save_ok [OF assms(2) this] have "rrows t' (raMiner ra) = Some (fromRetrievalAsk ra)" by (simp add: fromRetrievalAsk_def)
    then have "y = toRetrievalAsk (raMiner ra) (fromRetrievalAsk ra)"
      using sql_table.take_row [OF assms(2)] g by (fastforce simp: sqlGetRetrievalAsk_def tryE_Inr_iff)
    then show ?thesis by (simp add: toRetrievalAsk_def fromRetrievalAsk_def)
  qed
qed

text \<open>CID infos in MySQL: a read never reports that a payload is unknown. It gives exactly one location: that of some piece with the
  payload, whatever number of pieces has it, and the undefined piece when no piece has it. Adding no locations is an error.\<close>

theorem mysql_cid_info_single:
  assumes "sql_table tb rows ciKey"
  shows "(sqlGetCIDInfo tb t c = Inr info \<longrightarrow> CID info = c \<and> (\<exists>l. PieceBlockLocations info = [l] \<and>
      (if \<exists>p. rows t (p, c) \<noteq> None then \<exists>r. rows t (pblPieceCID l, c) = Some r \<and> pblLocation l = ciBlockLocation r else pblPieceCID l = Undef))) \<and>
    (sqlAddPieceBlockLocations tb t p bl = (t', None) \<longrightarrow> bl \<noteq> [] \<and> (\<forall>(b, loc) \<in> set bl. distinct (map fst bl) \<longrightarrow> (\<exists>r. rows t' (p, b) = Some r \<and> ciBlockLocation r = loc)))"
proof (intro conjI impI)
  assume "sqlGetCIDInfo tb t c = Inr info"
  then obtain rs where rs: "tbFind tb t (\<lambda>r. ciPayloadCid r = c) = Inr rs"
    and info: "info = (let cidInfo = (case rs of [] \<Rightarrow> \<lparr>ciPieceCid = Undef, ciPayloadCid = Undef, ciBlockLocation = \<lparr>RelOffset = 0, BlockSize = 0\<rparr>\<rparr> | r # _ \<Rightarrow> r) in
       \<lparr>CID = c, PieceBlockLocations = [\<lparr>pblLocation = ciBlockLocation cidInfo, pblPieceCID = ciPieceCid cidInfo\<rparr>]\<rparr>)"
    by (auto simp: sqlGetCIDInfo_def tryE_Inr_iff Let_def)
  have f: "r \<in> set rs \<longleftrightarrow> rows t (ciPieceCid r, ciPayloadCid r) = Some r \<and> ciPayloadCid r = c" for r
    using sql_table.find_rows [OF assms rs] by (simp add: ciKey_def)
  have n: "(\<exists>p. rows t (p, c) \<noteq> None) \<longleftrightarrow> rs \<noteq> []"
  proof
    assume "\<exists>p. rows t (p, c) \<noteq> None"
    then obtain p r where r: "rows t (p, c) = Some r" by auto
    then have "ciKey r = (p, c)" by (rule sql_table.row_key [OF assms])
    then show "rs \<noteq> []" using f [of r] r by (auto simp: ciKey_def)
  next
    assume "rs \<noteq> []"
    then show "\<exists>p. rows t (p, c) \<noteq> None" using f [of "hd rs"] by (auto simp: ciKey_def)
  qed
  show "CID info = c" by (simp add: info Let_def)
  show "\<exists>l. PieceBlockLocations info = [l] \<and>
      (if \<exists>p. rows t (p, c) \<noteq> None then \<exists>r. rows t (pblPieceCID l, c) = Some r \<and> pblLocation l = ciBlockLocation r else pblPieceCID l = Undef)"
    unfolding n using f [of "hd rs"] by (cases rs) (auto simp: info Let_def)
next
  assume a: "sqlAddPieceBlockLocations tb t p bl = (t', None)"
  let ?rs = "map (\<lambda>(b, loc). \<lparr>ciPieceCid = p, ciPayloadCid = b, ciBlockLocation = loc\<rparr>) bl"
  have s: "?rs \<noteq> []" "rows t' = fold (\<lambda>r m. m(ciKey r \<mapsto> r)) ?rs (rows t)"
    using sql_table.save_many_ok [OF assms] a by (auto simp: sqlAddPieceBlockLocations_def)
  show "bl \<noteq> []" using s(1) by simp
  have "fold (\<lambda>r m. m(ciKey r \<mapsto> r)) (map (\<lambda>(b, loc). \<lparr>ciPieceCid = p, ciPayloadCid = b, ciBlockLocation = loc\<rparr>) xs) m (p, k) =
      (if k \<in> fst ` set xs then Some \<lparr>ciPieceCid = p, ciPayloadCid = k, ciBlockLocation = the (map_of xs k)\<rparr> else m (p, k))" if "distinct (map fst xs)" for xs m k
    using that by (induction xs arbitrary: m) (force simp: ciKey_def image_iff)+
  then show "\<forall>(b, loc) \<in> set bl. distinct (map fst bl) \<longrightarrow> (\<exists>r. rows t' (p, b) = Some r \<and> ciBlockLocation r = loc)"
    by (auto simp: s(2) rev_image_eqI)
qed

theorem mysql_cid_info_single_witness:
  "\<exists>l t. sqlAddPieceBlockLocations (list_table ciKey) [] ''p1'' [(''c'', \<lparr>RelOffset = 1, BlockSize = 2\<rparr>)] = (t, None) \<and>
     sqlGetCIDInfo (list_table ciKey) t ''x'' = Inr \<lparr>CID = ''x'', PieceBlockLocations = [l]\<rparr> \<and> pblPieceCID l = Undef"
proof -
  let ?t = "[\<lparr>ciPieceCid = ''p1'', ciPayloadCid = ''c'', ciBlockLocation = \<lparr>RelOffset = 1, BlockSize = 2\<rparr>\<rparr>]"
  let ?l = "\<lparr>pblLocation = \<lparr>RelOffset = 0, BlockSize = 0\<rparr>, pblPieceCID = Undef\<rparr>"
  have a: "sqlAddPieceBlockLocations (list_table ciKey) [] ''p1'' [(''c'', \<lparr>RelOffset = 1, BlockSize = 2\<rparr>)] = (?t, None)" by code_simp
  have g: "sqlGetCIDInfo (list_table ciKey) ?t ''x'' = Inr \<lparr>CID = ''x'', PieceBlockLocations = [?l]\<rparr>" by code_simp
  have "\<not> (\<exists>p. tableRows ciKey ?t (p, ''x'') \<noteq> None)" by (simp add: tableRows_def ciKey_def)
  then have "pblPieceCID ?l = Undef"
    using mysql_cid_info_single [OF memtable.sql_table_axioms, THEN conjunct1, THEN mp, OF g] by simp
  then show ?thesis using a g by blast
qed

text \<open>A payload of two pieces: the badger repository lists both, this one gives one.\<close>

theorem mysql_cid_info_loses:
  "\<exists>t info. tbSaveMany (list_table ciKey) [] [\<lparr>ciPieceCid = ''p1'', ciPayloadCid = ''c'', ciBlockLocation = \<lparr>RelOffset = 1, BlockSize = 2\<rparr>\<rparr>,
       \<lparr>ciPieceCid = ''p2'', ciPayloadCid = ''c'', ciBlockLocation = \<lparr>RelOffset = 3, BlockSize = 2\<rparr>\<rparr>] = (t, None) \<and>
     sqlGetCIDInfo (list_table ciKey) t ''c'' = Inr info \<and> length (PieceBlockLocations info) = 1"
  by (simp add: list_table_def sqlGetCIDInfo_def ciKey_def)

end
