(* ===== verification/Mysql_Provider.thy ===== *)
theory Mysql_Provider
  imports Mysql_Deals Storage_Provider_Thms
begin

text \<open>
  The storage provider (\<open>src/storageprovider/storageprovider.go\<close>) over the MySQL repository of deals
  (\<open>src/models/mysql/storage_deal.go\<close>): what it restarts, and what an imported deal does to it.
\<close>

lemma restarts_hand_off: "restartDeals ds s = s\<lparr>spGo := spGo s @ filter (\<lambda>d. \<not> isTerminateState d) ds\<rparr>"
  by (induction ds arbitrary: s) auto

text \<open>Property C37. A start of the storage provider over the MySQL repository hands off every stored deal that has not ended, once, if the deals
  can be listed. Importing a published deal whose client peer cannot be decoded, which the provider takes as not necessary,
  ends this: from then on a start restarts no deal at all, and reports no error.\<close>

theorem import_stops_restarts:
  assumes L: "sql_deals tb rows lib"
  shows "(sqlListDeal lib tb (wRepo (spWorld s)) = Inr ds \<longrightarrow>
      (\<exists>s'. start (NewSqlDealRepo decode lib tb) s = Ret (s', None) \<and> spGo s' = spGo s @ filter (\<lambda>d. \<not> isTerminateState d) ds \<and>
        distinct (map ProposalCid ds) \<and> (\<forall>d. d \<in> set ds \<longleftrightarrow> rowView rows (toStorageDeal lib) (wRepo (spWorld s)) (ProposalCid d) = Some d))) \<and>
    (ImportPublishedDeal env (NewSqlDealRepo decode lib tb) deal (Some ref) s = Ret (s1, None) \<and> decodePeerId lib (mdClient deal) = Inl e \<longrightarrow>
      start (NewSqlDealRepo decode lib tb) s1 = Ret (s1, None))"
proof (intro conjI impI)
  assume l: "sqlListDeal lib tb (wRepo (spWorld s)) = Inr ds"
  then have "start (NewSqlDealRepo decode lib tb) s = Ret (restartDeals ds s, None)" by (simp add: start_def NewSqlDealRepo_def)
  then show "\<exists>s'. start (NewSqlDealRepo decode lib tb) s = Ret (s', None) \<and> spGo s' = spGo s @ filter (\<lambda>d. \<not> isTerminateState d) ds \<and>
        distinct (map ProposalCid ds) \<and> (\<forall>d. d \<in> set ds \<longleftrightarrow> rowView rows (toStorageDeal lib) (wRepo (spWorld s)) (ProposalCid d) = Some d)"
    using sql_deals.sql_list_all [OF L l] by (simp add: restarts_hand_off)
next
  assume i: "ImportPublishedDeal env (NewSqlDealRepo decode lib tb) deal (Some ref) s = Ret (s1, None) \<and> decodePeerId lib (mdClient deal) = Inl e"
  then have "sqlSaveDeal tb (wRepo (spWorld s)) (importDeal env deal ref) = (wRepo (spWorld s1), None)"
    by (auto simp: ImportPublishedDeal_def saveDeal_def NewSqlDealRepo_def split: sum.splits prod.splits)
  then have sv: "tbSave tb (wRepo (spWorld s)) (fromStorageDeal (importDeal env deal ref)) = (wRepo (spWorld s1), None)"
    by (simp add: sqlSaveDeal_def)
  have "\<not> readable lib (importDeal env deal ref)" using i by (simp add: readable_def importDeal_def)
  then obtain e' where "sqlListDeal lib tb (wRepo (spWorld s1)) = Inl e'"
    using sql_deals.unreadable_listing [OF L sv, of "\<lambda>_. True"] by (auto simp: sqlListDeal_def)
  then show "start (NewSqlDealRepo decode lib tb) s1 = Ret (s1, None)" by (simp add: start_def NewSqlDealRepo_def)
qed

definition demo_sql :: "storageDeal list spState" where
  "demo_sql = \<lparr>spWorld = \<lparr>wRepo = [fromStorageDeal (demo_md ''p9'' 9 128)], wLog = []\<rparr>, spGo = []\<rparr>"

theorem import_stops_restarts_witness:
  "\<exists>s1. ImportPublishedDeal demo_penv (NewSqlDealRepo Inr demo_lib (list_table rwProposalCid)) ((demo_md ''u1'' 7 128)\<lparr>mdClient := []\<rparr>) (Some demo_ref) demo_sql = Ret (s1, None) \<and>
     start (NewSqlDealRepo Inr demo_lib (list_table rwProposalCid)) s1 = Ret (s1, None) \<and> length (wRepo (spWorld s1)) = 2 \<and> spGo s1 = []"
proof -
  let ?i = "ImportPublishedDeal demo_penv (NewSqlDealRepo Inr demo_lib (list_table rwProposalCid)) ((demo_md ''u1'' 7 128)\<lparr>mdClient := []\<rparr>) (Some demo_ref) demo_sql"
  have "case ?i of Ret (s1, e) \<Rightarrow> e = None \<and> length (wRepo (spWorld s1)) = 2 \<and> spGo s1 = [] | Panic _ \<Rightarrow> False" by code_simp
  then obtain s1 where s1: "?i = Ret (s1, None)" "length (wRepo (spWorld s1)) = 2" "spGo s1 = []" by (auto split: outcome.splits)
  have "decodePeerId demo_lib (mdClient ((demo_md ''u1'' 7 128)\<lparr>mdClient := []\<rparr>)) = Inl (ErrMsg ''failed to parse peer ID'')" by (simp add: demo_lib_def)
  then have "start (NewSqlDealRepo Inr demo_lib (list_table rwProposalCid)) s1 = Ret (s1, None)"
    using import_stops_restarts [OF memdeals.sql_deal_laws, THEN conjunct2, THEN mp] s1(1) by blast
  then show ?thesis using s1 by blast
qed

end
