(* ===== verification/Client_Node.thy ===== *)
theory Client_Node
  imports Provider_Node
begin

text \<open>
  The node as the storage client sees it: \<open>ClientNodeAdapter\<close> of \<open>src/storageprovider/client.go\<close>, and the matcher of deal states
  with its cache, \<open>src/storageprovider/dealstatematcher.go\<close>. What the adapter shares with that of the provider is the
  \<open>chainNode\<close>; \<open>clientNode\<close> adds the calls only the client makes. \<open>cborEquals\<close> is \<open>cborutil.Equals\<close>. The closures handed to the
  events service are functions; the calls of the service are a sequence that a run goes through.
\<close>

section \<open>Data\<close>

record clientMinerInfo =
  miWorker :: address
  miOwner :: address
  miControlAddresses :: "address list"
  miSectorSize :: u64
  miPeerId :: "string option"
  miMultiaddrs :: "bytes list"

type_synonym signedProposal = "DealProposal \<times> bytes"

record StorageProviderInfo =
  spAddress :: address
  spWorker :: address
  spSectorSize :: u64
  spPeerID :: string
  spAddrs :: "string list"

record clientNode =
  clNode :: chainNode
  clStateMinerInfo :: "address \<Rightarrow> bytes \<Rightarrow> clientMinerInfo res"
  StateListMiners :: "bytes \<Rightarrow> address list res"
  UnmarshalSignedDeals :: "bytes \<Rightarrow> signedProposal list res"
  cborEquals :: "signedProposal \<Rightarrow> signedProposal \<Rightarrow> bool res"
  DumpProposal :: "DealProposal \<Rightarrow> bytes res"
  NewMultiaddrBytes :: "bytes \<Rightarrow> string res"
  MTDealProposal :: string
  methodPublishStorageDeals :: nat

record ClientDeal =
  clProposal :: signedProposal
  PublishMessage :: "cid option"

section \<open>Operations\<close>

fun parseAddrs :: "clientNode \<Rightarrow> bytes list \<Rightarrow> string list res" where
  "parseAddrs c [] = Inr []"
| "parseAddrs c (a # addrs) = tryE (NewMultiaddrBytes c a) (\<lambda>m. tryE (parseAddrs c addrs) (\<lambda>ms. Inr (m # ms)))"

text \<open>\<open>utils.NewStorageProviderInfo\<close>: an address that cannot be parsed gives the zero value.\<close>

definition NewStorageProviderInfo :: "clientNode \<Rightarrow> address \<Rightarrow> address \<Rightarrow> u64 \<Rightarrow> string \<Rightarrow> bytes list \<Rightarrow> StorageProviderInfo" where
  "NewStorageProviderInfo c miner worker sectorSize peer addrs =
     (case parseAddrs c addrs of
        Inl e \<Rightarrow> \<lparr>spAddress = Undef, spWorker = Undef, spSectorSize = 0, spPeerID = [], spAddrs = []\<rparr>
      | Inr multiaddrs \<Rightarrow> \<lparr>spAddress = miner, spWorker = worker, spSectorSize = sectorSize, spPeerID = peer, spAddrs = multiaddrs\<rparr>)"

definition clientGetMinerInfo :: "clientNode \<Rightarrow> address \<Rightarrow> bytes \<Rightarrow> StorageProviderInfo res outcome" where
  "clientGetMinerInfo c addr encodedTS =
     (case TipSetKeyFromBytes (clNode c) encodedTS of
        Inl e \<Rightarrow> Ret (Inl e)
      | Inr tsk \<Rightarrow>
          (case clStateMinerInfo c addr tsk of
             Inl e \<Rightarrow> Ret (Inl e)
           | Inr mi \<Rightarrow>
               (case miPeerId mi of
                  None \<Rightarrow> Panic ''invalid memory address or nil pointer dereference''
                | Some peer \<Rightarrow> Ret (Inr (NewStorageProviderInfo c addr (miWorker mi) (miSectorSize mi) peer (miMultiaddrs mi))))))"

fun listProvidersLoop :: "clientNode \<Rightarrow> bytes \<Rightarrow> address list \<Rightarrow> StorageProviderInfo list \<Rightarrow> StorageProviderInfo list res outcome" where
  "listProvidersLoop c encodedTS [] out = Ret (Inr out)"
| "listProvidersLoop c encodedTS (addr # addresses) out =
     (case clientGetMinerInfo c addr encodedTS of
        Panic m \<Rightarrow> Panic m
      | Ret (Inl e) \<Rightarrow> Ret (Inl e)
      | Ret (Inr mi) \<Rightarrow> listProvidersLoop c encodedTS addresses (out @ [mi]))"

definition ListStorageProviders :: "clientNode \<Rightarrow> bytes \<Rightarrow> StorageProviderInfo list res outcome" where
  "ListStorageProviders c encodedTS =
     (case TipSetKeyFromBytes (clNode c) encodedTS of
        Inl e \<Rightarrow> Ret (Inl e)
      | Inr tsk \<Rightarrow>
          (case StateListMiners c tsk of
             Inl e \<Rightarrow> Ret (Inl e)
           | Inr addresses \<Rightarrow> listProvidersLoop c encodedTS addresses []))"

definition clientVerifySignature :: "clientNode \<Rightarrow> bytes \<Rightarrow> address \<Rightarrow> bytes \<Rightarrow> bool \<times> error option" where
  "clientVerifySignature c sig addr input =
     (case pnStateAccountKey (clNode c) addr of
        Inl e \<Rightarrow> (False, Some e)
      | Inr a \<Rightarrow> (let err = cryptoVerify (clNode c) sig a input in (err = None, err)))"

definition clientAddFunds :: "clientNode \<Rightarrow> address \<Rightarrow> int \<Rightarrow> pushed list \<times> cid res" where
  "clientAddFunds c addr amount =
     (case PushMessage (pnMix (clNode c)) \<lparr>msgTo = marketActorAddress (clNode c), msgFrom = addr, msgValue = amount,
             msgMethod = methodAddBalance (clNode c), msgParams = []\<rparr> None of
        (es, Inl e) \<Rightarrow> (es, Inl e)
      | (es, Inr msgId) \<Rightarrow> (es, Inr msgId))"

definition clientGetBalance :: "clientNode \<Rightarrow> address \<Rightarrow> bytes \<Rightarrow> (int \<times> int) res" where
  "clientGetBalance c addr encodedTS =
     tryE (TipSetKeyFromBytes (clNode c) encodedTS) (\<lambda>tsk.
     tryE (pnStateMarketBalance (clNode c) addr tsk) (\<lambda>bal. Inr (ToSharedBalance bal)))"

subsection \<open>Validating a published deal\<close>

definition publishers :: "clientMinerInfo \<Rightarrow> address list" where
  "publishers mi = [miWorker mi, miOwner mi] @ miControlAddresses mi"

text \<open>The checks of the sender, the receiver and the method; the parameters are what is left.\<close>

definition publishedBy :: "clientNode \<Rightarrow> address \<Rightarrow> Message \<Rightarrow> signedProposal list res" where
  "publishedBy c provider pubmsg =
     (case clStateMinerInfo c provider (EmptyTSK (pnInfo (clNode c))) of
        Inl e \<Rightarrow> Inl (ErrWrap ''getting miner worker failed'' e)
      | Inr mi \<Rightarrow>
          (case ciStateLookupID (pnInfo (clNode c)) (msgFrom pubmsg) (EmptyTSK (pnInfo (clNode c))) of
             Inl e \<Rightarrow> Inl (ErrWrap ''failed to resolve from msg ID addr'' e)
           | Inr fromid \<Rightarrow>
               if fromid \<notin> set (publishers mi) then Inl (ErrMsg ''deal wasn't published by piecestorage provider'')
               else if msgTo pubmsg \<noteq> marketActorAddress (clNode c) then Inl (ErrMsg ''deal publish message wasn't set to StorageMarket actor'')
               else if msgMethod pubmsg \<noteq> methodPublishStorageDeals c then Inl (ErrMsg ''deal publish message called incorrect method'')
               else UnmarshalSignedDeals c (msgParams pubmsg)))"

fun findSignedIdx :: "clientNode \<Rightarrow> signedProposal \<Rightarrow> nat \<Rightarrow> signedProposal list \<Rightarrow> nat option res" where
  "findSignedIdx c p i [] = Inr None"
| "findSignedIdx c p i (sd # deals) =
     (case cborEquals c p sd of
        Inl e \<Rightarrow> Inl e
      | Inr True \<Rightarrow> Inr (Some i)
      | Inr False \<Rightarrow> findSignedIdx c p (Suc i) deals)"

definition waitPublished :: "clientNode \<Rightarrow> cid \<Rightarrow> (publishReturn \<times> u64 list) res" where
  "waitPublished c msg =
     (case pnWaitMsg (clNode c) msg (MessageConfidence (clNode c)) (LookbackNoLimit (clNode c)) of
        Inl e \<Rightarrow> Inl (ErrWrap ''waiting for deal publish message'' e)
      | Inr ret \<Rightarrow>
          if ExitCode (lkReceipt ret) \<noteq> 0 then Inl (ErrMsg ''deal publish failed'')
          else
            (case ciStateNetworkVersion (pnInfo (clNode c)) (lkTipSet ret) of
               Inl e \<Rightarrow> Inl (ErrWrap ''getting network version'' e)
             | Inr nv \<Rightarrow>
                 (case DecodePublishStorageDealsReturn (pnInfo (clNode c)) (recReturn (lkReceipt ret)) nv of
                    Inl e \<Rightarrow> Inl (ErrWrap ''decoding deal publish return'' e)
                  | Inr res \<Rightarrow>
                      (case retDealIDs res of
                         Inl e \<Rightarrow> Inl (ErrWrap ''getting dealIDs'' e)
                       | Inr dealIDs \<Rightarrow> Inr (res, dealIDs)))))"

definition validOutput :: "publishReturn \<Rightarrow> u64 list \<Rightarrow> nat \<Rightarrow> u64 res outcome" where
  "validOutput res dealIDs dealIdx =
     (case IsDealValid res dealIdx of
        Inl e \<Rightarrow> Ret (Inl (ErrWrap ''determining deal validity'' e))
      | Inr (valid, outIdx) \<Rightarrow>
          if \<not> valid then Ret (Inl (ErrMsg ''deal was invalid at publication''))
          else if 0 \<le> outIdx \<and> nat outIdx < length dealIDs then Ret (Inr (dealIDs ! nat outIdx))
          else Panic ''index out of range'')"

definition ValidatePublishedDeal :: "clientNode \<Rightarrow> ClientDeal \<Rightarrow> u64 res outcome" where
  "ValidatePublishedDeal c deal =
     (case PublishMessage deal of
        None \<Rightarrow> Panic ''invalid memory address or nil pointer dereference''
      | Some pm \<Rightarrow>
     (case GetMessage (pnMix (clNode c)) pm of
        Inl e \<Rightarrow> Ret (Inl (ErrWrap ''getting deal publish message'' e))
      | Inr pubmsg \<Rightarrow>
     (case publishedBy c (Provider (fst (clProposal deal))) pubmsg of
        Inl e \<Rightarrow> Ret (Inl e)
      | Inr deals \<Rightarrow>
     (case findSignedIdx c (clProposal deal) 0 deals of
        Inl e \<Rightarrow> Ret (Inl e)
      | Inr None \<Rightarrow> Ret (Inl (ErrMsg ''deal publish didn't contain our deal''))
      | Inr (Some dealIdx) \<Rightarrow>
     (case waitPublished c pm of
        Inl e \<Rightarrow> Ret (Inl e)
      | Inr (res, dealIDs) \<Rightarrow>
          if dealIdx \<ge> length deals then Ret (Inl (ErrMsg ''deal index out of bounds of deals''))
          else validOutput res dealIDs dealIdx)))))"

subsection \<open>Collateral, signatures and the chain\<close>

definition clientOverestimation :: "int \<times> int" where
  "clientOverestimation = (12, 10)"

definition clientDealProviderCollateralBounds :: "clientNode \<Rightarrow> u64 \<Rightarrow> bool \<Rightarrow> (int \<times> int) res" where
  "clientDealProviderCollateralBounds c pieceSize isVerified =
     tryE (StateDealProviderCollateralBounds (clNode c) pieceSize isVerified) (\<lambda>(boundsMin, boundsMax).
       Inr (boundsMin * fst clientOverestimation div snd clientOverestimation, boundsMax))"

definition clientSign :: "clientNode \<Rightarrow> address \<Rightarrow> bytes \<Rightarrow> string \<Rightarrow> bytes res" where
  "clientSign c signer b typ = tryE (pnStateAccountKey (clNode c) signer) (\<lambda>key. pnWalletSign (clNode c) key b typ)"

definition SignProposal :: "clientNode \<Rightarrow> address \<Rightarrow> DealProposal \<Rightarrow> signedProposal res" where
  "SignProposal c signer proposal =
     tryE (DumpProposal c proposal) (\<lambda>buf. tryE (clientSign c signer buf (MTDealProposal c)) (\<lambda>sig. Inr (proposal, sig)))"

definition SignBytes :: "clientNode \<Rightarrow> address \<Rightarrow> bytes \<Rightarrow> bytes res" where
  "SignBytes c signer b = clientSign c signer b (MTUnknown (clNode c))"

definition clientGetChainHead :: "clientNode \<Rightarrow> (bytes \<times> int) res" where
  "clientGetChainHead c = tryE (pnChainHead (clNode c)) Inr"

definition clientWaitForMessage :: "clientNode \<Rightarrow> cid \<Rightarrow> (int \<Rightarrow> bytes \<Rightarrow> cid \<Rightarrow> error option \<Rightarrow> 'a) \<Rightarrow> 'a" where
  "clientWaitForMessage c mcid cb =
     (case pnWaitMsg (clNode c) mcid (MessageConfidence (clNode c)) (LookbackNoLimit (clNode c)) of
        Inl e \<Rightarrow> cb 0 [] Undef (Some e)
      | Inr receipt \<Rightarrow> cb (ExitCode (lkReceipt receipt)) (recReturn (lkReceipt receipt)) (lkMessage receipt) None)"

section \<open>The matcher of deal states\<close>

text \<open>A change of a deal holds its states before and after; \<open>None\<close> is a deal that is not there. What the service passes on is
  such a map or a value of another type. An answer is (changed, data, error).\<close>

record dealStateChange =
  chFrom :: "(int \<times> int) option"
  chTo :: "(int \<times> int) option"

datatype stateChange = ChangedDeals "u64 \<rightharpoonup> dealStateChange" | OtherChange

type_synonym matchAnswer = "bool \<times> stateChange option \<times> error option"

text \<open>The states of a tipset are of type \<open>'ds\<close>. \<open>dealDiff\<close>, the composed predicates of the node library, fails, finds no difference
  without calling the recorder, or answers what the recorder answers for the two states it loaded; what it finds is an
  argument of each call.\<close>

type_synonym 'ds found = "('ds \<times> 'ds) option res"

record 'ds dealStateMatcher =
  oldTsk :: bytes
  newTsk :: bytes
  oldDealStateRoot :: "'ds option"
  newDealStateRoot :: "'ds option"

definition newDealStateMatcher :: "'ds dealStateMatcher" where
  "newDealStateMatcher = \<lparr>oldTsk = [], newTsk = [], oldDealStateRoot = None, newDealStateRoot = None\<rparr>"

definition dealDiff :: "('ds \<Rightarrow> 'ds \<Rightarrow> matchAnswer) \<Rightarrow> 'ds found \<Rightarrow> matchAnswer \<times> 'ds option \<times> 'ds option" where
  "dealDiff changed found =
     (case found of
        Inl e \<Rightarrow> ((False, None, Some e), None, None)
      | Inr None \<Rightarrow> ((False, None, None), None, None)
      | Inr (Some (old, new)) \<Rightarrow> (changed old new, Some old, Some new))"

definition matcher :: "(u64 list \<Rightarrow> 'ds \<Rightarrow> 'ds \<Rightarrow> matchAnswer) \<Rightarrow> u64 \<Rightarrow> bytes \<Rightarrow> bytes \<Rightarrow> 'ds found \<Rightarrow> 'ds dealStateMatcher \<Rightarrow> matchAnswer \<times> 'ds dealStateMatcher" where
  "matcher dealStateChangedForIDs dealID oldTs newTs found mc =
     (let dealStateChangedForID = dealStateChangedForIDs [dealID] in
      if oldTsk mc = oldTs \<and> newTsk mc = newTs then
        (case (oldDealStateRoot mc, newDealStateRoot mc) of
           (Some old, Some new) \<Rightarrow> (dealStateChangedForID old new, mc)
         | _ \<Rightarrow> ((False, None, None), mc))
      else
        (case dealDiff dealStateChangedForID found of
           (answer, oldSaved, newSaved) \<Rightarrow>
             (answer, \<lparr>oldTsk = oldTs, newTsk = newTs, oldDealStateRoot = oldSaved, newDealStateRoot = newSaved\<rparr>)))"

section \<open>Following a deal to its end\<close>

type_synonym tipset = "bytes \<times> int"

datatype endReport = DealExpired | DealSlashed int

text \<open>The closures of \<open>OnDealExpiredOrSlashed\<close>; the reports made so far are their state.\<close>

definition endCheckFunc :: "MarketDeal \<Rightarrow> tipset option \<Rightarrow> endReport list \<Rightarrow> (bool \<times> bool \<times> error option) \<times> endReport list" where
  "endCheckFunc sd ts rs =
     (case ts of
        None \<Rightarrow> ((False, True, None), rs)
      | Some t \<Rightarrow>
          if EndEpoch (mkProposal sd) \<le> snd t then ((True, False, None), rs @ [DealExpired])
          else if mkSectorStartEpoch sd < 0 then ((True, False, None), rs @ [DealSlashed (snd t)])
          else ((False, True, None), rs))"

definition endStateChanged :: "MarketDeal \<Rightarrow> u64 \<Rightarrow> tipset option \<Rightarrow> stateChange option \<Rightarrow> endReport list \<Rightarrow> (bool \<times> endReport list) outcome" where
  "endStateChanged sd dealID ts2 states rs =
     (case ts2 of
        None \<Rightarrow> Ret (False, rs @ [DealExpired])
      | Some t \<Rightarrow>
          if EndEpoch (mkProposal sd) \<le> snd t then Ret (False, rs @ [DealExpired])
          else
            (case states of
               None \<Rightarrow> Ret (False, rs)
             | Some OtherChange \<Rightarrow> Panic ''Expected state.ChangedDeals''
             | Some (ChangedDeals changedDeals) \<Rightarrow>
                 (case changedDeals dealID of
                    None \<Rightarrow> Ret (True, rs)
                  | Some deal \<Rightarrow> if chTo deal = None then Ret (False, rs @ [DealSlashed (snd t)]) else Ret (True, rs))))"

record endWatch =
  ewDeal :: MarketDeal
  ewConfidence :: int
  ewTimeout :: int

definition OnDealExpiredOrSlashed :: "clientNode \<Rightarrow> (endWatch \<Rightarrow> error option) \<Rightarrow> u64 \<Rightarrow> endWatch res" where
  "OnDealExpiredOrSlashed c StateChanged dealID =
     (case pnChainHead (clNode c) of
        Inl e \<Rightarrow> Inl (ErrWrap ''client: failed to get chain head'' e)
      | Inr (key, height) \<Rightarrow>
          (case ciStateMarketStorageDeal (pnInfo (clNode c)) dealID key of
             Inl e \<Rightarrow> Inl (ErrWrap ''client: failed to look up deal on chain'' e)
           | Inr sd \<Rightarrow>
               (let watch = \<lparr>ewDeal = sd, ewConfidence = sint (MessageConfidence (clNode c)) + 1,
                      ewTimeout = (EndEpoch (mkProposal sd) - height) + 1\<rparr>
                in case StateChanged watch of
                     Some e \<Rightarrow> Inl (ErrWrap ''failed to set up state changed handler'' e)
                   | None \<Rightarrow> Inr watch)))"

end
