(* ===== verification/Client_Props.thy ===== *)
theory Client_Props
  imports Client_Node
begin

text \<open>
  What the node adapter of the client promises: validated deals are on chain and have the identifier the provider finds,
  the collateral a client offers is accepted by the provider, the cache of deal states is transparent but for failed
  fetches, and the end of a deal is reported once and only when the chain shows it.
\<close>

section \<open>Validated deals\<close>

lemma findSignedIdx_first:
  "findSignedIdx c p i deals = Inr (Some k) \<Longrightarrow>
    \<exists>j. k = i + j \<and> j < length deals \<and> cborEquals c p (deals ! j) = Inr True \<and> (\<forall>l < j. cborEquals c p (deals ! l) = Inr False)"
proof (induction deals arbitrary: i)
  case (Cons d deals)
  consider "cborEquals c p d = Inr True" | "cborEquals c p d = Inr False" | e where "cborEquals c p d = Inl e"
    by (cases "cborEquals c p d") auto
  then show ?case
  proof cases
    case 1
    then show ?thesis using Cons.prems by (intro exI [of _ 0]) simp
  next
    case 2
    then have "findSignedIdx c p (Suc i) deals = Inr (Some k)" using Cons.prems by simp
    from Cons.IH [OF this] obtain j where j: "k = Suc i + j" "j < length deals" "cborEquals c p (deals ! j) = Inr True"
      "\<forall>l < j. cborEquals c p (deals ! l) = Inr False" by blast
    have "cborEquals c p ((d # deals) ! l) = Inr False" if "l < Suc j" for l
      using that j(4) 2 by (cases l) simp_all
    then show ?thesis using j by (intro exI [of _ "Suc j"]) simp
  qed (use Cons.prems in simp)
qed simp

lemma publishedBy_ok:
  assumes "publishedBy c provider msg = Inr deals"
  shows "\<exists>mi fromid. clStateMinerInfo c provider (EmptyTSK (pnInfo (clNode c))) = Inr mi \<and>
    ciStateLookupID (pnInfo (clNode c)) (msgFrom msg) (EmptyTSK (pnInfo (clNode c))) = Inr fromid \<and>
    fromid \<in> {miWorker mi, miOwner mi} \<union> set (miControlAddresses mi) \<and> msgTo msg = marketActorAddress (clNode c) \<and>
    msgMethod msg = methodPublishStorageDeals c \<and> UnmarshalSignedDeals c (msgParams msg) = Inr deals"
  using assms by (auto simp: publishedBy_def publishers_def split: sum.splits if_splits)

lemma waitPublished_ok:
  assumes "waitPublished c pm = Inr (ret, ids)"
  shows "\<exists>lookup nv. pnWaitMsg (clNode c) pm (MessageConfidence (clNode c)) (LookbackNoLimit (clNode c)) = Inr lookup \<and>
    ExitCode (lkReceipt lookup) = 0 \<and> ciStateNetworkVersion (pnInfo (clNode c)) (lkTipSet lookup) = Inr nv \<and>
    DecodePublishStorageDealsReturn (pnInfo (clNode c)) (recReturn (lkReceipt lookup)) nv = Inr ret \<and> retDealIDs ret = Inr ids"
  using assms by (auto simp: waitPublished_def split: sum.splits if_splits)

text \<open>A publish message \<open>pm\<close> that holds the signed deal at index \<open>k\<close>, sent by the provider.\<close>

definition publishes :: "clientNode \<Rightarrow> ClientDeal \<Rightarrow> cid \<Rightarrow> Message \<Rightarrow> signedProposal list \<Rightarrow> nat \<Rightarrow> bool" where
  "publishes c deal pm msg deals k \<longleftrightarrow> PublishMessage deal = Some pm \<and> GetMessage (pnMix (clNode c)) pm = Inr msg \<and>
     publishedBy c (Provider (fst (clProposal deal))) msg = Inr deals \<and> k < length deals \<and> findSignedIdx c (clProposal deal) 0 deals = Inr (Some k)"

lemma ValidatePublishedDeal_cases:
  assumes "ValidatePublishedDeal c deal = Ret (Inr i)"
  obtains pm msg deals k ret ids out where "publishes c deal pm msg deals k" "waitPublished c pm = Inr (ret, ids)"
    "IsDealValid ret k = Inr (True, int out)" "out < length ids" "i = ids ! out"
proof -
  obtain pm msg deals k ret ids where h: "publishes c deal pm msg deals k" "waitPublished c pm = Inr (ret, ids)"
    "validOutput ret ids k = Ret (Inr i)"
    using assms by (auto simp: ValidatePublishedDeal_def publishes_def split: option.splits sum.splits if_splits prod.splits)
  obtain out where "IsDealValid ret k = Inr (True, out)" "0 \<le> out" "nat out < length ids" "i = ids ! nat out"
    using h(3) by (auto simp: validOutput_def split: sum.splits if_splits prod.splits)
  then show thesis using that [OF h(1,2), of "nat out"] by simp
qed

lemma publishes_index:
  assumes "publishes c deal pm msg deals k" and law: "\<And>x y b. cborEquals c x y = Inr b \<Longrightarrow> b \<longleftrightarrow> x = y"
  shows "deals ! k = clProposal deal" "clProposal deal \<notin> set (take k deals)"
proof -
  have f: "cborEquals c (clProposal deal) (deals ! k) = Inr True" "\<And>l. l < k \<Longrightarrow> cborEquals c (clProposal deal) (deals ! l) = Inr False"
    using assms(1) findSignedIdx_first [of c "clProposal deal" 0 deals k] by (auto simp: publishes_def)
  show "deals ! k = clProposal deal" using law [OF f(1)] by simp
  have "deals ! l \<noteq> clProposal deal" if "l < k" for l using law [OF f(2) [OF that]] by simp
  then show "clProposal deal \<notin> set (take k deals)" by (auto simp: in_set_conv_nth)
qed

text \<open>A client accepts a deal as published only if the publish message was sent by the worker, the owner or a control
  address of the provider to the market actor, calls the publishing method, contains exactly the signed deal of the
  client, was executed successfully and reports that deal as valid; the identifier is the one the return value gives
  for the first place of the deal in the message.\<close>

theorem ValidatePublishedDeal_sound:
  assumes "ValidatePublishedDeal c deal = Ret (Inr i)" "\<And>x y b. cborEquals c x y = Inr b \<Longrightarrow> b \<longleftrightarrow> x = y"
  shows "\<exists>pm msg mi fromid deals k lookup nv ret ids out. PublishMessage deal = Some pm \<and> GetMessage (pnMix (clNode c)) pm = Inr msg \<and>
    clStateMinerInfo c (Provider (fst (clProposal deal))) (EmptyTSK (pnInfo (clNode c))) = Inr mi \<and>
    ciStateLookupID (pnInfo (clNode c)) (msgFrom msg) (EmptyTSK (pnInfo (clNode c))) = Inr fromid \<and>
    fromid \<in> {miWorker mi, miOwner mi} \<union> set (miControlAddresses mi) \<and> msgTo msg = marketActorAddress (clNode c) \<and>
    msgMethod msg = methodPublishStorageDeals c \<and> UnmarshalSignedDeals c (msgParams msg) = Inr deals \<and>
    k < length deals \<and> deals ! k = clProposal deal \<and> clProposal deal \<notin> set (take k deals) \<and>
    pnWaitMsg (clNode c) pm (MessageConfidence (clNode c)) (LookbackNoLimit (clNode c)) = Inr lookup \<and> ExitCode (lkReceipt lookup) = 0 \<and>
    ciStateNetworkVersion (pnInfo (clNode c)) (lkTipSet lookup) = Inr nv \<and>
    DecodePublishStorageDealsReturn (pnInfo (clNode c)) (recReturn (lkReceipt lookup)) nv = Inr ret \<and> retDealIDs ret = Inr ids \<and>
    IsDealValid ret k = Inr (True, int out) \<and> out < length ids \<and> i = ids ! out"
proof -
  from assms(1) obtain pm msg deals k ret ids out where h: "publishes c deal pm msg deals k" "waitPublished c pm = Inr (ret, ids)"
    "IsDealValid ret k = Inr (True, int out)" "out < length ids" "i = ids ! out" by (rule ValidatePublishedDeal_cases)
  show ?thesis
    using h publishes_index [OF h(1) assms(2)] publishedBy_ok [of c "Provider (fst (clProposal deal))" msg deals] waitPublished_ok [OF h(2)]
    unfolding publishes_def by blast
qed

definition demo_publish_msg :: Message where
  "demo_publish_msg = \<lparr>msgTo = ''f05'', msgFrom = ''control'', msgValue = 0, msgMethod = 4, msgParams = ''p''\<rparr>"

definition demo_client :: clientNode where
  "demo_client = \<lparr>clNode = demo_node\<lparr>pnMix := demo_mix\<lparr>hasMessager := False, ChainGetMessage :=
       (\<lambda>_. Inr demo_publish_msg)\<rparr>, pnInfo := demo_info\<lparr>ciGetMessage := (\<lambda>_. Inr demo_publish_msg)\<rparr>\<rparr>,
     clStateMinerInfo = (\<lambda>_ _. Inr \<lparr>miWorker = ''worker'', miOwner = ''owner'', miControlAddresses = [''control''], miSectorSize = 2048,
       miPeerId = None, miMultiaddrs = []\<rparr>),
     StateListMiners = (\<lambda>_. Inr [''miner'']), UnmarshalSignedDeals = (\<lambda>_. Inr [(demo_prop 64, ''s''), (demo_prop 128, ''s'')]),
     cborEquals = (\<lambda>x y. Inr (x = y)), DumpProposal = (\<lambda>_. Inr ''dump''), NewMultiaddrBytes = Inr, MTDealProposal = ''dealproposal'',
     methodPublishStorageDeals = 4\<rparr>"

definition demo_client_deal :: ClientDeal where
  "demo_client_deal = \<lparr>clProposal = (demo_prop 128, ''s''), PublishMessage = Some ''pub''\<rparr>"

lemma demo_validated: "ValidatePublishedDeal demo_client demo_client_deal = Ret (Inr 8)"
  by code_simp

lemma demo_cbor: "cborEquals demo_client x y = Inr b \<Longrightarrow> b \<longleftrightarrow> x = y"
  by (simp add: demo_client_def)

theorem ValidatePublishedDeal_sound_witness:
  "ValidatePublishedDeal demo_client demo_client_deal = Ret (Inr 8) \<and>
   (\<exists>msg. GetMessage (pnMix (clNode demo_client)) ''pub'' = Inr msg \<and> msgTo msg = ''f05'')"
proof -
  have "marketActorAddress (clNode demo_client) = ''f05''" "PublishMessage demo_client_deal = Some ''pub''"
    by (simp_all add: demo_client_def demo_node_def demo_client_deal_def)
  then show ?thesis using ValidatePublishedDeal_sound [OF demo_validated demo_cbor] demo_validated by auto
qed

text \<open>The client indexes the identifiers without the check the provider makes: a return value whose validity map points past its
  identifiers makes the client panic, where the provider reports an error.\<close>

theorem short_return_panics:
  assumes "publishes c deal pm msg deals k" "waitPublished c pm = Inr (ret, ids)"
    and "IsDealValid ret k = Inr (True, int out)" "length ids \<le> out"
  shows "ValidatePublishedDeal c deal = Panic ''index out of range''"
  using assms by (auto simp: ValidatePublishedDeal_def publishes_def validOutput_def)

section \<open>Client and provider\<close>

text \<open>Both sides look at the same chain: the messages, their parameters and the result of the publish message are the same.\<close>

definition sameChain :: "clientNode \<Rightarrow> bool" where
  "sameChain c \<longleftrightarrow>
     (\<forall>pm. ciGetMessage (pnInfo (clNode c)) pm = GetMessage (pnMix (clNode c)) pm) \<and>
     (\<forall>b. UnmarshalPublishParams (pnInfo (clNode c)) b = map_sum id (map fst) (UnmarshalSignedDeals c b)) \<and>
     (\<forall>pm l l'. pnWaitMsg (clNode c) pm (MessageConfidence (clNode c)) (LookbackNoLimit (clNode c)) = Inr l \<longrightarrow>
        ciSearchMsg (pnInfo (clNode c)) pm = Inr (Some l') \<longrightarrow> lkReceipt l' = lkReceipt l \<and> lkTipSet l' = lkTipSet l)"

lemma GetCurrentDealInfo_id:
  assumes "GetCurrentDealInfo api tok p pm = Ret (Inr (info, err))"
  shows "\<exists>t. dealIDFromPublishDealsMsg api tok p pm = Ret (Inr (cdDealID info, t))"
  using assms by (auto simp: GetCurrentDealInfo_def Let_def split: outcome.splits sum.splits option.splits if_splits)

lemma dealID_index:
  assumes "dealIDFromPublishDealsMsg api tok (Some p) pm = Ret (Inr (j, t))"
  obtains lookup ret ids k out where "publishResult api pm = Inr (lookup, ret, ids)" "paramIdx api tok p pm = Inr k"
    "IsDealValid ret k = Inr (True, int out)" "out < length ids" "j = ids ! out"
proof -
  obtain lookup ret ids k out where h: "publishResult api pm = Inr (lookup, ret, ids)" "paramIdx api tok p pm = Inr k"
    "IsDealValid ret k = Inr (True, out)" "idAt ids out (EmptyTSK api) = Ret (Inr (j, t))"
    using assms by (auto simp: dealIDFromPublishDealsMsg_def split: sum.splits prod.splits if_splits)
  then have "0 \<le> out" "nat out < length ids" "j = ids ! nat out" by (auto simp: idAt_def split: if_splits)
  then show thesis using that [OF h(1,2), of "nat out"] h(3) by simp
qed

text \<open>Property C25. Client and provider agree on the identifier of a deal: when the client has validated a publish message in which
  no two deals have the same terms, every lookup of the deal by the provider that succeeds gives the same
  identifier.\<close>

theorem client_provider_same_id:
  assumes "sameChain c" "\<And>x y b. cborEquals c x y = Inr b \<Longrightarrow> b \<longleftrightarrow> x = y"
    and client: "PublishMessage deal = Some pm" "ValidatePublishedDeal c deal = Ret (Inr i)"
    and provider: "GetCurrentDealInfo (pnInfo (clNode c)) tok (Some (fst (clProposal deal))) pm = Ret (Inr (info, err))"
    and unique: "\<And>msg deals k l. GetMessage (pnMix (clNode c)) pm = Inr msg \<Longrightarrow> UnmarshalSignedDeals c (msgParams msg) = Inr deals \<Longrightarrow>
      k < length deals \<Longrightarrow> l < length deals \<Longrightarrow> sameTerms (pnInfo (clNode c)) tok (fst (deals ! k)) (fst (deals ! l)) \<Longrightarrow> k = l"
  shows "cdDealID info = i"
proof -
  let ?api = "pnInfo (clNode c)" and ?p = "fst (clProposal deal)"
  from client(2) obtain pm' msg deals k ret ids out where h: "publishes c deal pm' msg deals k" "waitPublished c pm' = Inr (ret, ids)"
    "IsDealValid ret k = Inr (True, int out)" "out < length ids" "i = ids ! out" by (rule ValidatePublishedDeal_cases)
  have [simp]: "pm' = pm" using h(1) client(1) by (simp add: publishes_def)
  have k: "deals ! k = clProposal deal" using h(1) assms(2) by (rule publishes_index)
  have m: "GetMessage (pnMix (clNode c)) pm = Inr msg" "k < length deals" "UnmarshalSignedDeals c (msgParams msg) = Inr deals"
    using h(1) publishedBy_ok [of c "Provider ?p" msg deals] by (auto simp: publishes_def)
  obtain t where "dealIDFromPublishDealsMsg ?api tok (Some ?p) pm = Ret (Inr (cdDealID info, t))" using GetCurrentDealInfo_id [OF provider] ..
  then obtain lookup ret' ids' k' out' where g: "publishResult ?api pm = Inr (lookup, ret', ids')" "paramIdx ?api tok ?p pm = Inr k'"
    "IsDealValid ret' k' = Inr (True, int out')" "out' < length ids'" "cdDealID info = ids' ! out'" by (rule dealID_index)
  from g(2) obtain msg' ds where p: "ciGetMessage ?api pm = Inr msg'" "UnmarshalPublishParams ?api (msgParams msg') = Inr ds" "k' < length ds"
    "sameTerms ?api tok ?p (ds ! k')" by (rule paramIdx_ok)
  have "msg' = msg" "ds = map fst deals" using p(1,2) m(1,3) assms(1) by (auto simp: sameChain_def)
  then have "k' = k" using unique [OF m(1,3), of k k'] p(3,4) m(2) k by simp
  moreover have "ret' = ret \<and> ids' = ids"
    using publishResult_ok [OF g(1)] waitPublished_ok [OF h(2)] assms(1) by (auto simp: sameChain_def)
  ultimately show ?thesis using g h by simp
qed

lemma demo_same_chain: "sameChain demo_client"
  by (simp add: sameChain_def demo_client_def demo_node_def demo_info_def GetMessage_def)

lemma demo_provider_info: "(case GetCurrentDealInfo (pnInfo (clNode demo_client)) ''head'' (Some (fst (clProposal demo_client_deal))) ''pub'' of
    Ret (Inr (info, None)) \<Rightarrow> True | _ \<Rightarrow> False) = True"
  by code_simp

theorem client_provider_same_id_witness:
  "\<exists>info. GetCurrentDealInfo (pnInfo (clNode demo_client)) ''head'' (Some (fst (clProposal demo_client_deal))) ''pub'' = Ret (Inr (info, None)) \<and>
     cdDealID info = 8"
proof -
  obtain info where i: "GetCurrentDealInfo (pnInfo (clNode demo_client)) ''head'' (Some (fst (clProposal demo_client_deal))) ''pub'' = Ret (Inr (info, None))"
    using demo_provider_info by (auto split: outcome.splits sum.splits option.splits)
  have m: "PublishMessage demo_client_deal = Some ''pub''" by (simp add: demo_client_deal_def)
  have "cdDealID info = 8"
  proof (rule client_provider_same_id [OF demo_same_chain demo_cbor m demo_validated i])
    fix msg :: Message and deals and k l :: nat
    assume "UnmarshalSignedDeals demo_client (msgParams msg) = Inr deals" and l: "k < length deals" "l < length deals"
      "sameTerms (pnInfo (clNode demo_client)) ''head'' (fst (deals ! k)) (fst (deals ! l))"
    then have "deals = [(demo_prop 64, ''s''), (demo_prop 128, ''s'')]" by (simp add: demo_client_def)
    then show "k = l" using l by (auto simp: sameTerms_def demo_prop_def less_Suc_eq)
  qed
  then show ?thesis using i by blast
qed

text \<open>What the client offers at least as the collateral of the provider lies within what the provider accepts.\<close>

theorem client_offer_accepted:
  assumes "clientDealProviderCollateralBounds c pieceSize v = Inr (offered, most)"
    and "nodeDealProviderCollateralBounds (clNode c) (NewProviderNodeAdapter cfg) pieceSize v = Inr (lo, hi)" "0 \<le> lo"
  shows "lo \<le> offered \<and> offered \<le> hi"
proof -
  have m: "maxDealCollateralMultiplier (NewProviderNodeAdapter cfg) = 2"
    by (simp add: NewProviderNodeAdapter_def defaultMaxProviderCollateralMultiplier_def Let_def split: option.split)
  have "offered = lo * 12 div 10" "hi = lo * 2"
    using assms m by (auto simp: clientDealProviderCollateralBounds_def nodeDealProviderCollateralBounds_def clientOverestimation_def
        elim!: tryE_cases)
  then show ?thesis using assms(3) by presburger
qed

section \<open>The cache of deal states\<close>

type_synonym 'ds matchCall = "u64 \<times> bytes \<times> bytes \<times> 'ds found"

fun runMatches :: "(u64 list \<Rightarrow> 'ds \<Rightarrow> 'ds \<Rightarrow> matchAnswer) \<Rightarrow> 'ds matchCall list \<Rightarrow> 'ds dealStateMatcher \<Rightarrow> matchAnswer list" where
  "runMatches changed [] mc = []"
| "runMatches changed ((dealID, oldTs, newTs, found) # calls) mc =
     (case matcher changed dealID oldTs newTs found mc of (answer, mc') \<Rightarrow> answer # runMatches changed calls mc')"

text \<open>The answer without a cache, and the pairs of tipsets whose states could not be fetched.\<close>

definition uncached :: "(u64 list \<Rightarrow> 'ds \<Rightarrow> 'ds \<Rightarrow> matchAnswer) \<Rightarrow> u64 \<Rightarrow> 'ds found \<Rightarrow> matchAnswer" where
  "uncached changed dealID found = fst (dealDiff (changed [dealID]) found)"

definition failedFetches :: "'ds matchCall list \<Rightarrow> (bytes \<times> bytes) set" where
  "failedFetches calls = {(oldTs, newTs). \<exists>dealID e. (dealID, oldTs, newTs, Inl e) \<in> set calls}"

text \<open>\<open>states\<close> is what the chain has for a pair of tipsets. The cache holds it, unless it is fresh or the fetch failed.\<close>

definition fetched :: "(bytes \<Rightarrow> bytes \<Rightarrow> ('ds \<times> 'ds) option) \<Rightarrow> 'ds matchCall \<Rightarrow> bool" where
  "fetched states call = (case call of (dealID, oldTs, newTs, found) \<Rightarrow>
     (oldTs, newTs) \<noteq> ([], []) \<and> (\<forall>x. found = Inr x \<longrightarrow> x = states oldTs newTs))"

definition cacheOk :: "(bytes \<Rightarrow> bytes \<Rightarrow> ('ds \<times> 'ds) option) \<Rightarrow> (bytes \<times> bytes) set \<Rightarrow> 'ds dealStateMatcher \<Rightarrow> bool" where
  "cacheOk states F mc \<longleftrightarrow>
     (oldDealStateRoot mc, newDealStateRoot mc) = (map_option fst (states (oldTsk mc) (newTsk mc)), map_option snd (states (oldTsk mc) (newTsk mc))) \<or>
     (oldDealStateRoot mc = None \<and> newDealStateRoot mc = None \<and> (oldTsk mc, newTsk mc) \<in> insert ([], []) F)"

definition answered :: "(u64 list \<Rightarrow> 'ds \<Rightarrow> 'ds \<Rightarrow> matchAnswer) \<Rightarrow> (bytes \<Rightarrow> bytes \<Rightarrow> ('ds \<times> 'ds) option) \<Rightarrow> (bytes \<times> bytes) set \<Rightarrow> 'ds matchCall \<Rightarrow> matchAnswer \<Rightarrow> bool" where
  "answered changed states F call answer = (case call of (dealID, oldTs, newTs, found) \<Rightarrow>
     answer = uncached changed dealID (Inr (states oldTs newTs)) \<or>
     (\<exists>e. found = Inl e \<and> answer = (False, None, Some e)) \<or>
     ((oldTs, newTs) \<in> F \<and> answer = (False, None, None)))"

lemma matcher_step:
  assumes "cacheOk states F mc" "fetched states (dealID, oldTs, newTs, found)"
    and m: "matcher changed dealID oldTs newTs found mc = (answer, mc')"
  shows "answered changed states F (dealID, oldTs, newTs, found) answer"
    and "cacheOk states (F \<union> failedFetches [(dealID, oldTs, newTs, found)]) mc'"
proof -
  have "answered changed states F (dealID, oldTs, newTs, found) answer \<and> cacheOk states (F \<union> failedFetches [(dealID, oldTs, newTs, found)]) mc'"
  proof (cases "oldTsk mc = oldTs \<and> newTsk mc = newTs")
    case True
    then show ?thesis using assms
      by (cases "states oldTs newTs")
        (auto simp: matcher_def cacheOk_def fetched_def answered_def uncached_def dealDiff_def split: option.splits)
  next
    case False
    then show ?thesis using assms(2) m
      by (cases found) (auto simp: matcher_def cacheOk_def fetched_def answered_def uncached_def dealDiff_def failedFetches_def split: option.splits)
  qed
  then show "answered changed states F (dealID, oldTs, newTs, found) answer"
    and "cacheOk states (F \<union> failedFetches [(dealID, oldTs, newTs, found)]) mc'" by simp_all
qed

lemma failedFetches_append: "failedFetches (xs @ ys) = failedFetches xs \<union> failedFetches ys"
  by (auto simp: failedFetches_def)

lemma length_runMatches [simp]: "length (runMatches changed calls mc) = length calls"
  by (induction calls arbitrary: mc) (auto split: prod.split)

lemma runMatches_answered:
  assumes "cacheOk states F mc" "\<forall>call \<in> set calls. fetched states call" "i < length calls"
  shows "answered changed states (F \<union> failedFetches (take i calls)) (calls ! i) (runMatches changed calls mc ! i)"
  using assms
proof (induction calls arbitrary: mc F i)
  case (Cons call calls)
  obtain dealID oldTs newTs found where c: "call = (dealID, oldTs, newTs, found)" by (cases call) auto
  obtain answer mc' where m: "matcher changed dealID oldTs newTs found mc = (answer, mc')"
    by (cases "matcher changed dealID oldTs newTs found mc")
  note step = matcher_step [OF Cons.prems(1) _ m]
  show ?case
  proof (cases i)
    case 0
    then show ?thesis using step(1) Cons.prems(2) c m by (simp add: failedFetches_def)
  next
    case (Suc j)
    have "cacheOk states (F \<union> failedFetches [call]) mc'" using step(2) Cons.prems(2) c by simp
    from Cons.IH [OF this, of j] have "answered changed states (F \<union> (failedFetches [call] \<union> failedFetches (take j calls))) (calls ! j)
        (runMatches changed calls mc' ! j)" using Cons.prems(2,3) Suc by (simp add: Un_assoc)
    then show ?thesis using failedFetches_append [of "[call]" "take j calls"] Suc c m by simp
  qed
qed simp

lemma repeats_unchanged:
  assumes "oldTsk mc = oldTs" "newTsk mc = newTs" "oldDealStateRoot mc = None"
  shows "runMatches changed (map (\<lambda>(d, f). (d, oldTs, newTs, f)) reps) mc = replicate (length reps) (False, None, None)"
  using assms by (induction reps) (auto simp: matcher_def)

text \<open>Property C38. The cache of the matcher of deal states is transparent: over any sequence of calls for any deals, a call answers
  what the states of its tipsets give, fetched or cached, or the error of its own fetch. The only other answer is
  "no change", for tipsets whose fetch failed in an earlier call: after a failed fetch every further call for the
  same tipsets answers so, without fetching again.\<close>

theorem matcher_cache_transparent:
  assumes "\<forall>call \<in> set calls. fetched states call"
  shows "(\<forall>i < length calls. answered changed states (failedFetches (take i calls)) (calls ! i) (runMatches changed calls newDealStateMatcher ! i)) \<and>
    (\<forall>mc oldTs newTs dealID e reps. (oldTsk mc, newTsk mc) \<noteq> (oldTs, newTs) \<longrightarrow>
       runMatches changed ((dealID, oldTs, newTs, Inl e) # map (\<lambda>(d, f). (d, oldTs, newTs, f)) reps) mc =
         (False, None, Some e) # replicate (length reps) (False, None, None))"
proof (intro conjI allI impI)
  fix i assume "i < length calls"
  then show "answered changed states (failedFetches (take i calls)) (calls ! i) (runMatches changed calls newDealStateMatcher ! i)"
    using runMatches_answered [of states "{}" newDealStateMatcher calls i changed] assms by (simp add: cacheOk_def newDealStateMatcher_def)
qed (auto simp: matcher_def dealDiff_def repeats_unchanged)

definition demo_changed :: "u64 list \<Rightarrow> u64 set \<Rightarrow> u64 set \<Rightarrow> matchAnswer" where
  "demo_changed ids old new =
     (if hd ids \<in> old \<and> hd ids \<notin> new then (True, Some (ChangedDeals [hd ids \<mapsto> \<lparr>chFrom = Some (1, -1), chTo = None\<rparr>]), None) else (False, None, None))"

definition demo_states :: "bytes \<Rightarrow> bytes \<Rightarrow> (u64 set \<times> u64 set) option" where
  "demo_states oldTs newTs = (if newTs = ''b'' then Some ({7, 8}, {8}) else None)"

theorem matcher_cache_transparent_witness:
  "runMatches demo_changed [(8, ''a'', ''b'', Inr (Some ({7, 8}, {8}))), (7, ''a'', ''b'', Inl ErrNotFound)] newDealStateMatcher ! 1 =
     uncached demo_changed 7 (Inr (demo_states ''a'' ''b''))"
proof -
  let ?calls = "[(8, ''a'', ''b'', Inr (Some ({7, 8}, {8}))), (7, ''a'', ''b'', Inl ErrNotFound)] :: u64 set matchCall list"
  have "\<forall>call \<in> set ?calls. fetched demo_states call" by (simp add: fetched_def demo_states_def)
  note transparent = conjunct1 [OF matcher_cache_transparent [OF this, of demo_changed], rule_format]
  have "answered demo_changed demo_states (failedFetches (take 1 ?calls)) (?calls ! 1) (runMatches demo_changed ?calls newDealStateMatcher ! 1)"
    by (rule transparent) simp
  moreover have "fst (runMatches demo_changed ?calls newDealStateMatcher ! 1)" by (simp add: matcher_def newDealStateMatcher_def dealDiff_def demo_changed_def)
  ultimately show ?thesis by (auto simp: answered_def failedFetches_def)
qed

section \<open>The end of a deal\<close>

text \<open>What the events service does with the closures of one deal: it checks, asks the matcher about two tipsets (other deals ask the
  same matcher), applies a change found earlier when the chain has gone on, gives up after the timeout, or reverts. A
  closure that wants no more is not called again.\<close>

datatype 'ds evCall =
    EvCheck "tipset option"
  | EvMatch bytes bytes "'ds found"
  | EvOther u64 bytes bytes "'ds found"
  | EvApply nat "tipset option"
  | EvTimeout "tipset option"
  | EvRevert

record 'ds watchState =
  wsMatcher :: "'ds dealStateMatcher"
  wsFound :: "stateChange list"
  wsReports :: "endReport list"
  wsListening :: bool

definition applyChange :: "MarketDeal \<Rightarrow> u64 \<Rightarrow> tipset option \<Rightarrow> stateChange option \<Rightarrow> 'ds watchState \<Rightarrow> 'ds watchState outcome" where
  "applyChange sd dealID ts2 states ws =
     (case endStateChanged sd dealID ts2 states (wsReports ws) of
        Panic m \<Rightarrow> Panic m
      | Ret (goesOn, rs) \<Rightarrow> Ret (ws\<lparr>wsReports := rs, wsListening := goesOn\<rparr>))"

fun watchStep :: "(u64 list \<Rightarrow> 'ds \<Rightarrow> 'ds \<Rightarrow> matchAnswer) \<Rightarrow> MarketDeal \<Rightarrow> u64 \<Rightarrow> 'ds evCall \<Rightarrow> 'ds watchState \<Rightarrow> 'ds watchState outcome" where
  "watchStep changed sd dealID (EvCheck ts) ws =
     (if \<not> wsListening ws then Ret ws
      else case endCheckFunc sd ts (wsReports ws) of ((finished, goesOn, err), rs) \<Rightarrow> Ret (ws\<lparr>wsReports := rs, wsListening := goesOn\<rparr>))"
| "watchStep changed sd dealID (EvMatch oldTs newTs found) ws =
     (if \<not> wsListening ws then Ret ws
      else case matcher changed dealID oldTs newTs found (wsMatcher ws) of
             ((True, Some ch, None), mc) \<Rightarrow> Ret (ws\<lparr>wsMatcher := mc, wsFound := wsFound ws @ [ch]\<rparr>)
           | (_, mc) \<Rightarrow> Ret (ws\<lparr>wsMatcher := mc\<rparr>))"
| "watchStep changed sd dealID (EvOther d oldTs newTs found) ws = Ret (ws\<lparr>wsMatcher := snd (matcher changed d oldTs newTs found (wsMatcher ws))\<rparr>)"
| "watchStep changed sd dealID (EvApply k ts2) ws =
     (if wsListening ws \<and> k < length (wsFound ws) then applyChange sd dealID ts2 (Some (wsFound ws ! k)) ws else Ret ws)"
| "watchStep changed sd dealID (EvTimeout ts2) ws = (if wsListening ws then applyChange sd dealID ts2 None ws else Ret ws)"
| "watchStep changed sd dealID EvRevert ws = Ret ws"

fun runWatch :: "(u64 list \<Rightarrow> 'ds \<Rightarrow> 'ds \<Rightarrow> matchAnswer) \<Rightarrow> MarketDeal \<Rightarrow> u64 \<Rightarrow> 'ds evCall list \<Rightarrow> 'ds watchState \<Rightarrow> 'ds watchState outcome" where
  "runWatch changed sd dealID [] ws = Ret ws"
| "runWatch changed sd dealID (ev # evs) ws =
     (case watchStep changed sd dealID ev ws of Panic m \<Rightarrow> Panic m | Ret ws' \<Rightarrow> runWatch changed sd dealID evs ws')"

definition newWatch :: "'ds dealStateMatcher \<Rightarrow> 'ds watchState" where
  "newWatch mc = \<lparr>wsMatcher = mc, wsFound = [], wsReports = [], wsListening = True\<rparr>"

text \<open>Fetches that succeed give the states of the tipsets; the predicate of the node library tells of each changed deal its state
  after the change.\<close>

fun evFetched :: "(bytes \<Rightarrow> bytes \<Rightarrow> ('ds \<times> 'ds) option) \<Rightarrow> 'ds evCall \<Rightarrow> bool" where
  "evFetched states (EvMatch oldTs newTs found) = fetched states (0, oldTs, newTs, found)"
| "evFetched states (EvOther d oldTs newTs found) = fetched states (d, oldTs, newTs, found)"
| "evFetched states _ = True"

definition tellsStates :: "(u64 list \<Rightarrow> 'ds \<Rightarrow> 'ds \<Rightarrow> matchAnswer) \<Rightarrow> ('ds \<Rightarrow> u64 \<Rightarrow> (int \<times> int) option) \<Rightarrow> u64 \<Rightarrow> bool" where
  "tellsStates changed stateOf d \<longleftrightarrow> (\<forall>old new ch. changed [d] old new = (True, Some ch, None) \<longrightarrow>
     (\<exists>m. ch = ChangedDeals m \<and> (\<forall>x. m d = Some x \<longrightarrow> chTo x = stateOf new d)))"

fun evTs :: "'ds evCall \<Rightarrow> tipset option set" where
  "evTs (EvCheck ts) = (if ts = None then {} else {ts})"
| "evTs (EvApply k ts) = {ts}"
| "evTs (EvTimeout ts) = {ts}"
| "evTs _ = {}"

text \<open>The deal is gone from the states of a tipset that the service asked about.\<close>

definition goneIn :: "(bytes \<Rightarrow> bytes \<Rightarrow> ('ds \<times> 'ds) option) \<Rightarrow> ('ds \<Rightarrow> u64 \<Rightarrow> (int \<times> int) option) \<Rightarrow> u64 \<Rightarrow> 'ds evCall set \<Rightarrow> bool" where
  "goneIn states stateOf d E \<longleftrightarrow> (\<exists>oldTs newTs found old new. EvMatch oldTs newTs found \<in> E \<and> states oldTs newTs = Some (old, new) \<and> stateOf new d = None)"

definition justified :: "(bytes \<Rightarrow> bytes \<Rightarrow> ('ds \<times> 'ds) option) \<Rightarrow> ('ds \<Rightarrow> u64 \<Rightarrow> (int \<times> int) option) \<Rightarrow> MarketDeal \<Rightarrow> u64 \<Rightarrow> 'ds evCall set \<Rightarrow> endReport \<Rightarrow> bool" where
  "justified states stateOf sd d E r = (case r of
     DealExpired \<Rightarrow> \<exists>ev \<in> E. None \<in> evTs ev \<or> (\<exists>t. Some t \<in> evTs ev \<and> EndEpoch (mkProposal sd) \<le> snd t)
   | DealSlashed h \<Rightarrow> h < EndEpoch (mkProposal sd) \<and> (\<exists>ev \<in> E. \<exists>key. Some (key, h) \<in> evTs ev) \<and>
       (mkSectorStartEpoch sd < 0 \<or> goneIn states stateOf d E))"

definition watchInv where
  "watchInv states stateOf sd d E ws \<longleftrightarrow> (\<exists>F. cacheOk states F (wsMatcher ws)) \<and>
     (\<forall>ch \<in> set (wsFound ws). \<exists>m. ch = ChangedDeals m \<and> (\<forall>x. m d = Some x \<longrightarrow> chTo x = None \<longrightarrow> goneIn states stateOf d E)) \<and>
     (\<forall>r \<in> set (wsReports ws). justified states stateOf sd d E r) \<and> length (wsReports ws) \<le> (if wsListening ws then 0 else 1)"

lemma match_inv:
  assumes inv: "watchInv states stateOf sd d E ws" and ev: "EvMatch oldTs newTs found \<in> E" "fetched states (0, oldTs, newTs, found)"
    and tells: "tellsStates changed stateOf d" and m: "matcher changed d oldTs newTs found (wsMatcher ws) = ((True, Some ch, None), mc)"
  shows "\<exists>g. ch = ChangedDeals g \<and> (\<forall>x. g d = Some x \<longrightarrow> chTo x = None \<longrightarrow> goneIn states stateOf d E)"
proof -
  obtain F where "cacheOk states F (wsMatcher ws)" using inv by (auto simp: watchInv_def)
  moreover have "fetched states (d, oldTs, newTs, found)" using ev(2) by (simp add: fetched_def)
  ultimately have "answered changed states F (d, oldTs, newTs, found) (True, Some ch, None)" using m by (rule matcher_step)
  then obtain old new where st: "states oldTs newTs = Some (old, new)" "changed [d] old new = (True, Some ch, None)"
    by (auto simp: answered_def uncached_def dealDiff_def split: option.splits)
  obtain g where g: "ch = ChangedDeals g" "\<forall>x. g d = Some x \<longrightarrow> chTo x = stateOf new d" using tells st(2) unfolding tellsStates_def by blast
  then show ?thesis using ev(1) st(1) unfolding goneIn_def by metis
qed

lemma matcher_cache_inv:
  assumes "\<exists>F. cacheOk states F mc" "fetched states (d, oldTs, newTs, found)"
  shows "\<exists>F. cacheOk states F (snd (matcher changed d' oldTs newTs found mc))"
proof -
  obtain F answer mc' where h: "cacheOk states F mc" "matcher changed d' oldTs newTs found mc = (answer, mc')"
    using assms(1) by (cases "matcher changed d' oldTs newTs found mc") auto
  have "fetched states (d', oldTs, newTs, found)" using assms(2) by (simp add: fetched_def)
  from matcher_step(2) [OF h(1) this h(2)] show ?thesis using h(2) by auto
qed

lemma watchInv_report:
  "watchInv states stateOf sd d E ws \<Longrightarrow> wsReports ws = [] \<Longrightarrow> justified states stateOf sd d E r \<Longrightarrow>
    watchInv states stateOf sd d E (ws\<lparr>wsReports := [r], wsListening := False\<rparr>)"
  by (simp add: watchInv_def)

lemma watchInv_more:
  "watchInv states stateOf sd d E ws \<Longrightarrow> wsReports ws = [] \<Longrightarrow> watchInv states stateOf sd d E (ws\<lparr>wsReports := [], wsListening := b\<rparr>)"
  by (simp add: watchInv_def)

lemma applyChange_inv:
  assumes inv: "watchInv states stateOf sd d E ws" and l: "wsListening ws" and ev: "ev \<in> E" "ts2 \<in> evTs ev"
    and st: "\<And>ch. st = Some ch \<Longrightarrow> ch \<in> set (wsFound ws)"
  shows "\<exists>ws'. applyChange sd d ts2 st ws = Ret ws' \<and> watchInv states stateOf sd d E ws'"
proof -
  have rs: "wsReports ws = []" using inv l by (simp add: watchInv_def)
  have f: "\<exists>g. ch = ChangedDeals g \<and> (\<forall>x. g d = Some x \<longrightarrow> chTo x = None \<longrightarrow> goneIn states stateOf d E)" if "st = Some ch" for ch
    using inv st [OF that] by (simp add: watchInv_def)
  have e: "justified states stateOf sd d E DealExpired" if "ts2 = None \<or> (\<exists>t. ts2 = Some t \<and> EndEpoch (mkProposal sd) \<le> snd t)"
    using that ev by (cases ts2) (force simp: justified_def)+
  have sl: "justified states stateOf sd d E (DealSlashed (snd t))" if "ts2 = Some t" "\<not> EndEpoch (mkProposal sd) \<le> snd t" "goneIn states stateOf d E" for t
    using that ev by (cases t) (auto simp: justified_def)
  note simps = applyChange_def endStateChanged_def rs
  consider "ts2 = None \<or> (\<exists>t. ts2 = Some t \<and> EndEpoch (mkProposal sd) \<le> snd t)"
    | t where "ts2 = Some t" "\<not> EndEpoch (mkProposal sd) \<le> snd t" by (cases ts2) auto
  then show ?thesis
  proof cases
    case 1
    then show ?thesis using watchInv_report [OF inv rs e] by (auto simp: simps)
  next
    case (2 t)
    show ?thesis
    proof (cases st)
      case None
      then show ?thesis using 2 watchInv_more [OF inv rs] by (simp add: simps)
    next
      case (Some ch)
      then obtain g where g: "ch = ChangedDeals g" "\<forall>x. g d = Some x \<longrightarrow> chTo x = None \<longrightarrow> goneIn states stateOf d E" using f by blast
      then show ?thesis using 2 Some watchInv_more [OF inv rs] watchInv_report [OF inv rs sl [OF 2]]
        by (cases "g d") (auto simp: simps)
    qed
  qed
qed

lemma watchStep_inv:
  assumes inv: "watchInv states stateOf sd d E ws" and ev: "ev \<in> E" "evFetched states ev" and tells: "tellsStates changed stateOf d"
  shows "\<exists>ws'. watchStep changed sd d ev ws = Ret ws' \<and> watchInv states stateOf sd d E ws'"
proof (cases ev)
  case (EvCheck ts)
  show ?thesis
  proof (cases "wsListening ws \<and> ts \<noteq> None")
    case True
    then obtain t where t: "ts = Some t" "wsReports ws = []" "wsListening ws" using inv by (auto simp: watchInv_def)
    have "justified states stateOf sd d E DealExpired" if "EndEpoch (mkProposal sd) \<le> snd t"
      using that ev(1) EvCheck t(1) by (cases t) (force simp: justified_def)
    moreover have "justified states stateOf sd d E (DealSlashed (snd t))" if "\<not> EndEpoch (mkProposal sd) \<le> snd t" "mkSectorStartEpoch sd < 0"
      using that ev(1) EvCheck t(1) by (cases t) (force simp: justified_def)
    ultimately show ?thesis
      using EvCheck t inv watchInv_report [OF inv t(2)] by (simp add: endCheckFunc_def watchInv_more)
  next
    case False
    then consider "\<not> wsListening ws" | "wsListening ws" "ts = None" "wsReports ws = []"
      using inv by (cases ts) (auto simp: watchInv_def split: if_splits)
    then show ?thesis using inv EvCheck watchInv_more [OF inv] by cases (simp_all add: endCheckFunc_def)
  qed
next
  case (EvMatch oldTs newTs found)
  show ?thesis
  proof (cases "wsListening ws")
    case True
    obtain answer mc where m: "matcher changed d oldTs newTs found (wsMatcher ws) = (answer, mc)"
      by (cases "matcher changed d oldTs newTs found (wsMatcher ws)")
    have mc: "\<exists>F. cacheOk states F mc"
      using matcher_cache_inv [of states "wsMatcher ws" 0 oldTs newTs found changed d] inv ev(2) EvMatch m by (simp add: watchInv_def)
    show ?thesis
    proof (cases "\<exists>ch. answer = (True, Some ch, None)")
      case True
      then obtain ch where ch: "answer = (True, Some ch, None)" ..
      have "\<exists>g. ch = ChangedDeals g \<and> (\<forall>x. g d = Some x \<longrightarrow> chTo x = None \<longrightarrow> goneIn states stateOf d E)"
        using match_inv [OF inv _ _ tells] ev EvMatch m ch by simp
      then show ?thesis using inv mc m ch EvMatch \<open>wsListening ws\<close> by (simp add: watchInv_def)
    next
      case False
      obtain b x err where a: "answer = (b, x, err)" by (cases answer)
      then have "watchStep changed sd d ev ws = Ret (ws\<lparr>wsMatcher := mc\<rparr>)"
        using False m EvMatch \<open>wsListening ws\<close> by (auto split: bool.split option.split)
      then show ?thesis using inv mc by (simp add: watchInv_def)
    qed
  qed (use inv EvMatch in auto)
next
  case (EvOther d' oldTs newTs found)
  then show ?thesis using inv ev(2) matcher_cache_inv [of states "wsMatcher ws" d' oldTs newTs found changed d'] by (simp add: watchInv_def)
next
  case (EvApply k ts2)
  then show ?thesis using applyChange_inv [OF inv _ ev(1), of ts2 "Some (wsFound ws ! k)"] inv by auto
next
  case (EvTimeout ts2)
  then show ?thesis using applyChange_inv [OF inv _ ev(1), of ts2 None] inv by auto
qed (use inv in simp)

lemma runWatch_inv:
  assumes "watchInv states stateOf sd d E ws" "set evs \<subseteq> E" "\<forall>ev \<in> set evs. evFetched states ev" "tellsStates changed stateOf d"
  shows "\<exists>ws'. runWatch changed sd d evs ws = Ret ws' \<and> watchInv states stateOf sd d E ws'"
  using assms
proof (induction evs arbitrary: ws)
  case (Cons ev evs)
  obtain ws1 where "watchStep changed sd d ev ws = Ret ws1" "watchInv states stateOf sd d E ws1"
    using watchStep_inv [OF Cons.prems(1) _ _ Cons.prems(4), of ev] Cons.prems(2,3) by auto
  then show ?case using Cons.IH [of ws1] Cons.prems by simp
qed auto

text \<open>Property C26. Following a deal to its end, over every sequence of calls of the events service and with other deals asking the
  shared matcher in between: the closures never panic, at most one report is made and nothing is listened to after
  it. Expiry is reported only at the end epoch or after the timeout; a slashing only before the end epoch, at the
  height of a tipset the service reached, and only if the deal was not in a sector when the client looked it up or its
  state is gone from the states of tipsets the service compared.\<close>

theorem deal_end_reported:
  assumes "\<forall>ev \<in> set evs. evFetched states ev" "tellsStates changed stateOf dealID"
  shows "\<exists>ws. runWatch changed sd dealID evs (newWatch newDealStateMatcher) = Ret ws \<and> length (wsReports ws) \<le> 1 \<and>
    (wsReports ws \<noteq> [] \<longrightarrow> \<not> wsListening ws) \<and> (\<forall>r \<in> set (wsReports ws). justified states stateOf sd dealID (set evs) r)"
proof -
  have "watchInv states stateOf sd dealID (set evs) (newWatch newDealStateMatcher)"
    by (auto simp: watchInv_def newWatch_def cacheOk_def newDealStateMatcher_def)
  from runWatch_inv [OF this _ assms] obtain ws where
    "runWatch changed sd dealID evs (newWatch newDealStateMatcher) = Ret ws" "watchInv states stateOf sd dealID (set evs) ws" by blast
  then show ?thesis by (auto simp: watchInv_def split: if_splits)
qed

definition demo_market_deal :: MarketDeal where
  "demo_market_deal = \<lparr>mkProposal = (demo_prop 128)\<lparr>EndEpoch := 100\<rparr>, mkSectorStartEpoch = 3, mkSlashEpoch = -1\<rparr>"

definition demo_events :: "u64 set evCall list" where
  "demo_events = [EvCheck (Some (''a'', 10)), EvOther 8 ''a'' ''b'' (Inr (Some ({7, 8}, {8}))), EvMatch ''a'' ''b'' (Inr (Some ({7, 8}, {8}))),
     EvApply 0 (Some (''c'', 20))]"

lemma demo_watch:
  "runWatch demo_changed demo_market_deal 7 demo_events (newWatch newDealStateMatcher) =
     Ret \<lparr>wsMatcher = \<lparr>oldTsk = ''a'', newTsk = ''b'', oldDealStateRoot = Some {7, 8}, newDealStateRoot = Some {8}\<rparr>,
       wsFound = [ChangedDeals [7 \<mapsto> \<lparr>chFrom = Some (1, -1), chTo = None\<rparr>]], wsReports = [DealSlashed 20], wsListening = False\<rparr>"
  by (simp add: demo_events_def newWatch_def newDealStateMatcher_def endCheckFunc_def demo_market_deal_def matcher_def dealDiff_def
      demo_changed_def applyChange_def endStateChanged_def)

theorem deal_end_reported_witness:
  "\<exists>ws. runWatch demo_changed demo_market_deal 7 demo_events (newWatch newDealStateMatcher) = Ret ws \<and> wsReports ws = [DealSlashed 20] \<and>
     justified demo_states (\<lambda>s d. if d \<in> s then Some (1, -1) else None) demo_market_deal 7 (set demo_events) (DealSlashed 20)"
proof -
  have "\<forall>ev \<in> set demo_events. evFetched demo_states ev" by (simp add: demo_events_def fetched_def demo_states_def)
  moreover have "tellsStates demo_changed (\<lambda>s d. if d \<in> s then Some (1, -1) else None) 7"
    by (auto simp: tellsStates_def demo_changed_def split: if_splits)
  ultimately show ?thesis using deal_end_reported [of demo_events demo_states demo_changed _ 7 demo_market_deal] demo_watch by fastforce
qed

end
