(* ===== verification/Import_Manager.thy ===== *)
theory Import_Manager
  imports Datastore
begin

text \<open>
  The imports of the client: \<open>src/imports/manager.go\<close>. An import is a set of labels under its identifier in a datastore; data
  that the client packs itself goes into a CAR file allocated for the import. Time counter, files, JSON and the parsing
  of numbers and CIDs are the record \<open>importEnv\<close>; \<open>imKeys\<close> is the query for keys, in which an entry with an error has the
  empty key. What the manager relies on is the locale \<open>import_store\<close>.
\<close>

section \<open>Data\<close>

text \<open>The labels of an import; \<open>None\<close> is the nil map, which panics when it is written.\<close>

record Meta =
  Labels :: "(string \<rightharpoonup> string) option"

record ('s, 'v) importEnv =
  imDs :: "('s, 'v) datastore_ops"
  imKeys :: "'s \<Rightarrow> string list res"
  imJson :: "(Meta, 'v) codec_ops"
  FormatUint :: "u64 \<Rightarrow> string"
  ParseUint :: "string \<Rightarrow> u64 res"
  cidParse :: "string \<Rightarrow> cid res"
  joinRoot :: "string \<Rightarrow> string"
  osCreate :: "string \<Rightarrow> error option"
  fileClose :: "error option"
  osStat :: "string \<Rightarrow> error option"

record 's importMgr =
  imStore :: 's
  imFiles :: "string list"

definition LSource :: string where "LSource = ''source''"

definition LRootCid :: string where "LRootCid = ''root''"

definition LCARPath :: string where "LCARPath = ''car_path''"

definition LCAROwner :: string where "LCAROwner = ''car_owner''"

definition CAROwnerImportMgr :: string where "CAROwnerImportMgr = ''importmgr''"

lemmas label_defs = LSource_def LRootCid_def LCARPath_def LCAROwner_def CAROwnerImportMgr_def

text \<open>Reading a map: the nil map has no labels, a missing label is the empty string.\<close>

definition labelOf :: "Meta \<Rightarrow> string \<Rightarrow> string" where
  "labelOf m k = (case Labels m of None \<Rightarrow> [] | Some f \<Rightarrow> (case f k of None \<Rightarrow> [] | Some v \<Rightarrow> v))"

definition DsKey :: "('s, 'v) importEnv \<Rightarrow> u64 \<Rightarrow> ds_key" where
  "DsKey env i = [FormatUint env i]"

section \<open>Operations\<close>

definition CreateImport :: "('s, 'v) importEnv \<Rightarrow> u64 \<Rightarrow> 's importMgr \<Rightarrow> 's importMgr \<times> u64 res" where
  "CreateImport env next m =
     (case Dump (imJson env) \<lparr>Labels = Some [LSource \<mapsto> ''unknown'']\<rparr> of
        Inl e \<Rightarrow> (m, Inl (ErrWrap ''marshaling store metadata'' e))
      | Inr metajson \<Rightarrow>
          (case dsPut (imDs env) (imStore m) (DsKey env next) metajson of
             (s, Some e) \<Rightarrow> (m\<lparr>imStore := s\<rparr>, Inl (ErrWrap ''failed to insert import metadata'' e))
           | (s, None) \<Rightarrow> (m\<lparr>imStore := s\<rparr>, Inr next)))"

definition Info :: "('s, 'v) importEnv \<Rightarrow> 's importMgr \<Rightarrow> u64 \<Rightarrow> Meta res" where
  "Info env m i =
     (case dsGet (imDs env) (imStore m) (DsKey env i) of
        Inl e \<Rightarrow> Inl (ErrWrap ''getting metadata form datastore'' e)
      | Inr meta \<Rightarrow>
          (case Load (imJson env) meta of
             Inl e \<Rightarrow> Inl (ErrWrap ''unmarshaling store meta'' e)
           | Inr sm \<Rightarrow> Inr sm))"

text \<open>Writing labels back: the end of \<open>AllocateCAR\<close> and \<open>AddLabel\<close>.\<close>

definition putMeta :: "('s, 'v) importEnv \<Rightarrow> u64 \<Rightarrow> Meta \<Rightarrow> 's importMgr \<Rightarrow> 's importMgr \<times> error option" where
  "putMeta env i sm m =
     (case Dump (imJson env) sm of
        Inl e \<Rightarrow> (m, Some (ErrWrap ''marshaling store metadata'' e))
      | Inr meta \<Rightarrow> (case dsPut (imDs env) (imStore m) (DsKey env i) meta of (s, err) \<Rightarrow> (m\<lparr>imStore := s\<rparr>, err)))"

definition carPath :: "('s, 'v) importEnv \<Rightarrow> u64 \<Rightarrow> string" where
  "carPath env i = joinRoot env (FormatUint env i @ ''.car'')"

definition AllocateCAR :: "('s, 'v) importEnv \<Rightarrow> u64 \<Rightarrow> 's importMgr \<Rightarrow> ('s importMgr \<times> string \<times> error option) outcome" where
  "AllocateCAR env i m =
     (case Info env m i of
        Inl e \<Rightarrow> Ret (m, [], Some e)
      | Inr sm \<Rightarrow>
          if labelOf sm LCARPath \<noteq> [] then Ret (m, [], Some (ErrMsg ''import CAR already exists''))
          else
            (let path = carPath env i in
             case osCreate env path of
               Some e \<Rightarrow> Ret (m, [], Some (ErrWrap ''failed to create car file for import'' e))
             | None \<Rightarrow>
                 (let m1 = m\<lparr>imFiles := imFiles m @ [path]\<rparr> in
                  case fileClose env of
                    Some e \<Rightarrow> Ret (m1, [], Some (ErrWrap ''failed to close temp file'' e))
                  | None \<Rightarrow>
                      (case Labels sm of
                         None \<Rightarrow> Panic ''assignment to entry in nil map''
                       | Some f \<Rightarrow>
                           (case Dump (imJson env) (sm\<lparr>Labels := Some (f(LCARPath \<mapsto> path, LCAROwner \<mapsto> CAROwnerImportMgr))\<rparr>) of
                              Inl e \<Rightarrow> Ret (m1, [], Some (ErrWrap ''marshaling store metadata'' e))
                            | Inr meta \<Rightarrow>
                                (case dsPut (imDs env) (imStore m1) (DsKey env i) meta of
                                   (s, err) \<Rightarrow> Ret (m1\<lparr>imStore := s\<rparr>, path, err)))))))"

definition AddLabel :: "('s, 'v) importEnv \<Rightarrow> u64 \<Rightarrow> string \<Rightarrow> string \<Rightarrow> 's importMgr \<Rightarrow> ('s importMgr \<times> error option) outcome" where
  "AddLabel env i key v m =
     (case Info env m i of
        Inl e \<Rightarrow> Ret (m, Some e)
      | Inr sm \<Rightarrow>
          (case Labels sm of
             None \<Rightarrow> Panic ''assignment to entry in nil map''
           | Some f \<Rightarrow> Ret (putMeta env i (sm\<lparr>Labels := Some (f(key \<mapsto> v))\<rparr>) m)))"

fun listLoop :: "('s, 'v) importEnv \<Rightarrow> string list \<Rightarrow> u64 list \<Rightarrow> u64 list res outcome" where
  "listLoop env [] keys = Ret (Inr keys)"
| "listLoop env (k # ks) keys =
     (case k of
        [] \<Rightarrow> Panic ''index out of range''
      | ch # rest \<Rightarrow>
          (case ParseUint env (if ch = CHR ''/'' then rest else k) of
             Inl e \<Rightarrow> Ret (Inl (ErrWrap ''failed to parse key to uint64'' e))
           | Inr i \<Rightarrow> listLoop env ks (keys @ [i])))"

definition ListImports :: "('s, 'v) importEnv \<Rightarrow> 's importMgr \<Rightarrow> u64 list res outcome" where
  "ListImports env m =
     (case imKeys env (imStore m) of
        Inl e \<Rightarrow> Ret (Inl (ErrWrap ''query error'' e))
      | Inr ks \<Rightarrow> listLoop env ks [])"

definition Remove :: "('s, 'v) importEnv \<Rightarrow> u64 \<Rightarrow> 's importMgr \<Rightarrow> 's importMgr \<times> error option" where
  "Remove env i m =
     (case dsDelete (imDs env) (imStore m) (DsKey env i) of
        (s, Some e) \<Rightarrow> (m\<lparr>imStore := s\<rparr>, Some (ErrWrap ''removing import metadata'' e))
      | (s, None) \<Rightarrow> (m\<lparr>imStore := s\<rparr>, None))"

fun carPathLoop :: "('s, 'v) importEnv \<Rightarrow> 's importMgr \<Rightarrow> cid \<Rightarrow> u64 list \<Rightarrow> string" where
  "carPathLoop env m dagRoot [] = []"
| "carPathLoop env m dagRoot (i # ids) =
     (case Info env m i of
        Inl e \<Rightarrow> carPathLoop env m dagRoot ids
      | Inr info \<Rightarrow>
          if labelOf info LRootCid = [] then carPathLoop env m dagRoot ids
          else
            (case cidParse env (labelOf info LRootCid) of
               Inl e \<Rightarrow> carPathLoop env m dagRoot ids
             | Inr c \<Rightarrow> if c = dagRoot then labelOf info LCARPath else carPathLoop env m dagRoot ids))"

definition CARPathFor :: "('s, 'v) importEnv \<Rightarrow> 's importMgr \<Rightarrow> cid \<Rightarrow> string res outcome" where
  "CARPathFor env m dagRoot =
     (case ListImports env m of
        Panic p \<Rightarrow> Panic p
      | Ret (Inl e) \<Rightarrow> Ret (Inl (ErrWrap ''failed to fetch import IDs'' e))
      | Ret (Inr ids) \<Rightarrow> Ret (Inr (carPathLoop env m dagRoot ids)))"

text \<open>The sanity check of \<open>NewManager\<close> counts the broken imports; an import that cannot be read is skipped.\<close>

fun countBroken :: "('s, 'v) importEnv \<Rightarrow> 's importMgr \<Rightarrow> u64 list \<Rightarrow> nat" where
  "countBroken env m [] = 0"
| "countBroken env m (i # ids) =
     (case Info env m i of
        Inl e \<Rightarrow> countBroken env m ids
      | Inr info \<Rightarrow>
          (case Labels info of
             None \<Rightarrow> Suc (countBroken env m ids)
           | Some f \<Rightarrow>
               (case f LCARPath of
                  None \<Rightarrow> Suc (countBroken env m ids)
                | Some path \<Rightarrow> if osStat env path \<noteq> None then Suc (countBroken env m ids) else countBroken env m ids)))"

definition NewManager :: "('s, 'v) importEnv \<Rightarrow> 's \<Rightarrow> ('s importMgr \<times> nat) outcome" where
  "NewManager env s =
     (let m = \<lparr>imStore = s, imFiles = []\<rparr> in
      case ListImports env m of
        Panic p \<Rightarrow> Panic p
      | Ret (Inl e) \<Rightarrow> Ret (m, 0)
      | Ret (Inr ids) \<Rightarrow> Ret (m, countBroken env m ids))"

section \<open>Laws\<close>

definition keyName :: "ds_key \<Rightarrow> string" where
  "keyName k = concat (map (\<lambda>n. CHR ''/'' # n) k)"

text \<open>The labels of every import, and that only imports are stored.\<close>

definition metaOf :: "('s, 'v) importEnv \<Rightarrow> ('s \<Rightarrow> ds_key \<Rightarrow> 'v option) \<Rightarrow> 's importMgr \<Rightarrow> u64 \<Rightarrow> Meta option" where
  "metaOf env contents m i = (case contents (imStore m) (DsKey env i) of
     None \<Rightarrow> None
   | Some b \<Rightarrow> (case Load (imJson env) b of Inl _ \<Rightarrow> None | Inr sm \<Rightarrow> Some sm))"

definition onlyImports :: "('s, 'v) importEnv \<Rightarrow> ('s \<Rightarrow> ds_key \<Rightarrow> 'v option) \<Rightarrow> 's importMgr \<Rightarrow> bool" where
  "onlyImports env contents m \<longleftrightarrow> dom (contents (imStore m)) \<subseteq> range (DsKey env)"

text \<open>The datastore and JSON keep their laws, a query without failed entries names every key once, and formatted numbers are parsed.\<close>

locale import_store = datastore "imDs env" contents + codec "imJson env"
  for env :: "('s, 'v) importEnv" and contents :: "'s \<Rightarrow> ds_key \<Rightarrow> 'v option" +
  assumes keys_named: "imKeys env s = Inr ks \<Longrightarrow> [] \<notin> set ks \<Longrightarrow> set ks = keyName ` dom (contents s)"
    and parse_format: "ParseUint env (FormatUint env i) = Inr i"
begin

lemma DsKey_inj: "DsKey env i = DsKey env j \<longleftrightarrow> i = j"
  using parse_format by (auto simp: DsKey_def) (metis Inr_inject)

lemma Info_meta: "Info env m i = Inr sm \<Longrightarrow> metaOf env contents m i = Some sm"
  using get_value by (auto simp: Info_def metaOf_def split: sum.splits)

lemma put_meta:
  assumes "Dump (imJson env) sm = Inr b" "dsPut (imDs env) (imStore m) (DsKey env i) b = (s, None)"
  shows "metaOf env contents (m'\<lparr>imStore := s\<rparr>) = (metaOf env contents m)(i \<mapsto> sm)" "onlyImports env contents m \<Longrightarrow> onlyImports env contents (m'\<lparr>imStore := s\<rparr>)"
proof -
  note put = put_ok [OF assms(2)]
  show "metaOf env contents (m'\<lparr>imStore := s\<rparr>) = (metaOf env contents m)(i \<mapsto> sm)"
    using put load_dump [OF assms(1)] DsKey_inj by (simp add: metaOf_def fun_eq_iff)
  show "onlyImports env contents (m'\<lparr>imStore := s\<rparr>)" if "onlyImports env contents m"
    using that put by (simp add: onlyImports_def)
qed

lemma CreateImport_meta:
  assumes "CreateImport env i m = (m', Inr j)" "onlyImports env contents m"
  shows "j = i \<and> metaOf env contents m' = (metaOf env contents m)(i \<mapsto> \<lparr>Labels = Some [LSource \<mapsto> ''unknown'']\<rparr>) \<and> onlyImports env contents m'"
  using assms put_meta by (auto simp: CreateImport_def split: sum.splits prod.splits option.splits)

lemma AllocateCAR_meta:
  assumes "AllocateCAR env i m = Ret (m', path, None)" "metaOf env contents m i = Some \<lparr>Labels = Some f\<rparr>" "onlyImports env contents m"
  shows "path = carPath env i \<and> metaOf env contents m' = (metaOf env contents m)(i \<mapsto> \<lparr>Labels = Some (f(LCARPath \<mapsto> path, LCAROwner \<mapsto> CAROwnerImportMgr))\<rparr>) \<and>
    onlyImports env contents m' \<and> path \<in> set (imFiles m')"
proof -
  obtain sm where sm: "Info env m i = Inr sm" using assms(1) by (auto simp: AllocateCAR_def split: sum.splits)
  then have "sm = \<lparr>Labels = Some f\<rparr>" using Info_meta assms(2) by simp
  with sm assms(1,3) put_meta show ?thesis
    by (fastforce simp: AllocateCAR_def Let_def split: sum.splits prod.splits option.splits if_splits)
qed

lemma AddLabel_meta:
  assumes "AddLabel env i k v m = Ret (m', None)" "metaOf env contents m i = Some \<lparr>Labels = Some f\<rparr>" "onlyImports env contents m"
  shows "metaOf env contents m' = (metaOf env contents m)(i \<mapsto> \<lparr>Labels = Some (f(k \<mapsto> v))\<rparr>) \<and> onlyImports env contents m' \<and> imFiles m' = imFiles m"
proof -
  obtain sm where sm: "Info env m i = Inr sm" using assms(1) by (auto simp: AddLabel_def split: sum.splits)
  then have "sm = \<lparr>Labels = Some f\<rparr>" using Info_meta assms(2) by simp
  with sm assms(1,3) put_meta show ?thesis
    by (fastforce simp: AddLabel_def putMeta_def split: sum.splits prod.splits option.splits)
qed

lemma listLoop_ids:
  assumes "\<forall>k \<in> set ks. \<exists>i. k = keyName (DsKey env i)"
  shows "\<exists>ids. listLoop env ks acc = Ret (Inr (acc @ ids)) \<and> ks = map (\<lambda>i. keyName (DsKey env i)) ids"
  using assms
proof (induction ks arbitrary: acc)
  case (Cons k ks)
  then obtain i where i: "k = keyName (DsKey env i)" by auto
  from Cons.IH [of "acc @ [i]"] Cons.prems obtain ids where
    "listLoop env ks (acc @ [i]) = Ret (Inr (acc @ [i] @ ids))" "ks = map (\<lambda>i. keyName (DsKey env i)) ids" by auto
  then show ?case using i parse_format by (intro exI [of _ "i # ids"]) (simp add: keyName_def DsKey_def)
qed simp

lemma ListImports_ids:
  assumes "imKeys env (imStore m) = Inr ks" "[] \<notin> set ks" "onlyImports env contents m"
  shows "\<exists>ids. ListImports env m = Ret (Inr ids) \<and> set ids = {i. DsKey env i \<in> dom (contents (imStore m))}"
proof -
  have n: "keyName (DsKey env i) = keyName (DsKey env j) \<longleftrightarrow> i = j" for i j using DsKey_inj by (simp add: keyName_def DsKey_def)
  have s: "set ks = keyName ` dom (contents (imStore m))" using keys_named assms(1,2) .
  then have "\<forall>k \<in> set ks. \<exists>i. k = keyName (DsKey env i)" using assms(3) by (auto simp: onlyImports_def)
  from listLoop_ids [OF this, of "[]"] obtain ids where ids: "listLoop env ks [] = Ret (Inr ids)" "ks = map (\<lambda>i. keyName (DsKey env i)) ids" by auto
  have "i \<in> set ids \<longleftrightarrow> DsKey env i \<in> dom (contents (imStore m))" for i
  proof -
    have "i \<in> set ids \<longleftrightarrow> keyName (DsKey env i) \<in> set ks" using ids(2) n by auto
    also have "\<dots> \<longleftrightarrow> DsKey env i \<in> dom (contents (imStore m))"
      using s n assms(3) by (auto simp: onlyImports_def image_iff)
    finally show ?thesis .
  qed
  then show ?thesis using ids(1) assms(1) by (auto simp: ListImports_def)
qed

text \<open>The import \<open>i\<close> is found when it can be read and is the only one with its root.\<close>

lemma carPathLoop_found:
  assumes "i \<in> set ids" "Info env m i = Inr info" "labelOf info LRootCid \<noteq> []" "cidParse env (labelOf info LRootCid) = Inr c"
    and "\<And>j sm. j \<noteq> i \<Longrightarrow> metaOf env contents m j = Some sm \<Longrightarrow> cidParse env (labelOf sm LRootCid) \<noteq> Inr c"
  shows "carPathLoop env m c ids = labelOf info LCARPath"
  using assms(1)
proof (induction ids)
  case (Cons j ids)
  show ?case
  proof (cases "j = i")
    case False
    then have "i \<in> set ids" using Cons.prems by simp
    moreover have "carPathLoop env m c (j # ids) = carPathLoop env m c ids"
      using False assms(5) Info_meta by (auto split: sum.splits)
    ultimately show ?thesis using Cons.IH by simp
  qed (use assms in simp)
qed simp

lemma import_roundtrip:
  assumes inv: "onlyImports env contents m"
    and ops: "CreateImport env i m = (m1, Inr j)" "AllocateCAR env j m1 = Ret (m2, path, None)" "AddLabel env j LRootCid r m2 = Ret (m3, None)"
    and root: "r \<noteq> []" "cidParse env r = Inr c" "\<And>l sm. l \<noteq> i \<Longrightarrow> metaOf env contents m l = Some sm \<Longrightarrow> cidParse env (labelOf sm LRootCid) \<noteq> Inr c"
    and read: "imKeys env (imStore m3) = Inr ks" "[] \<notin> set ks" "Info env m3 i = Inr info"
    and path: "carPath env i \<noteq> []"
  shows "path = carPath env i \<and> path \<in> set (imFiles m3) \<and> CARPathFor env m3 c = Ret (Inr path) \<and>
    (\<forall>l. l \<noteq> i \<longrightarrow> metaOf env contents m3 l = metaOf env contents m l) \<and> AllocateCAR env i m3 = Ret (m3, [], Some (ErrMsg ''import CAR already exists''))"
proof -
  have 1: "j = i" "metaOf env contents m1 = (metaOf env contents m)(i \<mapsto> \<lparr>Labels = Some [LSource \<mapsto> ''unknown'']\<rparr>)" "onlyImports env contents m1"
    using CreateImport_meta [OF ops(1) inv] by simp_all
  let ?f = "[LSource \<mapsto> ''unknown'', LCARPath \<mapsto> path, LCAROwner \<mapsto> CAROwnerImportMgr]"
  have 2: "path = carPath env i" "metaOf env contents m2 = (metaOf env contents m1)(i \<mapsto> \<lparr>Labels = Some ?f\<rparr>)" "onlyImports env contents m2" "path \<in> set (imFiles m2)"
    using AllocateCAR_meta [of i m1 m2 path "[LSource \<mapsto> ''unknown'']"] ops(2) 1 by auto
  have 3: "metaOf env contents m3 = (metaOf env contents m2)(i \<mapsto> \<lparr>Labels = Some (?f(LRootCid \<mapsto> r))\<rparr>)" "onlyImports env contents m3" "imFiles m3 = imFiles m2"
    using AddLabel_meta [of i LRootCid r m2 m3 ?f] ops(3) 1(1) 2 by simp_all
  have others: "metaOf env contents m3 l = metaOf env contents m l" if "l \<noteq> i" for l using that 1(2) 2(2) 3(1) by simp
  have info: "info = \<lparr>Labels = Some (?f(LRootCid \<mapsto> r))\<rparr>" using Info_meta [OF read(3)] 3(1) by simp
  then have lab: "labelOf info LRootCid = r" "labelOf info LCARPath = path" by (simp_all add: labelOf_def label_defs)
  obtain ids where ids: "ListImports env m3 = Ret (Inr ids)" "set ids = {l. DsKey env l \<in> dom (contents (imStore m3))}"
    using ListImports_ids [OF read(1,2) 3(2)] by blast
  have "i \<in> set ids" using ids(2) Info_meta [OF read(3)] by (auto simp: metaOf_def split: option.splits)
  then have "carPathLoop env m3 c ids = path"
    using carPathLoop_found [OF _ read(3)] lab root others by simp
  then show ?thesis using 2 3(3) others ids(1) lab path read(3) by (simp add: CARPathFor_def AllocateCAR_def)
qed

end

section \<open>The imports in memory\<close>

definition map_imports :: "(u64 \<Rightarrow> string) \<Rightarrow> (string \<Rightarrow> u64 res) \<Rightarrow> ((ds_key \<times> Meta) list, Meta) importEnv" where
  "map_imports format parse = \<lparr>imDs = map_datastore, imKeys = (\<lambda>s. Inr (map keyName (remdups (map fst s)))), imJson = id_codec,
     FormatUint = format, ParseUint = parse, cidParse = Inr, joinRoot = (\<lambda>p. ''/imports/'' @ p), osCreate = (\<lambda>_. None), fileClose = None,
     osStat = (\<lambda>_. None)\<rparr>"

lemma map_imports_laws:
  assumes "\<And>i. parse (format i) = Inr i"
  shows "import_store (map_imports format parse) map_of"
proof (intro import_store.intro import_store_axioms.intro)
  let ?env = "map_imports format parse"
  show "datastore (imDs ?env) map_of" using mapds.datastore_axioms by (simp add: map_imports_def)
  show "codec (imJson ?env)" using idcd.codec_axioms by (simp add: map_imports_def)
  show "ParseUint ?env (FormatUint ?env i) = Inr i" for i using assms by (simp add: map_imports_def)
  fix s ks assume "imKeys ?env s = Inr ks"
  then have "ks = map keyName (remdups (map fst s))" by (simp add: map_imports_def)
  then show "set ks = keyName ` dom (map_of s)" by (simp add: dom_map_of_conv_image_fst)
qed

text \<open>Numbers in unary are enough for an instance.\<close>

definition unary :: "u64 \<Rightarrow> string" where
  "unary i = replicate (unat i) CHR ''1''"

definition unaryParse :: "string \<Rightarrow> u64 res" where
  "unaryParse s = Inr (of_nat (length s))"

interpretation memimports: import_store "map_imports unary unaryParse" map_of
  by (rule map_imports_laws) (simp add: unary_def unaryParse_def)

section \<open>Properties\<close>

text \<open>Property C40. An import that was created, given a CAR file and labelled with a root that no other import has is found again by that
  root: the path of its own file, which exists. The other imports are untouched, and no second file is allocated for
  the import.\<close>

theorem import_car_roundtrip:
  assumes "import_store env contents" "onlyImports env contents m"
    and "CreateImport env i m = (m1, Inr j)" "AllocateCAR env j m1 = Ret (m2, path, None)" "AddLabel env j LRootCid r m2 = Ret (m3, None)"
    and "r \<noteq> []" "cidParse env r = Inr c" "\<And>l sm. l \<noteq> i \<Longrightarrow> metaOf env contents m l = Some sm \<Longrightarrow> cidParse env (labelOf sm LRootCid) \<noteq> Inr c"
    and "imKeys env (imStore m3) = Inr ks" "[] \<notin> set ks" "Info env m3 i = Inr info" "carPath env i \<noteq> []"
  shows "path = carPath env i \<and> path \<in> set (imFiles m3) \<and> CARPathFor env m3 c = Ret (Inr path) \<and>
    (\<forall>l. l \<noteq> i \<longrightarrow> metaOf env contents m3 l = metaOf env contents m l) \<and>
    AllocateCAR env i m3 = Ret (m3, [], Some (ErrMsg ''import CAR already exists''))"
  using assms by (rule import_store.import_roundtrip)

definition demo_imports :: "((ds_key \<times> Meta) list, Meta) importEnv" where
  "demo_imports = map_imports unary unaryParse"

definition demo_mgr :: "(ds_key \<times> Meta) list importMgr" where
  "demo_mgr = \<lparr>imStore = [], imFiles = []\<rparr>"

theorem import_car_roundtrip_witness:
  "\<exists>m1 m2 m3. CreateImport demo_imports 2 demo_mgr = (m1, Inr 2) \<and> AllocateCAR demo_imports 2 m1 = Ret (m2, ''/imports/11.car'', None) \<and>
     AddLabel demo_imports 2 LRootCid ''bafy'' m2 = Ret (m3, None) \<and> CARPathFor demo_imports m3 ''bafy'' = Ret (Inr ''/imports/11.car'')"
proof -
  let ?f = "[LSource \<mapsto> ''unknown'']" and ?p = "''/imports/11.car''"
  have u: "unary 2 = ''11''" by (simp add: unary_def) (simp add: numeral_2_eq_2)
  define m1 where "m1 = demo_mgr\<lparr>imStore := [([''11''], \<lparr>Labels = Some ?f\<rparr>)]\<rparr>"
  define m2 where "m2 = \<lparr>imStore = [([''11''], \<lparr>Labels = Some (?f(LCARPath \<mapsto> ?p, LCAROwner \<mapsto> CAROwnerImportMgr))\<rparr>)], imFiles = [?p]\<rparr>"
  define m3 where "m3 = m2\<lparr>imStore := [([''11''], \<lparr>Labels = Some (?f(LCARPath \<mapsto> ?p, LCAROwner \<mapsto> CAROwnerImportMgr, LRootCid \<mapsto> ''bafy''))\<rparr>)]\<rparr>"
  note defs = demo_imports_def map_imports_def demo_mgr_def DsKey_def u m1_def m2_def m3_def
  have c: "CreateImport demo_imports 2 demo_mgr = (m1, Inr 2)" by (simp add: CreateImport_def defs)
  have a: "AllocateCAR demo_imports 2 m1 = Ret (m2, ?p, None)"
    by (simp add: AllocateCAR_def Info_def labelOf_def carPath_def Let_def defs) (simp add: label_defs)
  have l: "AddLabel demo_imports 2 LRootCid ''bafy'' m2 = Ret (m3, None)" by (simp add: AddLabel_def Info_def putMeta_def defs)
  have "CARPathFor demo_imports m3 ''bafy'' = Ret (Inr ?p)"
    using import_car_roundtrip [of demo_imports map_of demo_mgr 2 m1 2 m2 ?p "''bafy''" m3 "''bafy''" "[''/11'']"] c a l
      memimports.import_store_axioms
    by (simp add: onlyImports_def metaOf_def Info_def carPath_def keyName_def defs)
  then show ?thesis using c a l by blast
qed

text \<open>An entry of the query that carries an error has an empty key: listing the imports, and with it the start of the manager and every
  lookup of a path, panics on it. An import that cannot be read is passed over: its root is reported as having no
  file, without an error.\<close>

theorem failed_entry_panics:
  "imKeys env (imStore m) = Inr ([] # ks) \<Longrightarrow> CARPathFor env m c = Panic ''index out of range''"
  by (simp add: CARPathFor_def ListImports_def)

theorem unreadable_import_hidden:
  "ListImports env m = Ret (Inr [i]) \<Longrightarrow> Info env m i = Inl e \<Longrightarrow> CARPathFor env m c = Ret (Inr [])"
  by (simp add: CARPathFor_def)

end
