(* ===== verification/Paych_Settler.thy ===== *)
theory Paych_Settler
  imports Paych_Manager_Props Message_Client
begin

text \<open>
  Settling of inbound payment channels: \<open>src/paychmgr/settler/settler.go\<close> over the manager, \<open>src/paychmgr/settler/stl.go\<close>. When a settle
  message of a tracked inbound channel is on chain, the best spendable voucher of every lane is submitted, so that it
  counts before the channel is collected. The order in which the lanes are visited is that of a Go map, \<open>order\<close>.
  Submitted messages are waited for in goroutines; \<open>wait\<close> is what \<open>WaitMsg\<close> returns.
\<close>

section \<open>The manager as the settler sees it\<close>

definition PaychList :: "'r PaychRepo \<Rightarrow> 'r Manager \<Rightarrow> address list res" where
  "PaychList repo pm = ListChannels repo pm"

record channelStatus =
  csControlAddr :: address
  csDirection :: Dir

definition PaychStatus :: "'r PaychRepo \<Rightarrow> 'r Manager \<Rightarrow> address \<Rightarrow> channelStatus res \<times> 'r Manager" where
  "PaychStatus repo pm pch =
     (case GetChannelInfo repo pm pch of
        (Inl e, pm1) \<Rightarrow> (Inl e, pm1)
      | (Inr ci, pm1) \<Rightarrow> (Inr \<lparr>csControlAddr = Control ci, csDirection = Direction ci\<rparr>, pm1))"

definition PaychVoucherCheckSpendable :: "paychAPI \<Rightarrow> 'r PaychRepo \<Rightarrow> 'r Manager \<Rightarrow> address \<Rightarrow> SignedVoucher \<Rightarrow> bool res \<times> 'r Manager" where
  "PaychVoucherCheckSpendable api repo pm ch sv = CheckVoucherSpendable api repo pm ch sv [] []"

definition PaychVoucherList :: "'r PaychRepo \<Rightarrow> 'r Manager \<Rightarrow> address \<Rightarrow> SignedVoucher list res \<times> 'r Manager" where
  "PaychVoucherList repo pm pch =
     (case ListVouchers repo pm pch of
        (Inl e, pm1) \<Rightarrow> (Inl e, pm1)
      | (Inr vi, pm1) \<Rightarrow> (Inr (map Voucher vi), pm1))"

definition PaychVoucherSubmit :: "paychAPI \<Rightarrow> 'r PaychRepo \<Rightarrow> 'r Manager \<Rightarrow> address \<Rightarrow> SignedVoucher \<Rightarrow> cid res \<times> 'r Manager" where
  "PaychVoucherSubmit api repo pm ch sv = SubmitVoucher api repo pm ch sv [] []"

section \<open>The settler\<close>

fun matchTracked :: "'r PaychRepo \<Rightarrow> address \<Rightarrow> address list \<Rightarrow> 'r Manager \<Rightarrow> bool res \<times> 'r Manager" where
  "matchTracked repo to [] pm = (Inr False, pm)"
| "matchTracked repo to (addr # addrs) pm =
     (if to = addr then
        (case PaychStatus repo pm addr of
           (Inl e, pm1) \<Rightarrow> (Inl e, pm1)
         | (Inr status, pm1) \<Rightarrow> if csDirection status = DirInbound then (Inr True, pm1) else matchTracked repo to addrs pm1)
      else matchTracked repo to addrs pm)"

definition settleMatcher :: "'r PaychRepo \<Rightarrow> nat \<Rightarrow> Message \<Rightarrow> 'r Manager \<Rightarrow> bool res \<times> 'r Manager" where
  "settleMatcher repo methodSettle msg pm =
     (if msgMethod msg \<noteq> methodSettle then (Inr False, pm)
      else
        (case PaychList repo pm of
           Inl e \<Rightarrow> (Inl e, pm)
         | Inr trackedAddresses \<Rightarrow> matchTracked repo (msgTo msg) trackedAddresses pm))"

text \<open>The loop over the best vouchers; a message that was submitted is waited for by a goroutine.\<close>

fun submitAll :: "paychAPI \<Rightarrow> 'r PaychRepo \<Rightarrow> address \<Rightarrow> SignedVoucher list \<Rightarrow> cid list \<Rightarrow> 'r Manager \<Rightarrow> error option \<times> cid list \<times> 'r Manager" where
  "submitAll api repo ch [] waits pm = (None, waits, pm)"
| "submitAll api repo ch (voucher # vouchers) waits pm =
     (case PaychVoucherSubmit api repo pm ch voucher of
        (Inl e, pm1) \<Rightarrow> (Some e, waits, pm1)
      | (Inr c, pm1) \<Rightarrow> submitAll api repo ch vouchers (waits @ [c]) pm1)"

text \<open>After an error the handler returns and its goroutines go on; otherwise it waits for them. A goroutine reads the receipt of
  the lookup also when waiting failed and there is none.\<close>

definition messageHandler :: "paychAPI \<Rightarrow> 'r PaychRepo \<Rightarrow> ((u64 \<rightharpoonup> SignedVoucher) \<Rightarrow> u64 list) \<Rightarrow> (cid \<Rightarrow> MsgLookup res) \<Rightarrow> Message \<Rightarrow> MessageReceipt \<Rightarrow>
    'r Manager \<Rightarrow> ((bool \<times> error option) \<times> cid list \<times> 'r Manager) outcome" where
  "messageHandler api repo order wait msg rec pm =
     (if ExitCode rec \<noteq> 0 then Ret ((True, None), [], pm)
      else
        (case PaychVoucherList repo pm (msgTo msg) of
           (vouchers, pm1) \<Rightarrow>
             (case BestSpendableByLane vouchers (\<lambda>sv. fst (PaychVoucherCheckSpendable api repo pm1 (msgTo msg) sv)) of
                Inl e \<Rightarrow> Ret ((True, Some e), [], pm1)
              | Inr bestByLane \<Rightarrow>
                  (case submitAll api repo (msgTo msg) (map (\<lambda>lane. the (bestByLane lane)) (order bestByLane)) [] pm1 of
                     (Some e, waits, pm2) \<Rightarrow> Ret ((True, Some e), waits, pm2)
                   | (None, waits, pm2) \<Rightarrow>
                       if list_ex (\<lambda>c. isl (wait c)) waits then Panic ''invalid memory address or nil pointer dereference''
                       else Ret ((True, None), waits, pm2)))))"

section \<open>What is submitted\<close>

text \<open>Checking vouchers after they were listed leaves the manager as it is: the accessor is in the cache.\<close>

lemma check_keeps:
  assumes "PaychVoucherList repo pm ch = (Inr vs, pm1)"
  shows "snd (PaychVoucherCheckSpendable api repo pm1 ch sv) = pm1"
  using assms
  by (auto simp: PaychVoucherList_def ListVouchers_def PaychVoucherCheckSpendable_def CheckVoucherSpendable_def byAddress_def
      accessorByAddress_def accessorByFromTo_def addAccessorToCache_def Let_def split: sum.splits prod.splits option.splits)

text \<open>The message that submits a voucher of channel \<open>ch\<close>.\<close>

definition redeems :: "paychAPI \<Rightarrow> address \<Rightarrow> SignedVoucher \<Rightarrow> Message \<Rightarrow> bool" where
  "redeems api ch sv msg \<longleftrightarrow> (\<exists>ver from. mbUpdate api ver from ch sv [] = Inr msg)"

lemma pushMessage_sends:
  assumes "pushMessage api st msg = (t, x)"
  shows "(isl x \<and> t = st) \<or> (\<not> isl x \<and> pchSent t = pchSent st @ [msg])"
  using assms by (cases x) (auto simp: pushMessage_def split: sum.splits)

lemma saveChannelInfo_sends: "saveChannelInfo api repo st ci = (st', err) \<Longrightarrow> pchSent st' = pchSent st"
  by (auto simp: saveChannelInfo_def split: prod.splits)

text \<open>Submitting either stops before a message is sent, or sends one message, whatever happens then.\<close>

lemma submitVoucher_sends:
  assumes "submitVoucher api repo st ch sv [] = (st1, r)"
  shows "(\<exists>msg. redeems api ch sv msg \<and> pchSent st1 = pchSent st @ [msg]) \<or> (isl r \<and> pchSent st1 = pchSent st)"
proof -
  consider "isl r" "st1 = st"
    | ci has msg where "pcGetChannelByAddress repo (pchStore st) ch = Inr ci" "HasVoucher api ci sv = Inr has"
      "(if has then WasVoucherSubmitted api ci sv else Inr False) = Inr False"
      "tryE (messageBuilder api (Control ci)) (\<lambda>(ver, from). mbUpdate api ver from ch sv []) = Inr msg"
    using assms by (auto simp: submitVoucher_def split: sum.splits bool.splits)
  then show ?thesis
  proof cases
    case (2 ci has msg)
    have msg: "redeems api ch sv msg" using 2(4) by (auto simp: redeems_def tryE_Inr_iff)
    obtain st0 x where push: "pushMessage api st msg = (st0, x)" by (cases "pushMessage api st msg")
    define ci1 where "ci1 = (if \<not> has then ci\<lparr>Vouchers := Vouchers ci @ [newVoucherInfo sv]\<rparr> else ci)"
    show ?thesis
    proof (cases x)
      case (Inl e)
      then show ?thesis using assms 2 push pushMessage_sends [OF push] by (auto simp: submitVoucher_def)
    next
      case (Inr msgId)
      have "pchSent st1 = pchSent st0"
      proof (cases "MarkVoucherSubmitted api ci1 sv")
        case (Inl e)
        then show ?thesis using assms 2 push Inr by (simp add: submitVoucher_def Let_def flip: ci1_def)
      next
        case mark: (Inr ci2)
        obtain st2 err where save: "saveChannelInfo api repo st0 ci2 = (st2, err)" by (cases "saveChannelInfo api repo st0 ci2")
        have "st1 = st2" using assms 2 push Inr mark save by (cases err) (simp_all add: submitVoucher_def Let_def flip: ci1_def)
        then show ?thesis using saveChannelInfo_sends [OF save] by simp
      qed
      then show ?thesis using pushMessage_sends [OF push] Inr msg by auto
    qed
  qed simp
qed

lemma submit_sends:
  assumes "PaychVoucherSubmit api repo pm ch sv = (r, pm1)"
  shows "(\<exists>msg. redeems api ch sv msg \<and> pchSent (pm_pch pm1) = pchSent (pm_pch pm) @ [msg]) \<or>
    (isl r \<and> pchSent (pm_pch pm1) = pchSent (pm_pch pm))"
proof -
  consider e where "accessorByAddress repo pm ch = (Inl e, pm1)" "isl r"
    | key pm0 where "accessorByAddress repo pm ch = (Inr key, pm0)" "submitVoucher api repo (pm_pch pm0) ch sv [] = (pm_pch pm1, r)"
    using assms by (auto simp: PaychVoucherSubmit_def SubmitVoucher_def byAddress_def split: sum.splits prod.splits)
  then show ?thesis
  proof cases
    case 1
    then show ?thesis by (auto simp: accessorByAddress_def split: sum.splits prod.splits)
  next
    case 2
    then show ?thesis using submitVoucher_sends [OF 2(2)] accessorByAddress_known(3) [OF 2(1)] by simp
  qed
qed

lemma submitAll_sends:
  assumes "submitAll api repo ch vs waits pm = (err, waits', pm')"
  shows "\<exists>k msgs. k \<le> length vs \<and> (err = None \<longrightarrow> k = length vs) \<and> list_all2 (redeems api ch) (take k vs) msgs \<and>
    pchSent (pm_pch pm') = pchSent (pm_pch pm) @ msgs"
  using assms
proof (induction vs arbitrary: waits pm)
  case (Cons v vs)
  obtain r pm1 where s: "PaychVoucherSubmit api repo pm ch v = (r, pm1)" by (cases "PaychVoucherSubmit api repo pm ch v")
  show ?case
  proof (cases r)
    case (Inl e)
    then have "err = Some e" "pm' = pm1" using Cons.prems s by simp_all
    then show ?thesis using submit_sends [OF s]
      by (auto intro: exI [of _ "0 :: nat"] exI [of _ "1 :: nat"])
  next
    case (Inr c)
    then obtain msg where m: "redeems api ch v msg" "pchSent (pm_pch pm1) = pchSent (pm_pch pm) @ [msg]" using submit_sends [OF s] by auto
    from Cons.IH [of "waits @ [c]" pm1] Cons.prems s Inr obtain k msgs where
      "k \<le> length vs" "err = None \<longrightarrow> k = length vs" "list_all2 (redeems api ch) (take k vs) msgs"
      "pchSent (pm_pch pm') = pchSent (pm_pch pm1) @ msgs" by auto
    then show ?thesis using m by (intro exI [of _ "Suc k"] exI [of _ "msg # msgs"]) simp
  qed
qed simp

lemma list_keeps:
  assumes "PaychVoucherList repo pm ch = (r, pm1)"
  shows "pm_pch pm1 = pm_pch pm"
proof (cases "accessorByAddress repo pm ch")
  case (Pair x pm0)
  then show ?thesis using assms accessorByAddress_known(3) [of repo pm ch _ pm0]
    by (cases x) (auto simp: PaychVoucherList_def ListVouchers_def byAddress_def accessorByAddress_def split: sum.splits prod.splits)
qed

lemma bestOf_finite: "bestOf check vs best \<Longrightarrow> finite (dom best)"
proof (rule finite_subset)
  assume "bestOf check vs best"
  then show "dom best \<subseteq> svLane ` set vs" by (auto simp: bestOf_def)
qed simp

text \<open>Property C39. On a settle message that was executed, the settler without an error submits, once for each lane that has a
  spendable voucher, the spendable voucher of that lane with the largest amount, and nothing else; with an error it
  submits such vouchers for a part of the lanes only, and none if a voucher could not be checked. It always keeps
  listening, and panics only when a submitted message cannot be waited for.\<close>

theorem settle_submits_best:
  assumes "\<And>best. finite (dom best) \<Longrightarrow> distinct (order best) \<and> set (order best) = dom best"
    and vs: "PaychVoucherList repo pm (msgTo msg) = (Inr vs, pm1)" and ok: "ExitCode rec = 0"
  shows "case messageHandler api repo order wait msg rec pm of
      Panic _ \<Rightarrow> \<exists>c. isl (wait c)
    | Ret ((goesOn, err), waits, pm') \<Rightarrow> goesOn \<and>
       (case BestSpendableByLane (Inr vs) (\<lambda>sv. fst (PaychVoucherCheckSpendable api repo pm1 (msgTo msg) sv)) of
          Inl e \<Rightarrow> err = Some e \<and> pm_pch pm' = pm_pch pm
        | Inr best \<Rightarrow> bestOf (\<lambda>sv. fst (PaychVoucherCheckSpendable api repo pm1 (msgTo msg) sv)) vs best \<and>
            (\<exists>lanes msgs. distinct lanes \<and> set lanes \<subseteq> dom best \<and> (err = None \<longrightarrow> set lanes = dom best) \<and>
               list_all2 (\<lambda>lane m. redeems api (msgTo msg) (the (best lane)) m) lanes msgs \<and> pchSent (pm_pch pm') = pchSent (pm_pch pm) @ msgs))"
proof -
  let ?check = "\<lambda>sv. fst (PaychVoucherCheckSpendable api repo pm1 (msgTo msg) sv)"
  show ?thesis
  proof (cases "BestSpendableByLane (Inr vs) ?check")
    case (Inl e)
    then show ?thesis using vs ok list_keeps [OF vs] by (simp add: messageHandler_def)
  next
    case (Inr best)
    have best: "bestOf ?check vs best"
      using bestSpendableLoop_best [of ?check Map.empty vs best "[]"] Inr by (simp add: BestSpendableByLane_def bestOf_def)
    note lanes = assms(1) [OF bestOf_finite [OF best]]
    obtain err waits pm' where s: "submitAll api repo (msgTo msg) (map (\<lambda>lane. the (best lane)) (order best)) [] pm1 = (err, waits, pm')"
      by (cases "submitAll api repo (msgTo msg) (map (\<lambda>lane. the (best lane)) (order best)) [] pm1")
    obtain k msgs where k: "k \<le> length (order best)" "err = None \<longrightarrow> k = length (order best)"
      "list_all2 (redeems api (msgTo msg)) (take k (map (\<lambda>lane. the (best lane)) (order best))) msgs"
      "pchSent (pm_pch pm') = pchSent (pm_pch pm) @ msgs"
      using submitAll_sends [OF s] list_keeps [OF vs] by auto
    then have "list_all2 (\<lambda>lane m. redeems api (msgTo msg) (the (best lane)) m) (take k (order best)) msgs"
      by (simp add: take_map list_all2_map1)
    moreover have "distinct (take k (order best))" "set (take k (order best)) \<subseteq> dom best" "err = None \<longrightarrow> set (take k (order best)) = dom best"
      using lanes k(2) by (auto dest: in_set_takeD)
    ultimately have sent: "\<exists>lanes msgs. distinct lanes \<and> set lanes \<subseteq> dom best \<and> (err = None \<longrightarrow> set lanes = dom best) \<and>
        list_all2 (\<lambda>lane m. redeems api (msgTo msg) (the (best lane)) m) lanes msgs \<and> pchSent (pm_pch pm') = pchSent (pm_pch pm) @ msgs"
      using k(4) by blast
    have run: "messageHandler api repo order wait msg rec pm =
        (if err = None \<and> list_ex (\<lambda>c. isl (wait c)) waits then Panic ''invalid memory address or nil pointer dereference'' else Ret ((True, err), waits, pm'))"
      using vs ok Inr s by (simp add: messageHandler_def split: option.split)
    show ?thesis
    proof (cases "err = None \<and> list_ex (\<lambda>c. isl (wait c)) waits")
      case True
      then show ?thesis using run by (auto simp: list_ex_iff)
    next
      case False
      have "messageHandler api repo order wait msg rec pm = Ret ((True, err), waits, pm')" unfolding run using False by (rule if_not_P)
      then show ?thesis using best sent Inr by simp
    qed
  qed
qed

definition demo_lookup :: MsgLookup where
  "demo_lookup = \<lparr>lkMessage = ''m'', lkReceipt = \<lparr>ExitCode = 0, recReturn = [], GasUsed = 0\<rparr>, lkTipSet = [], lkHeight = 1\<rparr>"

definition demo_manager :: "(ds_key \<times> paych_value) list Manager" where
  "demo_manager = \<lparr>pm_pch = demo_pch, channels = Map.empty\<rparr>"

lemma demo_listed: "\<exists>pm1. PaychVoucherList demo_repo demo_manager ''ch'' = (Inr [demo_voucher], pm1)"
proof -
  have "pcGetChannelByAddress demo_repo (pchStore demo_pch) ''ch'' = Inr demo_channel" by (simp add: demo_store)
  then show ?thesis
    by (simp add: PaychVoucherList_def ListVouchers_def listVouchers_def vouchersForPaych_def byAddress_def accessorByAddress_def accessorByFromTo_def
        addAccessorToCache_def demo_manager_def Let_def demo_channel_def newVoucherInfo_def)
qed

theorem settle_submits_best_witness:
  "\<exists>err waits pm'. messageHandler demo_paych demo_repo (\<lambda>best. sorted_list_of_set (dom best)) (\<lambda>_. Inr demo_lookup) demo_message
     (lkReceipt demo_lookup) demo_manager = Ret ((True, err), waits, pm')"
proof -
  obtain pm1 where v: "PaychVoucherList demo_repo demo_manager (msgTo demo_message) = (Inr [demo_voucher], pm1)"
    using demo_listed by (auto simp: demo_message_def)
  have o: "\<And>best :: u64 \<rightharpoonup> SignedVoucher. finite (dom best) \<Longrightarrow> distinct (sorted_list_of_set (dom best)) \<and> set (sorted_list_of_set (dom best)) = dom best" by simp
  have r: "ExitCode (lkReceipt demo_lookup) = 0" by (simp add: demo_lookup_def)
  show ?thesis using settle_submits_best [OF o v r, of demo_paych "\<lambda>_. Inr demo_lookup"] by (simp split: outcome.splits prod.splits)
qed

text \<open>A goroutine that waits in vain crashes the process: it logs the error and then reads the receipt of a lookup that is not
  there.\<close>

theorem failed_wait_panics:
  assumes "PaychVoucherList repo pm (msgTo msg) = (Inr [v], pm1)" "ExitCode rec = 0" "order [svLane v \<mapsto> v] = [svLane v]"
    and "fst (PaychVoucherCheckSpendable api repo pm1 (msgTo msg) v) = Inr True" "PaychVoucherSubmit api repo pm1 (msgTo msg) v = (Inr c, pm2)"
    and "wait c = Inl e"
  shows "messageHandler api repo order wait msg rec pm = Panic ''invalid memory address or nil pointer dereference''"
  using assms by (simp add: messageHandler_def BestSpendableByLane_def)

text \<open>One voucher that cannot be submitted keeps the vouchers of the lanes after it from being submitted.\<close>

theorem failed_submit_stops:
  "PaychVoucherSubmit api repo pm ch v = (Inl e, pm1) \<Longrightarrow> submitAll api repo ch (v # vs) waits pm = (Some e, waits, pm1)"
  by simp

end
