(* ===== verification/Spec2Isabelle.thy ===== *)
theory Spec2Isabelle
  imports Fund_Manager_Inv Paych_Manager_Props Deal_Assigner_Props Deal_Publisher_Props Deal_Handler_Props Deal_Tracker
    State_Store Retrieval_Lookup Provider_Node Miner_Manager Dag_Store Badger_Move
    Mysql_Paych Mysql_Retrieval Mysql_Provider Client_Props Import_Manager Paych_Settler
begin

text \<open>
  Verification of venus-market, the storage and retrieval market of a Filecoin mining pool (the Go module under
  \<open>src/\<close>).

  \<^bold>\<open>The program.\<close> Clients propose storage deals; the storage provider accepts them, reserves funds, publishes them on chain
  in batches, hands the data to the sealing subsystem, packs deals into sectors and follows them on chain. Clients
  retrieve data and pay for it with vouchers of payment channels. The fund manager keeps the market balance of every
  address, the payment channel manager the channels, their lanes and vouchers. All of them keep their state in
  repositories, over badger or over mysql, both of which are modelled. The components call each other through interfaces
  (\<open>repo.StorageDealRepo\<close>, \<open>repo.FundRepo\<close> and others); the chain node, the wallet, the messager, the data transfer
  module, the DAG store, the datastore and the CBOR codec are not part of the module and are parameters here.

  \<^bold>\<open>How the code is modelled.\<close> A Go struct is a record with the fields the code uses, an error is a value of \<open>error\<close>
  (\<open>errors.Is\<close> and wrapping included), a function that can fail returns a sum, one that can panic an \<open>outcome\<close>. \<open>uint64\<close> is a
  64-bit word and wraps; a conversion to \<open>int64\<close> is \<open>sint\<close>; \<open>big.Int\<close> is \<open>int\<close>. State behind a pointer is passed and
  returned; effects on the outside are a log in order where a property speaks of them. Goroutines and timers are
  entries of the state that a step relation picks up in any order; a mutex makes an operation one step. A map that is
  ranged over is a list in the order the runtime picks. Log output is left out.

  \<^bold>\<open>The theories.\<close>
  \<^item> \<open>Market_Prelude\<close>: Go values, errors, outcomes and the shared lemmas, with the collections \<open>go_err\<close> and \<open>go_split\<close>.
  \<^item> \<open>Datastore\<close>: the datastore and the codec as records of operations with the locales \<open>datastore\<close> and \<open>codec\<close>, instantiated
    by the in-memory store. \<open>Badger_Travel\<close> (\<open>models/badger/utils.go\<close>) walks a store; \<open>Keyed_Store\<close> is the locale of
    repositories with one value per key.
  \<^item> \<open>Fund_Repo\<close> (\<open>models/badger/fund.go\<close>), \<open>Fund_Manager\<close> (\<open>fundmgr/fundmanager.go\<close>), \<open>Fund_Manager_Props\<close>,
    \<open>Fund_Manager_Inv\<close>: reservations, releases and withdrawals, their queues, messages and goroutines. Shown: an invariant
    of all reachable states, withdrawals stay within what is not reserved, batches top up exactly what is missing,
    every queued request is completed, and exactly when processing panics.
  \<^item> \<open>Paych_Repo\<close> (\<open>models/badger/paych.go\<close>), \<open>Paych_Voucher\<close> (\<open>paychmgr/paych.go\<close>), \<open>Paych_Funds\<close>
    (\<open>paychmgr/simple.go\<close>, \<open>msglistener.go\<close>), \<open>Paych_Manager\<close> (\<open>paychmgr/manager.go\<close>, \<open>accessorcache.go\<close>,
    \<open>state.go\<close>) and their \<open>Props\<close> theories: accepted vouchers are valid and covered, nonces increase, stored channels stay
    consistent, the funding queue answers its requests together.
  \<^item> \<open>Deal_Types\<close>, \<open>Storage_Deal_Repo\<close> (\<open>models/badger/storage_deal.go\<close>): the repository of storage deals refines a map
    from proposals to deals (locale \<open>storage_deal_repo\<close>).
  \<^item> \<open>Deal_Align\<close> (\<open>storageprovider/deal_assign_util.go\<close>), \<open>Deal_Assigner\<close> (\<open>deal_assigner.go\<close>): sectors are tiled by
    deals and zeroed pieces, no deal is packed twice.
  \<^item> \<open>Address_Select\<close> (\<open>address_select.go\<close>), \<open>Deal_Publisher\<close> (\<open>dealpublisher.go\<close>): the publisher as a step relation;
    no submitted deal is lost or published twice, and how it can lose its timer.
  \<^item> \<open>Storage_Ask\<close> (\<open>models/badger/storage_ask.go\<close>, \<open>storageprovider/storage_ask.go\<close>): asks that were set are read back.
  \<^item> \<open>Deal_Handler\<close> (\<open>deal_handler.go\<close>): \<open>HandleOff\<close> as a chain of stages; which proposals are accepted, how a deal ends and
    that its funds are released. \<open>Deal_Tracker\<close> (\<open>deal_tracker.go\<close>): the moves of deals that the chain justifies.
  \<^item> \<open>State_Store\<close> (\<open>models/badger/statestore\<close>, \<open>cid_info.go\<close>): the store of CID infos and its round trip.
  \<^item> \<open>Retrieval_Repo\<close> (\<open>models/badger/retrieval_deal.go\<close>, \<open>retrieval_ask.go\<close>), \<open>Retrieval_Handler\<close>
    (\<open>retrievalprovider/retrieval_handler.go\<close>, \<open>provider_environments.go\<close>, \<open>datatransfer_handler.go\<close>,
    \<open>provider_datatransfer_sub.go\<close>), \<open>Retrieval_Revalidator\<close> (\<open>revalidator.go\<close>), \<open>Retrieval_Validator\<close>
    (\<open>requestvalidation.go\<close>, \<open>piecestore.go\<close>, \<open>stream_handler.go\<close>), \<open>Retrieval_Props\<close>, \<open>Retrieval_Lookup\<close>: payments against sent
    data over every interleaving, and what a lookup returns. The payment channel manager enters through the locale
    \<open>voucher_sink\<close>, which \<open>PaychVoucherAdd\<close> satisfies.
  \<^item> \<open>Message_Client\<close> (\<open>api/clients/mix_msgclient.go\<close>, \<open>nonce_assign.go\<close>): sending messages and waiting for them; a wait ends with
    the first decisive answer. \<open>Current_Deal_Info\<close> (\<open>storageprovider/currentdealinfo.go\<close>) and \<open>Sector_Committed\<close>
    (\<open>ondealsectorcommitted.go\<close>): the deal found for a publish message is the right one, and the callback on precommits
    reports once and only what the chain shows.
  \<^item> \<open>Storage_Transfer\<close> (\<open>datatransfer_handler.go\<close>, \<open>datatransfersubscriber.go\<close>), \<open>Deal_Stream\<close> (\<open>stream.go\<close>),
    \<open>Storage_Provider\<close> (\<open>storageprovider.go\<close>): the entry points of the storage provider. \<open>Storage_Provider_Props\<close> has the provider
    as a step relation with the locale \<open>provider_repo\<close>, which the badger repository satisfies, and
    \<open>Storage_Provider_Thms\<close> what it promises: proposals are kept, streams and imports do what they should and no more.
  \<^item> \<open>Provider_Node\<close> (\<open>storageprovider/provider.go\<close>): the node adapter; with it the deal handler stages only deals that are on
    chain, within the collateral bounds.
  \<^item> \<open>Client_Node\<close> (\<open>storageprovider/client.go\<close>, \<open>dealstatematcher.go\<close>), \<open>Client_Props\<close>: the node adapter of the client. A validated deal has the
    identifier the provider finds, the cache of deal states is transparent but for failed fetches, the end of a deal
    is reported once and rightly over every sequence of calls of the events service.
  \<^item> \<open>Import_Manager\<close> (\<open>imports/manager.go\<close>): the imports of the client, found again by their root (locale \<open>import_store\<close>).
  \<^item> \<open>Paych_Settler\<close> (\<open>paychmgr/settler\<close>): the best voucher of every lane is submitted when a channel settles.
  \<^item> \<open>Sql_Table\<close> (\<open>models/mysql/db.go\<close>): the column types, and the tables of gorm as the record \<open>sqlTable\<close> with the locales \<open>sql_table\<close> and
    \<open>sql_repo\<close>. \<open>Mysql_Deals\<close> (\<open>storage_deal.go\<close>), \<open>Mysql_Paych\<close> (\<open>fund.go\<close>, \<open>paych.go\<close>), \<open>Mysql_Retrieval\<close> (\<open>retrieval_deal.go\<close>,
    \<open>retrieval_ask.go\<close>, \<open>storage_ask.go\<close>, \<open>cid_info.go\<close>): the mysql repositories refine the same maps as those over badger, on
    values that a row can hold, and where the two differ. \<open>Mysql_Provider\<close>: what a row that cannot be read does to the
    storage provider.
  \<^item> \<open>Miner_Manager\<close> (\<open>minermgr/minermgr.go\<close>): the addresses of the pool, each once, with its account.
  \<^item> \<open>Piece_Storage\<close> (\<open>piecestorage/storagemgr.go\<close>, \<open>filestore.go\<close>, \<open>memstore.go\<close>): the manager finds a store that qualifies; the
    locale \<open>piece_store\<close> is the contract of a store, satisfied in memory and, under the laws of \<open>fs_store\<close>, in a
    directory. \<open>S3_Storage\<close> (\<open>piecestorage/s3.go\<close>, \<open>utils/counter_reader.go\<close>): the store on S3, over the laws of the service
    in the locale \<open>s3_service\<close>, and which bytes it loses. \<open>Align_Reader\<close> (\<open>utils/algn_zero_reader.go\<close>): the reader that pads a
    piece, equal to reading the padded data (locale \<open>full_reader\<close>).
  \<^item> \<open>Dag_Store\<close> (\<open>dagstore/market_api.go\<close>, \<open>mount.go\<close>, \<open>wrapper.go\<close>): mounts of pieces over the deal repository and the piece storage,
    loading of shards, and when the migration of deals returns.
  \<^item> \<open>Blockstores\<close> (\<open>blockstore/mem.go\<close>, \<open>idstore.go\<close>, \<open>buffered.go\<close>, \<open>blockstore.go\<close>): the contract of a blockstore (locale \<open>blockstore\<close>), the
    stores that satisfy it and the stores built over others. \<open>Badger_Blockstore\<close> (\<open>blockstore/badger/blockstore.go\<close>): the
    badger blockstore satisfies it while no move runs; \<open>Badger_Move\<close>: its move to a new database as a machine that
    interleaves with operations, which loses no acknowledged block with data and always can end.

  \<^bold>\<open>Bounds.\<close> Every loop is a total function, structural or with a termination proof; no fuel is used. Loops that wait for
  events (publisher, fund manager, tracker) are step relations or sequences of ticks.

  \<^bold>\<open>Not modelled.\<close> The command line, the API (\<open>api/impl\<close>) and the adapters of the channel manager only forward to the components;
  \<open>client/client.go\<close> is calls of the go-fil-markets client with file input and output; configuration and wiring build
  objects of libraries; metrics count. Opening and migrating the mysql database, the online garbage collection of
  the badger library, the goroutines of the DAG store that trace events, and presigned S3 transfers are calls of
  libraries that leave no state of the program behind.
\<close>

end
